(* ===== verification/Prelude.thy ===== *)
theory Prelude
  imports Main "HOL-Library.Char_ord" "HOL-Library.List_Lexorder"
begin

text \<open>
  Shared vocabulary of the development: texts, programs that read and write a state and may
  raise, SQLite tables as lists of rows in rowid order, and the lemma collections the
  component theories extend.

  \<^item> A Python \<open>str\<close> is a \<^typ>\<open>string\<close>; the model's texts are those whose code points lie
    below 256 (the restricted JSON profile of the Canonical theory, which needs all of
    Unicode, uses lists of code points instead). The order of \<open>Char_ord\<close> and
    \<open>List_Lexorder\<close> is Python's and SQLite's BINARY order on such texts.
  \<^item> A statement sequence that may raise is a function from the state to the outcome
    (\<open>Inl\<close> the exception, \<open>Inr\<close> the value) and the state it leaves behind: an exception
    does not undo the writes made before it, unless a transaction rolls them back.
  \<^item> A table is the list of its rows, oldest first; a key function names its primary key.
\<close>

type_synonym str = string
type_synonym bytes = "nat list"
type_synonym ('s, 'e, 'a) prog = "'s \<Rightarrow> ('e + 'a) \<times> 's"

text \<open>White space and \<open>str.strip\<close>.\<close>

definition is_space :: "char \<Rightarrow> bool" where
  "is_space c \<longleftrightarrow> (of_char c :: nat) = 32 \<or> (9 \<le> (of_char c :: nat) \<and> (of_char c :: nat) \<le> 13) \<or>
     (28 \<le> (of_char c :: nat) \<and> (of_char c :: nat) \<le> 31) \<or>
     (of_char c :: nat) = 133 \<or> (of_char c :: nat) = 160"

definition strip :: "str \<Rightarrow> str" where
  "strip s = rev (dropWhile is_space (rev (dropWhile is_space s)))"

named_theorems table_simps "rewriting of table operations"
named_theorems pres_intros "preservation rules for programs"
named_theorems keep_intros "preservation rules for programs run in one state"

section \<open>Programs with state and exceptions\<close>

definition ret :: "'a \<Rightarrow> ('s, 'e, 'a) prog" where
  "ret a = (\<lambda>s. (Inr a, s))"

definition raise :: "'e \<Rightarrow> ('s, 'e, 'a) prog" where
  "raise e = (\<lambda>s. (Inl e, s))"

definition seq :: "('s, 'e, 'a) prog \<Rightarrow> ('a \<Rightarrow> ('s, 'e, 'b) prog) \<Rightarrow> ('s, 'e, 'b) prog" where
  "seq p f = (\<lambda>s. case p s of (Inl e, s') \<Rightarrow> (Inl e, s') | (Inr a, s') \<Rightarrow> f a s')"

definition query :: "('s \<Rightarrow> 'a) \<Rightarrow> ('s, 'e, 'a) prog" where
  "query f = (\<lambda>s. (Inr (f s), s))"

definition exec :: "('s \<Rightarrow> 's) \<Rightarrow> ('s, 'e, unit) prog" where
  "exec f = (\<lambda>s. (Inr (), f s))"

definition lift :: "'e + 'a \<Rightarrow> ('s, 'e, 'a) prog" where
  "lift r = (\<lambda>s. (r, s))"

lemmas prog_defs = ret_def raise_def seq_def query_def exec_def lift_def

text \<open>Running a program one statement at a time.\<close>

lemma prog_run:
  "ret a s = (Inr a, s)"
  "raise e s = (Inl e, s)"
  "query f s = (Inr (f s), s)"
  "exec h s = (Inr (), h s)"
  "lift r s = (r, s)"
  "seq (query f) g s = g (f s) s"
  "seq (exec h) k s = k () (h s)"
  "seq (ret a) l s = l a s"
  "seq (raise e) m s = (Inl e, s)"
  "seq (lift r) n s = (case r of Inl e \<Rightarrow> (Inl e, s) | Inr a \<Rightarrow> n a s)"
  "(if b then p else q) s = (if b then p s else q s)"
  by (simp_all add: prog_defs split: sum.split)

lemma seq_run:
  "seq p f s = (case p s of (Inl e, s') \<Rightarrow> (Inl e, s') | (Inr a, s') \<Rightarrow> f a s')"
  by (simp add: seq_def)

lemma seq_returns: "seq p f s = (Inr b, u) \<longleftrightarrow> (\<exists>a t. p s = (Inr a, t) \<and> f a t = (Inr b, u))"
  by (auto simp: seq_def split: prod.splits sum.splits)

text \<open>A program preserves a property of the state whether it returns or raises.\<close>

definition preserves :: "('s \<Rightarrow> bool) \<Rightarrow> ('s, 'e, 'a) prog \<Rightarrow> bool" where
  "preserves I p \<longleftrightarrow> (\<forall>s. I s \<longrightarrow> I (snd (p s)))"

lemma preservesI: "(\<And>s. I s \<Longrightarrow> I (snd (p s))) \<Longrightarrow> preserves I p"
  by (simp add: preserves_def)

lemma preservesD: "preserves I p \<Longrightarrow> I s \<Longrightarrow> I (snd (p s))"
  by (simp add: preserves_def)

lemma preserves_ret [pres_intros]: "preserves I (ret a)"
  by (simp add: preserves_def ret_def)

lemma preserves_raise [pres_intros]: "preserves I (raise e)"
  by (simp add: preserves_def raise_def)

lemma preserves_query [pres_intros]: "preserves I (query f)"
  by (simp add: preserves_def query_def)

lemma preserves_lift [pres_intros]: "preserves I (lift r)"
  by (simp add: preserves_def lift_def)

lemma preserves_seq [pres_intros]:
  "preserves I p \<Longrightarrow> (\<And>a. preserves I (f a)) \<Longrightarrow> preserves I (seq p f)"
  unfolding preserves_def seq_def by (fastforce split: prod.splits sum.splits)

lemma preserves_exec: "(\<And>s. I s \<Longrightarrow> I (f s)) \<Longrightarrow> preserves I (exec f)"
  by (simp add: preserves_def exec_def)

lemma preserves_if [pres_intros]:
  "(b \<Longrightarrow> preserves I p) \<Longrightarrow> (\<not> b \<Longrightarrow> preserves I q) \<Longrightarrow> preserves I (if b then p else q)"
  by simp

lemma preserves_case_option [pres_intros]:
  "(x = None \<Longrightarrow> preserves I p) \<Longrightarrow> (\<And>y. x = Some y \<Longrightarrow> preserves I (f y)) \<Longrightarrow>
   preserves I (case x of None \<Rightarrow> p | Some y \<Rightarrow> f y)"
  by (simp split: option.split)

lemma preserves_case_prod [pres_intros]: "(\<And>a b. x = (a, b) \<Longrightarrow> preserves I (f a b)) \<Longrightarrow> preserves I (case x of (a, b) \<Rightarrow> f a b)"
  by (simp split: prod.split)

lemma preserves_case_sum [pres_intros]:
  "(\<And>e. x = Inl e \<Longrightarrow> preserves I (f e)) \<Longrightarrow> (\<And>a. x = Inr a \<Longrightarrow> preserves I (g a)) \<Longrightarrow>
   preserves I (case x of Inl e \<Rightarrow> f e | Inr a \<Rightarrow> g a)"
  by (simp split: sum.split)

text \<open>The same at one state, so that what a query found is known to the statements after it.\<close>

definition keeps :: "('s \<Rightarrow> bool) \<Rightarrow> ('s, 'e, 'a) prog \<Rightarrow> 's \<Rightarrow> bool" where
  "keeps I p s \<longleftrightarrow> (I s \<longrightarrow> I (snd (p s)))"

lemma preserves_keeps: "preserves I p \<longleftrightarrow> (\<forall>s. keeps I p s)"
  by (simp add: preserves_def keeps_def)

lemma preserves_by_keeps: "(\<And>s. keeps I p s) \<Longrightarrow> preserves I p"
  by (simp add: preserves_keeps)

lemma keepsD: "preserves I p \<Longrightarrow> keeps I p s"
  by (simp add: preserves_keeps)

lemma keepsI: "(I s \<Longrightarrow> I (snd (p s))) \<Longrightarrow> keeps I p s"
  by (simp add: keeps_def)

lemma keeps_ret [keep_intros]: "keeps I (ret a) s"
  by (simp add: keeps_def ret_def)

lemma keeps_raise [keep_intros]: "keeps I (raise e) s"
  by (simp add: keeps_def raise_def)

lemma keeps_query [keep_intros]: "keeps I (g (f s)) s \<Longrightarrow> keeps I (seq (query f) g) s"
  by (simp add: keeps_def prog_run)

lemma keeps_lift [keep_intros]: "(\<And>a. r = Inr a \<Longrightarrow> keeps I (g a) s) \<Longrightarrow> keeps I (seq (lift r) g) s"
  by (simp add: keeps_def prog_run split: sum.split)

lemma keeps_exec: "(I s \<Longrightarrow> I (h s)) \<Longrightarrow> (I (h s) \<Longrightarrow> keeps I (g ()) (h s)) \<Longrightarrow> keeps I (seq (exec h) g) s"
  by (simp add: keeps_def prog_run)

lemma keeps_exec2:
  "(I s \<Longrightarrow> I (k (h s))) \<Longrightarrow> keeps I (g ()) (k (h s)) \<Longrightarrow>
   keeps I (seq (exec h) (\<lambda>_. seq (exec k) g)) s"
  by (simp add: keeps_def prog_run)

lemma keeps_seq:
  "keeps I p s \<Longrightarrow> (\<And>a t. p s = (Inr a, t) \<Longrightarrow> keeps I (g a) t) \<Longrightarrow> keeps I (seq p g) s"
  by (auto simp: keeps_def seq_def split: prod.split sum.split)

lemma keeps_seq_same: "snd (p s) = s \<Longrightarrow> (\<And>a. keeps I (g a) s) \<Longrightarrow> keeps I (seq p g) s"
  by (auto simp: keeps_def seq_def split: prod.split sum.split)

lemma keeps_seq_any: "preserves I p \<Longrightarrow> (\<And>a t. keeps I (g a) t) \<Longrightarrow> keeps I (seq p g) s"
  by (simp add: keeps_seq keepsD)

lemma keeps_if [keep_intros]:
  "(b \<Longrightarrow> keeps I p s) \<Longrightarrow> (\<not> b \<Longrightarrow> keeps I q s) \<Longrightarrow> keeps I (if b then p else q) s"
  by simp

lemma keeps_case_option [keep_intros]:
  "(x = None \<Longrightarrow> keeps I p s) \<Longrightarrow> (\<And>y. x = Some y \<Longrightarrow> keeps I (f y) s) \<Longrightarrow>
   keeps I (case x of None \<Rightarrow> p | Some y \<Rightarrow> f y) s"
  by (simp split: option.split)

lemma keeps_case_sum [keep_intros]:
  "(\<And>e. x = Inl e \<Longrightarrow> keeps I (f e) s) \<Longrightarrow> (\<And>a. x = Inr a \<Longrightarrow> keeps I (g a) s) \<Longrightarrow>
   keeps I (case x of Inl e \<Rightarrow> f e | Inr a \<Rightarrow> g a) s"
  by (simp split: sum.split)

section \<open>Tables\<close>

definition select :: "('r \<Rightarrow> bool) \<Rightarrow> 'r list \<Rightarrow> 'r list" where
  "select P t = filter P t"

definition fetchone :: "('r \<Rightarrow> bool) \<Rightarrow> 'r list \<Rightarrow> 'r option" where
  "fetchone P t = (case filter P t of [] \<Rightarrow> None | r # _ \<Rightarrow> Some r)"

definition rowcount :: "('r \<Rightarrow> bool) \<Rightarrow> 'r list \<Rightarrow> nat" where
  "rowcount P t = length (filter P t)"

definition insert_or_ignore :: "('r \<Rightarrow> 'k) \<Rightarrow> 'r \<Rightarrow> 'r list \<Rightarrow> 'r list" where
  "insert_or_ignore k r t = (if k r \<in> set (map k t) then t else t @ [r])"

definition update_where :: "('r \<Rightarrow> bool) \<Rightarrow> ('r \<Rightarrow> 'r) \<Rightarrow> 'r list \<Rightarrow> 'r list" where
  "update_where P f t = map (\<lambda>r. if P r then f r else r) t"

definition upsert :: "('r \<Rightarrow> 'k) \<Rightarrow> 'r \<Rightarrow> ('r \<Rightarrow> 'r) \<Rightarrow> 'r list \<Rightarrow> 'r list" where
  "upsert k r f t =
     (if k r \<in> set (map k t) then update_where (\<lambda>r'. k r' = k r) f t else t @ [r])"

definition delete_where :: "('r \<Rightarrow> bool) \<Rightarrow> 'r list \<Rightarrow> 'r list" where
  "delete_where P t = filter (\<lambda>r. \<not> P r) t"

definition unique_key :: "('r \<Rightarrow> 'k) \<Rightarrow> 'r list \<Rightarrow> bool" where
  "unique_key k t \<longleftrightarrow> distinct (map k t)"

lemma fetchone_None [table_simps]: "fetchone P t = None \<longleftrightarrow> (\<forall>r \<in> set t. \<not> P r)"
  by (auto simp: fetchone_def filter_empty_conv split: list.splits dest: filter_eq_ConsD)

lemma fetchone_Some_mem: "fetchone P t = Some r \<Longrightarrow> r \<in> set t \<and> P r"
  by (auto simp: fetchone_def split: list.splits dest: filter_eq_ConsD)

lemma fetchone_key_present: "x \<in> k ` set t \<longleftrightarrow> (\<exists>r. fetchone (\<lambda>r. k r = x) t = Some r)"
  by (auto simp: fetchone_def filter_empty_conv split: list.splits dest: filter_eq_ConsD)

lemma set_update_where [table_simps]:
  "set (update_where P f t) = f ` {r \<in> set t. P r} \<union> {r \<in> set t. \<not> P r}"
  by (auto simp: update_where_def)

lemma length_update_where [table_simps]: "length (update_where P f t) = length t"
  by (simp add: update_where_def)

lemma set_delete_where [table_simps]: "set (delete_where P t) = {r \<in> set t. \<not> P r}"
  by (auto simp: delete_where_def)

lemma set_insert_or_ignore [table_simps]:
  "set (insert_or_ignore k r t) = (if k r \<in> k ` set t then set t else insert r (set t))"
  by (auto simp: insert_or_ignore_def)

lemma set_insert_or_ignore_subset: "set (insert_or_ignore k r t) \<subseteq> insert r (set t)"
  by (auto simp: insert_or_ignore_def)

lemma insert_or_ignore_present: "k r \<in> k ` set t \<Longrightarrow> insert_or_ignore k r t = t"
  by (simp add: insert_or_ignore_def)

lemma insert_or_ignore_idem: "insert_or_ignore k r (insert_or_ignore k r t) = insert_or_ignore k r t"
  by (auto simp: insert_or_ignore_def)

lemma unique_key_Nil [table_simps]: "unique_key k []"
  by (simp add: unique_key_def)

lemma unique_key_append [table_simps]:
  "unique_key k (t @ [r]) \<longleftrightarrow> unique_key k t \<and> k r \<notin> k ` set t"
  by (auto simp: unique_key_def)

lemma unique_key_insert_or_ignore: "unique_key k t \<Longrightarrow> unique_key k (insert_or_ignore k r t)"
  by (auto simp: insert_or_ignore_def unique_key_def)

lemma unique_key_delete: "unique_key k t \<Longrightarrow> unique_key k (delete_where P t)"
  by (auto simp: unique_key_def delete_where_def distinct_map_filter)

lemma map_key_update_where: "(\<And>r. k (f r) = k r) \<Longrightarrow> map k (update_where P f t) = map k t"
  by (simp add: update_where_def)

lemma unique_key_update: "(\<And>r. k (f r) = k r) \<Longrightarrow> unique_key k (update_where P f t) = unique_key k t"
  by (simp add: unique_key_def map_key_update_where)

lemma unique_key_upsert:
  "(\<And>r. k (f r) = k r) \<Longrightarrow> unique_key k t \<Longrightarrow> unique_key k (upsert k r f t)"
  by (auto simp: upsert_def unique_key_update unique_key_append)

lemma unique_key_same: "unique_key k t \<Longrightarrow> r \<in> set t \<Longrightarrow> r' \<in> set t \<Longrightarrow> k r = k r' \<Longrightarrow> r = r'"
  unfolding unique_key_def distinct_map by (auto dest: inj_onD)

lemma fetchone_key:
  assumes "unique_key k t" "r \<in> set t"
  shows "fetchone (\<lambda>r'. k r' = k r) t = Some r"
proof -
  obtain r' where "fetchone (\<lambda>r'. k r' = k r) t = Some r'"
    using assms(2) fetchone_None [of "\<lambda>r'. k r' = k r" t] by (cases "fetchone (\<lambda>r'. k r' = k r) t") auto
  with fetchone_Some_mem [OF this] show ?thesis
    using unique_key_same [OF assms(1)] assms(2) by auto
qed

lemma fetchone_update_same:
  "(\<And>r. P r \<Longrightarrow> P (f r)) \<Longrightarrow> fetchone P (update_where P f t) = map_option f (fetchone P t)"
  by (induction t) (auto simp: fetchone_def update_where_def)

lemma fetchone_update_other:
  "(\<And>r. P r \<Longrightarrow> \<not> Q r) \<Longrightarrow> (\<And>r. Q r \<Longrightarrow> \<not> P (f r)) \<Longrightarrow>
   fetchone P (update_where Q f t) = fetchone P t"
  by (induction t) (auto simp: fetchone_def update_where_def)

lemma fetchone_append:
  "fetchone P (t @ [r]) = (case fetchone P t of None \<Rightarrow> if P r then Some r else None | Some x \<Rightarrow> Some x)"
  by (auto simp: fetchone_def split: list.splits)

lemma rowcount_append [table_simps]: "rowcount P (t @ [r]) = rowcount P t + (if P r then 1 else 0)"
  by (simp add: rowcount_def)

lemma rowcount_delete_le: "rowcount P (delete_where Q t) \<le> rowcount P t"
  by (induction t) (auto simp: rowcount_def delete_where_def)

lemma rowcount_zero: "rowcount P t = 0 \<longleftrightarrow> (\<forall>r \<in> set t. \<not> P r)"
  by (auto simp: rowcount_def filter_empty_conv)

lemma rowcount_update_same:
  "(\<And>r. r \<in> set t \<Longrightarrow> Q r \<Longrightarrow> P (f r) = P r) \<Longrightarrow> rowcount P (update_where Q f t) = rowcount P t"
  by (induction t) (auto simp: rowcount_def update_where_def)

lemma rowcount_unique:
  assumes "unique_key k t" and "\<And>r. P r \<Longrightarrow> k r = x"
  shows "rowcount P t = (case fetchone (\<lambda>r. k r = x) t of None \<Rightarrow> 0 | Some r \<Rightarrow> if P r then 1 else 0)"
proof (cases "\<exists>r \<in> set t. P r")
  case True
  then obtain r where r: "r \<in> set t" "P r" by blast
  have same: "r' = r" if "r' \<in> set t" "P r'" for r'
    using unique_key_same [OF assms(1) that(1) r(1)] assms(2) [OF that(2)] assms(2) [OF r(2)] by simp
  have s: "set (filter P t) = {r}"
    using r by (auto dest: same)
  have "distinct (filter P t)"
    using assms(1) by (auto simp: unique_key_def distinct_map)
  then have "length (filter P t) = 1"
    using s distinct_card [of "filter P t"] by simp
  moreover have "fetchone (\<lambda>r. k r = x) t = Some r"
    using fetchone_key [OF assms(1) r(1)] assms(2) [OF r(2)] by simp
  ultimately show ?thesis using r by (simp add: rowcount_def)
next
  case False
  then have "rowcount P t = 0" by (auto simp: rowcount_zero)
  then show ?thesis using False by (auto split: option.split dest: fetchone_Some_mem)
qed

section \<open>Outcomes\<close>

definition is_ok :: "'e + 'a \<Rightarrow> bool" where
  "is_ok r \<longleftrightarrow> (case r of Inl _ \<Rightarrow> False | Inr _ \<Rightarrow> True)"

lemma is_ok_simps [simp]: "is_ok (Inl e) = False" "is_ok (Inr a) = True"
  by (simp_all add: is_ok_def)

end
