(* ===== verification/Clock.thy ===== *)
theory Clock
  imports Complex_Main "HOL-Library.Product_Lexorder" Prelude
begin

text \<open>
  Canonical UTC text and the clock and quota helpers of \<open>policy/limits.py\<close>.

  A \<open>datetime\<close> of the source (always aware, UTC, whole seconds) is the number of seconds
  since 0001-01-01T00:00:00Z, an \<^typ>\<open>int\<close>. The calendar is the proleptic Gregorian one of
  Python's \<open>datetime\<close> (years 1 to 9999). The pattern of the source ends in \<open>$\<close>, which also
  matches before a final newline; \<open>strptime\<close> then refuses the newline, so the two steps
  together accept exactly the texts of 20 characters below. Code points are below 256, where
  the pattern's digit class is 0 to 9. Floats are the rationals they denote.
\<close>

datatype clock_error = ValueError | OverflowError

type_synonym instant = int
type_synonym fields = "nat \<times> nat \<times> nat \<times> nat \<times> nat \<times> nat"

section \<open>Digits\<close>

definition is_digit :: "char \<Rightarrow> bool" where
  "is_digit c \<longleftrightarrow> 48 \<le> (of_char c :: nat) \<and> (of_char c :: nat) \<le> 57"

definition digit_val :: "char \<Rightarrow> nat" where
  "digit_val c = (of_char c :: nat) - 48"

definition digit_char :: "nat \<Rightarrow> char" where
  "digit_char d = char_of (48 + d)"

definition digits_val :: "str \<Rightarrow> nat" where
  "digits_val s = foldl (\<lambda>a c. 10 * a + digit_val c) 0 s"

fun pad_digits :: "nat \<Rightarrow> nat \<Rightarrow> str" where
  "pad_digits 0 n = []"
| "pad_digits (Suc k) n = pad_digits k (n div 10) @ [digit_char (n mod 10)]"

text \<open>\<open>str(n)\<close> of a natural number.\<close>

fun nat_text :: "nat \<Rightarrow> str" where
  "nat_text n = (if n < 10 then [digit_char n] else nat_text (n div 10) @ [digit_char (n mod 10)])"

declare nat_text.simps [simp del]

section \<open>The calendar\<close>

definition leap :: "nat \<Rightarrow> bool" where
  "leap y \<longleftrightarrow> 4 dvd y \<and> (\<not> 100 dvd y \<or> 400 dvd y)"

definition days_in_month :: "nat \<Rightarrow> nat \<Rightarrow> nat" where
  "days_in_month y m =
     (if m = 2 then (if leap y then 29 else 28)
      else if m = 4 \<or> m = 6 \<or> m = 9 \<or> m = 11 then 30 else 31)"

definition days_before_year :: "nat \<Rightarrow> nat" where
  "days_before_year y = (let p = y - 1 in p * 365 + p div 4 - p div 100 + p div 400)"

definition days_before_month :: "nat \<Rightarrow> nat \<Rightarrow> nat" where
  "days_before_month y m = sum_list (map (days_in_month y) [1..<m])"

definition valid_fields :: "fields \<Rightarrow> bool" where
  "valid_fields f = (case f of (y, mo, d, h, mi, s) \<Rightarrow>
     1 \<le> y \<and> y \<le> 9999 \<and> 1 \<le> mo \<and> mo \<le> 12 \<and> 1 \<le> d \<and> d \<le> days_in_month y mo \<and>
     h < 24 \<and> mi < 60 \<and> s < 60)"

definition day_number :: "nat \<Rightarrow> nat \<Rightarrow> nat \<Rightarrow> nat" where
  "day_number y mo d = days_before_year y + days_before_month y mo + (d - 1)"

definition instant_of :: "fields \<Rightarrow> instant" where
  "instant_of f = (case f of (y, mo, d, h, mi, s) \<Rightarrow>
     int (86400 * day_number y mo d + 3600 * h + 60 * mi + s))"

text \<open>The inverse, by the cycles of 400, 100, 4 and 1 years.\<close>

definition year_of_day :: "nat \<Rightarrow> nat" where
  "year_of_day n =
     (let n400 = n div 146097; r1 = n mod 146097;
          n100 = r1 div 36524; r2 = r1 mod 36524;
          n4 = r2 div 1461; r3 = r2 mod 1461;
          n1 = r3 div 365;
          y = n400 * 400 + n100 * 100 + n4 * 4 + n1
      in if n1 = 4 \<or> n100 = 4 then y else y + 1)"

function month_day :: "nat \<Rightarrow> nat \<Rightarrow> nat \<Rightarrow> nat \<times> nat" where
  "month_day y m n =
     (if 12 \<le> m \<or> n < days_in_month y m then (m, n + 1)
      else month_day y (Suc m) (n - days_in_month y m))"
  by pat_completeness auto
termination
  by (relation "measure (\<lambda>(y, m, n). 12 - m)") auto

declare month_day.simps [simp del]

definition fields_of_instant :: "instant \<Rightarrow> fields" where
  "fields_of_instant t =
     (let n = nat t; day = n div 86400; r = n mod 86400;
          y = year_of_day day; (mo, d) = month_day y 1 (day - days_before_year y)
      in (y, mo, d, r div 3600, r mod 3600 div 60, r mod 60))"

definition max_instant :: instant where
  "max_instant = instant_of (9999, 12, 31, 23, 59, 59)"

definition in_range :: "instant \<Rightarrow> bool" where
  "in_range t \<longleftrightarrow> 0 \<le> t \<and> t \<le> max_instant"

section \<open>Canonical UTC text\<close>

definition text_of_fields :: "fields \<Rightarrow> str" where
  "text_of_fields f = (case f of (y, mo, d, h, mi, s) \<Rightarrow>
     pad_digits 4 y @ ''-'' @ pad_digits 2 mo @ ''-'' @ pad_digits 2 d @ ''T'' @
     pad_digits 2 h @ '':'' @ pad_digits 2 mi @ '':'' @ pad_digits 2 s @ ''Z'')"

definition utc_shape :: "str \<Rightarrow> bool" where
  "utc_shape s \<longleftrightarrow> length s = 20 \<and>
     s ! 4 = CHR ''-'' \<and> s ! 7 = CHR ''-'' \<and> s ! 10 = CHR ''T'' \<and> s ! 13 = CHR '':'' \<and>
     s ! 16 = CHR '':'' \<and> s ! 19 = CHR ''Z'' \<and>
     list_all (\<lambda>i. is_digit (s ! i)) [0, 1, 2, 3, 5, 6, 8, 9, 11, 12, 14, 15, 17, 18]"

definition field_at :: "str \<Rightarrow> nat \<Rightarrow> nat \<Rightarrow> nat" where
  "field_at s i n = digits_val (take n (drop i s))"

definition text_fields :: "str \<Rightarrow> fields" where
  "text_fields s =
     (field_at s 0 4, field_at s 5 2, field_at s 8 2, field_at s 11 2, field_at s 14 2,
      field_at s 17 2)"

definition parse_canonical_utc :: "str \<Rightarrow> clock_error + instant" where
  "parse_canonical_utc s =
     (if \<not> utc_shape s then Inl ValueError
      else if \<not> valid_fields (text_fields s) then Inl ValueError
      else Inr (instant_of (text_fields s)))"

definition format_canonical_utc :: "instant \<Rightarrow> str" where
  "format_canonical_utc t = text_of_fields (fields_of_instant t)"

definition add_seconds :: "str \<Rightarrow> int \<Rightarrow> clock_error + str" where
  "add_seconds s n =
     (case parse_canonical_utc s of
        Inl e \<Rightarrow> Inl e
      | Inr t \<Rightarrow> if in_range (t + n) then Inr (format_canonical_utc (t + n)) else Inl OverflowError)"

definition is_canonical :: "str \<Rightarrow> bool" where
  "is_canonical s \<longleftrightarrow> is_ok (parse_canonical_utc s)"

section \<open>Quotas\<close>

definition MAX_ENVELOPE_BYTES :: nat where "MAX_ENVELOPE_BYTES = 262144"
definition MAX_PUSHES_PER_MINUTE :: nat where "MAX_PUSHES_PER_MINUTE = 6"
definition SOFT_PUSH_TARGET_PER_MINUTE :: nat where "SOFT_PUSH_TARGET_PER_MINUTE = 1"
definition MIN_POLL_SECONDS :: rat where "MIN_POLL_SECONDS = 30"
definition FETCH_MAX_OBJECTS :: nat where "FETCH_MAX_OBJECTS = 5000"
definition FETCH_MAX_AGGREGATE_BYTES :: nat where "FETCH_MAX_AGGREGATE_BYTES = 268435456"
definition REPO_SIZE_WARN_BYTES :: int where "REPO_SIZE_WARN_BYTES = 104857600"
definition REPO_SIZE_BLOCK_BYTES :: int where "REPO_SIZE_BLOCK_BYTES = 262144000"
definition REPO_SIZE_ROTATE_BYTES :: int where "REPO_SIZE_ROTATE_BYTES = 524288000"
definition ACCEPT_WINDOW_DAYS :: int where "ACCEPT_WINDOW_DAYS = 7"
definition FUTURE_TOLERANCE_SECONDS :: int where "FUTURE_TOLERANCE_SECONDS = 300"
definition CLOCK_WARN_SECONDS :: int where "CLOCK_WARN_SECONDS = 60"
definition LATE_WINDOW_SECONDS :: int where "LATE_WINDOW_SECONDS = 86400"
definition MAX_ACTIVE_REACTIONS_PER_SENDER_TARGET :: nat where
  "MAX_ACTIVE_REACTIONS_PER_SENDER_TARGET = 8"
definition MAX_SEQ_GAP :: nat where "MAX_SEQ_GAP = 100000"

text \<open>
  A history entry is a number, a text, or something else (a \<open>bool\<close> included), which the
  source refuses. Epoch seconds count from 1970-01-01T00:00:00Z.
\<close>

datatype stamp = StampNum rat | StampText str | StampOther

definition unix_epoch :: instant where
  "unix_epoch = 62135596800"

fun to_epoch_seconds :: "stamp \<Rightarrow> clock_error + rat" where
  "to_epoch_seconds StampOther = Inl ValueError"
| "to_epoch_seconds (StampNum q) = Inr q"
| "to_epoch_seconds (StampText s) =
     (case parse_canonical_utc s of
        Inl e \<Rightarrow> Inl e | Inr t \<Rightarrow> Inr (of_int (t - unix_epoch)))"

fun pushes_in_window :: "stamp list \<Rightarrow> rat \<Rightarrow> nat \<Rightarrow> clock_error + nat" where
  "pushes_in_window [] now n = Inr n"
| "pushes_in_window (e # es) now n =
     (case to_epoch_seconds e of
        Inl x \<Rightarrow> Inl x
      | Inr st \<Rightarrow> pushes_in_window es now (if now - 60 < st \<and> st \<le> now then n + 1 else n))"

definition check_send_rate :: "stamp list \<Rightarrow> rat \<Rightarrow> clock_error + str" where
  "check_send_rate history now =
     (case pushes_in_window history now 0 of
        Inl e \<Rightarrow> Inl e
      | Inr n \<Rightarrow> Inr (if MAX_PUSHES_PER_MINUTE \<le> n then ''rate_limited'' else ''ok''))"

definition soft_push_target_exceeded :: "stamp list \<Rightarrow> rat \<Rightarrow> clock_error + bool" where
  "soft_push_target_exceeded history now =
     (case pushes_in_window history now 0 of
        Inl e \<Rightarrow> Inl e | Inr n \<Rightarrow> Inr (SOFT_PUSH_TARGET_PER_MINUTE < n))"

definition check_repo_size :: "int \<Rightarrow> clock_error + str" where
  "check_repo_size n =
     (if n < 0 then Inl ValueError
      else if REPO_SIZE_ROTATE_BYTES \<le> n then Inr ''rotate''
      else if REPO_SIZE_BLOCK_BYTES \<le> n then Inr ''block''
      else if REPO_SIZE_WARN_BYTES \<le> n then Inr ''warn''
      else Inr ''ok'')"

definition check_poll_interval :: "rat \<Rightarrow> bool" where
  "check_poll_interval seconds \<longleftrightarrow> MIN_POLL_SECONDS \<le> seconds"

definition check_clock_skew :: "rat \<Rightarrow> str" where
  "check_clock_skew skew_seconds =
     (let skew = \<bar>skew_seconds\<bar>
      in if of_int FUTURE_TOLERANCE_SECONDS \<le> skew then ''block''
         else if of_int CLOCK_WARN_SECONDS \<le> skew then ''warn'' else ''ok'')"

definition within_accept_window :: "str \<Rightarrow> str \<Rightarrow> clock_error + bool" where
  "within_accept_window created_at now =
     (case parse_canonical_utc created_at of
        Inl e \<Rightarrow> Inl e
      | Inr created \<Rightarrow>
          (case parse_canonical_utc now of
             Inl e \<Rightarrow> Inl e
           | Inr moment \<Rightarrow>
               Inr (- FUTURE_TOLERANCE_SECONDS \<le> moment - created \<and>
                    moment - created \<le> ACCEPT_WINDOW_DAYS * 86400)))"


section \<open>Lemmas: digits and the order of texts\<close>

lemma less_append_iff:
  fixes a b c d :: "'a::linorder list"
  shows "length a = length b \<Longrightarrow> a @ c < b @ d \<longleftrightarrow> a < b \<or> a = b \<and> c < d"
  by (induction a b rule: list_induct2) auto

lemma foldl_digits: "foldl (\<lambda>a c. 10 * a + digit_val c) n s = n * 10 ^ length s + digits_val s"
proof (induction s arbitrary: n rule: rev_induct)
  case (snoc c s)
  have "foldl (\<lambda>a c. 10 * a + digit_val c) n (s @ [c]) =
      10 * (n * 10 ^ length s + digits_val s) + digit_val c"
    using snoc [of n] by simp
  moreover have "digits_val (s @ [c]) = 10 * digits_val s + digit_val c"
    by (simp add: digits_val_def)
  ultimately show ?case by simp
qed (simp add: digits_val_def)

lemma digits_val_Nil [simp]: "digits_val [] = 0"
  by (simp add: digits_val_def)

lemma digits_val_Cons: "digits_val (c # s) = digit_val c * 10 ^ length s + digits_val s"
proof -
  have "digits_val (c # s) = foldl (\<lambda>a c. 10 * a + digit_val c) (digit_val c) s"
    by (simp add: digits_val_def)
  also have "\<dots> = digit_val c * 10 ^ length s + digits_val s"
    by (rule foldl_digits)
  finally show ?thesis .
qed

lemma digits_val_snoc: "digits_val (s @ [c]) = 10 * digits_val s + digit_val c"
  by (simp add: digits_val_def)

lemma digit_val_bound: "is_digit c \<Longrightarrow> digit_val c < 10"
  by (auto simp: is_digit_def digit_val_def)

lemma digits_val_bound: "list_all is_digit s \<Longrightarrow> digits_val s < 10 ^ length s"
proof (induction s)
  case (Cons c s)
  then have "digit_val c \<le> 9" "digits_val s < 10 ^ length s"
    using digit_val_bound [of c] by auto
  then have "digit_val c * 10 ^ length s + digits_val s < 9 * 10 ^ length s + 10 ^ length s"
    by (intro add_le_less_mono mult_right_mono) auto
  then show ?case by (simp add: digits_val_Cons)
qed simp

lemma digit_less_iff: "is_digit c \<Longrightarrow> is_digit d \<Longrightarrow> c < d \<longleftrightarrow> digit_val c < digit_val d"
  by (auto simp: is_digit_def digit_val_def less_char_def)

lemma digit_eq_iff: "is_digit c \<Longrightarrow> is_digit d \<Longrightarrow> c = d \<longleftrightarrow> digit_val c = digit_val d"
proof -
  assume "is_digit c" "is_digit d"
  then have "digit_val c = digit_val d \<longleftrightarrow> (of_char c :: nat) = of_char d"
    by (simp add: is_digit_def digit_val_def eq_diff_iff)
  then show ?thesis by simp
qed

lemma mixed_radix_less:
  fixes a b x y n :: nat
  assumes "x < n" "y < n"
  shows "a * n + x < b * n + y \<longleftrightarrow> a < b \<or> a = b \<and> x < y"
proof -
  have lt: "p * n + u < q * n + v" if "p < q" "u < n" for p q u v :: nat
  proof -
    from that have "Suc p * n \<le> q * n" by (intro mult_right_mono) auto
    with that show ?thesis by simp
  qed
  show ?thesis
    using lt [of a b x y] lt [of b a y x] assms
    by (cases a b rule: linorder_cases) auto
qed

lemma digits_less_iff:
  "length a = length b \<Longrightarrow> list_all is_digit a \<Longrightarrow> list_all is_digit b \<Longrightarrow>
   a < b \<longleftrightarrow> digits_val a < digits_val b"
proof (induction a b rule: list_induct2)
  case (Cons x xs y ys)
  have "digits_val xs < 10 ^ length ys" "digits_val ys < 10 ^ length ys"
    using Cons digits_val_bound [of xs] digits_val_bound [of ys] by auto
  then show ?case
    using Cons mixed_radix_less [of "digits_val xs" "10 ^ length ys" "digits_val ys"]
      digit_less_iff [of x y] digit_eq_iff [of x y]
    by (simp add: digits_val_Cons)
qed simp

lemma digits_eq_iff:
  "length a = length b \<Longrightarrow> list_all is_digit a \<Longrightarrow> list_all is_digit b \<Longrightarrow>
   a = b \<longleftrightarrow> digits_val a = digits_val b"
  using digits_less_iff [of a b] digits_less_iff [of b a] by (cases a b rule: linorder_cases) auto

lemma of_char_digit_char: "d < 10 \<Longrightarrow> (of_char (digit_char d) :: nat) = 48 + d"
  by (simp add: digit_char_def)

lemma length_pad_digits [simp]: "length (pad_digits k n) = k"
  by (induction k n rule: pad_digits.induct) auto

lemma is_digit_pad_digits [simp]: "list_all is_digit (pad_digits k n)"
  by (induction k n rule: pad_digits.induct) (auto simp: is_digit_def of_char_digit_char)

lemma digits_val_pad: "digits_val (pad_digits k n) = n mod 10 ^ k"
proof (induction k n rule: pad_digits.induct)
  case (2 k n)
  have "n mod (10 * 10 ^ k) = 10 * (n div 10 mod 10 ^ k) + n mod 10"
    by (simp add: mod_mult2_eq)
  with 2 show ?case
    by (simp add: digits_val_snoc digit_val_def of_char_digit_char)
qed simp

lemma pad_digits_val: "list_all is_digit s \<Longrightarrow> pad_digits (length s) (digits_val s) = s"
  using digits_eq_iff [of "pad_digits (length s) (digits_val s)" s] digits_val_bound [of s]
  by (simp add: digits_val_pad)

section \<open>Lemmas: the text of a moment\<close>

lemma length_20_cases:
  assumes "length s = 20"
  obtains ys a ms b ds c hs d ns e ss z where
    "s = ys @ a # ms @ b # ds @ c # hs @ d # ns @ e # ss @ [z]"
    "length ys = 4" "length ms = 2" "length ds = 2" "length hs = 2" "length ns = 2" "length ss = 2"
proof -
  from assms have "\<exists>s0 s1 s2 s3 s4 s5 s6 s7 s8 s9 s10 s11 s12 s13 s14 s15 s16 s17 s18 s19.
      s = [s0, s1, s2, s3, s4, s5, s6, s7, s8, s9, s10, s11, s12, s13, s14, s15, s16, s17, s18, s19]"
    by (simp add: length_Suc_conv eval_nat_numeral) blast
  then obtain s0 s1 s2 s3 s4 s5 s6 s7 s8 s9 s10 s11 s12 s13 s14 s15 s16 s17 s18 s19 where
    "s = [s0, s1, s2, s3, s4, s5, s6, s7, s8, s9, s10, s11, s12, s13, s14, s15, s16, s17, s18, s19]"
    by blast
  then show thesis
    using that [of "[s0, s1, s2, s3]" s4 "[s5, s6]" s7 "[s8, s9]" s10 "[s11, s12]" s13 "[s14, s15]"
      s16 "[s17, s18]" s19] by simp
qed

definition joined :: "str \<Rightarrow> str \<Rightarrow> str \<Rightarrow> str \<Rightarrow> str \<Rightarrow> str \<Rightarrow> str" where
  "joined ys ms ds hs ns ss =
     ys @ ''-'' @ ms @ ''-'' @ ds @ ''T'' @ hs @ '':'' @ ns @ '':'' @ ss @ ''Z''"

definition digit_runs :: "str \<Rightarrow> str \<Rightarrow> str \<Rightarrow> str \<Rightarrow> str \<Rightarrow> str \<Rightarrow> bool" where
  "digit_runs ys ms ds hs ns ss \<longleftrightarrow>
     length ys = 4 \<and> length ms = 2 \<and> length ds = 2 \<and> length hs = 2 \<and> length ns = 2 \<and>
     length ss = 2 \<and> list_all is_digit ys \<and> list_all is_digit ms \<and> list_all is_digit ds \<and>
     list_all is_digit hs \<and> list_all is_digit ns \<and> list_all is_digit ss"

lemma list_4_cases: "length s = 4 \<Longrightarrow> \<exists>a b c d. s = [a, b, c, d]"
  by (auto simp: length_Suc_conv eval_nat_numeral)

lemma list_2_cases: "length s = 2 \<Longrightarrow> \<exists>a b. s = [a, b]"
  by (auto simp: length_Suc_conv eval_nat_numeral)

lemma digit_runs_explicit:
  assumes "digit_runs ys ms ds hs ns ss"
  shows "\<exists>y1 y2 y3 y4 m1 m2 d1 d2 h1 h2 n1 n2 s1 s2.
    ys = [y1, y2, y3, y4] \<and> ms = [m1, m2] \<and> ds = [d1, d2] \<and> hs = [h1, h2] \<and>
    ns = [n1, n2] \<and> ss = [s1, s2]"
  using assms list_4_cases [of ys] list_2_cases [of ms] list_2_cases [of ds] list_2_cases [of hs]
    list_2_cases [of ns] list_2_cases [of ss]
  unfolding digit_runs_def by blast

lemma utc_shape_joined: "digit_runs ys ms ds hs ns ss \<Longrightarrow> utc_shape (joined ys ms ds hs ns ss)"
  using digit_runs_explicit [of ys ms ds hs ns ss]
  by (auto simp: utc_shape_def joined_def digit_runs_def)

lemma text_fields_joined:
  "digit_runs ys ms ds hs ns ss \<Longrightarrow>
   text_fields (joined ys ms ds hs ns ss) =
     (digits_val ys, digits_val ms, digits_val ds, digits_val hs, digits_val ns, digits_val ss)"
  using digit_runs_explicit [of ys ms ds hs ns ss]
  by (auto simp: text_fields_def joined_def field_at_def)

lemma utc_shapeE:
  assumes "utc_shape s"
  obtains ys ms ds hs ns ss where "digit_runs ys ms ds hs ns ss" "s = joined ys ms ds hs ns ss"
proof -
  from assms have "length s = 20" by (simp add: utc_shape_def)
  then obtain ys a ms b ds c hs d ns e ss z where s:
    "s = ys @ a # ms @ b # ds @ c # hs @ d # ns @ e # ss @ [z]"
    and l: "length ys = 4" "length ms = 2" "length ds = 2" "length hs = 2" "length ns = 2"
      "length ss = 2"
    by (rule length_20_cases)
  obtain y1 y2 y3 y4 where ys: "ys = [y1, y2, y3, y4]" using list_4_cases [OF l(1)] by blast
  obtain m1 m2 where ms: "ms = [m1, m2]" using list_2_cases [OF l(2)] by blast
  obtain d1 d2 where ds: "ds = [d1, d2]" using list_2_cases [OF l(3)] by blast
  obtain h1 h2 where hs: "hs = [h1, h2]" using list_2_cases [OF l(4)] by blast
  obtain n1 n2 where ns: "ns = [n1, n2]" using list_2_cases [OF l(5)] by blast
  obtain s1 s2 where ss: "ss = [s1, s2]" using list_2_cases [OF l(6)] by blast
  note explicit = s ys ms ds hs ns ss
  have "digit_runs ys ms ds hs ns ss"
    using assms by (simp add: utc_shape_def explicit digit_runs_def)
  moreover have "s = joined ys ms ds hs ns ss"
    using assms by (simp add: utc_shape_def explicit joined_def)
  ultimately show thesis by (rule that)
qed

definition in_width :: "fields \<Rightarrow> bool" where
  "in_width f = (case f of (y, mo, d, h, mi, s) \<Rightarrow>
     y < 10000 \<and> mo < 100 \<and> d < 100 \<and> h < 100 \<and> mi < 100 \<and> s < 100)"

lemma days_in_month_le: "days_in_month y m \<le> 31"
  by (simp add: days_in_month_def)

lemma valid_in_width: "valid_fields f \<Longrightarrow> in_width f"
  using days_in_month_le [of "fst f" "fst (snd f)"]
  by (auto simp: valid_fields_def in_width_def)

lemma text_of_fields_joined:
  "text_of_fields (y, mo, d, h, mi, s) =
   joined (pad_digits 4 y) (pad_digits 2 mo) (pad_digits 2 d) (pad_digits 2 h) (pad_digits 2 mi)
     (pad_digits 2 s)"
  by (simp add: text_of_fields_def joined_def)

lemma digit_runs_pad:
  "digit_runs (pad_digits 4 y) (pad_digits 2 mo) (pad_digits 2 d) (pad_digits 2 h)
     (pad_digits 2 mi) (pad_digits 2 s)"
  by (simp add: digit_runs_def)

lemma text_fields_of_fields: "in_width f \<Longrightarrow> text_fields (text_of_fields f) = f"
  by (cases f) (simp add: text_of_fields_joined text_fields_joined [OF digit_runs_pad]
      digits_val_pad in_width_def)

lemma utc_shape_of_fields: "utc_shape (text_of_fields f)"
  by (cases f) (simp add: text_of_fields_joined utc_shape_joined [OF digit_runs_pad])

lemma text_of_text_fields: "utc_shape s \<Longrightarrow> text_of_fields (text_fields s) = s"
proof (erule utc_shapeE)
  fix ys ms ds hs ns ss
  assume r: "digit_runs ys ms ds hs ns ss" and s: "s = joined ys ms ds hs ns ss"
  have "pad_digits 4 (digits_val ys) = ys" "pad_digits 2 (digits_val ms) = ms"
    "pad_digits 2 (digits_val ds) = ds" "pad_digits 2 (digits_val hs) = hs"
    "pad_digits 2 (digits_val ns) = ns" "pad_digits 2 (digits_val ss) = ss"
    using r pad_digits_val [of ys] pad_digits_val [of ms] pad_digits_val [of ds]
      pad_digits_val [of hs] pad_digits_val [of ns] pad_digits_val [of ss]
    by (simp_all add: digit_runs_def)
  then show "text_of_fields (text_fields s) = s"
    by (simp add: s text_fields_joined [OF r] text_of_fields_joined)
qed

lemma pair_less_iff:
  fixes a c :: "'a::linorder" and b d :: "'b::linorder"
  shows "(a, b) < (c, d) \<longleftrightarrow> a < c \<or> a = c \<and> b < d"
  by (auto simp: less_prod_def)

declare less_prod_simp [simp del]
declare pair_less_iff [simp]

lemma joined_less_iff:
  assumes "digit_runs a1 a2 a3 a4 a5 a6" "digit_runs b1 b2 b3 b4 b5 b6"
  shows "joined a1 a2 a3 a4 a5 a6 < joined b1 b2 b3 b4 b5 b6 \<longleftrightarrow>
    (digits_val a1, digits_val a2, digits_val a3, digits_val a4, digits_val a5, digits_val a6) <
    (digits_val b1, digits_val b2, digits_val b3, digits_val b4, digits_val b5, digits_val b6)"
  using assms unfolding digit_runs_def joined_def
  by (simp add: less_append_iff pair_less_iff digits_less_iff digits_eq_iff)

lemma shape_less_iff: "utc_shape s \<Longrightarrow> utc_shape t \<Longrightarrow> s < t \<longleftrightarrow> text_fields s < text_fields t"
  by (auto elim!: utc_shapeE simp: text_fields_joined joined_less_iff)

section \<open>Lemmas: the calendar\<close>

lemma days_before_year_Suc:
  assumes "1 \<le> y"
  shows "days_before_year (Suc y) = days_before_year y + (if leap y then 366 else 365)"
proof -
  define p where "p = y - 1"
  have p: "Suc (y - 1) = y" "y - 1 = p" "Suc y - 1 = Suc p" "Suc p = y"
    using assms by (simp_all add: p_def)
  have le: "p div 100 \<le> p div 4" "y div 100 \<le> y div 4" by (simp_all add: div_le_mono2)
  have step: "y div k = p div k + (if k dvd y then 1 else 0)" if "0 < k" for k
    using div_Suc [of p k] that by (simp add: p(4) dvd_eq_mod_eq_0)
  have d: "400 dvd y \<Longrightarrow> 100 dvd y" "100 dvd y \<Longrightarrow> 4 dvd y"
    by (auto elim: dvd_trans [rotated])
  have "days_before_year y + p div 100 = p * 365 + p div 4 + p div 400"
    "days_before_year (Suc y) + y div 100 = y * 365 + y div 4 + y div 400"
    using le by (simp_all add: days_before_year_def p_def Let_def)
  moreover have "y * 365 = p * 365 + 365" using p(4) by simp
  ultimately show ?thesis
    using d step [of 4] step [of 100] step [of 400] unfolding leap_def
    by (cases "4 dvd y"; cases "100 dvd y"; cases "400 dvd y") auto
qed

lemma days_before_year_mono: "1 \<le> y \<Longrightarrow> y \<le> z \<Longrightarrow> days_before_year y \<le> days_before_year z"
proof (induction z)
  case (Suc z)
  then show ?case
    using days_before_year_Suc [of z] by (cases "y = Suc z") auto
qed simp

lemma days_before_month_Suc: "1 \<le> m \<Longrightarrow> days_before_month y (Suc m) = days_before_month y m + days_in_month y m"
  by (simp add: days_before_month_def)

lemma days_before_month_mono: "1 \<le> m \<Longrightarrow> m \<le> n \<Longrightarrow> days_before_month y m \<le> days_before_month y n"
proof (induction n)
  case (Suc n)
  then show ?case
    using days_before_month_Suc [of n y] by (cases "m = Suc n") auto
qed simp

lemma days_before_month_13: "days_before_month y 13 = (if leap y then 366 else 365)"
  by (simp add: days_before_month_def upt_conv_Cons days_in_month_def)

lemma day_of_month_bound:
  assumes "1 \<le> m" "m < n" "1 \<le> d" "d \<le> days_in_month y m"
  shows "days_before_month y m + (d - 1) < days_before_month y n"
  using assms days_before_month_Suc [of m y] days_before_month_mono [of "Suc m" n y] by simp

lemma day_of_year_bound:
  assumes "1 \<le> y" "y < z" "1 \<le> m" "m \<le> 12" "1 \<le> d" "d \<le> days_in_month y m"
  shows "day_number y m d < days_before_year z"
  using assms day_of_month_bound [of m 13 d y] days_before_month_13 [of y]
    days_before_year_Suc [of y] days_before_year_mono [of "Suc y" z]
  by (simp add: day_number_def)

lemma day_number_less:
  assumes "1 \<le> y" "1 \<le> m" "m \<le> 12" "1 \<le> d" "d \<le> days_in_month y m"
    and "1 \<le> m'" "1 \<le> d'" and less: "(y, m, d) < (y', m', d')"
  shows "day_number y m d < day_number y' m' d'"
proof -
  consider "y < y'" | "y = y'" "m < m'" | "y = y'" "m = m'" "d < d'"
    using less by (auto simp: pair_less_iff)
  then show ?thesis
  proof cases
    case 1
    then show ?thesis
      using assms day_of_year_bound [of y y' m d] by (simp add: day_number_def)
  next
    case 2
    then show ?thesis
      using assms day_of_month_bound [of m m' d y] by (simp add: day_number_def)
  next
    case 3
    then show ?thesis using assms by (simp add: day_number_def)
  qed
qed

definition clock_seconds :: "nat \<Rightarrow> nat \<Rightarrow> nat \<Rightarrow> nat" where
  "clock_seconds h mi s = 3600 * h + 60 * mi + s"

lemma clock_seconds_bound: "h < 24 \<Longrightarrow> mi < 60 \<Longrightarrow> s < 60 \<Longrightarrow> clock_seconds h mi s < 86400"
  by (simp add: clock_seconds_def)

lemma clock_seconds_less:
  "mi < 60 \<Longrightarrow> s < 60 \<Longrightarrow> (h, mi, s) < (h', mi', s') \<Longrightarrow> clock_seconds h mi s < clock_seconds h' mi' s'"
  by (auto simp: clock_seconds_def pair_less_iff)

lemma instant_of_clock:
  "instant_of (y, mo, d, h, mi, s) = int (day_number y mo d * 86400 + clock_seconds h mi s)"
  by (simp add: instant_of_def clock_seconds_def)

lemma instant_of_mono:
  assumes "valid_fields f" "valid_fields g" "f < g"
  shows "instant_of f < instant_of g"
proof -
  obtain y mo d h mi s where f: "f = (y, mo, d, h, mi, s)" by (cases f)
  obtain y' mo' d' h' mi' s' where g: "g = (y', mo', d', h', mi', s')" by (cases g)
  note v = assms(1) [unfolded f valid_fields_def, simplified]
    assms(2) [unfolded g valid_fields_def, simplified]
  have cs: "clock_seconds h mi s < 86400" "clock_seconds h' mi' s' < 86400"
    using v by (auto intro: clock_seconds_bound)
  have "(y, mo, d) < (y', mo', d') \<or> (y, mo, d) = (y', mo', d') \<and> (h, mi, s) < (h', mi', s')"
    using assms(3) by (auto simp: f g pair_less_iff)
  then show ?thesis
  proof
    assume "(y, mo, d) < (y', mo', d')"
    then have "day_number y mo d < day_number y' mo' d'"
      using v by (auto intro!: day_number_less)
    then show ?thesis
      using mixed_radix_less [OF cs, of "day_number y mo d" "day_number y' mo' d'"]
      by (simp only: f g instant_of_clock of_nat_less_iff simp_thms)
  next
    assume "(y, mo, d) = (y', mo', d') \<and> (h, mi, s) < (h', mi', s')"
    then show ?thesis
      using v clock_seconds_less [of mi s h h' mi' s'] by (simp add: f g instant_of_clock)
  qed
qed

lemma instant_of_less_iff: "valid_fields f \<Longrightarrow> valid_fields g \<Longrightarrow> instant_of f < instant_of g \<longleftrightarrow> f < g"
  using instant_of_mono [of f g] instant_of_mono [of g f] by (cases f g rule: linorder_cases) auto

lemma instant_of_eq_iff: "valid_fields f \<Longrightarrow> valid_fields g \<Longrightarrow> instant_of f = instant_of g \<longleftrightarrow> f = g"
  using instant_of_mono [of f g] instant_of_mono [of g f] by (cases f g rule: linorder_cases) auto

lemma cycle_divs:
  fixes a b c d :: nat
  assumes "b \<le> 3" "c \<le> 24" "d \<le> 3"
  defines "p \<equiv> 400 * a + 100 * b + 4 * c + d"
  shows "p div 4 = 100 * a + 25 * b + c" "p div 100 = 4 * a + b" "p div 400 = a"
proof -
  have "p = 4 * (100 * a + 25 * b + c) + d" by (simp add: p_def)
  then show "p div 4 = 100 * a + 25 * b + c" using assms(3) by (intro div_nat_eqI) simp_all
  have "p = 100 * (4 * a + b) + (4 * c + d)" "4 * c + d < 100" using assms by simp_all
  then show "p div 100 = 4 * a + b" by (intro div_nat_eqI) simp_all
  have "p = 400 * a + (100 * b + 4 * c + d)" "100 * b + 4 * c + d < 400" using assms by simp_all
  then show "p div 400 = a" by (intro div_nat_eqI) simp_all
qed

lemma days_before_cycle:
  fixes a b c d :: nat
  assumes "b \<le> 3" "c \<le> 24" "d \<le> 3"
  shows "days_before_year (400 * a + 100 * b + 4 * c + d + 1) =
    146097 * a + 36524 * b + 1461 * c + 365 * d"
  using cycle_divs [OF assms, of a] by (simp add: days_before_year_def Let_def)

lemma num_4_dvd_400: "(4::nat) dvd 400"
  by (rule dvdI [of _ _ 100]) simp

lemma leap_cycle_end:
  fixes a b c :: nat
  assumes "b \<le> 3" "c \<le> 24" "c \<noteq> 24 \<or> b = 3"
  shows "leap (Suc (400 * a + 100 * b + 4 * c + 3))"
proof (cases "c = 24")
  case True
  then have "Suc (400 * a + 100 * b + 4 * c + 3) = 400 * (a + 1)" using assms by simp
  then show ?thesis unfolding leap_def by (metis dvd_triv_left dvd_trans num_4_dvd_400)
next
  case False
  have four: "Suc (400 * a + 100 * b + 4 * c + 3) = 4 * (100 * a + 25 * b + c + 1)" by simp
  have hundred: "Suc (400 * a + 100 * b + 4 * c + 3) = 100 * (4 * a + b) + (4 * c + 4)" by simp
  have "4 * c + 4 < 100" using False assms(2) by simp
  then have "\<not> 100 dvd 4 * c + 4" using nat_dvd_not_less [of "4 * c + 4" 100] by simp
  then have "\<not> 100 dvd Suc (400 * a + 100 * b + 4 * c + 3)"
    unfolding hundred by (simp only: dvd_add_right_iff dvd_triv_left) simp
  moreover have "4 dvd Suc (400 * a + 100 * b + 4 * c + 3)" unfolding four by (rule dvd_triv_left)
  ultimately show ?thesis unfolding leap_def by blast
qed

lemma year_of_day_bounds:
  "1 \<le> year_of_day n \<and> days_before_year (year_of_day n) \<le> n \<and>
   n < days_before_year (Suc (year_of_day n))"
proof -
  define a where "a = n div 146097"
  define r1 where "r1 = n mod 146097"
  define b where "b = r1 div 36524"
  define r2 where "r2 = r1 mod 36524"
  define c where "c = r2 div 1461"
  define r3 where "r3 = r2 mod 1461"
  define d where "d = r3 div 365"
  define r where "r = r3 mod 365"
  have n: "n = 146097 * a + 36524 * b + 1461 * c + 365 * d + r"
    by (simp add: a_def r1_def b_def r2_def c_def r3_def d_def r_def)
  have bounds: "r1 < 146097" "r2 < 36524" "r3 < 1461" "r < 365"
    by (simp_all add: r1_def r2_def r3_def r_def)
  have b4: "b \<le> 4" and c24: "c \<le> 24" and d4: "d \<le> 4"
    using bounds by (simp_all add: b_def c_def d_def less_mult_imp_div_less)
  have r1: "r1 = 36524 * b + r2" and r2: "r2 = 1461 * c + r3" and r3: "r3 = 365 * d + r"
    by (simp_all add: b_def r2_def c_def r3_def d_def r_def)
  have y: "year_of_day n =
      (if d = 4 \<or> b = 4 then a * 400 + b * 100 + c * 4 + d
       else a * 400 + b * 100 + c * 4 + d + 1)"
    by (simp add: year_of_day_def Let_def a_def r1_def b_def r2_def c_def r3_def d_def)
  consider "b = 4" | "b \<le> 3" "d = 4" | "b \<le> 3" "d \<le> 3"
    using b4 d4 by linarith
  then show ?thesis
  proof cases
    case 1
    then have rest: "r2 = 0" using r1 bounds by linarith
    then have z: "c = 0" "r3 = 0" using r2 by simp_all
    then have z': "d = 0" "r = 0" using r3 by simp_all
    have e: "year_of_day n = Suc (400 * a + 100 * 3 + 4 * 24 + 3)"
      using 1 z z' by (simp add: y)
    have lp: "leap (year_of_day n)" unfolding e by (rule leap_cycle_end) simp_all
    have "days_before_year (year_of_day n) = 146097 * a + 36524 * 3 + 1461 * 24 + 365 * 3"
      using days_before_cycle [of 3 24 3 a] e by simp
    with lp show ?thesis
      using days_before_year_Suc [of "year_of_day n"] n 1 z z' e by simp
  next
    case 2
    have "r = 0" using r3 bounds 2 by linarith
    have e: "year_of_day n = Suc (400 * a + 100 * b + 4 * c + 3)"
      using 2 by (simp add: y)
    have "c \<noteq> 24 \<or> b = 3"
      using bounds 2 r2 r3 r1 by auto
    then have lp: "leap (year_of_day n)"
      using 2 c24 leap_cycle_end [of b c a] by (simp only: e)
    have "days_before_year (year_of_day n) = 146097 * a + 36524 * b + 1461 * c + 365 * 3"
      using days_before_cycle [of b c 3 a] e 2 c24 by simp
    with lp show ?thesis
      using days_before_year_Suc [of "year_of_day n"] n 2 \<open>r = 0\<close> e by simp
  next
    case 3
    have e: "year_of_day n = Suc (400 * a + 100 * b + 4 * c + d)"
      using 3 by (simp add: y)
    have "days_before_year (year_of_day n) = 146097 * a + 36524 * b + 1461 * c + 365 * d"
      using days_before_cycle [of b c d a] e 3 c24 by simp
    then show ?thesis
      using days_before_year_Suc [of "year_of_day n"] n bounds e by simp
  qed
qed

lemma month_day_correct:
  assumes "1 \<le> m" "m \<le> 12" "days_before_month y m + n < days_before_month y 13"
    and "month_day y m n = (mo, d)"
  shows "1 \<le> mo \<and> mo \<le> 12 \<and> 1 \<le> d \<and> d \<le> days_in_month y mo \<and>
    days_before_month y mo + (d - 1) = days_before_month y m + n"
  using assms
proof (induction y m n arbitrary: mo d rule: month_day.induct)
  case (1 y m n)
  show ?case
  proof (cases "12 \<le> m \<or> n < days_in_month y m")
    case True
    have "n < days_in_month y m"
      using True 1(2-4) days_before_month_Suc [of 12 y] by (cases "m = 12") auto
    then show ?thesis
      using True 1(2,3,5) by (auto simp add: month_day.simps [of y m n])
  next
    case False
    then have "days_before_month y (Suc m) + (n - days_in_month y m) = days_before_month y m + n"
      using 1(2) days_before_month_Suc [of m y] by simp
    then show ?thesis
      using False 1(1) [of mo d] 1(2-5) by (simp add: month_day.simps [of y m n])
  qed
qed

lemma max_instant_value: "max_instant = int (86400 * days_before_year 10000) - 1"
  by (simp add: max_instant_def instant_of_def day_number_def days_before_month_def
      upt_conv_Cons days_in_month_def days_before_year_def leap_def)

lemma fields_of_instant_correct:
  assumes "in_range t"
  shows "valid_fields (fields_of_instant t)" "instant_of (fields_of_instant t) = t"
proof -
  define n where "n = nat t"
  define day where "day = n div 86400"
  define r where "r = n mod 86400"
  define y where "y = year_of_day day"
  obtain mo d where md: "month_day y 1 (day - days_before_year y) = (mo, d)"
    by (cases "month_day y 1 (day - days_before_year y)")
  have t: "t = int n" using assms by (simp add: n_def in_range_def)
  have f: "fields_of_instant t = (y, mo, d, r div 3600, r mod 3600 div 60, r mod 60)"
    using md by (simp add: fields_of_instant_def n_def day_def r_def y_def Let_def)
  have n: "n = day * 86400 + r" and r: "r < 86400" by (simp_all add: day_def r_def)
  have yb: "1 \<le> y" "days_before_year y \<le> day" "day < days_before_year (Suc y)"
    using year_of_day_bounds [of day] by (simp_all add: y_def)
  have "int n \<le> int (86400 * days_before_year 10000) - 1"
    using assms t by (simp add: in_range_def max_instant_value)
  then have "n < 86400 * days_before_year 10000" by linarith
  then have "day < days_before_year 10000" using n by linarith
  then have y9: "y \<le> 9999"
    using yb days_before_year_mono [of 10000 y] by (cases "y \<le> 9999") auto
  have one: "days_before_month y 1 = 0" by (simp add: days_before_month_def)
  have "day - days_before_year y < days_before_month y 13"
    using yb days_before_year_Suc [of y] days_before_month_13 [of y] by auto
  then have m: "1 \<le> mo" "mo \<le> 12" "1 \<le> d" "d \<le> days_in_month y mo"
      "days_before_month y mo + (d - 1) = day - days_before_year y"
    using month_day_correct [of 1 y "day - days_before_year y" mo d] md one by auto
  show "valid_fields (fields_of_instant t)"
    using m yb(1) y9 r by (simp add: f valid_fields_def less_mult_imp_div_less)
  have "day_number y mo d = day" using m yb by (simp add: day_number_def)
  moreover have "clock_seconds (r div 3600) (r mod 3600 div 60) (r mod 60) = r"
  proof -
    have "r mod 60 = r mod 3600 mod 60" by (simp add: mod_mod_cancel)
    then show ?thesis unfolding clock_seconds_def by simp
  qed
  ultimately have "instant_of (fields_of_instant t) = int n"
    unfolding f instant_of_clock using n by simp
  then show "instant_of (fields_of_instant t) = t"
    using t by simp
qed

lemma instant_of_in_range:
  assumes "valid_fields f" shows "in_range (instant_of f)"
proof -
  obtain y mo d h mi s where f: "f = (y, mo, d, h, mi, s)" by (cases f)
  have v: "valid_fields (9999, 12, 31, 23, 59, 59)" by (simp add: valid_fields_def days_in_month_def)
  have "f \<le> (9999, 12, 31, 23, 59, 59)"
    using assms days_in_month_le [of y 12]
    by (auto simp: f valid_fields_def less_eq_prod_def)
  then have "instant_of f \<le> max_instant"
    using instant_of_less_iff [OF v assms] by (simp add: max_instant_def not_less [symmetric])
  then show ?thesis by (simp add: in_range_def f instant_of_def)
qed

section \<open>Parsing and formatting\<close>

lemma parse_SomeD:
  "parse_canonical_utc s = Inr t \<Longrightarrow>
   utc_shape s \<and> valid_fields (text_fields s) \<and> t = instant_of (text_fields s)"
  by (auto simp: parse_canonical_utc_def split: if_splits)

lemma parse_in_range: "parse_canonical_utc s = Inr t \<Longrightarrow> in_range t"
  by (auto dest!: parse_SomeD intro: instant_of_in_range)

lemma parse_error: "parse_canonical_utc s = Inl e \<Longrightarrow> e = ValueError"
  by (auto simp: parse_canonical_utc_def split: if_splits)

lemma parse_format: "in_range t \<Longrightarrow> parse_canonical_utc (format_canonical_utc t) = Inr t"
  using fields_of_instant_correct [of t] text_fields_of_fields [of "fields_of_instant t"]
    valid_in_width [of "fields_of_instant t"]
  by (simp add: parse_canonical_utc_def format_canonical_utc_def utc_shape_of_fields)

lemma format_parse: "parse_canonical_utc s = Inr t \<Longrightarrow> format_canonical_utc t = s"
  using parse_SomeD [of s t] fields_of_instant_correct [of t] instant_of_in_range [of "text_fields s"]
    instant_of_eq_iff [of "fields_of_instant t" "text_fields s"] text_of_text_fields [of s]
  by (simp add: format_canonical_utc_def)

lemma is_canonicalE: "is_canonical s \<Longrightarrow> (\<And>t. parse_canonical_utc s = Inr t \<Longrightarrow> P) \<Longrightarrow> P"
  by (auto simp: is_canonical_def is_ok_def split: sum.splits)

lemma parse_less_iff:
  "parse_canonical_utc s = Inr a \<Longrightarrow> parse_canonical_utc t = Inr b \<Longrightarrow> s < t \<longleftrightarrow> a < b"
  by (auto dest!: parse_SomeD simp: shape_less_iff instant_of_less_iff)

lemma parse_eq_iff:
  "parse_canonical_utc s = Inr a \<Longrightarrow> parse_canonical_utc t = Inr b \<Longrightarrow> s = t \<longleftrightarrow> a = b"
  using parse_less_iff [of s a t b] parse_less_iff [of t b s a]
  by (cases s t rule: linorder_cases) auto

lemma add_seconds_parse:
  "add_seconds s n = Inr u \<Longrightarrow> parse_canonical_utc s = Inr t \<Longrightarrow> parse_canonical_utc u = Inr (t + n)"
  by (auto simp: add_seconds_def parse_format split: if_splits)

text \<open>Evaluation of parses of literal texts, and of \<open>add_seconds\<close> by its result.\<close>

lemmas clock_eval = parse_canonical_utc_def utc_shape_def text_fields_def field_at_def
  digits_val_def digit_val_def is_digit_def valid_fields_def days_in_month_def leap_def
  instant_of_def day_number_def days_before_year_def days_before_month_def upt_conv_Cons Let_def

lemma add_secondsI:
  "parse_canonical_utc s = Inr t \<Longrightarrow> parse_canonical_utc u = Inr (t + n) \<Longrightarrow> add_seconds s n = Inr u"
  using parse_in_range [of u "t + n"] format_parse [of u "t + n"] by (simp add: add_seconds_def)

section \<open>Properties\<close>

text \<open>The textual order of canonical UTC texts, which every \<open>ORDER BY created_at\<close> and every
  comparison of timestamp columns relies on, is the order of the moments they name.\<close>

lemma utc_text_order_is_time_order:
  assumes "parse_canonical_utc s = Inr a" and "parse_canonical_utc t = Inr b"
  shows "(s < t \<longleftrightarrow> a < b) \<and> (s = t \<longleftrightarrow> a = b)"
  using parse_less_iff [OF assms] parse_eq_iff [OF assms] by simp



text \<open>\<open>add_seconds\<close> moves a canonical text by exactly that many seconds, the result is again
  canonical and compares with the argument as the sign of the shift says; it raises only when
  the moment leaves the years 1 to 9999.\<close>

lemma add_seconds_shifts:
  assumes "parse_canonical_utc s = Inr t"
  shows "if in_range (t + n)
    then \<exists>u. add_seconds s n = Inr u \<and> parse_canonical_utc u = Inr (t + n) \<and> (s < u \<longleftrightarrow> 0 < n)
    else add_seconds s n = Inl OverflowError"
  using assms parse_format [of "t + n"] parse_less_iff [OF assms parse_format [of "t + n"]]
  by (simp add: add_seconds_def)

text \<open>The acceptance window: an event is inside it exactly when it is at most seven days old
  and at most five minutes ahead of the receiver's clock.\<close>

lemma accept_window_exact:
  assumes "parse_canonical_utc created = Inr c" and "parse_canonical_utc now = Inr n"
  shows "within_accept_window created now = Inr (c \<le> n + 300 \<and> n \<le> c + 604800)"
  using assms
  by (auto simp: within_accept_window_def FUTURE_TOLERANCE_SECONDS_def ACCEPT_WINDOW_DAYS_def)

lemma accept_window_sample:
  "within_accept_window ''2024-03-01T00:00:00Z'' ''2024-02-29T23:59:59Z'' = Inr True"
proof -
  have h: "parse_canonical_utc ''2024-03-01T00:00:00Z'' = Inr 63844848000"
    "parse_canonical_utc ''2024-02-29T23:59:59Z'' = Inr 63844847999" by (simp_all add: clock_eval)
  show ?thesis using accept_window_exact [OF h] by simp
qed

end
