(* ===== verification/Store.thy ===== *)
theory Store
  imports Prelude
begin

text \<open>
  The local state database: one record field per SQLite table of
  \<open>store/migrations.py\<close>, \<open>store/projections.py\<close>, \<open>model/approvals.py\<close> and
  \<open>transports/tables.py\<close> that the modelled components read or write, each the list of its rows
  in rowid order.

  \<^item> TEXT columns are texts, nullable columns options, 0/1 columns booleans, BLOBs lists of
    byte values; \<open>sender_seq\<close>, \<open>key_epoch\<close> and the other columns whose CHECK excludes negative
    numbers are naturals. A column that holds canonical JSON of a list of texts
    (\<open>choices\<close>, \<open>choice_ids\<close>) holds the list.
  \<^item> The decrypted payload of an event, which \<open>validate_payload\<close> has checked against the schema
    variant of its event type before it is stored, is a value of \<open>payload\<close>, one constructor
    per variant, absent optional fields being \<open>None\<close>.
  \<^item> SQLite admits NULL in a TEXT primary key: the rows of \<open>threads\<close> without a thread id, which no
    query by id finds, are the list \<open>null_threads\<close> of their conversations.
  \<^item> \<open>relay\<close> is not a table: it is the directory of a local transport, the one place outside the
    database that a release writes. A rolled back transaction does not undo it.
\<close>

section \<open>JSON documents\<close>

text \<open>The values of \<open>json.loads\<close>; an object is the list of its entries, without repeated keys.\<close>

datatype json =
    JNull
  | JBool bool
  | JInt int
  | JStr str
  | JArr "json list"
  | JObj "(str \<times> json) list"

fun dict_set :: "'k \<Rightarrow> 'v \<Rightarrow> ('k \<times> 'v) list \<Rightarrow> ('k \<times> 'v) list" where
  "dict_set k v [] = [(k, v)]"
| "dict_set k v ((k', v') # d) = (if k' = k then (k, v) # d else (k', v') # dict_set k v d)"

abbreviation dict_get :: "('k \<times> 'v) list \<Rightarrow> 'k \<Rightarrow> 'v option" where
  "dict_get \<equiv> map_of"

lemma dict_get_set [simp]: "dict_get (dict_set k v d) = (dict_get d)(k \<mapsto> v)"
  by (induction k v d rule: dict_set.induct) auto

lemma dict_set_keys: "fst ` set (dict_set k v d) = insert k (fst ` set d)"
  by (induction k v d rule: dict_set.induct) auto

lemma distinct_dict_set: "distinct (map fst d) \<Longrightarrow> distinct (map fst (dict_set k v d))"
proof (induction k v d rule: dict_set.induct)
  case (2 k v k' v' d)
  have "k' \<notin> fst ` set d" using 2 by (simp add: image_iff)
  then show ?case using 2 dict_set_keys [of k v d] by auto
qed simp

section \<open>Payloads\<close>

record attachment =
  at_filename :: str
  at_size :: nat
  at_content_type :: "str option"
  at_sha256 :: str

record prepare_payload =
  pp_new_key :: str
  pp_prior_fingerprint :: str
  pp_deadline :: str

record announcement =
  an_card :: json
  an_signatures :: "(str \<times> str) list"

datatype payload =
    PMessageCreated str str "attachment option"
  | PMessageEdited str str "str option"
  | PMessageRetracted str "str option"
  | PReaction str str
  | PReceiptAccepted str str
  | PReceiptSeen str str
  | PPollCreated str "str list" str bool
  | PPollResponded str "str list" bool "str option"
  | PTaskCreated str str "str option"
  | PTaskUpdated str str "str option"
  | PHumanRequested str str str
  | PHumanResponded str str bool str
  | PDeliveryScheduled str str "nat option"
  | PDeliveryCanceled str
  | PKeyPrepare prepare_payload
  | PKeyAck nat str
  | PKeyConfirm nat
  | PKeyCommit nat
  | PIdentityRotated announcement
  | POther

section \<open>Rows\<close>

record event_row =
  ev_id :: str
  ev_rel :: str
  ev_conv :: str
  ev_thread :: "str option"
  ev_sender :: str
  ev_seq :: nat
  ev_created :: str
  ev_epoch :: nat
  ev_type :: str
  ev_nonce :: str
  ev_sealed :: bytes

record payload_row =
  pl_event :: str
  pl_type :: str
  pl_payload :: payload
  pl_reply_to :: "str option"
  pl_received :: "str option"

record relationship_row =
  rl_id :: str
  rl_peer :: str
  rl_consent :: str
  rl_policy :: "json option"
  rl_epoch :: nat
  rl_peer_key :: "str option"
  rl_name :: "str option"
  rl_prior :: "str option"
  rl_grace :: "str option"

record thread_row =
  th_id :: str
  th_conv :: str

record message_row =
  ms_id :: str
  ms_rel :: str
  ms_conv :: str
  ms_thread :: "str option"
  ms_sender :: str
  ms_seq :: nat
  ms_created :: str
  ms_body :: str
  ms_format :: str
  ms_reply_to :: "str option"
  ms_reply_state :: str
  ms_edited :: bool
  ms_current :: str
  ms_retracted :: bool
  ms_retraction :: "str option"
  ms_retracted_at :: "str option"
  ms_reason :: "str option"

record revision_row =
  rv_event :: str
  rv_no :: nat
  rv_body :: str
  rv_at :: str
  rv_edit :: "str option"
  rv_reason :: "str option"

record reaction_row =
  rc_target :: str
  rc_sender :: str
  rc_emoji :: str
  rc_active :: bool
  rc_added :: str
  rc_added_at :: str
  rc_removed :: "str option"
  rc_removed_at :: "str option"

record receipt_row =
  rp_target :: str
  rp_kind :: str
  rp_sender :: str
  rp_at :: str
  rp_event :: str

record poll_row =
  po_id :: str
  po_rel :: str
  po_conv :: str
  po_thread :: "str option"
  po_sender :: str
  po_created :: str
  po_question :: str
  po_choices :: "str list"
  po_closes :: str
  po_multi :: bool
  po_count :: nat

record poll_response_row =
  pr_poll :: str
  pr_sender :: str
  pr_choices :: "str list"
  pr_confirmed :: bool
  pr_approval :: "str option"
  pr_event :: str
  pr_at :: str

record task_row =
  tk_id :: str
  tk_rel :: str
  tk_conv :: str
  tk_thread :: "str option"
  tk_sender :: str
  tk_created :: str
  tk_title :: str
  tk_owner :: str
  tk_due :: "str option"
  tk_status :: str
  tk_status_event :: "str option"
  tk_status_at :: "str option"
  tk_note :: "str option"

record human_row =
  hr_id :: str
  hr_rel :: str
  hr_conv :: str
  hr_thread :: "str option"
  hr_sender :: str
  hr_created :: str
  hr_prompt :: str
  hr_shape :: str
  hr_expires :: str
  hr_state :: str
  hr_answer :: "str option"
  hr_approved :: "bool option"
  hr_responded_at :: "str option"
  hr_response :: "str option"
  hr_approval :: "str option"
  hr_attestation :: str

record delivery_row =
  dl_id :: str
  dl_rel :: str
  dl_sender :: str
  dl_created :: str
  dl_inner :: str
  dl_deliver :: str
  dl_late :: "nat option"
  dl_state :: str
  dl_canceled_at :: "str option"
  dl_cancel :: "str option"

record key_event_row =
  ke_id :: str
  ke_rel :: str
  ke_sender :: str
  ke_created :: str
  ke_epoch :: nat
  ke_action :: str

record thread_state_row =
  ts_id :: str
  ts_conv :: str
  ts_root :: "str option"
  ts_count :: nat
  ts_last :: "str option"

record pending_row =
  pn_event :: str
  pn_rel :: str
  pn_target :: str
  pn_kind :: str
  pn_created :: str
  pn_state :: str

record quarantine_row =
  qr_rel :: str
  qr_sender :: str
  qr_seq :: nat
  qr_event :: str
  qr_reason :: str
  qr_at :: str

record cursor_row =
  cu_rel :: str
  cu_sender :: str
  cu_max :: nat

record gap_row =
  gp_rel :: str
  gp_sender :: str
  gp_seq :: nat
  gp_at :: str

record attachment_row =
  ar_event :: str
  ar_rel :: str
  ar_file :: attachment
  ar_stored :: "str option"
  ar_received :: str

record sequence_row =
  sn_rel :: str
  sn_sender :: str
  sn_last :: nat

record projection_queue_row =
  pq_event :: str
  pq_at :: str

datatype sched_state = Scheduled | Released | Canceled | Expired | Dead

record sched_row =
  sq_id :: str
  sq_inner :: bytes
  sq_deliver :: str
  sq_expires :: "str option"
  sq_state :: sched_state
  sq_failures :: nat
  sq_approval :: "str option"

record approval_row =
  ap_id :: str
  ap_rel :: str
  ap_subject_type :: str
  ap_subject :: str
  ap_answer :: str
  ap_approved :: bool
  ap_created :: str
  ap_expires :: str
  ap_consumed :: "str option"
  ap_note :: "str option"

record surface_row =
  sf_event :: str
  sf_snapshot :: json
  sf_at :: str

record sent_row =
  so_id :: str
  so_object :: str
  so_at :: str

datatype mutation_state = Queued | Done | Failed

record mutation_row =
  mq_no :: nat
  mq_id :: str
  mq_scope :: str
  mq_op :: str
  mq_object :: str
  mq_data :: "bytes option"
  mq_state :: mutation_state
  mq_attempts :: nat
  mq_at :: str

text \<open>\<open>ek_ref\<close> is the path of the private key's file, or \<open>peer\<close> in the row of a peer's public key.\<close>

record key_row =
  ek_rel :: str
  ek_epoch :: nat
  ek_public :: str
  ek_ref :: str
  ek_state :: str

record rotation_row =
  kr_rel :: str
  kr_epoch :: nat
  kr_role :: str
  kr_phase :: str
  kr_prior_epoch :: "nat option"
  kr_prior_fingerprint :: "str option"
  kr_new_key :: "str option"
  kr_prepare :: "str option"
  kr_prepared :: str
  kr_acknowledged :: "str option"
  kr_confirmed :: "str option"
  kr_committed :: "str option"
  kr_deadline :: str
  kr_new_wrap_seen :: bool
  kr_accepted :: nat

text \<open>The payload of a held security event is the JSON text of one of two objects.\<close>

datatype held_payload = HeldPrepare prepare_payload str | HeldEpoch nat

record held_row =
  rq_id :: nat
  rq_rel :: str
  rq_epoch :: nat
  rq_reason :: str
  rq_payload :: held_payload
  rq_received :: str

record first_seen_row =
  fs_rel :: str
  fs_epoch :: nat
  fs_at :: str
  fs_rejected :: bool

record wrap_seen_row =
  ws_rel :: str
  ws_epoch :: nat
  ws_at :: str

record replay_row =
  rg_nonce :: str
  rg_event :: "str option"
  rg_digest :: "str option"
  rg_expires :: str

record object_row =
  oq_rel :: str
  oq_name :: str
  oq_reason :: str
  oq_detail :: str
  oq_at :: str

record retry_row =
  ry_rel :: str
  ry_name :: str
  ry_reason :: str
  ry_sightings :: nat
  ry_first :: str
  ry_last :: str

record processed_row =
  rx_event :: str
  rx_rel :: str
  rx_type :: str
  rx_at :: str

text \<open>\<open>rcf_slots\<close> is the document of \<open>slots_json\<close>, absent if the column is empty or does not parse.\<close>

record relay_config_row =
  rcf_rel :: str
  rcf_provider :: str
  rcf_repo :: "str option"
  rcf_slots :: "json option"
  rcf_dir :: "str option"
  rcf_role :: "str option"
  rcf_ssh_key :: "str option"

text \<open>A file of a local relay: the directory of its slot, \<open>incoming\<close>, \<open>consumed\<close> or
  \<open>quarantine\<close> below it, its name and its bytes.\<close>

record relay_file =
  rf_root :: str
  rf_box :: str
  rf_name :: str
  rf_data :: bytes

section \<open>The database\<close>

record db =
  relationships :: "relationship_row list"
  key_epochs :: "key_row list"
  conversations :: "str list"
  threads :: "thread_row list"
  null_threads :: "str list"
  events :: "event_row list"
  event_payloads :: "payload_row list"
  messages :: "message_row list"
  message_revisions :: "revision_row list"
  reactions :: "reaction_row list"
  receipts :: "receipt_row list"
  polls :: "poll_row list"
  poll_responses :: "poll_response_row list"
  tasks :: "task_row list"
  human_requests :: "human_row list"
  deliveries :: "delivery_row list"
  security_key_events :: "key_event_row list"
  thread_state :: "thread_state_row list"
  pending_refs :: "pending_row list"
  quarantine :: "quarantine_row list"
  projection_cursors :: "cursor_row list"
  sequence_gaps :: "gap_row list"
  attachments :: "attachment_row list"
  sender_sequence :: "sequence_row list"
  projection_queue :: "projection_queue_row list"
  scheduler_queue :: "sched_row list"
  human_approvals :: "approval_row list"
  surface_queue :: "surface_row list"
  sent_objects :: "sent_row list"
  mutation_queue :: "mutation_row list"
  key_rotations :: "rotation_row list"
  rotation_quarantine :: "held_row list"
  rotation_quarantine_seq :: nat
  unknown_epoch_first_seen :: "first_seen_row list"
  wrap_seen_pending :: "wrap_seen_row list"
  replay_guard :: "replay_row list"
  receive_quarantine :: "object_row list"
  receive_retry_state :: "retry_row list"
  rotation_processed_events :: "processed_row list"
  relay_config :: "relay_config_row list"
  relay :: "relay_file list"
  key_files :: "(str \<times> bytes) list"

definition empty_db :: db where
  "empty_db = \<lparr>relationships = [], key_epochs = [], conversations = [], threads = [], null_threads = [], events = [],
     event_payloads = [], messages = [], message_revisions = [], reactions = [], receipts = [],
     polls = [], poll_responses = [], tasks = [], human_requests = [], deliveries = [],
     security_key_events = [], thread_state = [], pending_refs = [], quarantine = [],
     projection_cursors = [], sequence_gaps = [], attachments = [], sender_sequence = [],
     projection_queue = [], scheduler_queue = [], human_approvals = [], surface_queue = [],
     sent_objects = [], mutation_queue = [], key_rotations = [],
     rotation_quarantine = [], rotation_quarantine_seq = 0, unknown_epoch_first_seen = [],
     wrap_seen_pending = [], replay_guard = [], receive_quarantine = [],
     receive_retry_state = [], rotation_processed_events = [], relay_config = [], relay = [], key_files = []\<rparr>"

text \<open>\<open>store.db.transaction\<close>: everything but the files (the relay directory and the
  key files) is rolled back by a raise.\<close>

definition rollback :: "db \<Rightarrow> db \<Rightarrow> db" where
  "rollback s s' = s\<lparr>relay := relay s', key_files := key_files s'\<rparr>"

definition txn :: "(db, 'e, 'a) prog \<Rightarrow> (db, 'e, 'a) prog" where
  "txn p = (\<lambda>s. case p s of
     (Inl e, s') \<Rightarrow> (Inl e, rollback s s') | (Inr a, s') \<Rightarrow> (Inr a, s'))"

lemma txn_Inl: "p s = (Inl e, s') \<Longrightarrow> txn p s = (Inl e, rollback s s')"
  by (simp add: txn_def)

lemma txn_Inr: "p s = (Inr a, s') \<Longrightarrow> txn p s = (Inr a, s')"
  by (simp add: txn_def)

lemma txn_outcome: "fst (txn p s) = fst (p s)"
  by (auto simp: txn_def split: prod.splits sum.splits)

lemma preserves_txn:
  "preserves I p \<Longrightarrow> (\<And>s s'. I s \<Longrightarrow> I s' \<Longrightarrow> I (rollback s s')) \<Longrightarrow> preserves I (txn p)"
  unfolding preserves_def txn_def by (fastforce split: prod.splits sum.splits)

definition relationship_of :: "db \<Rightarrow> str \<Rightarrow> relationship_row option" where
  "relationship_of s rid = fetchone (\<lambda>r. rl_id r = rid) (relationships s)"

definition event_of :: "db \<Rightarrow> str \<Rightarrow> event_row option" where
  "event_of s eid = fetchone (\<lambda>r. ev_id r = eid) (events s)"

end
