(* ===== verification/Delivery.thy ===== *)
theory Delivery
  imports Clock Store
begin

text \<open>
  The receiver-owned delivery policy of \<open>policy/delivery.py\<close>. The policy lives under the key
  \<open>delivery\<close> of the JSON document in \<open>relationships.policy\<close>; the column holds what
  \<open>json.loads\<close> makes of its text, \<open>None\<close> where it raises. The clock (\<open>utcnow\<close>) is an argument.
  A Python exception other than the module's own is \<open>PyRaise\<close> with its class name.
\<close>

datatype policy_exn = PolicyError str | UnknownRelationshipError str | PyRaise str

section \<open>Python's coercions of JSON values\<close>

text \<open>Decimal digits, single underscores between them allowed, as \<open>int(text)\<close> reads them.\<close>

fun decimal_digits :: "str \<Rightarrow> nat \<Rightarrow> nat option" where
  "decimal_digits [] n = Some n"
| "decimal_digits (c # s) n =
     (if is_digit c then decimal_digits s (10 * n + digit_val c)
      else if c = CHR ''_'' then
        (case s of [] \<Rightarrow> None
         | d # _ \<Rightarrow> if is_digit d then decimal_digits s n else None)
      else None)"

definition unsigned_int :: "str \<Rightarrow> nat option" where
  "unsigned_int s = (case s of [] \<Rightarrow> None | c # _ \<Rightarrow> if is_digit c then decimal_digits s 0 else None)"

definition int_of_text :: "str \<Rightarrow> policy_exn + int" where
  "int_of_text t =
     (case strip t of
        [] \<Rightarrow> Inl (PyRaise ''ValueError'')
      | c # s \<Rightarrow>
          (let (sign, body) =
             (if c = CHR ''-'' then (-1, s) else if c = CHR ''+'' then (1, s) else (1, c # s))
           in (case unsigned_int body of
                 None \<Rightarrow> Inl (PyRaise ''ValueError'') | Some n \<Rightarrow> Inr (sign * int n))))"

fun py_int :: "json \<Rightarrow> policy_exn + int" where
  "py_int (JInt n) = Inr n"
| "py_int (JBool b) = Inr (if b then 1 else 0)"
| "py_int (JStr s) = int_of_text s"
| "py_int JNull = Inl (PyRaise ''TypeError'')"
| "py_int (JArr xs) = Inl (PyRaise ''TypeError'')"
| "py_int (JObj kvs) = Inl (PyRaise ''TypeError'')"

fun py_bool :: "json \<Rightarrow> bool" where
  "py_bool JNull = False"
| "py_bool (JBool b) = b"
| "py_bool (JInt n) = (n \<noteq> 0)"
| "py_bool (JStr s) = (s \<noteq> [])"
| "py_bool (JArr xs) = (xs \<noteq> [])"
| "py_bool (JObj kvs) = (kvs \<noteq> [])"

section \<open>The policy record\<close>

definition DELIVERY_MODES :: "str list" where
  "DELIVERY_MODES = [''silent'', ''digest'', ''alert'', ''feed_eligible'']"

definition EXPIRY_HANDLINGS :: "str list" where
  "EXPIRY_HANDLINGS = [''honor'', ''ignore'', ''shorten'']"

definition surface_action_by_mode :: "(str \<times> str) list" where
  "surface_action_by_mode =
     [(''silent'', ''persist_only''), (''digest'', ''queue_digest''),
      (''alert'', ''surface_promptly''), (''feed_eligible'', ''consider_feed'')]"

record delivery_policy =
  dp_mode :: json
  dp_version :: int
  dp_updated :: json
  dp_seen :: bool
  dp_accepted :: bool
  dp_expiry :: json
  dp_shorten :: json

record expiry_decision =
  ed_suppress :: bool
  ed_effective :: "str option"
  ed_reason :: str
  ed_version :: int
  ed_retain :: bool

type_synonym dict = "(str \<times> json) list"

definition default_delivery_dict :: dict where
  "default_delivery_dict =
     [(''mode'', JStr ''silent''), (''version'', JInt 0), (''updated_at'', JNull),
      (''seen_receipts_enabled'', JBool False), (''accepted_receipts_enabled'', JBool True),
      (''expiry_handling'', JStr ''honor''), (''expiry_shorten_after_seconds'', JNull)]"

fun merge_known :: "dict \<Rightarrow> dict \<Rightarrow> dict" where
  "merge_known [] merged = merged"
| "merge_known ((k, v) # raw) merged =
     merge_known raw (if k \<in> fst ` set merged then dict_set k v merged else merged)"

definition coerce_delivery_dict :: "json option \<Rightarrow> dict" where
  "coerce_delivery_dict raw =
     (case raw of Some (JObj kvs) \<Rightarrow> merge_known kvs default_delivery_dict
      | _ \<Rightarrow> default_delivery_dict)"

definition item :: "dict \<Rightarrow> str \<Rightarrow> json" where
  "item d k = (case dict_get d k of None \<Rightarrow> JNull | Some v \<Rightarrow> v)"

definition to_policy :: "dict \<Rightarrow> policy_exn + delivery_policy" where
  "to_policy d =
     (case py_int (item d ''version'') of
        Inl e \<Rightarrow> Inl e
      | Inr n \<Rightarrow> Inr \<lparr>dp_mode = item d ''mode'', dp_version = n, dp_updated = item d ''updated_at'',
          dp_seen = py_bool (item d ''seen_receipts_enabled''),
          dp_accepted = py_bool (item d ''accepted_receipts_enabled''),
          dp_expiry = item d ''expiry_handling'',
          dp_shorten = item d ''expiry_shorten_after_seconds''\<rparr>)"

definition load_policy_document :: "db \<Rightarrow> str \<Rightarrow> policy_exn + dict" where
  "load_policy_document s rid =
     (case relationship_of s rid of
        None \<Rightarrow> Inl (UnknownRelationshipError rid)
      | Some r \<Rightarrow>
          (case rl_policy r of
             Some (JObj d) \<Rightarrow> Inr d
           | _ \<Rightarrow> Inl (PolicyError ''policy_not_json'')))"

definition set_policy_document :: "str \<Rightarrow> dict \<Rightarrow> db \<Rightarrow> db" where
  "set_policy_document rid d s =
     s\<lparr>relationships := update_where (\<lambda>r. rl_id r = rid) (\<lambda>r. r\<lparr>rl_policy := Some (JObj d)\<rparr>)
        (relationships s)\<rparr>"

definition store_delivery_dict :: "str \<Rightarrow> dict \<Rightarrow> (db, policy_exn, delivery_policy) prog" where
  "store_delivery_dict rid data =
     seq (txn (\<lambda>s. case load_policy_document s rid of
            Inl e \<Rightarrow> (Inl e, s)
          | Inr doc \<Rightarrow> (Inr (), set_policy_document rid (dict_set ''delivery'' (JObj data) doc) s)))
       (\<lambda>_ s. (to_policy data, s))"

definition bump :: "str \<Rightarrow> dict \<Rightarrow> policy_exn + dict" where
  "bump now data =
     (case py_int (case dict_get data ''version'' of None \<Rightarrow> JInt 0 | Some v \<Rightarrow> v) of
        Inl e \<Rightarrow> Inl e
      | Inr n \<Rightarrow> Inr (dict_set ''updated_at'' (JStr now) (dict_set ''version'' (JInt (n + 1)) data)))"

definition get_policy :: "db \<Rightarrow> str \<Rightarrow> policy_exn + delivery_policy" where
  "get_policy s rid =
     (case load_policy_document s rid of
        Inl e \<Rightarrow> Inl e
      | Inr doc \<Rightarrow> to_policy (coerce_delivery_dict (dict_get doc ''delivery'')))"

text \<open>The shared body of the four setters: load, bump, write one entry or two, store.\<close>

definition set_entries ::
  "str \<Rightarrow> str \<Rightarrow> (str \<times> json) list \<Rightarrow> (db, policy_exn, delivery_policy) prog" where
  "set_entries now rid entries =
     (\<lambda>s. case load_policy_document s rid of
        Inl e \<Rightarrow> (Inl e, s)
      | Inr doc \<Rightarrow>
          (case bump now (coerce_delivery_dict (dict_get doc ''delivery'')) of
             Inl e \<Rightarrow> (Inl e, s)
           | Inr data \<Rightarrow>
               store_delivery_dict rid (fold (\<lambda>(k, v). dict_set k v) entries data) s))"

definition set_policy :: "str \<Rightarrow> str \<Rightarrow> str \<Rightarrow> (db, policy_exn, delivery_policy) prog" where
  "set_policy now rid mode =
     (if mode \<notin> set DELIVERY_MODES then raise (PolicyError ''invalid_delivery_mode'')
      else set_entries now rid [(''mode'', JStr mode)])"

definition set_seen_receipts_enabled ::
  "str \<Rightarrow> str \<Rightarrow> bool \<Rightarrow> (db, policy_exn, delivery_policy) prog" where
  "set_seen_receipts_enabled now rid enabled =
     set_entries now rid [(''seen_receipts_enabled'', JBool enabled)]"

definition set_accepted_receipts_enabled ::
  "str \<Rightarrow> str \<Rightarrow> bool \<Rightarrow> (db, policy_exn, delivery_policy) prog" where
  "set_accepted_receipts_enabled now rid enabled =
     set_entries now rid [(''accepted_receipts_enabled'', JBool enabled)]"

definition set_expiry_policy ::
  "str \<Rightarrow> str \<Rightarrow> str \<Rightarrow> json \<Rightarrow> (db, policy_exn, delivery_policy) prog" where
  "set_expiry_policy now rid handling shorten_after_seconds =
     (if handling \<notin> set EXPIRY_HANDLINGS then raise (PolicyError ''invalid_expiry_handling'')
      else if handling = ''shorten'' \<and>
          (case shorten_after_seconds of JInt n \<Rightarrow> n \<le> 0 | _ \<Rightarrow> True)
        then raise (PolicyError ''invalid_shorten_window'')
      else if handling \<noteq> ''shorten'' \<and> shorten_after_seconds \<noteq> JNull
        then raise (PolicyError ''shorten_window_without_shorten'')
      else set_entries now rid
        [(''expiry_handling'', JStr handling),
         (''expiry_shorten_after_seconds'', shorten_after_seconds)])"

definition should_send_seen_receipt :: "db \<Rightarrow> str \<Rightarrow> str \<Rightarrow> bool \<Rightarrow> policy_exn + bool" where
  "should_send_seen_receipt s rid eid human_visible_view_opened =
     (case get_policy s rid of
        Inl e \<Rightarrow> Inl e
      | Inr policy \<Rightarrow>
          if \<not> dp_seen policy then Inr False
          else if \<not> human_visible_view_opened then Inr False
          else Inr (fetchone (\<lambda>r. ev_id r = eid \<and> ev_rel r = rid) (events s) \<noteq> None))"

definition accepted_receipt_permitted :: "db \<Rightarrow> str \<Rightarrow> policy_exn + bool" where
  "accepted_receipt_permitted s rid =
     (case get_policy s rid of Inl e \<Rightarrow> Inl e | Inr policy \<Rightarrow> Inr (dp_accepted policy))"

definition surface_action :: "str \<Rightarrow> policy_exn + str" where
  "surface_action mode =
     (case dict_get surface_action_by_mode mode of
        None \<Rightarrow> Inl (PolicyError ''invalid_delivery_mode'') | Some a \<Rightarrow> Inr a)"

definition policy_snapshot :: "db \<Rightarrow> str \<Rightarrow> policy_exn + dict" where
  "policy_snapshot s rid =
     (case get_policy s rid of
        Inl e \<Rightarrow> Inl e
      | Inr policy \<Rightarrow> Inr
          [(''mode'', dp_mode policy), (''version'', JInt (dp_version policy)),
           (''seen_receipts_enabled'', JBool (dp_seen policy)),
           (''accepted_receipts_enabled'', JBool (dp_accepted policy)),
           (''updated_at'', dp_updated policy)])"

text \<open>A mode that is a list or an object is not hashable: the dictionary lookup raises.\<close>

definition snapshot_to_action :: "dict \<Rightarrow> policy_exn + str" where
  "snapshot_to_action snapshot =
     (case item snapshot ''mode'' of
        JStr m \<Rightarrow> Inr (case dict_get surface_action_by_mode m of None \<Rightarrow> ''persist_only'' | Some a \<Rightarrow> a)
      | JArr _ \<Rightarrow> Inl (PyRaise ''TypeError'')
      | JObj _ \<Rightarrow> Inl (PyRaise ''TypeError'')
      | _ \<Rightarrow> Inr ''persist_only'')"

section \<open>Expiry\<close>

definition decision ::
  "bool \<Rightarrow> str option \<Rightarrow> str \<Rightarrow> delivery_policy \<Rightarrow> expiry_decision" where
  "decision suppress effective reason policy =
     \<lparr>ed_suppress = suppress, ed_effective = effective, ed_reason = reason,
      ed_version = dp_version policy, ed_retain = True\<rparr>"

fun add_window :: "str \<Rightarrow> json \<Rightarrow> policy_exn + str" where
  "add_window created n =
     (case py_int (if py_bool n then n else JInt 0) of
        Inl e \<Rightarrow> Inl e
      | Inr k \<Rightarrow> (case add_seconds created k of
          Inl ValueError \<Rightarrow> Inl (PyRaise ''ValueError'')
        | Inl OverflowError \<Rightarrow> Inl (PyRaise ''OverflowError'')
        | Inr t \<Rightarrow> Inr t))"

definition expiry_candidates ::
  "delivery_policy \<Rightarrow> str \<Rightarrow> str option \<Rightarrow> policy_exn + str list" where
  "expiry_candidates policy created sender_expires =
     (let requested = (case sender_expires of None \<Rightarrow> [] | Some t \<Rightarrow> if t = [] then [] else [t])
      in if list_ex (\<lambda>t. \<not> is_canonical t) requested then Inl (PolicyError ''invalid_timestamp'')
         else if dp_expiry policy = JStr ''shorten'' then
           (case add_window created (dp_shorten policy) of
              Inl e \<Rightarrow> Inl e | Inr w \<Rightarrow> Inr (requested @ [w]))
         else Inr requested)"

definition min_text :: "str list \<Rightarrow> str" where
  "min_text ts = foldr min (tl ts) (hd ts)"

definition decide_expiry ::
  "delivery_policy \<Rightarrow> str option \<Rightarrow> str option \<Rightarrow> str \<Rightarrow> policy_exn + expiry_decision" where
  "decide_expiry policy created_at sender_expires now =
     (case (case created_at of None \<Rightarrow> Inl ValueError | Some c \<Rightarrow> parse_canonical_utc c) of
        Inl e \<Rightarrow> Inl (PolicyError ''invalid_timestamp'')
      | Inr created_dt \<Rightarrow>
          (case parse_canonical_utc now of
             Inl e \<Rightarrow> Inl (PolicyError ''invalid_timestamp'')
           | Inr now_dt \<Rightarrow>
               if dp_expiry policy = JStr ''ignore''
               then Inr (decision False None ''expiry_ignored_by_receiver_policy'' policy)
               else (case expiry_candidates policy (the created_at) sender_expires of
                  Inl e \<Rightarrow> Inl e
                | Inr [] \<Rightarrow> Inr (decision False None ''no_effective_expiry'' policy)
                | Inr (c # cs) \<Rightarrow>
                    (let effective = min_text (c # cs)
                     in case parse_canonical_utc effective of
                          Inl e \<Rightarrow> Inl (PyRaise ''ValueError'')
                        | Inr effective_dt \<Rightarrow>
                            if now_dt < effective_dt
                            then Inr (decision False (Some effective) ''not_yet_expired'' policy)
                            else Inr (decision True (Some effective)
                              (if dp_expiry policy = JStr ''honor''
                               then ''expired_sender_request_honored''
                               else ''expired_shortened_window'') policy)))))"

definition apply_expiry ::
  "db \<Rightarrow> str \<Rightarrow> str option \<Rightarrow> str option \<Rightarrow> str \<Rightarrow> policy_exn + expiry_decision" where
  "apply_expiry s rid created_at expires_at now =
     (case get_policy s rid of
        Inl e \<Rightarrow> Inl e | Inr policy \<Rightarrow> decide_expiry policy created_at expires_at now)"

section \<open>The contract of the setters\<close>

definition known_keys :: "str set" where
  "known_keys = fst ` set default_delivery_dict"

definition full_dict :: "dict \<Rightarrow> bool" where
  "full_dict d \<longleftrightarrow> distinct (map fst d) \<and> fst ` set d = known_keys"

lemma full_default: "full_dict default_delivery_dict"
  by (simp add: full_dict_def known_keys_def default_delivery_dict_def)

lemma full_dict_set: "full_dict d \<Longrightarrow> k \<in> known_keys \<Longrightarrow> full_dict (dict_set k v d)"
  by (auto simp: full_dict_def dict_set_keys distinct_dict_set)

lemma full_merge: "full_dict d \<Longrightarrow> full_dict (merge_known raw d)"
proof (induction raw d rule: merge_known.induct)
  case (2 k v raw merged)
  then show ?case
    using full_dict_set [of merged k v] by (cases "k \<in> fst ` set merged") (auto simp: full_dict_def)
qed simp

lemma full_coerce: "full_dict (coerce_delivery_dict raw)"
  by (auto simp: coerce_delivery_dict_def full_default full_merge split: option.splits json.splits)

lemma dict_get_merge:
  "distinct (map fst raw) \<Longrightarrow> k \<in> fst ` set d \<Longrightarrow> fst ` set raw \<subseteq> fst ` set d \<Longrightarrow>
   dict_get (merge_known raw d) k = (case dict_get raw k of None \<Rightarrow> dict_get d k | Some v \<Rightarrow> Some v)"
proof (induction raw d rule: merge_known.induct)
  case (2 k' v raw merged)
  have "dict_get raw k' = None" using 2(2) by (simp add: map_of_eq_None_iff)
  then show ?case using 2 by (auto simp: dict_set_keys subset_insertI2 split: option.splits)
qed simp

lemma coerce_full: "full_dict d \<Longrightarrow> k \<in> known_keys \<Longrightarrow> item (coerce_delivery_dict (Some (JObj d))) k = item d k"
proof -
  assume d: "full_dict d" "k \<in> known_keys"
  then have "dict_get d k \<noteq> None" by (simp add: full_dict_def map_of_eq_None_iff)
  with d show ?thesis
    using dict_get_merge [of d k default_delivery_dict]
    by (auto simp: coerce_delivery_dict_def item_def full_dict_def known_keys_def)
qed

lemma to_policy_cong:
  "(\<And>k. k \<in> known_keys \<Longrightarrow> item d k = item d' k) \<Longrightarrow> to_policy d = to_policy d'"
  by (simp add: to_policy_def known_keys_def default_delivery_dict_def split: sum.split)

lemma to_policy_coerce: "full_dict d \<Longrightarrow> to_policy (coerce_delivery_dict (Some (JObj d))) = to_policy d"
  by (rule to_policy_cong) (rule coerce_full)

lemma load_set_same:
  "load_policy_document s rid = Inr doc \<Longrightarrow>
   load_policy_document (set_policy_document rid d s) rid = Inr d"
  using fetchone_update_same [of "\<lambda>r. rl_id r = rid"
      "\<lambda>r. r\<lparr>rl_policy := Some (JObj d)\<rparr>" "relationships s"]
  by (auto simp: load_policy_document_def set_policy_document_def relationship_of_def
      split: option.splits)

lemma load_set_other:
  "rid' \<noteq> rid \<Longrightarrow>
   load_policy_document (set_policy_document rid d s) rid' = load_policy_document s rid'"
  using fetchone_update_other [of "\<lambda>r. rl_id r = rid'" "\<lambda>r. rl_id r = rid"
      "\<lambda>r. r\<lparr>rl_policy := Some (JObj d)\<rparr>" "relationships s"]
  by (auto simp: load_policy_document_def set_policy_document_def relationship_of_def)

text \<open>
  Each setter writes some entries of the delivery dictionary, never the version or its time.
  What a caller may rely on is proved once for any such list of entries.
\<close>

definition put_entries :: "(str \<times> json) list \<Rightarrow> dict \<Rightarrow> dict" where
  "put_entries entries d = fold (\<lambda>(k, v). dict_set k v) entries d"

locale delivery_setter =
  fixes entries :: "(str \<times> json) list"
  assumes known: "fst ` set entries \<subseteq> known_keys"
    and no_version: "''version'' \<notin> fst ` set entries"
    and no_updated: "''updated_at'' \<notin> fst ` set entries"
begin

lemma full_put:
  assumes "full_dict d" shows "full_dict (put_entries entries d)"
proof -
  have "full_dict (put_entries es d)" if "fst ` set es \<subseteq> known_keys" "full_dict d" for es d
    using that by (induction es arbitrary: d) (auto simp: put_entries_def full_dict_set)
  then show ?thesis using assms known by blast
qed

lemma item_put:
  assumes "k \<notin> fst ` set entries" shows "item (put_entries entries d) k = item d k"
proof -
  have "item (put_entries es d) k = item d k" if "k \<notin> fst ` set es" for es d
    using that by (induction es arbitrary: d) (auto simp: put_entries_def item_def)
  then show ?thesis using assms by blast
qed

lemma set_entries_spec:
  assumes doc: "load_policy_document s rid = Inr doc" and old: "get_policy s rid = Inr p"
  shows "\<exists>q s'. set_entries now rid entries s = (Inr q, s') \<and> get_policy s' rid = Inr q \<and>
    dp_version q = dp_version p + 1 \<and> dp_updated q = JStr now \<and>
    (\<forall>rid'. rid' \<noteq> rid \<longrightarrow> get_policy s' rid' = get_policy s rid') \<and>
    to_policy (put_entries entries (dict_set ''updated_at'' (JStr now)
      (dict_set ''version'' (JInt (dp_version p + 1))
        (coerce_delivery_dict (dict_get doc ''delivery''))))) = Inr q"
proof -
  define c where "c = coerce_delivery_dict (dict_get doc ''delivery'')"
  define d where "d = put_entries entries (dict_set ''updated_at'' (JStr now)
    (dict_set ''version'' (JInt (dp_version p + 1)) c))"
  have c: "full_dict c" by (simp add: c_def full_coerce)
  then have has: "dict_get c ''version'' \<noteq> None"
    by (auto simp: full_dict_def known_keys_def default_delivery_dict_def map_of_eq_None_iff)
  have vers: "py_int (item c ''version'') = Inr (dp_version p)"
    using old doc by (auto simp: get_policy_def c_def to_policy_def split: sum.splits)
  have bump: "bump now c = Inr (dict_set ''updated_at'' (JStr now)
      (dict_set ''version'' (JInt (dp_version p + 1)) c))"
    using has vers by (auto simp: bump_def item_def)
  have "''version'' \<in> known_keys" "''updated_at'' \<in> known_keys"
    by (simp_all add: known_keys_def default_delivery_dict_def)
  then have d: "full_dict d" unfolding d_def by (intro full_put full_dict_set c)
  have items: "item d ''version'' = JInt (dp_version p + 1)" "item d ''updated_at'' = JStr now"
    unfolding d_def by (simp_all add: item_put no_version no_updated) (simp_all add: item_def)
  obtain q where q: "to_policy d = Inr q" by (simp add: to_policy_def items)
  let ?s' = "set_policy_document rid (dict_set ''delivery'' (JObj d) doc) s"
  have run: "set_entries now rid entries s = (Inr q, ?s')"
    using doc bump q
    by (simp add: set_entries_def c_def [symmetric] store_delivery_dict_def seq_def txn_def
        d_def put_entries_def)
  have "get_policy ?s' rid = Inr q"
    using load_set_same [OF doc] to_policy_coerce [OF d] q by (simp add: get_policy_def)
  moreover have "dp_version q = dp_version p + 1" "dp_updated q = JStr now"
    using q items by (auto simp: to_policy_def)
  moreover have "\<forall>rid'. rid' \<noteq> rid \<longrightarrow> get_policy ?s' rid' = get_policy s rid'"
    by (simp add: get_policy_def load_set_other)
  ultimately show ?thesis using run q by (auto simp: d_def c_def)
qed

end

interpretation mode_setter: delivery_setter "[(''mode'', JStr mode)]" for mode
  by unfold_locales (simp_all add: known_keys_def default_delivery_dict_def)

interpretation seen_setter: delivery_setter "[(''seen_receipts_enabled'', JBool b)]" for b
  by unfold_locales (simp_all add: known_keys_def default_delivery_dict_def)

interpretation accepted_setter: delivery_setter "[(''accepted_receipts_enabled'', JBool b)]" for b
  by unfold_locales (simp_all add: known_keys_def default_delivery_dict_def)

interpretation expiry_setter: delivery_setter
  "[(''expiry_handling'', JStr h), (''expiry_shorten_after_seconds'', w)]" for h w
  by unfold_locales (simp_all add: known_keys_def default_delivery_dict_def)


section \<open>Properties\<close>

text \<open>Every policy setter is the receiver's own, atomic and versioned: when the stored policy
  is readable, setting the delivery mode succeeds, the version grows by exactly one, the new
  mode is what \<open>get_policy\<close> then reads and what the caller is told, and the policy of every other relationship
  is untouched; an unknown mode is refused without a write.\<close>

lemma set_policy_versions:
  assumes "get_policy s rid = Inr p"
  shows "if mode \<in> set DELIVERY_MODES
    then \<exists>q s'. set_policy now rid mode s = (Inr q, s') \<and> get_policy s' rid = Inr q \<and>
      dp_mode q = JStr mode \<and> dp_version q = dp_version p + 1 \<and> dp_updated q = JStr now \<and>
      dp_seen q = dp_seen p \<and> dp_accepted q = dp_accepted p \<and> dp_expiry q = dp_expiry p \<and>
      dp_shorten q = dp_shorten p \<and>
      (\<forall>rid'. rid' \<noteq> rid \<longrightarrow> get_policy s' rid' = get_policy s rid')
    else set_policy now rid mode s = (Inl (PolicyError ''invalid_delivery_mode''), s)"
proof (cases "mode \<in> set DELIVERY_MODES")
  case True
  from assms obtain doc where doc: "load_policy_document s rid = Inr doc"
    by (auto simp: get_policy_def split: sum.splits)
  obtain q s' where r: "set_entries now rid [(''mode'', JStr mode)] s = (Inr q, s')"
    "get_policy s' rid = Inr q" "dp_version q = dp_version p + 1" "dp_updated q = JStr now"
    "\<forall>rid'. rid' \<noteq> rid \<longrightarrow> get_policy s' rid' = get_policy s rid'"
    and q: "to_policy (put_entries [(''mode'', JStr mode)] (dict_set ''updated_at'' (JStr now)
      (dict_set ''version'' (JInt (dp_version p + 1))
        (coerce_delivery_dict (dict_get doc ''delivery''))))) = Inr q"
    using mode_setter.set_entries_spec [OF doc assms, of now mode] by blast
  have "dp_mode q = JStr mode \<and> dp_seen q = dp_seen p \<and> dp_accepted q = dp_accepted p \<and>
      dp_expiry q = dp_expiry p \<and> dp_shorten q = dp_shorten p"
    using q assms doc
    by (auto simp: to_policy_def put_entries_def item_def get_policy_def split: sum.splits)
  with True r show ?thesis by (auto simp: set_policy_def)
qed (simp add: set_policy_def raise_def)

definition sample_relationship :: "str \<Rightarrow> relationship_row" where
  "sample_relationship rid = \<lparr>rl_id = rid, rl_peer = ''did:key:zPeer'', rl_consent = ''active'',
     rl_policy = Some (JObj []), rl_epoch = 1, rl_peer_key = None, rl_name = None,
      rl_prior = None, rl_grace = None\<rparr>"

definition sample_policy :: delivery_policy where
  "sample_policy = \<lparr>dp_mode = JStr ''silent'', dp_version = 0, dp_updated = JNull, dp_seen = False,
     dp_accepted = True, dp_expiry = JStr ''honor'', dp_shorten = JNull\<rparr>"

lemma get_policy_sample:
  "get_policy (empty_db\<lparr>relationships := [sample_relationship ''r'']\<rparr>) ''r'' = Inr sample_policy"
  by (simp add: get_policy_def load_policy_document_def relationship_of_def fetchone_def
      sample_relationship_def coerce_delivery_dict_def to_policy_def item_def
      default_delivery_dict_def sample_policy_def)

lemma set_policy_versions_sample:
  "\<exists>q s'. set_policy ''2026-01-01T00:00:00Z'' ''r'' ''alert''
      (empty_db\<lparr>relationships := [sample_relationship ''r'']\<rparr>) = (Inr q, s') \<and>
    dp_mode q = JStr ''alert'' \<and> dp_version q = 1"
  using set_policy_versions [OF get_policy_sample, of "''alert''" "''2026-01-01T00:00:00Z''"]
  by (auto simp: DELIVERY_MODES_def sample_policy_def)

text \<open>\<open>receipt.seen\<close> fails closed: it may be sent only if the receiver enabled it, a
  human-visible view was opened, and the event is committed for this very relationship; a
  relationship that never set a policy does not send it.\<close>

lemma seen_receipt_fails_closed:
  "(should_send_seen_receipt s rid eid view = Inr True \<longleftrightarrow>
     (\<exists>p. get_policy s rid = Inr p \<and> dp_seen p) \<and> view \<and>
     (\<exists>r \<in> set (events s). ev_id r = eid \<and> ev_rel r = rid)) \<and>
   (load_policy_document s rid = Inr doc \<and> dict_get doc ''delivery'' = None \<longrightarrow>
     should_send_seen_receipt s rid eid view = Inr False)"
proof
  show "should_send_seen_receipt s rid eid view = Inr True \<longleftrightarrow>
     (\<exists>p. get_policy s rid = Inr p \<and> dp_seen p) \<and> view \<and>
     (\<exists>r \<in> set (events s). ev_id r = eid \<and> ev_rel r = rid)"
    by (auto simp: should_send_seen_receipt_def fetchone_None split: sum.splits)
  show "load_policy_document s rid = Inr doc \<and> dict_get doc ''delivery'' = None \<longrightarrow>
     should_send_seen_receipt s rid eid view = Inr False"
    by (simp add: should_send_seen_receipt_def get_policy_def coerce_delivery_dict_def
        to_policy_def item_def default_delivery_dict_def)
qed

lemma seen_receipt_fails_closed_witness:
  "should_send_seen_receipt (empty_db\<lparr>relationships := [sample_relationship ''r'']\<rparr>) ''r'' ''e'' True
   = Inr False"
proof -
  have "load_policy_document (empty_db\<lparr>relationships := [sample_relationship ''r'']\<rparr>) ''r'' = Inr []"
    by (simp add: load_policy_document_def relationship_of_def fetchone_def sample_relationship_def)
  then show ?thesis
    using seen_receipt_fails_closed
      [of "empty_db\<lparr>relationships := [sample_relationship ''r'']\<rparr>" "''r''" "''e''" True "[]"] by simp
qed

text \<open>The request of the sender: an empty string is none.\<close>

definition asked :: "str option \<Rightarrow> str option" where
  "asked sender = (if sender = Some [] then None else sender)"

lemma candidates_exact:
  assumes "expiry_candidates p created sender = Inr cs"
  shows "if dp_expiry p = JStr ''shorten''
    then \<exists>w. add_window created (dp_shorten p) = Inr w \<and> cs = (case asked sender of None \<Rightarrow> [w] | Some t \<Rightarrow> [t, w])
    else cs = (case asked sender of None \<Rightarrow> [] | Some t \<Rightarrow> [t])"
  using assms by (cases sender) (auto simp: expiry_candidates_def asked_def Let_def split: if_splits sum.splits)

text \<open>C19. A receiver never extends a sender's expiry request, and never loses it. Unless the receiver ignores
  expiry, the effective expiry is the moment the sender asked for, or, where the receiver shortens, the earlier
  of it and the end of the receiver's own window, which also applies when the sender asked for nothing. The
  event is suppressed exactly from the effective moment on; a receiver that ignores expiry has none and never
  suppresses. The envelope is retained whatever is decided.\<close>

theorem expiry_never_extends:
  assumes "apply_expiry s rid (Some created) sender now = Inr d" and "get_policy s rid = Inr p"
  shows "ed_retain d \<and>
    (if dp_expiry p = JStr ''ignore'' then ed_effective d = None
     else if dp_expiry p = JStr ''shorten''
     then \<exists>w. add_window created (dp_shorten p) = Inr w \<and>
       ed_effective d = Some (case asked sender of None \<Rightarrow> w | Some t \<Rightarrow> min t w)
     else ed_effective d = asked sender) \<and>
    (ed_suppress d \<longleftrightarrow> (\<exists>u. ed_effective d = Some u \<and> u \<le> now))"
proof -
  from assms obtain c n where c: "parse_canonical_utc created = Inr c" and n: "parse_canonical_utc now = Inr n"
    and d: "decide_expiry p (Some created) sender now = Inr d"
    by (auto simp: apply_expiry_def decide_expiry_def split: sum.splits)
  show ?thesis
  proof (cases "dp_expiry p = JStr ''ignore''")
    case True
    with d c n show ?thesis by (auto simp: decide_expiry_def decision_def)
  next
    case False
    with d c n obtain cs where cs: "expiry_candidates p created sender = Inr cs"
      by (auto simp: decide_expiry_def split: sum.splits)
    note exact = candidates_exact [OF cs]
    show ?thesis
    proof (cases cs)
      case Nil
      with d c n cs False exact show ?thesis
        by (auto simp: decide_expiry_def decision_def split: option.splits if_splits)
    next
      case (Cons x xs)
      from d c n cs False obtain e where e: "parse_canonical_utc (min_text cs) = Inr e"
        by (auto simp: decide_expiry_def Let_def Cons split: sum.splits)
      have dec: "ed_retain d" "ed_effective d = Some (min_text cs)" "ed_suppress d = (\<not> n < e)"
        using d c n cs False e by (auto simp: decide_expiry_def Let_def Cons decision_def split: if_splits)
      have "n < e \<longleftrightarrow> now < min_text cs" using parse_less_iff [OF n e] by simp
      then have "ed_suppress d \<longleftrightarrow> min_text cs \<le> now" using dec(3) by auto
      then show ?thesis using dec(1,2) exact False Cons
        by (auto simp: min_text_def min.commute split: option.splits if_splits)
    qed
  qed
qed

theorem expiry_never_extends_witness:
  "\<exists>d. apply_expiry (empty_db\<lparr>relationships := [sample_relationship ''r'']\<rparr>) ''r''
     (Some ''2026-01-01T00:00:00Z'') (Some ''2026-01-02T00:00:00Z'') ''2026-01-03T00:00:00Z'' = Inr d \<and>
     ed_suppress d \<and> ed_effective d = Some ''2026-01-02T00:00:00Z''"
proof -
  have p: "parse_canonical_utc ''2026-01-01T00:00:00Z'' = Inr 63902822400"
    "parse_canonical_utc ''2026-01-02T00:00:00Z'' = Inr 63902908800"
    "parse_canonical_utc ''2026-01-03T00:00:00Z'' = Inr 63902995200"
    by (simp_all add: clock_eval)
  have "apply_expiry (empty_db\<lparr>relationships := [sample_relationship ''r'']\<rparr>) ''r''
     (Some ''2026-01-01T00:00:00Z'') (Some ''2026-01-02T00:00:00Z'') ''2026-01-03T00:00:00Z'' =
     Inr (decision True (Some ''2026-01-02T00:00:00Z'') ''expired_sender_request_honored'' sample_policy)"
    by (simp add: apply_expiry_def get_policy_sample decide_expiry_def p sample_policy_def
        expiry_candidates_def is_canonical_def min_text_def)
  from expiry_never_extends [OF this get_policy_sample] this show ?thesis by (auto simp: decision_def)
qed

end
