(* ===== verification/Approvals.thy ===== *)
theory Approvals
  imports Clock Store
begin

text \<open>
  Human approvals (\<open>model/approvals.py\<close>): the local record a gated send consumes. The id that
  \<open>uuid.uuid4\<close> draws is an argument, and an INSERT of an id already present raises. \<open>created_at\<close>
  is the canonical text of \<open>utcnow\<close>, which every caller passes; on it \<open>fromisoformat\<close> is
  \<open>parse_canonical_utc\<close>. The column additions for databases of older versions
  (\<open>ensure_approvals_columns\<close>) are not modelled.
\<close>

datatype approval_exn = ApprovalError str | ApprovalClock clock_error | ApprovalIntegrity

definition APPROVAL_TTL_SECONDS :: int where
  "APPROVAL_TTL_SECONDS = 24 * 3600"

definition expiry_for :: "str \<Rightarrow> str option \<Rightarrow> clock_error + str" where
  "expiry_for created_at expires_at = (case expires_at of
     Some t \<Rightarrow> Inr t
   | None \<Rightarrow> add_seconds created_at APPROVAL_TTL_SECONDS)"

definition create_approval ::
  "str \<Rightarrow> str \<Rightarrow> str \<Rightarrow> str \<Rightarrow> str \<Rightarrow> bool \<Rightarrow> str \<Rightarrow> str option \<Rightarrow> str option \<Rightarrow>
   (db, approval_exn, str) prog" where
  "create_approval fresh rel subject_type subject answer approved created_at nt expires_at s =
     (if subject_type \<notin> {''human_request'', ''poll''} then (Inl (ApprovalError ''bad_subject_type''), s)
      else case expiry_for created_at expires_at of
        Inl e \<Rightarrow> (Inl (ApprovalClock e), s)
      | Inr expiry \<Rightarrow>
          if fresh \<in> ap_id ` set (human_approvals s) then (Inl ApprovalIntegrity, s)
          else (Inr fresh, s\<lparr>human_approvals := human_approvals s @
            [\<lparr>ap_id = fresh, ap_rel = rel, ap_subject_type = subject_type, ap_subject = subject,
              ap_answer = answer, ap_approved = approved, ap_created = created_at,
              ap_expires = expiry, ap_consumed = None, ap_note = nt\<rparr>]\<rparr>))"

text \<open>The optional keyword arguments of \<open>consume_approval\<close> that bind it to one response.\<close>

record binding =
  b_rel :: "str option"
  b_subject_type :: "str option"
  b_subject :: "str option"
  b_answer :: "str option"
  b_approved :: "bool option"

definition unbound :: binding where
  "unbound = \<lparr>b_rel = None, b_subject_type = None, b_subject = None, b_answer = None,
     b_approved = None\<rparr>"

definition agrees :: "'a option \<Rightarrow> 'a \<Rightarrow> bool" where
  "agrees wanted actual = (case wanted of None \<Rightarrow> True | Some w \<Rightarrow> actual = w)"

definition binds :: "binding \<Rightarrow> approval_row \<Rightarrow> bool" where
  "binds b r \<longleftrightarrow> agrees (b_rel b) (ap_rel r) \<and> agrees (b_subject_type b) (ap_subject_type r) \<and>
     agrees (b_subject b) (ap_subject r) \<and> agrees (b_answer b) (ap_answer r) \<and>
     agrees (b_approved b) (ap_approved r)"

definition live :: "str \<Rightarrow> approval_row \<Rightarrow> bool" where
  "live now r \<longleftrightarrow> ap_consumed r = None \<and> now < ap_expires r"

definition consumable :: "str \<Rightarrow> str \<Rightarrow> binding \<Rightarrow> approval_row \<Rightarrow> bool" where
  "consumable aid now b r \<longleftrightarrow> ap_id r = aid \<and> live now r \<and> binds b r"

definition consume_approval :: "str \<Rightarrow> str \<Rightarrow> binding \<Rightarrow> db \<Rightarrow> bool \<times> db" where
  "consume_approval aid now b s =
     (rowcount (consumable aid now b) (human_approvals s) = 1,
      s\<lparr>human_approvals := update_where (consumable aid now b)
          (\<lambda>r. r\<lparr>ap_consumed := Some now\<rparr>) (human_approvals s)\<rparr>)"

definition get_approval :: "db \<Rightarrow> str \<Rightarrow> approval_row option" where
  "get_approval s aid = fetchone (\<lambda>r. ap_id r = aid) (human_approvals s)"

section \<open>One row\<close>

text \<open>The primary key holds in every database.\<close>

abbreviation approvals_ok :: "db \<Rightarrow> bool" where
  "approvals_ok s \<equiv> unique_key ap_id (human_approvals s)"

lemma approvals_ok_consume: "approvals_ok s \<Longrightarrow> approvals_ok (snd (consume_approval aid now b s))"
  by (simp add: consume_approval_def unique_key_update)

lemma approvals_ok_create:
  "approvals_ok s \<Longrightarrow>
   approvals_ok (snd (create_approval fresh rel st sj an ok cr nt ex s))"
  by (auto simp: create_approval_def table_simps split: sum.split)

lemma consume_result:
  assumes "approvals_ok s"
  shows "fst (consume_approval aid now b s) =
     (case get_approval s aid of None \<Rightarrow> False | Some r \<Rightarrow> live now r \<and> binds b r)"
  using rowcount_unique [OF assms, of "consumable aid now b" aid]
  by (auto simp: consume_approval_def get_approval_def consumable_def split: option.split
        dest: fetchone_Some_mem)

lemma get_after_consume_same:
  "get_approval (snd (consume_approval aid now b s)) aid =
   map_option (\<lambda>r. if live now r \<and> binds b r then r\<lparr>ap_consumed := Some now\<rparr> else r) (get_approval s aid)"
proof -
  have eq: "update_where (consumable aid now b) (\<lambda>r. r\<lparr>ap_consumed := Some now\<rparr>) t =
    update_where (\<lambda>r. ap_id r = aid)
      (\<lambda>r. if live now r \<and> binds b r then r\<lparr>ap_consumed := Some now\<rparr> else r) t" for t
    by (auto simp: update_where_def consumable_def)
  show ?thesis
    unfolding get_approval_def consume_approval_def snd_conv eq
    by (simp add: fetchone_update_same)
qed

lemma get_after_consume_other:
  "aid' \<noteq> aid \<Longrightarrow> get_approval (snd (consume_approval aid now b s)) aid' = get_approval s aid'"
  unfolding get_approval_def consume_approval_def
  by (auto simp: consumable_def intro!: fetchone_update_other)

lemma get_after_create:
  assumes "fst (create_approval fresh rel st sj an ok cr nt ex s) = Inr aid"
  shows "aid = fresh" "get_approval s aid = None"
    "get_approval (snd (create_approval fresh rel st sj an ok cr nt ex s)) aid' =
     (if aid' = aid then (case expiry_for cr ex of Inr t \<Rightarrow>
        Some \<lparr>ap_id = aid, ap_rel = rel, ap_subject_type = st, ap_subject = sj, ap_answer = an,
          ap_approved = ok, ap_created = cr, ap_expires = t, ap_consumed = None, ap_note = nt\<rparr>
        | Inl _ \<Rightarrow> None)
      else get_approval s aid')"
  using assms fetchone_None [of "\<lambda>r. ap_id r = aid" "human_approvals s"]
  by (auto simp: create_approval_def get_approval_def fetchone_append
        split: if_splits sum.splits option.split dest: fetchone_Some_mem)

lemma get_after_failed_create:
  assumes "fst (create_approval fresh rel st sj an ok cr nt ex s) = Inl e"
  shows "snd (create_approval fresh rel st sj an ok cr nt ex s) = s"
  using assms by (auto simp: create_approval_def split: if_splits sum.splits)

section \<open>Histories\<close>

text \<open>A history interleaves the two writing operations of the module, on any ids.\<close>

datatype approval_op =
    Create str str str str str bool str "str option" "str option"
  | Consume str str binding

fun approval_step :: "approval_op \<Rightarrow> (db, approval_exn, bool) prog" where
  "approval_step (Create fresh rel st sj an ok cr nt ex) =
     seq (create_approval fresh rel st sj an ok cr nt ex) (\<lambda>_. ret False)"
| "approval_step (Consume aid now b) =
     (\<lambda>s. case consume_approval aid now b s of (won, s') \<Rightarrow> (Inr won, s'))"

text \<open>How often a history claims the approval \<open>aid\<close>: the consumptions that return \<open>True\<close>.\<close>

fun claims :: "str \<Rightarrow> approval_op list \<Rightarrow> db \<Rightarrow> nat" where
  "claims aid [] s = 0"
| "claims aid (op # ops) s = (case approval_step op s of (r, s') \<Rightarrow>
     (case op of Consume a now b \<Rightarrow> if a = aid \<and> r = Inr True then 1 else 0
        | Create _ _ _ _ _ _ _ _ _ \<Rightarrow> 0) + claims aid ops s')"

lemma approvals_ok_step: "approvals_ok s \<Longrightarrow> approvals_ok (snd (approval_step op s))"
proof (cases op)
  case (Create fresh rel st sj an ok cr nt ex)
  assume "approvals_ok s"
  from approvals_ok_create [OF this, of fresh rel st sj an ok cr nt ex] show ?thesis
    by (auto simp: Create seq_def ret_def split: prod.splits sum.splits)
next
  case (Consume aid now b)
  assume "approvals_ok s"
  from approvals_ok_consume [OF this, of aid now b] show ?thesis
    by (simp add: Consume case_prod_beta)
qed

lemma spent_stays:
  assumes "approvals_ok s" and "get_approval s aid = Some r" and "ap_consumed r \<noteq> None"
  shows "\<exists>r'. get_approval (snd (approval_step op s)) aid = Some r' \<and> ap_consumed r' \<noteq> None"
proof (cases op)
  case (Create fresh rel st sj an ok cr nt ex)
  obtain res s' where p: "create_approval fresh rel st sj an ok cr nt ex s = (res, s')"
    by (cases "create_approval fresh rel st sj an ok cr nt ex s")
  have "get_approval s' aid = Some r"
  proof (cases res)
    case (Inl e)
    then show ?thesis using get_after_failed_create [of fresh rel st sj an ok cr nt ex s e] p assms(2) by simp
  next
    case (Inr a)
    note g = get_after_create [of fresh rel st sj an ok cr nt ex s a]
    have "aid \<noteq> a" using g(2) p Inr assms(2) by auto
    then show ?thesis using g(3) [of aid] p Inr assms(2) by simp
  qed
  then show ?thesis using p Create assms(3)
    by (auto simp: seq_def ret_def split: sum.split)
next
  case (Consume a now b)
  then show ?thesis
    using assms get_after_consume_same [of a now b s] get_after_consume_other [of aid a now b s]
    by (cases "aid = a") (auto simp: live_def case_prod_beta)
qed

lemma spent_unclaimable:
  assumes "approvals_ok s" and "get_approval s aid = Some r" and "ap_consumed r \<noteq> None"
  shows "claims aid ops s = 0"
  using assms
proof (induction ops arbitrary: s r)
  case (Cons op ops)
  obtain res s' where p: "approval_step op s = (res, s')" by (cases "approval_step op s")
  have lost: "\<not> (op = Consume aid now b \<and> res = Inr True)" for now b
    using p consume_result [OF Cons.prems(1), of aid now b] Cons.prems(2,3)
    by (auto simp: live_def split: prod.splits)
  then show ?case
    using Cons.IH approvals_ok_step [OF Cons.prems(1), of op] spent_stays [OF Cons.prems, of op] p lost
    by (auto split: approval_op.split)
qed simp

text \<open>C15. An approval is spent at most once. However creations and consumptions are interleaved, from
  any database in which approval ids are unique, the consumptions of one approval id that succeed
  number at most one: two sends can never both claim the same approval.\<close>
theorem approval_single_use:
  assumes "approvals_ok s"
  shows "claims aid ops s \<le> 1"
  using assms
proof (induction ops arbitrary: s)
  case (Cons op ops)
  obtain res s' where p: "approval_step op s = (res, s')" by (cases "approval_step op s")
  have ok': "approvals_ok s'" using approvals_ok_step [OF Cons.prems, of op] p by simp
  show ?case
  proof (cases "\<exists>now b. op = Consume aid now b \<and> res = Inr True")
    case True
    then obtain now b where op: "op = Consume aid now b" and res: "res = Inr True" by blast
    obtain r where r: "get_approval s aid = Some r" "live now r" "binds b r"
      using consume_result [OF Cons.prems, of aid now b] p op res by (auto split: option.splits prod.splits)
    have "get_approval s' aid = Some (r\<lparr>ap_consumed := Some now\<rparr>)"
      using get_after_consume_same [of aid now b s] p op r by (auto split: prod.splits)
    then have "claims aid ops s' = 0" using spent_unclaimable [OF ok'] by simp
    then show ?thesis using p op res by simp
  next
    case False
    then show ?thesis using p Cons.IH [OF ok'] by (auto split: approval_op.split)
  qed
qed simp

definition sample_approval :: approval_row where
  "sample_approval = \<lparr>ap_id = ''ap1'', ap_rel = ''rel'', ap_subject_type = ''poll'', ap_subject = ''p1'',
     ap_answer = ''yes'', ap_approved = True, ap_created = ''2025-01-01T00:00:00Z'',
     ap_expires = ''2025-01-02T00:00:00Z'', ap_consumed = None, ap_note = None\<rparr>"

definition sample_approval_db :: db where
  "sample_approval_db = empty_db\<lparr>human_approvals := [sample_approval]\<rparr>"

lemmas approval_samples = sample_approval_db_def sample_approval_def empty_db_def unbound_def

theorem approval_single_use_witness:
  "claims ''ap1'' [Consume ''ap1'' ''2025-01-01T00:00:01Z'' unbound,
     Consume ''ap1'' ''2025-01-01T00:00:02Z'' unbound] sample_approval_db = 1 \<and>
   claims ''ap1'' [Consume ''ap1'' ''2025-01-01T00:00:01Z'' unbound,
     Consume ''ap1'' ''2025-01-01T00:00:02Z'' unbound] sample_approval_db \<le> 1"
  using approval_single_use [of sample_approval_db "''ap1''"]
  by (simp add: approval_samples consume_approval_def rowcount_def consumable_def live_def binds_def
      agrees_def update_where_def unique_key_def)

text \<open>What a consumption answers and changes. It succeeds exactly if the approval exists, is
  unspent, expires strictly later than now and matches every binding given: relationship, subject
  type, subject, answer and verdict. A success marks that record spent now; a refusal changes no
  record; no other approval changes either way.\<close>
lemma consume_exact:
  assumes "approvals_ok s"
  shows "(fst (consume_approval aid now b s) \<longleftrightarrow> (\<exists>r. get_approval s aid = Some r \<and>
      ap_consumed r = None \<and> now < ap_expires r \<and> binds b r)) \<and>
    get_approval (snd (consume_approval aid now b s)) aid' =
      (if aid' = aid \<and> fst (consume_approval aid now b s)
       then map_option (\<lambda>r. r\<lparr>ap_consumed := Some now\<rparr>) (get_approval s aid')
       else get_approval s aid')"
  using consume_result [OF assms, of aid now b] get_after_consume_same [of aid now b s]
    get_after_consume_other [of aid' aid now b s]
  by (cases "aid' = aid"; auto simp: live_def split: option.splits)

lemma consume_exact_witness:
  "\<not> fst (consume_approval ''ap1'' ''2025-01-01T12:00:00Z'' (unbound\<lparr>b_answer := Some ''no''\<rparr>) sample_approval_db) \<and>
   fst (consume_approval ''ap1'' ''2025-01-01T12:00:00Z'' (unbound\<lparr>b_answer := Some ''yes''\<rparr>) sample_approval_db)"
  using consume_exact [of sample_approval_db "''ap1''" "''2025-01-01T12:00:00Z''" "unbound\<lparr>b_answer := Some ''no''\<rparr>"]
    consume_exact [of sample_approval_db "''ap1''" "''2025-01-01T12:00:00Z''" "unbound\<lparr>b_answer := Some ''yes''\<rparr>"]
  by (simp add: approval_samples get_approval_def fetchone_def binds_def agrees_def unique_key_def)

end
