(* ===== verification/Scheduler.thy ===== *)
theory Scheduler
  imports Clock Store
begin

text \<open>
  The sender-side scheduler (\<open>scheduler.py\<close>): \<open>schedule\<close>, \<open>cancel\<close>, \<open>run_due\<close> and the queries.

  \<^item> \<open>utcnow()\<close> is the argument \<open>wall\<close> and the id drawn by \<open>uuid.uuid4\<close> the argument \<open>fresh\<close>;
    floats are rationals. The widening of tables of older databases
    (\<open>_ensure_dead_letter_schema\<close>) is not modelled: every table has its current columns.
  \<^item> \<open>release_fn\<close> is a parameter of \<open>run_due\<close>, as in the source; what it may touch is the locale
    \<open>release_contract\<close>, interpreted in theory Release on the function the command line passes.
  \<^item> The two names \<open>RevokedRelationshipError\<close> and \<open>SendPausedError\<close> are the refusals of
    \<open>release_fn\<close>; every other exception it may raise is \<open>ReleaseRaised\<close> with a name.
\<close>

datatype release_status =
    StReleased | StExpired | StNotDue | StSkipped | StSkippedCanceled | StSkippedRevoked | StSkippedPaused

datatype sched_exn =
    SchedulerError str
  | UnknownScheduledIdError str
  | AlreadyReleasedError str
  | RevokedRelationshipError str
  | SendPausedError str
  | InvalidSchedulerTransition str
  | ScheduledIdConflictError str
  | ReleaseGated release_status
  | SchedClock clock_error
  | SchedIntegrity
  | ReleaseRaised str

definition MAX_RELEASE_ATTEMPTS :: nat where "MAX_RELEASE_ATTEMPTS = 3"

definition SCHEDULER_STATES :: "(str \<times> sched_state) list" where
  "SCHEDULER_STATES = [(''scheduled'', Scheduled), (''released'', Released), (''canceled'', Canceled),
     (''expired'', Expired), (''dead'', Dead)]"

section \<open>Validation\<close>

definition is_hex :: "char \<Rightarrow> bool" where
  "is_hex c \<longleftrightarrow> is_digit c \<or> c \<in> set ''abcdef''"

text \<open>The pattern ends in \<open>$\<close>: one final newline is let through.\<close>

definition uuid_shape :: "str \<Rightarrow> bool" where
  "uuid_shape s =
     (length s = 36 \<and> (\<forall>i \<in> {0..<36}.
        if i \<in> {8, 13, 18, 23} then s ! i = CHR ''-'' else is_hex (s ! i)))"

definition uuid_matches :: "str \<Rightarrow> bool" where
  "uuid_matches s \<longleftrightarrow> uuid_shape s \<or> (s \<noteq> [] \<and> last s = CHR 0x0A \<and> uuid_shape (butlast s))"

definition validate_scheduled_id :: "str \<Rightarrow> sched_exn + str" where
  "validate_scheduled_id sid =
     (if uuid_matches sid then Inr sid else Inl (SchedulerError ''invalid_scheduled_id''))"

definition validate_moment :: "str \<Rightarrow> sched_exn + instant" where
  "validate_moment v = (case parse_canonical_utc v of
     Inl _ \<Rightarrow> Inl (SchedulerError ''invalid_timestamp'') | Inr t \<Rightarrow> Inr t)"

definition check_clock :: "rat option \<Rightarrow> sched_exn + unit" where
  "check_clock skew = (case skew of
     None \<Rightarrow> Inr ()
   | Some d \<Rightarrow> if check_clock_skew d = ''block''
               then Inl (SchedulerError ''clock_skew_blocks_scheduled_send'') else Inr ())"

definition effective_expires_at :: "str \<Rightarrow> str option \<Rightarrow> clock_error + str" where
  "effective_expires_at deliver_at expires_at = (case expires_at of
     Some t \<Rightarrow> Inr t | None \<Rightarrow> add_seconds deliver_at LATE_WINDOW_SECONDS)"

definition clock_of :: "clock_error + 'a \<Rightarrow> sched_exn + 'a" where
  "clock_of r = (case r of Inl e \<Rightarrow> Inl (SchedClock e) | Inr a \<Rightarrow> Inr a)"

section \<open>Queries\<close>

definition get_scheduled :: "db \<Rightarrow> str \<Rightarrow> sched_row option" where
  "get_scheduled s sid = fetchone (\<lambda>r. sq_id r = sid) (scheduler_queue s)"

definition list_scheduled :: "db \<Rightarrow> str option \<Rightarrow> sched_exn + sched_row list" where
  "list_scheduled s state = (case state of
     None \<Rightarrow> Inr (sort_key (\<lambda>r. (sq_deliver r, sq_id r)) (scheduler_queue s))
   | Some n \<Rightarrow> (case map_of SCHEDULER_STATES n of
       None \<Rightarrow> Inl (SchedulerError ''invalid_state'')
     | Some st \<Rightarrow> Inr (sort_key (\<lambda>r. (sq_deliver r, sq_id r))
         (select (\<lambda>r. sq_state r = st) (scheduler_queue s)))))"

section \<open>Scheduling and cancelling\<close>

text \<open>The arguments checks of \<open>schedule\<close>, in the source's order; the value is the row id.\<close>

definition schedule_checks ::
  "str \<Rightarrow> str \<Rightarrow> bytes \<Rightarrow> str \<Rightarrow> str option \<Rightarrow> str option \<Rightarrow> rat option \<Rightarrow> sched_exn + str" where
  "schedule_checks wall fresh env deliver_at expires_at sid skew =
     (case check_clock skew of Inl e \<Rightarrow> Inl e | Inr _ \<Rightarrow>
      if env = [] then Inl (SchedulerError ''invalid_envelope'')
      else if length env > MAX_ENVELOPE_BYTES then Inl (SchedulerError ''envelope_too_large'')
      else case validate_moment deliver_at of Inl e \<Rightarrow> Inl e | Inr deliver \<Rightarrow>
      case clock_of (add_seconds wall (ACCEPT_WINDOW_DAYS * 24 * 3600)) of Inl e \<Rightarrow> Inl e | Inr horizon_text \<Rightarrow>
      case clock_of (parse_canonical_utc horizon_text) of Inl e \<Rightarrow> Inl e | Inr horizon \<Rightarrow>
      if horizon < deliver then Inl (SchedulerError ''deliver_at_beyond_accept_window'')
      else case (case expires_at of None \<Rightarrow> Inr () | Some x \<Rightarrow>
             (case validate_moment x of Inl e \<Rightarrow> Inl e | Inr expires \<Rightarrow>
               if expires \<le> deliver then Inl (SchedulerError ''expires_not_after_deliver_at'') else Inr ())) of
        Inl e \<Rightarrow> Inl e
      | Inr _ \<Rightarrow> (case sid of None \<Rightarrow> Inr fresh | Some i \<Rightarrow> validate_scheduled_id i))"

definition new_sched_row :: "str \<Rightarrow> bytes \<Rightarrow> str \<Rightarrow> str option \<Rightarrow> sched_row" where
  "new_sched_row sid env deliver_at expires_at =
     \<lparr>sq_id = sid, sq_inner = env, sq_deliver = deliver_at, sq_expires = expires_at,
      sq_state = Scheduled, sq_failures = 0, sq_approval = None\<rparr>"

definition schedule ::
  "str \<Rightarrow> str \<Rightarrow> bytes \<Rightarrow> str \<Rightarrow> str option \<Rightarrow> str option \<Rightarrow> rat option \<Rightarrow> (db, sched_exn, str) prog" where
  "schedule wall fresh env deliver_at expires_at sid skew =
     seq (lift (schedule_checks wall fresh env deliver_at expires_at sid skew)) (\<lambda>i.
       txn (seq (query (\<lambda>s. get_scheduled s i)) (\<lambda>existing.
         case existing of
           Some r \<Rightarrow> if sq_inner r \<noteq> env then raise (ScheduledIdConflictError i) else ret i
         | None \<Rightarrow> seq (exec (\<lambda>s. s\<lparr>scheduler_queue :=
                     scheduler_queue s @ [new_sched_row i env deliver_at expires_at]\<rparr>)) (\<lambda>_. ret i))))"

definition set_state :: "str \<Rightarrow> sched_state \<Rightarrow> db \<Rightarrow> db" where
  "set_state sid st s = s\<lparr>scheduler_queue :=
     update_where (\<lambda>r. sq_id r = sid \<and> sq_state r = Scheduled) (\<lambda>r. r\<lparr>sq_state := st\<rparr>) (scheduler_queue s)\<rparr>"

text \<open>How many rows \<open>set_state\<close> changes: the statement's \<open>rowcount\<close>.\<close>

definition claimable :: "str \<Rightarrow> db \<Rightarrow> nat" where
  "claimable sid s = rowcount (\<lambda>r. sq_id r = sid \<and> sq_state r = Scheduled) (scheduler_queue s)"

definition cancel :: "str \<Rightarrow> (db, sched_exn, str) prog" where
  "cancel sid = seq (query (\<lambda>s. get_scheduled s sid)) (\<lambda>row.
     case row of None \<Rightarrow> raise (UnknownScheduledIdError sid)
     | Some r \<Rightarrow>
         if sq_state r = Scheduled then
           seq (txn (seq (query (claimable sid)) (\<lambda>n.
                  seq (exec (set_state sid Canceled)) (\<lambda>_.
                    if n \<noteq> 1 then raise (InvalidSchedulerTransition sid) else ret ()))))
             (\<lambda>_. ret ''canceled'')
         else if sq_state r = Canceled then ret ''canceled''
         else if sq_state r = Released then raise (AlreadyReleasedError sid)
         else raise (InvalidSchedulerTransition sid))"

text \<open>The note of \<open>request_retraction_after_release\<close>, less its constant texts.\<close>

definition request_retraction_after_release :: "db \<Rightarrow> str \<Rightarrow> sched_exn + (str \<times> bytes)" where
  "request_retraction_after_release s sid = (case get_scheduled s sid of
     None \<Rightarrow> Inl (UnknownScheduledIdError sid)
   | Some r \<Rightarrow> if sq_state r \<noteq> Released then Inl (InvalidSchedulerTransition sid)
               else Inr (sid, sq_inner r))"

section \<open>Undelivered approvals\<close>

definition quoted :: "str \<Rightarrow> str" where
  "quoted t = CHR 0x27 # t @ [CHR 0x27]"

definition undelivered_snapshot :: "str \<Rightarrow> str \<Rightarrow> str \<Rightarrow> bool \<Rightarrow> json" where
  "undelivered_snapshot sid aid terminal restored = JObj
     [(''approval_id'', JStr aid), (''approval_restored'', JBool restored),
      (''detail'', JStr (''scheduled event '' @ sid @ '' reached terminal state '' @ quoted terminal @
         '' without release; the peer received nothing'' @
         (if restored then ''; approval '' @ aid @ '' restored, re-send the response''
          else ''; no live approval to restore, obtain a fresh one before re-sending''))),
      (''kind'', JStr ''scheduler_undelivered''), (''scheduled_id'', JStr sid),
      (''terminal_state'', JStr terminal)]"

definition spent_live :: "str \<Rightarrow> str \<Rightarrow> approval_row \<Rightarrow> bool" where
  "spent_live aid now r \<longleftrightarrow> ap_id r = aid \<and> ap_consumed r \<noteq> None \<and> now < ap_expires r"

text \<open>\<open>_restore_approval_for_undelivered\<close>. The notification row refers to an event: without one
  the INSERT raises, as \<open>OR IGNORE\<close> does not cover a foreign key.\<close>

definition restore_approval :: "str \<Rightarrow> str option \<Rightarrow> str \<Rightarrow> str \<Rightarrow> (db, sched_exn, unit) prog" where
  "restore_approval sid approval now_text terminal s =
     (case approval of None \<Rightarrow> (Inr (), s)
      | Some aid \<Rightarrow>
          if aid = '''' then (Inr (), s)
          else let restored = (rowcount (spent_live aid now_text) (human_approvals s) = 1);
                   s1 = s\<lparr>human_approvals := update_where (spent_live aid now_text)
                           (\<lambda>r. r\<lparr>ap_consumed := None\<rparr>) (human_approvals s)\<rparr>
               in if sid \<in> sf_event ` set (surface_queue s1) then (Inr (), s1)
                  else if sid \<notin> ev_id ` set (events s1) then (Inl SchedIntegrity, s1)
                  else (Inr (), s1\<lparr>surface_queue := surface_queue s1 @
                    [\<lparr>sf_event = sid, sf_snapshot = undelivered_snapshot sid aid terminal restored,
                      sf_at = now_text\<rparr>]\<rparr>))"

section \<open>Releasing\<close>

type_synonym release_fn = "str \<Rightarrow> bytes \<Rightarrow> nat \<Rightarrow> (db, sched_exn, unit) prog"

text \<open>The call of \<open>release_fn\<close> with the conversion of its two refusals.\<close>

definition gated_release :: "release_fn \<Rightarrow> str \<Rightarrow> bytes \<Rightarrow> nat \<Rightarrow> (db, sched_exn, unit) prog" where
  "gated_release release sid env late = (\<lambda>s. case release sid env late s of
     (Inl (RevokedRelationshipError _), s') \<Rightarrow> (Inl (ReleaseGated StSkippedRevoked), s')
   | (Inl (SendPausedError _), s') \<Rightarrow> (Inl (ReleaseGated StSkippedPaused), s')
   | (r, s') \<Rightarrow> (r, s'))"

text \<open>The body of the transaction of \<open>_release_one_row\<close>; \<open>row\<close> is the row as the scan read it.\<close>

definition release_body ::
  "release_fn \<Rightarrow> instant \<Rightarrow> sched_row \<Rightarrow> (db, sched_exn, release_status \<times> nat) prog" where
  "release_body release now row = (let sid = sq_id row in
     seq (query (\<lambda>s. get_scheduled s sid)) (\<lambda>current.
     case current of None \<Rightarrow> ret (StSkipped, 0)
     | Some c \<Rightarrow>
       if sq_state c = Canceled then ret (StSkippedCanceled, 0)
       else if sq_state c \<noteq> Scheduled then ret (StSkipped, 0)
       else
         seq (lift (clock_of (effective_expires_at (sq_deliver row) (sq_expires row)))) (\<lambda>effective.
         seq (lift (clock_of (parse_canonical_utc effective))) (\<lambda>expiry.
         if expiry \<le> now then
           seq (exec (set_state sid Expired)) (\<lambda>_.
           seq (restore_approval sid (sq_approval row) (format_canonical_utc now) ''expired'') (\<lambda>_.
           ret (StExpired, 0)))
         else
           seq (lift (clock_of (parse_canonical_utc (sq_deliver row)))) (\<lambda>deliver.
           if now < deliver then ret (StNotDue, 0)
           else
             seq (query (claimable sid)) (\<lambda>n.
             seq (exec (set_state sid Released)) (\<lambda>_.
             if n \<noteq> 1 then raise (InvalidSchedulerTransition sid)
             else seq (gated_release release sid (sq_inner row) (nat (now - deliver))) (\<lambda>_.
               ret (StReleased, nat (now - deliver))))))))))"

definition release_one_row ::
  "release_fn \<Rightarrow> instant \<Rightarrow> sched_row \<Rightarrow> (db, sched_exn, release_status \<times> nat) prog" where
  "release_one_row release now row s = (case txn (release_body release now row) s of
     (Inl (ReleaseGated st), s') \<Rightarrow> (Inr (st, 0), s')
   | (r, s') \<Rightarrow> (r, s'))"

definition strike :: "str \<Rightarrow> db \<Rightarrow> db" where
  "strike sid s = s\<lparr>scheduler_queue := update_where (\<lambda>r. sq_id r = sid)
     (\<lambda>r. r\<lparr>sq_failures := sq_failures r + 1\<rparr>) (scheduler_queue s)\<rparr>"

text \<open>The row is looked up again after the count: a row deleted meanwhile makes the
  subscript of \<open>None\<close> raise.\<close>

definition record_release_failure :: "str \<Rightarrow> str \<Rightarrow> (db, sched_exn, nat) prog" where
  "record_release_failure wall sid = txn (
     seq (exec (strike sid)) (\<lambda>_.
     seq (query (\<lambda>s. get_scheduled s sid)) (\<lambda>row.
     case row of None \<Rightarrow> raise (ReleaseRaised ''TypeError'')
     | Some r \<Rightarrow>
         if sq_failures r \<ge> MAX_RELEASE_ATTEMPTS then
           seq (exec (set_state sid Dead)) (\<lambda>_.
           seq (query (\<lambda>s. case get_scheduled s sid of None \<Rightarrow> None | Some r \<Rightarrow> sq_approval r)) (\<lambda>aid.
           seq (restore_approval sid aid wall ''dead'') (\<lambda>_.
           ret (sq_failures r))))
         else ret (sq_failures r))))"

record summary =
  sm_released :: "str list"
  sm_expired :: "str list"
  sm_late :: "(str \<times> nat) list"
  sm_failed :: "str list"
  sm_dead :: "str list"
  sm_skipped_canceled :: "str list"
  sm_skipped_revoked :: "str list"
  sm_skipped_paused :: "str list"

definition empty_summary :: summary where
  "empty_summary = \<lparr>sm_released = [], sm_expired = [], sm_late = [], sm_failed = [], sm_dead = [],
     sm_skipped_canceled = [], sm_skipped_revoked = [], sm_skipped_paused = []\<rparr>"

definition note_status :: "str \<Rightarrow> release_status \<Rightarrow> nat \<Rightarrow> summary \<Rightarrow> summary" where
  "note_status sid st late m = (case st of
     StReleased \<Rightarrow> (let m1 = m\<lparr>sm_released := sm_released m @ [sid]\<rparr>
                   in if late > 0 then m1\<lparr>sm_late := dict_set sid late (sm_late m1)\<rparr> else m1)
   | StExpired \<Rightarrow> m\<lparr>sm_expired := sm_expired m @ [sid]\<rparr>
   | StSkippedCanceled \<Rightarrow> m\<lparr>sm_skipped_canceled := sm_skipped_canceled m @ [sid]\<rparr>
   | StSkippedRevoked \<Rightarrow> m\<lparr>sm_skipped_revoked := sm_skipped_revoked m @ [sid]\<rparr>
   | StSkippedPaused \<Rightarrow> m\<lparr>sm_skipped_paused := sm_skipped_paused m @ [sid]\<rparr>
   | _ \<Rightarrow> m)"

text \<open>One turn of the loop of \<open>run_due\<close>.\<close>

definition run_row ::
  "release_fn \<Rightarrow> instant \<Rightarrow> str \<Rightarrow> sched_row \<Rightarrow> summary \<Rightarrow> (db, sched_exn, summary) prog" where
  "run_row release now wall row m s = (case release_one_row release now row s of
     (Inr (st, late), s') \<Rightarrow> (Inr (note_status (sq_id row) st late m), s')
   | (Inl _, s') \<Rightarrow> (case record_release_failure wall (sq_id row) s' of
         (Inl e, s'') \<Rightarrow> (Inl e, s'')
       | (Inr failures, s'') \<Rightarrow> (Inr (
           if failures \<ge> MAX_RELEASE_ATTEMPTS then m\<lparr>sm_dead := sm_dead m @ [sq_id row]\<rparr>
           else m\<lparr>sm_failed := sm_failed m @ [sq_id row]\<rparr>), s'')))"

fun run_rows ::
  "release_fn \<Rightarrow> instant \<Rightarrow> str \<Rightarrow> sched_row list \<Rightarrow> summary \<Rightarrow> (db, sched_exn, summary) prog" where
  "run_rows release now wall [] m = ret m"
| "run_rows release now wall (row # rows) m =
     seq (run_row release now wall row m) (run_rows release now wall rows)"

definition due_rows :: "db \<Rightarrow> sched_row list" where
  "due_rows s = sort_key (\<lambda>r. (sq_deliver r, sq_id r))
     (select (\<lambda>r. sq_state r = Scheduled \<and> sq_failures r < MAX_RELEASE_ATTEMPTS) (scheduler_queue s))"

definition run_due :: "str \<Rightarrow> release_fn \<Rightarrow> rat option \<Rightarrow> str \<Rightarrow> (db, sched_exn, summary) prog" where
  "run_due now release skew wall =
     seq (lift (validate_moment now)) (\<lambda>now_dt.
     seq (lift (check_clock skew)) (\<lambda>_.
     seq (query due_rows) (\<lambda>rows.
     run_rows release now_dt wall rows empty_summary)))"

section \<open>One row of the queue\<close>

abbreviation queue_ok :: "db \<Rightarrow> bool" where
  "queue_ok s \<equiv> unique_key sq_id (scheduler_queue s)"

definition effective_expiry :: "sched_row \<Rightarrow> sched_exn + instant" where
  "effective_expiry r = (case clock_of (effective_expires_at (sq_deliver r) (sq_expires r)) of
     Inl e \<Rightarrow> Inl e | Inr t \<Rightarrow> clock_of (parse_canonical_utc t))"

definition past_expiry :: "instant \<Rightarrow> sched_row \<Rightarrow> bool" where
  "past_expiry now r \<longleftrightarrow> (\<exists>x. effective_expiry r = Inr x \<and> x \<le> now)"

definition due :: "instant \<Rightarrow> sched_row \<Rightarrow> bool" where
  "due now r \<longleftrightarrow> (\<exists>x d. effective_expiry r = Inr x \<and> now < x \<and>
     parse_canonical_utc (sq_deliver r) = Inr d \<and> d \<le> now)"

definition struck :: "sched_row \<Rightarrow> sched_row" where
  "struck r = r\<lparr>sq_failures := sq_failures r + 1,
     sq_state := if sq_failures r + 1 \<ge> MAX_RELEASE_ATTEMPTS then Dead else sq_state r\<rparr>"

text \<open>What one run may make of a row: nothing, or one of three moves out of \<open>Scheduled\<close>.\<close>

definition row_outcome :: "instant \<Rightarrow> sched_row \<Rightarrow> sched_row \<Rightarrow> bool" where
  "row_outcome now c c' \<longleftrightarrow> c' = c \<or> (sq_state c = Scheduled \<and>
     (past_expiry now c \<and> c' = c\<lparr>sq_state := Expired\<rparr> \<or>
      due now c \<and> c' = c\<lparr>sq_state := Released\<rparr> \<or> c' = struck c))"

lemma get_scheduled_cong: "scheduler_queue s' = scheduler_queue s \<Longrightarrow> get_scheduled s' x = get_scheduled s x"
  by (simp add: get_scheduled_def)

lemma get_set_state:
  "get_scheduled (set_state sid st s) x =
     map_option (\<lambda>r. if x = sid \<and> sq_state r = Scheduled then r\<lparr>sq_state := st\<rparr> else r) (get_scheduled s x)"
proof (cases "x = sid")
  case True
  have eq: "update_where (\<lambda>r. sq_id r = sid \<and> sq_state r = Scheduled) (\<lambda>r. r\<lparr>sq_state := st\<rparr>) t =
    update_where (\<lambda>r. sq_id r = sid)
      (\<lambda>r. if sq_state r = Scheduled then r\<lparr>sq_state := st\<rparr> else r) t" for t
    by (auto simp: update_where_def)
  show ?thesis
    using True unfolding get_scheduled_def set_state_def
    by (simp add: eq fetchone_update_same)
next
  case False
  have "fetchone (\<lambda>r. sq_id r = x)
      (update_where (\<lambda>r. sq_id r = sid \<and> sq_state r = Scheduled) (\<lambda>r. r\<lparr>sq_state := st\<rparr>) t) =
    fetchone (\<lambda>r. sq_id r = x) t" for t
    using False by (intro fetchone_update_other) auto
  then show ?thesis using False by (simp add: get_scheduled_def set_state_def option.map_ident)
qed

lemma claimable_one:
  assumes "queue_ok s" and "get_scheduled s sid = Some r" and "sq_state r = Scheduled"
  shows "claimable sid s = 1"
  using rowcount_unique [OF assms(1), of "\<lambda>r. sq_id r = sid \<and> sq_state r = Scheduled" sid] assms(2,3)
    fetchone_Some_mem [of "\<lambda>r. sq_id r = sid" "scheduler_queue s"]
  by (simp add: claimable_def get_scheduled_def)

lemma restore_queue: "scheduler_queue (snd (restore_approval sid a now t s)) = scheduler_queue s"
  by (simp add: restore_approval_def Let_def split: option.split)

lemma restore_not_gated: "fst (restore_approval sid a now t s) \<noteq> Inl (ReleaseGated st)"
  by (simp add: restore_approval_def Let_def split: option.split)

lemma restore_ok:
  assumes "a = None \<or> a = Some '''' \<or> sid \<in> ev_id ` set (events s)"
  shows "\<exists>s'. restore_approval sid a now t s = (Inr (), s')"
  using assms by (auto simp: restore_approval_def Let_def split: option.split)

lemma queue_ok_set_state: "queue_ok (set_state sid st s) = queue_ok s"
  by (simp add: set_state_def unique_key_update)

section \<open>The contract of a release function\<close>

text \<open>The tables a run only reads, beside its own queue.\<close>

definition same_setting :: "db \<Rightarrow> db \<Rightarrow> bool" where
  "same_setting s s' \<longleftrightarrow> events s' = events s \<and> relationships s' = relationships s \<and>
     key_rotations s' = key_rotations s \<and> relay_config s' = relay_config s"

lemma same_setting_refl [simp]: "same_setting s s"
  by (simp add: same_setting_def)

lemma same_setting_trans: "same_setting s s' \<Longrightarrow> same_setting s' s'' \<Longrightarrow> same_setting s s''"
  by (simp add: same_setting_def)

lemma same_setting_rollback [simp]: "same_setting s (rollback s s')"
  by (simp add: same_setting_def rollback_def)

lemma same_setting_set_state [simp]: "same_setting s (set_state sid st s)"
  by (simp add: same_setting_def set_state_def)

lemma same_setting_restore: "same_setting s (snd (restore_approval sid a now t s))"
  by (simp add: same_setting_def restore_approval_def Let_def split: option.split)

text \<open>It leaves the scheduler's own ledgers alone, and the exception \<open>_ReleaseGated\<close> of the
  module is not its to raise.\<close>

locale release_contract =
  fixes release :: "str \<Rightarrow> bytes \<Rightarrow> nat \<Rightarrow> db \<Rightarrow> (sched_exn + unit) \<times> db"
  assumes release_queue: "scheduler_queue (snd (release sid env late s)) = scheduler_queue s"
    and release_setting: "same_setting s (snd (release sid env late s))"
    and release_not_gated: "fst (release sid env late s) \<noteq> Inl (ReleaseGated st)"
begin

lemma gated_release_cases:
  obtains (sent) s' where "gated_release release sid env late s = (Inr (), s')"
      "release sid env late s = (Inr (), s')"
      "scheduler_queue s' = scheduler_queue s" "same_setting s s'"
  | (refused) st s' where "gated_release release sid env late s = (Inl (ReleaseGated st), s')"
      "st = StSkippedRevoked \<or> st = StSkippedPaused"
  | (failed) e s' where "gated_release release sid env late s = (Inl e, s')" "\<forall>st. e \<noteq> ReleaseGated st"
proof -
  obtain r s' where p: "release sid env late s = (r, s')" by (cases "release sid env late s")
  have f: "scheduler_queue s' = scheduler_queue s" "same_setting s s'" "\<forall>st. r \<noteq> Inl (ReleaseGated st)"
    using release_queue [of sid env late s] release_setting [of s sid env late]
      release_not_gated [of sid env late s] p by simp_all
  show thesis
  proof (cases r)
    case (Inr u)
    then show thesis using sent p f by (simp add: gated_release_def)
  next
    case (Inl e)
    then show thesis using refused failed p f by (cases e) (simp_all add: gated_release_def)
  qed
qed

lemma release_body_scheduled:
  assumes "queue_ok s" and "get_scheduled s (sq_id row) = Some row" and "sq_state row = Scheduled"
  shows "release_body release now row s =
    (case effective_expiry row of Inl e \<Rightarrow> (Inl e, s) | Inr expiry \<Rightarrow>
      if expiry \<le> now then
        (case restore_approval (sq_id row) (sq_approval row) (format_canonical_utc now) ''expired''
            (set_state (sq_id row) Expired s) of
          (Inl e, s') \<Rightarrow> (Inl e, s') | (Inr _, s') \<Rightarrow> (Inr (StExpired, 0), s'))
      else (case parse_canonical_utc (sq_deliver row) of Inl e \<Rightarrow> (Inl (SchedClock e), s)
        | Inr deliver \<Rightarrow>
            if now < deliver then (Inr (StNotDue, 0), s)
            else (case gated_release release (sq_id row) (sq_inner row) (nat (now - deliver))
                     (set_state (sq_id row) Released s) of
                (Inl e, s') \<Rightarrow> (Inl e, s')
              | (Inr _, s') \<Rightarrow> (Inr (StReleased, nat (now - deliver)), s'))))"
  using assms(2,3) claimable_one [OF assms]
  by (simp add: release_body_def Let_def prog_run effective_expiry_def clock_of_def seq_run
        split: sum.split prod.split)

end

context release_contract
begin

text \<open>What one transaction does to the queue, by the status it reports.\<close>

lemma release_one_row_queue:
  assumes "queue_ok s" and "get_scheduled s (sq_id row) = Some row" and "sq_state row = Scheduled"
  obtains (raised) e s' where "release_one_row release now row s = (Inl e, s')"
      "scheduler_queue s' = scheduler_queue s" "same_setting s s'"
  | (expired) s' where "release_one_row release now row s = (Inr (StExpired, 0), s')"
      "scheduler_queue s' = scheduler_queue (set_state (sq_id row) Expired s)" "same_setting s s'"
      "past_expiry now row"
  | (released) late s0 s' where "release_one_row release now row s = (Inr (StReleased, late), s')"
      "release (sq_id row) (sq_inner row) late s0 = (Inr (), s')"
      "scheduler_queue s' = scheduler_queue (set_state (sq_id row) Released s)" "same_setting s s'"
      "due now row"
  | (left) st s' where "release_one_row release now row s = (Inr (st, 0), s')"
      "st \<in> {StNotDue, StSkippedRevoked, StSkippedPaused}"
      "scheduler_queue s' = scheduler_queue s" "same_setting s s'"
proof -
  note body = release_body_scheduled [OF assms, of now]
  have roll: "scheduler_queue (rollback s s') = scheduler_queue s" "same_setting s (rollback s s')" for s'
    by (simp_all add: rollback_def same_setting_def)
  consider (e) e where "effective_expiry row = Inl e" "\<forall>st. e \<noteq> ReleaseGated st"
    | (x) x where "effective_expiry row = Inr x"
    by (cases "effective_expiry row") (auto simp: effective_expiry_def clock_of_def split: sum.splits)
  then show thesis
  proof cases
    case e
    then have "release_one_row release now row s = (Inl e, rollback s s)"
      by (cases e) (simp_all add: release_one_row_def txn_def body)
    then show thesis using raised roll by blast
  next
    case x
    show thesis
    proof (cases "x \<le> now")
      case True
      obtain r s' where p: "restore_approval (sq_id row) (sq_approval row) (format_canonical_utc now) ''expired''
          (set_state (sq_id row) Expired s) = (r, s')" by (rule prod.exhaust)
      have q: "scheduler_queue s' = scheduler_queue (set_state (sq_id row) Expired s)" "same_setting s s'"
        using restore_queue [of "sq_id row" "sq_approval row" "format_canonical_utc now" "''expired''"
            "set_state (sq_id row) Expired s"]
          same_setting_trans [OF same_setting_set_state [of s "sq_id row" Expired]
            same_setting_restore [of "set_state (sq_id row) Expired s" "sq_id row" "sq_approval row"
              "format_canonical_utc now" "''expired''"]] p by simp_all
      have ng: "\<forall>st. r \<noteq> Inl (ReleaseGated st)"
        using restore_not_gated p by (metis fst_conv)
      show thesis
      proof (cases r)
        case (Inl e)
        then have "release_one_row release now row s = (Inl e, rollback s s')"
          using ng by (cases e) (simp_all add: release_one_row_def txn_def body x True p)
        then show thesis using raised roll by blast
      next
        case (Inr u)
        then have "release_one_row release now row s = (Inr (StExpired, 0), s')"
          by (simp add: release_one_row_def txn_def body x True p)
        then show thesis using expired q x True by (auto simp: past_expiry_def)
      qed
    next
      case False
      show thesis
      proof (cases "parse_canonical_utc (sq_deliver row)")
        case (Inl e)
        then have "release_one_row release now row s = (Inl (SchedClock e), rollback s s)"
          using x False by (simp add: release_one_row_def txn_def body)
        then show thesis using raised roll by blast
      next
        case d: (Inr d)
        show thesis
        proof (cases "now < d")
          case True
          then have "release_one_row release now row s = (Inr (StNotDue, 0), s)"
            using x False d by (simp add: release_one_row_def txn_def body)
          then show thesis using left [of StNotDue s] by simp
        next
          case nd: False
          define late where "late = nat (now - d)"
          have dn: "due now row" using x False d nd by (auto simp: due_def)
          have b: "release_body release now row s =
            (case gated_release release (sq_id row) (sq_inner row) late (set_state (sq_id row) Released s) of
              (Inl e, s') \<Rightarrow> (Inl e, s') | (Inr _, s') \<Rightarrow> (Inr (StReleased, late), s'))"
            unfolding late_def using x False d nd by (simp add: body)
          show thesis
          proof (rule gated_release_cases [of "sq_id row" "sq_inner row" late "set_state (sq_id row) Released s"])
            fix s' assume g: "gated_release release (sq_id row) (sq_inner row) late
                (set_state (sq_id row) Released s) = (Inr (), s')"
              "release (sq_id row) (sq_inner row) late (set_state (sq_id row) Released s) = (Inr (), s')"
              "scheduler_queue s' = scheduler_queue (set_state (sq_id row) Released s)"
              "same_setting (set_state (sq_id row) Released s) s'"
            have "release_one_row release now row s = (Inr (StReleased, late), s')"
              by (simp add: release_one_row_def txn_def b g(1))
            then show thesis using released g(2,3) dn
              same_setting_trans [OF same_setting_set_state g(4)] by blast
          next
            fix st s' assume g: "gated_release release (sq_id row) (sq_inner row) late
                (set_state (sq_id row) Released s) = (Inl (ReleaseGated st), s')"
              "st = StSkippedRevoked \<or> st = StSkippedPaused"
            have "release_one_row release now row s = (Inr (st, 0), rollback s s')"
              by (simp add: release_one_row_def txn_def b g(1))
            then show thesis using left g(2) roll by blast
          next
            fix e s' assume g: "gated_release release (sq_id row) (sq_inner row) late
                (set_state (sq_id row) Released s) = (Inl e, s')" "\<forall>st. e \<noteq> ReleaseGated st"
            have "release_one_row release now row s = (Inl e, rollback s s')"
              using g(2) by (cases e) (simp_all add: release_one_row_def txn_def b g(1))
            then show thesis using raised roll by blast
          qed
        qed
      qed
    qed
  qed
qed

end

section \<open>A whole run\<close>

lemma get_strike:
  "get_scheduled (strike sid s) x =
    map_option (\<lambda>r. if x = sid then r\<lparr>sq_failures := sq_failures r + 1\<rparr> else r) (get_scheduled s x)"
proof (cases "x = sid")
  case True
  then show ?thesis by (simp add: get_scheduled_def strike_def fetchone_update_same)
next
  case False
  then have "fetchone (\<lambda>r. sq_id r = x) (update_where (\<lambda>r. sq_id r = sid)
      (\<lambda>r. r\<lparr>sq_failures := sq_failures r + 1\<rparr>) t) = fetchone (\<lambda>r. sq_id r = x) t" for t
    by (intro fetchone_update_other) auto
  then show ?thesis using False by (simp add: get_scheduled_def strike_def option.map_ident)
qed

text \<open>Counting a failure strikes this row and no other; only a missing event of an approval-carrying
  row that dies makes it raise, and then it changes nothing.\<close>

lemma record_failure_cases:
  assumes "get_scheduled s sid = Some r" and "sq_state r = Scheduled" and "queue_ok s"
  obtains (raised) e s' where "record_release_failure wall sid s = (Inl e, s')"
      "scheduler_queue s' = scheduler_queue s" "same_setting s s'"
      "\<not> (sq_approval r = None \<or> sq_approval r = Some '''' \<or> sid \<in> ev_id ` set (events s))"
  | (struck) s' where "record_release_failure wall sid s = (Inr (sq_failures r + 1), s')"
      "\<And>x. get_scheduled s' x = (if x = sid then Some (struck r) else get_scheduled s x)"
      "queue_ok s'" "same_setting s s'"
proof -
  define s1 where "s1 = strike sid s"
  have g1: "get_scheduled s1 x = (if x = sid then Some (r\<lparr>sq_failures := sq_failures r + 1\<rparr>) else get_scheduled s x)" for x
    using assms(1) get_strike [of sid s x] by (simp add: s1_def option.map_ident)
  have q1: "queue_ok s1" using assms(3) by (simp add: s1_def strike_def unique_key_update)
  have f1: "same_setting s s1" by (simp add: s1_def strike_def same_setting_def)
  define s2 where "s2 = set_state sid Dead s1"
  have g2: "get_scheduled s2 x = (if x = sid then Some (r\<lparr>sq_failures := sq_failures r + 1, sq_state := Dead\<rparr>)
      else get_scheduled s x)" for x
    using assms(2) g1 [of x] get_set_state [of sid Dead s1 x] by (auto simp: s2_def option.map_ident)
  have f2: "same_setting s s2" using f1 same_setting_trans same_setting_set_state by (auto simp: s2_def)
  show thesis
  proof (cases "sq_failures r + 1 \<ge> MAX_RELEASE_ATTEMPTS")
    case False
    then have "record_release_failure wall sid s = (Inr (sq_failures r + 1), s1)"
      using g1 [of sid] by (simp add: record_release_failure_def txn_def prog_run s1_def [symmetric])
    moreover have "struck r = r\<lparr>sq_failures := sq_failures r + 1\<rparr>" using False by (simp add: struck_def)
    ultimately show thesis using struck g1 q1 f1 by simp
  next
    case True
    obtain res s3 where p: "restore_approval sid (sq_approval r) wall ''dead'' s2 = (res, s3)"
      by (rule prod.exhaust)
    have f3: "same_setting s s3" using same_setting_trans [OF f2]
        same_setting_restore [of s2 sid "sq_approval r" wall "''dead''"] p by simp
    have q3: "scheduler_queue s3 = scheduler_queue s2"
      using restore_queue [of sid "sq_approval r" wall "''dead''" s2] p by simp
    have ev: "events s2 = events s" using f2 by (simp add: same_setting_def)
    have run: "record_release_failure wall sid s =
      (case res of Inl e \<Rightarrow> (Inl e, rollback s s3) | Inr _ \<Rightarrow> (Inr (sq_failures r + 1), s3))"
      using True g1 [of sid] g2 [of sid] p
      by (simp add: record_release_failure_def txn_def prog_run s1_def [symmetric] s2_def [symmetric] seq_run
          split: sum.split)
    show thesis
    proof (cases res)
      case (Inl e)
      then have "\<not> (sq_approval r = None \<or> sq_approval r = Some '''' \<or> sid \<in> ev_id ` set (events s))"
        using restore_ok [of "sq_approval r" sid s2 wall "''dead''"] p ev by (metis Inl prod.inject sum.simps(4))
      then show thesis using raised run Inl by (simp add: rollback_def same_setting_def)
    next
      case (Inr u)
      have "struck r = r\<lparr>sq_failures := sq_failures r + 1, sq_state := Dead\<rparr>" using True by (simp add: struck_def)
      moreover have "queue_ok s3" using q1 q3 queue_ok_set_state by (simp add: s2_def)
      ultimately show thesis using struck run Inr g2 f3 get_scheduled_cong [OF q3] by simp
    qed
  qed
qed

lemma get_claimed:
  assumes "get_scheduled s sid = Some r" and "sq_state r = Scheduled"
    and "scheduler_queue t = scheduler_queue (set_state sid st s)"
  shows "get_scheduled t x = (if x = sid then Some (r\<lparr>sq_state := st\<rparr>) else get_scheduled s x)"
  using assms(1,2) get_scheduled_cong [OF assms(3), of x] get_set_state [of sid st s x]
  by (cases "get_scheduled s x") auto

context release_contract
begin

lemma run_row_effect:
  assumes ok: "queue_ok s" and row: "get_scheduled s (sq_id row) = Some row" "sq_state row = Scheduled"
    and run: "run_row release now wall row m s = (res, s')"
  shows "queue_ok s'" and "same_setting s s'"
    and "\<And>x. x \<noteq> sq_id row \<Longrightarrow> get_scheduled s' x = get_scheduled s x"
    and "\<exists>c'. get_scheduled s' (sq_id row) = Some c' \<and> row_outcome now row c'"
proof -
  let ?sid = "sq_id row"
  have "queue_ok s' \<and> same_setting s s' \<and> (\<forall>x. x \<noteq> ?sid \<longrightarrow> get_scheduled s' x = get_scheduled s x) \<and>
    (\<exists>c'. get_scheduled s' ?sid = Some c' \<and> row_outcome now row c')"
  proof (rule release_one_row_queue [OF ok row, of now])
    fix e t assume t: "release_one_row release now row s = (Inl e, t)"
      "scheduler_queue t = scheduler_queue s" "same_setting s t"
    have ok': "queue_ok t" using ok t(2) by simp
    have row': "get_scheduled t ?sid = Some row" using row(1) get_scheduled_cong [OF t(2)] by simp
    show ?thesis
    proof (rule record_failure_cases [OF row' row(2) ok', of wall])
      fix e t' assume "record_release_failure wall ?sid t = (Inl e, t')"
        "scheduler_queue t' = scheduler_queue t" "same_setting t t'"
      note f = this
      have "res = Inl e" "s' = t'" using run t(1) f(1) by (simp_all add: run_row_def)
      moreover have "scheduler_queue t' = scheduler_queue s" using f(2) t(2) by simp
      moreover have "same_setting s t'" using same_setting_trans [OF t(3) f(3)] .
      ultimately show ?thesis using ok row get_scheduled_cong [of t' s] by (simp add: row_outcome_def)
    next
      fix t' assume "record_release_failure wall ?sid t = (Inr (sq_failures row + 1), t')"
        "\<And>x. get_scheduled t' x = (if x = ?sid then Some (struck row) else get_scheduled t x)"
        "queue_ok t'" "same_setting t t'"
      note f = this
      define m' where "m' = (if sq_failures row + 1 \<ge> MAX_RELEASE_ATTEMPTS
        then m\<lparr>sm_dead := sm_dead m @ [?sid]\<rparr> else m\<lparr>sm_failed := sm_failed m @ [?sid]\<rparr>)"
      have "res = Inr m'" "s' = t'" using run t(1) f(1) by (simp_all add: run_row_def m'_def)
      moreover have "same_setting s t'" using same_setting_trans [OF t(3) f(4)] .
      moreover have "row_outcome now row (struck row)" using row(2) by (simp add: row_outcome_def)
      moreover have "get_scheduled t x = get_scheduled s x" for x using get_scheduled_cong [OF t(2)] .
      ultimately show ?thesis using f(2,3) by simp
    qed
  next
    fix t assume t: "release_one_row release now row s = (Inr (StExpired, 0), t)"
      "scheduler_queue t = scheduler_queue (set_state ?sid Expired s)" "same_setting s t" "past_expiry now row"
    have "queue_ok t" using ok queue_ok_set_state [of ?sid Expired s] t(2) by simp
    moreover have "res = Inr (note_status ?sid StExpired 0 m)" "s' = t"
      using run t(1) by (simp_all add: run_row_def)
    moreover have "row_outcome now row (row\<lparr>sq_state := Expired\<rparr>)"
      using t(4) row(2) by (simp add: row_outcome_def)
    ultimately show ?thesis using get_claimed [OF row t(2)] t(3) by simp
  next
    fix late s0 t assume t: "release_one_row release now row s = (Inr (StReleased, late), t)"
      "scheduler_queue t = scheduler_queue (set_state ?sid Released s)" "same_setting s t" "due now row"
    have "queue_ok t" using ok queue_ok_set_state [of ?sid Released s] t(2) by simp
    moreover have "res = Inr (note_status ?sid StReleased late m)" "s' = t"
      using run t(1) by (simp_all add: run_row_def)
    moreover have "row_outcome now row (row\<lparr>sq_state := Released\<rparr>)"
      using t(4) row(2) by (simp add: row_outcome_def)
    ultimately show ?thesis using get_claimed [OF row t(2)] t(3) by simp
  next
    fix st t assume t: "release_one_row release now row s = (Inr (st, 0), t)"
      "st \<in> {StNotDue, StSkippedRevoked, StSkippedPaused}"
      "scheduler_queue t = scheduler_queue s" "same_setting s t"
    then show ?thesis using run row ok get_scheduled_cong [OF t(3)]
      by (auto simp: run_row_def note_status_def row_outcome_def)
  qed
  then show "queue_ok s'" and "same_setting s s'"
    and "\<And>x. x \<noteq> sq_id row \<Longrightarrow> get_scheduled s' x = get_scheduled s x"
    and "\<exists>c'. get_scheduled s' (sq_id row) = Some c' \<and> row_outcome now row c'" by auto
qed

end

definition in_state :: "db \<Rightarrow> sched_state \<Rightarrow> str \<Rightarrow> bool" where
  "in_state s st x = (case get_scheduled s x of None \<Rightarrow> False | Some r \<Rightarrow> sq_state r = st)"

context release_contract
begin

lemma run_rows_effect:
  assumes "queue_ok s" and "distinct (map sq_id rows)"
    and "\<forall>row \<in> set rows. get_scheduled s (sq_id row) = Some row \<and> sq_state row = Scheduled"
    and "run_rows release now wall rows m s = (res, s')"
  shows "queue_ok s' \<and> same_setting s s' \<and>
    (\<forall>x. x \<notin> sq_id ` set rows \<longrightarrow> get_scheduled s' x = get_scheduled s x) \<and>
    (\<forall>row \<in> set rows. \<exists>c'. get_scheduled s' (sq_id row) = Some c' \<and> row_outcome now row c')"
  using assms
proof (induction rows arbitrary: s m)
  case Nil
  then show ?case by (auto simp: ret_def)
next
  case (Cons row rows)
  obtain r1 s1 where p: "run_row release now wall row m s = (r1, s1)" by (rule prod.exhaust)
  have row: "get_scheduled s (sq_id row) = Some row" "sq_state row = Scheduled" using Cons.prems(3) by auto
  note eff = run_row_effect [OF Cons.prems(1) row p]
  obtain c' where c': "get_scheduled s1 (sq_id row) = Some c'" "row_outcome now row c'" using eff(4) by blast
  have rest: "\<forall>q \<in> set rows. get_scheduled s1 (sq_id q) = Some q \<and> sq_state q = Scheduled"
    using Cons.prems(2,3) eff(3) by (auto simp: image_iff)
  show ?case
  proof (cases r1)
    case (Inl e)
    then have "res = Inl e" "s' = s1" using Cons.prems(4) p by (simp_all add: seq_def)
    moreover have "\<forall>q \<in> set rows. row_outcome now q q" by (simp add: row_outcome_def)
    ultimately show ?thesis using eff c' rest by auto
  next
    case (Inr m1)
    then have run: "run_rows release now wall rows m1 s1 = (res, s')"
      using Cons.prems(4) p by (simp add: seq_def)
    have ih: "queue_ok s' \<and> same_setting s1 s' \<and>
      (\<forall>x. x \<notin> sq_id ` set rows \<longrightarrow> get_scheduled s' x = get_scheduled s1 x) \<and>
      (\<forall>row \<in> set rows. \<exists>c'. get_scheduled s' (sq_id row) = Some c' \<and> row_outcome now row c')"
      using Cons.IH [OF eff(1) _ rest run] Cons.prems(2) by simp
    have own: "get_scheduled s' (sq_id row) = Some c'"
      using ih c'(1) Cons.prems(2) by simp
    have "same_setting s s'" using same_setting_trans [OF eff(2)] ih by blast
    moreover have "\<forall>x. x \<notin> sq_id ` set (row # rows) \<longrightarrow> get_scheduled s' x = get_scheduled s x"
      using ih eff(3) by simp
    ultimately show ?thesis using ih own c'(2) by simp
  qed
qed

lemma due_rows_facts:
  assumes "queue_ok s"
  shows "distinct (map sq_id (due_rows s))"
    and "\<forall>row \<in> set (due_rows s). get_scheduled s (sq_id row) = Some row \<and> sq_state row = Scheduled"
proof -
  have "distinct (map sq_id (filter P (scheduler_queue s)))" for P
    using assms by (simp add: unique_key_def distinct_map_filter)
  then show "distinct (map sq_id (due_rows s))"
    unfolding due_rows_def select_def distinct_map by simp
  show "\<forall>row \<in> set (due_rows s). get_scheduled s (sq_id row) = Some row \<and> sq_state row = Scheduled"
    using fetchone_key [OF assms] by (auto simp: due_rows_def select_def get_scheduled_def)
qed

lemma run_due_effect:
  assumes "queue_ok s" and "run_due now release skew wall s = (res, s')" and "parse_canonical_utc now = Inr t"
  shows "queue_ok s'" "same_setting s s'"
    "get_scheduled s x = None \<Longrightarrow> get_scheduled s' x = None"
    "get_scheduled s x = Some c \<Longrightarrow> \<exists>c'. get_scheduled s' x = Some c' \<and> row_outcome t c c' \<and>
       (c' \<noteq> c \<longrightarrow> sq_failures c < MAX_RELEASE_ATTEMPTS)"
proof -
  have id_of: "get_scheduled s x = Some c \<Longrightarrow> sq_id c = x \<and> c \<in> set (scheduler_queue s)" for x c
    using fetchone_Some_mem by (fastforce simp: get_scheduled_def)
  consider (stop) e where "res = Inl e" "s' = s"
    | (go) "run_rows release t wall (due_rows s) empty_summary s = (res, s')"
    using assms(2,3) by (auto simp: run_due_def prog_run validate_moment_def split: sum.splits)
  then have eff: "queue_ok s' \<and> same_setting s s' \<and>
    (\<forall>x. get_scheduled s' x = get_scheduled s x \<or> x \<in> sq_id ` set (due_rows s)) \<and>
    (\<forall>row \<in> set (due_rows s). \<exists>c'. get_scheduled s' (sq_id row) = Some c' \<and> row_outcome t row c')"
  proof cases
    case stop
    then show ?thesis using assms(1) due_rows_facts [OF assms(1)] by (auto simp: row_outcome_def)
  next
    case go
    from run_rows_effect [OF assms(1) due_rows_facts [OF assms(1)] go] show ?thesis by blast
  qed
  show "queue_ok s'" "same_setting s s'" using eff by auto
  show "get_scheduled s x = None \<Longrightarrow> get_scheduled s' x = None"
    using eff due_rows_facts(2) [OF assms(1)] by (metis imageE option.distinct(1))
  assume c: "get_scheduled s x = Some c"
  show "\<exists>c'. get_scheduled s' x = Some c' \<and> row_outcome t c c' \<and> (c' \<noteq> c \<longrightarrow> sq_failures c < MAX_RELEASE_ATTEMPTS)"
  proof (cases "x \<in> sq_id ` set (due_rows s)")
    case True
    then obtain row where row: "row \<in> set (due_rows s)" "x = sq_id row" by blast
    then have "row = c" using c due_rows_facts(2) [OF assms(1)] by auto
    then have "sq_failures c < MAX_RELEASE_ATTEMPTS" using row by (simp add: due_rows_def select_def)
    then show ?thesis using eff row \<open>row = c\<close> by auto
  next
    case False
    then have "get_scheduled s' x = Some c" using eff c by metis
    then show ?thesis by (simp add: row_outcome_def)
  qed
qed

end

text \<open>A row whose death can be recorded: it carries no approval, or its event exists.\<close>

definition safe_strike :: "db \<Rightarrow> sched_row \<Rightarrow> bool" where
  "safe_strike s r \<longleftrightarrow> sq_approval r = None \<or> sq_approval r = Some '''' \<or> sq_id r \<in> ev_id ` set (events s)"

text \<open>A release that must succeed, for rows whose readiness only depends on the tables a run reads.\<close>

locale release_progress = release_contract +
  fixes ready :: "db \<Rightarrow> str \<Rightarrow> bytes \<Rightarrow> bool"
  assumes ready_release: "ready s sid env \<Longrightarrow> fst (release sid env late s) = Inr ()"
    and ready_stable: "same_setting s s' \<Longrightarrow> ready s sid env \<Longrightarrow> ready s' sid env"
begin

lemma run_row_ready:
  assumes "queue_ok s" and "get_scheduled s (sq_id row) = Some row" and "sq_state row = Scheduled"
    and "ready s (sq_id row) (sq_inner row)" and "due now row"
  shows "\<exists>m' s'. run_row release now wall row m s = (Inr m', s') \<and>
    get_scheduled s' (sq_id row) = Some (row\<lparr>sq_state := Released\<rparr>)"
proof -
  obtain x d where xd: "effective_expiry row = Inr x" "now < x" "parse_canonical_utc (sq_deliver row) = Inr d" "d \<le> now"
    using assms(5) by (auto simp: due_def)
  let ?s0 = "set_state (sq_id row) Released s"
  obtain s' where rel: "release (sq_id row) (sq_inner row) (nat (now - d)) ?s0 = (Inr (), s')"
    using ready_release [OF ready_stable [OF same_setting_set_state assms(4)]] by (metis prod.collapse)
  have "release_one_row release now row s = (Inr (StReleased, nat (now - d)), s')"
    using xd by (simp add: release_one_row_def txn_def release_body_scheduled [OF assms(1-3)] gated_release_def rel)
  moreover have "get_scheduled s' (sq_id row) = Some (row\<lparr>sq_state := Released\<rparr>)"
    using get_claimed [OF assms(2,3), of s' Released] release_queue [of "sq_id row" "sq_inner row" "nat (now - d)" ?s0]
      rel by simp
  ultimately show ?thesis by (simp add: run_row_def)
qed

lemma run_row_returns:
  assumes "queue_ok s" and "get_scheduled s (sq_id row) = Some row" and "sq_state row = Scheduled"
    and "safe_strike s row"
  shows "\<exists>m'. fst (run_row release now wall row m s) = Inr m'"
proof (rule release_one_row_queue [OF assms(1-3), of now])
  fix e t assume t: "release_one_row release now row s = (Inl e, t)"
    "scheduler_queue t = scheduler_queue s" "same_setting s t"
  have ok': "queue_ok t" using assms(1) t(2) by simp
  have row': "get_scheduled t (sq_id row) = Some row" using assms(2) get_scheduled_cong [OF t(2)] by simp
  show ?thesis
  proof (rule record_failure_cases [OF row' assms(3) ok', of wall])
    fix e t' assume "\<not> (sq_approval row = None \<or> sq_approval row = Some '''' \<or> sq_id row \<in> ev_id ` set (events t))"
    moreover have "events t = events s" using t(3) by (simp add: same_setting_def)
    ultimately show ?thesis using assms(4) by (simp add: safe_strike_def)
  next
    fix t' assume "record_release_failure wall (sq_id row) t = (Inr (sq_failures row + 1), t')"
    then show ?thesis using t(1) by (simp add: run_row_def)
  qed
qed (simp_all add: run_row_def)

lemma run_rows_progress:
  assumes "queue_ok s" and "distinct (map sq_id rows)"
    and "\<forall>row \<in> set rows. get_scheduled s (sq_id row) = Some row \<and> sq_state row = Scheduled"
    and "\<forall>row \<in> set rows. safe_strike s row"
    and "run_rows release now wall rows m s = (res, s')"
  shows "(\<exists>m'. res = Inr m') \<and> (\<forall>row \<in> set rows. due now row \<and> ready s (sq_id row) (sq_inner row) \<longrightarrow>
     get_scheduled s' (sq_id row) = Some (row\<lparr>sq_state := Released\<rparr>))"
  using assms
proof (induction rows arbitrary: s m)
  case Nil
  then show ?case by (auto simp: ret_def)
next
  case (Cons row rows)
  obtain r1 s1 where p: "run_row release now wall row m s = (r1, s1)" by (rule prod.exhaust)
  have row: "get_scheduled s (sq_id row) = Some row" "sq_state row = Scheduled" using Cons.prems(3) by auto
  note eff = run_row_effect [OF Cons.prems(1) row p]
  obtain m1 where m1: "r1 = Inr m1"
    using run_row_returns [OF Cons.prems(1) row, of now wall m] Cons.prems(4) p by auto
  have run: "run_rows release now wall rows m1 s1 = (res, s')" using Cons.prems(5) p m1 by (simp add: seq_def)
  have rest: "\<forall>q \<in> set rows. get_scheduled s1 (sq_id q) = Some q \<and> sq_state q = Scheduled"
    using Cons.prems(2,3) eff(3) by (auto simp: image_iff)
  have ev: "events s1 = events s" using eff(2) by (simp add: same_setting_def)
  have ih: "(\<exists>m'. res = Inr m') \<and> (\<forall>row \<in> set rows. due now row \<and> ready s1 (sq_id row) (sq_inner row) \<longrightarrow>
     get_scheduled s' (sq_id row) = Some (row\<lparr>sq_state := Released\<rparr>))"
    using Cons.IH [OF eff(1) _ rest _ run] Cons.prems(2,4) ev by (simp add: safe_strike_def)
  have keep: "get_scheduled s' (sq_id row) = get_scheduled s1 (sq_id row)"
    using run_rows_effect [OF eff(1) _ rest run] Cons.prems(2) by simp
  have own: "get_scheduled s1 (sq_id row) = Some (row\<lparr>sq_state := Released\<rparr>)"
    if "due now row" "ready s (sq_id row) (sq_inner row)"
    using run_row_ready [OF Cons.prems(1) row that(2,1), of wall m] p by auto
  show ?case using ih keep own ready_stable [OF eff(2)] by auto
qed

lemma run_due_progress:
  assumes "queue_ok s" and "run_due now release None wall s = (res, s')" and "parse_canonical_utc now = Inr t"
    and "\<forall>r \<in> set (scheduler_queue s). safe_strike s r"
    and "get_scheduled s x = Some c" and "sq_state c = Scheduled" and "sq_failures c < MAX_RELEASE_ATTEMPTS"
    and "due t c" and "ready s x (sq_inner c)"
  shows "(\<exists>m. res = Inr m) \<and> get_scheduled s' x = Some (c\<lparr>sq_state := Released\<rparr>)"
proof -
  have go: "run_rows release t wall (due_rows s) empty_summary s = (res, s')"
    using assms(2,3) by (simp add: run_due_def prog_run validate_moment_def check_clock_def)
  have c: "sq_id c = x" "c \<in> set (due_rows s)"
    using fetchone_Some_mem [OF assms(5) [unfolded get_scheduled_def]] assms(6,7)
    by (simp_all add: due_rows_def select_def)
  have safe: "\<forall>r \<in> set (due_rows s). safe_strike s r" using assms(4) by (simp add: due_rows_def select_def)
  from run_rows_progress [OF assms(1) due_rows_facts [OF assms(1)] safe go] c assms(8,9)
  show ?thesis by auto
qed

end

section \<open>Scheduling and cancelling: properties\<close>

lemma rollback_same: "rollback s s = s"
  by (simp add: rollback_def)

lemma schedule_run:
  "schedule wall fresh env deliver_at expires_at sid skew s =
    (case schedule_checks wall fresh env deliver_at expires_at sid skew of Inl e \<Rightarrow> (Inl e, s)
     | Inr i \<Rightarrow> (case get_scheduled s i of
         Some r \<Rightarrow> if sq_inner r \<noteq> env then (Inl (ScheduledIdConflictError i), s) else (Inr i, s)
       | None \<Rightarrow> (Inr i, s\<lparr>scheduler_queue :=
           scheduler_queue s @ [new_sched_row i env deliver_at expires_at]\<rparr>)))"
  by (simp add: schedule_def prog_run txn_def rollback_same split: sum.split option.split)

lemma checks_ok:
  assumes "schedule_checks wall fresh env deliver_at expires_at sid skew = Inr i"
  shows "\<exists>d w. parse_canonical_utc deliver_at = Inr d \<and> parse_canonical_utc wall = Inr w \<and>
      d \<le> w + 604800 \<and> (\<forall>x. expires_at = Some x \<longrightarrow> (\<exists>e. parse_canonical_utc x = Inr e \<and> d < e))"
    and "env \<noteq> [] \<and> length env \<le> 262144"
    and "sid = Some i \<or> (sid = None \<and> i = fresh)"
proof -
  show "sid = Some i \<or> (sid = None \<and> i = fresh)" and "env \<noteq> [] \<and> length env \<le> 262144"
    using assms by (auto simp: schedule_checks_def validate_scheduled_id_def MAX_ENVELOPE_BYTES_def
        split: sum.splits if_splits option.splits)
  obtain d ht h where d: "parse_canonical_utc deliver_at = Inr d"
      and ht: "add_seconds wall 604800 = Inr ht" "parse_canonical_utc ht = Inr h" "d \<le> h"
      and ex: "\<forall>x. expires_at = Some x \<longrightarrow> (\<exists>e. parse_canonical_utc x = Inr e \<and> d < e)"
    using assms by (auto simp: schedule_checks_def validate_moment_def clock_of_def ACCEPT_WINDOW_DAYS_def
        not_less not_le split: sum.splits if_splits option.splits)
  obtain w where w: "parse_canonical_utc wall = Inr w"
    using ht(1) by (cases "parse_canonical_utc wall") (simp_all add: add_seconds_def)
  have "h = w + 604800" using add_seconds_parse [OF ht(1)] w ht(2) by simp
  then show "\<exists>d w. parse_canonical_utc deliver_at = Inr d \<and> parse_canonical_utc wall = Inr w \<and>
      d \<le> w + 604800 \<and> (\<forall>x. expires_at = Some x \<longrightarrow> (\<exists>e. parse_canonical_utc x = Inr e \<and> d < e))"
    using d w ht(3) ex by blast
qed

text \<open>C21. Scheduling is checked, local and idempotent. A success means that the queue holds these very
  bytes under the returned id. If the id was new, its row is a fresh one in state scheduled, whose
  delivery moment is at most seven days after the clock and strictly before its expiry, if it has
  one, and no other row changed. If the id was there, nothing changed. Repeating a call that gave
  the id returns it again without a change. A refusal changes nothing.\<close>
theorem schedule_idempotent:
  "case schedule wall fresh env deliver_at expires_at sid skew s of
     (Inl e, s') \<Rightarrow> s' = s
   | (Inr i, s') \<Rightarrow>
       (\<exists>r. get_scheduled s' i = Some r \<and> sq_inner r = env) \<and>
       (\<forall>x. x = i \<or> get_scheduled s' x = get_scheduled s x) \<and>
       (case get_scheduled s i of Some r \<Rightarrow> s' = s
        | None \<Rightarrow> get_scheduled s' i = Some (new_sched_row i env deliver_at expires_at) \<and>
            (\<exists>d w. parse_canonical_utc deliver_at = Inr d \<and> parse_canonical_utc wall = Inr w \<and>
              d \<le> w + 604800 \<and>
              (case expires_at of None \<Rightarrow> True
               | Some x \<Rightarrow> (\<exists>e. parse_canonical_utc x = Inr e \<and> d < e)))) \<and>
       (case sid of None \<Rightarrow> i = fresh
        | Some j \<Rightarrow> i = j \<and> schedule wall fresh' env deliver_at expires_at (Some j) skew s' = (Inr i, s'))"
proof (cases "schedule_checks wall fresh env deliver_at expires_at sid skew")
  case (Inl e)
  then show ?thesis by (simp add: schedule_run)
next
  case (Inr i)
  note ok = checks_ok [OF Inr]
  have again: "schedule_checks wall fresh' env deliver_at expires_at (Some i) skew = Inr i" if "sid = Some i"
    using Inr unfolding that schedule_checks_def option.case .
  have new: "get_scheduled (s\<lparr>scheduler_queue := scheduler_queue s @ [new_sched_row i env deliver_at expires_at]\<rparr>) x =
      (case get_scheduled s x of Some r \<Rightarrow> Some r | None \<Rightarrow>
         if x = i then Some (new_sched_row i env deliver_at expires_at) else None)" for x
    by (simp add: get_scheduled_def fetchone_append new_sched_row_def split: option.split)
  have inner: "sq_inner (new_sched_row i env deliver_at expires_at) = env"
    by (simp add: new_sched_row_def)
  show ?thesis
  proof (cases "get_scheduled s i")
    case None
    then show ?thesis using Inr ok again
      by (auto simp: schedule_run new inner split: option.split)
  next
    case (Some r)
    then show ?thesis using Inr ok again by (auto simp: schedule_run)
  qed
qed

lemma rollback_id: "scheduler_queue (rollback s s') = scheduler_queue s"
  by (simp add: rollback_def)

lemma cancel_run:
  assumes "queue_ok s"
  shows "cancel sid s = (case get_scheduled s sid of None \<Rightarrow> (Inl (UnknownScheduledIdError sid), s)
     | Some r \<Rightarrow> (case sq_state r of
         Scheduled \<Rightarrow> (Inr ''canceled'', set_state sid Canceled s)
       | Canceled \<Rightarrow> (Inr ''canceled'', s)
       | Released \<Rightarrow> (Inl (AlreadyReleasedError sid), s)
       | Expired \<Rightarrow> (Inl (InvalidSchedulerTransition sid), s)
       | Dead \<Rightarrow> (Inl (InvalidSchedulerTransition sid), s)))"
  using claimable_one [OF assms]
  by (simp add: cancel_def prog_run txn_def seq_run split: option.split sched_state.split)

text \<open>C24. A cancellation is final. When \<open>cancel\<close> answers, the row is canceled and no other row
  changed; it answers exactly for rows that are scheduled or already canceled, and names the reason
  otherwise, with \<open>AlreadyReleasedError\<close> only for a released row. From then on a release of that
  row, for whatever release function and moment and however stale the row the caller read, is
  skipped and leaves the whole database as it is: the event is never handed to the relay.\<close>
theorem cancel_is_final:
  assumes "queue_ok s"
  shows "case cancel sid s of
     (Inr v, s') \<Rightarrow> (\<exists>r. get_scheduled s sid = Some r \<and> sq_state r \<in> {Scheduled, Canceled} \<and>
         get_scheduled s' sid = Some (r\<lparr>sq_state := Canceled\<rparr>)) \<and>
       (\<forall>x. x = sid \<or> get_scheduled s' x = get_scheduled s x) \<and>
       release_one_row release now (stale\<lparr>sq_id := sid\<rparr>) s' = (Inr (StSkippedCanceled, 0), s')
   | (Inl e, s') \<Rightarrow> s' = s \<and> (case get_scheduled s sid of
         None \<Rightarrow> e = UnknownScheduledIdError sid
       | Some r \<Rightarrow> (sq_state r = Released \<and> e = AlreadyReleasedError sid) \<or>
                   (sq_state r \<in> {Expired, Dead} \<and> e = InvalidSchedulerTransition sid))"
proof -
  have skip: "release_one_row release now (stale\<lparr>sq_id := sid\<rparr>) t = (Inr (StSkippedCanceled, 0), t)"
    if "get_scheduled t sid = Some r" "sq_state r = Canceled" for t r
    using that by (simp add: release_one_row_def txn_def release_body_def Let_def prog_run)
  show ?thesis
  proof (cases "get_scheduled s sid")
    case None
    then show ?thesis by (simp add: cancel_run [OF assms])
  next
    case (Some r)
    note run = cancel_run [OF assms, of sid, unfolded Some option.case]
    show ?thesis
    proof (cases "sq_state r")
      case Scheduled
      note g = get_claimed [OF Some Scheduled refl, of Canceled]
      have "release_one_row release now (stale\<lparr>sq_id := sid\<rparr>) (set_state sid Canceled s) =
          (Inr (StSkippedCanceled, 0), set_state sid Canceled s)"
        using skip [of "set_state sid Canceled s"] g [of sid] by simp
      then show ?thesis using run Scheduled Some g by simp
    next
      case Canceled
      then have "r = r\<lparr>sq_state := Canceled\<rparr>" by simp
      then show ?thesis using run Canceled Some skip [OF Some Canceled] by auto
    qed (use run Some in simp_all)
  qed
qed

definition sample_sched :: sched_row where
  "sample_sched = \<lparr>sq_id = ''s1'', sq_inner = [1, 2], sq_deliver = ''2025-01-01T00:00:00Z'',
     sq_expires = Some ''2025-01-02T00:00:00Z'', sq_state = Scheduled, sq_failures = 0, sq_approval = None\<rparr>"

definition sample_sched_db :: db where
  "sample_sched_db = empty_db\<lparr>scheduler_queue := [sample_sched]\<rparr>"

lemmas sched_samples = sample_sched_db_def sample_sched_def empty_db_def

theorem cancel_is_final_witness:
  "release_one_row (\<lambda>_ _ _. ret ()) 0 sample_sched (snd (cancel ''s1'' sample_sched_db)) =
     (Inr (StSkippedCanceled, 0), snd (cancel ''s1'' sample_sched_db))"
  using cancel_is_final [of sample_sched_db "''s1''" "\<lambda>_ _ _. ret ()" 0 sample_sched]
  by (simp add: sched_samples unique_key_def cancel_run get_scheduled_def fetchone_def set_state_def
      update_where_def)

end
