(* ===== verification/SchedulerRuns.thy ===== *)
theory SchedulerRuns
  imports Scheduler
begin

text \<open>
  What one run of the scheduler makes of each row, exactly, and all eight lists of its summary
  (\<open>scheduler.py\<close>, \<open>run_due\<close>). \<open>release_gates\<close> extends the contract of a release function by the two
  refusals it may give: \<open>gate\<close> tells them from the tables that a run only reads.
\<close>

text \<open>A row whose delivery moment and effective expiry lie ahead, and how late a due row is.\<close>

definition not_due :: "instant \<Rightarrow> sched_row \<Rightarrow> bool" where
  "not_due now r \<longleftrightarrow> (\<exists>x d. effective_expiry r = Inr x \<and> now < x \<and>
     parse_canonical_utc (sq_deliver r) = Inr d \<and> now < d)"

definition lateness :: "instant \<Rightarrow> sched_row \<Rightarrow> nat" where
  "lateness now r = (case parse_canonical_utc (sq_deliver r) of Inl _ \<Rightarrow> 0 | Inr d \<Rightarrow> nat (now - d))"

text \<open>The row \<open>c'\<close> that a run which returns leaves of \<open>c\<close>. Past its expiry \<open>c\<close> expires, or is struck where it
  carries an approval of an unknown event. When it is due it stays as it is behind a gate; otherwise it is
  released if its release succeeds, with the tables a run reads as they were, and struck if not. A row
  whose time has not come stays, one whose moments cannot be read is struck.\<close>

definition fate ::
  "release_fn \<Rightarrow> (db \<Rightarrow> str \<Rightarrow> release_status option) \<Rightarrow> instant \<Rightarrow> db \<Rightarrow> sched_row \<Rightarrow> sched_row \<Rightarrow> bool" where
  "fate release gate now s c c' \<longleftrightarrow>
     (if past_expiry now c then c' = c\<lparr>sq_state := Expired\<rparr> \<or> (\<not> safe_strike s c \<and> c' = struck c)
      else if due now c then
        (if gate s (sq_id c) \<noteq> None then c' = c
         else \<exists>u. same_setting s u \<and>
           c' = (if is_ok (fst (release (sq_id c) (sq_inner c) (lateness now c) u)) then c\<lparr>sq_state := Released\<rparr> else struck c))
      else if not_due now c then c' = c else c' = struck c)"

text \<open>What a turn of the loop adds to the summary, and what the whole loop adds.\<close>

definition turn_tally ::
  "release_status option \<Rightarrow> instant \<Rightarrow> summary \<Rightarrow> sched_row \<Rightarrow> sched_row \<Rightarrow> summary \<Rightarrow> bool" where
  "turn_tally g now m c c' m' \<longleftrightarrow> m' = \<lparr>
     sm_released = sm_released m @ (if sq_state c' = Released then [sq_id c] else []),
     sm_expired = sm_expired m @ (if sq_state c' = Expired then [sq_id c] else []),
     sm_late = sm_late m @ (if sq_state c' = Released \<and> 0 < lateness now c then [(sq_id c, lateness now c)] else []),
     sm_failed = sm_failed m @ (if c' = c\<lparr>sq_failures := sq_failures c + 1\<rparr> then [sq_id c] else []),
     sm_dead = sm_dead m @ (if sq_state c' = Dead then [sq_id c] else []),
     sm_skipped_canceled = sm_skipped_canceled m,
     sm_skipped_revoked = sm_skipped_revoked m @ (if due now c \<and> g = Some StSkippedRevoked then [sq_id c] else []),
     sm_skipped_paused = sm_skipped_paused m @ (if due now c \<and> g = Some StSkippedPaused then [sq_id c] else [])\<rparr>"

definition full_report ::
  "(db \<Rightarrow> str \<Rightarrow> release_status option) \<Rightarrow> instant \<Rightarrow> db \<Rightarrow> summary \<Rightarrow> sched_row list \<Rightarrow> db \<Rightarrow> summary" where
  "full_report gate now s m rows s' = \<lparr>
     sm_released = sm_released m @ map sq_id (filter (\<lambda>c. in_state s' Released (sq_id c)) rows),
     sm_expired = sm_expired m @ map sq_id (filter (\<lambda>c. in_state s' Expired (sq_id c)) rows),
     sm_late = sm_late m @ map (\<lambda>c. (sq_id c, lateness now c))
       (filter (\<lambda>c. in_state s' Released (sq_id c) \<and> 0 < lateness now c) rows),
     sm_failed = sm_failed m @ map sq_id
       (filter (\<lambda>c. get_scheduled s' (sq_id c) = Some (c\<lparr>sq_failures := sq_failures c + 1\<rparr>)) rows),
     sm_dead = sm_dead m @ map sq_id (filter (\<lambda>c. in_state s' Dead (sq_id c)) rows),
     sm_skipped_canceled = sm_skipped_canceled m,
     sm_skipped_revoked = sm_skipped_revoked m @ map sq_id
       (filter (\<lambda>c. due now c \<and> gate s (sq_id c) = Some StSkippedRevoked) rows),
     sm_skipped_paused = sm_skipped_paused m @ map sq_id
       (filter (\<lambda>c. due now c \<and> gate s (sq_id c) = Some StSkippedPaused) rows)\<rparr>"

lemma full_report_nil: "full_report gate now s m [] s' = m"
  by (simp add: full_report_def)

lemma full_report_cons:
  assumes "turn_tally (gate s (sq_id c)) now m c c' m1" "get_scheduled s' (sq_id c) = Some c'"
  shows "full_report gate now s m (c # rows) s' = full_report gate now s m1 rows s'"
  using assms by (simp add: full_report_def turn_tally_def in_state_def)

lemma dict_set_new: "k \<notin> fst ` set d \<Longrightarrow> dict_set k v d = d @ [(k, v)]"
  by (induction k v d rule: dict_set.induct) auto

lemma phases_differ: "past_expiry now c \<Longrightarrow> \<not> due now c" "not_due now c \<Longrightarrow> \<not> due now c" "not_due now c \<Longrightarrow> \<not> past_expiry now c"
  by (auto simp: past_expiry_def due_def not_due_def)

locale release_gates = release_contract release for release +
  fixes gate :: "db \<Rightarrow> str \<Rightarrow> release_status option"
  assumes gate_law: "gate s sid = (case fst (release sid env late s) of
      Inl (RevokedRelationshipError _) \<Rightarrow> Some StSkippedRevoked
    | Inl (SendPausedError _) \<Rightarrow> Some StSkippedPaused | _ \<Rightarrow> None)"
    and gate_stable: "same_setting s s' \<Longrightarrow> gate s' sid = gate s sid"
begin

lemma gated_result:
  "fst (gated_release release sid env late s) = (case gate s sid of Some st \<Rightarrow> Inl (ReleaseGated st)
     | None \<Rightarrow> fst (release sid env late s))"
  unfolding gate_law [of s sid env late] gated_release_def
  by (simp split: prod.split sum.split sched_exn.split)

lemma gate_values: "gate s sid = Some st \<Longrightarrow> st = StSkippedRevoked \<or> st = StSkippedPaused"
  unfolding gate_law [of s sid "[]" 0] by (auto split: sum.splits sched_exn.splits)

text \<open>The answer of one transaction.\<close>

lemma release_one_row_answer:
  assumes "queue_ok s" and "get_scheduled s (sq_id row) = Some row" and "sq_state row = Scheduled"
    and "release_one_row release now row s = (r, t)"
  shows "if past_expiry now row then r = Inr (StExpired, 0) \<or> (\<not> safe_strike s row \<and> \<not> is_ok r)
    else if due now row then
      (case gate s (sq_id row) of Some st \<Rightarrow> r = Inr (st, 0)
       | None \<Rightarrow> \<exists>u. same_setting s u \<and>
           (if is_ok (fst (release (sq_id row) (sq_inner row) (lateness now row) u))
            then r = Inr (StReleased, lateness now row) else \<not> is_ok r))
    else if not_due now row then r = Inr (StNotDue, 0) else \<not> is_ok r"
proof -
  note body = release_body_scheduled [OF assms(1-3), of now]
  note run = assms(4) [unfolded release_one_row_def txn_def body]
  show ?thesis
  proof (cases "effective_expiry row")
    case (Inl e)
    moreover have "\<forall>st. e \<noteq> ReleaseGated st"
      using Inl by (auto simp: effective_expiry_def clock_of_def split: sum.splits)
    ultimately show ?thesis using run
      by (cases e) (auto simp: past_expiry_def due_def not_due_def is_ok_def)
  next
    case x: (Inr x)
    show ?thesis
    proof (cases "x \<le> now")
      case True
      obtain q v where p: "restore_approval (sq_id row) (sq_approval row) (format_canonical_utc now) ''expired''
          (set_state (sq_id row) Expired s) = (q, v)" by (rule prod.exhaust)
      have ng: "\<forall>st. q \<noteq> Inl (ReleaseGated st)" using restore_not_gated p by (metis fst_conv)
      have ok: "is_ok q" if "safe_strike s row"
        using restore_ok [of "sq_approval row" "sq_id row" "set_state (sq_id row) Expired s"
          "format_canonical_utc now" "''expired''"] that p
        by (auto simp: safe_strike_def set_state_def)
      have "past_expiry now row" using x True by (simp add: past_expiry_def)
      moreover have "r = Inr (StExpired, 0) \<or> \<not> safe_strike s row \<and> \<not> is_ok r"
        using run x True p ng ok by (cases q) (auto split: sched_exn.splits)
      ultimately show ?thesis by simp
    next
      case False
      then have past: "\<not> past_expiry now row" using x by (simp add: past_expiry_def)
      show ?thesis
      proof (cases "parse_canonical_utc (sq_deliver row)")
        case (Inl e)
        then show ?thesis using run x False past by (auto simp: due_def not_due_def is_ok_def)
      next
        case d: (Inr d)
        show ?thesis
        proof (cases "now < d")
          case True
          then show ?thesis using run x False past d by (auto simp: due_def not_due_def)
        next
          case nd: False
          let ?s0 = "set_state (sq_id row) Released s"
          have late: "lateness now row = nat (now - d)" by (simp add: lateness_def d)
          have dn: "due now row" using x False d nd by (auto simp: due_def)
          obtain q v where g: "gated_release release (sq_id row) (sq_inner row) (lateness now row) ?s0 = (q, v)"
            by (rule prod.exhaust)
          have rq: "r = (case q of Inr _ \<Rightarrow> Inr (StReleased, lateness now row)
              | Inl (ReleaseGated st) \<Rightarrow> Inr (st, 0) | Inl e \<Rightarrow> Inl e)"
            using run x False d nd g
            by (cases q) (auto simp: late split: sched_exn.splits)
          have gs: "gate ?s0 (sq_id row) = gate s (sq_id row)" by (rule gate_stable) simp
          have q: "q = (case gate s (sq_id row) of Some st \<Rightarrow> Inl (ReleaseGated st)
              | None \<Rightarrow> fst (release (sq_id row) (sq_inner row) (lateness now row) ?s0))"
            using gated_result [of "sq_id row" "sq_inner row" "lateness now row" ?s0] g gs by simp
          have ng: "fst (release (sq_id row) (sq_inner row) (lateness now row) ?s0) \<noteq> Inl (ReleaseGated st)" for st
            by (rule release_not_gated)
          have "same_setting s ?s0" by simp
          then show ?thesis
            using past dn rq q ng
            by (auto simp: is_ok_def split: option.splits sum.splits sched_exn.splits intro!: exI [of _ ?s0])
        qed
      qed
    qed
  qed
qed

text \<open>One turn of the loop, when it returns.\<close>

lemma run_row_fate:
  assumes ok: "queue_ok s" and row: "get_scheduled s (sq_id row) = Some row" "sq_state row = Scheduled"
    and run: "run_row release now wall row m s = (Inr m', s')"
    and late: "sq_id row \<notin> fst ` set (sm_late m)"
  shows "\<exists>c'. get_scheduled s' (sq_id row) = Some c' \<and> fate release gate now s row c' \<and>
    turn_tally (gate s (sq_id row)) now m row c' m'"
proof -
  obtain r t where one: "release_one_row release now row s = (r, t)" by (rule prod.exhaust)
  note answer = release_one_row_answer [OF ok row one]
  show ?thesis
  proof (rule release_one_row_queue [OF ok row, of now])
    fix e u assume u: "release_one_row release now row s = (Inl e, u)" "scheduler_queue u = scheduler_queue s"
    have ok': "queue_ok u" using ok u(2) by simp
    have row': "get_scheduled u (sq_id row) = Some row" using row(1) get_scheduled_cong [OF u(2)] by simp
    have tally: "turn_tally (gate s (sq_id row)) now m row (struck row) m'"
      if "m' = (if sq_failures row + 1 \<ge> MAX_RELEASE_ATTEMPTS
        then m\<lparr>sm_dead := sm_dead m @ [sq_id row]\<rparr> else m\<lparr>sm_failed := sm_failed m @ [sq_id row]\<rparr>)"
    proof -
      have "struck row = row\<lparr>sq_failures := sq_failures row + 1\<rparr> \<longleftrightarrow> \<not> sq_failures row + 1 \<ge> MAX_RELEASE_ATTEMPTS"
        using row(2) by (cases row) (auto simp: struck_def)
      moreover have "\<not> (due now row \<and> gate s (sq_id row) \<noteq> None)"
        using answer u(1) one phases_differ(1) [of now row] by (cases "gate s (sq_id row)") (auto split: if_splits)
      ultimately show ?thesis using row(2) that
        by (cases "gate s (sq_id row)") (auto simp: turn_tally_def struck_def)
    qed
    have "fate release gate now s row (struck row)"
      using answer u(1) one unfolding fate_def
      by (auto split: if_splits option.splits)
    note fate = this
    show ?thesis
    proof (rule record_failure_cases [OF row' row(2) ok', of wall])
      fix e' v assume "record_release_failure wall (sq_id row) u = (Inl e', v)"
      then show ?thesis using run u(1) by (simp add: run_row_def)
    next
      fix v assume "record_release_failure wall (sq_id row) u = (Inr (sq_failures row + 1), v)"
        "\<And>x. get_scheduled v x = (if x = sq_id row then Some (struck row) else get_scheduled u x)"
      then show ?thesis using run u(1) tally fate by (auto simp: run_row_def)
    qed
  next
    fix u assume u: "release_one_row release now row s = (Inr (StExpired, 0), u)"
      "scheduler_queue u = scheduler_queue (set_state (sq_id row) Expired s)" "past_expiry now row"
    have "m' = note_status (sq_id row) StExpired 0 m" "s' = u" using run u(1) by (simp_all add: run_row_def)
    moreover have "fate release gate now s row (row\<lparr>sq_state := Expired\<rparr>)" using u(3) by (simp add: fate_def)
    ultimately show ?thesis
      using get_claimed [OF row u(2)] phases_differ(1) [OF u(3)] row(2)
      by (cases row) (simp add: turn_tally_def note_status_def)
  next
    fix n s0 u assume u: "release_one_row release now row s = (Inr (StReleased, n), u)"
      "scheduler_queue u = scheduler_queue (set_state (sq_id row) Released s)" "due now row"
    have past: "\<not> past_expiry now row" using u(3) phases_differ(1) by blast
    have g: "gate s (sq_id row) = None" using answer past u(1,3) one gate_values by (fastforce split: option.splits)
    obtain w where w: "same_setting s w" "is_ok (fst (release (sq_id row) (sq_inner row) (lateness now row) w))"
        "n = lateness now row"
      using answer past u(1,3) one g by (auto split: if_splits)
    have "m' = note_status (sq_id row) StReleased n m" "s' = u" using run u(1) by (simp_all add: run_row_def)
    moreover have "fate release gate now s row (row\<lparr>sq_state := Released\<rparr>)"
      using past u(3) g w by (auto simp: fate_def)
    ultimately show ?thesis
      using get_claimed [OF row u(2)] w(3) g late row(2)
      by (cases row) (simp add: turn_tally_def note_status_def Let_def dict_set_new)
  next
    fix st u assume u: "release_one_row release now row s = (Inr (st, 0), u)"
      "st \<in> {StNotDue, StSkippedRevoked, StSkippedPaused}" "scheduler_queue u = scheduler_queue s"
    have "m' = note_status (sq_id row) st 0 m" "s' = u" using run u(1) by (simp_all add: run_row_def)
    moreover have "get_scheduled u (sq_id row) = Some row" using row get_scheduled_cong [OF u(3)] by simp
    moreover have "fate release gate now s row row \<and> (if due now row then gate s (sq_id row) = Some st else st = StNotDue)"
      using answer u(1,2) one gate_values [of s "sq_id row"]
      by (auto simp: fate_def split: if_splits option.splits)
    ultimately show ?thesis
      using row(2) u(2) gate_values [of s "sq_id row"]
      by (cases row) (auto simp: turn_tally_def note_status_def split: if_splits)
  qed
qed

text \<open>The fate of a row depends on the tables a run only reads.\<close>

lemma fate_stable: "same_setting s s1 \<Longrightarrow> fate release gate now s1 row c \<Longrightarrow> fate release gate now s row c"
  unfolding fate_def gate_stable [of s s1]
  by (auto simp: same_setting_def safe_strike_def split: if_splits)

lemma run_rows_report:
  assumes "queue_ok s" and "distinct (map sq_id rows)"
    and "\<forall>row \<in> set rows. get_scheduled s (sq_id row) = Some row \<and> sq_state row = Scheduled"
    and "run_rows release now wall rows m s = (Inr m', s')"
    and "fst ` set (sm_late m) \<inter> sq_id ` set rows = {}"
  shows "(\<forall>c \<in> set rows. \<exists>c'. get_scheduled s' (sq_id c) = Some c' \<and> fate release gate now s c c') \<and>
    m' = full_report gate now s m rows s'"
  using assms
proof (induction rows arbitrary: s m)
  case Nil
  then show ?case by (simp add: ret_def full_report_nil)
next
  case (Cons row rows)
  obtain r1 s1 where p: "run_row release now wall row m s = (r1, s1)" by (rule prod.exhaust)
  have row: "get_scheduled s (sq_id row) = Some row" "sq_state row = Scheduled" using Cons.prems(3) by auto
  obtain m1 where m1: "r1 = Inr m1" using Cons.prems(4) p by (cases r1) (simp_all add: seq_def)
  note eff = run_row_effect [OF Cons.prems(1) row p]
  have run: "run_rows release now wall rows m1 s1 = (Inr m', s')" using Cons.prems(4) p m1 by (simp add: seq_def)
  have fresh: "sq_id row \<notin> fst ` set (sm_late m)" using Cons.prems(5) by auto
  obtain c' where c': "get_scheduled s1 (sq_id row) = Some c'" "fate release gate now s row c'"
      "turn_tally (gate s (sq_id row)) now m row c' m1"
    using run_row_fate [OF Cons.prems(1) row p [unfolded m1] fresh] by blast
  have rest: "\<forall>q \<in> set rows. get_scheduled s1 (sq_id q) = Some q \<and> sq_state q = Scheduled"
    using Cons.prems(2,3) eff(3) by (auto simp: image_iff)
  have "fst ` set (sm_late m1) \<inter> sq_id ` set rows = {}"
    using Cons.prems(2,5) c'(3) by (auto simp: turn_tally_def)
  note ih = Cons.IH [OF eff(1) _ rest run this]
  have keep: "get_scheduled s' (sq_id row) = Some c'"
    using run_rows_effect [OF eff(1) _ rest run] Cons.prems(2) c'(1) by simp
  have "full_report gate now s1 m1 rows s' = full_report gate now s m1 rows s'"
    by (simp add: full_report_def gate_stable [OF eff(2)])
  then show ?case
    using ih Cons.prems(2) keep c'(2) fate_stable [OF eff(2)] full_report_cons [where s = s and gate = gate and c = row, OF c'(3) keep] by auto
qed

lemma run_due_report:
  assumes "queue_ok s" and "run_due now release skew wall s = (Inr m, s')" and "parse_canonical_utc now = Inr t"
  shows "(\<forall>c \<in> set (due_rows s). \<exists>c'. get_scheduled s' (sq_id c) = Some c' \<and> fate release gate t s c c') \<and>
    m = full_report gate t s empty_summary (due_rows s) s'"
proof -
  have "run_rows release t wall (due_rows s) empty_summary s = (Inr m, s')"
    using assms(2,3) by (auto simp: run_due_def prog_run validate_moment_def split: sum.splits)
  from run_rows_report [OF assms(1) due_rows_facts [OF assms(1)] this] show ?thesis
    by (simp add: empty_summary_def)
qed

end

end
