(* ===== verification/Transport.thy ===== *)
theory Transport
  imports Clock Store
begin

text \<open>
  The relay: object names and sizes, the local directory transport (\<open>transports/local.py\<close>), the
  bounded stream of \<open>transports/base.py\<close> and its two implementations, and the mutation queue of the
  git transport (\<open>transports/github.py\<close>).

  \<^item> A local relay is the list of its files (\<^typ>\<open>relay_file\<close>); a write replaces the file of that
    directory and name. File names are texts of code points below 128.
  \<^item> \<open>hashlib.sha256\<close> is the parameter \<open>sha256\<close>, from bytes to the hexadecimal text; random ids
    are arguments.
  \<^item> The visitor of a stream is a function on the world it may change (it consumes objects and
    writes the database): from the object's name and bytes to whether to go on.
  \<^item> Running git is outside the model: a mirror is the list of the files under \<open>incoming\<close>,
    and what git answers (the names that are new, sizes, contents) are functions. The numbered row
    ids of the mutation queue are the rows' \<open>mq_no\<close>.
\<close>

datatype transport_exn =
    TransportError str bool
  | QueueValueError
  | QueueIntegrity

fun transport_code :: "transport_exn \<Rightarrow> str" where
  "transport_code (TransportError c _) = c"
| "transport_code QueueValueError = ''ValueError''"
| "transport_code QueueIntegrity = ''IntegrityError''"

definition EXIT_BY_CODE :: "(str \<times> nat) list" where
  "EXIT_BY_CODE = [(''lock_timeout'', 22), (''rotation_required'', 21), (''object_too_large'', 21),
     (''config_error'', 21), (''schema_error'', 21)]"

definition exit_code :: "str \<Rightarrow> bool \<Rightarrow> nat" where
  "exit_code code retryable = (case map_of EXIT_BY_CODE code of
     Some c \<Rightarrow> c | None \<Rightarrow> if retryable then 20 else 21)"

section \<open>Object names and sizes\<close>

definition name_char :: "char \<Rightarrow> bool" where
  "name_char c \<longleftrightarrow> (CHR ''A'' \<le> c \<and> c \<le> CHR ''Z'') \<or> (CHR ''a'' \<le> c \<and> c \<le> CHR ''z'') \<or>
     is_digit c \<or> c = CHR ''_'' \<or> c = CHR ''-''"

definition name_shape :: "str \<Rightarrow> bool" where
  "name_shape n \<longleftrightarrow> length n = 37 \<and> list_all name_char (take 32 n) \<and> drop 32 n = ''.json''"

text \<open>\<open>OBJECT_NAME_RE\<close>, whose \<open>$\<close> lets one final newline through.\<close>

definition object_name_matches :: "str \<Rightarrow> bool" where
  "object_name_matches n \<longleftrightarrow> name_shape n \<or> (n \<noteq> [] \<and> last n = CHR 0x0A \<and> name_shape (butlast n))"

definition check_object_name :: "str \<Rightarrow> transport_exn + str" where
  "check_object_name n =
     (if object_name_matches n then Inr n else Inl (TransportError ''config_error'' False))"

definition OBJECT_MAX_BYTES :: nat where "OBJECT_MAX_BYTES = MAX_ENVELOPE_BYTES"

definition check_object_size :: "nat \<Rightarrow> transport_exn + nat" where
  "check_object_size n =
     (if n > OBJECT_MAX_BYTES then Inl (TransportError ''object_too_large'' False) else Inr n)"

section \<open>The local transport\<close>

definition file_key :: "relay_file \<Rightarrow> str \<times> str \<times> str" where
  "file_key f = (rf_root f, rf_box f, rf_name f)"

definition atomic_write :: "str \<Rightarrow> str \<Rightarrow> str \<Rightarrow> bytes \<Rightarrow> relay_file list \<Rightarrow> relay_file list" where
  "atomic_write dir box name data = upsert file_key
     \<lparr>rf_root = dir, rf_box = box, rf_name = name, rf_data = data\<rparr> (\<lambda>f. f\<lparr>rf_data := data\<rparr>)"

definition unlink :: "str \<Rightarrow> str \<Rightarrow> str \<Rightarrow> relay_file list \<Rightarrow> relay_file list" where
  "unlink dir box name = delete_where (\<lambda>f. file_key f = (dir, box, name))"

definition read_file :: "relay_file list \<Rightarrow> str \<Rightarrow> str \<Rightarrow> str \<Rightarrow> bytes option" where
  "read_file fs dir box name =
     map_option rf_data (fetchone (\<lambda>f. file_key f = (dir, box, name)) fs)"

definition is_json_name :: "str \<Rightarrow> bool" where
  "is_json_name n \<longleftrightarrow> length n \<ge> 5 \<and> drop (length n - 5) n = ''.json''"

definition incoming_names :: "relay_file list \<Rightarrow> str \<Rightarrow> str list" where
  "incoming_names fs dir = sort (map rf_name
     (select (\<lambda>f. rf_root f = dir \<and> rf_box f = ''incoming'' \<and> is_json_name (rf_name f)) fs))"

definition ascii :: "str \<Rightarrow> bytes" where
  "ascii s = map of_char s"

text \<open>What \<open>head\<close> digests: per entry its name and its size, each closed by a zero byte.\<close>

definition head_entry :: "str \<Rightarrow> nat \<Rightarrow> bytes" where
  "head_entry name n = ascii name @ [0] @ ascii (nat_text n) @ [0]"

definition local_head :: "(bytes \<Rightarrow> str) \<Rightarrow> str \<Rightarrow> relay_file list \<Rightarrow> str" where
  "local_head sha256 dir fs = sha256 (concat (map (\<lambda>n. head_entry n
     (case read_file fs dir ''incoming'' n of None \<Rightarrow> 0 | Some d \<Rightarrow> length d)) (incoming_names fs dir)))"

definition local_upload :: "str \<Rightarrow> str \<Rightarrow> bytes \<Rightarrow> (relay_file list, transport_exn, unit) prog" where
  "local_upload dir name data =
     seq (lift (check_object_name name)) (\<lambda>_.
     seq (lift (check_object_size (length data))) (\<lambda>_.
     exec (atomic_write dir ''incoming'' name data)))"

definition local_consume :: "str \<Rightarrow> str \<Rightarrow> (relay_file list, transport_exn, unit) prog" where
  "local_consume dir name =
     seq (lift (check_object_name name)) (\<lambda>_.
     seq (query (\<lambda>fs. read_file fs dir ''incoming'' name)) (\<lambda>src.
     case src of None \<Rightarrow> ret ()
     | Some d \<Rightarrow> exec (\<lambda>fs. unlink dir ''incoming'' name (atomic_write dir ''consumed'' name d fs))))"

definition local_quarantine :: "str \<Rightarrow> str \<Rightarrow> bytes \<Rightarrow> (relay_file list, transport_exn, unit) prog" where
  "local_quarantine dir name data =
     seq (lift (check_object_name name)) (\<lambda>_.
     seq (exec (atomic_write dir ''quarantine'' name data)) (\<lambda>_.
     local_consume dir name))"

text \<open>A missing file makes \<open>stat\<close> raise \<open>FileNotFoundError\<close>, here the code of that name.\<close>

definition local_read_object :: "relay_file list \<Rightarrow> str \<Rightarrow> str \<Rightarrow> transport_exn + bytes" where
  "local_read_object fs dir name = (case check_object_name name of Inl e \<Rightarrow> Inl e | Inr _ \<Rightarrow>
     (case read_file fs dir ''incoming'' name of
        None \<Rightarrow> Inl (TransportError ''FileNotFoundError'' False)
      | Some d \<Rightarrow> (case check_object_size (length d) of Inl e \<Rightarrow> Inl e | Inr _ \<Rightarrow> Inr d)))"

section \<open>Bounded streams\<close>

record stream_stats =
  st_objects :: nat
  st_bytes :: nat
  st_truncated :: bool
  st_reason :: "str option"

definition new_stream_stats :: stream_stats where
  "new_stream_stats = \<lparr>st_objects = 0, st_bytes = 0, st_truncated = False, st_reason = None\<rparr>"

type_synonym 'w visitor = "str \<Rightarrow> bytes \<Rightarrow> 'w \<Rightarrow> bool \<times> 'w"

definition truncated_for :: "str \<Rightarrow> stream_stats \<Rightarrow> stream_stats" where
  "truncated_for reason st = st\<lparr>st_truncated := True, st_reason := Some reason\<rparr>"

definition delivered :: "bytes \<Rightarrow> bytes" where
  "delivered data = (if length data \<le> OBJECT_MAX_BYTES then data else replicate (OBJECT_MAX_BYTES + 1) 0)"

text \<open>The loop over the names the scan found. \<open>look\<close> is what the relay holds under a name when its
  turn comes: an object gone by then is skipped. An object over the cap is delivered as a
  placeholder one byte over it.\<close>

fun stream_objects ::
  "('w \<Rightarrow> str \<Rightarrow> bytes option) \<Rightarrow> 'w visitor \<Rightarrow> str list \<Rightarrow> stream_stats \<Rightarrow> 'w \<Rightarrow> stream_stats \<times> 'w" where
  "stream_objects look visit [] st w = (st, w)"
| "stream_objects look visit (n # ns) st w =
     (if st_objects st \<ge> FETCH_MAX_OBJECTS then (truncated_for ''object_cap'' st, w)
      else case look w n of
        None \<Rightarrow> stream_objects look visit ns st w
      | Some data \<Rightarrow>
          if st_bytes st + length (delivered data) > FETCH_MAX_AGGREGATE_BYTES
          then (truncated_for ''aggregate_bytes_cap'' st, w)
          else (let st' = st\<lparr>st_objects := st_objects st + 1,
                             st_bytes := st_bytes st + length (delivered data)\<rparr>
                in case visit n (delivered data) w of
                  (False, w') \<Rightarrow> (truncated_for ''caller_stopped'' st', w')
                | (True, w') \<Rightarrow> stream_objects look visit ns st' w'))"

definition local_fetch_new_stream ::
  "(bytes \<Rightarrow> str) \<Rightarrow> str \<Rightarrow> ('w \<Rightarrow> relay_file list) \<Rightarrow> str \<Rightarrow> 'w visitor \<Rightarrow> 'w \<Rightarrow> stream_stats \<times> 'w" where
  "local_fetch_new_stream sha256 dir files since visit w =
     (if since \<noteq> [] \<and> since = local_head sha256 dir (files w) then (new_stream_stats, w)
      else stream_objects (\<lambda>w n. read_file (files w) dir ''incoming'' n) visit
             (incoming_names (files w) dir) new_stream_stats w)"

text \<open>\<open>GitHubTransport.fetch_new_stream\<close> after the names were listed: entries outside
  \<open>incoming/\<close> or with other names are passed over before the bounds are looked at.\<close>

definition git_names :: "str list \<Rightarrow> str list" where
  "git_names entries = filter object_name_matches
     (map (drop 9) (filter (\<lambda>e. take 9 e = ''incoming/'') (map strip entries)))"

definition git_fetch_new_stream ::
  "('w \<Rightarrow> str \<Rightarrow> bytes option) \<Rightarrow> 'w visitor \<Rightarrow> str list \<Rightarrow> 'w \<Rightarrow> stream_stats \<times> 'w" where
  "git_fetch_new_stream blob visit entries w =
     stream_objects blob visit (git_names entries) new_stream_stats w"

text \<open>\<open>Transport.fetch_new_stream\<close> over the buffered \<open>fetch_new\<close>.\<close>

fun stream_items :: "'w visitor \<Rightarrow> (str \<times> bytes) list \<Rightarrow> stream_stats \<Rightarrow> 'w \<Rightarrow> stream_stats \<times> 'w" where
  "stream_items visit [] st w = (st, w)"
| "stream_items visit ((n, data) # xs) st w =
     (if st_objects st \<ge> FETCH_MAX_OBJECTS then (truncated_for ''object_cap'' st, w)
      else if st_bytes st + length data > FETCH_MAX_AGGREGATE_BYTES
      then (truncated_for ''aggregate_bytes_cap'' st, w)
      else (let st' = st\<lparr>st_objects := st_objects st + 1, st_bytes := st_bytes st + length data\<rparr>
            in case visit n data w of
              (False, w') \<Rightarrow> (truncated_for ''caller_stopped'' st', w')
            | (True, w') \<Rightarrow> stream_items visit xs st' w'))"

section \<open>The mutation queue of the git transport\<close>

definition next_no :: "mutation_row list \<Rightarrow> nat" where
  "next_no t = foldr max (map mq_no t) 0 + 1"

definition queue_mutation ::
  "str \<Rightarrow> str \<Rightarrow> str \<Rightarrow> str \<Rightarrow> str \<Rightarrow> bytes option \<Rightarrow> (db, transport_exn, str) prog" where
  "queue_mutation fresh wall scope op name data =
     (if op \<notin> {''upload'', ''consume''} then raise QueueValueError
      else if \<not> object_name_matches name then raise (TransportError ''config_error'' False)
      else if op = ''upload'' \<and> data = None then raise QueueValueError
      else if op = ''upload'' \<and> length (the data) > OBJECT_MAX_BYTES
        then raise (TransportError ''object_too_large'' False)
      else if op \<noteq> ''upload'' \<and> data \<noteq> None then raise QueueValueError
      else seq (query (\<lambda>s. fresh \<in> mq_id ` set (mutation_queue s))) (\<lambda>clash.
        if clash then raise QueueIntegrity
        else seq (exec (\<lambda>s. s\<lparr>mutation_queue := mutation_queue s @
            [\<lparr>mq_no = next_no (mutation_queue s), mq_id = fresh, mq_scope = scope, mq_op = op,
              mq_object = name, mq_data = data, mq_state = Queued, mq_attempts = 0, mq_at = wall\<rparr>]\<rparr>))
          (\<lambda>_. ret fresh)))"

definition queued :: "db \<Rightarrow> str \<Rightarrow> mutation_row list" where
  "queued s scope = sort_key mq_no (select (\<lambda>m. mq_scope m = scope \<and> mq_state m = Queued) (mutation_queue s))"

definition count_queued :: "db \<Rightarrow> str \<Rightarrow> nat" where
  "count_queued s scope = rowcount (\<lambda>m. mq_scope m = scope \<and> mq_state m = Queued) (mutation_queue s)"

type_synonym tree = "(str \<times> bytes) list"

definition tree_remove :: "str \<Rightarrow> tree \<Rightarrow> tree" where
  "tree_remove name = filter (\<lambda>(n, _). n \<noteq> name)"

definition apply_mutation :: "mutation_row \<Rightarrow> tree \<Rightarrow> tree" where
  "apply_mutation m t =
     (if mq_op m = ''upload'' then dict_set (mq_object m) (the (mq_data m)) t
      else tree_remove (mq_object m) t)"

fun replay_rows :: "mutation_row list \<Rightarrow> tree \<Rightarrow> (transport_exn + nat list) \<times> tree" where
  "replay_rows [] t = (Inr [], t)"
| "replay_rows (m # ms) t =
     (if \<not> object_name_matches (mq_object m) then (Inl (TransportError ''config_error'' False), t)
      else case replay_rows ms (apply_mutation m t) of
        (Inl e, t') \<Rightarrow> (Inl e, t') | (Inr ids, t') \<Rightarrow> (Inr (mq_no m # ids), t'))"

definition replay_queued :: "db \<Rightarrow> str \<Rightarrow> tree \<Rightarrow> (transport_exn + nat list) \<times> tree" where
  "replay_queued s scope t = replay_rows (queued s scope) t"

definition mark_mutations_done :: "nat list \<Rightarrow> db \<Rightarrow> db" where
  "mark_mutations_done ids s = (if ids = [] then s else s\<lparr>mutation_queue :=
     update_where (\<lambda>m. mq_no m \<in> set ids) (\<lambda>m. m\<lparr>mq_state := Done\<rparr>) (mutation_queue s)\<rparr>)"

definition check_relay_size :: "int \<Rightarrow> bool \<Rightarrow> transport_exn + str option" where
  "check_relay_size bytes_total has_uploads =
     (if bytes_total \<ge> REPO_SIZE_ROTATE_BYTES then Inl (TransportError ''rotation_required'' False)
      else if has_uploads \<and> bytes_total \<ge> REPO_SIZE_BLOCK_BYTES
        then Inl (TransportError ''repo_size_blocked'' False)
      else if bytes_total \<ge> REPO_SIZE_WARN_BYTES then Inr (Some ''warn'') else Inr None)"

text \<open>The push log is the list of (scope, moment); the prune happens before the decision.\<close>

definition PUSH_SOFT_INTERVAL_SECONDS :: nat where
  "PUSH_SOFT_INTERVAL_SECONDS = 60 div SOFT_PUSH_TARGET_PER_MINUTE"

definition push_log_pruned :: "str \<Rightarrow> rat \<Rightarrow> (str \<times> rat) list \<Rightarrow> (str \<times> rat) list" where
  "push_log_pruned scope now = delete_where (\<lambda>(r, moment). r = scope \<and> moment < now - 60)"

definition check_push_rate ::
  "str \<Rightarrow> rat \<Rightarrow> ((str \<times> rat) list, transport_exn, str) prog" where
  "check_push_rate scope now =
     seq (exec (push_log_pruned scope now)) (\<lambda>_.
     seq (query (\<lambda>t. map snd (select (\<lambda>(r, _). r = scope) t))) (\<lambda>mine.
     if length mine \<ge> MAX_PUSHES_PER_MINUTE then raise (TransportError ''push_rate_limited'' True)
     else if mine \<noteq> [] \<and> now - foldr max mine (hd mine) < of_nat PUSH_SOFT_INTERVAL_SECONDS
       then ret ''deferred''
     else ret ''ok''))"

section \<open>What a relay store promises\<close>

text \<open>Uploads and consumptions in any order, through the operations of a store, and those of them
  that go through.\<close>

fun perform ::
  "(str \<Rightarrow> bytes \<Rightarrow> ('w, 'e, unit) prog) \<Rightarrow> (str \<Rightarrow> ('w, 'e, unit) prog) \<Rightarrow>
   (str \<times> bytes option) list \<Rightarrow> 'w \<Rightarrow> 'w" where
  "perform upload consume [] w = w"
| "perform upload consume ((n, Some d) # ops) w = perform upload consume ops (snd (upload n d w))"
| "perform upload consume ((n, None) # ops) w = perform upload consume ops (snd (consume n w))"

definition checked :: "str \<times> bytes option \<Rightarrow> bool" where
  "checked op = (object_name_matches (fst op) \<and>
     (case snd op of None \<Rightarrow> True | Some d \<Rightarrow> length d \<le> OBJECT_MAX_BYTES))"

definition last_left :: "(str \<times> bytes option) list \<Rightarrow> (str \<Rightarrow> bytes option) \<Rightarrow> str \<Rightarrow> bytes option" where
  "last_left ops m = fold (\<lambda>(n, d) m. m(n := d)) (filter checked ops) m"

text \<open>The contract the sender and the receiver rely on: \<open>contents\<close> is what a reader of the relay
  will find under a name once the store is up to date, \<open>ok\<close> the store's own invariant.\<close>

locale relay_store =
  fixes ok :: "'w \<Rightarrow> bool"
    and contents :: "'w \<Rightarrow> str \<Rightarrow> bytes option"
    and upload :: "str \<Rightarrow> bytes \<Rightarrow> 'w \<Rightarrow> (transport_exn + unit) \<times> 'w"
    and consume :: "str \<Rightarrow> 'w \<Rightarrow> (transport_exn + unit) \<times> 'w"
  assumes upload_ok: "ok w \<Longrightarrow> ok (snd (upload n d w))"
    and consume_ok: "ok w \<Longrightarrow> ok (snd (consume n w))"
    and upload_contents: "ok w \<Longrightarrow> contents (snd (upload n d w)) =
        (if checked (n, Some d) then (contents w)(n \<mapsto> d) else contents w)"
    and consume_contents: "ok w \<Longrightarrow> contents (snd (consume n w)) =
        (if checked (n, None) then (contents w)(n := None) else contents w)"
begin

lemma perform_contents:
  "ok w \<Longrightarrow> contents (perform upload consume ops w) = last_left ops (contents w)"
proof (induction ops arbitrary: w)
  case Nil
  then show ?case by (simp add: last_left_def)
next
  case (Cons op ops)
  obtain n d where op: "op = (n, d)" by fastforce
  show ?case
  proof (cases d)
    case None
    then show ?thesis using Cons.IH [OF consume_ok [OF Cons.prems]] consume_contents [OF Cons.prems] op
      by (simp add: last_left_def)
  next
    case (Some x)
    then show ?thesis using Cons.IH [OF upload_ok [OF Cons.prems]] upload_contents [OF Cons.prems] op
      by (simp add: last_left_def)
  qed
qed

lemma consume_twice:
  "ok w \<Longrightarrow> contents (snd (consume n (snd (consume n w)))) = contents (snd (consume n w))"
  using consume_contents [OF consume_ok] consume_contents by auto

end

section \<open>The two stores\<close>

definition incoming_contents :: "str \<Rightarrow> relay_file list \<Rightarrow> str \<Rightarrow> bytes option" where
  "incoming_contents dir fs n = read_file fs dir ''incoming'' n"

lemma read_atomic_write:
  "read_file (atomic_write dir box n d fs) dir' box' n' =
     (if (dir', box', n') = (dir, box, n) then Some d else read_file fs dir' box' n')"
proof (cases "(dir, box, n) \<in> set (map file_key fs)")
  case True
  have up: "atomic_write dir box n d fs = update_where (\<lambda>f. file_key f = (dir, box, n)) (\<lambda>f. f\<lparr>rf_data := d\<rparr>) fs"
    using True by (simp add: atomic_write_def upsert_def file_key_def)
  show ?thesis
  proof (cases "(dir', box', n') = (dir, box, n)")
    case eq: True
    obtain f where "fetchone (\<lambda>f. file_key f = (dir, box, n)) fs = Some f"
      using True fetchone_None [of "\<lambda>f. file_key f = (dir, box, n)" fs]
      by (cases "fetchone (\<lambda>f. file_key f = (dir, box, n)) fs") auto
    then show ?thesis using eq up by (simp add: read_file_def fetchone_update_same file_key_def)
  next
    case False
    have "fetchone (\<lambda>f. file_key f = (dir', box', n')) (atomic_write dir box n d fs) =
      fetchone (\<lambda>f. file_key f = (dir', box', n')) fs"
      unfolding up by (rule fetchone_update_other) (use False in \<open>auto simp: file_key_def\<close>)
    then show ?thesis using False by (auto simp: read_file_def)
  qed
next
  case False
  then have "atomic_write dir box n d fs = fs @ [\<lparr>rf_root = dir, rf_box = box, rf_name = n, rf_data = d\<rparr>]"
    by (simp add: atomic_write_def upsert_def file_key_def)
  moreover have "fetchone (\<lambda>f. file_key f = (dir, box, n)) fs = None"
    using False by (force simp: fetchone_None)
  ultimately show ?thesis
    by (auto simp: read_file_def fetchone_append file_key_def split: option.split)
qed

lemma fetchone_delete_other:
  "(\<And>r. P r \<Longrightarrow> \<not> Q r) \<Longrightarrow> fetchone P (delete_where Q t) = fetchone P t"
  by (induction t) (auto simp: fetchone_def delete_where_def)

lemma fetchone_delete_same: "fetchone P (delete_where P t) = None"
  by (auto simp: fetchone_None delete_where_def)

lemma read_unlink:
  "read_file (unlink dir box n fs) dir' box' n' =
     (if (dir', box', n') = (dir, box, n) then None else read_file fs dir' box' n')"
proof (cases "(dir', box', n') = (dir, box, n)")
  case False
  then have "fetchone (\<lambda>f. file_key f = (dir', box', n')) (delete_where (\<lambda>f. file_key f = (dir, box, n)) fs) =
    fetchone (\<lambda>f. file_key f = (dir', box', n')) fs"
    by (intro fetchone_delete_other) auto
  then show ?thesis using False by (auto simp: read_file_def unlink_def)
qed (simp add: read_file_def unlink_def fetchone_delete_same)

interpretation local_store: relay_store "\<lambda>_. True" "incoming_contents dir" "local_upload dir" "local_consume dir"
  for dir
  by unfold_locales
    (auto simp: local_upload_def local_consume_def prog_run check_object_name_def check_object_size_def
       incoming_contents_def read_atomic_write read_unlink fun_eq_iff checked_def
       split: if_splits option.splits)

text \<open>The git store: the queue of one scope, replayed onto the tree \<open>tip\<close> of the relay branch. Row
  numbers grow, so an appended row is the last; the queue only ever holds checked names.\<close>

definition queue_wf :: "db \<Rightarrow> bool" where
  "queue_wf s \<longleftrightarrow> list_all (\<lambda>m. object_name_matches (mq_object m)) (mutation_queue s)"

definition git_contents :: "str \<Rightarrow> tree \<Rightarrow> db \<Rightarrow> str \<Rightarrow> bytes option" where
  "git_contents scope tip s = map_of (snd (replay_queued s scope tip))"

text \<open>The id of a mutation is drawn when it is queued.\<close>

definition git_upload :: "(db \<Rightarrow> str) \<Rightarrow> str \<Rightarrow> str \<Rightarrow> str \<Rightarrow> bytes \<Rightarrow> (db, transport_exn, unit) prog" where
  "git_upload draw wall scope n d s =
     seq (queue_mutation (draw s) wall scope ''upload'' n (Some d)) (\<lambda>_. ret ()) s"

definition git_consume :: "(db \<Rightarrow> str) \<Rightarrow> str \<Rightarrow> str \<Rightarrow> str \<Rightarrow> (db, transport_exn, unit) prog" where
  "git_consume draw wall scope n s =
     seq (queue_mutation (draw s) wall scope ''consume'' n None) (\<lambda>_. ret ()) s"

lemma map_of_tree_remove: "map_of (tree_remove n t) = (map_of t)(n := None)"
  by (induction t) (auto simp: tree_remove_def fun_eq_iff)

lemma map_of_apply:
  "map_of (apply_mutation m t) = (map_of t)(mq_object m := (if mq_op m = ''upload'' then Some (the (mq_data m)) else None))"
  by (auto simp: apply_mutation_def map_of_tree_remove)

lemma replay_rows_ok:
  "list_all (\<lambda>m. object_name_matches (mq_object m)) ms \<Longrightarrow>
   replay_rows ms t = (Inr (map mq_no ms), fold apply_mutation ms t)"
  by (induction ms arbitrary: t) auto

lemma replay_rows_bad:
  "\<not> list_all (\<lambda>m. object_name_matches (mq_object m)) ms \<Longrightarrow> \<exists>e. fst (replay_rows ms t) = Inl e"
proof (induction ms arbitrary: t)
  case (Cons m ms)
  show ?case
  proof (cases "object_name_matches (mq_object m)")
    case True
    then obtain e where "fst (replay_rows ms (apply_mutation m t)) = Inl e"
      using Cons.IH [of "apply_mutation m t"] Cons.prems by auto
    then show ?thesis using True by (simp add: split_beta)
  qed simp
qed simp

lemma fold_apply_lookup:
  "map_of (fold apply_mutation ms t) n =
     (case find (\<lambda>m. mq_object m = n) (rev ms) of None \<Rightarrow> map_of t n
      | Some m \<Rightarrow> if mq_op m = ''upload'' then Some (the (mq_data m)) else None)"
  by (induction ms rule: rev_induct) (simp_all add: map_of_apply)

lemma insort_last: "\<forall>x \<in> set xs. k x < k m \<Longrightarrow> insort_key k m xs = xs @ [m]"
  by (induction xs) (auto simp: not_le)

lemma sort_key_snoc: "\<forall>x \<in> set xs. k x < k m \<Longrightarrow> sort_key k (xs @ [m]) = sort_key k xs @ [m]"
proof (induction xs)
  case (Cons x xs)
  have "insort_key k x (ys @ [m]) = insort_key k x ys @ [m]" for ys
    using Cons.prems by (induction ys) auto
  then show ?case using Cons by simp
qed simp

lemma next_no_above: "m \<in> set t \<Longrightarrow> mq_no m < next_no t"
  by (induction t) (auto simp: next_no_def less_Suc_eq_le intro: le_trans)

lemma queued_append:
  assumes "mq_no m = next_no (mutation_queue s)"
  shows "queued (s\<lparr>mutation_queue := mutation_queue s @ [m]\<rparr>) scope =
    queued s scope @ (if mq_scope m = scope \<and> mq_state m = Queued then [m] else [])"
  using assms next_no_above sort_key_snoc [of "select (\<lambda>m. mq_scope m = scope \<and> mq_state m = Queued) (mutation_queue s)" mq_no m]
  by (auto simp: queued_def select_def)

lemma queued_wf: "queue_wf s \<Longrightarrow> list_all (\<lambda>m. object_name_matches (mq_object m)) (queued s scope)"
  by (auto simp: queue_wf_def queued_def select_def list_all_iff)

lemma git_contents_wf:
  "queue_wf s \<Longrightarrow> git_contents scope tip s = map_of (fold apply_mutation (queued s scope) tip)"
  by (simp add: git_contents_def replay_queued_def replay_rows_ok [OF queued_wf])

lemma queue_mutation_run:
  "queue_mutation fresh wall scope op n data s =
     (if op \<notin> {''upload'', ''consume''} then (Inl QueueValueError, s)
      else if \<not> object_name_matches n then (Inl (TransportError ''config_error'' False), s)
      else if op = ''upload'' \<and> data = None then (Inl QueueValueError, s)
      else if op = ''upload'' \<and> length (the data) > OBJECT_MAX_BYTES
        then (Inl (TransportError ''object_too_large'' False), s)
      else if op \<noteq> ''upload'' \<and> data \<noteq> None then (Inl QueueValueError, s)
      else if fresh \<in> mq_id ` set (mutation_queue s) then (Inl QueueIntegrity, s)
      else (Inr fresh, s\<lparr>mutation_queue := mutation_queue s @
            [\<lparr>mq_no = next_no (mutation_queue s), mq_id = fresh, mq_scope = scope, mq_op = op,
              mq_object = n, mq_data = data, mq_state = Queued, mq_attempts = 0, mq_at = wall\<rparr>]\<rparr>))"
  unfolding queue_mutation_def prog_run ..

lemma ex_refused: "(\<exists>e. (if b then (Inl x, s) else r) = (Inl e, s)) \<longleftrightarrow> b \<or> (\<exists>e. r = (Inl e, s))"
  by simp

lemma queue_mutation_effect:
  assumes "queue_wf s" and "fresh \<notin> mq_id ` set (mutation_queue s)"
    and "op = ''upload'' \<and> data \<noteq> None \<or> op = ''consume'' \<and> data = None"
  shows "queue_wf (snd (queue_mutation fresh wall scope op n data s))"
    and "git_contents scope tip (snd (queue_mutation fresh wall scope op n data s)) =
        (if checked (n, data) then (git_contents scope tip s)(n := data) else git_contents scope tip s)"
proof -
  let ?m = "\<lparr>mq_no = next_no (mutation_queue s), mq_id = fresh, mq_scope = scope, mq_op = op,
      mq_object = n, mq_data = data, mq_state = Queued, mq_attempts = 0, mq_at = wall\<rparr>"
  let ?s = "s\<lparr>mutation_queue := mutation_queue s @ [?m]\<rparr>"
  have run: "snd (queue_mutation fresh wall scope op n data s) = (if checked (n, data) then ?s else s)"
    using assms(2,3) by (cases data) (auto simp: queue_mutation_run checked_def)
  have wf: "queue_wf ?s" if "checked (n, data)"
    using assms that by (simp add: queue_wf_def checked_def)
  then show "queue_wf (snd (queue_mutation fresh wall scope op n data s))"
    using run assms(1) by simp
  have "git_contents scope tip ?s = (git_contents scope tip s)(n := data)" if "checked (n, data)"
  proof -
    have "queued ?s scope = queued s scope @ [?m]" using queued_append [of ?m s scope] by simp
    then have "git_contents scope tip ?s = map_of (apply_mutation ?m (fold apply_mutation (queued s scope) tip))"
      using git_contents_wf [OF wf [OF that]] by simp
    then show ?thesis using assms(3) git_contents_wf [OF assms(1)] by (auto simp: map_of_apply)
  qed
  then show "git_contents scope tip (snd (queue_mutation fresh wall scope op n data s)) =
        (if checked (n, data) then (git_contents scope tip s)(n := data) else git_contents scope tip s)"
    using run by simp
qed

text \<open>A drawing that never repeats an id of the queue, as 16 random bytes do not.\<close>

definition draws_fresh :: "(db \<Rightarrow> str) \<Rightarrow> bool" where
  "draws_fresh draw \<longleftrightarrow> (\<forall>s. draw s \<notin> mq_id ` set (mutation_queue s))"

definition long_draw :: "db \<Rightarrow> str" where
  "long_draw s = CHR ''x'' # concat (map mq_id (mutation_queue s))"

lemma long_draw_fresh: "draws_fresh long_draw"
proof -
  have "length i \<le> length (concat (map mq_id t))" if "i \<in> mq_id ` set t" for i and t :: "mutation_row list"
    using that by (induction t) auto
  then show ?thesis unfolding draws_fresh_def long_draw_def
    by (metis impossible_Cons)
qed

lemma git_store_laws: "draws_fresh draw \<Longrightarrow>
  relay_store queue_wf (git_contents scope tip) (git_upload draw wall scope) (git_consume draw wall scope)"
proof
  fix w :: db and n :: str and d :: bytes
  assume "draws_fresh draw" and wf: "queue_wf w"
  then have f: "draw w \<notin> mq_id ` set (mutation_queue w)" by (simp add: draws_fresh_def)
  have snd_seq: "snd (seq p (\<lambda>_. ret ()) w) = snd (p w)" for p :: "(db, transport_exn, str) prog"
    by (simp add: seq_def ret_def split: prod.split sum.split)
  note up = queue_mutation_effect [OF wf f, where op = "''upload''" and data = "Some d"]
  note co = queue_mutation_effect [OF wf f, where op = "''consume''" and data = None]
  show "queue_wf (snd (git_upload draw wall scope n d w))"
    and "git_contents scope tip (snd (git_upload draw wall scope n d w)) =
      (if checked (n, Some d) then (git_contents scope tip w)(n \<mapsto> d) else git_contents scope tip w)"
    using up by (simp_all add: git_upload_def snd_seq)
  show "queue_wf (snd (git_consume draw wall scope n w))"
    and "git_contents scope tip (snd (git_consume draw wall scope n w)) =
      (if checked (n, None) then (git_contents scope tip w)(n := None) else git_contents scope tip w)"
    using co by (simp_all add: git_consume_def snd_seq)
qed

interpretation git_store: relay_store queue_wf "git_contents scope tip" "git_upload long_draw wall scope"
  "git_consume long_draw wall scope" for scope tip wall
  by (rule git_store_laws [OF long_draw_fresh])

section \<open>Properties\<close>

text \<open>C26. The two relay transports agree. Start a directory and a git mutation queue from the same
  contents and give both the same uploads and consumptions, refused names and oversized objects
  included: what a reader finds in the directory is, name by name, what the branch holds once the
  queue is replayed onto its tip.\<close>
theorem transports_agree:
  assumes "queue_wf s" and "draws_fresh draw"
    and "incoming_contents dir fs = git_contents scope tip s"
  shows "incoming_contents dir (perform (local_upload dir) (local_consume dir) ops fs) =
    git_contents scope tip (perform (git_upload draw wall scope) (git_consume draw wall scope) ops s)"
  using local_store.perform_contents [of dir ops fs] assms(3)
    relay_store.perform_contents [OF git_store_laws [OF assms(2)] assms(1)] by simp

definition sample_name :: str where
  "sample_name = replicate 32 (CHR ''a'') @ ''.json''"

theorem transports_agree_witness:
  "incoming_contents ''d'' (perform (local_upload ''d'') (local_consume ''d'') [(sample_name, Some [7])] []) sample_name = Some [7] \<and>
   git_contents ''r'' [] (perform (git_upload long_draw ''t'' ''r'') (git_consume long_draw ''t'' ''r'')
     [(sample_name, Some [7])] empty_db) sample_name = Some [7]"
proof -
  have wf: "queue_wf empty_db" by (simp add: queue_wf_def empty_db_def)
  have q: "queued empty_db ''r'' = []" by (simp add: queued_def select_def empty_db_def)
  have start: "incoming_contents ''d'' [] = git_contents ''r'' [] empty_db"
    using git_contents_wf [OF wf] q by (simp add: fun_eq_iff incoming_contents_def read_file_def fetchone_def)
  have "checked (sample_name, Some [7])"
    by (simp add: checked_def object_name_matches_def name_shape_def sample_name_def name_char_def
        OBJECT_MAX_BYTES_def MAX_ENVELOPE_BYTES_def list_all_iff)
  then have "incoming_contents ''d'' (perform (local_upload ''d'') (local_consume ''d'') [(sample_name, Some [7])] []) sample_name = Some [7]"
    using local_store.perform_contents [of "''d''" "[(sample_name, Some [7])]" "[]"] by (simp add: last_left_def)
  then show ?thesis
    using transports_agree [OF wf long_draw_fresh start, of "[(sample_name, Some [7])]" "''t''"] by simp
qed

text \<open>Replaying the queue is exact and can be repeated. A replay that succeeds reports the queued
  rows of its scope in their order, leaves under each name what its last queued row says, an
  uploaded object's bytes or nothing, and keeps every other name; replaying again after a crash
  before the rows were marked done reports the same rows and changes nothing. A replay fails only
  for a queued name outside the pattern.\<close>
lemma replay_exact:
  "case replay_queued s scope t of
     (Inr ids, t') \<Rightarrow> ids = map mq_no (queued s scope) \<and>
       map_of t' = (\<lambda>n. case find (\<lambda>m. mq_object m = n) (rev (queued s scope)) of
         None \<Rightarrow> map_of t n
       | Some m \<Rightarrow> if mq_op m = ''upload'' then Some (the (mq_data m)) else None) \<and>
       fst (replay_queued s scope t') = Inr ids \<and>
       map_of (snd (replay_queued s scope t')) = map_of t'
   | (Inl e, _) \<Rightarrow> e = TransportError ''config_error'' False \<and>
       \<not> list_all (\<lambda>m. object_name_matches (mq_object m)) (queued s scope)"
proof (cases "list_all (\<lambda>m. object_name_matches (mq_object m)) (queued s scope)")
  case True
  then show ?thesis
    by (auto simp: replay_queued_def replay_rows_ok fold_apply_lookup fun_eq_iff split: option.split)
next
  case False
  have "fst (replay_rows ms t) = Inl (TransportError ''config_error'' False)"
    if "\<not> list_all (\<lambda>m. object_name_matches (mq_object m)) ms" for ms t
    using that
  proof (induction ms arbitrary: t)
    case (Cons m ms)
    then show ?case by (cases "object_name_matches (mq_object m)") (simp_all add: split_beta)
  qed simp
  from this [OF False, of t] False show ?thesis
    by (auto simp: replay_queued_def split: prod.splits)
qed

text \<open>A visitor that also writes down what it is given.\<close>

fun logged :: "'w visitor \<Rightarrow> ((str \<times> bytes) list \<times> 'w) visitor" where
  "logged visit n d (l, w) = (case visit n d w of (go, w') \<Rightarrow> (go, (l @ [(n, d)], w')))"

lemma length_delivered: "length (delivered d) \<le> OBJECT_MAX_BYTES + 1"
  by (simp add: delivered_def)

lemma stream_invariant:
  assumes "st_objects st = length l" and "st_bytes st = sum_list (map (length \<circ> snd) l)"
    and "st_objects st \<le> FETCH_MAX_OBJECTS" and "st_bytes st \<le> FETCH_MAX_AGGREGATE_BYTES"
    and "list_all (\<lambda>(n, d). length d \<le> OBJECT_MAX_BYTES + 1) l" and "\<not> st_truncated st"
    and "stream_objects (\<lambda>(_, w). look w) (logged visit) ns st (l, w) = (st', (l', w'))"
  shows "st_objects st' = length l' \<and> st_bytes st' = sum_list (map (length \<circ> snd) l') \<and>
    st_objects st' \<le> FETCH_MAX_OBJECTS \<and> st_bytes st' \<le> FETCH_MAX_AGGREGATE_BYTES \<and>
    list_all (\<lambda>(n, d). length d \<le> OBJECT_MAX_BYTES + 1) l'"
  using assms
proof (induction ns arbitrary: st l w)
  case Nil
  then show ?case by simp
next
  case (Cons n ns)
  consider (cap) "st_objects st \<ge> FETCH_MAX_OBJECTS"
    | (gone) "st_objects st < FETCH_MAX_OBJECTS" "look w n = None"
    | (over) data where "st_objects st < FETCH_MAX_OBJECTS" "look w n = Some data"
        "st_bytes st + length (delivered data) > FETCH_MAX_AGGREGATE_BYTES"
    | (visit) data go w1 where "st_objects st < FETCH_MAX_OBJECTS" "look w n = Some data"
        "st_bytes st + length (delivered data) \<le> FETCH_MAX_AGGREGATE_BYTES"
        "visit n (delivered data) w = (go, w1)"
    by (metis not_le option.exhaust prod.exhaust)
  then show ?case
  proof cases
    case cap
    then show ?thesis using Cons.prems by (auto simp: truncated_for_def)
  next
    case gone
    then show ?thesis using Cons.prems Cons.IH [of st l w] by auto
  next
    case over
    then show ?thesis using Cons.prems by (auto simp: truncated_for_def)
  next
    case visit
    let ?st = "st\<lparr>st_objects := st_objects st + 1, st_bytes := st_bytes st + length (delivered data)\<rparr>"
    show ?thesis
    proof (cases go)
      case False
      then show ?thesis using visit Cons.prems length_delivered [of data]
        by (auto simp: truncated_for_def Let_def)
    next
      case True
      have run: "stream_objects (\<lambda>(_, w). look w) (logged visit) ns ?st (l @ [(n, delivered data)], w1) = (st', (l', w'))"
        using visit True Cons.prems(7) by (simp add: Let_def)
      show ?thesis using Cons.IH [OF _ _ _ _ _ _ run] visit Cons.prems length_delivered [of data] by auto
    qed
  qed
qed

text \<open>What a relay that does not change holds of a listing.\<close>

definition deliverable :: "(str \<Rightarrow> bytes option) \<Rightarrow> str list \<Rightarrow> (str \<times> bytes) list" where
  "deliverable held ns = map (\<lambda>n. (n, delivered (the (held n)))) (filter (\<lambda>n. held n \<noteq> None) ns)"

lemma deliverable_simps [simp]:
  "deliverable held [] = []"
  "deliverable held (n # ns) = (case held n of None \<Rightarrow> deliverable held ns | Some d \<Rightarrow> (n, delivered d) # deliverable held ns)"
  by (simp_all add: deliverable_def split: option.split)

text \<open>Why a stream ended after the first \<open>k\<close> of the objects \<open>D\<close>.\<close>

definition ended_for :: "'w visitor \<Rightarrow> stream_stats \<Rightarrow> (str \<times> bytes) list \<Rightarrow> nat \<Rightarrow> bool" where
  "ended_for visit st D k \<longleftrightarrow> k \<le> length D \<and> (case st_reason st of
     None \<Rightarrow> \<not> st_truncated st \<and> k = length D
   | Some r \<Rightarrow> st_truncated st \<and>
       (r = ''object_cap'' \<and> st_objects st = 5000 \<or>
        r = ''aggregate_bytes_cap'' \<and> k < length D \<and> 268435456 < st_bytes st + length (snd (D ! k)) \<or>
        r = ''caller_stopped'' \<and> 0 < k \<and> (\<exists>w. \<not> fst (visit (fst (D ! (k - 1))) (snd (D ! (k - 1))) w))))"

lemma stream_prefix:
  assumes "st_reason st = None" "\<not> st_truncated st" "st_objects st \<le> FETCH_MAX_OBJECTS"
    and "stream_objects (\<lambda>_. held) (logged visit) ns st (l, w) = (st', (l', w'))"
  shows "\<exists>k. l' = l @ take k (deliverable held ns) \<and> ended_for visit st' (deliverable held ns) k"
  using assms
proof (induction ns arbitrary: st l w)
  case Nil
  then show ?case by (auto simp: ended_for_def)
next
  case (Cons n ns)
  show ?case
  proof (cases "st_objects st \<ge> FETCH_MAX_OBJECTS")
    case True
    then show ?thesis using Cons.prems
      by (intro exI [of _ 0]) (auto simp: truncated_for_def ended_for_def FETCH_MAX_OBJECTS_def)
  next
    case room: False
    show ?thesis
    proof (cases "held n")
      case None
      then show ?thesis using Cons.prems Cons.IH [of st l w] room by simp
    next
      case (Some data)
      show ?thesis
      proof (cases "st_bytes st + length (delivered data) > FETCH_MAX_AGGREGATE_BYTES")
        case True
        then show ?thesis using Cons.prems room Some
          by (intro exI [of _ 0]) (auto simp: truncated_for_def ended_for_def FETCH_MAX_AGGREGATE_BYTES_def)
      next
        case False
        obtain go w1 where visit: "visit n (delivered data) w = (go, w1)" by (metis surj_pair)
        show ?thesis
        proof (cases go)
          case False
          have "\<exists>w. \<not> fst (visit n (delivered data) w)" using visit False by (intro exI [of _ w]) simp
          then show ?thesis using Cons.prems room Some \<open>\<not> _ > FETCH_MAX_AGGREGATE_BYTES\<close> visit False
            by (intro exI [of _ 1]) (auto simp: truncated_for_def ended_for_def Let_def)
        next
          case True
          let ?st = "st\<lparr>st_objects := st_objects st + 1, st_bytes := st_bytes st + length (delivered data)\<rparr>"
          have "stream_objects (\<lambda>_. held) (logged visit) ns ?st (l @ [(n, delivered data)], w1) = (st', (l', w'))"
            using Cons.prems(4) room Some \<open>\<not> _ > FETCH_MAX_AGGREGATE_BYTES\<close> visit True by (simp add: Let_def)
          from Cons.IH [OF _ _ _ this] Cons.prems(1,2) room
          obtain k where k: "l' = (l @ [(n, delivered data)]) @ take k (deliverable held ns)"
            "ended_for visit st' (deliverable held ns) k" by auto
          have "ended_for visit st' (deliverable held (n # ns)) (Suc k)"
            using k(2) Some by (cases k) (auto simp: ended_for_def split: option.splits)
          then show ?thesis using k(1) Some by (intro exI [of _ "Suc k"]) simp
        qed
      qed
    qed
  qed
qed

text \<open>C22. A fetch is bounded, and truncated only for a reason. Whatever the relay holds and whatever the
  visitor does, a stream delivers at most 5000 objects and 256 MiB, each at most one byte over the object
  cap, and its statistics are those of what the visitor saw. Over a relay that does not change meanwhile,
  what it has delivered are the first of the listed objects that were there, in order, in full or as the
  oversize placeholder: all of them, unless the statistics name as the reason of the truncation that 5000 were
  delivered, that the next one would exceed the 256 MiB, or that the visitor stopped at the last one.\<close>
theorem stream_bounded_complete:
  "(case stream_objects (\<lambda>(_, w). look w) (logged visit) ns new_stream_stats ([], w) of (st, (l, _)) \<Rightarrow>
      st_objects st = length l \<and> st_bytes st = sum_list (map (length \<circ> snd) l) \<and>
      st_objects st \<le> 5000 \<and> st_bytes st \<le> 268435456 \<and> list_all (\<lambda>(n, d). length d \<le> 262145) l) \<and>
   (case stream_objects (\<lambda>_. held) (logged visit) ns new_stream_stats ([], w) of (st, (l, _)) \<Rightarrow>
      \<exists>k. l = take k (deliverable held ns) \<and> ended_for visit st (deliverable held ns) k)"
  (is "?within \<and> ?complete")
proof
  obtain st l w' where r: "stream_objects (\<lambda>(_, w). look w) (logged visit) ns new_stream_stats ([], w) = (st, (l, w'))"
    by (metis prod.exhaust)
  from stream_invariant [OF _ _ _ _ _ _ r] show ?within
    unfolding r by (simp add: new_stream_stats_def OBJECT_MAX_BYTES_def MAX_ENVELOPE_BYTES_def FETCH_MAX_OBJECTS_def
        FETCH_MAX_AGGREGATE_BYTES_def)
next
  obtain st l w' where r: "stream_objects (\<lambda>_. held) (logged visit) ns new_stream_stats ([], w) = (st, (l, w'))"
    by (metis prod.exhaust)
  from stream_prefix [OF _ _ _ r] show ?complete
    unfolding r by (simp add: new_stream_stats_def)
qed

end
