(* ===== verification/Release.thy ===== *)
theory Release
  imports SchedulerRuns Transport Delivery
begin

text \<open>
  The release function the command line hands to the scheduler (\<open>cli.py\<close>, \<open>_release_fn\<close> and the
  relay lookup it uses, \<open>crypto/rotation.py\<close>, \<open>may_send\<close>), the interpretation of the scheduler's
  contract on it, and the properties of a run with it.

  \<^item> The clock of the rotation manager is a rational moment, \<open>wall\<close> the text of \<open>utcnow\<close>, \<open>pick\<close>
    the random object name drawn while an id is released, \<open>draw\<close> the random mutation id.
  \<^item> A query for one row of a table without an order takes the oldest row that matches.
  \<^item> A \<open>CliError\<close>, \<open>TransportError\<close> or other exception of the function is \<open>ReleaseRaised\<close> with its
    code or name. Relay slots that are no texts cannot be joined to a path.
\<close>

section \<open>The rotation pause\<close>

definition may_send :: "rat \<Rightarrow> db \<Rightarrow> str \<Rightarrow> str + unit" where
  "may_send now s rid =
     (case fetchone (\<lambda>r. kr_rel r = rid \<and> kr_role r = ''acking'' \<and> kr_phase r = ''acknowledged'')
        (key_rotations s) of
        None \<Rightarrow> Inr ()
      | Some r \<Rightarrow> (case parse_canonical_utc (kr_deadline r) of
          Inl _ \<Rightarrow> Inl ''ValueError''
        | Inr d \<Rightarrow> if of_int d < now then Inl ''send_paused_acknowledged'' else Inr ()))"

section \<open>The relay of a relationship\<close>

datatype relay_kind = LocalRelay str | GitRelay str

definition relay_config_row :: "db \<Rightarrow> str \<Rightarrow> str + relay_config_row" where
  "relay_config_row s rid = (case fetchone (\<lambda>r. rcf_rel r = rid) (relay_config s) of
     None \<Rightarrow> Inl ''no_relay_config'' | Some r \<Rightarrow> Inr r)"

definition slot_of :: "(str \<times> json) list \<Rightarrow> str \<Rightarrow> json option" where
  "slot_of d k = (case dict_get d k of None \<Rightarrow> None | Some v \<Rightarrow> if py_bool v then Some v else None)"

definition direction_slots :: "relay_config_row \<Rightarrow> str + (json \<times> json)" where
  "direction_slots r =
     (case (case rcf_slots r of None \<Rightarrow> Inr [] | Some (JObj d) \<Rightarrow> Inr d
            | Some _ \<Rightarrow> Inl ''AttributeError'') of
        Inl e \<Rightarrow> Inl e
      | Inr d \<Rightarrow>
         (case (slot_of d ''inviter_send_slot'', slot_of d ''inviter_receive_slot'') of
            (Some a, Some b) \<Rightarrow> Inr (if rcf_role r = Some ''acceptor'' then (b, a) else (a, b))
          | _ \<Rightarrow> Inl ''no_relay_config''))"

definition truthy :: "str option \<Rightarrow> bool" where
  "truthy t = (case t of None \<Rightarrow> False | Some x \<Rightarrow> x \<noteq> [])"

definition transport_scope :: "str \<Rightarrow> str \<Rightarrow> str" where
  "transport_scope rid direction = rid @ '':'' @ direction"

definition transport_for :: "db \<Rightarrow> str \<Rightarrow> str \<Rightarrow> str + relay_kind" where
  "transport_for s rid direction =
     (if direction \<notin> {''send'', ''receive''} then Inl ''bad_args''
      else case relay_config_row s rid of Inl e \<Rightarrow> Inl e | Inr r \<Rightarrow>
      (case direction_slots r of Inl e \<Rightarrow> Inl e | Inr (snd_slot, rcv_slot) \<Rightarrow>
      (case (if direction = ''send'' then snd_slot else rcv_slot) of
         JStr slot \<Rightarrow>
           if rcf_provider r = ''local'' then
             (if truthy (rcf_dir r) then Inr (LocalRelay (the (rcf_dir r) @ ''/'' @ slot))
              else Inl ''no_relay_config'')
           else if rcf_provider r = ''github'' then
             (if truthy (rcf_repo r) then Inr (GitRelay (transport_scope rid direction))
              else Inl ''no_relay_config'')
           else Inl ''no_relay_config''
       | _ \<Rightarrow> Inl ''TypeError'')))"

section \<open>The release function\<close>

text \<open>An upload inside the scheduler's transaction: into the directory of a local relay, or into
  the mutation queue.\<close>

definition relay_upload ::
  "(db \<Rightarrow> str) \<Rightarrow> str \<Rightarrow> relay_kind \<Rightarrow> str \<Rightarrow> bytes \<Rightarrow> (db, sched_exn, unit) prog" where
  "relay_upload draw wall kind name env s = (case kind of
     LocalRelay dir \<Rightarrow> (case local_upload dir name env (relay s) of
        (Inl e, fs) \<Rightarrow> (Inl (ReleaseRaised (transport_code e)), s\<lparr>relay := fs\<rparr>)
      | (Inr _, fs) \<Rightarrow> (Inr (), s\<lparr>relay := fs\<rparr>))
   | GitRelay scope \<Rightarrow> (case git_upload draw wall scope name env s of
        (Inl e, s') \<Rightarrow> (Inl (ReleaseRaised (transport_code e)), s')
      | (Inr _, s') \<Rightarrow> (Inr (), s')))"

definition name_sent :: "str \<Rightarrow> str \<Rightarrow> str \<Rightarrow> db \<Rightarrow> db" where
  "name_sent sid name wall s = s\<lparr>sent_objects :=
     insert_or_ignore so_id \<lparr>so_id = sid, so_object = name, so_at = wall\<rparr> (sent_objects s)\<rparr>"

definition as_release_exn :: "(sched_exn \<Rightarrow> sched_exn) \<Rightarrow> str + 'a \<Rightarrow> sched_exn + 'a" where
  "as_release_exn f r = (case r of Inl e \<Rightarrow> Inl (f (ReleaseRaised e)) | Inr a \<Rightarrow> Inr a)"

definition paused_or_raised :: "str \<Rightarrow> str + unit \<Rightarrow> sched_exn + unit" where
  "paused_or_raised sid r = (case r of Inr _ \<Rightarrow> Inr ()
     | Inl e \<Rightarrow> Inl (if e = ''send_paused_acknowledged'' then SendPausedError sid else ReleaseRaised e))"

definition release_event ::
  "(db \<Rightarrow> str) \<Rightarrow> (str \<Rightarrow> str) \<Rightarrow> rat \<Rightarrow> str \<Rightarrow> str \<Rightarrow> str \<Rightarrow> bytes \<Rightarrow> (db, sched_exn, unit) prog" where
  "release_event draw pick now wall sid rid env =
     seq (query (\<lambda>s. relationship_of s rid)) (\<lambda>rel.
     if (case rel of None \<Rightarrow> True | Some r \<Rightarrow> rl_consent r = ''revoked'')
     then raise (RevokedRelationshipError sid)
     else
       seq (\<lambda>s. lift (paused_or_raised sid (may_send now s rid)) s) (\<lambda>_.
       seq (query (\<lambda>s. fetchone (\<lambda>r. so_id r = sid) (sent_objects s))) (\<lambda>seen.
       case seen of Some _ \<Rightarrow> ret ()
       | None \<Rightarrow>
         seq (\<lambda>s. lift (as_release_exn id (transport_for s rid ''send'')) s) (\<lambda>kind.
         seq (relay_upload draw wall kind (pick sid) env) (\<lambda>_.
         exec (name_sent sid (pick sid) wall))))))"

definition cli_release ::
  "(db \<Rightarrow> str) \<Rightarrow> (str \<Rightarrow> str) \<Rightarrow> rat \<Rightarrow> str \<Rightarrow> str \<Rightarrow> bytes \<Rightarrow> nat \<Rightarrow> (db, sched_exn, unit) prog" where
  "cli_release draw pick now wall sid env late =
     seq (query (\<lambda>s. event_of s sid)) (\<lambda>row.
     case row of None \<Rightarrow> ret ()
     | Some e \<Rightarrow> release_event draw pick now wall sid (ev_rel e) env)"

section \<open>It keeps the contract\<close>

definition frame :: "db \<Rightarrow> db \<Rightarrow> bool" where
  "frame s s' \<longleftrightarrow> same_setting s s' \<and> scheduler_queue s' = scheduler_queue s"

lemma frame_refl [simp]: "frame s s"
  by (simp add: frame_def)

lemma relay_upload_frame: "frame s (snd (relay_upload draw wall kind name env s))"
proof (cases kind)
  case (LocalRelay dir)
  then show ?thesis
    by (simp add: relay_upload_def frame_def same_setting_def split: prod.split sum.split)
next
  case (GitRelay scope)
  have "frame s (snd (git_upload draw wall scope name env s))"
    by (simp add: git_upload_def seq_run ret_def queue_mutation_run frame_def same_setting_def)
  then show ?thesis using GitRelay by (auto simp: relay_upload_def split: prod.splits sum.splits)
qed

lemma relay_upload_not_gated: "fst (relay_upload draw wall kind name env s) \<noteq> Inl (ReleaseGated st)"
  by (auto simp: relay_upload_def split: relay_kind.split prod.split sum.split)

lemma frame_name_sent: "frame s s' \<Longrightarrow> frame s (name_sent sid name wall s')"
  by (simp add: frame_def same_setting_def name_sent_def)

text \<open>The function in one equation.\<close>

lemma cli_release_run:
  "cli_release draw pick now wall sid env late s =
    (case event_of s sid of None \<Rightarrow> (Inr (), s)
     | Some e \<Rightarrow> let rid = ev_rel e in
        if (case relationship_of s rid of None \<Rightarrow> True | Some r \<Rightarrow> rl_consent r = ''revoked'')
        then (Inl (RevokedRelationshipError sid), s)
        else case paused_or_raised sid (may_send now s rid) of Inl x \<Rightarrow> (Inl x, s)
        | Inr _ \<Rightarrow> (case fetchone (\<lambda>r. so_id r = sid) (sent_objects s) of Some _ \<Rightarrow> (Inr (), s)
          | None \<Rightarrow> (case transport_for s rid ''send'' of Inl x \<Rightarrow> (Inl (ReleaseRaised x), s)
            | Inr kind \<Rightarrow> (case relay_upload draw wall kind (pick sid) env s of
                (Inl x, s') \<Rightarrow> (Inl x, s')
              | (Inr _, s') \<Rightarrow> (Inr (), name_sent sid (pick sid) wall s')))))"
  unfolding cli_release_def release_event_def prog_run
  by (simp add: Let_def seq_run lift_def exec_def raise_def ret_def as_release_exn_def prog_run
      split: option.split sum.split prod.split)

lemma cli_release_frame: "frame s (snd (cli_release draw pick now wall sid env late s))"
  using relay_upload_frame frame_name_sent
  by (auto simp: cli_release_run Let_def split: option.split sum.split prod.split)
    (metis snd_conv)+

lemma cli_release_not_gated: "fst (cli_release draw pick now wall sid env late s) \<noteq> Inl (ReleaseGated st)"
  using relay_upload_not_gated [of draw wall _ "pick sid" env s st]
  by (auto simp: cli_release_run Let_def paused_or_raised_def split: option.split sum.splits prod.split)
    (metis fst_conv)+

interpretation cli: release_contract "cli_release draw pick now wall" for draw pick now wall
  using cli_release_frame cli_release_not_gated by unfold_locales (auto simp: frame_def)

text \<open>The refusals of the function: the relationship of the event is missing or revoked, or sends are paused.\<close>

definition cli_gate :: "rat \<Rightarrow> db \<Rightarrow> str \<Rightarrow> release_status option" where
  "cli_gate now s sid = (case event_of s sid of None \<Rightarrow> None
   | Some e \<Rightarrow>
       if (case relationship_of s (ev_rel e) of None \<Rightarrow> True | Some r \<Rightarrow> rl_consent r = ''revoked'')
       then Some StSkippedRevoked
       else if may_send now s (ev_rel e) = Inl ''send_paused_acknowledged'' then Some StSkippedPaused else None)"

lemma relay_upload_raises: "relay_upload draw wall kind name env s = (Inl e, t) \<Longrightarrow> \<exists>x. e = ReleaseRaised x"
  by (auto simp: relay_upload_def git_upload_def prog_run seq_run queue_mutation_run ret_def
      split: relay_kind.splits prod.splits sum.splits if_splits)

lemma setting_reads:
  assumes "same_setting s s'"
  shows "event_of s' sid = event_of s sid" "relationship_of s' rid = relationship_of s rid" "may_send now s' rid = may_send now s rid"
  using assms by (simp_all add: same_setting_def event_of_def relationship_of_def may_send_def)

interpretation cli_gates: release_gates "cli_release draw pick now wall" "cli_gate now" for draw pick now wall
proof unfold_locales
  show "cli_gate now s sid = (case fst (cli_release draw pick now wall sid env late s) of
      Inl (RevokedRelationshipError _) \<Rightarrow> Some StSkippedRevoked
    | Inl (SendPausedError _) \<Rightarrow> Some StSkippedPaused | _ \<Rightarrow> None)" for s sid env late
    by (auto simp: cli_release_run cli_gate_def Let_def paused_or_raised_def dest!: relay_upload_raises
        split: option.split sum.split prod.split)
  show "same_setting s s' \<Longrightarrow> cli_gate now s' sid = cli_gate now s sid" for s s' sid
    by (cases "event_of s sid") (simp_all add: cli_gate_def setting_reads [of s s'])
qed

text \<open>When the function must succeed: the event is unknown, or its relationship is there and not
  revoked, sends are not paused, a relay is configured and the object is acceptable.\<close>

definition ready :: "(str \<Rightarrow> str) \<Rightarrow> rat \<Rightarrow> db \<Rightarrow> str \<Rightarrow> bytes \<Rightarrow> bool" where
  "ready pick now s sid env = (case event_of s sid of None \<Rightarrow> True
   | Some e \<Rightarrow> (case relationship_of s (ev_rel e) of None \<Rightarrow> False
       | Some r \<Rightarrow> rl_consent r \<noteq> ''revoked'' \<and> is_ok (may_send now s (ev_rel e)) \<and>
           is_ok (transport_for s (ev_rel e) ''send'') \<and> checked (pick sid, Some env)))"

lemma relay_upload_succeeds:
  "draws_fresh draw \<Longrightarrow> checked (name, Some env) \<Longrightarrow> fst (relay_upload draw wall kind name env s) = Inr ()"
  by (cases kind)
    (auto simp: relay_upload_def local_upload_def git_upload_def prog_run seq_run queue_mutation_run
      checked_def check_object_name_def check_object_size_def draws_fresh_def ret_def split: prod.split sum.split)

lemma ready_succeeds:
  assumes "draws_fresh draw" and "ready pick now s sid env"
  shows "fst (cli_release draw pick now wall sid env late s) = Inr ()"
  using assms(2) relay_upload_succeeds [OF assms(1)]
  by (auto simp: cli_release_run ready_def Let_def paused_or_raised_def is_ok_def
      split: option.splits sum.splits prod.split) (metis fst_conv sum.distinct(1))

lemma ready_stable: "same_setting s s' \<Longrightarrow> ready pick now s sid env \<Longrightarrow> ready pick now s' sid env"
  by (simp add: ready_def same_setting_def event_of_def relationship_of_def may_send_def
      transport_for_def relay_config_row_def cong: option.case_cong)

lemma cli_progress: "draws_fresh draw \<Longrightarrow>
  release_progress (cli_release draw pick now wall) (ready pick now)"
  using ready_succeeds ready_stable by unfold_locales

interpretation cli_fresh: release_progress "cli_release long_draw pick now wall" "ready pick now" for pick now wall
  by (rule cli_progress [OF long_draw_fresh])

section \<open>Properties\<close>


text \<open>C23. One bad row cannot hold up the others. If a scheduled row is due, its relationship can send
  and its relay takes the object, one run releases it, whatever the other rows are, in whatever
  order they come and however their releases fail; and the run returns. This needs that a row that
  carries an approval is an event of the log, for recording its death refers to that event.\<close>
theorem run_due_isolates:
  assumes "queue_ok s" and "parse_canonical_utc now = Inr t" and "draws_fresh draw"
    and "\<And>r. r \<in> set (scheduler_queue s) \<Longrightarrow> safe_strike s r"
    and "get_scheduled s x = Some c" and "sq_state c = Scheduled" and "sq_failures c < 3"
    and "due t c" and "ready pick clock s x (sq_inner c)"
  shows "case run_due now (cli_release draw pick clock wall) None wall s of (res, s') \<Rightarrow>
    is_ok res \<and> get_scheduled s' x = Some (c\<lparr>sq_state := Released\<rparr>)"
proof -
  obtain res s' where r: "run_due now (cli_release draw pick clock wall) None wall s = (res, s')"
    by (rule prod.exhaust)
  show ?thesis
    using release_progress.run_due_progress [OF cli_progress [OF assms(3)] assms(1) r assms(2) _ assms(5,6) _ assms(8,9)]
      assms(4,7) by (auto simp: r MAX_RELEASE_ATTEMPTS_def)
qed

text \<open>C25. An event leaves once. A release that fails or refuses leaves every table and the relay as
  they were; in particular nothing leaves for a revoked or unknown relationship or while sends are
  paused. After a release that succeeded, releasing the same id again, with whatever clock, names
  and bytes, adds nothing to the relay, to the queue of the git transport or to any table.\<close>
theorem release_leaves_once:
  "case cli_release draw pick clock wall sid env late s of
     (Inl e, s') \<Rightarrow> s' = s
   | (Inr _, s') \<Rightarrow> snd (cli_release draw' pick' clock' wall' sid env' late' s') = s' \<and>
       (case event_of s sid of None \<Rightarrow> s' = s
        | Some e \<Rightarrow> is_ok (may_send clock s (ev_rel e)) \<and>
            (case relationship_of s (ev_rel e) of None \<Rightarrow> False | Some r \<Rightarrow> rl_consent r \<noteq> ''revoked''))"
proof -
  have unsent: "relay_upload draw wall kind name env s = (Inl x, t) \<Longrightarrow> t = s" for kind name x t
    by (cases kind)
      (auto simp: relay_upload_def local_upload_def git_upload_def prog_run seq_run queue_mutation_run ret_def
        check_object_name_def check_object_size_def split: if_splits prod.splits sum.splits)
  have done_already: "snd (cli_release draw' pick' clock' wall' sid env' late' t) = t"
    if known: "sid \<in> so_id ` set (sent_objects t)" for t
  proof -
    obtain r where "fetchone (\<lambda>r. so_id r = sid) (sent_objects t) = Some r"
      using known fetchone_key_present [of sid so_id "sent_objects t"] by blast
    then show ?thesis by (simp add: cli_release_run Let_def split: option.split sum.split)
  qed
  have named: "sid \<in> so_id ` set (sent_objects (name_sent sid n w t))" for n w t
    by (auto simp: name_sent_def insert_or_ignore_def)
  have unknown: "event_of s sid = None \<Longrightarrow> snd (cli_release draw' pick' clock' wall' sid env' late' s) = s"
    by (simp add: cli_release_run)
  have sent: "fetchone (\<lambda>r. so_id r = sid) (sent_objects s) = Some r \<Longrightarrow> sid \<in> so_id ` set (sent_objects s)" for r
    using fetchone_Some_mem by fastforce
  show ?thesis
    using unsent done_already named unknown sent
    by (auto simp: cli_release_run [of draw pick] Let_def paused_or_raised_def is_ok_def
        split: option.splits sum.splits prod.splits)
qed

lemma sample_due: "due 63871286400 sample_sched" "parse_canonical_utc ''2025-01-01T00:00:00Z'' = Inr 63871286400"
  by (simp_all add: due_def effective_expiry_def effective_expires_at_def sample_sched_def clock_of_def clock_eval)

theorem run_due_isolates_witness:
  "get_scheduled (snd (run_due ''2025-01-01T00:00:00Z'' (cli_release long_draw id 0 ''w'') None ''w'' sample_sched_db)) ''s1'' =
     Some (sample_sched\<lparr>sq_state := Released\<rparr>)"
proof -
  have "queue_ok sample_sched_db" "get_scheduled sample_sched_db ''s1'' = Some sample_sched"
    "sq_state sample_sched = Scheduled" "sq_failures sample_sched < 3"
    "\<And>r. r \<in> set (scheduler_queue sample_sched_db) \<Longrightarrow> safe_strike sample_sched_db r"
    "ready id 0 sample_sched_db ''s1'' (sq_inner sample_sched)"
    by (simp_all add: sched_samples unique_key_def get_scheduled_def fetchone_def safe_strike_def ready_def
        event_of_def)
  from run_due_isolates [OF this(1) sample_due(2) long_draw_fresh this(5) this(2-4) sample_due(1) this(6), of "''w''"]
  show ?thesis by (simp split: prod.splits)
qed

text \<open>Two due rows, the second of an event whose relationship is not there.\<close>

definition sample_blocked_db :: db where
  "sample_blocked_db = empty_db\<lparr>scheduler_queue := [sample_sched, sample_sched\<lparr>sq_id := ''s2''\<rparr>],
     events := [\<lparr>ev_id = ''s2'', ev_rel = ''x'', ev_conv = ''c'', ev_thread = None, ev_sender = ''me'', ev_seq = 1,
       ev_created = ''2025-01-01T00:00:00Z'', ev_epoch = 1, ev_type = ''message.created'', ev_nonce = ''n'', ev_sealed = []\<rparr>]\<rparr>"

end
