(* ===== verification/Projections.thy ===== *)
theory Projections
  imports Clock Store
begin

text \<open>
  The conversation projections (\<open>store/projections.py\<close>), first part: the event a handler sees,
  the helpers, one handler per event type and the dispatch. Each is a program over the database: it
  returns its list of mutations or raises, and what it wrote before raising stays (the callers
  choose transactions). \<open>now\<close> is the receiver's acceptance time handed to the handlers and
  \<open>wall\<close> the text of \<open>utcnow\<close>.

  \<^item> The payload of an event is the variant its type names, which \<open>record_projection_input\<close>
    checked; a handler given another variant raises \<open>KeyError\<close>.
  \<^item> An INSERT that violates a key, a foreign key, a NOT NULL or a CHECK raises \<open>ProjIntegrity\<close>: the refusals
    of SQLite that the handlers do not forestall are the branches of \<open>ensure_thread\<close> (foreign key),
    \<open>insert_message\<close> (the format), \<open>insert_revision\<close> (the primary key) and \<open>insert_key_event\<close> (the epoch and
    the action). The other INSERTs come after the handler's own check of the key.
  \<^item> Times are canonical texts. On them \<open>strptime\<close> is \<open>parse_canonical_utc\<close>.
  \<^item> A query for one row without an order takes the oldest row that matches.
\<close>

datatype proj_exn = ProjectionError str | ProjKeyError | ProjTypeError | ProjIntegrity | ProjClock clock_error

record mutation =
  mt_op :: str
  mt_table :: "str option"
  mt_key :: "str option"
  mt_info :: "(str \<times> json) list"

definition mut :: "str \<Rightarrow> str \<Rightarrow> str \<Rightarrow> (str \<times> json) list \<Rightarrow> mutation" where
  "mut op table key info = \<lparr>mt_op = op, mt_table = Some table, mt_key = Some key, mt_info = info\<rparr>"

record proj_event =
  pe_id :: str
  pe_rel :: str
  pe_conv :: str
  pe_thread :: "str option"
  pe_sender :: str
  pe_seq :: nat
  pe_created :: str
  pe_epoch :: "nat option"
  pe_type :: str
  pe_payload :: payload
  pe_reply_to :: "str option"
  pe_received :: "str option"

type_synonym 'a proj = "(db, proj_exn, 'a) prog"

definition PENDING_TARGET_TTL_SECONDS :: int where
  "PENDING_TARGET_TTL_SECONDS = 7 * 24 * 60 * 60"

definition NO_PROJECTION_TYPES :: "str list" where
  "NO_PROJECTION_TYPES = [''relationship.ready'', ''migration.ready'', ''migration.commit'', ''identity.rotated'']"

definition PAYLOAD_TYPES :: "str list" where
  "PAYLOAD_TYPES = [''message.created'', ''message.edited'', ''message.retracted'', ''reaction.added'',
     ''reaction.removed'', ''receipt.accepted'', ''receipt.seen'', ''poll.created'', ''poll.responded'',
     ''task.created'', ''task.updated'', ''human.requested'', ''human.responded'', ''identity.rotated'',
     ''delivery.scheduled'', ''delivery.canceled'', ''security.key.prepare'', ''security.key.ack'',
     ''security.key.confirm'', ''security.key.commit'', ''relationship.ready'', ''migration.ready'',
     ''migration.commit'']"

definition noop :: "str \<Rightarrow> str \<Rightarrow> str \<Rightarrow> mutation" where
  "noop table key reason = mut ''noop'' table key [(''reason'', JStr reason)]"

definition falsy :: "str option \<Rightarrow> bool" where
  "falsy t = (case t of None \<Rightarrow> True | Some x \<Rightarrow> x = [])"

section \<open>Helpers\<close>

definition target_event :: "db \<Rightarrow> str \<Rightarrow> str \<Rightarrow> event_row option" where
  "target_event s rid tid = fetchone (\<lambda>e. ev_rel e = rid \<and> ev_id e = tid) (events s)"

text \<open>\<open>_target_status\<close>: a missing target is \<open>False\<close>, an accepted one of the right type \<open>True\<close>.\<close>

definition target_status :: "proj_event \<Rightarrow> str \<Rightarrow> str \<Rightarrow> str \<Rightarrow> bool proj" where
  "target_status ev tid expected code =
     seq (query (\<lambda>s. target_event s (pe_rel ev) tid)) (\<lambda>t.
     case t of None \<Rightarrow> ret False
     | Some e \<Rightarrow> if ev_type e \<noteq> expected then raise (ProjectionError code) else ret True)"

definition check_reply_scope :: "proj_event \<Rightarrow> event_row \<Rightarrow> unit proj" where
  "check_reply_scope ev target =
     (if ev_conv target \<noteq> pe_conv ev \<or> ev_thread target \<noteq> pe_thread ev
      then raise (ProjectionError ''reply_target_scope'') else ret ())"

definition pending_state :: "str \<Rightarrow> str \<Rightarrow> clock_error + str" where
  "pending_state created now = (case parse_canonical_utc created of Inl e \<Rightarrow> Inl e | Inr c \<Rightarrow>
     (case parse_canonical_utc now of Inl e \<Rightarrow> Inl e | Inr n \<Rightarrow>
       Inr (if n - c \<ge> PENDING_TARGET_TTL_SECONDS then ''unavailable'' else ''pending'')))"

definition add_ref :: "proj_event \<Rightarrow> str \<Rightarrow> str \<Rightarrow> db \<Rightarrow> db" where
  "add_ref ev tid kind = pending_refs_update (insert_or_ignore pn_event
     \<lparr>pn_event = pe_id ev, pn_rel = pe_rel ev, pn_target = tid, pn_kind = kind,
      pn_created = pe_created ev, pn_state = ''pending''\<rparr>)"

definition add_pending :: "proj_event \<Rightarrow> str \<Rightarrow> str \<Rightarrow> mutation proj" where
  "add_pending ev tid kind =
     seq (exec (add_ref ev tid kind)) (\<lambda>_.
     ret (mut ''pending'' ''pending_refs'' (pe_id ev) [(''target'', JStr tid), (''kind'', JStr kind)]))"

text \<open>The two inserts of \<open>_ensure_thread\<close> and its root update.\<close>

definition register_thread :: "str \<Rightarrow> str \<Rightarrow> db \<Rightarrow> db" where
  "register_thread tid conv s = s\<lparr>
     threads := insert_or_ignore th_id \<lparr>th_id = tid, th_conv = conv\<rparr> (threads s),
     thread_state := insert_or_ignore ts_id
       \<lparr>ts_id = tid, ts_conv = conv, ts_root = None, ts_count = 0, ts_last = None\<rparr> (thread_state s)\<rparr>"

definition rootless :: "str \<Rightarrow> thread_state_row \<Rightarrow> bool" where
  "rootless tid r \<longleftrightarrow> ts_id r = tid \<and> ts_root r = None"

definition set_root :: "str \<Rightarrow> db \<Rightarrow> db" where
  "set_root tid = thread_state_update (update_where (rootless tid) (\<lambda>r. r\<lparr>ts_root := Some tid\<rparr>))"

definition ensure_thread :: "proj_event \<Rightarrow> mutation list proj" where
  "ensure_thread ev =
     (if falsy (pe_thread ev) then ret []
      else let tid = the (pe_thread ev) in
        seq (query (\<lambda>s. fetchone (\<lambda>t. th_id t = tid) (threads s))) (\<lambda>existing.
        if (case existing of None \<Rightarrow> False | Some t \<Rightarrow> th_conv t \<noteq> pe_conv ev)
        then raise (ProjectionError ''thread_scope_mismatch'')
        else seq (query (\<lambda>s. existing = None \<and> pe_conv ev \<notin> set (conversations s))) (\<lambda>orphan.
        if orphan then raise ProjIntegrity
        else seq (exec (register_thread tid (pe_conv ev))) (\<lambda>_.
        if tid \<noteq> pe_id ev then ret []
        else seq (query (\<lambda>s. rowcount (rootless tid) (thread_state s))) (\<lambda>n.
          seq (exec (set_root tid)) (\<lambda>_.
          ret (if n = 0 then [] else
            [mut ''update'' ''thread_state'' tid [(''root_event_id'', JStr (pe_id ev))]])))))))"

definition bump_thread_message :: "str option \<Rightarrow> str \<Rightarrow> db \<Rightarrow> db" where
  "bump_thread_message thread created s =
     (if falsy thread then s
      else s\<lparr>thread_state := update_where (\<lambda>r. ts_id r = the thread)
        (\<lambda>r. r\<lparr>ts_count := ts_count r + 1,
               ts_last := (case ts_last r of None \<Rightarrow> Some created
                 | Some l \<Rightarrow> if l < created then Some created else Some l)\<rparr>) (thread_state s)\<rparr>)"

definition add_quarantine :: "str \<Rightarrow> str \<Rightarrow> str \<Rightarrow> nat \<Rightarrow> str \<Rightarrow> str \<Rightarrow> db \<Rightarrow> db" where
  "add_quarantine wall rid sender seq_no eid reason =
     quarantine_update (insert_or_ignore (\<lambda>q. (qr_rel q, qr_sender q, qr_seq q, qr_event q))
       \<lparr>qr_rel = rid, qr_sender = sender, qr_seq = seq_no, qr_event = eid, qr_reason = reason, qr_at = wall\<rparr>)"

definition quarantine_event ::
  "str \<Rightarrow> str \<Rightarrow> str \<Rightarrow> nat \<Rightarrow> str \<Rightarrow> str \<Rightarrow> mutation proj" where
  "quarantine_event wall rid sender seq_no eid reason =
     seq (exec (add_quarantine wall rid sender seq_no eid reason))
     (\<lambda>_. ret (mut ''quarantine'' ''quarantine'' eid [(''reason'', JStr reason)]))"

section \<open>Messages\<close>

definition new_message :: "proj_event \<Rightarrow> str \<Rightarrow> str \<Rightarrow> str \<Rightarrow> message_row" where
  "new_message ev body fmt reply_state =
     \<lparr>ms_id = pe_id ev, ms_rel = pe_rel ev, ms_conv = pe_conv ev, ms_thread = pe_thread ev,
      ms_sender = pe_sender ev, ms_seq = pe_seq ev, ms_created = pe_created ev, ms_body = body,
      ms_format = fmt, ms_reply_to = pe_reply_to ev, ms_reply_state = reply_state, ms_edited = False,
      ms_current = body, ms_retracted = False, ms_retraction = None, ms_retracted_at = None, ms_reason = None\<rparr>"

text \<open>INSERT INTO \<open>message_revisions\<close>: the primary key of the table refuses a number the message has already.\<close>

definition insert_revision :: "revision_row \<Rightarrow> unit proj" where
  "insert_revision r =
     seq (query (\<lambda>s. (rv_event r, rv_no r) \<in> set (map (\<lambda>q. (rv_event q, rv_no q)) (message_revisions s)))) (\<lambda>clash.
     if clash then raise ProjIntegrity
     else exec (message_revisions_update (\<lambda>t. t @ [r])))"

text \<open>The INSERT of the message and of its revision 0; the CHECK of \<open>messages.format\<close> refuses other formats.\<close>

definition MESSAGE_FORMATS :: "str list" where "MESSAGE_FORMATS = [''plain'', ''markdown-safe'']"

definition add_message :: "proj_event \<Rightarrow> str \<Rightarrow> str \<Rightarrow> str \<Rightarrow> unit proj" where
  "add_message ev body fmt reply_state =
     seq (exec (messages_update (\<lambda>t. t @ [new_message ev body fmt reply_state]))) (\<lambda>_.
     insert_revision \<lparr>rv_event = pe_id ev, rv_no = 0, rv_body = body, rv_at = pe_created ev,
       rv_edit = None, rv_reason = None\<rparr>)"

definition insert_message :: "proj_event \<Rightarrow> str \<Rightarrow> str \<Rightarrow> str \<Rightarrow> unit proj" where
  "insert_message ev body fmt reply_state =
     (if fmt \<in> set MESSAGE_FORMATS then add_message ev body fmt reply_state else raise ProjIntegrity)"

definition reply_context :: "proj_event \<Rightarrow> str \<Rightarrow> (str \<times> mutation list) proj" where
  "reply_context ev now =
     (if falsy (pe_reply_to ev) then ret (''ok'', [])
      else let target = the (pe_reply_to ev) in
        seq (query (\<lambda>s. target_event s (pe_rel ev) target)) (\<lambda>t.
        case t of
          None \<Rightarrow> (case pending_state (pe_created ev) now of
              Inl e \<Rightarrow> raise (ProjClock e)
            | Inr st \<Rightarrow> seq (add_pending ev target ''reply'') (\<lambda>m. ret (st, [m])))
        | Some e \<Rightarrow> seq (check_reply_scope ev e) (\<lambda>_. ret (''ok'', []))))"

definition add_attachment :: "proj_event \<Rightarrow> attachment \<Rightarrow> str \<Rightarrow> db \<Rightarrow> db" where
  "add_attachment ev a now = attachments_update (insert_or_ignore ar_event
     \<lparr>ar_event = pe_id ev, ar_rel = pe_rel ev, ar_file = a, ar_stored = None, ar_received = now\<rparr>)"

definition record_attachment :: "proj_event \<Rightarrow> attachment option \<Rightarrow> str \<Rightarrow> mutation list proj" where
  "record_attachment ev att now = (case att of None \<Rightarrow> ret []
     | Some a \<Rightarrow> seq (exec (add_attachment ev a now))
         (\<lambda>_. ret [mut ''insert'' ''attachments'' (pe_id ev) [(''filename'', JStr (at_filename a))]]))"

definition handle_message_created :: "proj_event \<Rightarrow> str \<Rightarrow> mutation list proj" where
  "handle_message_created ev now =
     seq (ensure_thread ev) (\<lambda>m1.
     seq (query (\<lambda>s. pe_id ev \<in> ms_id ` set (messages s))) (\<lambda>known.
     if known then ret (m1 @ [noop ''messages'' (pe_id ev) ''already_projected''])
     else seq (reply_context ev now) (\<lambda>(reply_state, m2).
     case pe_payload ev of PMessageCreated body fmt att \<Rightarrow>
       seq (insert_message ev body fmt reply_state) (\<lambda>_.
       seq (record_attachment ev att now) (\<lambda>m3.
       seq (exec (bump_thread_message (pe_thread ev) (pe_created ev))) (\<lambda>_.
       ret (m1 @ m2 @ m3 @ [mut ''insert'' ''messages'' (pe_id ev) [(''reply_state'', JStr reply_state)]]))))
     | _ \<Rightarrow> raise ProjKeyError)))"

definition original_message :: "db \<Rightarrow> str \<Rightarrow> message_row option" where
  "original_message s tid = fetchone (\<lambda>m. ms_id m = tid) (messages s)"

definition last_revision :: "db \<Rightarrow> str \<Rightarrow> nat" where
  "last_revision s tid = foldr max (map rv_no (select (\<lambda>r. rv_event r = tid) (message_revisions s))) 0"

text \<open>Without a revision \<open>MAX(revision_no)\<close> is NULL and \<open>int(None)\<close> raises.\<close>

definition has_revision :: "db \<Rightarrow> str \<Rightarrow> bool" where
  "has_revision s tid \<longleftrightarrow> tid \<in> rv_event ` set (message_revisions s)"

definition write_edit :: "proj_event \<Rightarrow> str \<Rightarrow> str \<Rightarrow> str option \<Rightarrow> nat \<Rightarrow> unit proj" where
  "write_edit ev tid body reason no =
     seq (insert_revision \<lparr>rv_event = tid, rv_no = no, rv_body = body, rv_at = pe_created ev,
            rv_edit = Some (pe_id ev), rv_reason = reason\<rparr>) (\<lambda>_.
     exec (messages_update (update_where (\<lambda>m. ms_id m = tid)
            (\<lambda>m. m\<lparr>ms_edited := True, ms_current := body\<rparr>))))"

definition handle_message_edited :: "proj_event \<Rightarrow> mutation list proj" where
  "handle_message_edited ev =
     (case pe_payload ev of PMessageEdited tid body reason \<Rightarrow>
        seq (query (\<lambda>s. fetchone (\<lambda>r. rv_event r = tid \<and> rv_edit r = Some (pe_id ev)) (message_revisions s))) (\<lambda>done_before.
        if done_before \<noteq> None then ret [noop ''message_revisions'' tid ''already_projected'']
        else seq (query (\<lambda>s. original_message s tid)) (\<lambda>original.
        case original of
          None \<Rightarrow> seq (target_status ev tid ''message.created'' ''edit_target_not_message'') (\<lambda>_.
                  seq (add_pending ev tid ''edit'') (\<lambda>m. ret [m]))
        | Some m \<Rightarrow>
            if ms_sender m \<noteq> pe_sender ev then raise (ProjectionError ''edit_not_sender'')
            else if ms_retracted m then raise (ProjectionError ''edit_after_retract'')
            else seq (query (\<lambda>s. has_revision s tid)) (\<lambda>revised.
              if \<not> revised then raise ProjTypeError
              else seq (query (\<lambda>s. last_revision s tid + 1)) (\<lambda>no.
              seq (write_edit ev tid body reason no) (\<lambda>_.
              ret [mut ''insert'' ''message_revisions'' (tid @ ''#'' @ nat_text no)
                     [(''edit_event_id'', JStr (pe_id ev))]])))))
      | _ \<Rightarrow> raise ProjKeyError)"

definition tombstone :: "proj_event \<Rightarrow> str \<Rightarrow> str option \<Rightarrow> db \<Rightarrow> db" where
  "tombstone ev tid reason = messages_update (update_where (\<lambda>m. ms_id m = tid)
     (\<lambda>m. m\<lparr>ms_retracted := True, ms_retraction := Some (pe_id ev),
            ms_retracted_at := Some (pe_created ev), ms_reason := reason\<rparr>))"

definition handle_message_retracted :: "proj_event \<Rightarrow> mutation list proj" where
  "handle_message_retracted ev =
     (case pe_payload ev of PMessageRetracted tid reason \<Rightarrow>
        seq (query (\<lambda>s. original_message s tid)) (\<lambda>original.
        case original of
          None \<Rightarrow> seq (target_status ev tid ''message.created'' ''retract_target_not_message'') (\<lambda>_.
                  seq (add_pending ev tid ''retract'') (\<lambda>m. ret [m]))
        | Some m \<Rightarrow>
            if ms_sender m \<noteq> pe_sender ev then raise (ProjectionError ''retract_not_sender'')
            else if ms_retracted m then ret [noop ''messages'' tid ''already_retracted'']
            else seq (exec (tombstone ev tid reason)) (\<lambda>_.
              ret [mut ''update'' ''messages'' tid
                     [(''retracted'', JBool True), (''tombstone_event_id'', JStr (pe_id ev))]]))
      | _ \<Rightarrow> raise ProjKeyError)"

section \<open>Reactions and receipts\<close>

definition reaction_of :: "db \<Rightarrow> str \<Rightarrow> str \<Rightarrow> str \<Rightarrow> reaction_row option" where
  "reaction_of s tid sender emoji =
     fetchone (\<lambda>r. rc_target r = tid \<and> rc_sender r = sender \<and> rc_emoji r = emoji) (reactions s)"

definition active_reactions :: "db \<Rightarrow> str \<Rightarrow> str \<Rightarrow> nat" where
  "active_reactions s tid sender =
     rowcount (\<lambda>r. rc_target r = tid \<and> rc_sender r = sender \<and> rc_active r) (reactions s)"

definition reaction_key :: "reaction_row \<Rightarrow> str \<times> str \<times> str" where
  "reaction_key r = (rc_target r, rc_sender r, rc_emoji r)"

definition add_reaction :: "proj_event \<Rightarrow> str \<Rightarrow> str \<Rightarrow> db \<Rightarrow> db" where
  "add_reaction ev tid emoji = reactions_update (upsert reaction_key
     \<lparr>rc_target = tid, rc_sender = pe_sender ev, rc_emoji = emoji, rc_active = True,
      rc_added = pe_id ev, rc_added_at = pe_created ev, rc_removed = None, rc_removed_at = None\<rparr>
     (\<lambda>r. r\<lparr>rc_active := True, rc_added := pe_id ev, rc_added_at := pe_created ev,
            rc_removed := None, rc_removed_at := None\<rparr>))"

definition reaction_name :: "proj_event \<Rightarrow> str \<Rightarrow> str \<Rightarrow> str" where
  "reaction_name ev tid emoji = tid @ '':'' @ pe_sender ev @ '':'' @ emoji"

definition handle_reaction_added :: "proj_event \<Rightarrow> mutation list proj" where
  "handle_reaction_added ev =
     (case pe_payload ev of PReaction tid emoji \<Rightarrow>
        seq (query (\<lambda>s. target_event s (pe_rel ev) tid)) (\<lambda>t.
        if t = None then seq (add_pending ev tid ''reaction_add'') (\<lambda>m. ret [m])
        else seq (query (\<lambda>s. reaction_of s tid (pe_sender ev) emoji)) (\<lambda>row.
        if (case row of None \<Rightarrow> False | Some r \<Rightarrow> rc_active r \<and> rc_added r = pe_id ev)
        then ret [noop ''reactions'' tid ''already_projected'']
        else seq (query (\<lambda>s. active_reactions s tid (pe_sender ev))) (\<lambda>active.
        if (case row of None \<Rightarrow> True | Some r \<Rightarrow> \<not> rc_active r) \<and>
           active \<ge> MAX_ACTIVE_REACTIONS_PER_SENDER_TARGET
        then raise (ProjectionError ''reaction_cap_exceeded'')
        else seq (exec (add_reaction ev tid emoji)) (\<lambda>_.
          ret [mut ''insert'' ''reactions'' (reaction_name ev tid emoji) [(''active'', JBool True)]]))))
      | _ \<Rightarrow> raise ProjKeyError)"

definition remove_reaction :: "proj_event \<Rightarrow> str \<Rightarrow> str \<Rightarrow> db \<Rightarrow> db" where
  "remove_reaction ev tid emoji = reactions_update
     (update_where (\<lambda>r. rc_target r = tid \<and> rc_sender r = pe_sender ev \<and> rc_emoji r = emoji)
       (\<lambda>r. r\<lparr>rc_active := False, rc_removed := Some (pe_id ev), rc_removed_at := Some (pe_created ev)\<rparr>))"

definition handle_reaction_removed :: "proj_event \<Rightarrow> mutation list proj" where
  "handle_reaction_removed ev =
     (case pe_payload ev of PReaction tid emoji \<Rightarrow>
        seq (query (\<lambda>s. target_event s (pe_rel ev) tid)) (\<lambda>t.
        if t = None then seq (add_pending ev tid ''reaction_remove'') (\<lambda>m. ret [m])
        else seq (query (\<lambda>s. reaction_of s tid (pe_sender ev) emoji)) (\<lambda>row.
        case row of None \<Rightarrow> ret [noop ''reactions'' tid ''no_active_reaction'']
        | Some r \<Rightarrow>
            if \<not> rc_active r then ret [noop ''reactions'' tid ''no_active_reaction'']
            else if rc_removed r = Some (pe_id ev) then ret [noop ''reactions'' tid ''already_projected'']
            else seq (exec (remove_reaction ev tid emoji)) (\<lambda>_.
              ret [mut ''update'' ''reactions'' (reaction_name ev tid emoji) [(''active'', JBool False)]])))
      | _ \<Rightarrow> raise ProjKeyError)"

definition receipt_key :: "receipt_row \<Rightarrow> str \<times> str \<times> str" where
  "receipt_key r = (rp_target r, rp_kind r, rp_sender r)"

definition set_receipt :: "proj_event \<Rightarrow> str \<Rightarrow> str \<Rightarrow> str \<Rightarrow> db \<Rightarrow> db" where
  "set_receipt ev kind tid moment = receipts_update (upsert receipt_key
     \<lparr>rp_target = tid, rp_kind = kind, rp_sender = pe_sender ev, rp_at = moment, rp_event = pe_id ev\<rparr>
     (\<lambda>r. r\<lparr>rp_at := moment, rp_event := pe_id ev\<rparr>))"

definition put_receipt :: "proj_event \<Rightarrow> str \<Rightarrow> str \<Rightarrow> str \<Rightarrow> mutation list proj" where
  "put_receipt ev kind tid moment =
     seq (query (\<lambda>s. target_event s (pe_rel ev) tid)) (\<lambda>t.
     if t = None then seq (add_pending ev tid ''receipt'') (\<lambda>m. ret [m])
     else seq (query (\<lambda>s. fetchone (\<lambda>r. receipt_key r = (tid, kind, pe_sender ev)) (receipts s))) (\<lambda>row.
     if (case row of None \<Rightarrow> False | Some r \<Rightarrow> rp_event r = pe_id ev)
     then ret [noop ''receipts'' tid ''already_projected'']
     else seq (exec (set_receipt ev kind tid moment)) (\<lambda>_.
       ret [mut ''insert'' ''receipts'' (tid @ '':'' @ kind @ '':'' @ pe_sender ev) [(''kind'', JStr kind)]])))"

definition handle_receipt :: "proj_event \<Rightarrow> str \<Rightarrow> mutation list proj" where
  "handle_receipt ev kind =
     (case pe_payload ev of
        PReceiptAccepted tid moment \<Rightarrow> if kind = ''accepted'' then put_receipt ev kind tid moment else raise ProjKeyError
      | PReceiptSeen tid moment \<Rightarrow> if kind \<noteq> ''accepted'' then put_receipt ev kind tid moment else raise ProjKeyError
      | _ \<Rightarrow> raise ProjKeyError)"

section \<open>Polls\<close>

definition add_poll :: "proj_event \<Rightarrow> str \<Rightarrow> str list \<Rightarrow> str \<Rightarrow> bool \<Rightarrow> db \<Rightarrow> db" where
  "add_poll ev question choices closes multi = polls_update (\<lambda>t. t @
     [\<lparr>po_id = pe_id ev, po_rel = pe_rel ev, po_conv = pe_conv ev, po_thread = pe_thread ev,
       po_sender = pe_sender ev, po_created = pe_created ev, po_question = question,
       po_choices = choices, po_closes = closes, po_multi = multi, po_count = 0\<rparr>])"

definition handle_poll_created :: "proj_event \<Rightarrow> mutation list proj" where
  "handle_poll_created ev =
     seq (ensure_thread ev) (\<lambda>m1.
     seq (query (\<lambda>s. pe_id ev \<in> po_id ` set (polls s))) (\<lambda>known.
     if known then ret (m1 @ [noop ''polls'' (pe_id ev) ''already_projected''])
     else case pe_payload ev of PPollCreated question choices closes multi \<Rightarrow>
       if closes \<le> pe_created ev then raise (ProjectionError ''poll_bad_closes_at'')
       else seq (exec (add_poll ev question choices closes multi)) (\<lambda>_.
         ret (m1 @ [mut ''insert'' ''polls'' (pe_id ev) []]))
     | _ \<Rightarrow> raise ProjKeyError))"

text \<open>The checks of a response against the poll, in the source's order.\<close>

definition response_check :: "poll_row \<Rightarrow> str list \<Rightarrow> str \<Rightarrow> proj_exn + unit" where
  "response_check p choices now =
     (if choices = [] then Inl (ProjectionError ''poll_no_choice'')
      else if \<not> distinct choices then Inl (ProjectionError ''poll_duplicate_choice'')
      else if \<not> list_all (\<lambda>c. c \<in> set (po_choices p)) choices then Inl (ProjectionError ''poll_unknown_choice'')
      else if \<not> po_multi p \<and> length choices \<noteq> 1 then Inl (ProjectionError ''poll_multi_choice_single_select'')
      else if po_closes p \<le> now then Inl (ProjectionError ''poll_closed'')
      else Inr ())"

definition response_key :: "poll_response_row \<Rightarrow> str \<times> str" where
  "response_key r = (pr_poll r, pr_sender r)"

definition store_response :: "proj_event \<Rightarrow> str \<Rightarrow> str list \<Rightarrow> bool \<Rightarrow> str option \<Rightarrow> str \<Rightarrow> db \<Rightarrow> db" where
  "store_response ev poll choices confirmed approval now = poll_responses_update (upsert response_key
     \<lparr>pr_poll = poll, pr_sender = pe_sender ev, pr_choices = choices, pr_confirmed = confirmed,
      pr_approval = approval, pr_event = pe_id ev, pr_at = now\<rparr>
     (\<lambda>r. r\<lparr>pr_choices := choices, pr_confirmed := confirmed, pr_approval := approval,
            pr_event := pe_id ev, pr_at := now\<rparr>))"

definition recount :: "str \<Rightarrow> db \<Rightarrow> db" where
  "recount poll s = s\<lparr>polls := update_where (\<lambda>p. po_id p = poll)
     (\<lambda>p. p\<lparr>po_count := rowcount (\<lambda>r. pr_poll r = poll) (poll_responses s)\<rparr>) (polls s)\<rparr>"

definition handle_poll_responded :: "proj_event \<Rightarrow> str \<Rightarrow> mutation list proj" where
  "handle_poll_responded ev now =
     (case pe_payload ev of PPollResponded poll choices confirmed approval \<Rightarrow>
        seq (query (\<lambda>s. fetchone (\<lambda>p. po_id p = poll) (polls s))) (\<lambda>row.
        case row of
          None \<Rightarrow> seq (target_status ev poll ''poll.created'' ''poll_response_target_not_poll'') (\<lambda>_.
                  seq (add_pending ev poll ''poll_response'') (\<lambda>m. ret [m]))
        | Some p \<Rightarrow>
            seq (lift (response_check p choices now)) (\<lambda>_.
            seq (exec (store_response ev poll choices confirmed approval now)) (\<lambda>_.
            seq (exec (recount poll)) (\<lambda>_.
            ret [mut ''insert'' ''poll_responses'' (poll @ '':'' @ pe_sender ev) []]))))
      | _ \<Rightarrow> raise ProjKeyError)"

section \<open>Tasks\<close>

definition TASK_TERMINAL :: "str list" where
  "TASK_TERMINAL = [''done'', ''canceled'']"

definition TASK_STATUSES :: "str list" where
  "TASK_STATUSES = [''open'', ''in_progress'', ''blocked'', ''done'', ''canceled'']"

definition add_task :: "proj_event \<Rightarrow> str \<Rightarrow> str \<Rightarrow> str option \<Rightarrow> db \<Rightarrow> db" where
  "add_task ev title task_owner due_at = tasks_update (\<lambda>t. t @
     [\<lparr>tk_id = pe_id ev, tk_rel = pe_rel ev, tk_conv = pe_conv ev, tk_thread = pe_thread ev,
       tk_sender = pe_sender ev, tk_created = pe_created ev, tk_title = title, tk_owner = task_owner,
       tk_due = due_at, tk_status = ''open'', tk_status_event = None, tk_status_at = None, tk_note = None\<rparr>])"

definition set_task_status :: "proj_event \<Rightarrow> str \<Rightarrow> str \<Rightarrow> str option \<Rightarrow> db \<Rightarrow> db" where
  "set_task_status ev task status nt = tasks_update (update_where (\<lambda>t. tk_id t = task)
     (\<lambda>t. t\<lparr>tk_status := status, tk_status_event := Some (pe_id ev),
            tk_status_at := Some (pe_created ev), tk_note := nt\<rparr>))"

definition handle_task_created :: "proj_event \<Rightarrow> mutation list proj" where
  "handle_task_created ev =
     seq (ensure_thread ev) (\<lambda>m1.
     seq (query (\<lambda>s. pe_id ev \<in> tk_id ` set (tasks s))) (\<lambda>known.
     if known then ret (m1 @ [noop ''tasks'' (pe_id ev) ''already_projected''])
     else case pe_payload ev of PTaskCreated title task_owner due_at \<Rightarrow>
       seq (exec (add_task ev title task_owner due_at)) (\<lambda>_.
       ret (m1 @ [mut ''insert'' ''tasks'' (pe_id ev) [(''status'', JStr ''open'')]]))
     | _ \<Rightarrow> raise ProjKeyError))"

definition handle_task_updated :: "proj_event \<Rightarrow> mutation list proj" where
  "handle_task_updated ev =
     (case pe_payload ev of PTaskUpdated task status nt \<Rightarrow>
        seq (query (\<lambda>s. fetchone (\<lambda>t. tk_id t = task) (tasks s))) (\<lambda>row.
        case row of
          None \<Rightarrow> seq (target_status ev task ''task.created'' ''task_update_target_not_task'') (\<lambda>_.
                  seq (add_pending ev task ''task_update'') (\<lambda>m. ret [m]))
        | Some t \<Rightarrow>
            if pe_sender ev \<notin> {tk_owner t, tk_sender t} then raise (ProjectionError ''task_not_authorized'')
            else if tk_status t \<in> set TASK_TERMINAL then raise (ProjectionError ''task_transition_terminal'')
            else if status \<notin> set TASK_STATUSES then raise (ProjectionError ''task_bad_status'')
            else seq (exec (set_task_status ev task status nt)) (\<lambda>_.
              ret [mut ''update'' ''tasks'' task [(''status'', JStr status)]]))
      | _ \<Rightarrow> raise ProjKeyError)"

section \<open>Human requests\<close>

definition add_request :: "proj_event \<Rightarrow> str \<Rightarrow> str \<Rightarrow> str \<Rightarrow> db \<Rightarrow> db" where
  "add_request ev prompt shape expires = human_requests_update (\<lambda>t. t @
     [\<lparr>hr_id = pe_id ev, hr_rel = pe_rel ev, hr_conv = pe_conv ev, hr_thread = pe_thread ev,
       hr_sender = pe_sender ev, hr_created = pe_created ev, hr_prompt = prompt, hr_shape = shape,
       hr_expires = expires, hr_state = ''open'', hr_answer = None, hr_approved = None,
       hr_responded_at = None, hr_response = None, hr_approval = None, hr_attestation = ''peer''\<rparr>])"

definition answer_request :: "proj_event \<Rightarrow> str \<Rightarrow> str \<Rightarrow> bool \<Rightarrow> str \<Rightarrow> str \<Rightarrow> db \<Rightarrow> db" where
  "answer_request ev req answer approved approval att = human_requests_update (update_where (\<lambda>r. hr_id r = req)
     (\<lambda>r. r\<lparr>hr_state := ''responded'', hr_answer := Some answer, hr_approved := Some approved,
            hr_responded_at := Some (pe_created ev), hr_response := Some (pe_id ev),
            hr_approval := Some approval, hr_attestation := att\<rparr>))"

definition handle_human_requested :: "proj_event \<Rightarrow> mutation list proj" where
  "handle_human_requested ev =
     seq (ensure_thread ev) (\<lambda>m1.
     seq (query (\<lambda>s. pe_id ev \<in> hr_id ` set (human_requests s))) (\<lambda>known.
     if known then ret (m1 @ [noop ''human_requests'' (pe_id ev) ''already_projected''])
     else case pe_payload ev of PHumanRequested prompt shape expires \<Rightarrow>
       seq (exec (add_request ev prompt shape expires)) (\<lambda>_.
       ret (m1 @ [mut ''insert'' ''human_requests'' (pe_id ev) [(''state'', JStr ''open'')]]))
     | _ \<Rightarrow> raise ProjKeyError))"

definition human_response_attestation :: "db \<Rightarrow> proj_event \<Rightarrow> str \<Rightarrow> str" where
  "human_response_attestation s ev approval =
     (if (case relationship_of s (pe_rel ev) of None \<Rightarrow> False | Some r \<Rightarrow> pe_sender ev = rl_peer r) then ''peer''
      else if approval \<in> ap_id ` set (human_approvals s) then ''local'' else ''peer'')"

definition handle_human_responded :: "proj_event \<Rightarrow> mutation list proj" where
  "handle_human_responded ev =
     (case pe_payload ev of PHumanResponded req answer approved approval \<Rightarrow>
        seq (query (\<lambda>s. req \<in> hr_id ` set (human_requests s))) (\<lambda>known.
        if \<not> known then seq (target_status ev req ''human.requested'' ''human_response_target_not_request'') (\<lambda>_.
                  seq (add_pending ev req ''human_response'') (\<lambda>m. ret [m]))
        else seq (query (\<lambda>s. human_response_attestation s ev approval)) (\<lambda>att.
        seq (exec (answer_request ev req answer approved approval att)) (\<lambda>_.
        ret [mut ''update'' ''human_requests'' req [(''state'', JStr ''responded'')]])))
      | _ \<Rightarrow> raise ProjKeyError)"

section \<open>Deliveries and key events\<close>

definition announcement :: "delivery_row \<Rightarrow> str \<times> str \<times> str" where
  "announcement d = (dl_rel d, dl_sender d, dl_inner d)"

definition add_delivery :: "proj_event \<Rightarrow> str \<Rightarrow> str \<Rightarrow> nat option \<Rightarrow> db \<Rightarrow> db" where
  "add_delivery ev inner deliver late = deliveries_update (\<lambda>t. t @
     [\<lparr>dl_id = pe_id ev, dl_rel = pe_rel ev, dl_sender = pe_sender ev, dl_created = pe_created ev,
       dl_inner = inner, dl_deliver = deliver, dl_late = late, dl_state = ''scheduled'',
       dl_canceled_at = None, dl_cancel = None\<rparr>])"

definition cancel_delivery :: "proj_event \<Rightarrow> str \<Rightarrow> db \<Rightarrow> db" where
  "cancel_delivery ev sid = deliveries_update (update_where (\<lambda>d. dl_id d = sid)
     (\<lambda>d. d\<lparr>dl_state := ''canceled'', dl_canceled_at := Some (pe_created ev), dl_cancel := Some (pe_id ev)\<rparr>))"

definition handle_delivery_scheduled :: "proj_event \<Rightarrow> mutation list proj" where
  "handle_delivery_scheduled ev =
     (case pe_payload ev of PDeliveryScheduled inner deliver late \<Rightarrow>
        seq (query (\<lambda>s. pe_id ev \<in> dl_id ` set (deliveries s))) (\<lambda>known.
        if known then ret [noop ''deliveries'' (pe_id ev) ''already_projected'']
        else seq (query (\<lambda>s. fetchone (\<lambda>d. announcement d = (pe_rel ev, pe_sender ev, inner)) (deliveries s))) (\<lambda>dup.
        case dup of
          Some d \<Rightarrow> ret [mut ''noop'' ''deliveries'' (pe_id ev)
              [(''reason'', JStr ''duplicate_announcement''), (''existing_scheduled_event_id'', JStr (dl_id d))]]
        | None \<Rightarrow> seq (exec (add_delivery ev inner deliver late)) (\<lambda>_.
            ret [mut ''insert'' ''deliveries'' (pe_id ev) [(''state'', JStr ''scheduled'')]])))
      | _ \<Rightarrow> raise ProjKeyError)"

definition handle_delivery_canceled :: "proj_event \<Rightarrow> mutation list proj" where
  "handle_delivery_canceled ev =
     (case pe_payload ev of PDeliveryCanceled sid \<Rightarrow>
        seq (query (\<lambda>s. fetchone (\<lambda>d. dl_id d = sid) (deliveries s))) (\<lambda>row.
        case row of
          None \<Rightarrow> seq (target_status ev sid ''delivery.scheduled'' ''delivery_cancel_target_not_scheduled'') (\<lambda>_.
                  seq (add_pending ev sid ''delivery_cancel'') (\<lambda>m. ret [m]))
        | Some d \<Rightarrow>
            if pe_sender ev \<noteq> dl_sender d then raise (ProjectionError ''delivery_cancel_not_sender'')
            else if dl_state d = ''canceled'' then ret [noop ''deliveries'' sid ''already_canceled'']
            else seq (exec (cancel_delivery ev sid)) (\<lambda>_.
              ret [mut ''update'' ''deliveries'' sid [(''state'', JStr ''canceled'')]]))
      | _ \<Rightarrow> raise ProjKeyError)"

text \<open>\<open>event_type.rsplit(".", 1)[-1]\<close>. The handler checks neither the epoch nor the action: the INSERT is refused
  by the NOT NULL of \<open>key_epoch\<close> and the CHECK of \<open>action\<close>.\<close>

definition after_last_dot :: "str \<Rightarrow> str" where
  "after_last_dot t = rev (takeWhile (\<lambda>c. c \<noteq> CHR ''.'') (rev t))"

definition add_key_event :: "proj_event \<Rightarrow> str \<Rightarrow> db \<Rightarrow> db" where
  "add_key_event ev action = security_key_events_update (\<lambda>t. t @
     [\<lparr>ke_id = pe_id ev, ke_rel = pe_rel ev, ke_sender = pe_sender ev, ke_created = pe_created ev,
       ke_epoch = the (pe_epoch ev), ke_action = action\<rparr>])"

definition insert_key_event :: "proj_event \<Rightarrow> str \<Rightarrow> unit proj" where
  "insert_key_event ev action =
     (if pe_epoch ev = None \<or> action \<notin> {''prepare'', ''ack'', ''confirm'', ''commit''}
      then raise ProjIntegrity else exec (add_key_event ev action))"

definition handle_security_key :: "proj_event \<Rightarrow> mutation list proj" where
  "handle_security_key ev = (let action = after_last_dot (pe_type ev) in
     seq (query (\<lambda>s. pe_id ev \<in> ke_id ` set (security_key_events s))) (\<lambda>known.
     if known then ret [noop ''security_key_events'' (pe_id ev) ''already_projected'']
     else seq (insert_key_event ev action) (\<lambda>_.
       ret [mut ''insert'' ''security_key_events'' (pe_id ev) [(''action'', JStr action)]])))"

section \<open>Dispatch\<close>

definition is_key_type :: "str \<Rightarrow> bool" where
  "is_key_type t \<longleftrightarrow> take 13 t = ''security.key.''"

definition dispatch :: "proj_event \<Rightarrow> str \<Rightarrow> mutation list proj" where
  "dispatch ev now = (let t = pe_type ev in
     if t \<in> set NO_PROJECTION_TYPES then ret []
     else if t = ''message.created'' then handle_message_created ev now
     else if t = ''message.edited'' then handle_message_edited ev
     else if t = ''message.retracted'' then handle_message_retracted ev
     else if t = ''reaction.added'' then handle_reaction_added ev
     else if t = ''reaction.removed'' then handle_reaction_removed ev
     else if t = ''receipt.accepted'' then handle_receipt ev ''accepted''
     else if t = ''receipt.seen'' then handle_receipt ev ''seen''
     else if t = ''poll.created'' then handle_poll_created ev
     else if t = ''poll.responded'' then handle_poll_responded ev now
     else if t = ''task.created'' then handle_task_created ev
     else if t = ''task.updated'' then handle_task_updated ev
     else if t = ''human.requested'' then handle_human_requested ev
     else if t = ''human.responded'' then handle_human_responded ev
     else if t = ''delivery.scheduled'' then handle_delivery_scheduled ev
     else if t = ''delivery.canceled'' then handle_delivery_canceled ev
     else if is_key_type t then handle_security_key ev
     else if t \<notin> set PAYLOAD_TYPES then raise (ProjectionError ''unknown_event_type'')
     else raise (ProjectionError ''unprojectable_event_type''))"

end
