(* ===== verification/Rebuild.thy ===== *)
theory Rebuild
  imports Projections
begin

text \<open>
  The conversation projections (\<open>store/projections.py\<close>), second part: staging of payloads, the
  resolution of pending references, the per-sender cursor, the fork check, \<open>apply_event\<close>, the
  rebuild of a relationship, the expiry of references and the views.
\<close>

section \<open>Staging\<close>

text \<open>\<open>valid\<close> is \<open>validate_payload\<close>, the JSON Schema validator with the schema files; its refusal
  is the exception \<open>ProjectionError ''schema''\<close> here.\<close>

definition record_projection_input ::
  "(str \<Rightarrow> payload \<Rightarrow> bool) \<Rightarrow> str \<Rightarrow> str \<Rightarrow> str \<Rightarrow> payload \<Rightarrow> str option \<Rightarrow> str option \<Rightarrow> str proj" where
  "record_projection_input valid wall eid etype payload reply_to received_at =
     (if \<not> valid etype payload then raise (ProjectionError ''schema'')
      else let received = (case received_at of None \<Rightarrow> wall | Some r \<Rightarrow> r) in
        seq (query (\<lambda>s. fetchone (\<lambda>p. pl_event p = eid) (event_payloads s))) (\<lambda>old.
        case old of
          Some p \<Rightarrow> ret (if falsy (pl_received p) then received else the (pl_received p))
        | None \<Rightarrow> seq (query (\<lambda>s. eid \<in> ev_id ` set (events s))) (\<lambda>logged.
            if \<not> logged then raise ProjIntegrity
            else seq (exec (event_payloads_update (\<lambda>t. t @
                [\<lparr>pl_event = eid, pl_type = etype, pl_payload = payload, pl_reply_to = reply_to,
                  pl_received = Some received\<rparr>]))) (\<lambda>_.
              ret received))))"

section \<open>The cursor\<close>

definition cursor_of :: "db \<Rightarrow> str \<Rightarrow> str \<Rightarrow> nat option" where
  "cursor_of s rid sender =
     map_option cu_max (fetchone (\<lambda>c. cu_rel c = rid \<and> cu_sender c = sender) (projection_cursors s))"

definition gap_key :: "gap_row \<Rightarrow> str \<times> str \<times> nat" where
  "gap_key g = (gp_rel g, gp_sender g, gp_seq g)"

definition add_gap :: "str \<Rightarrow> str \<Rightarrow> str \<Rightarrow> nat \<Rightarrow> db \<Rightarrow> mutation list \<times> db" where
  "add_gap rid sender observed missing s =
     (if (rid, sender, missing) \<in> gap_key ` set (sequence_gaps s) then ([], s)
      else ([mut ''insert'' ''sequence_gaps'' (sender @ '':'' @ nat_text missing)
               [(''state'', JStr ''unresolved'')]],
            s\<lparr>sequence_gaps := sequence_gaps s @
              [\<lparr>gp_rel = rid, gp_sender = sender, gp_seq = missing, gp_at = observed\<rparr>]\<rparr>))"

fun add_gaps :: "str \<Rightarrow> str \<Rightarrow> str \<Rightarrow> nat list \<Rightarrow> db \<Rightarrow> mutation list \<times> db" where
  "add_gaps rid sender observed [] s = ([], s)"
| "add_gaps rid sender observed (m # ms) s =
     (case add_gap rid sender observed m s of (l, s1) \<Rightarrow>
      case add_gaps rid sender observed ms s1 of (l', s2) \<Rightarrow> (l @ l', s2))"

definition move_cursor :: "str \<Rightarrow> str \<Rightarrow> nat \<Rightarrow> db \<Rightarrow> db" where
  "move_cursor rid sender n s = (case cursor_of s rid sender of
     None \<Rightarrow> s\<lparr>projection_cursors := projection_cursors s @ [\<lparr>cu_rel = rid, cu_sender = sender, cu_max = n\<rparr>]\<rparr>
   | Some m \<Rightarrow> if n > m then s\<lparr>projection_cursors := update_where (\<lambda>c. cu_rel c = rid \<and> cu_sender c = sender)
                (\<lambda>c. c\<lparr>cu_max := n\<rparr>) (projection_cursors s)\<rparr> else s)"

text \<open>The numbers skipped by a jump from \<open>prev\<close> to \<open>n\<close> that get a gap row.\<close>

definition recorded_gaps :: "nat \<Rightarrow> nat \<Rightarrow> nat list" where
  "recorded_gaps prev n = [prev + 1..<prev + 1 + min (n - prev - 1) MAX_SEQ_GAP]"

definition update_seq_state :: "str \<Rightarrow> str \<Rightarrow> nat \<Rightarrow> str \<Rightarrow> mutation list proj" where
  "update_seq_state rid sender n observed s =
     (let prev = (case cursor_of s rid sender of None \<Rightarrow> 0 | Some m \<Rightarrow> m);
          s1 = move_cursor rid sender n s
      in if n > prev then
           (case add_gaps rid sender observed (recorded_gaps prev n) s1 of (l, s2) \<Rightarrow> (Inr l, s2))
         else
           (let gone = rowcount (\<lambda>g. gap_key g = (rid, sender, n)) (sequence_gaps s1);
                s2 = s1\<lparr>sequence_gaps := delete_where (\<lambda>g. gap_key g = (rid, sender, n)) (sequence_gaps s1)\<rparr>
            in (Inr (if gone = 0 then [] else [mut ''delete'' ''sequence_gaps'' (sender @ '':'' @ nat_text n)
                       [(''state'', JStr ''resolved'')]]), s2)))"

section \<open>Forks\<close>

definition clashing :: "db \<Rightarrow> proj_event \<Rightarrow> bool" where
  "clashing s ev \<longleftrightarrow> (\<exists>e \<in> set (events s). ev_rel e = pe_rel ev \<and> ev_sender e = pe_sender ev \<and>
     ev_seq e = pe_seq ev \<and> ev_id e \<noteq> pe_id ev)"

definition check_fork :: "str \<Rightarrow> proj_event \<Rightarrow> mutation option proj" where
  "check_fork wall ev =
     seq (query (\<lambda>s. clashing s ev)) (\<lambda>clash.
     if clash then seq (quarantine_event wall (pe_rel ev) (pe_sender ev) (pe_seq ev) (pe_id ev) ''sequence_fork'')
                     (\<lambda>m. ret (Some m))
     else ret None)"

section \<open>Pending references\<close>

definition joined_event :: "event_row \<Rightarrow> payload_row \<Rightarrow> proj_event" where
  "joined_event e p = \<lparr>pe_id = ev_id e, pe_rel = ev_rel e, pe_conv = ev_conv e, pe_thread = ev_thread e,
     pe_sender = ev_sender e, pe_seq = ev_seq e, pe_created = ev_created e, pe_epoch = Some (ev_epoch e),
     pe_type = ev_type e, pe_payload = pl_payload p, pe_reply_to = pl_reply_to p, pe_received = pl_received p\<rparr>"

definition staged_of :: "db \<Rightarrow> str \<Rightarrow> payload_row option" where
  "staged_of s eid = fetchone (\<lambda>p. pl_event p = eid) (event_payloads s)"

definition staged_event :: "db \<Rightarrow> str \<Rightarrow> proj_event option" where
  "staged_event s eid = (case event_of s eid of None \<Rightarrow> None | Some e \<Rightarrow>
     (case staged_of s eid of None \<Rightarrow> None | Some p \<Rightarrow> Some (joined_event e p)))"

text \<open>\<open>try ... except ProjectionError\<close> around a handler, as the resolution and the rebuild use it.\<close>

definition or_quarantine :: "str \<Rightarrow> proj_event \<Rightarrow> mutation list proj \<Rightarrow> mutation list proj" where
  "or_quarantine wall ev p = (\<lambda>s. case p s of
     (Inl (ProjectionError code), s') \<Rightarrow>
        seq (quarantine_event wall (pe_rel ev) (pe_sender ev) (pe_seq ev) (pe_id ev) code) (\<lambda>m. ret [m]) s'
   | (r, s') \<Rightarrow> (r, s'))"

definition resolve_ref :: "pending_row \<Rightarrow> db \<Rightarrow> db" where
  "resolve_ref ref = pending_refs_update (update_where (\<lambda>r. pn_event r = pn_event ref) (\<lambda>r. r\<lparr>pn_state := ''resolved''\<rparr>))"

definition set_reply_state :: "str \<Rightarrow> str \<Rightarrow> db \<Rightarrow> db" where
  "set_reply_state eid st = messages_update (update_where (\<lambda>m. ms_id m = eid) (\<lambda>m. m\<lparr>ms_reply_state := st\<rparr>))"

definition reply_scope_state :: "db \<Rightarrow> str \<Rightarrow> str \<Rightarrow> str \<Rightarrow> str" where
  "reply_scope_state s rid tid eid = (case (target_event s rid tid, original_message s eid) of
     (Some t, Some m) \<Rightarrow> if ev_conv t = ms_conv m \<and> ev_thread t = ms_thread m then ''ok'' else ''unavailable''
   | _ \<Rightarrow> ''unavailable'')"

definition resolve_one :: "str \<Rightarrow> str \<Rightarrow> str \<Rightarrow> str \<Rightarrow> pending_row \<Rightarrow> mutation list proj" where
  "resolve_one wall rid tid now ref =
     seq (exec (resolve_ref ref)) (\<lambda>_. let m1 = mut ''update'' ''pending_refs'' (pn_event ref) [(''state'', JStr ''resolved'')] in
     if pn_kind ref = ''reply'' then
       seq (query (\<lambda>s. reply_scope_state s rid tid (pn_event ref))) (\<lambda>st.
       seq (exec (set_reply_state (pn_event ref) st)) (\<lambda>_.
       ret [m1, mut ''update'' ''messages'' (pn_event ref) [(''reply_state'', JStr st)]]))
     else
       seq (query (\<lambda>s. staged_event s (pn_event ref))) (\<lambda>row.
       case row of None \<Rightarrow> ret [m1]
       | Some ev \<Rightarrow> seq (or_quarantine wall ev (dispatch ev now)) (\<lambda>l. ret (m1 # l))))"

fun resolve_all :: "str \<Rightarrow> str \<Rightarrow> str \<Rightarrow> str \<Rightarrow> pending_row list \<Rightarrow> mutation list proj" where
  "resolve_all wall rid tid now [] = ret []"
| "resolve_all wall rid tid now (r # rs) =
     seq (resolve_one wall rid tid now r) (\<lambda>l. seq (resolve_all wall rid tid now rs) (\<lambda>l'. ret (l @ l')))"

definition waiting :: "db \<Rightarrow> str \<Rightarrow> str \<Rightarrow> pending_row list" where
  "waiting s rid tid = select (\<lambda>r. pn_rel r = rid \<and> pn_target r = tid \<and> pn_state r = ''pending'') (pending_refs s)"

definition resolve_pending :: "str \<Rightarrow> str \<Rightarrow> str \<Rightarrow> str \<Rightarrow> mutation list proj" where
  "resolve_pending wall rid tid now = seq (query (\<lambda>s. waiting s rid tid)) (resolve_all wall rid tid now)"

section \<open>Applying events\<close>

definition apply_inner :: "str \<Rightarrow> proj_event \<Rightarrow> str \<Rightarrow> mutation list proj" where
  "apply_inner wall ev now =
     seq (check_fork wall ev) (\<lambda>fork.
     case fork of Some m \<Rightarrow> ret [m]
     | None \<Rightarrow>
         seq (dispatch ev now) (\<lambda>l1.
         seq (resolve_pending wall (pe_rel ev) (pe_id ev) now) (\<lambda>l2.
         seq (update_seq_state (pe_rel ev) (pe_sender ev) (pe_seq ev) now) (\<lambda>l3.
         ret (l1 @ l2 @ l3)))))"

definition acceptance_time :: "db \<Rightarrow> str \<Rightarrow> proj_event \<Rightarrow> str" where
  "acceptance_time s wall ev =
     (if \<not> falsy (pe_received ev) then the (pe_received ev)
      else case staged_of s (pe_id ev) of None \<Rightarrow> wall
        | Some p \<Rightarrow> if falsy (pl_received p) then wall else the (pl_received p))"

definition apply_event :: "str \<Rightarrow> proj_event \<Rightarrow> mutation list proj" where
  "apply_event wall ev = seq (query (\<lambda>s. acceptance_time s wall ev)) (apply_inner wall ev)"

definition relationship_events :: "db \<Rightarrow> str \<Rightarrow> proj_event list" where
  "relationship_events s rid =
     sort_key (\<lambda>v. (pe_created v, pe_sender v, pe_seq v, pe_id v))
       (concat (map (\<lambda>e. case staged_of s (ev_id e) of None \<Rightarrow> [] | Some p \<Rightarrow> [joined_event e p])
         (select (\<lambda>e. ev_rel e = rid) (events s))))"

section \<open>Rebuilding\<close>

definition logged_ids :: "db \<Rightarrow> str \<Rightarrow> str list" where
  "logged_ids s rid = map ev_id (select (\<lambda>e. ev_rel e = rid) (events s))"

definition event_threads :: "db \<Rightarrow> str \<Rightarrow> str list" where
  "event_threads s rid = map th_id (select (\<lambda>t. \<exists>e \<in> set (events s).
     ev_thread e = Some (th_id t) \<and> ev_rel e = rid) (threads s))"

definition wipe :: "str \<Rightarrow> db \<Rightarrow> db" where
  "wipe rid s = s\<lparr>
     messages := delete_where (\<lambda>r. ms_rel r = rid) (messages s),
     message_revisions := delete_where (\<lambda>r. rv_event r \<in> set (logged_ids s rid)) (message_revisions s),
     reactions := delete_where (\<lambda>r. rc_added r \<in> set (logged_ids s rid)) (reactions s),
     receipts := delete_where (\<lambda>r. rp_event r \<in> set (logged_ids s rid)) (receipts s),
     polls := delete_where (\<lambda>r. po_rel r = rid) (polls s),
     poll_responses := delete_where (\<lambda>r. pr_event r \<in> set (logged_ids s rid)) (poll_responses s),
     tasks := delete_where (\<lambda>r. tk_rel r = rid) (tasks s),
     human_requests := delete_where (\<lambda>r. hr_rel r = rid) (human_requests s),
     deliveries := delete_where (\<lambda>r. dl_rel r = rid) (deliveries s),
     security_key_events := delete_where (\<lambda>r. ke_rel r = rid) (security_key_events s),
     thread_state := delete_where (\<lambda>r. ts_id r \<in> set (event_threads s rid)) (thread_state s),
     pending_refs := delete_where (\<lambda>r. pn_rel r = rid) (pending_refs s),
     projection_cursors := delete_where (\<lambda>r. cu_rel r = rid) (projection_cursors s),
     sequence_gaps := delete_where (\<lambda>r. gp_rel r = rid) (sequence_gaps s),
     quarantine := delete_where (\<lambda>r. qr_rel r = rid \<and> qr_event r \<in> set (logged_ids s rid)) (quarantine s)\<rparr>"

definition rebuild_one :: "str \<Rightarrow> proj_event \<Rightarrow> unit proj" where
  "rebuild_one wall ev = seq (or_quarantine wall ev
     (apply_inner wall ev (if falsy (pe_received ev) then wall else the (pe_received ev)))) (\<lambda>_. ret ())"

fun rebuild_each :: "str \<Rightarrow> proj_event list \<Rightarrow> unit proj" where
  "rebuild_each wall [] = ret ()"
| "rebuild_each wall (ev # evs) = seq (rebuild_one wall ev) (\<lambda>_. rebuild_each wall evs)"

definition unstaged :: "db \<Rightarrow> str \<Rightarrow> nat" where
  "unstaged s rid = rowcount (\<lambda>e. ev_rel e = rid \<and> staged_of s (ev_id e) = None) (events s)"

definition rebuild_projections :: "str \<Rightarrow> str \<Rightarrow> unit proj" where
  "rebuild_projections wall rid = txn (
     seq (query (\<lambda>s. unstaged s rid)) (\<lambda>n.
     if n \<noteq> 0 then raise (ProjectionError ''payload_missing'')
     else seq (exec (wipe rid)) (\<lambda>_.
       seq (query (\<lambda>s. relationship_events s rid)) (rebuild_each wall))))"

section \<open>Expiry of references\<close>

definition expire_one :: "pending_row \<Rightarrow> db \<Rightarrow> db" where
  "expire_one ref s =
     (let s1 = s\<lparr>pending_refs := update_where (\<lambda>r. pn_event r = pn_event ref)
                  (\<lambda>r. r\<lparr>pn_state := ''expired''\<rparr>) (pending_refs s)\<rparr>
      in if pn_kind ref = ''reply'' then set_reply_state (pn_event ref) ''unavailable'' s1 else s1)"

definition expire_pending_refs :: "str \<Rightarrow> str option \<Rightarrow> str \<Rightarrow> nat proj" where
  "expire_pending_refs rid now_opt wall =
     (case add_seconds (if falsy now_opt then wall else the now_opt) (- PENDING_TARGET_TTL_SECONDS) of
        Inl e \<Rightarrow> raise (ProjClock e)
      | Inr threshold \<Rightarrow>
          seq (query (\<lambda>s. select (\<lambda>r. pn_rel r = rid \<and> pn_state r = ''pending'' \<and> pn_created r < threshold)
                 (pending_refs s))) (\<lambda>refs.
          seq (exec (fold expire_one refs)) (\<lambda>_. ret (length refs))))"

section \<open>Views\<close>

record message_view =
  vw_id :: str
  vw_conv :: str
  vw_thread :: "str option"
  vw_sender :: str
  vw_seq :: nat
  vw_created :: str
  vw_body :: "str option"
  vw_format :: str
  vw_reply_to :: "str option"
  vw_reply_state :: str
  vw_edited :: bool
  vw_revisions :: nat
  vw_retracted :: bool
  vw_retraction :: "(str option \<times> str option \<times> str option) option"
  vw_reactions :: "(str \<times> str list) list"
  vw_receipts :: "(str \<times> str \<times> str) list"

text \<open>The active reactions in the order of emoji and sender, one entry per emoji with its senders;
  the count of an entry is the number of its senders.\<close>

fun group_reactions :: "(str \<times> str) list \<Rightarrow> (str \<times> str list) list" where
  "group_reactions [] = []"
| "group_reactions ((emoji, sender) # rs) = (case group_reactions rs of
     (e, ss) # gs \<Rightarrow> if e = emoji then (e, sender # ss) # gs else (emoji, [sender]) # (e, ss) # gs
   | [] \<Rightarrow> [(emoji, [sender])])"

definition message_view :: "db \<Rightarrow> message_row \<Rightarrow> message_view" where
  "message_view s m = \<lparr>vw_id = ms_id m, vw_conv = ms_conv m, vw_thread = ms_thread m, vw_sender = ms_sender m,
     vw_seq = ms_seq m, vw_created = ms_created m,
     vw_body = (if ms_retracted m then None else Some (ms_current m)), vw_format = ms_format m,
     vw_reply_to = ms_reply_to m, vw_reply_state = ms_reply_state m, vw_edited = ms_edited m,
     vw_revisions = rowcount (\<lambda>r. rv_event r = ms_id m) (message_revisions s),
     vw_retracted = ms_retracted m,
     vw_retraction = (if ms_retracted m then Some (ms_retraction m, ms_retracted_at m, ms_reason m) else None),
     vw_reactions = group_reactions (sort_key id (map (\<lambda>r. (rc_emoji r, rc_sender r))
       (select (\<lambda>r. rc_target r = ms_id m \<and> rc_active r) (reactions s)))),
     vw_receipts = sort_key (\<lambda>(k, n, t). (k, n)) (map (\<lambda>r. (rp_kind r, rp_sender r, rp_at r))
       (select (\<lambda>r. rp_target r = ms_id m) (receipts s)))\<rparr>"

definition message_order :: "message_row \<Rightarrow> str \<times> str \<times> nat" where
  "message_order m = (ms_created m, ms_sender m, ms_seq m)"

definition take_last :: "nat \<Rightarrow> 'a list \<Rightarrow> 'a list" where
  "take_last n xs = drop (length xs - n) xs"

definition get_conversation ::
  "db \<Rightarrow> str \<Rightarrow> str \<Rightarrow> int option \<Rightarrow> str option \<Rightarrow> proj_exn + message_view list" where
  "get_conversation s rid conv limit before =
     (let mine = select (\<lambda>m. ms_rel m = rid \<and> ms_conv m = conv) (messages s) in
      case (case before of None \<Rightarrow> Inr mine
            | Some b \<Rightarrow> (case fetchone (\<lambda>m. ms_id m = b) mine of
                None \<Rightarrow> Inl (ProjectionError ''unknown_cursor'')
              | Some a \<Rightarrow> Inr (select (\<lambda>m. message_order m < message_order a) mine))) of
        Inl e \<Rightarrow> Inl e
      | Inr found \<Rightarrow>
          (case limit of
             None \<Rightarrow> Inr (map (message_view s) (sort_key message_order found))
           | Some n \<Rightarrow>
               if n < 0 then Inl (ProjectionError ''invalid_limit'')
               else Inr (map (message_view s) (take_last (nat n) (sort_key message_order found)))))"

definition get_poll :: "db \<Rightarrow> str \<Rightarrow> (poll_row \<times> poll_response_row list) option" where
  "get_poll s pid = (case fetchone (\<lambda>p. po_id p = pid) (polls s) of None \<Rightarrow> None
   | Some p \<Rightarrow> Some (p, sort_key pr_sender (select (\<lambda>r. pr_poll r = pid) (poll_responses s))))"

definition get_task :: "db \<Rightarrow> str \<Rightarrow> task_row option" where
  "get_task s tid = fetchone (\<lambda>t. tk_id t = tid) (tasks s)"

definition get_human_request :: "db \<Rightarrow> str \<Rightarrow> human_row option" where
  "get_human_request s rid = fetchone (\<lambda>r. hr_id r = rid) (human_requests s)"

end
