(* ===== verification/ProjectionInv.thy ===== *)
theory ProjectionInv
  imports Rebuild
begin

text \<open>
  Invariants of the projections. \<open>projection_invariant\<close> is the contract between an invariant and
  the table writes of \<open>store/projections.py\<close>: every write preserves it under the checks its handler
  makes first. From it follows once that every handler, the dispatch, the resolution of pending
  references and \<open>apply_event\<close> preserve the invariant, on every branch, and from the extension
  \<open>rebuild_invariant\<close> that a rebuild does. \<open>known\<close> restricts the events that are applied, for the
  invariants that need them to be the logged ones.
\<close>

definition REPLY_STATES :: "str set" where
  "REPLY_STATES = {''ok'', ''pending'', ''unavailable''}"

lemma unavailable_reply [simp]: "''unavailable'' \<in> REPLY_STATES"
  by (simp add: REPLY_STATES_def)

lemma reply_context_result:
  assumes "reply_context ev now s = (Inr (st, l), t)"
  shows "st \<in> REPLY_STATES" and "messages t = messages s" and "message_revisions t = message_revisions s"
  using assms unfolding reply_context_def add_pending_def add_ref_def check_reply_scope_def Let_def seq_run prog_run
  by (auto simp: prog_run seq_run pending_state_def REPLY_STATES_def split: if_splits option.splits sum.splits)

locale projection_invariant =
  fixes I :: "db \<Rightarrow> bool" and known :: "proj_event \<Rightarrow> bool"
  assumes thread_law: "I s \<Longrightarrow> I (register_thread tid conv s)"
    and root_law: "I s \<Longrightarrow> I (set_root tid s)"
    and bump_law: "I s \<Longrightarrow> I (bump_thread_message th created s)"
    and ref_law: "I s \<Longrightarrow> known ev \<Longrightarrow> I (add_ref ev tid kind s)"
    and resolve_law: "I s \<Longrightarrow> I (resolve_ref ref s)"
    and reply_law: "I s \<Longrightarrow> st \<in> REPLY_STATES \<Longrightarrow> I (set_reply_state eid st s)"
    and quarantine_law: "I s \<Longrightarrow> I (add_quarantine wall rid sender n eid code s)"
    and message_law: "I s \<Longrightarrow> known ev \<Longrightarrow> pe_id ev \<notin> ms_id ` set (messages s) \<Longrightarrow> st \<in> REPLY_STATES \<Longrightarrow>
      fmt \<in> set MESSAGE_FORMATS \<Longrightarrow> I (snd (add_message ev body fmt st s))"
    and attachment_law: "I s \<Longrightarrow> known ev \<Longrightarrow> I (add_attachment ev a now s)"
    and edit_law: "I s \<Longrightarrow> known ev \<Longrightarrow> original_message s tid = Some m \<Longrightarrow> ms_sender m = pe_sender ev \<Longrightarrow>
      \<not> ms_retracted m \<Longrightarrow> I (snd (write_edit ev tid body reason (last_revision s tid + 1) s))"
    and tombstone_law: "I s \<Longrightarrow> known ev \<Longrightarrow> original_message s tid = Some m \<Longrightarrow> ms_sender m = pe_sender ev \<Longrightarrow>
      \<not> ms_retracted m \<Longrightarrow> I (tombstone ev tid reason s)"
    and react_law: "I s \<Longrightarrow> known ev \<Longrightarrow>
      (\<exists>r. reaction_of s tid (pe_sender ev) emoji = Some r \<and> rc_active r) \<or>
        active_reactions s tid (pe_sender ev) < MAX_ACTIVE_REACTIONS_PER_SENDER_TARGET \<Longrightarrow>
      I (add_reaction ev tid emoji s)"
    and unreact_law: "I s \<Longrightarrow> known ev \<Longrightarrow> I (remove_reaction ev tid emoji s)"
    and receipt_law: "I s \<Longrightarrow> known ev \<Longrightarrow> kind \<in> {''accepted'', ''seen''} \<Longrightarrow> I (set_receipt ev kind tid moment s)"
    and poll_law: "I s \<Longrightarrow> known ev \<Longrightarrow> pe_id ev \<notin> po_id ` set (polls s) \<Longrightarrow> pe_created ev < closes \<Longrightarrow>
      I (add_poll ev question choices closes multi s)"
    and response_law: "I s \<Longrightarrow> known ev \<Longrightarrow> fetchone (\<lambda>p. po_id p = poll) (polls s) = Some p \<Longrightarrow>
      response_check p choices now = Inr () \<Longrightarrow>
      I (recount poll (store_response ev poll choices confirmed ap now s))"
    and task_law: "I s \<Longrightarrow> known ev \<Longrightarrow> pe_id ev \<notin> tk_id ` set (tasks s) \<Longrightarrow> I (add_task ev title task_owner due_at s)"
    and status_law: "I s \<Longrightarrow> known ev \<Longrightarrow> fetchone (\<lambda>t. tk_id t = task) (tasks s) = Some t \<Longrightarrow>
      pe_sender ev \<in> {tk_owner t, tk_sender t} \<Longrightarrow> tk_status t \<notin> set TASK_TERMINAL \<Longrightarrow>
      status \<in> set TASK_STATUSES \<Longrightarrow> I (set_task_status ev task status nt s)"
    and request_law: "I s \<Longrightarrow> known ev \<Longrightarrow> pe_id ev \<notin> hr_id ` set (human_requests s) \<Longrightarrow>
      I (add_request ev prompt shape expires s)"
    and answer_law: "I s \<Longrightarrow> known ev \<Longrightarrow>
      I (answer_request ev req answer approved approval (human_response_attestation s ev approval) s)"
    and delivery_law: "I s \<Longrightarrow> known ev \<Longrightarrow> pe_id ev \<notin> dl_id ` set (deliveries s) \<Longrightarrow>
      (pe_rel ev, pe_sender ev, inner) \<notin> announcement ` set (deliveries s) \<Longrightarrow>
      I (add_delivery ev inner deliver late s)"
    and cancel_law: "I s \<Longrightarrow> known ev \<Longrightarrow> fetchone (\<lambda>d. dl_id d = sid) (deliveries s) = Some d \<Longrightarrow>
      dl_sender d = pe_sender ev \<Longrightarrow> dl_state d \<noteq> ''canceled'' \<Longrightarrow> I (cancel_delivery ev sid s)"
    and key_law: "I s \<Longrightarrow> known ev \<Longrightarrow> pe_id ev \<notin> ke_id ` set (security_key_events s) \<Longrightarrow>
      action \<in> {''prepare'', ''ack'', ''confirm'', ''commit''} \<Longrightarrow> I (add_key_event ev action s)"
    and seq_law: "I s \<Longrightarrow> I (snd (update_seq_state rid sender n observed s))"
    and expire_law: "I s \<Longrightarrow> I (expire_one ref s)"
    and staged_law: "I s \<Longrightarrow> staged_event s eid = Some ev \<Longrightarrow> known ev"
begin

lemma pending_kept: "known ev \<Longrightarrow> preserves I (add_pending ev tid kind)"
  unfolding add_pending_def by (intro pres_intros preserves_exec ref_law)

lemma target_status_kept: "preserves I (target_status ev tid expected code)"
  unfolding target_status_def by (intro pres_intros)

lemma awaited: "known ev \<Longrightarrow>
  keeps I (seq (target_status ev tid expected code) (\<lambda>_. seq (add_pending ev tid kind) (\<lambda>m. ret [m]))) s"
  by (intro keeps_seq_any target_status_kept pending_kept keep_intros)

lemma postponed: "known ev \<Longrightarrow> keeps I (seq (add_pending ev tid kind) (\<lambda>m. ret [m])) s"
  by (intro keeps_seq_any pending_kept keep_intros)

lemma ensure_thread_kept: "preserves I (ensure_thread ev)"
  unfolding ensure_thread_def Let_def
  by (intro preserves_by_keeps keep_intros keeps_exec; erule thread_law root_law)

lemma quarantine_kept: "preserves I (quarantine_event wall rid sender n eid reason)"
  unfolding quarantine_event_def by (intro pres_intros preserves_exec quarantine_law)

lemma reply_context_kept: "known ev \<Longrightarrow> preserves I (reply_context ev now)"
  unfolding reply_context_def Let_def check_reply_scope_def
  by (intro preserves_by_keeps keep_intros keeps_seq_any pending_kept pres_intros)

lemma attachment_kept: "known ev \<Longrightarrow> preserves I (record_attachment ev att now)"
  unfolding record_attachment_def by (intro pres_intros preserves_exec attachment_law)

lemma message_created_kept:
  assumes "known ev" shows "preserves I (handle_message_created ev now)"
proof -
  have "keeps I (seq (reply_context ev now) (\<lambda>(st, m2). case pe_payload ev of
      PMessageCreated body fmt att \<Rightarrow> seq (insert_message ev body fmt st) (\<lambda>_. seq (record_attachment ev att now) (\<lambda>m3.
       seq (exec (bump_thread_message (pe_thread ev) (pe_created ev))) (\<lambda>_. ret (m1 @ m2 @ m3 @ [q st]))))
      | _ \<Rightarrow> raise ProjKeyError)) s" if fresh: "pe_id ev \<notin> ms_id ` set (messages s)" for m1 q s
  proof (rule keeps_seq [OF keepsD [OF reply_context_kept [OF assms]]], clarify)
    fix st m2 t assume r: "reply_context ev now s = (Inr (st, m2), t)"
    have "keeps I (insert_message ev body fmt st) t" for body fmt
      using message_law [OF _ assms] reply_context_result [OF r] fresh by (simp add: keeps_def insert_message_def prog_run)
    then show "keeps I (case pe_payload ev of
      PMessageCreated body fmt att \<Rightarrow> seq (insert_message ev body fmt st) (\<lambda>_. seq (record_attachment ev att now) (\<lambda>m3.
       seq (exec (bump_thread_message (pe_thread ev) (pe_created ev))) (\<lambda>_. ret (m1 @ m2 @ m3 @ [q st]))))
      | _ \<Rightarrow> raise ProjKeyError) t"
      by (cases "pe_payload ev"; simp)
        (intro keep_intros keeps_seq keepsD [OF attachment_kept [OF assms]] keeps_exec bump_law; assumption)+
  qed
  then show ?thesis
    unfolding handle_message_created_def
    by (intro preserves_by_keeps keeps_seq_any [OF ensure_thread_kept] keep_intros)
qed

lemma edit_kept: "known ev \<Longrightarrow> original_message s tid = Some m \<Longrightarrow> \<not> ms_sender m \<noteq> pe_sender ev \<Longrightarrow>
  \<not> ms_retracted m \<Longrightarrow> keeps I (write_edit ev tid body reason (last_revision s tid + 1)) s"
  unfolding keeps_def by (intro impI edit_law) simp_all

lemma message_edited_kept: "known ev \<Longrightarrow> preserves I (handle_message_edited ev)"
  unfolding handle_message_edited_def
  by (cases "pe_payload ev"; simp only: payload.case; intro preserves_by_keeps keep_intros awaited keeps_seq [OF edit_kept])
    simp_all

lemma message_retracted_kept: "known ev \<Longrightarrow> preserves I (handle_message_retracted ev)"
  unfolding handle_message_retracted_def
  by (cases "pe_payload ev"; simp only: payload.case; intro preserves_by_keeps keep_intros awaited keeps_exec)
    (simp_all add: tombstone_law)

lemma reaction_added_kept: "known ev \<Longrightarrow> preserves I (handle_reaction_added ev)"
  unfolding handle_reaction_added_def
  by (cases "pe_payload ev"; simp only: payload.case; intro preserves_by_keeps keep_intros postponed keeps_exec)
    (auto intro!: react_law split: option.splits)

lemma reaction_removed_kept: "known ev \<Longrightarrow> preserves I (handle_reaction_removed ev)"
  unfolding handle_reaction_removed_def
  by (cases "pe_payload ev"; simp only: payload.case; intro preserves_by_keeps keep_intros postponed keeps_exec)
    (simp_all add: unreact_law)

lemma receipt_kept: "known ev \<Longrightarrow> kind \<in> {''accepted'', ''seen''} \<Longrightarrow> preserves I (handle_receipt ev kind)"
  unfolding handle_receipt_def put_receipt_def
  by (cases "pe_payload ev"; simp only: payload.case; intro conjI impI preserves_by_keeps keep_intros postponed keeps_exec)
    (simp_all add: receipt_law)

lemma poll_created_kept: "known ev \<Longrightarrow> preserves I (handle_poll_created ev)"
  unfolding handle_poll_created_def
  by (intro preserves_by_keeps keeps_seq_any [OF ensure_thread_kept] keep_intros)
    (cases "pe_payload ev"; simp only: payload.case; intro keep_intros keeps_exec; auto intro!: poll_law)

lemma poll_responded_kept: "known ev \<Longrightarrow> preserves I (handle_poll_responded ev now)"
  unfolding handle_poll_responded_def
  by (cases "pe_payload ev"; simp only: payload.case; intro preserves_by_keeps keep_intros awaited keeps_exec2)
    (simp_all add: response_law)

lemma task_created_kept: "known ev \<Longrightarrow> preserves I (handle_task_created ev)"
  unfolding handle_task_created_def
  by (intro preserves_by_keeps keeps_seq_any [OF ensure_thread_kept] keep_intros)
    (cases "pe_payload ev"; simp only: payload.case; intro keep_intros keeps_exec; auto intro!: task_law)

lemma task_updated_kept: "known ev \<Longrightarrow> preserves I (handle_task_updated ev)"
  unfolding handle_task_updated_def
  by (cases "pe_payload ev"; simp only: payload.case; intro preserves_by_keeps keep_intros awaited keeps_exec)
    (auto intro!: status_law)

lemma human_requested_kept: "known ev \<Longrightarrow> preserves I (handle_human_requested ev)"
  unfolding handle_human_requested_def
  by (intro preserves_by_keeps keeps_seq_any [OF ensure_thread_kept] keep_intros)
    (cases "pe_payload ev"; simp only: payload.case; intro keep_intros keeps_exec; auto intro!: request_law)

lemma human_responded_kept: "known ev \<Longrightarrow> preserves I (handle_human_responded ev)"
  unfolding handle_human_responded_def
  by (cases "pe_payload ev"; simp only: payload.case; intro preserves_by_keeps keep_intros awaited keeps_exec)
    (simp_all add: answer_law)

lemma delivery_scheduled_kept: "known ev \<Longrightarrow> preserves I (handle_delivery_scheduled ev)"
  unfolding handle_delivery_scheduled_def
  by (cases "pe_payload ev"; simp only: payload.case; intro preserves_by_keeps keep_intros keeps_exec)
    (auto intro!: delivery_law simp: fetchone_None)

lemma delivery_canceled_kept: "known ev \<Longrightarrow> preserves I (handle_delivery_canceled ev)"
  unfolding handle_delivery_canceled_def
  by (cases "pe_payload ev"; simp only: payload.case; intro preserves_by_keeps keep_intros awaited keeps_exec)
    (auto intro!: cancel_law)

lemma key_event_kept: "known ev \<Longrightarrow> pe_id ev \<notin> ke_id ` set (security_key_events s) \<Longrightarrow>
  keeps I (insert_key_event ev action) s"
  using key_law [of s ev action] by (simp add: insert_key_event_def keeps_def prog_run)

lemma security_key_kept: "known ev \<Longrightarrow> preserves I (handle_security_key ev)"
  unfolding handle_security_key_def Let_def
  by (intro preserves_by_keeps keep_intros keeps_seq [OF key_event_kept]) simp_all

lemmas handlers_kept = message_created_kept message_edited_kept message_retracted_kept reaction_added_kept
  reaction_removed_kept receipt_kept poll_created_kept poll_responded_kept task_created_kept task_updated_kept
  human_requested_kept human_responded_kept delivery_scheduled_kept delivery_canceled_kept security_key_kept

lemma dispatch_kept: "known ev \<Longrightarrow> preserves I (dispatch ev now)"
  unfolding dispatch_def Let_def by (intro pres_intros handlers_kept; simp)

lemma or_quarantine_kept: "preserves I p \<Longrightarrow> preserves I (or_quarantine wall ev p)"
  unfolding or_quarantine_def preserves_def
  using keepsD [OF quarantine_kept]
  by (fastforce simp: keeps_def seq_run prog_run quarantine_event_def split: prod.splits sum.splits proj_exn.splits)

lemma redispatch_kept: "known ev \<Longrightarrow> preserves I (or_quarantine wall ev (dispatch ev now))"
  by (intro or_quarantine_kept dispatch_kept)

lemma reply_resolved_kept: "I s \<Longrightarrow> I (set_reply_state eid (reply_scope_state s rid tid eid) s)"
  by (auto simp: REPLY_STATES_def reply_scope_state_def split: option.splits intro!: reply_law)

lemma resolve_one_kept: "preserves I (resolve_one wall rid tid now ref)"
  unfolding resolve_one_def Let_def
  by (intro preserves_by_keeps keeps_exec keep_intros keeps_seq_any [OF redispatch_kept])
    (auto intro: resolve_law reply_resolved_kept staged_law)

lemma resolve_all_kept: "preserves I (resolve_all wall rid tid now refs)"
  by (induction refs) (auto intro!: pres_intros resolve_one_kept)

lemma resolve_pending_kept: "preserves I (resolve_pending wall rid tid now)"
  unfolding resolve_pending_def by (intro pres_intros resolve_all_kept)

lemma update_seq_kept: "preserves I (update_seq_state rid sender n observed)"
  by (intro preservesI seq_law)

lemma check_fork_kept: "preserves I (check_fork wall ev)"
  unfolding check_fork_def by (intro pres_intros quarantine_kept)

lemma apply_inner_kept: "known ev \<Longrightarrow> preserves I (apply_inner wall ev now)"
  unfolding apply_inner_def
  by (intro pres_intros check_fork_kept dispatch_kept resolve_pending_kept update_seq_kept)

lemma apply_event_kept: "known ev \<Longrightarrow> preserves I (apply_event wall ev)"
  unfolding apply_event_def by (intro pres_intros apply_inner_kept)

lemma expire_kept: "preserves I (expire_pending_refs rid now_opt wall)"
proof -
  have "I (fold expire_one refs s)" if "I s" for refs s
    using that by (induction refs arbitrary: s) (simp_all add: expire_law)
  then show ?thesis
    unfolding expire_pending_refs_def by (intro preserves_by_keeps keep_intros keeps_exec)
qed

end

text \<open>A rebuild wipes the projections of a relationship and applies its logged events again.\<close>

locale rebuild_invariant = projection_invariant +
  assumes wipe_law: "I s \<Longrightarrow> I (wipe rid s)"
    and rollback_law: "I s \<Longrightarrow> I t \<Longrightarrow> I (rollback s t)"
    and replay_law: "I s \<Longrightarrow> ev \<in> set (relationship_events s rid) \<Longrightarrow> known ev"
begin

lemma rebuild_each_kept: "list_all known evs \<Longrightarrow> preserves I (rebuild_each wall evs)"
proof (induction evs)
  case (Cons ev evs)
  have "preserves I (rebuild_one wall ev)"
    unfolding rebuild_one_def using Cons.prems by (intro pres_intros or_quarantine_kept apply_inner_kept) simp
  then show ?case using Cons by (auto intro!: pres_intros)
qed (simp add: pres_intros)

lemma rebuild_kept: "preserves I (rebuild_projections wall rid)"
  unfolding rebuild_projections_def
proof (intro preserves_txn rollback_law)
  show "preserves I (seq (query (\<lambda>s. unstaged s rid)) (\<lambda>n.
     if n \<noteq> 0 then raise (ProjectionError ''payload_missing'')
     else seq (exec (wipe rid)) (\<lambda>_. seq (query (\<lambda>s. relationship_events s rid)) (rebuild_each wall))))"
  proof (intro preserves_by_keeps keep_intros keeps_exec wipe_law)
    fix s assume "I (wipe rid s)"
    then have "list_all known (relationship_events (wipe rid s) rid)"
      using replay_law by (simp add: list_all_iff)
    then show "keeps I (rebuild_each wall (relationship_events (wipe rid s) rid)) (wipe rid s)"
      by (intro keepsD rebuild_each_kept)
  qed
qed

end

text \<open>A history of the projections: the wall clock of each operation and the operation.\<close>

datatype projection_op = Apply proj_event | Rebuild str | Expire str "str option"

fun projection_step :: "str \<times> projection_op \<Rightarrow> db \<Rightarrow> db" where
  "projection_step (wall, Apply ev) s = snd (apply_event wall ev s)"
| "projection_step (wall, Rebuild rid) s = snd (rebuild_projections wall rid s)"
| "projection_step (wall, Expire rid now) s = snd (expire_pending_refs rid now wall s)"

definition applied :: "(str \<times> projection_op) list \<Rightarrow> proj_event set" where
  "applied ops = {ev. Apply ev \<in> snd ` set ops}"

definition rebuilds :: "(str \<times> projection_op) list \<Rightarrow> bool" where
  "rebuilds ops \<longleftrightarrow> (\<exists>rid. Rebuild rid \<in> snd ` set ops)"

lemma applied_Cons: "applied (op # ops) = (case snd op of Apply ev \<Rightarrow> {ev} | _ \<Rightarrow> {}) \<union> applied ops"
  by (auto simp: applied_def split: projection_op.split)

lemma rebuilds_Cons: "rebuilds (op # ops) \<longleftrightarrow> (case snd op of Rebuild _ \<Rightarrow> True | _ \<Rightarrow> rebuilds ops)"
  by (auto simp: rebuilds_def image_iff split: projection_op.split)

context projection_invariant begin

lemma history_kept:
  "I s \<Longrightarrow> \<forall>ev \<in> applied ops. known ev \<Longrightarrow> \<not> rebuilds ops \<Longrightarrow> I (fold projection_step ops s)"
proof (induction ops arbitrary: s)
  case (Cons op ops)
  have "I (projection_step op s)"
    using Cons.prems preservesD [OF apply_event_kept] preservesD [OF expire_kept]
    by (cases "(op, s)" rule: projection_step.cases) (auto simp: applied_Cons rebuilds_Cons)
  moreover have "\<not> rebuilds ops"
    using Cons.prems(3) by (auto simp: rebuilds_Cons split: projection_op.splits)
  ultimately show ?case using Cons by (auto simp: applied_Cons)
qed simp

end

context rebuild_invariant begin

lemma any_history_kept: "I s \<Longrightarrow> \<forall>ev \<in> applied ops. known ev \<Longrightarrow> I (fold projection_step ops s)"
proof (induction ops arbitrary: s)
  case (Cons op ops)
  have "I (projection_step op s)"
    using Cons.prems preservesD [OF apply_event_kept] preservesD [OF expire_kept] preservesD [OF rebuild_kept]
    by (cases "(op, s)" rule: projection_step.cases) (auto simp: applied_Cons)
  then show ?case using Cons by (auto simp: applied_Cons)
qed simp

end

section \<open>What the projections leave alone\<close>

text \<open>The database without the tables the projections write.\<close>

definition outside :: "db \<Rightarrow> db" where
  "outside s = s\<lparr>threads := [], messages := [], message_revisions := [], reactions := [], receipts := [],
     polls := [], poll_responses := [], tasks := [], human_requests := [], deliveries := [],
     security_key_events := [], thread_state := [], pending_refs := [], quarantine := [],
     projection_cursors := [], sequence_gaps := [], attachments := []\<rparr>"

lemmas projection_writes = register_thread_def set_root_def bump_thread_message_def add_ref_def resolve_ref_def
  set_reply_state_def add_quarantine_def add_attachment_def tombstone_def add_reaction_def remove_reaction_def
  set_receipt_def add_poll_def store_response_def recount_def add_task_def set_task_status_def add_request_def
  answer_request_def add_delivery_def cancel_delivery_def add_key_event_def
  expire_one_def Let_def

lemmas projection_programs = add_message_def new_message_def insert_revision_def write_edit_def

text \<open>\<open>_update_seq_state\<close> writes the cursor and the gaps only.\<close>

lemma add_gap_state: "snd (add_gap rid sender now m s) = s\<lparr>sequence_gaps := insert_or_ignore gap_key
    \<lparr>gp_rel = rid, gp_sender = sender, gp_seq = m, gp_at = now\<rparr> (sequence_gaps s)\<rparr>"
  by (simp add: add_gap_def insert_or_ignore_def gap_key_def)

lemma add_gaps_kept:
  assumes "\<And>m s. m \<in> set ms \<Longrightarrow> I s \<Longrightarrow> I (snd (add_gap rid sender now m s))"
  shows "I s \<Longrightarrow> I (snd (add_gaps rid sender now ms s))"
  using assms by (induction ms arbitrary: s) (fastforce simp: split_beta)+

lemma update_seq_state_result:
  "snd (update_seq_state rid sender n now s) =
    (let prev = (case cursor_of s rid sender of None \<Rightarrow> 0 | Some m \<Rightarrow> m); s1 = move_cursor rid sender n s in
     if n > prev then snd (add_gaps rid sender now (recorded_gaps prev n) s1)
     else s1\<lparr>sequence_gaps := delete_where (\<lambda>g. gap_key g = (rid, sender, n)) (sequence_gaps s1)\<rparr>)"
  by (simp add: update_seq_state_def Let_def split_beta)

lemma move_cursor_state: "\<exists>c. move_cursor rid sender n s = s\<lparr>projection_cursors := c\<rparr>"
  by (auto simp: move_cursor_def split: option.split intro: exI [of _ "projection_cursors s"])

text \<open>An invariant that does not mention the two tables survives it.\<close>

lemma seq_state_irrelevant:
  assumes "\<And>s c g. I (s\<lparr>projection_cursors := c, sequence_gaps := g\<rparr>) = I s" "I s"
  shows "I (snd (update_seq_state rid sender n now s))"
proof -
  obtain c where c: "move_cursor rid sender n s = s\<lparr>projection_cursors := c\<rparr>"
    using move_cursor_state by blast
  have g: "I (t\<lparr>sequence_gaps := g\<rparr>) = I t" for t :: db and g
    using assms(1) [where s = t and c = "projection_cursors t" and g = g] by simp
  have i: "I (move_cursor rid sender n s)"
    using assms(1) [where s = s and c = c and g = "sequence_gaps s"] assms(2) c by simp
  have "I (snd (add_gaps rid sender now ms (move_cursor rid sender n s)))" for ms
    by (rule add_gaps_kept [where I = I, OF _ i]) (simp only: add_gap_state g)
  then show ?thesis
    unfolding update_seq_state_result Let_def by (simp only: g i split: if_split) simp
qed

lemma outside_rollback: "outside (rollback s t) = (outside s)\<lparr>relay := relay (outside t), key_files := key_files (outside t)\<rparr>"
  by (simp add: outside_def rollback_def)

interpretation frame: rebuild_invariant "\<lambda>s. outside s = B" "\<lambda>_. True" for B
proof unfold_locales
  fix s :: db and rid sender n observed
  show "outside s = B \<Longrightarrow> outside (snd (update_seq_state rid sender n observed s)) = B"
    by (rule seq_state_irrelevant) (simp add: outside_def)
  show "outside s = B \<Longrightarrow> outside t = B \<Longrightarrow> outside (rollback s t) = B" for t
    by (simp add: outside_rollback)
qed (simp_all add: outside_def projection_writes projection_programs prog_run seq_run wipe_def)

section \<open>Keys and CHECK constraints\<close>

definition keys_ok :: "db \<Rightarrow> bool" where
  "keys_ok s \<longleftrightarrow> unique_key th_id (threads s) \<and> unique_key ts_id (thread_state s) \<and>
     unique_key ms_id (messages s) \<and> unique_key (\<lambda>r. (rv_event r, rv_no r)) (message_revisions s) \<and>
     unique_key reaction_key (reactions s) \<and> unique_key receipt_key (receipts s) \<and>
     unique_key po_id (polls s) \<and> unique_key response_key (poll_responses s) \<and>
     unique_key tk_id (tasks s) \<and> unique_key hr_id (human_requests s) \<and>
     unique_key dl_id (deliveries s) \<and> unique_key announcement (deliveries s) \<and>
     unique_key ke_id (security_key_events s) \<and> unique_key pn_event (pending_refs s) \<and>
     unique_key (\<lambda>q. (qr_rel q, qr_sender q, qr_seq q, qr_event q)) (quarantine s) \<and>
     unique_key (\<lambda>c. (cu_rel c, cu_sender c)) (projection_cursors s) \<and>
     unique_key gap_key (sequence_gaps s) \<and> unique_key ar_event (attachments s)"

text \<open>The values the CHECK clauses admit.\<close>

definition RECEIPT_KINDS :: "str set" where "RECEIPT_KINDS = {''accepted'', ''seen''}"
definition REQUEST_STATES :: "str set" where "REQUEST_STATES = {''open'', ''responded'', ''expired''}"
definition ATTESTATIONS :: "str set" where "ATTESTATIONS = {''local'', ''peer''}"
definition DELIVERY_STATES :: "str set" where "DELIVERY_STATES = {''scheduled'', ''canceled''}"
definition KEY_ACTIONS :: "str set" where "KEY_ACTIONS = {''prepare'', ''ack'', ''confirm'', ''commit''}"
definition REF_STATES :: "str set" where "REF_STATES = {''pending'', ''expired'', ''resolved''}"

lemma admitted [simp]:
  "''open'' \<in> REQUEST_STATES" "''responded'' \<in> REQUEST_STATES" "''peer'' \<in> ATTESTATIONS"
  "''scheduled'' \<in> DELIVERY_STATES" "''canceled'' \<in> DELIVERY_STATES" "''pending'' \<in> REF_STATES"
  "''expired'' \<in> REF_STATES" "''resolved'' \<in> REF_STATES" "''open'' \<in> set TASK_STATUSES"
  by (simp_all add: REQUEST_STATES_def ATTESTATIONS_def DELIVERY_STATES_def REF_STATES_def TASK_STATUSES_def)

definition checks_ok :: "db \<Rightarrow> bool" where
  "checks_ok s \<longleftrightarrow> (\<forall>m \<in> set (messages s). ms_reply_state m \<in> REPLY_STATES \<and> ms_format m \<in> set MESSAGE_FORMATS) \<and>
     (\<forall>r \<in> set (receipts s). rp_kind r \<in> RECEIPT_KINDS) \<and>
     (\<forall>t \<in> set (tasks s). tk_status t \<in> set TASK_STATUSES) \<and>
     (\<forall>r \<in> set (human_requests s). hr_state r \<in> REQUEST_STATES \<and> hr_attestation r \<in> ATTESTATIONS) \<and>
     (\<forall>d \<in> set (deliveries s). dl_state d \<in> DELIVERY_STATES) \<and>
     (\<forall>k \<in> set (security_key_events s). ke_action k \<in> KEY_ACTIONS) \<and>
     (\<forall>r \<in> set (pending_refs s). pn_state r \<in> REF_STATES) \<and>
     (\<forall>g \<in> set (sequence_gaps s). 1 \<le> gp_seq g)"

text \<open>Of a rolled back state only the relay is new.\<close>

lemmas unique_writes = unique_key_insert_or_ignore unique_key_upsert unique_key_append unique_key_update unique_key_delete

lemma cursor_key: "cursor_of s rid sender = None \<longleftrightarrow> (rid, sender) \<notin> (\<lambda>c. (cu_rel c, cu_sender c)) ` set (projection_cursors s)"
  by (auto simp: cursor_of_def fetchone_None)

lemma keys_ok_seq: "keys_ok s \<Longrightarrow> keys_ok (snd (update_seq_state rid sender n now s))"
proof -
  assume k: "keys_ok s"
  then have m: "keys_ok (move_cursor rid sender n s)"
    by (auto simp: keys_ok_def move_cursor_def unique_writes cursor_key split: option.split)
  then have "keys_ok (snd (add_gaps rid sender now ms (move_cursor rid sender n s)))" for ms
    by (intro add_gaps_kept [where I = keys_ok]) (simp_all add: add_gap_state keys_ok_def unique_writes)
  with m show ?thesis
    unfolding update_seq_state_result Let_def by (simp add: keys_ok_def unique_writes)
qed

interpretation keys: rebuild_invariant keys_ok "\<lambda>_. True"
proof unfold_locales
  show "keys_ok s \<Longrightarrow> keys_ok (snd (update_seq_state rid sender n observed s))" for s rid sender n observed
    by (rule keys_ok_seq)
qed (auto simp: keys_ok_def projection_writes projection_programs prog_run seq_run wipe_def rollback_def unique_writes
       reaction_key_def receipt_key_def response_key_def announcement_def)

lemma checks_ok_seq: "checks_ok s \<Longrightarrow> checks_ok (snd (update_seq_state rid sender n now s))"
proof -
  assume k: "checks_ok s"
  then have m: "checks_ok (move_cursor rid sender n s)"
    using move_cursor_state [of rid sender n s] by (auto simp: checks_ok_def)
  have "checks_ok (snd (add_gaps rid sender now (recorded_gaps prev n) (move_cursor rid sender n s)))" for prev
    by (rule add_gaps_kept [where I = checks_ok, OF _ m])
      (auto simp: add_gap_state checks_ok_def recorded_gaps_def table_simps)
  with m show ?thesis
    unfolding update_seq_state_result Let_def by (simp add: checks_ok_def table_simps)
qed

lemma set_upsert: "set (upsert k r f t) \<subseteq> insert r (set t \<union> f ` set t)"
  by (auto simp: upsert_def table_simps)

lemma ball_update_where:
  "(\<forall>x \<in> set (update_where Q f t). P x) \<longleftrightarrow> (\<forall>x \<in> set t. if Q x then P (f x) else P x)"
  by (auto simp: update_where_def)

lemma ball_upsert: "\<forall>x \<in> set t. P x \<Longrightarrow> P r \<Longrightarrow> (\<And>x. P x \<Longrightarrow> P (f x)) \<Longrightarrow> \<forall>x \<in> set (upsert k r f t). P x"
  using set_upsert [of k r f t] by blast

lemma attestation_cases: "human_response_attestation s ev approval \<in> ATTESTATIONS"
  by (simp add: human_response_attestation_def ATTESTATIONS_def split: option.split)

lemma checks_ok_receipt: "checks_ok s \<Longrightarrow> kind \<in> RECEIPT_KINDS \<Longrightarrow> checks_ok (set_receipt ev kind tid moment s)"
proof -
  assume c: "checks_ok s" and k: "kind \<in> RECEIPT_KINDS"
  have "\<forall>r \<in> set (receipts (set_receipt ev kind tid moment s)). rp_kind r \<in> RECEIPT_KINDS"
    using c k by (simp add: set_receipt_def checks_ok_def, intro ball_upsert) simp_all
  with c show ?thesis by (simp add: checks_ok_def set_receipt_def)
qed

interpretation checks: rebuild_invariant checks_ok "\<lambda>_. True"
proof unfold_locales
  show "checks_ok s \<Longrightarrow> checks_ok (snd (update_seq_state rid sender n observed s))" for s rid sender n observed
    by (rule checks_ok_seq)
  show "checks_ok s \<Longrightarrow> kind \<in> {''accepted'', ''seen''} \<Longrightarrow> checks_ok (set_receipt ev kind tid moment s)"
    for s kind ev tid moment
    by (intro checks_ok_receipt) (simp_all only: RECEIPT_KINDS_def)
  show "checks_ok s \<Longrightarrow> action \<in> {''prepare'', ''ack'', ''confirm'', ''commit''} \<Longrightarrow>
    checks_ok (add_key_event ev action s)" for s action ev
    by (simp only: KEY_ACTIONS_def [symmetric]) (simp add: checks_ok_def add_key_event_def)
qed (simp_all add: projection_writes projection_programs prog_run seq_run wipe_def rollback_def Let_def
       checks_ok_def set_insert_or_ignore set_delete_where ball_update_where attestation_cases)

section \<open>Samples\<close>

text \<open>Two events of one author, a message and its edit, and the facts that evaluate a history of them.\<close>

definition sample_message :: proj_event where
  "sample_message = \<lparr>pe_id = ''m1'', pe_rel = ''r'', pe_conv = ''c'', pe_thread = None, pe_sender = ''alice'', pe_seq = 1,
     pe_created = ''2025-01-01T10:00:00Z'', pe_epoch = Some 1, pe_type = ''message.created'',
     pe_payload = PMessageCreated ''hi'' ''plain'' None, pe_reply_to = None, pe_received = Some ''2025-01-01T10:00:01Z''\<rparr>"

definition sample_edit :: proj_event where
  "sample_edit = sample_message\<lparr>pe_id := ''m2'', pe_seq := 2, pe_type := ''message.edited'',
     pe_payload := PMessageEdited ''m1'' ''hello'' None\<rparr>"

lemmas sample_events = sample_message_def sample_edit_def

lemmas projection_eval = apply_event_def acceptance_time_def falsy_def apply_inner_def check_fork_def clashing_def
  dispatch_def NO_PROJECTION_TYPES_def handle_message_created_def handle_message_edited_def ensure_thread_def prog_run
  seq_run Let_def reply_context_def insert_message_def MESSAGE_FORMATS_def add_message_def has_revision_def insert_revision_def new_message_def record_attachment_def
  bump_thread_message_def resolve_pending_def waiting_def select_def fetchone_def update_seq_state_def cursor_of_def
  move_cursor_def recorded_gaps_def original_message_def last_revision_def write_edit_def update_where_def
  rowcount_def delete_where_def

definition sample_history :: "(str \<times> projection_op) list" where
  "sample_history = [(''2025-01-01T10:00:02Z'', Apply sample_message), (''2025-01-01T10:00:02Z'', Apply sample_edit)]"

lemma sample_applied: "applied sample_history = {sample_message, sample_edit}" "\<not> rebuilds sample_history"
  by (auto simp: sample_history_def applied_def rebuilds_def)

section \<open>Properties\<close>

text \<open>C27. Projecting touches the projections and nothing else. Whatever events are applied, relationships
  rebuilt and references expired, in whatever order and whether a call returns or raises, every other
  table is unchanged: the event log and the staged payloads, relationships and keys, the scheduler's
  queue, the approvals, the surfacing and send queues, and the relay.\<close>
theorem projections_touch_nothing_else: "outside (fold projection_step ops s) = outside s"
  by (rule frame.any_history_kept) simp_all

text \<open>C28. The projection tables keep their primary and unique keys and the values their CHECK clauses
  admit through every history of applications, rebuilds and expiries, whether a call returns or raises.
  For the format of a message, the numbers of the revisions and the action of a key event this is the
  constraint of the table, whose refusal is a branch of the INSERT here; every other key and CHECK is
  kept by what the handlers look up and write, with no refusal of SQLite in the model.\<close>
theorem projection_tables_well_formed:
  assumes "keys_ok s" "checks_ok s"
  shows "keys_ok (fold projection_step ops s) \<and> checks_ok (fold projection_step ops s)"
  using keys.any_history_kept [OF assms(1)] checks.any_history_kept [OF assms(2)] by simp

theorem projection_tables_well_formed_witness:
  "keys_ok (fold projection_step sample_history empty_db) \<and> checks_ok (fold projection_step sample_history empty_db) \<and>
   map ms_current (messages (fold projection_step sample_history empty_db)) = [''hello'']"
proof -
  have "keys_ok empty_db" "checks_ok empty_db"
    by (simp_all add: empty_db_def keys_ok_def checks_ok_def table_simps)
  note projection_tables_well_formed [OF this, of sample_history]
  moreover have "map ms_current (messages (fold projection_step sample_history empty_db)) = [''hello'']"
    by (simp add: sample_history_def sample_events empty_db_def projection_eval)
  ultimately show ?thesis by simp
qed

end
