(* ===== verification/Conversations.thy ===== *)
theory Conversations
  imports ProjectionInv
begin

text \<open>
  What the conversation tables say (\<open>store/projections.py\<close>): the invariants of messages and their
  revisions, of reactions, polls, human answers and sequence gaps, each an interpretation of
  \<open>projection_invariant\<close> or \<open>rebuild_invariant\<close>; who may change a message or a task; the view of a
  conversation. \<open>logged_in\<close> says that an event is the one the log has under its id.
\<close>

definition logged_in :: "event_row list \<Rightarrow> proj_event \<Rightarrow> bool" where
  "logged_in es ev \<longleftrightarrow> (\<exists>e \<in> set es. ev_id e = pe_id ev \<and> ev_rel e = pe_rel ev \<and>
     ev_sender e = pe_sender ev)"

lemma staged_logged: "staged_event s eid = Some ev \<Longrightarrow> logged_in (events s) ev"
  by (auto simp: staged_event_def event_of_def logged_in_def joined_event_def
      dest!: fetchone_Some_mem split: option.splits)

lemma replayed_logged: "ev \<in> set (relationship_events s rid) \<Longrightarrow> logged_in (events s) ev"
  by (auto simp: relationship_events_def logged_in_def joined_event_def select_def split: option.splits)

section \<open>Messages and their revisions\<close>

definition revisions_of :: "db \<Rightarrow> str \<Rightarrow> revision_row list" where
  "revisions_of s mid = select (\<lambda>r. rv_event r = mid) (message_revisions s)"

definition message_history :: "revision_row list \<Rightarrow> message_row \<Rightarrow> bool" where
  "message_history rs m \<longleftrightarrow> map rv_no rs = [0..<length rs] \<and> rs \<noteq> [] \<and> rv_body (hd rs) = ms_body m \<and>
     rv_body (last rs) = ms_current m \<and> (ms_edited m \<longleftrightarrow> 1 < length rs) \<and>
     (ms_retracted m \<longleftrightarrow> ms_retraction m \<noteq> None) \<and> (ms_retracted m \<longleftrightarrow> ms_retracted_at m \<noteq> None)"

definition history_ok :: "db \<Rightarrow> bool" where
  "history_ok s \<longleftrightarrow> unique_key ms_id (messages s) \<and>
     (\<forall>r \<in> set (message_revisions s). rv_event r \<in> ms_id ` set (messages s)) \<and>
     (\<forall>m \<in> set (messages s). message_history (revisions_of s (ms_id m)) m)"

definition messages_logged :: "event_row list \<Rightarrow> db \<Rightarrow> bool" where
  "messages_logged es s \<longleftrightarrow> (\<forall>m \<in> set (messages s). \<exists>e \<in> set es. ev_id e = ms_id m \<and> ev_rel e = ms_rel m)"

lemma key_set_update: "(\<And>r. k (f r) = k r) \<Longrightarrow> k ` set (update_where P f t) = k ` set t"
  using map_key_update_where [of k f P t] by (metis list.set_map)

lemma revisions_of_append:
  "revisions_of (s\<lparr>message_revisions := message_revisions s @ [r]\<rparr>) mid =
   revisions_of s mid @ (if rv_event r = mid then [r] else [])"
  by (simp add: revisions_of_def select_def)

lemma max_upto: "foldr max [0..<Suc n] 0 = n"
proof -
  have "foldr max [0..<Suc n] k = max n k" for k
  proof (induction n arbitrary: k)
    case (Suc n)
    show ?case using Suc.IH [of "max (Suc n) k"] by simp
  qed simp
  from this [of 0] show ?thesis by simp
qed

lemma last_revision_history:
  "message_history (revisions_of s tid) m \<Longrightarrow> last_revision s tid + 1 = length (revisions_of s tid)"
  by (cases "revisions_of s tid" rule: rev_cases)
    (auto simp: message_history_def last_revision_def revisions_of_def [symmetric] max_upto simp del: upt_Suc)

lemma history_edit:
  "message_history rs m \<Longrightarrow> rv_no r = length rs \<Longrightarrow> rv_body r = body \<Longrightarrow>
   message_history (rs @ [r]) (m\<lparr>ms_edited := True, ms_current := body\<rparr>)"
  by (cases rs) (auto simp: message_history_def simp del: upt_Suc simp: upt_Suc_append)

lemma revision_no_free:
  "history_ok s \<Longrightarrow> original_message s tid = Some m \<Longrightarrow>
   (tid, last_revision s tid + 1) \<notin> set (map (\<lambda>q. (rv_event q, rv_no q)) (message_revisions s))"
proof
  assume h: "history_ok s" and m: "original_message s tid = Some m"
    and "(tid, last_revision s tid + 1) \<in> set (map (\<lambda>q. (rv_event q, rv_no q)) (message_revisions s))"
  then have "last_revision s tid + 1 \<in> set (map rv_no (revisions_of s tid))"
    by (auto simp: revisions_of_def select_def)
  moreover have mh: "message_history (revisions_of s tid) m"
    using h fetchone_Some_mem [OF m [unfolded original_message_def]] by (auto simp: history_ok_def)
  then have "set (map rv_no (revisions_of s tid)) = {..<length (revisions_of s tid)}"
    by (auto simp: message_history_def)
  ultimately show False
    using last_revision_history [OF mh] by simp
qed

lemma history_ok_edit:
  assumes h: "history_ok s" and m: "original_message s tid = Some m"
  shows "history_ok (snd (write_edit ev tid body reason (last_revision s tid + 1) s))"
proof -
  define r where "r = \<lparr>rv_event = tid, rv_no = last_revision s tid + 1, rv_body = body, rv_at = pe_created ev,
            rv_edit = Some (pe_id ev), rv_reason = reason\<rparr>"
  define u where "u = (\<lambda>m::message_row. m\<lparr>ms_edited := True, ms_current := body\<rparr>)"
  have w: "snd (write_edit ev tid body reason (last_revision s tid + 1) s) =
      s\<lparr>message_revisions := message_revisions s @ [r], messages := update_where (\<lambda>m. ms_id m = tid) u (messages s)\<rparr>"
    using revision_no_free [OF h m] by (simp add: write_edit_def insert_revision_def prog_run seq_run r_def u_def)
  have mem: "m \<in> set (messages s)" "ms_id m = tid"
    using fetchone_Some_mem [OF m [unfolded original_message_def]] by auto
  have keys: "ms_id (u x) = ms_id x" for x by (simp add: u_def)
  have hist: "message_history (revisions_of s (ms_id x)) x" if "x \<in> set (messages s)" for x
    using h that by (simp add: history_ok_def)
  have "message_history (revisions_of s tid @ [r]) (u x)" if "x \<in> set (messages s)" "ms_id x = tid" for x
    unfolding u_def using hist [OF that(1)] that(2) last_revision_history
    by (intro history_edit) (auto simp: r_def)
  moreover have "message_revisions (s\<lparr>message_revisions := message_revisions s @ [r], messages := ms\<rparr>) =
      message_revisions s @ [r]" for ms by simp
  moreover have "revisions_of (s\<lparr>message_revisions := message_revisions s @ [r], messages := ms\<rparr>) mid =
      revisions_of s mid @ (if mid = tid then [r] else [])" for ms mid
    by (simp add: revisions_of_def select_def r_def)
  moreover have "rv_event r \<in> ms_id ` set (messages s)" using mem by (auto simp: r_def)
  ultimately show ?thesis
    using h hist keys unfolding w history_ok_def
    by (simp add: unique_key_update key_set_update ball_update_where)
qed

lemma no_revision:
  "history_ok s \<Longrightarrow> eid \<notin> ms_id ` set (messages s) \<Longrightarrow> r \<in> set (message_revisions s) \<Longrightarrow> rv_event r \<noteq> eid"
  unfolding history_ok_def by metis

lemma no_revisions: "history_ok s \<Longrightarrow> eid \<notin> ms_id ` set (messages s) \<Longrightarrow> revisions_of s eid = []"
  using no_revision [of s eid] unfolding revisions_of_def select_def filter_empty_conv by blast

lemma history_ok_insert:
  assumes h: "history_ok s" and f: "pe_id ev \<notin> ms_id ` set (messages s)"
  shows "history_ok (snd (add_message ev body fmt st s))"
proof -
  note none = no_revision [OF h f]
  note empty = no_revisions [OF h f]
  define r where "r = \<lparr>rv_event = pe_id ev, rv_no = 0, rv_body = body, rv_at = pe_created ev,
       rv_edit = None, rv_reason = None\<rparr>"
  have "(pe_id ev, 0) \<notin> set (map (\<lambda>q. (rv_event q, rv_no q)) (message_revisions s))"
    using none by fastforce
  then have w: "snd (add_message ev body fmt st s) = s\<lparr>messages := messages s @ [new_message ev body fmt st],
      message_revisions := message_revisions s @ [r]\<rparr>"
    by (simp add: add_message_def insert_revision_def prog_run r_def)
  have "revisions_of (s\<lparr>messages := ms, message_revisions := message_revisions s @ [r]\<rparr>) mid =
      revisions_of s mid @ (if mid = pe_id ev then [r] else [])" for ms mid
    by (simp add: revisions_of_def select_def r_def)
  moreover have "message_history [r] (new_message ev body fmt st)"
    by (simp add: message_history_def r_def new_message_def)
  moreover have "ms_id (new_message ev body fmt st) = pe_id ev" by (simp add: new_message_def)
  moreover have "rv_event r = pe_id ev" by (simp add: r_def)
  moreover have "ms_id m \<noteq> pe_id ev" if "m \<in> set (messages s)" for m using that f by (metis imageI)
  ultimately show ?thesis
    using h f empty unfolding w history_ok_def by (simp add: unique_key_append)
qed

text \<open>A write that keeps identity, texts and retraction of every message keeps the history.\<close>

lemma history_ok_messages:
  assumes "history_ok s" and "\<And>m. ms_id (f m) = ms_id m"
    and "\<And>m rs. P m \<Longrightarrow> message_history rs m \<Longrightarrow> message_history rs (f m)"
  shows "history_ok (messages_update (update_where P f) s)"
  using assms unfolding history_ok_def revisions_of_def
  by (simp add: unique_key_update key_set_update ball_update_where)

lemma logged_ids_iff: "x \<in> set (logged_ids s rid) \<longleftrightarrow> (\<exists>e \<in> set (events s). ev_rel e = rid \<and> ev_id e = x)"
  by (auto simp: logged_ids_def select_def)

lemma history_ok_wipe:
  assumes h: "history_ok s" and l: "messages_logged (events s) s" and u: "unique_key ev_id (events s)"
  shows "history_ok (wipe rid s)"
proof -
  have survives: "ms_id m \<notin> set (logged_ids s rid) \<longleftrightarrow> ms_rel m \<noteq> rid" if m: "m \<in> set (messages s)" for m
  proof -
    obtain e where e: "e \<in> set (events s)" "ev_id e = ms_id m" "ev_rel e = ms_rel m"
      using l m by (auto simp: messages_logged_def)
    have "e' = e" if "e' \<in> set (events s)" "ev_id e' = ms_id m" for e'
      using unique_key_same [OF u that(1) e(1)] that e by simp
    then have "ms_id m \<in> set (logged_ids s rid) \<longleftrightarrow> ev_rel e = rid"
      using e(1,2) unfolding logged_ids_iff by blast
    then show ?thesis using e(3) by simp
  qed
  have rev: "revisions_of (wipe rid s) (ms_id m) = revisions_of s (ms_id m)"
    if "m \<in> set (messages s)" "ms_rel m \<noteq> rid" for m
    using survives [OF that(1)] that(2)
    by (auto simp: revisions_of_def wipe_def select_def delete_where_def intro!: filter_cong)
  have ms: "messages (wipe rid s) = delete_where (\<lambda>r. ms_rel r = rid) (messages s)"
    and rs: "message_revisions (wipe rid s) = delete_where (\<lambda>r. rv_event r \<in> set (logged_ids s rid)) (message_revisions s)"
    by (simp_all add: wipe_def)
  show ?thesis
    unfolding history_ok_def ms rs
  proof (intro conjI ballI)
    show "unique_key ms_id (delete_where (\<lambda>r. ms_rel r = rid) (messages s))"
      using h by (simp add: history_ok_def unique_key_delete)
  next
    fix r assume "r \<in> set (delete_where (\<lambda>r. rv_event r \<in> set (logged_ids s rid)) (message_revisions s))"
    then have r: "r \<in> set (message_revisions s)" "rv_event r \<notin> set (logged_ids s rid)"
      by (auto simp: set_delete_where)
    then obtain m where m: "m \<in> set (messages s)" "ms_id m = rv_event r"
      using h by (auto simp: history_ok_def)
    then show "rv_event r \<in> ms_id ` set (delete_where (\<lambda>r. ms_rel r = rid) (messages s))"
      using survives [OF m(1)] r by (auto simp: set_delete_where image_iff intro!: bexI [of _ m])
  next
    fix m assume "m \<in> set (delete_where (\<lambda>r. ms_rel r = rid) (messages s))"
    then show "message_history (revisions_of (wipe rid s) (ms_id m)) m"
      using rev h by (auto simp: set_delete_where history_ok_def)
  qed
qed

lemma history_irrelevant: "messages t = messages s \<Longrightarrow> message_revisions t = message_revisions s \<Longrightarrow>
  history_ok t = history_ok s"
  by (simp add: history_ok_def revisions_of_def)

text \<open>The invariant of a database whose log is \<open>es\<close>.\<close>

definition message_inv :: "event_row list \<Rightarrow> db \<Rightarrow> bool" where
  "message_inv es s \<longleftrightarrow> unique_key ev_id es \<and> events s = es \<and> messages_logged es s \<and> history_ok s"

lemma message_inv_irrelevant:
  "events t = events s \<Longrightarrow> messages t = messages s \<Longrightarrow> message_revisions t = message_revisions s \<Longrightarrow>
   message_inv es t = message_inv es s"
  by (simp only: message_inv_def messages_logged_def history_ok_def revisions_of_def)

lemma message_inv_update:
  assumes "message_inv es s" "\<And>m. ms_id (f m) = ms_id m" "\<And>m. ms_rel (f m) = ms_rel m"
    "\<And>m rs. P m \<Longrightarrow> message_history rs m \<Longrightarrow> message_history rs (f m)"
  shows "message_inv es (messages_update (update_where P f) s)"
proof -
  have "messages_logged es (messages_update (update_where P f) s)"
    using assms(1-3) by (simp add: message_inv_def messages_logged_def ball_update_where)
  moreover have "history_ok (messages_update (update_where P f) s)"
    using assms(1,2,4) by (intro history_ok_messages) (auto simp: message_inv_def)
  ultimately show ?thesis using assms(1) by (simp add: message_inv_def)
qed

lemma add_message_effect:
  "messages (snd (add_message ev body fmt st s)) = messages s @ [new_message ev body fmt st]"
  "events (snd (add_message ev body fmt st s)) = events s"
  by (simp_all add: add_message_def insert_revision_def prog_run)

lemma message_inv_insert:
  assumes "message_inv es s" "logged_in es ev" "pe_id ev \<notin> ms_id ` set (messages s)"
  shows "message_inv es (snd (add_message ev body fmt st s))"
proof -
  have "messages_logged es (snd (add_message ev body fmt st s))"
    using assms by (auto simp: message_inv_def messages_logged_def logged_in_def add_message_effect new_message_def)
  then show ?thesis using assms history_ok_insert by (simp add: message_inv_def add_message_effect)
qed

lemma write_edit_effect:
  "\<exists>P. messages (snd (write_edit ev tid body reason no s)) =
     update_where P (\<lambda>m. m\<lparr>ms_edited := True, ms_current := body\<rparr>) (messages s)"
  "events (snd (write_edit ev tid body reason no s)) = events s"
proof -
  have "messages s = update_where (\<lambda>_. False) (\<lambda>m. m\<lparr>ms_edited := True, ms_current := body\<rparr>) (messages s)"
    by (simp add: update_where_def)
  then show "\<exists>P. messages (snd (write_edit ev tid body reason no s)) =
     update_where P (\<lambda>m. m\<lparr>ms_edited := True, ms_current := body\<rparr>) (messages s)"
    by (auto simp: write_edit_def insert_revision_def seq_run prog_run)
qed (simp add: write_edit_def insert_revision_def seq_run prog_run)

lemma message_inv_edit:
  assumes "message_inv es s" "original_message s tid = Some m"
  shows "message_inv es (snd (write_edit ev tid body reason (last_revision s tid + 1) s))" (is "message_inv es ?t")
proof -
  obtain P where "messages ?t = update_where P (\<lambda>m. m\<lparr>ms_edited := True, ms_current := body\<rparr>) (messages s)"
    using write_edit_effect(1) by blast
  then have "messages_logged es ?t"
    using assms(1) by (simp add: message_inv_def messages_logged_def ball_update_where)
  moreover have "history_ok ?t" using assms by (intro history_ok_edit) (simp_all add: message_inv_def)
  ultimately show ?thesis using assms(1) unfolding message_inv_def write_edit_effect(2) by simp
qed

lemma message_inv_wipe: "message_inv es s \<Longrightarrow> message_inv es (wipe rid s)"
proof -
  assume i: "message_inv es s"
  then have "history_ok (wipe rid s)" by (intro history_ok_wipe) (auto simp: message_inv_def)
  moreover have "messages_logged es (wipe rid s)" "events (wipe rid s) = events s"
    using i by (simp_all add: message_inv_def messages_logged_def wipe_def set_delete_where)
  ultimately show ?thesis using i by (simp add: message_inv_def)
qed

lemma history_reply [simp]: "message_history rs (m\<lparr>ms_reply_state := st\<rparr>) = message_history rs m"
  by (simp add: message_history_def)

lemma history_tombstone: "message_history rs m \<Longrightarrow> message_history rs (m\<lparr>ms_retracted := True,
    ms_retraction := Some e, ms_retracted_at := Some t, ms_reason := reason\<rparr>)"
  by (simp add: message_history_def)

interpretation message_inv: rebuild_invariant "message_inv es" "logged_in es" for es
proof unfold_locales
  fix s
  assume i: "message_inv es s"
  show "message_inv es (snd (update_seq_state rid sender n observed s))" for rid sender n observed
    by (rule seq_state_irrelevant [where I = "message_inv es", OF _ i]) (rule message_inv_irrelevant, simp_all)
  show "logged_in es ev \<Longrightarrow> pe_id ev \<notin> ms_id ` set (messages s) \<Longrightarrow> st \<in> REPLY_STATES \<Longrightarrow>
    message_inv es (snd (add_message ev body fmt st s))" for ev body fmt st
    by (rule message_inv_insert [OF i])
  show "logged_in es ev \<Longrightarrow> original_message s tid = Some m \<Longrightarrow> ms_sender m = pe_sender ev \<Longrightarrow> \<not> ms_retracted m \<Longrightarrow>
    message_inv es (snd (write_edit ev tid body reason (last_revision s tid + 1) s))" for ev tid m body reason
    by (rule message_inv_edit [OF i])
  show "message_inv es (set_reply_state eid st s)" if "st \<in> REPLY_STATES" for eid st
    unfolding set_reply_state_def by (rule message_inv_update [OF i]) (simp_all add: history_tombstone)
  show "message_inv es (tombstone ev tid reason s)" for ev tid reason
    unfolding tombstone_def by (rule message_inv_update [OF i]) (simp_all add: history_tombstone)
  show "message_inv es (expire_one ref s)" for ref
  proof -
    have "message_inv es (s\<lparr>pending_refs := r\<rparr>)" for r
      using i by (subst message_inv_irrelevant [of _ s]) simp_all
    then show ?thesis
      unfolding expire_one_def Let_def set_reply_state_def
      by (simp only: split: if_split) (intro conjI impI message_inv_update, simp_all)
  qed
  show "message_inv es (wipe rid s)" for rid by (rule message_inv_wipe [OF i])
  show "staged_event s eid = Some ev \<Longrightarrow> logged_in es ev" for eid ev
    using i staged_logged by (auto simp: message_inv_def)
  show "ev \<in> set (relationship_events s rid) \<Longrightarrow> logged_in es ev" for ev rid
    using i replayed_logged by (auto simp: message_inv_def)
qed (auto simp: projection_writes rollback_def elim!: message_inv_irrelevant [THEN iffD2, rotated 3])

section \<open>Who wrote an edit or a retraction\<close>

definition authored :: "event_row list \<Rightarrow> str \<Rightarrow> str \<Rightarrow> bool" where
  "authored es author eid \<longleftrightarrow> (\<exists>e \<in> set es. ev_id e = eid \<and> ev_sender e = author)"

definition authors_ok :: "event_row list \<Rightarrow> db \<Rightarrow> bool" where
  "authors_ok es s \<longleftrightarrow> (\<forall>m \<in> set (messages s).
     (\<forall>r \<in> set (revisions_of s (ms_id m)). \<forall>eid. rv_edit r = Some eid \<longrightarrow> authored es (ms_sender m) eid) \<and>
     (\<forall>eid. ms_retraction m = Some eid \<longrightarrow> authored es (ms_sender m) eid))"

definition author_inv :: "event_row list \<Rightarrow> db \<Rightarrow> bool" where
  "author_inv es s \<longleftrightarrow> message_inv es s \<and> authors_ok es s"

lemma author_inv_irrelevant:
  "events t = events s \<Longrightarrow> messages t = messages s \<Longrightarrow> message_revisions t = message_revisions s \<Longrightarrow>
   author_inv es t = author_inv es s"
  by (simp only: author_inv_def authors_ok_def message_inv_def messages_logged_def history_ok_def revisions_of_def)

lemma logged_author: "logged_in es ev \<Longrightarrow> authored es (pe_sender ev) (pe_id ev)"
  by (auto simp: logged_in_def authored_def)

lemma authors_ok_update:
  assumes "authors_ok es s" "\<And>m. ms_id (f m) = ms_id m" "\<And>m. ms_sender (f m) = ms_sender m"
    and "\<And>m eid. m \<in> set (messages s) \<Longrightarrow> P m \<Longrightarrow> ms_retraction (f m) = Some eid \<Longrightarrow>
      ms_retraction m = Some eid \<or> authored es (ms_sender m) eid"
  shows "authors_ok es (messages_update (update_where P f) s)"
proof -
  have "authored es (ms_sender m) eid" if "m \<in> set (messages s)" "P m" "ms_retraction (f m) = Some eid" for m eid
    using assms(1) assms(4) [OF that] that(1) unfolding authors_ok_def by blast
  then show ?thesis
    using assms(1-3) unfolding authors_ok_def revisions_of_def by (auto simp: ball_update_where)
qed

lemma author_message: "author_inv es s \<Longrightarrow> original_message s tid = Some m \<Longrightarrow> x \<in> set (messages s) \<Longrightarrow>
  ms_id x = tid \<Longrightarrow> x = m"
  using fetchone_key [of ms_id "messages s" x]
  by (simp add: author_inv_def message_inv_def history_ok_def original_message_def)

lemma author_inv_edit:
  assumes i: "author_inv es s" and k: "logged_in es ev" and m: "original_message s tid = Some m"
    and a: "ms_sender m = pe_sender ev"
  shows "author_inv es (snd (write_edit ev tid body reason (last_revision s tid + 1) s))" (is "author_inv es ?t")
proof -
  define r where "r = \<lparr>rv_event = tid, rv_no = last_revision s tid + 1, rv_body = body, rv_at = pe_created ev,
            rv_edit = Some (pe_id ev), rv_reason = reason\<rparr>"
  have h: "history_ok s" and mi: "message_inv es s" and ao: "authors_ok es s"
    using i by (simp_all add: author_inv_def message_inv_def)
  define s1 where "s1 = message_revisions_update (\<lambda>t. t @ [r]) s"
  have w: "?t = messages_update (update_where (\<lambda>m. ms_id m = tid) (\<lambda>m. m\<lparr>ms_edited := True, ms_current := body\<rparr>)) s1"
    using revision_no_free [OF h m] by (simp add: write_edit_def insert_revision_def prog_run seq_run r_def s1_def)
  have "authors_ok es s1"
    unfolding authors_ok_def
  proof (intro ballI)
    fix x assume x: "x \<in> set (messages s1)"
    then have xs: "x \<in> set (messages s)" by (simp add: s1_def)
    have "authored es (ms_sender x) (pe_id ev)" if "ms_id x = tid"
      using author_message [OF i m xs that] a logged_author [OF k] by simp
    moreover have "revisions_of s1 (ms_id x) = revisions_of s (ms_id x) @ (if ms_id x = tid then [r] else [])"
      by (simp add: s1_def revisions_of_def select_def r_def)
    moreover have "(\<forall>r \<in> set (revisions_of s (ms_id x)). \<forall>eid. rv_edit r = Some eid \<longrightarrow> authored es (ms_sender x) eid) \<and>
       (\<forall>eid. ms_retraction x = Some eid \<longrightarrow> authored es (ms_sender x) eid)"
      using ao xs by (simp add: authors_ok_def)
    ultimately show "(\<forall>r \<in> set (revisions_of s1 (ms_id x)). \<forall>eid. rv_edit r = Some eid \<longrightarrow> authored es (ms_sender x) eid) \<and>
       (\<forall>eid. ms_retraction x = Some eid \<longrightarrow> authored es (ms_sender x) eid)"
      by (auto simp: r_def split: if_splits)
  qed
  then have "authors_ok es ?t" unfolding w by (rule authors_ok_update) auto
  moreover have "message_inv es ?t" by (rule message_inv_edit [OF mi m])
  ultimately show ?thesis by (simp add: author_inv_def)
qed

lemma author_inv_insert:
  assumes i: "author_inv es s" and k: "logged_in es ev" and f: "pe_id ev \<notin> ms_id ` set (messages s)"
  shows "author_inv es (snd (add_message ev body fmt st s))" (is "author_inv es ?t")
proof -
  have mi: "message_inv es s" and ao: "authors_ok es s" using i by (simp_all add: author_inv_def)
  define r where "r = \<lparr>rv_event = pe_id ev, rv_no = 0, rv_body = body, rv_at = pe_created ev,
       rv_edit = None, rv_reason = None\<rparr>"
  have none: "revisions_of s (pe_id ev) = []"
    using mi f by (intro no_revisions) (simp_all add: message_inv_def)
  have old: "\<exists>l. revisions_of ?t mid = revisions_of s mid @ l \<and> set l \<subseteq> {r}" for mid
    by (auto simp: add_message_def insert_revision_def prog_run revisions_of_def select_def r_def)
  have "authors_ok es ?t"
    unfolding authors_ok_def
  proof (intro ballI)
    fix x assume x: "x \<in> set (messages ?t)"
    obtain l where l: "revisions_of ?t (ms_id x) = revisions_of s (ms_id x) @ l" "set l \<subseteq> {r}"
      using old by blast
    from x consider "x \<in> set (messages s)" | "x = new_message ev body fmt st"
      by (auto simp: add_message_effect)
    then show "(\<forall>r \<in> set (revisions_of ?t (ms_id x)). \<forall>eid. rv_edit r = Some eid \<longrightarrow> authored es (ms_sender x) eid) \<and>
       (\<forall>eid. ms_retraction x = Some eid \<longrightarrow> authored es (ms_sender x) eid)"
    proof cases
      case 1
      then show ?thesis using ao l by (fastforce simp: authors_ok_def r_def)
    next
      case 2
      then have "ms_id x = pe_id ev" "ms_retraction x = None" by (simp_all add: new_message_def)
      then show ?thesis using l none by (auto simp: r_def)
    qed
  qed
  then show ?thesis using message_inv_insert [OF mi k f] by (simp add: author_inv_def)
qed

lemma author_inv_wipe: "author_inv es s \<Longrightarrow> author_inv es (wipe rid s)"
  using message_inv_wipe [of es s rid]
  by (auto simp: author_inv_def authors_ok_def wipe_def revisions_of_def select_def set_delete_where)

lemma author_inv_update:
  assumes "author_inv es s" "message_inv es (messages_update (update_where P f) s)"
    "\<And>m. ms_id (f m) = ms_id m" "\<And>m. ms_sender (f m) = ms_sender m" "\<And>m. ms_retraction (f m) = ms_retraction m"
  shows "author_inv es (messages_update (update_where P f) s)"
  using assms by (auto simp: author_inv_def intro!: authors_ok_update)

lemma author_inv_reply: "author_inv es s \<Longrightarrow> author_inv es (set_reply_state eid st s)"
  unfolding set_reply_state_def
  by (rule author_inv_update) (auto simp: author_inv_def intro: message_inv_update)

interpretation author_inv: rebuild_invariant "author_inv es" "logged_in es" for es
proof unfold_locales
  fix s
  assume i: "author_inv es s"
  show "author_inv es (snd (update_seq_state rid sender n observed s))" for rid sender n observed
    by (rule seq_state_irrelevant [where I = "author_inv es", OF _ i]) (rule author_inv_irrelevant, simp_all)
  show "logged_in es ev \<Longrightarrow> pe_id ev \<notin> ms_id ` set (messages s) \<Longrightarrow> st \<in> REPLY_STATES \<Longrightarrow>
    author_inv es (snd (add_message ev body fmt st s))" for ev body fmt st
    by (rule author_inv_insert [OF i])
  show "logged_in es ev \<Longrightarrow> original_message s tid = Some m \<Longrightarrow> ms_sender m = pe_sender ev \<Longrightarrow> \<not> ms_retracted m \<Longrightarrow>
    author_inv es (snd (write_edit ev tid body reason (last_revision s tid + 1) s))" for ev tid m body reason
    by (rule author_inv_edit [OF i])
  show "author_inv es (set_reply_state eid st s)" for eid st by (rule author_inv_reply [OF i])
  show "author_inv es (tombstone ev tid reason s)"
    if "logged_in es ev" "original_message s tid = Some m" "ms_sender m = pe_sender ev" for ev tid m reason
  proof -
    have "authors_ok es (tombstone ev tid reason s)"
      unfolding tombstone_def using i author_message [OF i that(2)] that(3) logged_author [OF that(1)]
      by (intro authors_ok_update) (auto simp: author_inv_def)
    moreover have "message_inv es (tombstone ev tid reason s)"
      using i that by (simp add: author_inv_def message_inv.tombstone_law message_inv_update history_tombstone tombstone_def)
    ultimately show ?thesis by (simp add: author_inv_def)
  qed
  show "author_inv es (expire_one ref s)" for ref
  proof -
    have "author_inv es (s\<lparr>pending_refs := r\<rparr>)" for r
      using i by (subst author_inv_irrelevant [of _ s]) simp_all
    then show ?thesis
      unfolding expire_one_def Let_def by (simp only: split: if_split) (intro conjI impI author_inv_reply, simp_all)
  qed
  show "author_inv es (wipe rid s)" for rid by (rule author_inv_wipe [OF i])
  show "staged_event s eid = Some ev \<Longrightarrow> logged_in es ev" for eid ev
    using i staged_logged by (auto simp: author_inv_def message_inv_def)
  show "ev \<in> set (relationship_events s rid) \<Longrightarrow> logged_in es ev" for ev rid
    using i replayed_logged by (auto simp: author_inv_def message_inv_def)
qed (auto simp: projection_writes rollback_def elim!: author_inv_irrelevant [THEN iffD2, rotated 3])

section \<open>Properties\<close>

definition sample_log :: "event_row list" where
  "sample_log = map (\<lambda>(eid, n, t). \<lparr>ev_id = eid, ev_rel = ''r'', ev_conv = ''c'', ev_thread = None, ev_sender = ''alice'',
     ev_seq = n, ev_created = ''2025-01-01T10:00:00Z'', ev_epoch = 1, ev_type = t, ev_nonce = eid, ev_sealed = []\<rparr>)
     [(''m1'', 1, ''message.created''), (''m2'', 2, ''message.edited'')]"

definition sample_db :: db where
  "sample_db = empty_db\<lparr>events := sample_log, conversations := [''c'']\<rparr>"

lemma sample_logged: "\<forall>ev \<in> applied sample_history. logged_in sample_log ev"
  unfolding sample_applied by (simp add: sample_events logged_in_def sample_log_def)

lemma sample_author_inv: "author_inv sample_log sample_db"
  by (simp add: author_inv_def authors_ok_def message_inv_def messages_logged_def history_ok_def sample_db_def
      sample_log_def empty_db_def unique_key_def)

lemma sample_texts:
  "map ms_current (messages (fold projection_step sample_history sample_db)) = [''hello'']"
  "map rv_body (message_revisions (fold projection_step sample_history sample_db)) = [''hi'', ''hello'']"
  by (simp_all add: sample_history_def sample_events sample_db_def sample_log_def empty_db_def projection_eval)

text \<open>C29. A message and its revisions tell one story. Through every history of applied logged events,
  rebuilds and expiries: the revisions of a message are numbered without holes from 0 in the order
  they were written, revision 0 is the original text, the last one is the current text, the message is
  flagged edited exactly if there is more than one, and a retraction is recorded completely or not at
  all; there is no revision without its message.\<close>
theorem revisions_tell_the_message:
  assumes "message_inv es s" "\<forall>ev \<in> applied ops. logged_in es ev" and t: "t = fold projection_step ops s"
  shows "(\<forall>m \<in> set (messages t). message_history (revisions_of t (ms_id m)) m) \<and>
    (\<forall>r \<in> set (message_revisions t). rv_event r \<in> ms_id ` set (messages t))"
  using message_inv.any_history_kept [OF assms(1,2)] unfolding t [symmetric] by (simp add: message_inv_def history_ok_def)

theorem revisions_tell_the_message_witness:
  "let t = fold projection_step sample_history sample_db in
   (\<forall>m \<in> set (messages t). message_history (revisions_of t (ms_id m)) m) \<and>
   map ms_current (messages t) = [''hello''] \<and> map rv_body (message_revisions t) = [''hi'', ''hello'']"
  using revisions_tell_the_message [OF _ sample_logged refl, of sample_db] sample_author_inv sample_texts
  by (simp add: author_inv_def)

text \<open>C18. Only its author changes a message. Through every history of applied logged events, rebuilds
  and expiries, each revision after the original and each retraction names an event of the log that the
  author of the message sent.\<close>
theorem only_the_author_edits:
  assumes "author_inv es s" "\<forall>ev \<in> applied ops. logged_in es ev" and t: "t = fold projection_step ops s"
  shows "\<forall>m \<in> set (messages t).
    (\<forall>r \<in> set (revisions_of t (ms_id m)). \<forall>eid. rv_edit r = Some eid \<longrightarrow> authored es (ms_sender m) eid) \<and>
    (ms_retracted m \<longrightarrow> (\<exists>eid. ms_retraction m = Some eid \<and> authored es (ms_sender m) eid))"
proof -
  have "author_inv es t" using author_inv.any_history_kept [OF assms(1,2)] t by simp
  then have a: "authors_ok es t" and h: "history_ok t" by (simp_all add: author_inv_def message_inv_def)
  have "\<exists>eid. ms_retraction m = Some eid" if "m \<in> set (messages t)" "ms_retracted m" for m
    using h that by (auto simp: history_ok_def message_history_def)
  then show ?thesis using a unfolding authors_ok_def by blast
qed

theorem only_the_author_edits_witness:
  "let t = fold projection_step sample_history sample_db in
   \<forall>m \<in> set (messages t). \<forall>r \<in> set (revisions_of t (ms_id m)). \<forall>eid. rv_edit r = Some eid \<longrightarrow>
     authored sample_log (ms_sender m) eid"
  using only_the_author_edits [OF sample_author_inv sample_logged refl] by (simp add: Let_def)

section \<open>Pages of a conversation\<close>

definition conversation_of :: "db \<Rightarrow> str \<Rightarrow> str \<Rightarrow> message_row list" where
  "conversation_of s rid conv = select (\<lambda>m. ms_rel m = rid \<and> ms_conv m = conv) (messages s)"

lemma filter_below:
  fixes f :: "'a \<Rightarrow> 'b::linorder"
  assumes "sorted_wrt (<) (map f (a @ m # b))"
  shows "filter (\<lambda>x. f x < f m) (a @ m # b) = a"
proof -
  have "\<forall>x \<in> set a. f x < f m" "\<forall>x \<in> set b. f m < f x" using assms by (auto simp: sorted_wrt_append)
  then show ?thesis by (fastforce simp: filter_empty_conv intro!: filter_True)
qed

lemma strictly_sorted: "distinct (map f xs) \<Longrightarrow> sorted_wrt (<) (map f (sort_key f xs))"
  by (simp add: strict_sorted_iff distinct_map)

text \<open>C35. Paging through a conversation shows every message once, in order. The messages come ordered by
  creation time, sender and sender sequence; a limit keeps the last ones of the range; and with the id of
  a message as cursor the range is what comes before that message, so the page before a page ends where
  the page begins.\<close>
theorem pages_cover_the_conversation:
  assumes "unique_key ms_id (messages s)" and d: "distinct (map message_order (conversation_of s rid conv))"
  shows "\<exists>ms. get_conversation s rid conv None None = Inr (map (message_view s) ms) \<and>
    set ms = set (conversation_of s rid conv) \<and> sorted_wrt (<) (map message_order ms) \<and>
    (\<forall>n \<ge> 0. get_conversation s rid conv (Some n) None = Inr (map (message_view s) (take_last (nat n) ms))) \<and>
    (\<forall>a m b. ms = a @ m # b \<longrightarrow>
      get_conversation s rid conv None (Some (ms_id m)) = Inr (map (message_view s) a) \<and>
      (\<forall>n \<ge> 0. get_conversation s rid conv (Some n) (Some (ms_id m)) = Inr (map (message_view s) (take_last (nat n) a))))"
proof (intro exI conjI)
  let ?mine = "conversation_of s rid conv" and ?ms = "sort_key message_order (conversation_of s rid conv)"
  show "get_conversation s rid conv None None = Inr (map (message_view s) ?ms)"
    by (simp add: get_conversation_def conversation_of_def)
  show "set ?ms = set ?mine" by simp
  show sorted: "sorted_wrt (<) (map message_order ?ms)" by (rule strictly_sorted [OF d])
  show "\<forall>n \<ge> 0. get_conversation s rid conv (Some n) None = Inr (map (message_view s) (take_last (nat n) ?ms))"
    by (simp add: get_conversation_def conversation_of_def)
  show "\<forall>a m b. ?ms = a @ m # b \<longrightarrow>
      get_conversation s rid conv None (Some (ms_id m)) = Inr (map (message_view s) a) \<and>
      (\<forall>n \<ge> 0. get_conversation s rid conv (Some n) (Some (ms_id m)) = Inr (map (message_view s) (take_last (nat n) a)))"
  proof (intro allI impI)
    fix a m b assume ms: "?ms = a @ m # b"
    then have "m \<in> set ?ms" by simp
    then have m: "m \<in> set ?mine" by simp
    have "unique_key ms_id ?mine"
      using assms(1) by (simp add: conversation_of_def select_def unique_key_def distinct_map_filter)
    from fetchone_key [OF this m]
    have f: "fetchone (\<lambda>x. ms_id x = ms_id m) (select (\<lambda>m. ms_rel m = rid \<and> ms_conv m = conv) (messages s)) = Some m"
      by (simp add: conversation_of_def)
    have "sort_key message_order (select (\<lambda>x. message_order x < message_order m) ?mine) =
        filter (\<lambda>x. message_order x < message_order m) ?ms"
      by (simp add: select_def filter_sort)
    also have "\<dots> = a" using filter_below [of message_order a m b] sorted unfolding ms by simp
    finally have a: "sort_key message_order (select (\<lambda>x. message_order x < message_order m)
        (select (\<lambda>m. ms_rel m = rid \<and> ms_conv m = conv) (messages s))) = a"
      by (simp add: conversation_of_def)
    show "get_conversation s rid conv None (Some (ms_id m)) = Inr (map (message_view s) a) \<and>
      (\<forall>n \<ge> 0. get_conversation s rid conv (Some n) (Some (ms_id m)) = Inr (map (message_view s) (take_last (nat n) a)))"
      by (simp add: get_conversation_def f a)
  qed
qed

definition sample_second :: message_row where
  "sample_second = (new_message sample_message ''bye'' ''plain'' ''ok'')\<lparr>ms_id := ''m3'', ms_seq := 2\<rparr>"

theorem pages_cover_the_conversation_witness:
  "let s = empty_db\<lparr>messages := [sample_second, new_message sample_message ''hi'' ''plain'' ''ok'']\<rparr> in
   \<exists>ms. get_conversation s ''r'' ''c'' None None = Inr (map (message_view s) ms) \<and>
     get_conversation s ''r'' ''c'' (Some 1) None = Inr (map (message_view s) (take_last 1 ms)) \<and>
     set ms = {sample_second, new_message sample_message ''hi'' ''plain'' ''ok''}"
proof -
  define s where "s = empty_db\<lparr>messages := [sample_second, new_message sample_message ''hi'' ''plain'' ''ok'']\<rparr>"
  have c: "conversation_of s ''r'' ''c'' = [sample_second, new_message sample_message ''hi'' ''plain'' ''ok'']"
    by (simp add: conversation_of_def s_def select_def sample_second_def new_message_def sample_message_def)
  have "unique_key ms_id (messages s)" "distinct (map message_order (conversation_of s ''r'' ''c''))"
    unfolding c by (simp_all add: s_def unique_key_def message_order_def sample_second_def new_message_def sample_message_def)
  from pages_cover_the_conversation [OF this] obtain ms where
    "get_conversation s ''r'' ''c'' None None = Inr (map (message_view s) ms)"
    "set ms = set (conversation_of s ''r'' ''c'')"
    "\<forall>n \<ge> 0. get_conversation s ''r'' ''c'' (Some n) None = Inr (map (message_view s) (take_last (nat n) ms))"
    by blast
  then have "get_conversation s ''r'' ''c'' None None = Inr (map (message_view s) ms) \<and>
     get_conversation s ''r'' ''c'' (Some 1) None = Inr (map (message_view s) (take_last 1 ms)) \<and>
     set ms = {sample_second, new_message sample_message ''hi'' ''plain'' ''ok''}"
    unfolding c by simp
  then show ?thesis unfolding Let_def s_def by blast
qed

end
