(* ===== verification/Interactions.thy ===== *)
theory Interactions
  imports ProjectionInv
begin

text \<open>
  Reactions, polls, human answers, tasks and deliveries (\<open>store/projections.py\<close>): the bound on
  active reactions, the validity and the count of poll responses, the evidence behind a local
  attestation, and the states no later event leaves. Each is an interpretation of
  \<open>projection_invariant\<close>. A wipe of one relationship deletes responses by the relationship of the
  response event and polls by their own, so the count of a poll is an invariant of applying events,
  not of rebuilding a relationship others responded from.
\<close>

section \<open>Single rows\<close>

lemma update_key_split:
  assumes "unique_key k t" "r \<in> set t"
  shows "\<exists>a b. t = a @ r # b \<and> update_where (\<lambda>q. k q = k r) f t = a @ f r # b"
proof -
  obtain a b where t: "t = a @ r # b" using assms(2) by (meson split_list)
  have "k r \<notin> k ` set a" "k r \<notin> k ` set b" using assms(1) unfolding t by (simp_all add: unique_key_def)
  then have "\<forall>q \<in> set a \<union> set b. k q \<noteq> k r" by (metis UnE imageI)
  then have "update_where (\<lambda>q. k q = k r) f a = a" "update_where (\<lambda>q. k q = k r) f b = b"
    by (auto simp: update_where_def intro!: map_idI)
  then show ?thesis using t by (auto simp: update_where_def)
qed

lemma rowcount_update_key:
  assumes "unique_key k t" "r \<in> set t"
  shows "rowcount P (update_where (\<lambda>q. k q = k r) f t) + (if P r then 1 else 0) =
    rowcount P t + (if P (f r) then 1 else 0)"
  using update_key_split [OF assms, of f] by (auto simp: rowcount_def)

lemma rowcount_update_le:
  "(\<And>r. P (f r) \<Longrightarrow> P r) \<Longrightarrow> rowcount P (update_where Q f t) \<le> rowcount P t"
  by (induction t) (auto simp: rowcount_def update_where_def)

lemma rowcount_le_filter: "(\<And>r. P r \<Longrightarrow> Q r) \<Longrightarrow> rowcount P t \<le> rowcount Q t"
  by (induction t) (auto simp: rowcount_def)

section \<open>Reactions\<close>

definition reaction_inv :: "db \<Rightarrow> bool" where
  "reaction_inv s \<longleftrightarrow> unique_key reaction_key (reactions s) \<and>
     (\<forall>tid sender. active_reactions s tid sender \<le> MAX_ACTIVE_REACTIONS_PER_SENDER_TARGET)"

lemma reaction_of_key: "reaction_of s tid sender emoji = fetchone (\<lambda>r. reaction_key r = (tid, sender, emoji)) (reactions s)"
  by (simp add: reaction_of_def reaction_key_def)

lemma reaction_count_added:
  assumes u: "unique_key reaction_key (reactions s)"
  shows "active_reactions (add_reaction ev tid emoji s) t n =
    (if t = tid \<and> n = pe_sender ev \<and> \<not> (\<exists>r. reaction_of s tid (pe_sender ev) emoji = Some r \<and> rc_active r)
     then active_reactions s t n + 1 else active_reactions s t n)"
proof -
  define new where "new = \<lparr>rc_target = tid, rc_sender = pe_sender ev, rc_emoji = emoji, rc_active = True,
      rc_added = pe_id ev, rc_added_at = pe_created ev, rc_removed = None, rc_removed_at = None\<rparr>"
  define f where "f = (\<lambda>r::reaction_row. r\<lparr>rc_active := True, rc_added := pe_id ev, rc_added_at := pe_created ev,
            rc_removed := None, rc_removed_at := None\<rparr>)"
  define P where "P = (\<lambda>r::reaction_row. rc_target r = t \<and> rc_sender r = n \<and> rc_active r)"
  have add: "reactions (add_reaction ev tid emoji s) = upsert reaction_key new f (reactions s)"
    by (simp add: add_reaction_def new_def f_def)
  have key: "reaction_key new = (tid, pe_sender ev, emoji)" by (simp add: new_def reaction_key_def)
  show ?thesis
  proof (cases "reaction_of s tid (pe_sender ev) emoji")
    case None
    then have "reaction_key new \<notin> set (map reaction_key (reactions s))"
      by (auto simp: reaction_of_key fetchone_None key)
    then show ?thesis
      using None by (simp add: active_reactions_def add upsert_def rowcount_append) (auto simp: new_def)
  next
    case (Some r)
    then have r: "r \<in> set (reactions s)" "reaction_key r = reaction_key new"
      using fetchone_Some_mem by (fastforce simp: reaction_of_key key)+
    then have "reactions (add_reaction ev tid emoji s) = update_where (\<lambda>q. reaction_key q = reaction_key r) f (reactions s)"
      using imageI [OF r(1), of reaction_key] by (simp add: add upsert_def)
    moreover have "P (f r) \<longleftrightarrow> t = tid \<and> n = pe_sender ev" "P r \<longleftrightarrow> t = tid \<and> n = pe_sender ev \<and> rc_active r"
      using r(2) key by (auto simp: P_def f_def reaction_key_def)
    moreover have "active_reactions x t n = rowcount P (reactions x)" for x
      by (simp add: active_reactions_def P_def)
    ultimately show ?thesis
      using rowcount_update_key [OF u r(1), of P f] Some by (auto split: if_splits)
  qed
qed

lemma reaction_inv_add:
  assumes "reaction_inv s" "(\<exists>r. reaction_of s tid (pe_sender ev) emoji = Some r \<and> rc_active r) \<or>
        active_reactions s tid (pe_sender ev) < MAX_ACTIVE_REACTIONS_PER_SENDER_TARGET"
  shows "reaction_inv (add_reaction ev tid emoji s)"
proof -
  have u: "unique_key reaction_key (reactions s)" using assms(1) by (simp add: reaction_inv_def)
  then have "unique_key reaction_key (reactions (add_reaction ev tid emoji s))"
    by (simp add: add_reaction_def unique_key_upsert reaction_key_def)
  moreover have "active_reactions (add_reaction ev tid emoji s) t n \<le> MAX_ACTIVE_REACTIONS_PER_SENDER_TARGET" for t n
    unfolding reaction_count_added [OF u] using assms by (auto simp: reaction_inv_def)
  ultimately show ?thesis by (simp add: reaction_inv_def)
qed

lemma reaction_inv_smaller:
  assumes "reaction_inv s" "unique_key reaction_key (reactions t)"
    "\<And>tid n. active_reactions t tid n \<le> active_reactions s tid n"
  shows "reaction_inv t"
  using assms(1,2) le_trans [OF assms(3)] unfolding reaction_inv_def by blast

interpretation reaction_inv: rebuild_invariant reaction_inv "\<lambda>_. True"
proof unfold_locales
  fix s
  assume i: "reaction_inv s"
  show "reaction_inv (snd (update_seq_state rid sender n observed s))" for rid sender n observed
    by (rule seq_state_irrelevant [where I = reaction_inv, OF _ i]) (simp add: reaction_inv_def active_reactions_def)
  show "(\<exists>r. reaction_of s tid (pe_sender ev) emoji = Some r \<and> rc_active r) \<or>
     active_reactions s tid (pe_sender ev) < MAX_ACTIVE_REACTIONS_PER_SENDER_TARGET \<Longrightarrow>
     reaction_inv (add_reaction ev tid emoji s)" for tid ev emoji
    by (rule reaction_inv_add [OF i])
  show "reaction_inv (remove_reaction ev tid emoji s)" for ev tid emoji
    using i by (intro reaction_inv_smaller [OF i])
      (auto simp: reaction_inv_def remove_reaction_def reaction_key_def unique_key_update active_reactions_def intro: rowcount_update_le)
  show "reaction_inv (wipe rid s)" for rid
    using i by (intro reaction_inv_smaller [OF i])
      (auto simp: reaction_inv_def wipe_def unique_key_delete active_reactions_def intro: rowcount_delete_le)
qed (simp_all add: reaction_inv_def active_reactions_def projection_writes projection_programs prog_run seq_run rollback_def)

section \<open>Polls\<close>

definition valid_response :: "poll_row \<Rightarrow> poll_response_row \<Rightarrow> bool" where
  "valid_response p r \<longleftrightarrow> pr_choices r \<noteq> [] \<and> distinct (pr_choices r) \<and> set (pr_choices r) \<subseteq> set (po_choices p) \<and>
     (po_multi p \<or> length (pr_choices r) = 1) \<and> pr_at r < po_closes p"

definition poll_inv :: "db \<Rightarrow> bool" where
  "poll_inv s \<longleftrightarrow> unique_key po_id (polls s) \<and> unique_key response_key (poll_responses s) \<and>
     (\<forall>r \<in> set (poll_responses s). \<exists>p \<in> set (polls s). po_id p = pr_poll r \<and> valid_response p r) \<and>
     (\<forall>p \<in> set (polls s). po_created p < po_closes p \<and>
        po_count p = rowcount (\<lambda>r. pr_poll r = po_id p) (poll_responses s))"

lemma valid_count [simp]: "valid_response (p\<lparr>po_count := n\<rparr>) r = valid_response p r"
  by (simp add: valid_response_def)

lemma response_check_valid:
  "response_check p choices now = Inr () \<Longrightarrow> pr_choices r = choices \<Longrightarrow> pr_at r = now \<Longrightarrow> valid_response p r"
  by (auto simp: response_check_def valid_response_def list_all_iff not_le split: if_splits)

lemma poll_inv_response:
  assumes i: "poll_inv s" and p: "fetchone (\<lambda>p. po_id p = poll) (polls s) = Some p"
    and c: "response_check p choices now = Inr ()"
  shows "poll_inv (recount poll (store_response ev poll choices confirmed approval now s))"
proof -
  define new where "new = \<lparr>pr_poll = poll, pr_sender = pe_sender ev, pr_choices = choices, pr_confirmed = confirmed,
      pr_approval = approval, pr_event = pe_id ev, pr_at = now\<rparr>"
  define f where "f = (\<lambda>r::poll_response_row. r\<lparr>pr_choices := choices, pr_confirmed := confirmed,
      pr_approval := approval, pr_event := pe_id ev, pr_at := now\<rparr>)"
  define rs where "rs = upsert response_key new f (poll_responses s)"
  define recounted where "recounted = (\<lambda>q::poll_row. if po_id q = poll then q\<lparr>po_count := rowcount (\<lambda>r. pr_poll r = poll) rs\<rparr> else q)"
  have t: "recount poll (store_response ev poll choices confirmed approval now s) =
      s\<lparr>poll_responses := rs, polls := map recounted (polls s)\<rparr>"
    by (simp add: recount_def store_response_def rs_def new_def f_def recounted_def update_where_def)
  have pp: "p \<in> set (polls s)" "po_id p = poll" using fetchone_Some_mem [OF p] by simp_all
  have rec: "po_id (recounted q) = po_id q" "po_created (recounted q) = po_created q" "po_closes (recounted q) = po_closes q"
    "valid_response (recounted q) r = valid_response q r" for q r by (simp_all add: recounted_def)
  have u: "unique_key po_id (map recounted (polls s))"
    using i rec by (simp add: poll_inv_def unique_key_def comp_def)
  have ur: "unique_key response_key rs"
    using i unfolding rs_def by (intro unique_key_upsert) (simp_all add: poll_inv_def response_key_def f_def)
  have valid: "\<exists>q \<in> set (map recounted (polls s)). po_id q = pr_poll r \<and> valid_response q r" if "r \<in> set rs" for r
  proof -
    have "(\<exists>q \<in> set (polls s). po_id q = pr_poll r \<and> valid_response q r)"
    proof (cases "r \<in> set (poll_responses s)")
      case True
      then show ?thesis using i by (auto simp: poll_inv_def)
    next
      case False
      then have "r = new \<or> (\<exists>q \<in> set (poll_responses s). response_key q = response_key new \<and> r = f q)"
        using that by (auto simp: rs_def upsert_def set_update_where split: if_splits)
      then have "pr_poll r = poll" "valid_response p r"
        using response_check_valid [OF c, of r] by (auto simp: new_def f_def response_key_def)
      then show ?thesis using pp by auto
    qed
    then obtain q where "q \<in> set (polls s)" "po_id q = pr_poll r" "valid_response q r" by blast
    then show ?thesis using rec by (intro bexI [of _ "recounted q"]) simp_all
  qed
  have other: "rowcount (\<lambda>r. pr_poll r = x) rs = rowcount (\<lambda>r. pr_poll r = x) (poll_responses s)" if "x \<noteq> poll" for x
    using that by (auto simp: rs_def upsert_def rowcount_append new_def f_def response_key_def intro!: rowcount_update_same)
  have "po_created q < po_closes q \<and> po_count q = rowcount (\<lambda>r. pr_poll r = po_id q) rs"
    if q: "q \<in> set (map recounted (polls s))" for q
  proof -
    obtain q0 where "q0 \<in> set (polls s)" "q = recounted q0" using q by auto
    then show ?thesis using i other rec by (auto simp: poll_inv_def recounted_def)
  qed
  then show ?thesis using u ur valid by (simp add: poll_inv_def t)
qed

lemma poll_inv_add:
  assumes i: "poll_inv s" and f: "pe_id ev \<notin> po_id ` set (polls s)" and c: "pe_created ev < closes"
  shows "poll_inv (add_poll ev question choices closes multi s)"
proof -
  have "pr_poll r \<noteq> pe_id ev" if "r \<in> set (poll_responses s)" for r
    using i f that unfolding poll_inv_def by (metis imageI)
  then have "rowcount (\<lambda>r. pr_poll r = pe_id ev) (poll_responses s) = 0" by (auto simp: rowcount_zero)
  then show ?thesis
    using i f c unfolding poll_inv_def by (simp add: add_poll_def unique_key_append)
qed

interpretation poll_inv: projection_invariant poll_inv "\<lambda>_. True"
proof unfold_locales
  fix s
  assume i: "poll_inv s"
  show "poll_inv (snd (update_seq_state rid sender n observed s))" for rid sender n observed
    by (rule seq_state_irrelevant [where I = poll_inv, OF _ i]) (simp add: poll_inv_def)
  show "fetchone (\<lambda>p. po_id p = poll) (polls s) = Some p \<Longrightarrow> response_check p choices now = Inr () \<Longrightarrow>
    poll_inv (recount poll (store_response ev poll choices confirmed ap now s))" for poll p choices now ev confirmed ap
    by (rule poll_inv_response [OF i])
  show "pe_id ev \<notin> po_id ` set (polls s) \<Longrightarrow> pe_created ev < closes \<Longrightarrow>
    poll_inv (add_poll ev question choices closes multi s)" for ev question choices closes multi
    by (rule poll_inv_add [OF i])
qed (simp_all add: poll_inv_def projection_writes projection_programs prog_run seq_run)

section \<open>Human answers\<close>

definition human_inv :: "db \<Rightarrow> bool" where
  "human_inv s \<longleftrightarrow> (\<forall>r \<in> set (human_requests s). hr_attestation r = ''local'' \<longrightarrow>
     (\<exists>a \<in> set (human_approvals s). hr_approval r = Some (ap_id a)))"

lemma attestation_local:
  "human_response_attestation s ev approval = ''local'' \<Longrightarrow>
   approval \<in> ap_id ` set (human_approvals s) \<and> (\<forall>r. relationship_of s (pe_rel ev) = Some r \<longrightarrow> pe_sender ev \<noteq> rl_peer r)"
  by (auto simp: human_response_attestation_def split: option.splits if_splits)

interpretation human_inv: rebuild_invariant human_inv "\<lambda>_. True"
proof unfold_locales
  fix s
  assume i: "human_inv s"
  show "human_inv (snd (update_seq_state rid sender n observed s))" for rid sender n observed
    by (rule seq_state_irrelevant [where I = human_inv, OF _ i]) (simp add: human_inv_def)
  show "human_inv (answer_request ev req answer approved approval (human_response_attestation s ev approval) s)"
    for ev req answer approved approval
    using i attestation_local [of s ev approval]
    by (auto simp: human_inv_def answer_request_def ball_update_where)
  show "human_inv (wipe rid s)" for rid using i by (simp add: human_inv_def wipe_def set_delete_where)
qed (simp_all add: human_inv_def projection_writes projection_programs prog_run seq_run rollback_def)

section \<open>States no later event leaves\<close>

text \<open>\<open>latest\<close> abstracts a message from the state of its reply reference, which may still change.\<close>

definition final_task :: "task_row \<Rightarrow> db \<Rightarrow> bool" where
  "final_task t s \<longleftrightarrow> unique_key tk_id (tasks s) \<and> t \<in> set (tasks s) \<and> tk_status t \<in> set TASK_TERMINAL"

definition canceled_delivery :: "delivery_row \<Rightarrow> db \<Rightarrow> bool" where
  "canceled_delivery d s \<longleftrightarrow> unique_key dl_id (deliveries s) \<and> d \<in> set (deliveries s) \<and> dl_state d = ''canceled''"

definition latest :: "message_row \<Rightarrow> message_row" where
  "latest m = m\<lparr>ms_reply_state := []\<rparr>"

definition retracted_message :: "message_row \<Rightarrow> db \<Rightarrow> bool" where
  "retracted_message m s \<longleftrightarrow> unique_key ms_id (messages s) \<and> latest m \<in> latest ` set (messages s) \<and> ms_retracted m"

lemma stays_by_key: "r \<in> set t \<Longrightarrow> k r \<noteq> x \<Longrightarrow> r \<in> set (update_where (\<lambda>q. k q = x) f t)"
  by (auto simp: set_update_where)

lemma key_row: "unique_key k t \<Longrightarrow> r \<in> set t \<Longrightarrow> fetchone (\<lambda>q. k q = x) t = Some y \<Longrightarrow> r \<noteq> y \<Longrightarrow> k r \<noteq> x"
  using fetchone_key [of k t r] by auto

interpretation final_task: projection_invariant "final_task t" "\<lambda>_. True" for t
proof unfold_locales
  fix s
  assume i: "final_task t s"
  show "final_task t (snd (update_seq_state rid sender n observed s))" for rid sender n observed
    by (rule seq_state_irrelevant [where I = "final_task t", OF _ i]) (simp add: final_task_def)
  show "final_task t (set_task_status ev task status nt s)"
    if "fetchone (\<lambda>t. tk_id t = task) (tasks s) = Some q" "tk_status q \<notin> set TASK_TERMINAL" for ev task status nt q
    using i that key_row [of tk_id "tasks s" t task q]
    by (auto simp: final_task_def set_task_status_def unique_key_update intro: stays_by_key)
qed (simp_all add: final_task_def projection_writes projection_programs prog_run seq_run unique_key_append)

interpretation canceled_delivery: projection_invariant "canceled_delivery d" "\<lambda>_. True" for d
proof unfold_locales
  fix s
  assume i: "canceled_delivery d s"
  show "canceled_delivery d (snd (update_seq_state rid sender n observed s))" for rid sender n observed
    by (rule seq_state_irrelevant [where I = "canceled_delivery d", OF _ i]) (simp add: canceled_delivery_def)
  show "canceled_delivery d (cancel_delivery ev sid s)"
    if "fetchone (\<lambda>d. dl_id d = sid) (deliveries s) = Some q" "dl_state q \<noteq> ''canceled''" for ev sid q
    using i that key_row [of dl_id "deliveries s" d sid q]
    by (auto simp: canceled_delivery_def cancel_delivery_def unique_key_update intro: stays_by_key)
qed (simp_all add: canceled_delivery_def projection_writes projection_programs prog_run seq_run unique_key_append)

lemma latest_simps [simp]: "latest (m\<lparr>ms_reply_state := st\<rparr>) = latest m" "ms_id (latest m) = ms_id m"
  "ms_retracted (latest m) = ms_retracted m"
  by (simp_all add: latest_def)

lemma latest_inject: "latest q = latest m \<Longrightarrow> q\<lparr>ms_reply_state := ms_reply_state m\<rparr> = m"
  by (cases m, cases q) (simp add: latest_def)

lemma retracted_message_mem:
  "retracted_message m s \<Longrightarrow> \<exists>q \<in> set (messages s). latest q = latest m \<and> ms_id q = ms_id m \<and> ms_retracted q"
  unfolding retracted_message_def by (metis imageE latest_simps(2,3))

lemma retracted_message_update:
  assumes i: "retracted_message m s" and k: "\<And>q. ms_id (f q) = ms_id q" and o: "\<And>q. P q \<Longrightarrow> latest (f q) = latest q \<or> \<not> ms_retracted q \<or> ms_id q \<noteq> ms_id m"
  shows "retracted_message m (messages_update (update_where P f) s)"
proof -
  obtain q where q: "q \<in> set (messages s)" "latest q = latest m" "ms_id q = ms_id m" "ms_retracted q"
    using retracted_message_mem [OF i] by blast
  have "latest (if P q then f q else q) = latest m" using q o [of q] by auto
  moreover have "(if P q then f q else q) \<in> set (update_where P f (messages s))"
    using q(1) by (auto simp: update_where_def)
  ultimately have "latest m \<in> latest ` set (update_where P f (messages s))" by (metis imageI)
  then show ?thesis using i k by (simp add: retracted_message_def unique_key_update)
qed

lemma retracted_message_irrelevant: "messages t = messages s \<Longrightarrow> retracted_message m t = retracted_message m s"
  by (simp add: retracted_message_def)

lemma retracted_not_target:
  assumes "retracted_message m s" "original_message s tid = Some q" "\<not> ms_retracted q"
  shows "ms_id m \<noteq> tid"
proof
  assume t: "ms_id m = tid"
  obtain x where x: "x \<in> set (messages s)" "ms_id x = ms_id m" "ms_retracted x"
    using retracted_message_mem [OF assms(1)] by blast
  have "original_message s tid = Some x"
    using fetchone_key [of ms_id "messages s" x] assms(1) x t by (simp add: original_message_def retracted_message_def)
  then show False using assms(2,3) x by simp
qed

interpretation retracted_message: projection_invariant "retracted_message m" "\<lambda>_. True" for m
proof unfold_locales
  fix s
  assume i: "retracted_message m s"
  show "retracted_message m (snd (update_seq_state rid sender n observed s))" for rid sender n observed
    by (rule seq_state_irrelevant [where I = "retracted_message m", OF _ i]) (simp add: retracted_message_def)
  show "pe_id ev \<notin> ms_id ` set (messages s) \<Longrightarrow> retracted_message m (snd (add_message ev body fmt st s))" for ev body fmt st
    using i by (simp add: add_message_def insert_revision_def prog_run retracted_message_def unique_key_append new_message_def)
  show "retracted_message m (snd (write_edit ev tid body reason (last_revision s tid + 1) s))"
    if "original_message s tid = Some q" "\<not> ms_retracted q" for ev tid q body reason
  proof -
    have "retracted_message m (messages_update (update_where (\<lambda>m. ms_id m = tid) (\<lambda>m. m\<lparr>ms_edited := True, ms_current := body\<rparr>)) s)"
      using retracted_not_target [OF i that] by (intro retracted_message_update [OF i]) auto
    then show ?thesis
      using i by (simp add: write_edit_def insert_revision_def seq_run prog_run retracted_message_def)
  qed
  show "retracted_message m (tombstone ev tid reason s)"
    if "original_message s tid = Some q" "\<not> ms_retracted q" for ev tid q reason
    unfolding tombstone_def using retracted_not_target [OF i that] by (intro retracted_message_update [OF i]) auto
  show "retracted_message m (set_reply_state eid st s)" for eid st
    unfolding set_reply_state_def by (intro retracted_message_update [OF i]) auto
  show "retracted_message m (expire_one ref s)" for ref
  proof -
    have "retracted_message m (s\<lparr>pending_refs := r\<rparr>)" for r
      using i by (simp add: retracted_message_def)
    then show ?thesis
      unfolding expire_one_def Let_def set_reply_state_def
      by (simp only: split: if_split) (intro conjI impI retracted_message_update, simp_all)
  qed
qed (simp_all add: retracted_message_def projection_writes)

section \<open>Reactions as a set\<close>

definition reacted :: "db \<Rightarrow> (str \<times> str \<times> str) set" where
  "reacted s = reaction_key ` {r \<in> set (reactions s). rc_active r}"

lemma reaction_of_mem:
  assumes "unique_key reaction_key (reactions s)"
  shows "(tid, sender, emoji) \<in> reacted s \<longleftrightarrow> (\<exists>r. reaction_of s tid sender emoji = Some r \<and> rc_active r)"
proof
  assume "(tid, sender, emoji) \<in> reacted s"
  then obtain r where r: "r \<in> set (reactions s)" "rc_active r" "reaction_key r = (tid, sender, emoji)"
    by (auto simp: reacted_def)
  then show "\<exists>r. reaction_of s tid sender emoji = Some r \<and> rc_active r"
    using fetchone_key [OF assms r(1)] by (simp add: reaction_of_key)
next
  assume "\<exists>r. reaction_of s tid sender emoji = Some r \<and> rc_active r"
  then obtain r where r: "reaction_of s tid sender emoji = Some r" "rc_active r" by blast
  show "(tid, sender, emoji) \<in> reacted s"
    using fetchone_Some_mem [OF r(1) [unfolded reaction_of_key]] r(2) unfolding reacted_def by (metis (mono_tags, lifting) imageI mem_Collect_eq)
qed

lemma reacted_iff: "x \<in> reacted s \<longleftrightarrow> (\<exists>r \<in> set (reactions s). rc_active r \<and> reaction_key r = x)"
  by (auto simp: reacted_def)

lemma bex_update_where:
  "(\<exists>x \<in> set (update_where Q f t). P x) \<longleftrightarrow> (\<exists>x \<in> set t. if Q x then P (f x) else P x)"
  by (auto simp: update_where_def)

lemma reacted_upsert:
  assumes "\<And>r. reaction_key (f r) = reaction_key r" "\<And>r. rc_active (f r)" "rc_active new"
  shows "(\<exists>r \<in> set (upsert reaction_key new f t). rc_active r \<and> reaction_key r = x) \<longleftrightarrow>
    x = reaction_key new \<or> (\<exists>r \<in> set t. rc_active r \<and> reaction_key r = x)"
proof (cases "reaction_key new \<in> set (map reaction_key t)")
  case True
  then obtain r where "r \<in> set t" "reaction_key r = reaction_key new" by auto
  then show ?thesis using True assms by (simp add: upsert_def bex_update_where) metis
next
  case False
  then show ?thesis using assms by (auto simp: upsert_def)
qed

lemma reacted_add: "reacted (add_reaction ev tid emoji s) = insert (tid, pe_sender ev, emoji) (reacted s)"
proof (rule set_eqI)
  fix x show "x \<in> reacted (add_reaction ev tid emoji s) \<longleftrightarrow> x \<in> insert (tid, pe_sender ev, emoji) (reacted s)"
    unfolding reacted_iff insert_iff add_reaction_def
    by (simp, subst reacted_upsert) (auto simp: reaction_key_def)
qed

lemma reacted_remove: "reacted (remove_reaction ev tid emoji s) = reacted s - {(tid, pe_sender ev, emoji)}"
proof (rule set_eqI)
  have k: "(rc_target r = tid \<and> rc_sender r = pe_sender ev \<and> rc_emoji r = emoji) \<longleftrightarrow> reaction_key r = (tid, pe_sender ev, emoji)" for r
    by (simp add: reaction_key_def)
  fix x show "x \<in> reacted (remove_reaction ev tid emoji s) \<longleftrightarrow> x \<in> reacted s - {(tid, pe_sender ev, emoji)}"
    unfolding Diff_iff reacted_iff remove_reaction_def k by (auto simp: bex_update_where split: if_splits)
qed

lemma active_is_card:
  assumes u: "unique_key reaction_key (reactions s)"
  shows "active_reactions s tid sender = card {emoji. (tid, sender, emoji) \<in> reacted s}"
proof -
  let ?L = "filter (\<lambda>r. rc_target r = tid \<and> rc_sender r = sender \<and> rc_active r) (reactions s)"
  have "distinct (map reaction_key ?L)"
    using u by (simp add: unique_key_def distinct_map_filter)
  moreover have "map reaction_key ?L = map (\<lambda>e. (tid, sender, e)) (map rc_emoji ?L)"
    by (auto simp: reaction_key_def)
  ultimately have "distinct (map rc_emoji ?L)"
    by (auto simp: distinct_map intro: inj_on_imageI2)
  moreover have "set (map rc_emoji ?L) = {emoji. (tid, sender, emoji) \<in> reacted s}"
    by (auto simp: reacted_def reaction_key_def image_iff)
  ultimately show ?thesis
    using distinct_card [of "map rc_emoji ?L"] by (simp add: active_reactions_def rowcount_def)
qed

section \<open>Properties\<close>

text \<open>C30. The reaction handlers implement a set of triples (target, sender, emoji) with at most eight emoji
  per target and sender. With the target accepted, adding answers and inserts the triple if it is there
  already or the sender has fewer than eight on the target, and otherwise raises the cap error and
  changes nothing; removing takes the triple out, and does nothing if it is not there.\<close>
theorem reactions_refine_set:
  assumes u: "unique_key reaction_key (reactions s)" and p: "pe_payload ev = PReaction tid emoji"
    and target: "target_event s (pe_rel ev) tid \<noteq> None"
  shows "(let x = (tid, pe_sender ev, emoji); (r, t) = handle_reaction_added ev s; (r', t') = handle_reaction_removed ev s in
    (if x \<in> reacted s \<or> card {e. (tid, pe_sender ev, e) \<in> reacted s} < MAX_ACTIVE_REACTIONS_PER_SENDER_TARGET
     then is_ok r \<and> reacted t = insert x (reacted s)
     else r = Inl (ProjectionError ''reaction_cap_exceeded'') \<and> t = s) \<and>
    is_ok r' \<and> (if \<exists>q. reaction_of s tid (pe_sender ev) emoji = Some q \<and> rc_active q \<and> rc_removed q = Some (pe_id ev)
      then t' = s else reacted t' = reacted s - {x}))"
proof -
  obtain e where e: "target_event s (pe_rel ev) tid = Some e" using target by auto
  have c: "card {e. (tid, pe_sender ev, e) \<in> reacted s} = active_reactions s tid (pe_sender ev)"
    using active_is_card [OF u] by simp
  note m = reaction_of_mem [OF u, of tid "pe_sender ev" emoji]
  show ?thesis
    unfolding c handle_reaction_added_def handle_reaction_removed_def p
    using reacted_add [of ev tid emoji s] reacted_remove [of ev tid emoji s] m e
    by (cases "reaction_of s tid (pe_sender ev) emoji") (auto simp: prog_run Let_def not_less insert_absorb)
qed

definition sample_target :: db where
  "sample_target = empty_db\<lparr>events := [\<lparr>ev_id = ''m1'', ev_rel = ''r'', ev_conv = ''c'', ev_thread = None,
     ev_sender = ''bob'', ev_seq = 1, ev_created = ''2025-01-01T10:00:00Z'', ev_epoch = 1, ev_type = ''message.created'',
     ev_nonce = ''n'', ev_sealed = []\<rparr>]\<rparr>"

definition sample_reaction :: proj_event where
  "sample_reaction = sample_message\<lparr>pe_id := ''x1'', pe_type := ''reaction.added'', pe_payload := PReaction ''m1'' ''thumb''\<rparr>"

theorem reactions_refine_set_witness:
  "reacted (snd (handle_reaction_added sample_reaction sample_target)) = {(''m1'', ''alice'', ''thumb'')}"
proof -
  have "unique_key reaction_key (reactions sample_target)" "pe_payload sample_reaction = PReaction ''m1'' ''thumb''"
    "target_event sample_target (pe_rel sample_reaction) ''m1'' \<noteq> None"
    by (simp_all add: sample_target_def sample_reaction_def sample_message_def empty_db_def table_simps target_event_def fetchone_def)
  note reactions_refine_set [OF this]
  moreover have "reacted sample_target = {}" "pe_sender sample_reaction = ''alice''"
    by (simp_all add: reacted_def sample_target_def empty_db_def sample_reaction_def sample_message_def)
  ultimately show ?thesis by (simp add: Let_def split_beta MAX_ACTIVE_REACTIONS_PER_SENDER_TARGET_def)
qed

text \<open>C31. No sender ever has more than eight active reactions on one target, through every history of
  applied events, rebuilds and expiries.\<close>
theorem reaction_cap_holds:
  assumes "unique_key reaction_key (reactions s)"
    and "\<forall>tid sender. active_reactions s tid sender \<le> MAX_ACTIVE_REACTIONS_PER_SENDER_TARGET"
  shows "active_reactions (fold projection_step ops s) tid sender \<le> 8"
  using reaction_inv.any_history_kept [of s ops] assms
  by (simp add: reaction_inv_def MAX_ACTIVE_REACTIONS_PER_SENDER_TARGET_def)

theorem reaction_cap_holds_witness:
  "active_reactions (fold projection_step [(''2025-01-01T10:00:02Z'', Apply sample_reaction)] sample_target) ''m1'' ''alice'' \<le> 8"
  by (rule reaction_cap_holds)
    (simp_all add: sample_target_def empty_db_def table_simps active_reactions_def rowcount_def)

text \<open>C32. What a poll shows is what was validly answered, as long as nothing is rebuilt. Applying events and
  expiring references keeps: every stored response belongs to a poll, chooses at least one of its choices
  without repetition, only one unless the poll is multi-select, and carries an acceptance time strictly
  before the poll closes, the time of the call that stored it; there is one response per sender, and the
  poll's count is the number of its responses; every poll closes after it was created. A rebuild is
  excluded: it replays the log in the order of the creation times, where a response that came before its
  poll is judged by another clock.\<close>
theorem poll_responses_valid:
  assumes "poll_inv s" "\<not> rebuilds ops" and t: "t = fold projection_step ops s"
  shows "(\<forall>r \<in> set (poll_responses t). \<exists>p \<in> set (polls t). po_id p = pr_poll r \<and> valid_response p r) \<and>
    distinct (map response_key (poll_responses t)) \<and>
    (\<forall>p \<in> set (polls t). po_created p < po_closes p \<and> po_count p = rowcount (\<lambda>r. pr_poll r = po_id p) (poll_responses t))"
  using poll_inv.history_kept [OF assms(1) _ assms(2)] unfolding t [symmetric]
  by (simp add: poll_inv_def unique_key_def)

definition sample_poll_db :: db where
  "sample_poll_db = empty_db\<lparr>polls := [\<lparr>po_id = ''p1'', po_rel = ''r'', po_conv = ''c'', po_thread = None, po_sender = ''bob'',
     po_created = ''2025-01-01T09:00:00Z'', po_question = ''when'', po_choices = [''mon'', ''tue''],
     po_closes = ''2025-01-02T09:00:00Z'', po_multi = False, po_count = 0\<rparr>]\<rparr>"

definition sample_vote :: proj_event where
  "sample_vote = sample_message\<lparr>pe_id := ''v1'', pe_type := ''poll.responded'',
     pe_payload := PPollResponded ''p1'' [''tue''] False None\<rparr>"

theorem poll_responses_valid_witness:
  "let t = fold projection_step [(''2025-01-01T10:00:02Z'', Apply sample_vote)] sample_poll_db in
   (\<forall>r \<in> set (poll_responses t). \<exists>p \<in> set (polls t). po_id p = pr_poll r \<and> valid_response p r) \<and>
   map po_count (polls t) = [1]"
proof -
  have "poll_inv sample_poll_db"
    by (simp add: poll_inv_def sample_poll_db_def empty_db_def unique_key_def rowcount_def)
  moreover have "\<not> rebuilds [(''2025-01-01T10:00:02Z'', Apply sample_vote)]" by (simp add: rebuilds_def)
  moreover have "map po_count (polls (fold projection_step [(''2025-01-01T10:00:02Z'', Apply sample_vote)] sample_poll_db)) = [1]"
    by (simp add: sample_vote_def sample_message_def sample_poll_db_def empty_db_def projection_eval handle_poll_responded_def
        response_check_def store_response_def upsert_def recount_def)
  ultimately show ?thesis using poll_responses_valid [of sample_poll_db, OF _ _ refl] by (simp only: Let_def) blast
qed

text \<open>C17. A human answer is shown as locally verified only on local evidence. Through every history of
  applied events, rebuilds and expiries a request whose attestation is \<open>local\<close> names an approval that is
  in this database's approvals table, which no projection writes; and an answer that the relationship's
  peer sent is never given that attestation.\<close>
theorem local_attestation_has_approval:
  assumes "human_inv s" and t: "t = fold projection_step ops s"
  shows "(\<forall>r \<in> set (human_requests t). hr_attestation r = ''local'' \<longrightarrow>
      (\<exists>a \<in> set (human_approvals s). hr_approval r = Some (ap_id a))) \<and>
    (\<forall>ev approval r. relationship_of t (pe_rel ev) = Some r \<and> pe_sender ev = rl_peer r \<longrightarrow>
      human_response_attestation t ev approval = ''peer'')"
proof -
  have "outside t = outside s" unfolding t by (rule frame.any_history_kept) simp_all
  then have "human_approvals (outside t) = human_approvals (outside s)" by simp
  then have "human_approvals t = human_approvals s" by (simp add: outside_def)
  then show ?thesis
    using human_inv.any_history_kept [OF assms(1), of ops]
    by (auto simp: t human_inv_def human_response_attestation_def split: option.split)
qed

definition sample_request_db :: db where
  "sample_request_db = empty_db\<lparr>
     relationships := [\<lparr>rl_id = ''r'', rl_peer = ''bob'', rl_consent = ''active'', rl_policy = None, rl_epoch = 1, rl_peer_key = None, rl_name = None,
      rl_prior = None, rl_grace = None\<rparr>],
     human_approvals := [\<lparr>ap_id = ''a1'', ap_rel = ''r'', ap_subject_type = ''human_request'', ap_subject = ''h1'', ap_answer = ''yes'',
       ap_approved = True, ap_created = ''2025-01-01T09:00:00Z'', ap_expires = ''2025-01-02T09:00:00Z'', ap_consumed = None, ap_note = None\<rparr>],
     human_requests := [\<lparr>hr_id = ''h1'', hr_rel = ''r'', hr_conv = ''c'', hr_thread = None, hr_sender = ''bob'',
       hr_created = ''2025-01-01T09:00:00Z'', hr_prompt = ''ok'', hr_shape = ''{}'', hr_expires = ''2025-01-02T09:00:00Z'',
       hr_state = ''open'', hr_answer = None, hr_approved = None, hr_responded_at = None, hr_response = None,
       hr_approval = None, hr_attestation = ''peer''\<rparr>]\<rparr>"

definition sample_answer :: "str \<Rightarrow> proj_event" where
  "sample_answer who = sample_message\<lparr>pe_id := ''w1'', pe_sender := who, pe_type := ''human.responded'',
     pe_payload := PHumanResponded ''h1'' ''yes'' True ''a1''\<rparr>"

theorem local_attestation_has_approval_witness:
  "let t = fold projection_step [(''2025-01-01T10:00:02Z'', Apply (sample_answer ''alice''))] sample_request_db in
   (\<forall>r \<in> set (human_requests t). hr_attestation r = ''local'' \<longrightarrow>
      (\<exists>a \<in> set (human_approvals sample_request_db). hr_approval r = Some (ap_id a))) \<and>
   map hr_attestation (human_requests t) = [''local'']"
proof -
  have "human_inv sample_request_db" by (simp add: human_inv_def sample_request_db_def)
  moreover have "map hr_attestation (human_requests (fold projection_step
      [(''2025-01-01T10:00:02Z'', Apply (sample_answer ''alice''))] sample_request_db)) = [''local'']"
    by (simp add: sample_answer_def sample_message_def sample_request_db_def empty_db_def projection_eval
        handle_human_responded_def human_response_attestation_def relationship_of_def answer_request_def)
  ultimately show ?thesis using local_attestation_has_approval [of sample_request_db, OF _ refl] by (simp only: Let_def) blast
qed

text \<open>C33. Some states are final between rebuilds. Whatever events are applied and references expired
  afterwards, a task that is done or canceled keeps its row, a canceled delivery keeps its row, and a
  retracted message keeps its row up to the state of its reply reference: no edit, status or second
  retraction reaches them. A rebuild is excluded: it replays the log in the order of the creation times, and
  then another of two competing status changes may come first.\<close>
theorem settled_for_good:
  assumes "keys_ok s" "\<not> rebuilds ops" and t: "t = fold projection_step ops s"
  shows "(\<forall>x \<in> set (tasks s). tk_status x \<in> {''done'', ''canceled''} \<longrightarrow> x \<in> set (tasks t)) \<and>
    (\<forall>d \<in> set (deliveries s). dl_state d = ''canceled'' \<longrightarrow> d \<in> set (deliveries t)) \<and>
    (\<forall>m \<in> set (messages s). ms_retracted m \<longrightarrow>
      (\<exists>m' \<in> set (messages t). m'\<lparr>ms_reply_state := ms_reply_state m\<rparr> = m))"
proof (intro conjI ballI impI)
  fix x assume "x \<in> set (tasks s)" "tk_status x \<in> {''done'', ''canceled''}"
  then have "final_task x s" using assms(1) by (auto simp: final_task_def keys_ok_def TASK_TERMINAL_def)
  then show "x \<in> set (tasks t)"
    using final_task.history_kept [of x s ops] assms(2) t by (simp add: final_task_def)
next
  fix d assume "d \<in> set (deliveries s)" "dl_state d = ''canceled''"
  then have "canceled_delivery d s" using assms(1) by (auto simp: canceled_delivery_def keys_ok_def)
  then show "d \<in> set (deliveries t)"
    using canceled_delivery.history_kept [of d s ops] assms(2) t by (simp add: canceled_delivery_def)
next
  fix m assume "m \<in> set (messages s)" "ms_retracted m"
  then have "retracted_message m s" using assms(1) by (auto simp: retracted_message_def keys_ok_def)
  then have "retracted_message m t" using retracted_message.history_kept [of m s ops] assms(2) t by simp
  then obtain m' where "m' \<in> set (messages t)" "latest m' = latest m" using retracted_message_mem by blast
  moreover from this have "m'\<lparr>ms_reply_state := ms_reply_state m\<rparr> = m"
    by (intro latest_inject)
  ultimately show "\<exists>m' \<in> set (messages t). m'\<lparr>ms_reply_state := ms_reply_state m\<rparr> = m" by blast
qed

theorem settled_for_good_witness:
  "let m = (new_message sample_message ''hi'' ''plain'' ''ok'')\<lparr>ms_retracted := True, ms_retraction := Some ''m0''\<rparr>;
       s = empty_db\<lparr>messages := [m]\<rparr>; t = fold projection_step sample_history s in
   \<exists>m' \<in> set (messages t). m'\<lparr>ms_reply_state := ms_reply_state m\<rparr> = m"
proof -
  define m where "m = (new_message sample_message ''hi'' ''plain'' ''ok'')\<lparr>ms_retracted := True, ms_retraction := Some ''m0''\<rparr>"
  have "keys_ok (empty_db\<lparr>messages := [m]\<rparr>)" by (simp add: keys_ok_def empty_db_def unique_key_def)
  from settled_for_good [OF this sample_applied(2) refl] show ?thesis
    unfolding Let_def m_def [symmetric] by (simp add: m_def)
qed

end
