(* ===== verification/Sequences.thy ===== *)
theory Sequences
  imports ProjectionInv
begin

text \<open>
  The per-sender cursor and the gap rows of \<open>_update_seq_state\<close> (\<open>store/projections.py\<close>) refine a
  set of numbers: \<open>missing\<close> is the set of recorded gaps of a sender and \<open>high\<close> its high-water mark. An
  arrival beyond the mark adds the numbers it skips, at most \<open>MAX_SEQ_GAP\<close> of them, and any other
  arrival removes its own number. \<open>seq_spec\<close> is this abstract step.
\<close>

definition missing :: "db \<Rightarrow> str \<Rightarrow> str \<Rightarrow> nat set" where
  "missing s rid sender = {n. (rid, sender, n) \<in> gap_key ` set (sequence_gaps s)}"

definition high :: "db \<Rightarrow> str \<Rightarrow> str \<Rightarrow> nat" where
  "high s rid sender = (case cursor_of s rid sender of None \<Rightarrow> 0 | Some m \<Rightarrow> m)"

definition seq_spec :: "nat \<Rightarrow> nat \<times> nat set \<Rightarrow> nat \<times> nat set" where
  "seq_spec n = (\<lambda>(h, g). if n > h then (n, g \<union> ({h<..<n} \<inter> {h<..h + MAX_SEQ_GAP})) else (h, g - {n}))"

definition seq_abs :: "db \<Rightarrow> str \<Rightarrow> str \<Rightarrow> nat \<times> nat set" where
  "seq_abs s rid sender = (high s rid sender, missing s rid sender)"

lemma cursor_move:
  "cursor_of (move_cursor rid sender n s) rid' sender' =
    (if rid' = rid \<and> sender' = sender then Some (max (high s rid sender) n) else cursor_of s rid' sender')"
proof (cases "cursor_of s rid sender")
  case None
  then have f: "fetchone (\<lambda>c. cu_rel c = rid \<and> cu_sender c = sender) (projection_cursors s) = None"
    by (simp add: cursor_of_def)
  show ?thesis
    using None f by (auto simp: move_cursor_def high_def cursor_of_def fetchone_append split: option.split)
next
  case (Some m)
  have upd: "fetchone (\<lambda>c. cu_rel c = rid' \<and> cu_sender c = sender')
      (update_where (\<lambda>c. cu_rel c = rid \<and> cu_sender c = sender) (\<lambda>c. c\<lparr>cu_max := n\<rparr>) t) =
    (if rid' = rid \<and> sender' = sender then map_option (\<lambda>c. c\<lparr>cu_max := n\<rparr>) (fetchone (\<lambda>c. cu_rel c = rid \<and> cu_sender c = sender) t)
     else fetchone (\<lambda>c. cu_rel c = rid' \<and> cu_sender c = sender') t)" for rid' sender' t
    by (auto intro!: fetchone_update_same fetchone_update_other)
  show ?thesis
    using Some unfolding move_cursor_def high_def cursor_of_def
    by (auto simp: upd max_def)
qed

lemma gaps_move [simp]: "sequence_gaps (move_cursor rid sender n s) = sequence_gaps s"
  by (simp add: move_cursor_def split: option.split)

lemma add_gaps_effect:
  "missing (snd (add_gaps rid sender now ms s)) rid' sender' =
     missing s rid' sender' \<union> (if rid' = rid \<and> sender' = sender then set ms else {})"
  "projection_cursors (snd (add_gaps rid sender now ms s)) = projection_cursors s"
proof (induction ms arbitrary: s)
  case (Cons m ms)
  have one: "missing (snd (add_gap rid sender now m s)) rid' sender' =
      missing s rid' sender' \<union> (if rid' = rid \<and> sender' = sender then {m} else {})" for s
    by (auto simp: missing_def add_gap_state set_insert_or_ignore gap_key_def)
  have cur: "projection_cursors (snd (add_gap rid sender now m s)) = projection_cursors s" for s
    by (simp add: add_gap_state)
  have step: "snd (add_gaps rid sender now (m # ms) s) = snd (add_gaps rid sender now ms (snd (add_gap rid sender now m s)))" for s
    by (simp add: split_beta)
  { case 1 show ?case unfolding step Cons.IH(1) one by auto }
  { case 2 show ?case unfolding step Cons.IH(2) cur .. }
qed simp_all

lemma recorded_gaps_set: "prev < n \<Longrightarrow> set (recorded_gaps prev n) = {prev<..<n} \<inter> {prev<..prev + MAX_SEQ_GAP}"
  by (auto simp: recorded_gaps_def)

lemma recorded_gaps_length: "length (recorded_gaps prev n) \<le> MAX_SEQ_GAP"
  unfolding recorded_gaps_def length_upt by linarith

lemma cursor_cong: "projection_cursors t = projection_cursors s \<Longrightarrow> cursor_of t = cursor_of s"
  by (intro ext) (simp add: cursor_of_def)

lemma missing_cong: "sequence_gaps t = sequence_gaps s \<Longrightarrow> missing t = missing s"
  by (intro ext) (simp add: missing_def)

text \<open>The refinement of one call, for the sender it is about and for every other.\<close>

lemma seq_state_cursor:
  "cursor_of (snd (update_seq_state rid sender n now s)) rid' sender' =
    (if rid' = rid \<and> sender' = sender then Some (max (high s rid sender) n) else cursor_of s rid' sender')"
proof -
  have "projection_cursors (snd (update_seq_state rid sender n now s)) = projection_cursors (move_cursor rid sender n s)"
    unfolding update_seq_state_result Let_def by (simp add: add_gaps_effect(2))
  then show ?thesis using cursor_move cursor_cong by metis
qed

lemma seq_state_missing:
  "missing (snd (update_seq_state rid sender n now s)) rid' sender' =
    (if rid' = rid \<and> sender' = sender then snd (seq_spec n (seq_abs s rid sender)) else missing s rid' sender')"
proof (cases "high s rid sender < n")
  case True
  then have "missing (snd (update_seq_state rid sender n now s)) rid' sender' = missing s rid' sender' \<union>
      (if rid' = rid \<and> sender' = sender then set (recorded_gaps (high s rid sender) n) else {})"
    unfolding update_seq_state_result Let_def high_def [symmetric]
    by (simp add: add_gaps_effect(1) missing_cong [OF gaps_move])
  then show ?thesis using True by (simp add: seq_spec_def seq_abs_def recorded_gaps_set)
next
  case False
  then have "sequence_gaps (snd (update_seq_state rid sender n now s)) =
      delete_where (\<lambda>g. gap_key g = (rid, sender, n)) (sequence_gaps s)"
    unfolding update_seq_state_result Let_def high_def [symmetric] by simp
  then show ?thesis using False
    by (auto simp: missing_def seq_spec_def seq_abs_def set_delete_where)
qed

lemma seq_state_refines:
  "seq_abs (snd (update_seq_state rid sender n now s)) rid' sender' =
    (if rid' = rid \<and> sender' = sender then seq_spec n (seq_abs s rid sender) else seq_abs s rid' sender')"
  using seq_state_cursor [of rid sender n now s rid' sender'] seq_state_missing [of rid sender n now s rid' sender']
  by (auto simp: seq_abs_def high_def seq_spec_def split: option.splits)

section \<open>A whole stream of arrivals\<close>

fun arrive :: "str \<Rightarrow> str \<Rightarrow> (nat \<times> str) list \<Rightarrow> db \<Rightarrow> db" where
  "arrive rid sender [] s = s"
| "arrive rid sender ((n, now) # rest) s = arrive rid sender rest (snd (update_seq_state rid sender n now s))"

fun no_long_jump :: "nat \<Rightarrow> nat list \<Rightarrow> bool" where
  "no_long_jump h [] \<longleftrightarrow> True"
| "no_long_jump h (n # ns) \<longleftrightarrow> n \<le> h + MAX_SEQ_GAP + 1 \<and> no_long_jump (max h n) ns"

lemma arrive_refines: "seq_abs (arrive rid sender ns s) rid sender = fold seq_spec (map fst ns) (seq_abs s rid sender)"
  by (induction rid sender ns s rule: arrive.induct) (simp_all add: seq_state_refines)

lemma spec_high: "fst (fold seq_spec ns (h, g)) = foldl max h ns"
  by (induction ns arbitrary: h g) (auto simp: seq_spec_def max_def split_beta)

lemma foldl_max_ge: "h \<le> foldl max h ns" "n \<in> set ns \<Longrightarrow> n \<le> foldl max h ns" for h :: nat
proof (induction ns arbitrary: h)
  case (Cons m ns)
  { case 1 show ?case using Cons(1) [of "max h m"] by simp }
  { case 2 then show ?case using Cons(1) [of "max h m"] Cons(2) [of "max h m"] by auto }
qed simp_all

lemma no_long_jump_snoc: "no_long_jump h (ns @ [n]) \<longleftrightarrow> no_long_jump h ns \<and> n \<le> foldl max h ns + MAX_SEQ_GAP + 1"
  by (induction ns arbitrary: h) auto

lemma spec_missing:
  "0 \<notin> set ns \<Longrightarrow> snd (fold seq_spec ns (0, {})) \<subseteq> {0<..<foldl max 0 ns} - set ns \<and>
   (no_long_jump 0 ns \<longrightarrow> snd (fold seq_spec ns (0, {})) = {0<..<foldl max 0 ns} - set ns)"
proof (induction ns rule: rev_induct)
  case (snoc n ns)
  define H where "H = foldl max 0 ns"
  define G where "G = snd (fold seq_spec ns (0, {}))"
  have st: "fold seq_spec ns (0, {}) = (H, G)"
    using spec_high [of ns 0 "{}"] by (simp add: H_def G_def prod_eq_iff)
  have IH: "G \<subseteq> {0<..<H} - set ns" "no_long_jump 0 ns \<longrightarrow> G = {0<..<H} - set ns"
    using snoc by (simp_all add: G_def H_def)
  have below: "m \<le> H" if "m \<in> set ns" for m using foldl_max_ge(2) [OF that] by (simp add: H_def)
  have fold_snoc: "snd (fold seq_spec (ns @ [n]) (0, {})) = snd (seq_spec n (H, G))" using st by simp
  have high_snoc: "foldl max 0 (ns @ [n]) = max H n" by (simp add: H_def)
  show ?case
  proof (cases "H < n")
    case True
    have "snd (seq_spec n (H, G)) \<subseteq> {0<..<n} - set (ns @ [n])"
      using IH(1) True below by (fastforce simp: seq_spec_def)
    moreover have "snd (seq_spec n (H, G)) = {0<..<n} - set (ns @ [n])"
      if "no_long_jump 0 ns" "n \<le> H + MAX_SEQ_GAP + 1"
    proof -
      have "G = {0<..<H} - set ns" using IH(2) that(1) by simp
      moreover have "{H<..<n} \<inter> {H<..H + MAX_SEQ_GAP} = {H<..<n}" using that(2) by auto
      moreover have "H = 0 \<or> H \<in> set ns"
      proof -
        have "foldl max h ns = h \<or> foldl max h ns \<in> set ns" for h :: nat and ns
        proof (induction ns arbitrary: h)
          case (Cons m ns)
          then show ?case using Cons.IH [of "max h m"] by (auto simp: max_def split: if_splits)
        qed simp
        then show ?thesis by (simp add: H_def)
      qed
      moreover have "({0<..<H} - set ns) \<union> {H<..<n} = {0<..<n} - set (ns @ [n])" if top: "H = 0 \<or> H \<in> set ns"
      proof (rule set_eqI)
        fix x show "x \<in> ({0<..<H} - set ns) \<union> {H<..<n} \<longleftrightarrow> x \<in> {0<..<n} - set (ns @ [n])"
          using True top below [of x] by (cases x H rule: linorder_cases) auto
      qed
      ultimately show ?thesis using True by (simp add: seq_spec_def)
    qed
    ultimately show ?thesis
      using True unfolding fold_snoc high_snoc no_long_jump_snoc H_def [symmetric] by (simp add: max_def)
  next
    case False
    then have "snd (seq_spec n (H, G)) = G - {n}" "max H n = H" by (simp_all add: seq_spec_def)
    then show ?thesis
      using IH unfolding fold_snoc high_snoc no_long_jump_snoc by auto
  qed
qed simp

section \<open>Properties\<close>

text \<open>C16. The gap table of a sender is exact. After any sequence of arrivals of a sender not seen before,
  numbered from 1, the cursor is the highest number that arrived and every recorded gap is a number below
  it that never arrived; and when no arrival jumps more than \<open>MAX_SEQ_GAP\<close> numbers past the cursor, the
  recorded gaps are all of those numbers. In between, one arrival records at most \<open>MAX_SEQ_GAP\<close> gaps,
  however far it jumps.\<close>
theorem gaps_are_what_never_arrived:
  assumes "cursor_of s rid sender = None" "missing s rid sender = {}" "0 \<notin> fst ` set arrivals"
    and t: "t = arrive rid sender arrivals s" and h: "h = foldl max 0 (map fst arrivals)"
  shows "high t rid sender = h \<and> missing t rid sender \<subseteq> {0<..<h} - fst ` set arrivals \<and>
    (no_long_jump 0 (map fst arrivals) \<longrightarrow> missing t rid sender = {0<..<h} - fst ` set arrivals) \<and>
    length (recorded_gaps prev n) \<le> MAX_SEQ_GAP"
proof -
  have "seq_abs s rid sender = (0, {})" using assms(1,2) by (simp add: seq_abs_def high_def)
  then have "seq_abs t rid sender = fold seq_spec (map fst arrivals) (0, {})"
    unfolding t arrive_refines by simp
  then have "high t rid sender = fst (fold seq_spec (map fst arrivals) (0, {}))"
    "missing t rid sender = snd (fold seq_spec (map fst arrivals) (0, {}))"
    by (simp_all add: seq_abs_def prod_eq_iff)
  then show ?thesis
    using spec_high [of "map fst arrivals" 0 "{}"] spec_missing [of "map fst arrivals"] recorded_gaps_length assms(3) h
    by simp
qed

definition sample_arrivals :: "(nat \<times> str) list" where
  "sample_arrivals = [(1, ''2025-01-01T10:00:00Z''), (5, ''2025-01-01T10:00:01Z''), (3, ''2025-01-01T10:00:02Z'')]"

theorem gaps_are_what_never_arrived_witness:
  "missing (arrive ''r'' ''alice'' sample_arrivals empty_db) ''r'' ''alice'' = {2, 4}"
proof -
  have "cursor_of empty_db ''r'' ''alice'' = None" "missing empty_db ''r'' ''alice'' = {}" "0 \<notin> fst ` set sample_arrivals"
    by (simp_all add: cursor_of_def fetchone_def missing_def empty_db_def sample_arrivals_def)
  note gaps_are_what_never_arrived [OF this refl refl]
  moreover have "foldl max 0 (map fst sample_arrivals) = 5" "no_long_jump 0 (map fst sample_arrivals)"
    by (simp_all add: sample_arrivals_def MAX_SEQ_GAP_def)
  moreover have "{0<..<5} - fst ` set sample_arrivals = {2, 4 :: nat}" by (auto simp: sample_arrivals_def)
  ultimately show ?thesis by simp
qed

text \<open>C34. Each call refines the abstract step, and keeps apart the senders: the high-water mark and the
  gap set of the sender move by \<open>seq_spec\<close>, those of every other sender and relationship stay.\<close>
theorem seq_state_refines_spec:
  "seq_abs (snd (update_seq_state rid sender n now s)) rid' sender' =
    (if rid' = rid \<and> sender' = sender then seq_spec n (seq_abs s rid sender) else seq_abs s rid' sender')"
  by (rule seq_state_refines)

text \<open>A sequence number is taken once: an event whose number another logged event of the same sender has is
  recorded in quarantine and projected nowhere.\<close>
lemma forks_are_quarantined:
  assumes "clashing s ev"
  shows "\<exists>l. apply_event wall ev s =
    (Inr l, add_quarantine wall (pe_rel ev) (pe_sender ev) (pe_seq ev) (pe_id ev) ''sequence_fork'' s)"
  using assms by (simp add: apply_event_def apply_inner_def check_fork_def quarantine_event_def prog_run seq_run)

end
