(* ===== verification/Watcher.thy ===== *)
theory Watcher
  imports Transport
begin

text \<open>
  The watcher's poll cycle (\<open>watcher.py\<close>): throttle and backoff, the receive phase over a bounded
  stream, the push phase, and the decision to move the checkpoint.

  \<^item> \<open>services\<close> are what \<open>run_once\<close> is given: the clock, a \<^emph>\<open>Transport\<close>, the receive, policy and
    maintenance callbacks, the random draw of the backoff and the mirror lock. They act on a world of
    their own, so other processes may change the relay between two calls. The transport raises
    \<open>TransportError\<close> only, given by its code and whether it is retryable; what the transports under
    \<open>transports/\<close> may raise besides (\<open>OSError\<close>, \<open>FileNotFoundError\<close>, \<open>ValueError\<close>) passes through \<open>run_once\<close>
    with no exit code and is not modelled.
  \<^item> An early return is a raise of its exit code and reason. \<open>wx_state\<close> is the state document in memory
    and \<open>wx_file\<close> the one on disk; a missing or corrupt file is the default document.
  \<^item> Times are seconds since 1970 as rationals with microsecond resolution. \<open>duration_ms\<close> is left out.
\<close>

type_synonym failure = "str \<times> bool"

definition EXIT_OK :: nat where "EXIT_OK = 0"
definition EXIT_RETRYABLE :: nat where "EXIT_RETRYABLE = 20"
definition EXIT_PERMANENT :: nat where "EXIT_PERMANENT = 21"
definition EXIT_LOCK_BUSY :: nat where "EXIT_LOCK_BUSY = 22"
definition EXIT_PARTIAL_TIMEOUT :: nat where "EXIT_PARTIAL_TIMEOUT = 23"

definition VALID_OUTCOMES :: "str list" where
  "VALID_OUTCOMES = [''accepted'', ''quarantined'', ''retry_pending'']"

record watch_state =
  wt_head :: str
  wt_retry :: nat
  wt_failures :: nat
  wt_next :: "str option"
  wt_last_poll :: rat

definition default_watcher_state :: watch_state where
  "default_watcher_state = \<lparr>wt_head = [], wt_retry = 0, wt_failures = 0, wt_next = None, wt_last_poll = 0\<rparr>"

record watch_result =
  wr_head :: "str option"
  wr_accepted :: nat
  wr_quarantined :: nat
  wr_retry :: nat
  wr_surfaces :: int
  wr_receipts :: int
  wr_reasons :: "(str \<times> nat) list"
  wr_mode :: "str option"
  wr_advanced :: bool
  wr_push :: "str option"
  wr_skipped :: bool
  wr_stats :: "stream_stats option"
  wr_maintenance_error :: "str option"

definition new_result :: watch_result where
  "new_result = \<lparr>wr_head = None, wr_accepted = 0, wr_quarantined = 0, wr_retry = 0, wr_surfaces = 0, wr_receipts = 0,
     wr_reasons = [], wr_mode = None, wr_advanced = False, wr_push = None, wr_skipped = False, wr_stats = None,
     wr_maintenance_error = None\<rparr>"

text \<open>What \<open>receive_fn\<close> returns: its outcome, absent if it is no mapping or has none, and the two counts
  after \<open>int\<close>, absent if that raises.\<close>

record outcome_doc =
  od_outcome :: "str option"
  od_surfaces :: "int option"
  od_receipts :: "int option"

record visiting =
  vs_result :: watch_result
  vs_budget :: bool
  vs_fatal :: "(nat \<times> str option) option"

record 'w services =
  sv_clock :: "'w \<Rightarrow> rat \<times> 'w"
  sv_lock :: "'w \<Rightarrow> bool"
  sv_policy :: "'w \<Rightarrow> (str + str option) \<times> 'w"
  sv_head :: "'w \<Rightarrow> (failure + str) \<times> 'w"
  sv_stream :: "str \<Rightarrow> (visiting \<times> 'w) visitor \<Rightarrow> visiting \<times> 'w \<Rightarrow> (failure + stream_stats) \<times> visiting \<times> 'w"
  sv_consume :: "str \<Rightarrow> 'w \<Rightarrow> (failure + unit) \<times> 'w"
  sv_pending :: "'w \<Rightarrow> nat"
  sv_flush :: "'w \<Rightarrow> (failure + str) \<times> 'w"
  sv_receive :: "str \<Rightarrow> bytes \<Rightarrow> 'w \<Rightarrow> (str + outcome_doc) \<times> 'w"
  sv_maintain :: "('w \<Rightarrow> (str + unit) \<times> 'w) option"
  sv_draw :: "'w \<Rightarrow> rat \<times> 'w"

record 'w watching =
  wx_env :: 'w
  wx_file :: watch_state
  wx_state :: watch_state
  wx_result :: watch_result

type_synonym ('w, 'a) cycle = "('w watching, nat \<times> str option, 'a) prog"

section \<open>One object\<close>

definition bump_reason :: "str \<Rightarrow> watch_result \<Rightarrow> watch_result" where
  "bump_reason r res = res\<lparr>wr_quarantined := wr_quarantined res + 1,
     wr_reasons := dict_set r ((case dict_get (wr_reasons res) r of None \<Rightarrow> 0 | Some n \<Rightarrow> n) + 1) (wr_reasons res)\<rparr>"

definition stop_with :: "nat \<times> str option \<Rightarrow> visiting \<Rightarrow> 'w \<Rightarrow> bool \<times> visiting \<times> 'w" where
  "stop_with f v w = (False, v\<lparr>vs_fatal := Some f\<rparr>, w)"

definition consume_object :: "'w services \<Rightarrow> str \<Rightarrow> visiting \<Rightarrow> 'w \<Rightarrow> bool \<times> visiting \<times> 'w" where
  "consume_object sv name v w = (case sv_consume sv name w of
     (Inl (c, r), w') \<Rightarrow> stop_with (exit_code c r, Some c) v w'
   | (Inr _, w') \<Rightarrow> (True, v, w'))"

definition settle :: "'w services \<Rightarrow> str \<Rightarrow> outcome_doc \<Rightarrow> visiting \<Rightarrow> 'w \<Rightarrow> bool \<times> visiting \<times> 'w" where
  "settle sv name doc v w =
     (case od_outcome doc of None \<Rightarrow> stop_with (EXIT_PERMANENT, Some ''bad_receive_outcome'') v w
      | Some outcome \<Rightarrow>
        if outcome \<notin> set VALID_OUTCOMES then stop_with (EXIT_PERMANENT, Some ''bad_receive_outcome'') v w
        else case od_surfaces doc of
          None \<Rightarrow> stop_with (EXIT_PERMANENT, Some ''bad_receive_outcome'') v w
        | Some a \<Rightarrow> let v1 = v\<lparr>vs_result := (vs_result v)\<lparr>wr_surfaces := wr_surfaces (vs_result v) + a\<rparr>\<rparr> in
            case od_receipts doc of
              None \<Rightarrow> stop_with (EXIT_PERMANENT, Some ''bad_receive_outcome'') v1 w
            | Some b \<Rightarrow> let r2 = (vs_result v1)\<lparr>wr_receipts := wr_receipts (vs_result v1) + b\<rparr> in
                if outcome = ''retry_pending''
                then (True, v1\<lparr>vs_result := r2\<lparr>wr_retry := wr_retry r2 + 1\<rparr>\<rparr>, w)
                else consume_object sv name
                  (v1\<lparr>vs_result := (if outcome = ''accepted'' then r2\<lparr>wr_accepted := wr_accepted r2 + 1\<rparr>
                     else bump_reason ''receiver_quarantined'' r2)\<rparr>) w)"

definition visit_object :: "'w services \<Rightarrow> rat \<Rightarrow> rat \<Rightarrow> (visiting \<times> 'w) visitor" where
  "visit_object sv t_start budget name data = (\<lambda>(v, w).
     case sv_clock sv w of (t, w1) \<Rightarrow>
     if t - t_start > budget then (False, v\<lparr>vs_budget := True\<rparr>, w1)
     else if length data > OBJECT_MAX_BYTES
     then consume_object sv name (v\<lparr>vs_result := bump_reason ''object_too_large'' (vs_result v)\<rparr>) w1
     else case sv_receive sv name data w1 of
       (Inl exn, w2) \<Rightarrow> stop_with (EXIT_PERMANENT, Some (''receive_error: '' @ exn)) v w2
     | (Inr doc, w2) \<Rightarrow> settle sv name doc v w2)"

section \<open>The cycle\<close>

definition on_env :: "('w \<Rightarrow> 'a \<times> 'w) \<Rightarrow> ('w, 'a) cycle" where
  "on_env f = (\<lambda>x. case f (wx_env x) of (a, w) \<Rightarrow> (Inr a, x\<lparr>wx_env := w\<rparr>))"

definition save :: "('w, unit) cycle" where
  "save = exec (\<lambda>x. x\<lparr>wx_file := wx_state x\<rparr>)"

definition set_state :: "(watch_state \<Rightarrow> watch_state) \<Rightarrow> ('w, unit) cycle" where
  "set_state f = exec (\<lambda>x. x\<lparr>wx_state := f (wx_state x)\<rparr>)"

definition set_result :: "(watch_result \<Rightarrow> watch_result) \<Rightarrow> ('w, unit) cycle" where
  "set_result f = exec (\<lambda>x. x\<lparr>wx_result := f (wx_result x)\<rparr>)"

definition save_and_quit :: "nat \<Rightarrow> str \<Rightarrow> ('w, 'a) cycle" where
  "save_and_quit code reason = seq save (\<lambda>_. raise (code, Some reason))"

text \<open>\<open>try: ... except TransportError as exc: save_watcher_state(...); return finish(exc.exit_code, exc.code)\<close>\<close>

definition or_fail :: "failure + 'a \<Rightarrow> ('w, 'a) cycle" where
  "or_fail r = (case r of Inl (c, b) \<Rightarrow> save_and_quit (exit_code c b) c | Inr a \<Rightarrow> ret a)"

definition attempt :: "('w \<Rightarrow> (failure + 'a) \<times> 'w) \<Rightarrow> ('w, 'a) cycle" where
  "attempt f = seq (on_env f) or_fail"

definition py_trunc :: "rat \<Rightarrow> int" where
  "py_trunc q = (if 0 \<le> q then \<lfloor>q\<rfloor> else \<lceil>q\<rceil>)"

definition utc_text :: "rat \<Rightarrow> str" where
  "utc_text q = format_canonical_utc (\<lfloor>q\<rfloor> + unix_epoch)"

definition retry_at :: "str \<Rightarrow> rat" where
  "retry_at text = (case parse_canonical_utc text of Inl _ \<Rightarrow> 0 | Inr t \<Rightarrow> of_int (t - unix_epoch))"

definition backing_off :: "rat \<Rightarrow> watch_state \<Rightarrow> bool" where
  "backing_off t st \<longleftrightarrow> wt_retry st > 0 \<and>
     (case wt_next st of None \<Rightarrow> False | Some text \<Rightarrow> text \<noteq> [] \<and> retry_at text \<ge> of_int (py_trunc t))"

text \<open>\<open>random.uniform(0, b)\<close> is \<open>b\<close> times the draw \<open>u\<close> between 0 and 1.\<close>

definition full_jitter_delay :: "rat \<Rightarrow> nat \<Rightarrow> rat \<Rightarrow> rat \<Rightarrow> rat" where
  "full_jitter_delay u n base cap = u * min cap (base * 2 ^ n)"

definition WATCHER_RETRY_CAP_SECONDS :: rat where "WATCHER_RETRY_CAP_SECONDS = 300"

definition finish_ok :: "'w services \<Rightarrow> ('w, nat \<times> str option) cycle" where
  "finish_ok sv = (case sv_maintain sv of None \<Rightarrow> ret (EXIT_OK, None)
     | Some m \<Rightarrow> seq (on_env m) (\<lambda>r. case r of Inr _ \<Rightarrow> ret (EXIT_OK, None)
         | Inl e \<Rightarrow> seq (set_result (\<lambda>res. res\<lparr>wr_maintenance_error := Some e\<rparr>)) (\<lambda>_. ret (EXIT_OK, None))))"

text \<open>Throttle, backoff and policy.\<close>

definition admit :: "'w services \<Rightarrow> rat \<Rightarrow> ('w, unit) cycle" where
  "admit sv min_interval =
     seq (exec (\<lambda>x. x\<lparr>wx_state := wx_file x\<rparr>)) (\<lambda>_.
     seq (on_env (sv_clock sv)) (\<lambda>t.
     seq (query wx_state) (\<lambda>st.
     if t - wt_last_poll st < min_interval
     then seq (set_result (\<lambda>r. r\<lparr>wr_skipped := True\<rparr>)) (\<lambda>_. raise (EXIT_OK, Some ''poll_throttled''))
     else if backing_off t st
     then seq (set_result (\<lambda>r. r\<lparr>wr_skipped := True\<rparr>)) (\<lambda>_. save_and_quit EXIT_OK ''retry_backoff'')
     else seq (set_state (\<lambda>s. s\<lparr>wt_last_poll := t\<rparr>)) (\<lambda>_.
       seq (on_env (sv_policy sv)) (\<lambda>p. case p of
         Inl e \<Rightarrow> save_and_quit EXIT_PERMANENT (''policy_error: '' @ e)
       | Inr None \<Rightarrow> save_and_quit EXIT_PERMANENT ''policy_error: not a mapping''
       | Inr (Some mode) \<Rightarrow> set_result (\<lambda>r. r\<lparr>wr_mode := Some mode\<rparr>))))))"

text \<open>\<open>_receive_stream\<close> and what its caller does with a fatal outcome.\<close>

definition receive_stream :: "'w services \<Rightarrow> rat \<Rightarrow> rat \<Rightarrow> str \<Rightarrow> ('w, bool \<times> stream_stats) cycle" where
  "receive_stream sv t_start budget last_head = (\<lambda>x.
     case sv_stream sv last_head (visit_object sv t_start budget)
            (\<lparr>vs_result = wx_result x, vs_budget = False, vs_fatal = None\<rparr>, wx_env x) of
       (r, v, w) \<Rightarrow>
         (let x' = x\<lparr>wx_env := w, wx_result := vs_result v\<rparr>
          in seq (or_fail r) (\<lambda>stats. case vs_fatal v of
               Some (code, reason) \<Rightarrow> seq save (\<lambda>_. raise (code, reason))
             | None \<Rightarrow> seq (set_result (\<lambda>res. res\<lparr>wr_stats := Some stats\<rparr>)) (\<lambda>_. ret (vs_budget v, stats))) x'))"

text \<open>The decision: a partial scan and a retryable remainder keep the checkpoint and set a retry time.\<close>

definition decide :: "'w services \<Rightarrow> bool \<Rightarrow> stream_stats \<Rightarrow> str \<Rightarrow> nat \<Rightarrow> nat \<Rightarrow> ('w, nat \<times> str option) cycle" where
  "decide sv budget_hit stats new_remote retry pending =
     (if budget_hit \<or> st_truncated stats then
       seq (on_env (sv_clock sv)) (\<lambda>t.
       seq (set_state (\<lambda>s. s\<lparr>wt_retry := retry, wt_failures := wt_failures s + 1, wt_next := Some (utc_text t)\<rparr>)) (\<lambda>_.
       seq save (\<lambda>_.
       if budget_hit then raise (EXIT_PARTIAL_TIMEOUT, Some ''time_budget_exceeded'')
       else raise (EXIT_RETRYABLE, Some (case st_reason stats of None \<Rightarrow> ''fetch_truncated''
              | Some r \<Rightarrow> if r = [] then ''fetch_truncated'' else r)))))
     else if pending = 0 then
       seq (set_state (\<lambda>s. s\<lparr>wt_head := new_remote, wt_retry := 0, wt_failures := 0, wt_next := None\<rparr>)) (\<lambda>_.
       seq save (\<lambda>_.
       seq (set_result (\<lambda>r. r\<lparr>wr_advanced := True\<rparr>)) (\<lambda>_. finish_ok sv)))
     else
       seq (on_env (sv_clock sv)) (\<lambda>t.
       seq (on_env (sv_draw sv)) (\<lambda>u.
       seq (set_state (\<lambda>s. s\<lparr>wt_retry := retry, wt_failures := wt_failures s + 1,
              wt_next := Some (utc_text (t + full_jitter_delay u (wt_failures s + 1) 1 WATCHER_RETRY_CAP_SECONDS))\<rparr>)) (\<lambda>_.
       seq save (\<lambda>_. raise (EXIT_RETRYABLE, Some ''retry_pending''))))))"

definition checkpoint :: "'w services \<Rightarrow> bool \<Rightarrow> stream_stats \<Rightarrow> ('w, nat \<times> str option) cycle" where
  "checkpoint sv budget_hit stats =
     seq (attempt (sv_head sv)) (\<lambda>new_remote.
     seq (set_result (\<lambda>r. r\<lparr>wr_head := Some new_remote\<rparr>)) (\<lambda>_.
     seq (query (\<lambda>x. wr_retry (wx_result x))) (\<lambda>retry.
     seq (query (\<lambda>x. sv_pending sv (wx_env x))) (\<lambda>outgoing.
     decide sv budget_hit stats new_remote retry (retry + outgoing)))))"

text \<open>\<open>_run_once_locked\<close> is the admission, then the work.\<close>

definition work :: "'w services \<Rightarrow> rat \<Rightarrow> rat \<Rightarrow> ('w, nat \<times> str option) cycle" where
  "work sv budget t_start =
     seq (attempt (sv_head sv)) (\<lambda>remote.
     seq (set_result (\<lambda>r. r\<lparr>wr_head := Some remote\<rparr>)) (\<lambda>_.
     seq (query wx_state) (\<lambda>st.
     seq (query (\<lambda>x. remote \<noteq> wt_head st \<or> wt_retry st > 0 \<or> sv_pending sv (wx_env x) > 0)) (\<lambda>needs_work.
     if \<not> needs_work then seq save (\<lambda>_. finish_ok sv)
     else
       seq (receive_stream sv t_start budget (wt_head st)) (\<lambda>(budget_hit, stats).
       seq (attempt (sv_flush sv)) (\<lambda>push.
       seq (set_result (\<lambda>r. r\<lparr>wr_push := Some push\<rparr>)) (\<lambda>_.
       checkpoint sv budget_hit stats)))))))"

definition run_once_locked :: "'w services \<Rightarrow> rat \<Rightarrow> rat \<Rightarrow> rat \<Rightarrow> ('w, nat \<times> str option) cycle" where
  "run_once_locked sv min_interval budget t_start = seq (admit sv min_interval) (\<lambda>_. work sv budget t_start)"

definition run_once ::
  "'w services \<Rightarrow> rat \<Rightarrow> rat \<Rightarrow> 'w \<times> watch_state \<Rightarrow> (nat \<times> str option \<times> watch_result) \<times> 'w \<times> watch_state" where
  "run_once sv min_interval budget = (\<lambda>(w, file).
     case sv_clock sv w of (t_start, w1) \<Rightarrow>
     if \<not> sv_lock sv w1 then ((EXIT_LOCK_BUSY, Some ''lock_busy'', new_result), w1, file)
     else case run_once_locked sv min_interval budget t_start
            \<lparr>wx_env = w1, wx_file = file, wx_state = default_watcher_state, wx_result = new_result\<rparr> of
       (r, x) \<Rightarrow> (case (case r of Inl q \<Rightarrow> q | Inr q \<Rightarrow> q) of (code, reason) \<Rightarrow>
         ((code, reason, wx_result x), wx_env x, wx_file x)))"

section \<open>The transport's part\<close>

text \<open>A transport touches the visitor's own state only by visiting, and a stream that a visit stopped is
  reported as truncated.\<close>

locale streaming =
  fixes stream :: "str \<Rightarrow> ('v \<times> 'w) visitor \<Rightarrow> 'v \<times> 'w \<Rightarrow> (failure + stream_stats) \<times> 'v \<times> 'w"
  assumes only_visits: "P v \<Longrightarrow> (\<And>n d v w go v' w'. P v \<Longrightarrow> visit n d (v, w) = (go, v', w') \<Longrightarrow> P v') \<Longrightarrow>
      stream since visit (v, w) = (r, v', w') \<Longrightarrow> P v'"
    and all_visited: "P v \<Longrightarrow> (\<And>n d v w v' w'. P v \<Longrightarrow> visit n d (v, w) = (True, v', w') \<Longrightarrow> P v') \<Longrightarrow>
      stream since visit (v, w) = (Inr st, v', w') \<Longrightarrow> \<not> st_truncated st \<Longrightarrow> P v'"

text \<open>The loop that both transports run.\<close>

lemma stream_objects_visits:
  assumes "P v" "\<And>n d v w go v' w'. P v \<Longrightarrow> visit n d (v, w) = (go, v', w') \<Longrightarrow> P v'"
    and "stream_objects look visit ns st (v, w) = (st', v', w')"
  shows "P v'"
  using assms(1,3)
proof (induction ns arbitrary: st v w)
  case (Cons n ns)
  show ?case
  proof (cases "look (v, w) n")
    case (Some data)
    obtain go v1 w1 where vis: "visit n (delivered data) (v, w) = (go, v1, w1)" using prod_cases3 by blast
    then have "P v1" using assms(2) Cons.prems(1) by blast
    then show ?thesis
      using Cons.IH [where v = v1 and w = w1] Cons.prems Some vis by (auto simp: Let_def split: if_splits bool.splits)
  qed (use Cons in \<open>auto split: if_splits\<close>)
qed simp

lemma stream_objects_all:
  assumes "P v" "\<And>n d v w v' w'. P v \<Longrightarrow> visit n d (v, w) = (True, v', w') \<Longrightarrow> P v'"
    and "stream_objects look visit ns st (v, w) = (st', v', w')" "\<not> st_truncated st'"
  shows "P v'"
  using assms(1,3,4)
proof (induction ns arbitrary: st v w)
  case (Cons n ns)
  show ?case
  proof (cases "look (v, w) n")
    case (Some data)
    obtain go v1 w1 where vis: "visit n (delivered data) (v, w) = (go, v1, w1)" using prod_cases3 by blast
    then show ?thesis
      using Cons.IH [where v = v1 and w = w1] Cons.prems Some assms(2) [OF Cons.prems(1)]
      by (cases go) (auto simp: Let_def truncated_for_def split: if_splits)
  qed (use Cons in \<open>auto simp: truncated_for_def split: if_splits\<close>)
qed simp

definition local_stream ::
  "(bytes \<Rightarrow> str) \<Rightarrow> str \<Rightarrow> ('w \<Rightarrow> relay_file list) \<Rightarrow> str \<Rightarrow> ('v \<times> 'w) visitor \<Rightarrow> 'v \<times> 'w \<Rightarrow> (failure + stream_stats) \<times> 'v \<times> 'w" where
  "local_stream sha256 dir files since visit vw =
     (case local_fetch_new_stream sha256 dir (files \<circ> snd) since visit vw of (st, vw') \<Rightarrow> (Inr st, vw'))"

definition git_stream ::
  "('w \<Rightarrow> str \<Rightarrow> failure + str list) \<Rightarrow> ('w \<Rightarrow> str \<Rightarrow> bytes option) \<Rightarrow> str \<Rightarrow> ('v \<times> 'w) visitor \<Rightarrow> 'v \<times> 'w \<Rightarrow>
   (failure + stream_stats) \<times> 'v \<times> 'w" where
  "git_stream listing blob since visit vw = (case listing (snd vw) since of
     Inl e \<Rightarrow> (Inl e, vw)
   | Inr entries \<Rightarrow> (case git_fetch_new_stream (blob \<circ> snd) visit entries vw of (st, vw') \<Rightarrow> (Inr st, vw')))"

interpretation local_stream: streaming "local_stream sha256 dir files :: str \<Rightarrow> ('v \<times> 'w) visitor \<Rightarrow> 'v \<times> 'w \<Rightarrow> _"
  for sha256 dir and files :: "'w \<Rightarrow> relay_file list"
proof unfold_locales
  fix P and v v' :: 'v and w w' :: 'w and visit :: "('v \<times> 'w) visitor" and since r st
  show "P v \<Longrightarrow> (\<And>n d v w go v' w'. P v \<Longrightarrow> visit n d (v, w) = (go, v', w') \<Longrightarrow> P v') \<Longrightarrow>
      local_stream sha256 dir files since visit (v, w) = (r, v', w') \<Longrightarrow> P v'"
    by (auto simp: local_stream_def local_fetch_new_stream_def split: if_splits prod.splits
        intro: stream_objects_visits [where P = P and visit = visit])
  show "P v \<Longrightarrow> (\<And>n d v w v' w'. P v \<Longrightarrow> visit n d (v, w) = (True, v', w') \<Longrightarrow> P v') \<Longrightarrow>
      local_stream sha256 dir files since visit (v, w) = (Inr st, v', w') \<Longrightarrow> \<not> st_truncated st \<Longrightarrow> P v'"
    by (auto simp: local_stream_def local_fetch_new_stream_def split: if_splits prod.splits
        intro: stream_objects_all [where P = P and visit = visit])
qed

interpretation git_stream: streaming "git_stream listing blob :: str \<Rightarrow> ('v \<times> 'w) visitor \<Rightarrow> 'v \<times> 'w \<Rightarrow> _"
  for listing and blob :: "'w \<Rightarrow> str \<Rightarrow> bytes option"
proof unfold_locales
  fix P and v v' :: 'v and w w' :: 'w and visit :: "('v \<times> 'w) visitor" and since r st
  show "P v \<Longrightarrow> (\<And>n d v w go v' w'. P v \<Longrightarrow> visit n d (v, w) = (go, v', w') \<Longrightarrow> P v') \<Longrightarrow>
      git_stream listing blob since visit (v, w) = (r, v', w') \<Longrightarrow> P v'"
    by (auto simp: git_stream_def git_fetch_new_stream_def split: sum.splits prod.splits
        intro: stream_objects_visits [where P = P and visit = visit])
  show "P v \<Longrightarrow> (\<And>n d v w v' w'. P v \<Longrightarrow> visit n d (v, w) = (True, v', w') \<Longrightarrow> P v') \<Longrightarrow>
      git_stream listing blob since visit (v, w) = (Inr st, v', w') \<Longrightarrow> \<not> st_truncated st \<Longrightarrow> P v'"
    by (auto simp: git_stream_def git_fetch_new_stream_def split: sum.splits prod.splits
        intro: stream_objects_all [where P = P and visit = visit])
qed

section \<open>The checkpoint\<close>

text \<open>Before the checkpoint is moved, nothing has moved it.\<close>

definition unmoved :: "str \<Rightarrow> 'w watching \<Rightarrow> bool" where
  "unmoved h x \<longleftrightarrow> wt_head (wx_file x) = h \<and> wt_head (wx_state x) = h \<and> \<not> wr_advanced (wx_result x)"

definition moved_cleanly :: "nat \<times> str option \<Rightarrow> 'w watching \<Rightarrow> bool" where
  "moved_cleanly q x \<longleftrightarrow> q = (EXIT_OK, None) \<and> wr_advanced (wx_result x) \<and> wr_retry (wx_result x) = 0 \<and>
     wr_head (wx_result x) = Some (wt_head (wx_file x)) \<and> wt_retry (wx_file x) = 0 \<and> wt_failures (wx_file x) = 0 \<and>
     wt_next (wx_file x) = None \<and> (\<exists>st. wr_stats (wx_result x) = Some st \<and> \<not> st_truncated st)"

lemma unmoved_on_env [pres_intros]: "preserves (unmoved h) (on_env f)"
  by (auto simp: preserves_def on_env_def unmoved_def split: prod.split)

lemma unmoved_save [pres_intros]: "preserves (unmoved h) save"
  by (simp add: preserves_def save_def prog_run unmoved_def)

lemma unmoved_state: "(\<And>s. wt_head (f s) = wt_head s) \<Longrightarrow> preserves (unmoved h) (set_state f)"
  by (simp add: preserves_def set_state_def prog_run unmoved_def)

lemma unmoved_result: "(\<And>r. wr_advanced (f r) = wr_advanced r) \<Longrightarrow> preserves (unmoved h) (set_result f)"
  by (simp add: preserves_def set_result_def prog_run unmoved_def)

lemma unmoved_quit [pres_intros]: "preserves (unmoved h) (save_and_quit code reason)"
  unfolding save_and_quit_def by (intro pres_intros)

lemma unmoved_or_fail [pres_intros]: "preserves (unmoved h) (or_fail r)"
  by (auto simp: or_fail_def intro: pres_intros split: sum.split)

lemma unmoved_attempt [pres_intros]: "preserves (unmoved h) (attempt f)"
  unfolding attempt_def by (intro pres_intros)

lemma finish_ok_effect:
  fixes x :: "'w watching"
  shows "\<exists>y r. finish_ok sv x = (Inr (EXIT_OK, None), y) \<and> wx_file y = wx_file x \<and> wx_state y = wx_state x \<and>
     wx_result y = (wx_result x)\<lparr>wr_maintenance_error := r\<rparr>"
  by (cases "sv_maintain sv")
    (auto simp: finish_ok_def seq_run on_env_def set_result_def prog_run split: prod.splits sum.splits
      intro: exI [of _ "wr_maintenance_error (wx_result x)"])

lemma unmoved_finish_ok [pres_intros]: "preserves (unmoved h) (finish_ok (sv :: 'w services))"
proof (rule preservesI)
  fix x :: "'w watching" assume "unmoved h x"
  then show "unmoved h (snd (finish_ok sv x))"
    using finish_ok_effect [of sv x] by (auto simp: unmoved_def)
qed

lemma unmoved_admit:
  assumes "wt_head (wx_file x) = h" "\<not> wr_advanced (wx_result x)" "admit sv mi x = (r, y)"
  shows "case r of Inl _ \<Rightarrow> wt_head (wx_file y) = h \<and> \<not> wr_advanced (wx_result y) | Inr _ \<Rightarrow> unmoved h y"
proof -
  have "unmoved h (x\<lparr>wx_state := wx_file x\<rparr>)" using assms(1,2) by (simp add: unmoved_def)
  moreover have "preserves (unmoved h) (seq (on_env (sv_clock sv)) (\<lambda>t.
     seq (query wx_state) (\<lambda>st.
     if t - wt_last_poll st < mi
     then seq (set_result (\<lambda>r. r\<lparr>wr_skipped := True\<rparr>)) (\<lambda>_. raise (EXIT_OK, Some ''poll_throttled''))
     else if backing_off t st
     then seq (set_result (\<lambda>r. r\<lparr>wr_skipped := True\<rparr>)) (\<lambda>_. save_and_quit EXIT_OK ''retry_backoff'')
     else seq (set_state (\<lambda>s. s\<lparr>wt_last_poll := t\<rparr>)) (\<lambda>_.
       seq (on_env (sv_policy sv)) (\<lambda>p. case p of
         Inl e \<Rightarrow> save_and_quit EXIT_PERMANENT (''policy_error: '' @ e)
       | Inr None \<Rightarrow> save_and_quit EXIT_PERMANENT ''policy_error: not a mapping''
       | Inr (Some mode) \<Rightarrow> set_result (\<lambda>r. r\<lparr>wr_mode := Some mode\<rparr>))))))"
    by (intro pres_intros unmoved_state unmoved_result)
      (auto split: sum.split option.split intro: pres_intros unmoved_result)
  ultimately have "unmoved h y"
    using assms(3) unfolding admit_def prog_run by (auto dest: preservesD)
  then show ?thesis by (auto simp: unmoved_def split: sum.split)
qed

lemma attempt_run:
  "seq (attempt f) g x = (case f (wx_env x) of
     (Inl (c, b), w) \<Rightarrow> (Inl (exit_code c b, Some c), x\<lparr>wx_env := w, wx_file := wx_state x\<rparr>)
   | (Inr a, w) \<Rightarrow> g a (x\<lparr>wx_env := w\<rparr>))"
  by (auto simp: attempt_def seq_run on_env_def or_fail_def save_and_quit_def save_def prog_run split: prod.split sum.split)

lemma decide_post:
  assumes "unmoved h x" "wr_stats (wx_result x) = Some stats" "wr_head (wx_result x) = Some new"
    "retry = wr_retry (wx_result x)" "retry \<le> pending" "decide sv hit stats new retry pending x = (r, y)"
  shows "unmoved h y \<or> (\<exists>q. r = Inr q \<and> moved_cleanly q y)"
proof (cases "\<not> (hit \<or> st_truncated stats) \<and> pending = 0")
  case True
  define x3 where "x3 = x\<lparr>wx_state := (wx_state x)\<lparr>wt_head := new, wt_retry := 0, wt_failures := 0, wt_next := None\<rparr>,
      wx_file := (wx_state x)\<lparr>wt_head := new, wt_retry := 0, wt_failures := 0, wt_next := None\<rparr>,
      wx_result := (wx_result x)\<lparr>wr_advanced := True\<rparr>\<rparr>"
  have run: "decide sv hit stats new retry pending x = finish_ok sv x3"
    using True by (simp add: decide_def set_state_def save_def set_result_def prog_run x3_def)
  obtain z m where z: "finish_ok sv x3 = (Inr (EXIT_OK, None), z)" "wx_file z = wx_file x3"
    "wx_result z = (wx_result x3)\<lparr>wr_maintenance_error := m\<rparr>"
    using finish_ok_effect [of sv x3] by blast
  have "r = Inr (EXIT_OK, None)" "y = z" using assms(6) unfolding run z(1) by simp_all
  note this(1)
  moreover have "wx_file y = wx_file x3" "wx_result y = (wx_result x3)\<lparr>wr_maintenance_error := m\<rparr>"
    using z \<open>y = z\<close> by simp_all
  moreover from this have "moved_cleanly (EXIT_OK, None) y"
    using True assms by (simp add: moved_cleanly_def x3_def)
  ultimately show ?thesis by blast
next
  case False
  then have "preserves (unmoved h) (decide sv hit stats new retry pending)"
    unfolding decide_def by (auto intro!: pres_intros unmoved_state)
  from preservesD [OF this assms(1)] show ?thesis using assms(6) by simp
qed

lemma checkpoint_post:
  assumes u: "unmoved h x" and st: "wr_stats (wx_result x) = Some stats" and r: "checkpoint sv hit stats x = (r, y)"
  shows "unmoved h y \<or> (\<exists>q. r = Inr q \<and> moved_cleanly q y)"
proof (cases "sv_head sv (wx_env x)")
  case (Pair hr w)
  show ?thesis
  proof (cases hr)
    case (Inl e)
    then show ?thesis using u r Pair by (cases e) (auto simp: checkpoint_def attempt_run unmoved_def)
  next
    case (Inr new)
    define x2 where "x2 = x\<lparr>wx_env := w, wx_result := (wx_result x)\<lparr>wr_head := Some new\<rparr>\<rparr>"
    have "decide sv hit stats new (wr_retry (wx_result x2)) (wr_retry (wx_result x2) + sv_pending sv (wx_env x2)) x2 = (r, y)"
      using r Pair Inr unfolding checkpoint_def attempt_run set_result_def by (simp add: prog_run x2_def)
    then show ?thesis using u st by (intro decide_post [of h x2]) (simp_all add: x2_def unmoved_def)
  qed
qed

section \<open>The receive phase\<close>

definition counted :: "watch_result \<Rightarrow> nat" where
  "counted r = wr_accepted r + wr_quarantined r + wr_retry r"

lemma exit_code_range: "exit_code c b \<in> {20, 21, 22}"
  by (auto simp: exit_code_def EXIT_BY_CODE_def)

lemma consume_effect:
  assumes "consume_object sv n v w = (go, v', w')"
  shows "vs_result v' = vs_result v \<and> vs_budget v' = vs_budget v \<and> (go \<longrightarrow> vs_fatal v' = vs_fatal v) \<and>
    (\<not> go \<longrightarrow> (\<exists>c r. vs_fatal v' = Some (c, r) \<and> c \<in> {20, 21, 22}))"
  using assms exit_code_range by (auto simp: consume_object_def stop_with_def split: prod.splits sum.splits)

lemma settle_effect:
  assumes "settle sv n doc v w = (go, v', w')"
  shows "wr_advanced (vs_result v') = wr_advanced (vs_result v)" (is ?a)
    and "vs_budget v' = vs_budget v" (is ?b)
    and "if go then vs_fatal v' = vs_fatal v \<and> counted (vs_result v') = counted (vs_result v) + 1
         else \<exists>c r. vs_fatal v' = Some (c, r) \<and> c \<in> {20, 21, 22}" (is ?c)
proof -
  have "?a \<and> ?b \<and> ?c"
  proof (cases "\<exists>oc a b. od_outcome doc = Some oc \<and> oc \<in> set VALID_OUTCOMES \<and> od_surfaces doc = Some a \<and> od_receipts doc = Some b")
    case False
    then show ?thesis
      using assms by (auto simp: settle_def stop_with_def EXIT_PERMANENT_def Let_def split: option.splits if_splits)
  next
    case True
    then obtain outcome a b where "od_outcome doc = Some outcome" "outcome \<in> set VALID_OUTCOMES" "od_surfaces doc = Some a" "od_receipts doc = Some b"
      by blast
    then have doc: "od_outcome doc = Some outcome" "outcome \<in> set VALID_OUTCOMES" "od_surfaces doc = Some a" "od_receipts doc = Some b"
      by simp_all
    define r2 where "r2 = (vs_result v)\<lparr>wr_surfaces := wr_surfaces (vs_result v) + a, wr_receipts := wr_receipts (vs_result v) + b\<rparr>"
    define r3 where "r3 = (if outcome = ''accepted'' then r2\<lparr>wr_accepted := wr_accepted r2 + 1\<rparr> else bump_reason ''receiver_quarantined'' r2)"
    have r2: "wr_advanced r2 = wr_advanced (vs_result v)" "counted r2 = counted (vs_result v)"
      by (simp_all add: r2_def counted_def)
    have r3: "wr_advanced r3 = wr_advanced (vs_result v)" "counted r3 = counted (vs_result v) + 1"
      by (simp_all add: r3_def r2_def counted_def bump_reason_def)
    have run: "settle sv n doc v w = (if outcome = ''retry_pending'' then (True, v\<lparr>vs_result := r2\<lparr>wr_retry := wr_retry r2 + 1\<rparr>\<rparr>, w)
        else consume_object sv n (v\<lparr>vs_result := r3\<rparr>) w)"
      unfolding settle_def Let_def doc(1,3,4) option.case r3_def r2_def using doc(2) by simp
    show ?thesis
    proof (cases "outcome = ''retry_pending''")
      case True
      then have "go" "v' = v\<lparr>vs_result := r2\<lparr>wr_retry := wr_retry r2 + 1\<rparr>\<rparr>" using assms unfolding run by simp_all
      then show ?thesis using r2 by (simp add: counted_def)
    next
      case False
      then have "consume_object sv n (v\<lparr>vs_result := r3\<rparr>) w = (go, v', w')" using assms unfolding run by simp
      from consume_effect [OF this] show ?thesis using r3 by simp
    qed
  qed
  then show ?a ?b ?c by blast+
qed

lemma visit_effect:
  assumes "visit_object sv t0 budget n d (v, w) = (go, v', w')"
  shows "wr_advanced (vs_result v') = wr_advanced (vs_result v) \<and>
    (if go then vs_budget v' = vs_budget v \<and> vs_fatal v' = vs_fatal v \<and> counted (vs_result v') = counted (vs_result v) + 1
     else vs_budget v' \<or> (\<exists>c r. vs_fatal v' = Some (c, r) \<and> c \<in> {20, 21, 22})) \<and>
    (vs_fatal v' = vs_fatal v \<or> (\<exists>c r. vs_fatal v' = Some (c, r) \<and> c \<in> {20, 21, 22}))"
proof -
  obtain t w1 where c: "sv_clock sv w = (t, w1)" by force
  consider "t - t0 > budget" | "\<not> t - t0 > budget" "length d > OBJECT_MAX_BYTES"
    | "\<not> t - t0 > budget" "\<not> length d > OBJECT_MAX_BYTES" by blast
  then show ?thesis
  proof cases
    case 1
    then show ?thesis using assms c by (auto simp: visit_object_def)
  next
    case 2
    then have "consume_object sv n (v\<lparr>vs_result := bump_reason ''object_too_large'' (vs_result v)\<rparr>) w1 = (go, v', w')"
      using assms c by (simp add: visit_object_def)
    from consume_effect [OF this] show ?thesis by (auto simp: bump_reason_def counted_def)
  next
    case 3
    obtain r w2 where r: "sv_receive sv n d w1 = (r, w2)" by force
    show ?thesis
    proof (cases r)
      case (Inl e)
      then show ?thesis using assms c r 3 by (auto simp: visit_object_def stop_with_def EXIT_PERMANENT_def)
    next
      case (Inr doc)
      then have "settle sv n doc v w2 = (go, v', w')" using assms c r 3 by (simp add: visit_object_def)
      from settle_effect [OF this] show ?thesis by (auto split: if_splits)
    qed
  qed
qed

lemma receive_run:
  assumes "sv_stream sv last_head (visit_object sv t0 budget) (\<lparr>vs_result = wx_result x, vs_budget = False, vs_fatal = None\<rparr>, wx_env x) = (r, v, w)"
  shows "receive_stream sv t0 budget last_head x = (case r of
      Inl (c, b) \<Rightarrow> (Inl (exit_code c b, Some c), x\<lparr>wx_env := w, wx_result := vs_result v, wx_file := wx_state x\<rparr>)
    | Inr st \<Rightarrow> (case vs_fatal v of Some q \<Rightarrow> (Inl q, x\<lparr>wx_env := w, wx_result := vs_result v, wx_file := wx_state x\<rparr>)
        | None \<Rightarrow> (Inr (vs_budget v, st), x\<lparr>wx_env := w, wx_result := (vs_result v)\<lparr>wr_stats := Some st\<rparr>\<rparr>)))"
  using assms by (auto simp: receive_stream_def Let_def or_fail_def save_and_quit_def save_def set_result_def seq_run prog_run
      split: sum.split option.split)

lemma receive_post:
  assumes s: "streaming (sv_stream sv)" and u: "unmoved h x" and r: "receive_stream sv t0 budget last_head x = (r, y)"
  shows "unmoved h y" and "r = Inr (hit, st) \<Longrightarrow> wr_stats (wx_result y) = Some st"
    and "r = Inl (code, reason) \<Longrightarrow> code \<in> {20, 21, 22}"
proof -
  let ?v = "\<lparr>vs_result = wx_result x, vs_budget = False, vs_fatal = None\<rparr>"
  obtain q v w where run: "sv_stream sv last_head (visit_object sv t0 budget) (?v, wx_env x) = (q, v, w)"
    by (cases "sv_stream sv last_head (visit_object sv t0 budget) (?v, wx_env x)") auto
  define P where "P = (\<lambda>v::visiting. \<not> wr_advanced (vs_result v) \<and>
      (vs_fatal v = None \<or> (\<exists>c r. vs_fatal v = Some (c, r) \<and> c \<in> {20, 21, 22 :: nat})))"
  have "P v"
  proof (rule streaming.only_visits [OF s _ _ run, of P])
    show "P ?v" using u by (simp add: P_def unmoved_def)
    show "P v'" if "P v" "visit_object sv t0 budget n d (v, w) = (go, v', w')" for n d v w go v' w'
      using visit_effect [OF that(2)] that(1) unfolding P_def by metis
  qed
  then show "unmoved h y" "r = Inr (hit, st) \<Longrightarrow> wr_stats (wx_result y) = Some st"
    "r = Inl (code, reason) \<Longrightarrow> code \<in> {20, 21, 22}"
    using u r exit_code_range unfolding receive_run [OF run]
    by (auto simp: P_def unmoved_def split: sum.splits option.splits)
qed

section \<open>A whole cycle\<close>

definition codes :: "nat set" where "codes = {0, 20, 21, 22, 23}"

lemma code_mem [simp]: "exit_code c b \<in> codes" "EXIT_OK \<in> codes" "EXIT_RETRYABLE \<in> codes" "EXIT_PERMANENT \<in> codes"
  "EXIT_PARTIAL_TIMEOUT \<in> codes" "EXIT_LOCK_BUSY \<in> codes"
  using exit_code_range [of c b]
  by (auto simp: codes_def EXIT_OK_def EXIT_RETRYABLE_def EXIT_PERMANENT_def EXIT_PARTIAL_TIMEOUT_def EXIT_LOCK_BUSY_def)

text \<open>How a part of the cycle may end: the checkpoint where it was or moved cleanly, and a documented code.\<close>

definition ends :: "str \<Rightarrow> (nat \<times> str option) + (nat \<times> str option) \<Rightarrow> 'w watching \<Rightarrow> bool" where
  "ends h r x \<longleftrightarrow> (unmoved h x \<or> (\<exists>q. r = Inr q \<and> moved_cleanly q x)) \<and>
     (case r of Inl q \<Rightarrow> fst q \<in> codes | Inr q \<Rightarrow> fst q \<in> codes)"

lemma finish_ok_ends:
  assumes "unmoved h x" "finish_ok sv x = (r, y)"
  shows "ends h r y"
  using finish_ok_effect [of sv x] assms preservesD [OF unmoved_finish_ok [of h sv] assms(1)] by (auto simp: ends_def)

lemma decide_code:
  assumes "decide sv hit stats new retry pending x = (r, y)"
  shows "case r of Inl q \<Rightarrow> fst q \<in> codes | Inr q \<Rightarrow> fst q \<in> codes"
proof -
  obtain t w where c: "sv_clock sv (wx_env x) = (t, w)" by force
  obtain u w2 where d: "sv_draw sv w = (u, w2)" by force
  consider "hit \<or> st_truncated stats" | "\<not> (hit \<or> st_truncated stats)" "pending = 0" | "\<not> (hit \<or> st_truncated stats)" "pending \<noteq> 0"
    by blast
  then show ?thesis
  proof cases
    case 1
    then show ?thesis using assms c by (auto simp: decide_def on_env_def set_state_def save_def seq_run prog_run split: if_splits)
  next
    case 2
    have "fst (finish_ok sv z) = Inr (EXIT_OK, None)" for z using finish_ok_effect [of sv z] by auto
    then have "r = Inr (EXIT_OK, None)"
      using 2 assms by (auto simp: decide_def set_state_def save_def set_result_def prog_run dest: arg_cong [where f = fst])
    then show ?thesis by simp
  next
    case 3
    then show ?thesis using assms c d by (auto simp: decide_def on_env_def set_state_def save_def seq_run prog_run)
  qed
qed

lemma checkpoint_ends:
  assumes "unmoved h x" "wr_stats (wx_result x) = Some stats" "checkpoint sv hit stats x = (r, y)"
  shows "ends h r y"
proof -
  have "case r of Inl q \<Rightarrow> fst q \<in> codes | Inr q \<Rightarrow> fst q \<in> codes"
  proof (cases "sv_head sv (wx_env x)")
    case (Pair hr w)
    then show ?thesis
      using assms(3) decide_code
      by (cases hr) (auto simp: checkpoint_def attempt_run set_result_def prog_run)
  qed
  then show ?thesis using checkpoint_post [OF assms] by (simp add: ends_def)
qed

lemma work_ends:
  assumes s: "streaming (sv_stream sv)" and u: "unmoved h x" and r: "work sv budget t0 x = (r, y)"
  shows "ends h r y"
proof (cases "sv_head sv (wx_env x)")
  case (Pair hr w)
  show ?thesis
  proof (cases hr)
    case (Inl e)
    then show ?thesis using u r Pair by (cases e) (auto simp: work_def attempt_run ends_def unmoved_def)
  next
    case (Inr remote)
    define x1 where "x1 = x\<lparr>wx_env := w, wx_result := (wx_result x)\<lparr>wr_head := Some remote\<rparr>\<rparr>"
    have u1: "unmoved h x1" using u by (simp add: x1_def unmoved_def)
    define needs where "needs \<longleftrightarrow> remote \<noteq> wt_head (wx_state x1) \<or> wt_retry (wx_state x1) > 0 \<or> sv_pending sv (wx_env x1) > 0"
    have run: "work sv budget t0 x = (if \<not> needs then seq save (\<lambda>_. finish_ok sv) x1
      else seq (receive_stream sv t0 budget (wt_head (wx_state x1))) (\<lambda>(hit, stats).
       seq (attempt (sv_flush sv)) (\<lambda>push.
       seq (set_result (\<lambda>r. r\<lparr>wr_push := Some push\<rparr>)) (\<lambda>_. checkpoint sv hit stats))) x1)"
      using Pair Inr unfolding work_def attempt_run set_result_def by (simp add: prog_run x1_def needs_def)
    show ?thesis
    proof (cases needs)
      case False
      then have "finish_ok sv (x1\<lparr>wx_file := wx_state x1\<rparr>) = (r, y)" using r unfolding run by (simp add: save_def prog_run)
      then show ?thesis using u1 by (intro finish_ok_ends) (simp_all add: unmoved_def)
    next
      case True
      obtain q x2 where rs: "receive_stream sv t0 budget (wt_head (wx_state x1)) x1 = (q, x2)" by force
      note post = receive_post [OF s u1 rs]
      show ?thesis
      proof (cases q)
        case (Inl e)
        then show ?thesis using r True rs post(1,3) unfolding run by (cases e) (auto simp: seq_run ends_def codes_def)
      next
        case (Inr hs)
        obtain hit stats where hs: "hs = (hit, stats)" by force
        obtain fr w3 where fl: "sv_flush sv (wx_env x2) = (fr, w3)" by force
        have rest: "seq (attempt (sv_flush sv)) (\<lambda>push.
            seq (set_result (\<lambda>r. r\<lparr>wr_push := Some push\<rparr>)) (\<lambda>_. checkpoint sv hit stats)) x2 = (r, y)"
          using r True rs Inr hs unfolding run by (simp add: seq_run)
        show ?thesis
        proof (cases fr)
          case (Inl e)
          then show ?thesis using rest fl post(1) by (cases e) (auto simp: attempt_run ends_def unmoved_def)
        next
          case (Inr push)
          then have "checkpoint sv hit stats (x2\<lparr>wx_env := w3, wx_result := (wx_result x2)\<lparr>wr_push := Some push\<rparr>\<rparr>) = (r, y)"
            using rest fl by (simp add: attempt_run set_result_def prog_run)
          then show ?thesis
            using post(1) post(2) [of hit stats] \<open>q = Inr hs\<close> hs by (intro checkpoint_ends) (auto simp: unmoved_def)
        qed
      qed
    qed
  qed
qed

lemma admit_code:
  assumes "admit sv mi x = (Inl q, y)"
  shows "fst q \<in> codes"
proof -
  define x1 where "x1 = x\<lparr>wx_state := wx_file x\<rparr>"
  obtain t w where c: "sv_clock sv (wx_env x1) = (t, w)" by force
  obtain p w2 where p: "sv_policy sv w = (p, w2)" by force
  have run: "admit sv mi x = (let x2 = x1\<lparr>wx_env := w\<rparr>; st = wx_state x1 in
     if t - wt_last_poll st < mi
     then (Inl (EXIT_OK, Some ''poll_throttled''), x2\<lparr>wx_result := (wx_result x2)\<lparr>wr_skipped := True\<rparr>\<rparr>)
     else if backing_off t st
     then (Inl (EXIT_OK, Some ''retry_backoff''), x2\<lparr>wx_result := (wx_result x2)\<lparr>wr_skipped := True\<rparr>, wx_file := st\<rparr>)
     else let x3 = x2\<lparr>wx_state := st\<lparr>wt_last_poll := t\<rparr>, wx_env := w2\<rparr> in (case p of
         Inl e \<Rightarrow> (Inl (EXIT_PERMANENT, Some (''policy_error: '' @ e)), x3\<lparr>wx_file := wx_state x3\<rparr>)
       | Inr None \<Rightarrow> (Inl (EXIT_PERMANENT, Some ''policy_error: not a mapping''), x3\<lparr>wx_file := wx_state x3\<rparr>)
       | Inr (Some mode) \<Rightarrow> (Inr (), x3\<lparr>wx_result := (wx_result x3)\<lparr>wr_mode := Some mode\<rparr>\<rparr>)))"
    using c p by (simp add: admit_def on_env_def set_result_def set_state_def save_and_quit_def save_def seq_run prog_run Let_def x1_def
        split: sum.split option.split)
  show ?thesis using assms unfolding run Let_def by (auto split: if_splits sum.splits option.splits)
qed

lemma locked_ends:
  assumes s: "streaming (sv_stream sv)" and h: "wt_head (wx_file x) = h" "\<not> wr_advanced (wx_result x)"
    and r: "run_once_locked sv mi budget t0 x = (r, y)"
  shows "(wt_head (wx_file y) = h \<and> \<not> wr_advanced (wx_result y) \<or> (\<exists>q. r = Inr q \<and> moved_cleanly q y)) \<and>
    (case r of Inl q \<Rightarrow> fst q \<in> codes | Inr q \<Rightarrow> fst q \<in> codes)"
proof -
  obtain a x1 where a: "admit sv mi x = (a, x1)" by force
  note post = unmoved_admit [OF h a]
  show ?thesis
  proof (cases a)
    case (Inl q)
    then have "r = Inl q" "y = x1" using r a by (simp_all add: run_once_locked_def seq_run)
    then show ?thesis using post Inl admit_code a by simp
  next
    case (Inr u)
    then have "work sv budget t0 x1 = (r, y)" using r a by (simp add: run_once_locked_def seq_run)
    from work_ends [OF s _ this] show ?thesis using post Inr by (auto simp: ends_def unmoved_def)
  qed
qed

lemma run_once_cases:
  fixes sv :: "'w services"
  assumes s: "streaming (sv_stream sv)" and r: "run_once sv mi budget (w, f) = ((code, reason, res), w', f')"
  shows "code \<in> codes \<and> (wt_head f' = wt_head f \<and> \<not> wr_advanced res \<or>
    (\<exists>x :: 'w watching. moved_cleanly (code, reason) x \<and> wx_result x = res \<and> wx_file x = f'))"
proof -
  obtain t0 w1 where c: "sv_clock sv w = (t0, w1)" by force
  show ?thesis
  proof (cases "sv_lock sv w1")
    case False
    then show ?thesis using r c by (auto simp: run_once_def new_result_def)
  next
    case True
    define x where "x = \<lparr>wx_env = w1, wx_file = f, wx_state = default_watcher_state, wx_result = new_result\<rparr>"
    obtain q y where q: "run_once_locked sv mi budget t0 x = (q, y)" by force
    have "wt_head (wx_file x) = wt_head f" "\<not> wr_advanced (wx_result x)" by (simp_all add: x_def new_result_def)
    note ends = locked_ends [OF s this q]
    have "(case q of Inl q \<Rightarrow> q | Inr q \<Rightarrow> q) = (code, reason)" "wx_result y = res" "wx_file y = f'"
      using r c True q by (auto simp: run_once_def x_def split: prod.splits)
    then show ?thesis using ends by (cases q) auto
  qed
qed

section \<open>Properties\<close>

text \<open>A local relay directory \<open>d\<close> as the transport, with a clock that stands at \<open>t\<close> and a receiver that
  accepts everything.\<close>

definition local_services :: "rat \<Rightarrow> relay_file list services" where
  "local_services t = \<lparr>sv_clock = (\<lambda>w. (t, w)), sv_lock = (\<lambda>_. True), sv_policy = (\<lambda>w. (Inr (Some ''alert''), w)),
     sv_head = (\<lambda>w. (Inr (local_head (\<lambda>b. if b = [] then ''e'' else ''f'') ''d'' w), w)),
     sv_stream = local_stream (\<lambda>b. if b = [] then ''e'' else ''f'') ''d'' id,
     sv_consume = (\<lambda>n w. case local_consume ''d'' n w of (Inr _, w') \<Rightarrow> (Inr (), w') | (Inl _, w') \<Rightarrow> (Inl (''config_error'', False), w')),
     sv_pending = (\<lambda>_. 0), sv_flush = (\<lambda>w. (Inr ''noop'', w)),
     sv_receive = (\<lambda>_ _ w. (Inr \<lparr>od_outcome = Some ''accepted'', od_surfaces = Some 1, od_receipts = Some 0\<rparr>, w)),
     sv_maintain = None, sv_draw = (\<lambda>w. (1, w))\<rparr>"

definition sample_relay :: "relay_file list" where
  "sample_relay = [\<lparr>rf_root = ''d'', rf_box = ''incoming'', rf_name = sample_name, rf_data = [7]\<rparr>]"

lemmas cycle_eval = run_once_def run_once_locked_def admit_def work_def attempt_def or_fail_def save_and_quit_def
  receive_stream_def checkpoint_def decide_def finish_ok_def on_env_def set_result_def set_state_def save_def seq_run
  prog_run Let_def default_watcher_state_def new_result_def backing_off_def visit_object_def settle_def
  consume_object_def stop_with_def VALID_OUTCOMES_def EXIT_OK_def

lemmas relay_eval = local_stream_def local_fetch_new_stream_def incoming_names_def select_def read_file_def fetchone_def
  file_key_def delivered_def local_consume_def check_object_name_def unlink_def atomic_write_def upsert_def
  delete_where_def new_stream_stats_def local_head_def head_entry_def OBJECT_MAX_BYTES_def MAX_ENVELOPE_BYTES_def
  FETCH_MAX_OBJECTS_def FETCH_MAX_AGGREGATE_BYTES_def

lemma sample_name_ok: "object_name_matches sample_name" "is_json_name sample_name"
proof -
  have "name_char (CHR ''a'')" by (simp add: name_char_def)
  then have "list_all name_char (replicate 32 (CHR ''a''))" by (simp add: list_all_iff)
  then show "object_name_matches sample_name"
    by (simp add: object_name_matches_def name_shape_def sample_name_def)
  show "is_json_name sample_name" by (simp add: is_json_name_def sample_name_def)
qed

text \<open>A cycle over one new object delivers it, consumes it and moves the checkpoint.\<close>

lemma local_cycle:
  "run_once (local_services 100) 30 120 (sample_relay, default_watcher_state) =
   ((0, None, \<lparr>wr_head = Some ''e'', wr_accepted = 1, wr_quarantined = 0, wr_retry = 0, wr_surfaces = 1, wr_receipts = 0,
       wr_reasons = [], wr_mode = Some ''alert'', wr_advanced = True, wr_push = Some ''noop'', wr_skipped = False,
       wr_stats = Some \<lparr>st_objects = 1, st_bytes = 1, st_truncated = False, st_reason = None\<rparr>, wr_maintenance_error = None\<rparr>),
    [\<lparr>rf_root = ''d'', rf_box = ''consumed'', rf_name = sample_name, rf_data = [7]\<rparr>],
    \<lparr>wt_head = ''e'', wt_retry = 0, wt_failures = 0, wt_next = None, wt_last_poll = 100\<rparr>)"
  by (simp add: cycle_eval relay_eval local_services_def sample_relay_def sample_name_ok)

lemma local_services_streaming: "streaming (sv_stream (local_services t))"
  unfolding local_services_def services.simps by (rule local_stream.streaming_axioms)

text \<open>C36. The checkpoint moves only after a complete cycle. If a cycle changes the stored head or reports
  that it advanced, it exits 0 without a reason, no object is left to retry, the stream was not
  truncated, the stored head is the one the relay reported after the push, and the failure count and
  the retry time are cleared. In every other cycle, throttled, backing off, failed or partial, the
  stored head stays.\<close>
theorem checkpoint_moves_only_when_clean:
  assumes "streaming (sv_stream sv)" "run_once sv mi budget (w, f) = ((code, reason, res), w', f')"
    and "wt_head f' \<noteq> wt_head f \<or> wr_advanced res"
  shows "code = 0 \<and> reason = None \<and> wr_advanced res \<and> wr_retry res = 0 \<and> wr_head res = Some (wt_head f') \<and>
    wt_retry f' = 0 \<and> wt_failures f' = 0 \<and> wt_next f' = None \<and> (\<exists>st. wr_stats res = Some st \<and> \<not> st_truncated st)"
  using run_once_cases [OF assms(1,2)] assms(3) by (auto simp: moved_cleanly_def EXIT_OK_def)

theorem checkpoint_moves_only_when_clean_witness:
  "let ((code, _, res), _, f') = run_once (local_services 100) 30 120 (sample_relay, default_watcher_state) in
   wr_advanced res \<and> code = 0 \<and> wr_head res = Some (wt_head f')"
  using checkpoint_moves_only_when_clean [OF local_services_streaming local_cycle] local_cycle by simp

text \<open>The exit code of a cycle is one of the documented ones. A busy lock exits 22 and leaves the state
  document and the relay alone.\<close>
lemma watcher_exit_codes:
  assumes "streaming (sv_stream sv)"
  shows "fst (fst (run_once sv mi budget (w, f))) \<in> {0, 20, 21, 22, 23} \<and>
    (\<forall>t w1. sv_clock sv w = (t, w1) \<and> \<not> sv_lock sv w1 \<longrightarrow>
      run_once sv mi budget (w, f) = ((22, Some ''lock_busy'', new_result), w1, f))"
proof -
  obtain code reason res w' f' where r: "run_once sv mi budget (w, f) = ((code, reason, res), w', f')"
    by (metis prod.exhaust)
  show ?thesis
    using run_once_cases [OF assms r] r by (auto simp: codes_def run_once_def EXIT_LOCK_BUSY_def)
qed

section \<open>A late arrival\<close>

text \<open>A relay with markers, as git commits are: the world is the list of objects pushed so far, the head
  names its length, and the listing since a head is what was pushed after it. A peer pushes a second
  object while the watcher pushes, between the listing and the second reading of the head. The
  checkpoint then passes over that object: this cycle did not list it, and the next one lists only what
  is newer.\<close>

definition sample_entry :: "char \<Rightarrow> str" where
  "sample_entry c = ''incoming/'' @ replicate 32 c @ ''.json''"

definition racing_services :: "rat \<Rightarrow> str list services" where
  "racing_services t = \<lparr>sv_clock = (\<lambda>w. (t, w)), sv_lock = (\<lambda>_. True), sv_policy = (\<lambda>w. (Inr (Some ''alert''), w)),
     sv_head = (\<lambda>w. (Inr (replicate (length w) (CHR ''c'')), w)),
     sv_stream = git_stream (\<lambda>w since. Inr (drop (length since) w)) (\<lambda>_ _. Some [7]),
     sv_consume = (\<lambda>_ w. (Inr (), w)), sv_pending = (\<lambda>_. 0),
     sv_flush = (\<lambda>w. (Inr ''pushed'', if length w = 1 then w @ [sample_entry (CHR ''b'')] else w)),
     sv_receive = (\<lambda>_ _ w. (Inr \<lparr>od_outcome = Some ''accepted'', od_surfaces = Some 0, od_receipts = Some 0\<rparr>, w)),
     sv_maintain = None, sv_draw = (\<lambda>w. (1, w))\<rparr>"

lemma sample_entries: "object_name_matches (replicate 32 (CHR ''a'') @ ''.json'')" "object_name_matches (replicate 32 (CHR ''b'') @ ''.json'')"
  "strip (sample_entry (CHR ''a'')) = sample_entry (CHR ''a'')" "strip (sample_entry (CHR ''b'')) = sample_entry (CHR ''b'')"
  "take 9 (sample_entry c) = ''incoming/''" "drop 9 (sample_entry c) = replicate 32 c @ ''.json''"
proof -
  have "name_char (CHR ''b'')" by (simp add: name_char_def)
  then have "list_all name_char (replicate 32 (CHR ''b''))" by (simp add: list_all_iff)
  then show "object_name_matches (replicate 32 (CHR ''b'') @ ''.json'')"
    by (simp add: object_name_matches_def name_shape_def)
qed (use sample_name_ok in \<open>simp_all add: sample_name_def sample_entry_def strip_def is_space_def\<close>)

theorem late_arrival_is_skipped:
  "let ((code1, _, res1), w1, f1) = run_once (racing_services 100) 30 120 ([sample_entry (CHR ''a'')], default_watcher_state);
       ((code2, _, res2), w2, f2) = run_once (racing_services 200) 30 120 (w1, f1)
   in length w2 = 2 \<and> code1 = 0 \<and> wr_advanced res1 \<and> wr_accepted res1 = 1 \<and> wt_head f1 = ''cc'' \<and>
      code2 = 0 \<and> wr_accepted res2 = 0"
  by (simp add: cycle_eval racing_services_def git_stream_def git_fetch_new_stream_def git_names_def sample_entries new_stream_stats_def delivered_def OBJECT_MAX_BYTES_def MAX_ENVELOPE_BYTES_def
      FETCH_MAX_OBJECTS_def FETCH_MAX_AGGREGATE_BYTES_def)

end
