(* ===== verification/Rotation.thy ===== *)
theory Rotation
  imports Release
begin

text \<open>
  The rotation of a relationship's agreement keys: \<open>RotationManager\<close> of \<open>crypto/rotation.py\<close>, one
  program per method, over the tables \<open>relationships\<close>, \<open>key_epochs\<close>, \<open>key_rotations\<close>,
  \<open>rotation_quarantine\<close>, \<open>unknown_epoch_first_seen\<close> and \<open>rotation_wrap_seen_pending\<close> and the
  directory of key files. (\<open>may_send\<close> is in the theory of the release function.)

  \<^item> \<open>now\<close> is the clock of the manager, a rational number of seconds since year 1; the texts
    written are of its whole second. The clock is far enough from both ends of the calendar that
    subtracting a retention time stays inside it.
  \<^item> \<open>fp\<close> stands for \<open>agreement_fingerprint\<close>, a hash of the decoded key: \<open>None\<close> where the decoding
    raises. The new pair of keys that \<open>begin_rotation\<close> draws is its argument: the public key as
    text and the private bytes. Nothing else of the cryptography occurs here.
  \<^item> A payload is the record of its fields, which have the types of the schema; the patterns and
    bounds of the schema are checked by \<open>valid_prepare\<close>, \<open>valid_ack\<close> and \<open>valid_epoch\<close>.
  \<^item> \<open>ConfirmRejected\<close> and \<open>NoAckTimeout\<close> are constructors of their own; exceptions of Python and
    SQLite and of the validation are \<open>RotationRaised\<close> with their name. Writing and wiping a key
    file do not fail for lack of space or permission.
\<close>

datatype rotation_exn = RotationError str | ConfirmRejected | NoAckTimeout str nat | RotationRaised str

type_synonym 'a rotation_prog = "(db, rotation_exn, 'a) prog"

definition PEER_KEY_REF :: str where "PEER_KEY_REF = ''peer''"
definition ROTATION_WINDOW :: int where "ROTATION_WINDOW = 24 * 3600"
definition OLD_KEY_RETENTION :: int where "OLD_KEY_RETENTION = 24 * 3600"
definition OLD_KEY_EVENT_LIMIT :: nat where "OLD_KEY_EVENT_LIMIT = 100"
definition ROTATION_QUARANTINE_CAP :: nat where "ROTATION_QUARANTINE_CAP = 50"
definition ROTATION_QUARANTINE_REJECTED_RETENTION :: int where
  "ROTATION_QUARANTINE_REJECTED_RETENTION = 30 * 86400"
definition KEY_ROTATION_COMMITTED_RETENTION :: int where "KEY_ROTATION_COMMITTED_RETENTION = 30 * 86400"
definition PEER_KEY_EPOCH_RETAIN_NEWEST :: nat where "PEER_KEY_EPOCH_RETAIN_NEWEST = 2"
definition SECURITY_KEY_EVENT_RETENTION :: int where "SECURITY_KEY_EVENT_RETENTION = 90 * 86400"

definition stamp_text :: "rat \<Rightarrow> str" where
  "stamp_text now = format_canonical_utc \<lfloor>now\<rfloor>"

definition before_text :: "rat \<Rightarrow> int \<Rightarrow> str" where
  "before_text now d = format_canonical_utc (\<lfloor>now\<rfloor> - d)"

definition moment_of :: "str \<Rightarrow> rotation_exn + instant" where
  "moment_of t = (case parse_canonical_utc t of Inl _ \<Rightarrow> Inl (RotationRaised ''ValueError'') | Inr d \<Rightarrow> Inr d)"

section \<open>Payloads\<close>

text \<open>A pattern that ends in \<open>$\<close> lets one final newline through.\<close>

definition matches :: "(str \<Rightarrow> bool) \<Rightarrow> str \<Rightarrow> bool" where
  "matches P t \<longleftrightarrow> P t \<or> (t \<noteq> [] \<and> last t = CHR 0x0A \<and> P (butlast t))"

definition multibase_shape :: "str \<Rightarrow> bool" where
  "multibase_shape t \<longleftrightarrow> 2 \<le> length t \<and> hd t = CHR ''z'' \<and>
     list_all (\<lambda>c. c \<in> set ''123456789ABCDEFGHJKLMNPQRSTUVWXYZabcdefghijkmnopqrstuvwxyz'') (tl t)"

definition base64url_shape :: "str \<Rightarrow> bool" where
  "base64url_shape t \<longleftrightarrow> t \<noteq> [] \<and>
     list_all (\<lambda>c. c \<in> set ''ABCDEFGHIJKLMNOPQRSTUVWXYZabcdefghijklmnopqrstuvwxyz0123456789_-'') t"

definition valid_prepare :: "prepare_payload \<Rightarrow> bool" where
  "valid_prepare p \<longleftrightarrow> matches multibase_shape (pp_new_key p) \<and>
     matches base64url_shape (pp_prior_fingerprint p) \<and> matches utc_shape (pp_deadline p)"

definition valid_epoch :: "nat \<Rightarrow> bool" where
  "valid_epoch e \<longleftrightarrow> 1 \<le> e \<and> e \<le> 9007199254740991"

definition valid_ack :: "nat \<Rightarrow> str \<Rightarrow> bool" where
  "valid_ack e pid \<longleftrightarrow> uuid_matches pid \<and> valid_epoch e"

definition checked :: "bool \<Rightarrow> 'a \<Rightarrow> rotation_exn + 'a" where
  "checked ok v = (if ok then Inr v else Inl (RotationRaised ''ValidationError''))"

definition build_prepare :: "str \<Rightarrow> str \<Rightarrow> rat \<Rightarrow> rotation_exn + prepare_payload" where
  "build_prepare key print deadline =
     (let p = \<lparr>pp_new_key = key, pp_prior_fingerprint = print, pp_deadline = stamp_text deadline\<rparr>
      in checked (valid_prepare p) p)"

definition build_ack :: "nat \<Rightarrow> str \<Rightarrow> rotation_exn + (nat \<times> str)" where
  "build_ack e pid = checked (valid_ack e pid) (e, pid)"

definition build_confirm :: "nat \<Rightarrow> rotation_exn + nat" where
  "build_confirm e = checked (valid_epoch e) e"

definition build_commit :: "nat \<Rightarrow> rotation_exn + nat" where
  "build_commit e = checked (valid_epoch e) e"

section \<open>The key inventory\<close>

definition own_key_of :: "str \<Rightarrow> key_row \<Rightarrow> bool" where
  "own_key_of rid k \<longleftrightarrow> ek_rel k = rid \<and> ek_ref k \<noteq> PEER_KEY_REF"

definition peer_key_of :: "str \<Rightarrow> key_row \<Rightarrow> bool" where
  "peer_key_of rid k \<longleftrightarrow> ek_rel k = rid \<and> ek_ref k = PEER_KEY_REF"

definition own_epochs :: "db \<Rightarrow> str \<Rightarrow> (nat \<times> str) list" where
  "own_epochs s rid = map (\<lambda>k. (ek_epoch k, ek_public k)) (select (own_key_of rid) (key_epochs s))"

definition own_key :: "db \<Rightarrow> str \<Rightarrow> nat \<Rightarrow> key_row option" where
  "own_key s rid e = fetchone (\<lambda>k. own_key_of rid k \<and> ek_epoch k = e) (key_epochs s)"

definition peer_key :: "db \<Rightarrow> str \<Rightarrow> nat \<Rightarrow> key_row option" where
  "peer_key s rid e = fetchone (\<lambda>k. peer_key_of rid k \<and> ek_epoch k = e) (key_epochs s)"

text \<open>A Python \<open>dict\<close> of epochs: the last value stored under a key, in the order of first storing.\<close>

fun dict_put :: "nat \<Rightarrow> str \<Rightarrow> (nat \<times> str) list \<Rightarrow> (nat \<times> str) list" where
  "dict_put e v [] = [(e, v)]"
| "dict_put e v ((e', v') # d) = (if e' = e then (e, v) # d else (e', v') # dict_put e v d)"

definition peer_key_epochs :: "db \<Rightarrow> str \<Rightarrow> (nat \<times> str) list" where
  "peer_key_epochs s rid =
     foldl (\<lambda>d k. dict_put (ek_epoch k) (ek_public k) d)
       (case relationship_of s rid of
          Some r \<Rightarrow> if truthy (rl_peer_key r)
            then [(if rl_epoch r = 0 then 1 else rl_epoch r, the (rl_peer_key r))] else []
        | None \<Rightarrow> [])
       (select (peer_key_of rid) (key_epochs s))"

definition current_epoch :: "db \<Rightarrow> str \<Rightarrow> nat" where
  "current_epoch s rid = foldr max (map fst (own_epochs s rid @ peer_key_epochs s rid)) 0"

definition require_relationship :: "str \<Rightarrow> relationship_row rotation_prog" where
  "require_relationship rid =
     seq (query (\<lambda>s. relationship_of s rid)) (\<lambda>r.
     case r of None \<Rightarrow> raise (RotationError ''unknown_relationship'') | Some r \<Rightarrow> ret r)"

definition rotation_at :: "db \<Rightarrow> str \<Rightarrow> nat \<Rightarrow> str \<Rightarrow> rotation_row option" where
  "rotation_at s rid e role =
     fetchone (\<lambda>r. kr_rel r = rid \<and> kr_epoch r = e \<and> kr_role r = role) (key_rotations s)"

definition live_phase :: "str \<Rightarrow> bool" where
  "live_phase p \<longleftrightarrow> p \<noteq> ''committed'' \<and> p \<noteq> ''discarded''"

definition in_flight :: "db \<Rightarrow> str \<Rightarrow> str option \<Rightarrow> rotation_row option" where
  "in_flight s rid role =
     fetchone (\<lambda>r. kr_rel r = rid \<and> (case role of None \<Rightarrow> True | Some x \<Rightarrow> kr_role r = x) \<and>
       live_phase (kr_phase r)) (key_rotations s)"

section \<open>Writes\<close>

definition at_row :: "str \<Rightarrow> nat \<Rightarrow> str \<Rightarrow> (str \<Rightarrow> bool) \<Rightarrow> rotation_row \<Rightarrow> bool" where
  "at_row rid e role P r \<longleftrightarrow> kr_rel r = rid \<and> kr_epoch r = e \<and> kr_role r = role \<and> P (kr_phase r)"

text \<open>A guarded UPDATE of \<open>key_rotations\<close>, answering its \<open>rowcount\<close>.\<close>

definition advance ::
  "str \<Rightarrow> nat \<Rightarrow> str \<Rightarrow> (str \<Rightarrow> bool) \<Rightarrow> (rotation_row \<Rightarrow> rotation_row) \<Rightarrow> nat rotation_prog" where
  "advance rid e role P f = (\<lambda>s. (Inr (rowcount (at_row rid e role P) (key_rotations s)),
     s\<lparr>key_rotations := update_where (at_row rid e role P) f (key_rotations s)\<rparr>))"

definition set_key_state :: "(key_row \<Rightarrow> bool) \<Rightarrow> nat \<Rightarrow> str \<Rightarrow> db \<Rightarrow> db" where
  "set_key_state P e st s =
     s\<lparr>key_epochs := update_where (\<lambda>k. P k \<and> ek_epoch k = e) (\<lambda>k. k\<lparr>ek_state := st\<rparr>) (key_epochs s)\<rparr>"

definition delete_keys :: "(key_row \<Rightarrow> bool) \<Rightarrow> db \<Rightarrow> db" where
  "delete_keys P s = s\<lparr>key_epochs := delete_where P (key_epochs s)\<rparr>"

definition delete_rotations :: "(rotation_row \<Rightarrow> bool) \<Rightarrow> db \<Rightarrow> db" where
  "delete_rotations P s = s\<lparr>key_rotations := delete_where P (key_rotations s)\<rparr>"

text \<open>INSERTs that raise on a primary key already present.\<close>

definition key_id :: "key_row \<Rightarrow> str \<times> nat" where
  "key_id k = (ek_rel k, ek_epoch k)"

definition rotation_id :: "rotation_row \<Rightarrow> str \<times> nat \<times> str" where
  "rotation_id r = (kr_rel r, kr_epoch r, kr_role r)"

definition insert_key :: "key_row \<Rightarrow> unit rotation_prog" where
  "insert_key k = (\<lambda>s. if key_id k \<in> set (map key_id (key_epochs s))
     then (Inl (RotationRaised ''IntegrityError''), s)
     else (Inr (), s\<lparr>key_epochs := key_epochs s @ [k]\<rparr>))"

definition insert_rotation :: "rotation_row \<Rightarrow> unit rotation_prog" where
  "insert_rotation r = (\<lambda>s. if rotation_id r \<in> set (map rotation_id (key_rotations s))
     then (Inl (RotationRaised ''IntegrityError''), s)
     else (Inr (), s\<lparr>key_rotations := key_rotations s @ [r]\<rparr>))"

definition set_relationship :: "str \<Rightarrow> (relationship_row \<Rightarrow> relationship_row) \<Rightarrow> db \<Rightarrow> db" where
  "set_relationship rid f s = s\<lparr>relationships := update_where (\<lambda>r. rl_id r = rid) f (relationships s)\<rparr>"

text \<open>Key files.\<close>

definition key_path :: "str \<Rightarrow> str \<Rightarrow> nat \<Rightarrow> str" where
  "key_path dir rid e = dir @ ''/'' @ rid @ ''-e'' @ nat_text e @ ''.key''"

definition delete_private_key :: "str \<Rightarrow> db \<Rightarrow> db" where
  "delete_private_key path s = s\<lparr>key_files := delete_where (\<lambda>f. fst f = path) (key_files s)\<rparr>"

definition store_private_key :: "str \<Rightarrow> bytes \<Rightarrow> unit rotation_prog" where
  "store_private_key path data = (\<lambda>s. if path \<in> set (map fst (key_files s))
     then (Inl (RotationRaised ''FileExistsError''), s)
     else (Inr (), s\<lparr>key_files := key_files s @ [(path, data)]\<rparr>))"

section \<open>The quarantine and the epoch gate\<close>

text \<open>The newest rows of a bounded table: the last \<open>n\<close> in the order of \<open>key\<close>.\<close>

definition newest :: "nat \<Rightarrow> ('r \<Rightarrow> 'k::linorder) \<Rightarrow> 'r list \<Rightarrow> 'r list" where
  "newest n key t = take n (rev (sort_key key t))"

definition cap_quarantine :: "str \<Rightarrow> db \<Rightarrow> db" where
  "cap_quarantine rid s = s\<lparr>rotation_quarantine := delete_where (\<lambda>q. rq_rel q = rid \<and>
     rq_id q \<notin> set (map rq_id (newest ROTATION_QUARANTINE_CAP rq_id
       (select (\<lambda>q. rq_rel q = rid) (rotation_quarantine s))))) (rotation_quarantine s)\<rparr>"

definition add_held :: "str \<Rightarrow> nat \<Rightarrow> str \<Rightarrow> held_payload \<Rightarrow> rat \<Rightarrow> db \<Rightarrow> db" where
  "add_held rid e reason payload now s = s\<lparr>
     rotation_quarantine := rotation_quarantine s @ [\<lparr>rq_id = Suc (rotation_quarantine_seq s), rq_rel = rid,
       rq_epoch = e, rq_reason = reason, rq_payload = payload, rq_received = stamp_text now\<rparr>],
     rotation_quarantine_seq := Suc (rotation_quarantine_seq s)\<rparr>"

definition hold :: "str \<Rightarrow> nat \<Rightarrow> str \<Rightarrow> held_payload \<Rightarrow> rat \<Rightarrow> db \<Rightarrow> db" where
  "hold rid e reason payload now s = cap_quarantine rid (add_held rid e reason payload now s)"

definition release_held :: "(held_row \<Rightarrow> bool) \<Rightarrow> db \<Rightarrow> db" where
  "release_held P s = s\<lparr>rotation_quarantine := delete_where P (rotation_quarantine s)\<rparr>"

definition list_quarantine :: "db \<Rightarrow> str \<Rightarrow> held_row list" where
  "list_quarantine s rid = sort_key rq_id (select (\<lambda>q. rq_rel q = rid) (rotation_quarantine s))"

definition first_seen_id :: "first_seen_row \<Rightarrow> str \<times> nat" where
  "first_seen_id r = (fs_rel r, fs_epoch r)"

definition note_first_seen :: "str \<Rightarrow> nat \<Rightarrow> rat \<Rightarrow> db \<Rightarrow> db" where
  "note_first_seen rid e now s = s\<lparr>unknown_epoch_first_seen := insert_or_ignore first_seen_id
     \<lparr>fs_rel = rid, fs_epoch = e, fs_at = stamp_text now, fs_rejected = False\<rparr> (unknown_epoch_first_seen s)\<rparr>"

definition cap_first_seen :: "str \<Rightarrow> db \<Rightarrow> db" where
  "cap_first_seen rid s = s\<lparr>unknown_epoch_first_seen := delete_where (\<lambda>r. fs_rel r = rid \<and> \<not> fs_rejected r \<and>
     first_seen_id r \<notin> set (map first_seen_id (newest 1000 (\<lambda>r. (fs_at r, fs_epoch r))
       (select (\<lambda>r. fs_rel r = rid \<and> \<not> fs_rejected r) (unknown_epoch_first_seen s)))))
     (unknown_epoch_first_seen s)\<rparr>"

definition first_seen_of :: "db \<Rightarrow> str \<Rightarrow> nat \<Rightarrow> first_seen_row option" where
  "first_seen_of s rid e = fetchone (\<lambda>r. first_seen_id r = (rid, e)) (unknown_epoch_first_seen s)"

definition reject_epoch :: "str \<Rightarrow> nat \<Rightarrow> db \<Rightarrow> db" where
  "reject_epoch rid e s = s\<lparr>unknown_epoch_first_seen := update_where (\<lambda>r. first_seen_id r = (rid, e))
     (\<lambda>r. r\<lparr>fs_rejected := True\<rparr>) (unknown_epoch_first_seen s)\<rparr>"

definition forget_first_seen :: "str \<Rightarrow> nat \<Rightarrow> db \<Rightarrow> db" where
  "forget_first_seen rid e s = s\<lparr>unknown_epoch_first_seen :=
     delete_where (\<lambda>r. fs_rel r = rid \<and> fs_epoch r \<le> e) (unknown_epoch_first_seen s)\<rparr>"

text \<open>Whether the epoch is past its window: the stored verdict, or the age of the first sighting.\<close>

definition overdue :: "rat \<Rightarrow> first_seen_row option \<Rightarrow> rotation_exn + bool" where
  "overdue now first = (case first of None \<Rightarrow> Inr False
     | Some r \<Rightarrow> if fs_rejected r then Inr True else
        (case moment_of (fs_at r) of Inl e \<Rightarrow> Inl e
         | Inr t \<Rightarrow> Inr (of_int (t + ROTATION_WINDOW) < now)))"

definition on_data_event_epoch :: "rat \<Rightarrow> str \<Rightarrow> nat \<Rightarrow> str rotation_prog" where
  "on_data_event_epoch now rid e =
     seq (query (\<lambda>s. current_epoch s rid)) (\<lambda>known.
     if e \<le> known then ret ''ok'' else
     seq (txn
       (seq (exec (note_first_seen rid e now)) (\<lambda>_.
        seq (exec (cap_first_seen rid)) (\<lambda>_.
        seq (query (\<lambda>s. first_seen_of s rid e)) (\<lambda>first.
        seq (lift (overdue now first)) (\<lambda>rejected.
        seq (exec (if rejected then reject_epoch rid e else id)) (\<lambda>_.
        seq (exec (hold rid e (if rejected then ''unknown_future_epoch_rejected'' else ''unknown_future_epoch'')
          (HeldEpoch e) now)) (\<lambda>_.
        ret rejected)))))))) (\<lambda>rejected.
     raise (RotationError (if rejected then ''unknown_future_epoch_rejected'' else ''unknown_future_epoch''))))"

section \<open>The rotating side\<close>

definition cleaning_up :: "(db \<Rightarrow> db) \<Rightarrow> 'a rotation_prog \<Rightarrow> 'a rotation_prog" where
  "cleaning_up f p = (\<lambda>s. case p s of (Inl e, t) \<Rightarrow> (Inl e, f t) | (Inr a, t) \<Rightarrow> (Inr a, t))"

definition reconcile_orphan_key_file :: "str \<Rightarrow> nat \<Rightarrow> str \<Rightarrow> unit rotation_prog" where
  "reconcile_orphan_key_file rid e path =
     seq (query (\<lambda>s. own_key s rid e)) (\<lambda>key.
     seq (query (\<lambda>s. rotation_at s rid e ''rotating'')) (\<lambda>row.
     if key \<noteq> None \<or> (case row of None \<Rightarrow> False | Some r \<Rightarrow> kr_phase r \<noteq> ''discarded'')
     then raise (RotationRaised ''FileExistsError'')
     else exec (delete_private_key path)))"

definition store_or_reconcile :: "str \<Rightarrow> nat \<Rightarrow> str \<Rightarrow> bytes \<Rightarrow> unit rotation_prog" where
  "store_or_reconcile rid e path data =
     seq (query (\<lambda>s. path \<in> set (map fst (key_files s)))) (\<lambda>taken.
     if taken then seq (reconcile_orphan_key_file rid e path) (\<lambda>_. store_private_key path data)
     else store_private_key path data)"

definition fingerprint_of :: "(str \<Rightarrow> str option) \<Rightarrow> str \<Rightarrow> rotation_exn + str" where
  "fingerprint_of fp key = (case fp key of None \<Rightarrow> Inl (RotationRaised ''ValueError'') | Some x \<Rightarrow> Inr x)"

definition candidate_row :: "str \<Rightarrow> nat \<Rightarrow> nat \<Rightarrow> str \<Rightarrow> str \<Rightarrow> str option \<Rightarrow> rat \<Rightarrow> rotation_row" where
  "candidate_row rid e prior print key pid now = \<lparr>kr_rel = rid, kr_epoch = e, kr_role = ''rotating'',
     kr_phase = ''candidate'', kr_prior_epoch = Some prior, kr_prior_fingerprint = Some print,
     kr_new_key = Some key, kr_prepare = pid, kr_prepared = stamp_text now, kr_acknowledged = None,
     kr_confirmed = None, kr_committed = None, kr_deadline = stamp_text (now + of_int ROTATION_WINDOW),
     kr_new_wrap_seen = False, kr_accepted = 0\<rparr>"

text \<open>\<open>prior\<close> is the newest of the local keys, \<open>prior_key\<close> its public text.\<close>

definition begin_rotation ::
  "(str \<Rightarrow> str option) \<Rightarrow> str \<Rightarrow> str \<times> bytes \<Rightarrow> rat \<Rightarrow> str \<Rightarrow> str option \<Rightarrow> (nat \<times> prepare_payload) rotation_prog" where
  "begin_rotation fp dir fresh now rid pid =
     seq (require_relationship rid) (\<lambda>_.
     seq (query (\<lambda>s. in_flight s rid None)) (\<lambda>busy.
     if busy \<noteq> None then raise (RotationError ''rotation_in_flight'') else
     seq (query (\<lambda>s. own_epochs s rid)) (\<lambda>own.
     if own = [] then raise (RotationError ''no_own_key'') else
     seq (query (\<lambda>s. Suc (current_epoch s rid))) (\<lambda>e.
     let prior = foldr max (map fst own) 0; path = key_path dir rid e in
     if e \<le> prior then raise (RotationError ''stale_prior'') else
     seq (lift (fingerprint_of fp (the (map_of own prior)))) (\<lambda>print.
     seq (lift (build_prepare (fst fresh) print (now + of_int ROTATION_WINDOW))) (\<lambda>prepare.
     seq (store_or_reconcile rid e path (snd fresh)) (\<lambda>_.
     seq (cleaning_up (delete_private_key path) (txn
       (seq (insert_key \<lparr>ek_rel = rid, ek_epoch = e, ek_public = fst fresh, ek_ref = path,
          ek_state = ''candidate''\<rparr>) (\<lambda>_.
        seq (exec (delete_rotations (at_row rid e ''rotating'' (\<lambda>p. p = ''discarded'')))) (\<lambda>_.
        insert_rotation (candidate_row rid e prior print (fst fresh) pid now)))))) (\<lambda>_.
     ret (e, prepare)))))))))"

definition consume_pending_wrap_seen :: "str \<Rightarrow> nat \<Rightarrow> db \<Rightarrow> db" where
  "consume_pending_wrap_seen rid e s =
     (let mine = (\<lambda>w. ws_rel w = rid \<and> ws_epoch w = e);
          n = rowcount mine (wrap_seen_pending s);
          t = s\<lparr>wrap_seen_pending := delete_where mine (wrap_seen_pending s)\<rparr>
      in if n = 0 then t
         else t\<lparr>key_rotations := update_where (at_row rid e ''rotating'' live_phase)
                (\<lambda>r. r\<lparr>kr_new_wrap_seen := True\<rparr>) (key_rotations t)\<rparr>)"

definition on_ack :: "rat \<Rightarrow> str \<Rightarrow> nat \<Rightarrow> str \<Rightarrow> unit rotation_prog" where
  "on_ack now rid e pid =
     (if \<not> valid_ack e pid then raise (RotationRaised ''ValidationError'') else
     seq (query (\<lambda>s. rotation_at s rid e ''rotating'')) (\<lambda>row.
     case row of None \<Rightarrow> raise ConfirmRejected
     | Some r \<Rightarrow>
       if truthy (kr_prepare r) \<and> kr_prepare r \<noteq> Some pid then raise ConfirmRejected
       else if kr_phase r = ''acknowledged'' then exec (consume_pending_wrap_seen rid e)
       else if kr_phase r \<noteq> ''candidate'' then raise ConfirmRejected
       else seq (lift (moment_of (kr_deadline r))) (\<lambda>deadline.
         if of_int deadline < now then raise ConfirmRejected else
         txn (seq (advance rid e ''rotating'' (\<lambda>p. p = ''candidate'')
               (\<lambda>r. r\<lparr>kr_phase := ''acknowledged'', kr_acknowledged := Some (stamp_text now)\<rparr>)) (\<lambda>n.
           if n = 0 then raise ConfirmRejected else
           seq (exec (set_key_state (own_key_of rid) e ''acknowledged'')) (\<lambda>_.
           exec (consume_pending_wrap_seen rid e)))))))"

definition wrap_seen_id :: "wrap_seen_row \<Rightarrow> str \<times> nat" where
  "wrap_seen_id w = (ws_rel w, ws_epoch w)"

definition park_wrap_seen :: "str \<Rightarrow> nat \<Rightarrow> rat \<Rightarrow> db \<Rightarrow> db" where
  "park_wrap_seen rid e now s = s\<lparr>wrap_seen_pending :=
     delete_where (\<lambda>w. wrap_seen_id w = (rid, e)) (wrap_seen_pending s) @
     [\<lparr>ws_rel = rid, ws_epoch = e, ws_at = stamp_text now\<rparr>]\<rparr>"

definition note_decrypted_new_wrap :: "rat \<Rightarrow> str \<Rightarrow> nat \<Rightarrow> unit rotation_prog" where
  "note_decrypted_new_wrap now rid e =
     txn (seq (advance rid e ''rotating'' live_phase (\<lambda>r. r\<lparr>kr_new_wrap_seen := True\<rparr>)) (\<lambda>n.
       exec (if n = 0 then park_wrap_seen rid e now else id)))"

definition build_confirm_payload :: "str \<Rightarrow> nat rotation_prog" where
  "build_confirm_payload rid =
     seq (query (\<lambda>s. in_flight s rid (Some ''rotating''))) (\<lambda>row.
     case row of None \<Rightarrow> raise (RotationError ''nothing_to_confirm'')
     | Some r \<Rightarrow>
       if kr_phase r \<noteq> ''acknowledged'' \<and> kr_phase r \<noteq> ''confirmed''
       then raise (RotationError ''nothing_to_confirm'')
       else if \<not> kr_new_wrap_seen r then raise (RotationError ''no_new_wrap_seen'')
       else lift (build_confirm (kr_epoch r)))"

definition confirmed_at :: "rat \<Rightarrow> rotation_row \<Rightarrow> rotation_row" where
  "confirmed_at now r = r\<lparr>kr_phase := ''confirmed'', kr_confirmed := Some (stamp_text now)\<rparr>"

definition advance_or :: "rotation_exn \<Rightarrow> nat rotation_prog \<Rightarrow> unit rotation_prog" where
  "advance_or e p = seq p (\<lambda>n. if n = 0 then raise e else ret ())"

definition mark_confirmed :: "rat \<Rightarrow> str \<Rightarrow> unit rotation_prog" where
  "mark_confirmed now rid =
     txn (seq (query (\<lambda>s. in_flight s rid (Some ''rotating''))) (\<lambda>row.
     case row of None \<Rightarrow> raise (RotationError ''nothing_to_confirm'')
     | Some r \<Rightarrow>
       if kr_phase r = ''confirmed'' then ret ()
       else if kr_phase r \<noteq> ''acknowledged'' then raise (RotationError ''nothing_to_confirm'')
       else advance_or (RotationError ''nothing_to_confirm'')
         (advance rid (kr_epoch r) ''rotating'' (\<lambda>p. p = ''acknowledged'') (confirmed_at now))))"

definition confirm_rotation :: "rat \<Rightarrow> str \<Rightarrow> nat rotation_prog" where
  "confirm_rotation now rid =
     txn (seq (query (\<lambda>s. in_flight s rid (Some ''rotating''))) (\<lambda>row.
     case row of None \<Rightarrow> raise (RotationError ''nothing_to_confirm'')
     | Some r \<Rightarrow>
       if kr_phase r = ''confirmed'' then lift (build_confirm (kr_epoch r))
       else if kr_phase r \<noteq> ''acknowledged'' then raise (RotationError ''nothing_to_confirm'')
       else if \<not> kr_new_wrap_seen r then raise (RotationError ''no_new_wrap_seen'')
       else seq (advance_or (RotationError ''nothing_to_confirm'')
           (advance rid (kr_epoch r) ''rotating'' (\<lambda>p. p = ''acknowledged'') (confirmed_at now))) (\<lambda>_.
         lift (build_confirm (kr_epoch r)))))"

definition committed_at :: "rat \<Rightarrow> rotation_row \<Rightarrow> rotation_row" where
  "committed_at now r = r\<lparr>kr_phase := ''committed'', kr_committed := Some (stamp_text now)\<rparr>"

text \<open>A guarded update that found no row reads again.\<close>

definition settled_or_rejected :: "str \<Rightarrow> nat \<Rightarrow> str \<Rightarrow> str \<Rightarrow> unit rotation_prog" where
  "settled_or_rejected rid e role ph =
     seq (query (\<lambda>s. rotation_at s rid e role)) (\<lambda>row.
     if (case row of None \<Rightarrow> False | Some r \<Rightarrow> kr_phase r = ph) then ret () else raise ConfirmRejected)"

text \<open>\<open>held\<close> are the epochs of the local keys before the transaction.\<close>

definition on_commit :: "rat \<Rightarrow> str \<Rightarrow> nat \<Rightarrow> unit rotation_prog" where
  "on_commit now rid e =
     (if \<not> valid_epoch e then raise (RotationRaised ''ValidationError'') else
     seq (query (\<lambda>s. rotation_at s rid e ''rotating'')) (\<lambda>row.
     case row of
       None \<Rightarrow>
         seq (query (\<lambda>s. relationship_of s rid)) (\<lambda>rel.
         if (case rel of None \<Rightarrow> False | Some x \<Rightarrow> rl_epoch x = e) then ret () else raise ConfirmRejected)
     | Some r \<Rightarrow>
       if kr_phase r = ''committed'' then ret ()
       else if kr_phase r \<noteq> ''confirmed'' then raise ConfirmRejected
       else
         seq (query (\<lambda>s. map fst (own_epochs s rid))) (\<lambda>held.
         txn (seq (advance rid e ''rotating'' (\<lambda>p. p = ''confirmed'')
               (\<lambda>r. (committed_at now r)\<lparr>kr_accepted := 0\<rparr>)) (\<lambda>n.
           if n = 0 then settled_or_rejected rid e ''rotating'' ''committed'' else
           seq (exec (set_key_state (own_key_of rid) e ''active'')) (\<lambda>_.
           seq (exec (case kr_prior_epoch r of None \<Rightarrow> id
               | Some p \<Rightarrow> if p \<in> set held then set_key_state (own_key_of rid) p ''retired'' else id)) (\<lambda>_.
           exec (set_relationship rid (\<lambda>x. x\<lparr>rl_epoch := e\<rparr>)))))))))"

definition note_accepted_event :: "str \<Rightarrow> unit rotation_prog" where
  "note_accepted_event rid =
     seq (query (\<lambda>s. relationship_of s rid)) (\<lambda>rel.
     case rel of None \<Rightarrow> ret ()
     | Some x \<Rightarrow> txn (seq (advance rid (rl_epoch x) ''rotating'' (\<lambda>p. p = ''committed'')
         (\<lambda>r. r\<lparr>kr_accepted := Suc (kr_accepted r)\<rparr>)) (\<lambda>_. ret ())))"

section \<open>The acking side\<close>

definition acking_row :: "str \<Rightarrow> nat \<Rightarrow> nat \<Rightarrow> prepare_payload \<Rightarrow> str \<Rightarrow> rat \<Rightarrow> instant \<Rightarrow> rotation_row" where
  "acking_row rid e prior p pid now deadline = \<lparr>kr_rel = rid, kr_epoch = e, kr_role = ''acking'',
     kr_phase = ''acknowledged'', kr_prior_epoch = Some prior,
     kr_prior_fingerprint = Some (pp_prior_fingerprint p), kr_new_key = Some (pp_new_key p),
     kr_prepare = Some pid, kr_prepared = stamp_text now, kr_acknowledged = Some (stamp_text now),
     kr_confirmed = None, kr_committed = None, kr_deadline = format_canonical_utc deadline,
     kr_new_wrap_seen = False, kr_accepted = 0\<rparr>"

definition record_acking_rotation ::
  "str \<Rightarrow> nat \<Rightarrow> nat \<Rightarrow> prepare_payload \<Rightarrow> str \<Rightarrow> rat \<Rightarrow> unit rotation_prog" where
  "record_acking_rotation rid e prior p pid now =
     seq (exec (delete_rotations (at_row rid e ''acking'' (\<lambda>x. x = ''discarded'')))) (\<lambda>_.
     seq (query (\<lambda>s. rotation_at s rid e ''acking'')) (\<lambda>row.
     if (case row of None \<Rightarrow> False | Some r \<Rightarrow> kr_phase r \<noteq> ''discarded'') then ret () else
     seq (lift (moment_of (pp_deadline p))) (\<lambda>deadline.
     seq (insert_rotation (acking_row rid e prior p pid now deadline)) (\<lambda>_.
     seq (exec (release_held (\<lambda>q. rq_rel q = rid \<and> rq_reason q = ''unknown_future_epoch'' \<and> rq_epoch q \<le> e))) (\<lambda>_.
     exec (forget_first_seen rid e))))))"

text \<open>The first of the peer's keys with the fingerprint of the prepare.\<close>

fun epoch_with_print :: "(str \<Rightarrow> str option) \<Rightarrow> str \<Rightarrow> (nat \<times> str) list \<Rightarrow> rotation_exn + nat option" where
  "epoch_with_print fp x [] = Inr None"
| "epoch_with_print fp x ((e, key) # d) =
     (case fingerprint_of fp key of Inl ex \<Rightarrow> Inl ex
      | Inr y \<Rightarrow> if y = x then Inr (Some e) else epoch_with_print fp x d)"

definition hold_conflict :: "str \<Rightarrow> nat \<Rightarrow> prepare_payload \<Rightarrow> str \<Rightarrow> rat \<Rightarrow> 'a rotation_prog" where
  "hold_conflict rid e p pid now =
     seq (txn (exec (hold rid e ''conflicting_prepare'' (HeldPrepare p pid) now))) (\<lambda>_.
     raise (RotationError ''conflicting_prepare''))"

text \<open>What is left once the new epoch's peer key is known to be absent.\<close>

definition accept_prepare :: "rat \<Rightarrow> str \<Rightarrow> nat \<Rightarrow> nat \<Rightarrow> prepare_payload \<Rightarrow> str \<Rightarrow> (nat \<times> str) rotation_prog" where
  "accept_prepare now rid e prior p pid =
     seq (query (\<lambda>s. current_epoch s rid)) (\<lambda>cur.
     if e \<le> cur then raise (RotationError ''stale_epoch'') else
     seq (query (\<lambda>s. in_flight s rid None)) (\<lambda>busy.
     if busy \<noteq> None then raise (RotationError ''rotation_in_flight'') else
     seq (lift (moment_of (pp_deadline p))) (\<lambda>deadline.
     if of_int deadline < now then raise (RotationError ''prepare_expired'') else
     seq (txn (seq (insert_key \<lparr>ek_rel = rid, ek_epoch = e, ek_public = pp_new_key p,
           ek_ref = PEER_KEY_REF, ek_state = ''acknowledged''\<rparr>) (\<lambda>_.
         record_acking_rotation rid e prior p pid now))) (\<lambda>_.
     lift (build_ack e pid)))))"

definition on_prepare ::
  "(str \<Rightarrow> str option) \<Rightarrow> rat \<Rightarrow> str \<Rightarrow> prepare_payload \<Rightarrow> str \<Rightarrow> (nat \<times> str) rotation_prog" where
  "on_prepare fp now rid p pid =
     (if \<not> valid_prepare p then raise (RotationRaised ''ValidationError'') else
     seq (require_relationship rid) (\<lambda>_.
     seq (query (\<lambda>s. peer_key_epochs s rid)) (\<lambda>peers.
     seq (lift (epoch_with_print fp (pp_prior_fingerprint p) peers)) (\<lambda>found.
     case found of None \<Rightarrow> raise (RotationError ''unknown_prior_fingerprint'')
     | Some prior \<Rightarrow>
       let e = Suc prior in
       seq (query (\<lambda>s. peer_key s rid e)) (\<lambda>existing.
       case existing of
         Some k \<Rightarrow>
           if ek_public k \<noteq> pp_new_key p then hold_conflict rid e p pid now
           else seq (txn (record_acking_rotation rid e prior p pid now)) (\<lambda>_. lift (build_ack e pid))
       | None \<Rightarrow>
         if prior \<noteq> foldr max (map fst peers) 0 then raise (RotationError ''stale_prior_fingerprint'')
         else seq (query (\<lambda>s. (map fst (own_epochs s rid), rotation_at s rid e ''rotating''))) (\<lambda>(own, row).
           if e \<in> set own then
             if (case row of None \<Rightarrow> True | Some r \<Rightarrow> live_phase (kr_phase r))
             then hold_conflict rid e p pid now
             else raise (RotationError ''stale_epoch'')
           else accept_prepare now rid e prior p pid))))))"

definition dual_wrap_keys :: "db \<Rightarrow> str \<Rightarrow> rotation_exn + (nat \<times> str) list" where
  "dual_wrap_keys s rid = (case in_flight s rid (Some ''acking'') of
     None \<Rightarrow> Inl (RotationError ''no_acknowledged_rotation'')
   | Some r \<Rightarrow>
     if kr_phase r \<noteq> ''acknowledged'' \<and> kr_phase r \<noteq> ''confirmed''
     then Inl (RotationError ''no_acknowledged_rotation'') else
     (case kr_prior_epoch r of None \<Rightarrow> Inl (RotationRaised ''TypeError'')
      | Some prior \<Rightarrow>
        (case (map_of (peer_key_epochs s rid) (kr_epoch r), map_of (peer_key_epochs s rid) prior) of
           (Some new, Some old) \<Rightarrow> Inr (dict_put (kr_epoch r) new [(prior, old)])
         | _ \<Rightarrow> Inl (RotationError ''peer_key_missing''))))"

definition on_confirm :: "rat \<Rightarrow> str \<Rightarrow> nat \<Rightarrow> unit rotation_prog" where
  "on_confirm now rid e =
     (if \<not> valid_epoch e then raise (RotationRaised ''ValidationError'') else
     seq (query (\<lambda>s. rotation_at s rid e ''acking'')) (\<lambda>row.
     case row of None \<Rightarrow> raise ConfirmRejected
     | Some r \<Rightarrow>
       if kr_phase r = ''confirmed'' then ret ()
       else if kr_phase r \<noteq> ''acknowledged'' then raise ConfirmRejected
       else txn (seq (advance rid e ''acking'' (\<lambda>p. p = ''acknowledged'') (confirmed_at now)) (\<lambda>n.
         if n = 0 then settled_or_rejected rid e ''acking'' ''confirmed'' else ret ()))))"

definition latest_committed :: "db \<Rightarrow> str \<Rightarrow> nat option" where
  "latest_committed s rid =
     (case map kr_epoch (select (\<lambda>r. kr_rel r = rid \<and> kr_role r = ''acking'' \<and> kr_phase r = ''committed'')
        (key_rotations s)) of
        [] \<Rightarrow> None | es \<Rightarrow> Some (foldr max es 0))"

definition build_commit_payload :: "str \<Rightarrow> nat rotation_prog" where
  "build_commit_payload rid =
     seq (query (\<lambda>s. in_flight s rid (Some ''acking''))) (\<lambda>row.
     case (case row of None \<Rightarrow> None | Some r \<Rightarrow> if kr_phase r = ''confirmed'' then Some r else None) of
       Some r \<Rightarrow> lift (build_commit (kr_epoch r))
     | None \<Rightarrow>
       seq (query (\<lambda>s. latest_committed s rid)) (\<lambda>e.
       case e of None \<Rightarrow> raise (RotationError ''nothing_to_commit'') | Some e \<Rightarrow> lift (build_commit e)))"

definition mark_committed :: "rat \<Rightarrow> str \<Rightarrow> unit rotation_prog" where
  "mark_committed now rid =
     txn (seq (query (\<lambda>s. in_flight s rid (Some ''acking''))) (\<lambda>row.
     case row of
       None \<Rightarrow>
         seq (query (\<lambda>s. latest_committed s rid)) (\<lambda>e.
         if e \<noteq> None then ret () else raise (RotationError ''nothing_to_commit''))
     | Some r \<Rightarrow>
       if kr_phase r \<noteq> ''confirmed'' then raise (RotationError ''nothing_to_commit'')
       else
         seq (advance_or (RotationError ''nothing_to_commit'')
           (advance rid (kr_epoch r) ''acking'' (\<lambda>p. p = ''confirmed'') (committed_at now))) (\<lambda>_.
         seq (exec (set_key_state (peer_key_of rid) (kr_epoch r) ''active'')) (\<lambda>_.
         exec (set_relationship rid (\<lambda>x. x\<lparr>rl_epoch := kr_epoch r, rl_peer_key := kr_new_key r\<rparr>))))))"

section \<open>Resolving a conflict\<close>

text \<open>The answer of \<open>_discard_candidate\<close>: whether a row was claimed, and the key file to delete.\<close>

definition discard_candidate :: "str \<Rightarrow> nat \<Rightarrow> str option \<Rightarrow> (bool \<times> str option) rotation_prog" where
  "discard_candidate rid e expected =
     seq (query (\<lambda>s. own_key s rid e)) (\<lambda>key.
     seq (advance rid e ''rotating'' (case expected of None \<Rightarrow> live_phase | Some x \<Rightarrow> (\<lambda>p. p = x))
       (\<lambda>r. r\<lparr>kr_phase := ''discarded''\<rparr>)) (\<lambda>n.
     if n = 0 then ret (False, None) else
     seq (exec (delete_keys (\<lambda>k. own_key_of rid k \<and> ek_epoch k = e))) (\<lambda>_.
     ret (True, map_option ek_ref key))))"

definition delete_key_file :: "str option \<Rightarrow> unit rotation_prog" where
  "delete_key_file path = exec (case path of None \<Rightarrow> id | Some p \<Rightarrow> delete_private_key p)"

definition resolve_quarantine ::
  "(str \<Rightarrow> str option) \<Rightarrow> rat \<Rightarrow> str \<Rightarrow> int \<Rightarrow> str \<Rightarrow> (nat \<times> str) option rotation_prog" where
  "resolve_quarantine fp now rid i choice =
     seq (query (\<lambda>s. list_quarantine s rid)) (\<lambda>entries.
     if i < 0 \<or> int (length entries) \<le> i then raise (RotationError ''bad_quarantine_index'')
     else if choice \<noteq> ''mine'' \<and> choice \<noteq> ''theirs'' then raise (RotationError ''bad_choice'')
     else let q = entries ! nat i in
       if rq_reason q \<noteq> ''conflicting_prepare'' then raise (RotationError ''not_resolvable'')
       else if choice = ''theirs'' then
         seq (txn (discard_candidate rid (rq_epoch q) None)) (\<lambda>(_, path).
         seq (delete_key_file (case path of None \<Rightarrow> None | Some p \<Rightarrow> if p = [] then None else Some p)) (\<lambda>_.
         case rq_payload q of HeldEpoch _ \<Rightarrow> raise (RotationRaised ''KeyError'')
         | HeldPrepare p pid \<Rightarrow>
           seq (on_prepare fp now rid p pid) (\<lambda>ack.
           seq (txn (exec (release_held (\<lambda>x. rq_id x = rq_id q)))) (\<lambda>_.
           ret (Some ack)))))
       else seq (txn (exec (release_held (\<lambda>x. rq_id x = rq_id q)))) (\<lambda>_. ret None))"

section \<open>Maintenance\<close>

definition committed_id :: "rotation_row \<Rightarrow> str \<times> str" where
  "committed_id r = (kr_rel r, kr_role r)"

definition newest_committed :: "db \<Rightarrow> rotation_row \<Rightarrow> bool" where
  "newest_committed s r \<longleftrightarrow> kr_epoch r = foldr max (map kr_epoch
     (select (\<lambda>x. kr_phase x = ''committed'' \<and> committed_id x = committed_id r) (key_rotations s))) 0"

definition compact_committed_rotations :: "rat \<Rightarrow> db \<Rightarrow> db" where
  "compact_committed_rotations now s = delete_rotations (\<lambda>r. kr_phase r = ''committed'' \<and>
     (case kr_committed r of None \<Rightarrow> False
      | Some t \<Rightarrow> t \<le> before_text now KEY_ROTATION_COMMITTED_RETENTION) \<and> \<not> newest_committed s r) s"

definition compact_peer_keys_of :: "str \<Rightarrow> db \<Rightarrow> db" where
  "compact_peer_keys_of rid s = delete_keys (\<lambda>k. peer_key_of rid k \<and>
     ek_epoch k \<notin> set (newest PEER_KEY_EPOCH_RETAIN_NEWEST id
       (map ek_epoch (select (peer_key_of rid) (key_epochs s))))) s"

definition compact_peer_key_epochs :: "db \<Rightarrow> db" where
  "compact_peer_key_epochs s = fold compact_peer_keys_of
     (remdups (map ek_rel (select (\<lambda>k. ek_ref k = PEER_KEY_REF) (key_epochs s)))) s"

definition compact_security_key_events :: "rat \<Rightarrow> db \<Rightarrow> db" where
  "compact_security_key_events now s = s\<lparr>security_key_events := delete_where (\<lambda>k.
     \<exists>p \<in> set (event_payloads s). pl_event p = ke_id k \<and> (case pl_received p of None \<Rightarrow> False
       | Some t \<Rightarrow> t \<le> before_text now SECURITY_KEY_EVENT_RETENTION)) (security_key_events s)\<rparr>"

definition expire_wrap_seen :: "rat \<Rightarrow> db \<Rightarrow> db" where
  "expire_wrap_seen now s = s\<lparr>wrap_seen_pending :=
     delete_where (\<lambda>w. ws_at w \<le> before_text now ROTATION_WINDOW) (wrap_seen_pending s)\<rparr>"

definition tidy :: "rat \<Rightarrow> unit rotation_prog" where
  "tidy now =
     txn (seq (exec (release_held (\<lambda>q. rq_reason q = ''unknown_future_epoch_rejected'' \<and>
           rq_received q \<le> before_text now ROTATION_QUARANTINE_REJECTED_RETENTION))) (\<lambda>_.
       seq (exec (expire_wrap_seen now)) (\<lambda>_.
       seq (exec (compact_committed_rotations now)) (\<lambda>_.
       seq (exec compact_peer_key_epochs) (\<lambda>_.
       exec (compact_security_key_events now))))))"

text \<open>The timed-out candidate of the earliest deadline, discarded and reported.\<close>

definition timed_out :: "rat \<Rightarrow> db \<Rightarrow> rotation_row option" where
  "timed_out now s = (case sort_key kr_deadline (select (\<lambda>r. kr_role r = ''rotating'' \<and>
       kr_phase r = ''candidate'' \<and> kr_deadline r \<le> stamp_text now) (key_rotations s)) of
     [] \<Rightarrow> None | r # _ \<Rightarrow> Some r)"

definition claim_timed_out :: "rat \<Rightarrow> unit rotation_prog" where
  "claim_timed_out now =
     seq (txn (seq (query (timed_out now)) (\<lambda>row.
       case row of None \<Rightarrow> ret None
       | Some r \<Rightarrow> seq (discard_candidate (kr_rel r) (kr_epoch r) (Some ''candidate'')) (\<lambda>(claimed, path).
           ret (if claimed then Some (kr_rel r, kr_epoch r, path) else None))))) (\<lambda>out.
     case out of None \<Rightarrow> ret ()
     | Some (rid, e, path) \<Rightarrow> seq (delete_key_file path) (\<lambda>_. raise (NoAckTimeout rid e)))"

definition retire_in_txn :: "str \<Rightarrow> nat \<Rightarrow> nat \<Rightarrow> str option rotation_prog" where
  "retire_in_txn rid e prior =
     seq (query (\<lambda>s. own_key s rid e)) (\<lambda>new_key.
     if new_key = None then ret None else
     seq (query (\<lambda>s. own_key s rid prior)) (\<lambda>old_key.
     seq (exec (if old_key = None then id else delete_keys (\<lambda>k. own_key_of rid k \<and> ek_epoch k = prior))) (\<lambda>_.
     seq (exec (delete_rotations (at_row rid e ''rotating'' (\<lambda>p. p = ''committed'')))) (\<lambda>_.
     ret (map_option ek_ref old_key)))))"

definition retire_old_key :: "rat \<Rightarrow> rotation_row \<Rightarrow> unit rotation_prog" where
  "retire_old_key now r =
     seq (lift (case kr_committed r of None \<Rightarrow> Inl (RotationRaised ''ValueError'') | Some t \<Rightarrow> moment_of t)) (\<lambda>c.
     case kr_prior_epoch r of
       Some prior \<Rightarrow>
         if of_int (c + OLD_KEY_RETENTION) \<le> now \<or> OLD_KEY_EVENT_LIMIT \<le> kr_accepted r
         then seq (txn (retire_in_txn (kr_rel r) (kr_epoch r) prior)) delete_key_file
         else ret ()
     | None \<Rightarrow> ret ())"

primrec retire_old_keys :: "rat \<Rightarrow> rotation_row list \<Rightarrow> unit rotation_prog" where
  "retire_old_keys now [] = ret ()"
| "retire_old_keys now (r # rs) = seq (retire_old_key now r) (\<lambda>_. retire_old_keys now rs)"

definition sweep :: "rat \<Rightarrow> unit rotation_prog" where
  "sweep now =
     seq (tidy now) (\<lambda>_.
     seq (claim_timed_out now) (\<lambda>_.
     seq (query (\<lambda>s. select (\<lambda>r. kr_role r = ''rotating'' \<and> kr_phase r = ''committed'') (key_rotations s)))
       (retire_old_keys now)))"

section \<open>Steps\<close>

text \<open>The operations that write, the events of the peer and the calls of the local side alike.\<close>

datatype rotation_op =
    BeginRotation str "str \<times> bytes" "str option"
  | AckArrived str nat str
  | WrapDecrypted str nat
  | MarkConfirmed str
  | ConfirmRotation str
  | CommitArrived str nat
  | EventAccepted str
  | PrepareArrived str prepare_payload str
  | ConfirmArrived str nat
  | MarkCommitted str
  | DataEvent str nat
  | ResolveConflict str int str
  | Sweep

text \<open>The state an operation leaves, whether it returns or raises.\<close>

fun rotation_step :: "(str \<Rightarrow> str option) \<Rightarrow> str \<Rightarrow> rat \<times> rotation_op \<Rightarrow> db \<Rightarrow> db" where
  "rotation_step fp dir (now, BeginRotation rid fresh pid) s = snd (begin_rotation fp dir fresh now rid pid s)"
| "rotation_step fp dir (now, AckArrived rid e pid) s = snd (on_ack now rid e pid s)"
| "rotation_step fp dir (now, WrapDecrypted rid e) s = snd (note_decrypted_new_wrap now rid e s)"
| "rotation_step fp dir (now, MarkConfirmed rid) s = snd (mark_confirmed now rid s)"
| "rotation_step fp dir (now, ConfirmRotation rid) s = snd (confirm_rotation now rid s)"
| "rotation_step fp dir (now, CommitArrived rid e) s = snd (on_commit now rid e s)"
| "rotation_step fp dir (now, EventAccepted rid) s = snd (note_accepted_event rid s)"
| "rotation_step fp dir (now, PrepareArrived rid p pid) s = snd (on_prepare fp now rid p pid s)"
| "rotation_step fp dir (now, ConfirmArrived rid e) s = snd (on_confirm now rid e s)"
| "rotation_step fp dir (now, MarkCommitted rid) s = snd (mark_committed now rid s)"
| "rotation_step fp dir (now, DataEvent rid e) s = snd (on_data_event_epoch now rid e s)"
| "rotation_step fp dir (now, ResolveConflict rid i choice) s = snd (resolve_quarantine fp now rid i choice s)"
| "rotation_step fp dir (now, Sweep) s = snd (sweep now s)"

section \<open>Epochs of a dict and their maximum\<close>

lemma dict_put_epochs: "fst ` set (dict_put e v d) = insert e (fst ` set d)"
  by (induction e v d rule: dict_put.induct) auto

lemma dict_fold_epochs: "fst ` set (foldl (\<lambda>d k. dict_put (ek_epoch k) (ek_public k) d) d ks) = fst ` set d \<union> ek_epoch ` set ks"
  by (induction ks arbitrary: d) (auto simp: dict_put_epochs)

lemma le_foldr_max: "(x :: nat) \<in> set xs \<Longrightarrow> x \<le> foldr max xs 0"
  by (induction xs) auto

end
