(* ===== verification/RotationGate.thy ===== *)
theory RotationGate
  imports Rotation
begin

text \<open>
  The epoch gate under any history of rotation operations: an interface for what holds of the
  quarantine and the first-seen table, with two of its instances, the bound on both tables and
  the permanence of a rejection.
\<close>

section \<open>Invariants of the gate's tables\<close>

definition same_gate :: "db \<Rightarrow> db \<Rightarrow> bool" where
  "same_gate s t \<longleftrightarrow> rotation_quarantine t = rotation_quarantine s \<and>
     rotation_quarantine_seq t = rotation_quarantine_seq s \<and>
     unknown_epoch_first_seen t = unknown_epoch_first_seen s"

lemma same_gate_writes [simp]:
  "same_gate s s"
  "same_gate s (rollback s t)"
  "same_gate s (set_key_state P e st s)"
  "same_gate s (delete_keys Q s)"
  "same_gate s (delete_rotations R s)"
  "same_gate s (set_relationship rid f s)"
  "same_gate s (delete_private_key path s)"
  "same_gate s (consume_pending_wrap_seen rid e s)"
  "same_gate s (park_wrap_seen rid e now s)"
  "same_gate s (expire_wrap_seen now s)"
  "same_gate s (compact_committed_rotations now s)"
  "same_gate s (compact_peer_keys_of rid s)"
  "same_gate s (compact_security_key_events now s)"
  by (simp_all add: same_gate_def rollback_def set_key_state_def delete_keys_def delete_rotations_def
      set_relationship_def delete_private_key_def consume_pending_wrap_seen_def park_wrap_seen_def
      expire_wrap_seen_def compact_committed_rotations_def compact_peer_keys_of_def
      compact_security_key_events_def Let_def)

lemma same_gate_fold: "(\<And>x s. same_gate s (f x s)) \<Longrightarrow> same_gate s (fold f xs s)"
  by (induction xs arbitrary: s) (auto simp: same_gate_def)

lemma same_gate_compact_peers [simp]: "same_gate s (compact_peer_key_epochs s)"
  unfolding compact_peer_key_epochs_def by (rule same_gate_fold) simp

lemma same_gate_cond [simp]:
  "same_gate s ((if b then f else g) s) \<longleftrightarrow> (if b then same_gate s (f s) else same_gate s (g s))"
  "same_gate s (id s)"
  by simp_all

named_theorems gate_intros "preservation of the gate's invariants"

locale gate_invariant =
  fixes I :: "db \<Rightarrow> bool"
  assumes frame_law: "I s \<Longrightarrow> same_gate s t \<Longrightarrow> I t"
    and hold_law: "I s \<Longrightarrow> I (hold rid e reason payload now s)"
    and sighting_law: "I s \<Longrightarrow> I (cap_first_seen rid (note_first_seen rid e now s))"
    and reject_law: "I s \<Longrightarrow> I (reject_epoch rid e s)"
    and release_law: "I s \<Longrightarrow> I (release_held P s)"
begin

lemma exec_kept: "(\<And>s. same_gate s (f s)) \<Longrightarrow> preserves I (exec f)"
  by (rule preserves_exec) (rule frame_law)

lemma prog_kept: "(\<And>s. same_gate s (snd (p s))) \<Longrightarrow> preserves I p"
  by (rule preservesI) (rule frame_law)

lemma txn_kept [gate_intros]: "preserves I p \<Longrightarrow> preserves I (txn p)"
  by (erule preserves_txn) (erule frame_law, simp)

lemma held_kept [gate_intros]: "preserves I (exec (hold rid e reason payload now))"
  by (rule preserves_exec) (rule hold_law)

lemma released_kept [gate_intros]: "preserves I (exec (release_held P))"
  by (rule preserves_exec) (rule release_law)

lemma writes_kept [gate_intros]:
  "preserves I (advance rid e role P f)" "preserves I (insert_key k)" "preserves I (insert_rotation r)"
  "preserves I (store_private_key path data)" "preserves I (delete_key_file x)"
  by (rule prog_kept; simp add: advance_def insert_key_def insert_rotation_def store_private_key_def
      delete_key_file_def exec_def same_gate_def delete_private_key_def split: option.split)+

lemma cleaning_kept [gate_intros]: "preserves I p \<Longrightarrow> preserves I (cleaning_up (delete_private_key path) p)"
  unfolding cleaning_up_def preserves_def
  by (auto split: prod.split sum.split) (metis frame_law same_gate_writes(7) snd_conv)+

lemma advance_or_kept [gate_intros]: "preserves I p \<Longrightarrow> preserves I (advance_or e p)"
  unfolding advance_or_def by (intro pres_intros gate_intros)

lemma settled_kept [gate_intros]: "preserves I (settled_or_rejected rid e role ph)"
  unfolding settled_or_rejected_def by (intro pres_intros gate_intros)

lemma sighting_kept:
  "preserves I (k ()) \<Longrightarrow>
   preserves I (seq (exec (note_first_seen rid e now)) (\<lambda>_. seq (exec (cap_first_seen rid)) k))"
  by (auto simp: preserves_def prog_run intro: sighting_law)

lemma verdict_kept: "preserves I (exec (if b then reject_epoch rid e else id))"
  by (cases b) (auto intro: preserves_exec reject_law)

lemma data_event_kept: "preserves I (on_data_event_epoch now rid e)"
  unfolding on_data_event_epoch_def
  by (rule sighting_kept verdict_kept | rule pres_intros gate_intros)+

lemma begin_kept: "preserves I (begin_rotation fp dir fresh now rid pid)"
  unfolding begin_rotation_def require_relationship_def store_or_reconcile_def
    reconcile_orphan_key_file_def Let_def
  by (intro pres_intros gate_intros | (rule exec_kept, simp split: option.split))+

lemma ack_kept: "preserves I (on_ack now rid e pid)"
  unfolding on_ack_def by (intro pres_intros gate_intros | (rule exec_kept, simp split: option.split))+

lemma wrap_kept: "preserves I (note_decrypted_new_wrap now rid e)"
  unfolding note_decrypted_new_wrap_def by (intro pres_intros gate_intros | (rule exec_kept, simp split: option.split))+

lemma mark_confirmed_kept: "preserves I (mark_confirmed now rid)"
  unfolding mark_confirmed_def by (intro pres_intros gate_intros)

lemma confirm_kept: "preserves I (confirm_rotation now rid)"
  unfolding confirm_rotation_def by (intro pres_intros gate_intros)

lemma commit_kept: "preserves I (on_commit now rid e)"
  unfolding on_commit_def by (intro pres_intros gate_intros | (rule exec_kept, simp split: option.split))+

lemma accepted_kept: "preserves I (note_accepted_event rid)"
  unfolding note_accepted_event_def by (intro pres_intros gate_intros)

lemma on_confirm_kept: "preserves I (on_confirm now rid e)"
  unfolding on_confirm_def by (intro pres_intros gate_intros)

lemma mark_committed_kept: "preserves I (mark_committed now rid)"
  unfolding mark_committed_def by (intro pres_intros gate_intros | (rule exec_kept, simp split: option.split))+

lemma discard_kept [gate_intros]: "preserves I (discard_candidate rid e expected)"
  unfolding discard_candidate_def by (intro pres_intros gate_intros | (rule exec_kept, simp split: option.split))+

lemma sweep_kept: "preserves I (sweep now)"
proof -
  have "preserves I (tidy now)"
    unfolding tidy_def by (intro pres_intros gate_intros | (rule exec_kept, simp split: option.split))+
  moreover have "preserves I (claim_timed_out now)"
    unfolding claim_timed_out_def by (intro pres_intros gate_intros)
  moreover have "preserves I (retire_old_key now r)" for r
    unfolding retire_old_key_def retire_in_txn_def by (intro pres_intros gate_intros | (rule exec_kept, simp split: option.split))+
  then have "preserves I (retire_old_keys now rs)" for rs
    by (induction rs) (auto intro: pres_intros)
  ultimately show ?thesis unfolding sweep_def by (intro pres_intros gate_intros)
qed

end

text \<open>An accepted prepare also forgets the sightings of the epochs it makes known.\<close>

locale full_gate_invariant = gate_invariant +
  assumes forget_law: "I s \<Longrightarrow> I (forget_first_seen rid e s)"
begin

lemma forget_kept: "preserves I (exec (forget_first_seen rid e))"
  by (rule preserves_exec) (rule forget_law)

lemma record_kept [gate_intros]: "preserves I (record_acking_rotation rid e prior p pid now)"
  unfolding record_acking_rotation_def
  by (intro pres_intros gate_intros forget_kept | (rule exec_kept, simp))+

lemma conflict_kept [gate_intros]: "preserves I (hold_conflict rid e p pid now)"
  unfolding hold_conflict_def by (intro pres_intros gate_intros)

lemma prepare_kept [gate_intros]: "preserves I (on_prepare fp now rid p pid)"
  unfolding on_prepare_def require_relationship_def accept_prepare_def Let_def by (intro pres_intros gate_intros)

lemma resolve_kept: "preserves I (resolve_quarantine fp now rid i choice)"
  unfolding resolve_quarantine_def Let_def
  by (intro pres_intros gate_intros) (auto intro!: pres_intros gate_intros split: held_payload.split)

end

text \<open>The operations that cannot accept a prepare.\<close>

fun accepts_no_prepare :: "rotation_op \<Rightarrow> bool" where
  "accepts_no_prepare (PrepareArrived rid p pid) = False"
| "accepts_no_prepare (ResolveConflict rid i choice) = False"
| "accepts_no_prepare _ = True"

context gate_invariant
begin

lemma step_kept: "I s \<Longrightarrow> accepts_no_prepare (snd x) \<Longrightarrow> I (rotation_step fp dir x s)"
  by (cases "(fp, dir, x, s)" rule: rotation_step.cases)
    (auto intro: begin_kept [THEN preservesD] ack_kept [THEN preservesD] wrap_kept [THEN preservesD]
      mark_confirmed_kept [THEN preservesD] confirm_kept [THEN preservesD] commit_kept [THEN preservesD]
      accepted_kept [THEN preservesD] on_confirm_kept [THEN preservesD] mark_committed_kept [THEN preservesD]
      data_event_kept [THEN preservesD] sweep_kept [THEN preservesD])

lemma history_kept:
  "I s \<Longrightarrow> list_all (accepts_no_prepare \<circ> snd) h \<Longrightarrow> I (fold (rotation_step fp dir) h s)"
  by (induction h arbitrary: s) (auto simp: step_kept)

end

context full_gate_invariant
begin

lemma any_step_kept: "I s \<Longrightarrow> I (rotation_step fp dir x s)"
  using step_kept [of s x] prepare_kept [THEN preservesD] resolve_kept [THEN preservesD]
  by (cases "(fp, dir, x, s)" rule: rotation_step.cases) auto

lemma any_history_kept: "I s \<Longrightarrow> I (fold (rotation_step fp dir) h s)"
  by (induction h arbitrary: s) (auto simp: any_step_kept)

end

section \<open>The newest rows\<close>

lemma newest_subset: "set (newest n k t) \<subseteq> set t"
  unfolding newest_def using set_take_subset [of n "rev (sort_key k t)"] by auto

lemma length_newest: "length (newest n k t) \<le> n"
  by (simp add: newest_def)

lemma capped_length:
  assumes "unique_key k t"
  shows "rowcount P (delete_where (\<lambda>r. P r \<and> k r \<notin> set (map k (newest n f (select P t)))) t) \<le> n"
proof -
  let ?keep = "newest n f (select P t)"
  let ?left = "filter P (delete_where (\<lambda>r. P r \<and> k r \<notin> set (map k ?keep)) t)"
  have "set ?left \<subseteq> set ?keep"
  proof
    fix r assume r: "r \<in> set ?left"
    then obtain r' where r': "r' \<in> set ?keep" "k r = k r'" by (auto simp: delete_where_def)
    then have "r' \<in> set t" using newest_subset [of n f "select P t"] by (auto simp: select_def)
    with unique_key_same [OF assms] r r' show "r \<in> set ?keep" by (auto simp: delete_where_def)
  qed
  moreover have "distinct ?left"
    using assms by (auto simp: unique_key_def distinct_map delete_where_def)
  ultimately have "length ?left \<le> length ?keep"
    using card_mono [of "set ?keep" "set ?left"] card_length [of ?keep] distinct_card [of ?left]
    by (metis List.finite_set order_trans)
  then show ?thesis using length_newest [of n f "select P t"] by (simp add: rowcount_def)
qed

lemma rowcount_delete_other: "(\<And>r. r \<in> set t \<Longrightarrow> P r \<Longrightarrow> \<not> Q r) \<Longrightarrow> rowcount P (delete_where Q t) = rowcount P t"
  by (induction t) (auto simp: rowcount_def delete_where_def)

section \<open>Both tables stay bounded\<close>

definition gate_bounded :: "db \<Rightarrow> bool" where
  "gate_bounded s \<longleftrightarrow>
     unique_key rq_id (rotation_quarantine s) \<and>
     (\<forall>q \<in> set (rotation_quarantine s). rq_id q \<le> rotation_quarantine_seq s) \<and>
     unique_key first_seen_id (unknown_epoch_first_seen s) \<and>
     (\<forall>rid. rowcount (\<lambda>q. rq_rel q = rid) (rotation_quarantine s) \<le> 50) \<and>
     (\<forall>rid. rowcount (\<lambda>r. fs_rel r = rid \<and> \<not> fs_rejected r) (unknown_epoch_first_seen s) \<le> 1000)"

lemma gate_bounded_hold:
  assumes "gate_bounded s"
  shows "gate_bounded (hold rid e reason payload now s)"
proof -
  let ?t = "add_held rid e reason payload now s"
  have u: "unique_key rq_id (rotation_quarantine ?t)"
    and le: "\<forall>q \<in> set (rotation_quarantine ?t). rq_id q \<le> rotation_quarantine_seq ?t"
    using assms by (auto simp: gate_bounded_def add_held_def unique_key_append)
  have "rowcount (\<lambda>q. rq_rel q = rid') (rotation_quarantine (cap_quarantine rid ?t)) \<le> 50" for rid'
  proof (cases "rid' = rid")
    case True
    then show ?thesis
      using capped_length [OF u, of "\<lambda>q. rq_rel q = rid" ROTATION_QUARANTINE_CAP rq_id]
      by (simp add: cap_quarantine_def ROTATION_QUARANTINE_CAP_def)
  next
    case False
    have "rowcount (\<lambda>q. rq_rel q = rid') (rotation_quarantine (cap_quarantine rid ?t))
        = rowcount (\<lambda>q. rq_rel q = rid') (rotation_quarantine ?t)"
      unfolding cap_quarantine_def using False by (simp, intro rowcount_delete_other) auto
    then have "rowcount (\<lambda>q. rq_rel q = rid') (rotation_quarantine (cap_quarantine rid ?t))
        = rowcount (\<lambda>q. rq_rel q = rid') (rotation_quarantine s)"
      using False by (simp add: add_held_def rowcount_append)
    then show ?thesis using assms by (simp add: gate_bounded_def)
  qed
  moreover have "unique_key rq_id (rotation_quarantine (cap_quarantine rid ?t))"
    using u by (simp add: cap_quarantine_def unique_key_delete)
  moreover have "\<forall>q \<in> set (rotation_quarantine (cap_quarantine rid ?t)). rq_id q \<le> rotation_quarantine_seq ?t"
    using le by (simp add: cap_quarantine_def table_simps)
  moreover have "rotation_quarantine_seq (cap_quarantine rid ?t) = rotation_quarantine_seq ?t"
    "unknown_epoch_first_seen (cap_quarantine rid ?t) = unknown_epoch_first_seen s"
    by (simp_all add: cap_quarantine_def add_held_def)
  ultimately show ?thesis using assms by (simp add: gate_bounded_def hold_def)
qed

lemma gate_bounded_sighting:
  assumes "gate_bounded s"
  shows "gate_bounded (cap_first_seen rid (note_first_seen rid e now s))"
proof -
  let ?t = "note_first_seen rid e now s"
  let ?fresh = "\<lambda>rid r. fs_rel r = rid \<and> \<not> fs_rejected r"
  have u: "unique_key first_seen_id (unknown_epoch_first_seen ?t)"
    using assms by (simp add: gate_bounded_def note_first_seen_def unique_key_insert_or_ignore)
  have "rowcount (?fresh rid') (unknown_epoch_first_seen (cap_first_seen rid ?t)) \<le> 1000" for rid'
  proof (cases "rid' = rid")
    case True
    then show ?thesis
      using capped_length [OF u, of "?fresh rid" 1000 "\<lambda>r. (fs_at r, fs_epoch r)"]
      by (simp add: cap_first_seen_def conj_assoc)
  next
    case False
    have "rowcount (?fresh rid') (unknown_epoch_first_seen (cap_first_seen rid ?t))
        = rowcount (?fresh rid') (unknown_epoch_first_seen ?t)"
      unfolding cap_first_seen_def using False by (simp, intro rowcount_delete_other) auto
    then have "rowcount (?fresh rid') (unknown_epoch_first_seen (cap_first_seen rid ?t))
        = rowcount (?fresh rid') (unknown_epoch_first_seen s)"
      using False by (simp add: note_first_seen_def insert_or_ignore_def rowcount_append)
    then show ?thesis using assms by (simp add: gate_bounded_def)
  qed
  with u assms show ?thesis
    by (auto simp: gate_bounded_def cap_first_seen_def note_first_seen_def unique_key_delete)
qed

lemma gate_bounded_reject: "gate_bounded s \<Longrightarrow> gate_bounded (reject_epoch rid e s)"
proof -
  have "rowcount P (update_where Q (\<lambda>r. r\<lparr>fs_rejected := True\<rparr>) t) \<le> rowcount P t"
    if "\<And>r. P (r\<lparr>fs_rejected := True\<rparr>) \<Longrightarrow> P r" for P Q and t :: "first_seen_row list"
    using that by (induction t) (auto simp: rowcount_def update_where_def)
  note le = this [where P = "\<lambda>r. fs_rel r = x \<and> \<not> fs_rejected r" for x]
  show "gate_bounded s \<Longrightarrow> gate_bounded (reject_epoch rid e s)"
    by (auto simp: gate_bounded_def reject_epoch_def unique_key_update first_seen_id_def intro: order_trans [OF le])
qed

interpretation bounded: full_gate_invariant gate_bounded
proof unfold_locales
  show "gate_bounded s \<Longrightarrow> same_gate s t \<Longrightarrow> gate_bounded t" for s t
    by (simp add: gate_bounded_def same_gate_def)
  show "gate_bounded s \<Longrightarrow> gate_bounded (release_held P s)" for s P
    by (auto simp: gate_bounded_def release_held_def unique_key_delete table_simps intro: order_trans [OF rowcount_delete_le])
  show "gate_bounded s \<Longrightarrow> gate_bounded (forget_first_seen rid e s)" for s rid e
    by (auto simp: gate_bounded_def forget_first_seen_def unique_key_delete intro: order_trans [OF rowcount_delete_le])
qed (simp_all add: gate_bounded_hold gate_bounded_sighting gate_bounded_reject)

section \<open>A rejection is final\<close>

definition tombstoned :: "str \<Rightarrow> nat \<Rightarrow> db \<Rightarrow> bool" where
  "tombstoned rid e s \<longleftrightarrow> unique_key first_seen_id (unknown_epoch_first_seen s) \<and>
     (\<exists>r \<in> set (unknown_epoch_first_seen s). first_seen_id r = (rid, e) \<and> fs_rejected r)"

interpretation tomb: gate_invariant "tombstoned rid e" for rid e
proof unfold_locales
  show "tombstoned rid e s \<Longrightarrow> same_gate s t \<Longrightarrow> tombstoned rid e t" for s t
    by (simp add: tombstoned_def same_gate_def)
  show "tombstoned rid e s \<Longrightarrow> tombstoned rid e (hold rid' e' reason payload now s)" for s rid' e' reason payload now
    by (simp add: tombstoned_def hold_def add_held_def cap_quarantine_def)
  show "tombstoned rid e s \<Longrightarrow> tombstoned rid e (release_held P s)" for s P
    by (simp add: tombstoned_def release_held_def)
  show "tombstoned rid e s \<Longrightarrow> tombstoned rid e (cap_first_seen rid' (note_first_seen rid' e' now s))" for s rid' e' now
    unfolding tombstoned_def cap_first_seen_def note_first_seen_def
    by (auto simp: table_simps unique_key_delete unique_key_insert_or_ignore insert_or_ignore_def)
  show "tombstoned rid e s \<Longrightarrow> tombstoned rid e (reject_epoch rid' e' s)" for s rid' e'
    by (force simp: tombstoned_def reject_epoch_def unique_key_update first_seen_id_def table_simps)
qed

lemma tombstone_found: "tombstoned rid e s \<Longrightarrow> \<exists>r. first_seen_of s rid e = Some r \<and> fs_rejected r"
  unfolding tombstoned_def first_seen_of_def using fetchone_key [of first_seen_id] by fastforce

text \<open>What the gate answers for a rejected epoch.\<close>

lemma gate_of_rejected:
  assumes "tombstoned rid e s" "current_epoch s rid < e"
  shows "fst (on_data_event_epoch now rid e s) = Inl (RotationError ''unknown_future_epoch_rejected'')"
proof -
  let ?t = "cap_first_seen rid (note_first_seen rid e now s)"
  have "tombstoned rid e ?t" using assms(1) by (rule tomb.sighting_law)
  then obtain r where "first_seen_of ?t rid e = Some r" "fs_rejected r" using tombstone_found by blast
  then have "overdue now (first_seen_of ?t rid e) = Inr True" by (simp add: overdue_def)
  then show ?thesis using assms(2) by (simp add: on_data_event_epoch_def prog_run seq_run txn_def)
qed

lemma rejected_is_tombstoned:
  assumes "unique_key first_seen_id (unknown_epoch_first_seen s)"
    and "r \<in> set (unknown_epoch_first_seen s)" "first_seen_id r = (rid, e)"
  shows "tombstoned rid e (reject_epoch rid e s)"
proof -
  let ?t = "update_where (\<lambda>r. first_seen_id r = (rid, e)) (\<lambda>r. r\<lparr>fs_rejected := True\<rparr>) (unknown_epoch_first_seen s)"
  have "unique_key first_seen_id ?t"
    using assms(1) by (simp add: unique_key_update first_seen_id_def)
  moreover have "r\<lparr>fs_rejected := True\<rparr> \<in> set ?t"
    using assms(2,3) by (simp add: table_simps)
  moreover have "first_seen_id (r\<lparr>fs_rejected := True\<rparr>) = (rid, e)"
    using assms(3) by (simp add: first_seen_id_def)
  ultimately show ?thesis unfolding tombstoned_def reject_epoch_def by (auto intro!: bexI)
qed

lemma rejection_recorded:
  assumes "unique_key first_seen_id (unknown_epoch_first_seen s)"
    and "on_data_event_epoch now rid e s = (Inl (RotationError ''unknown_future_epoch_rejected''), t)"
  shows "tombstoned rid e t"
proof -
  let ?u = "cap_first_seen rid (note_first_seen rid e now s)"
  have unknown: "\<not> e \<le> current_epoch s rid"
    using assms(2) by (auto simp: on_data_event_epoch_def prog_run)
  have u: "unique_key first_seen_id (unknown_epoch_first_seen ?u)"
    using assms(1) by (simp add: cap_first_seen_def note_first_seen_def unique_key_delete unique_key_insert_or_ignore)
  obtain v where v: "overdue now (first_seen_of ?u rid e) = Inr v"
    using assms(2) unknown
    by (auto simp: on_data_event_epoch_def prog_run seq_run txn_def overdue_def moment_of_def
        split: option.splits sum.splits if_splits)
  with assms(2) unknown have True: v
    and t: "t = hold rid e ''unknown_future_epoch_rejected'' (HeldEpoch e) now (reject_epoch rid e ?u)"
    by (cases v; simp add: on_data_event_epoch_def prog_run seq_run txn_def)+
  from v True obtain r where r: "first_seen_of ?u rid e = Some r"
    by (cases "first_seen_of ?u rid e") (simp_all add: overdue_def)
  then have "r \<in> set (unknown_epoch_first_seen ?u)" "first_seen_id r = (rid, e)"
    unfolding first_seen_of_def by (auto dest: fetchone_Some_mem)
  with u have "tombstoned rid e (reject_epoch rid e ?u)" by (rule rejected_is_tombstoned)
  then show ?thesis unfolding t by (rule tomb.hold_law)
qed

section \<open>What a prepare may undo\<close>

text \<open>
  Only a prepare of the relationship removes a rejection, and only for epochs it makes known: an accepted
  prepare stores the key of its epoch and forgets the sightings up to it in one transaction.
\<close>

lemma peer_row_known:
  assumes "k \<in> set (key_epochs s)" "peer_key_of rid k" shows "ek_epoch k \<le> current_epoch s rid"
proof -
  have "ek_epoch k \<in> set (map fst (peer_key_epochs s rid))"
    using assms by (simp add: peer_key_epochs_def dict_fold_epochs select_def)
  then show ?thesis unfolding current_epoch_def by (intro le_foldr_max) simp
qed

lemma current_epoch_same:
  "key_epochs t = key_epochs s \<Longrightarrow> relationships t = relationships s \<Longrightarrow> current_epoch t rid = current_epoch s rid"
  by (simp add: current_epoch_def own_epochs_def peer_key_epochs_def relationship_of_def)

lemma tomb_forget: "tombstoned rid e s \<Longrightarrow> rid' \<noteq> rid \<or> e' < e \<Longrightarrow> tombstoned rid e (forget_first_seen rid' e' s)"
  by (auto simp: tombstoned_def forget_first_seen_def unique_key_delete table_simps first_seen_id_def)

lemma record_effect:
  assumes "record_acking_rotation rid' e' prior p pid now s = (r, t)" "tombstoned rid e s"
  shows "key_epochs t = key_epochs s" "relationships t = relationships s" "tombstoned rid e t \<or> rid' = rid \<and> e \<le> e'"
proof -
  define s1 where "s1 = delete_rotations (at_row rid' e' ''acking'' (\<lambda>x. x = ''discarded'')) s"
  have one: "tombstoned rid e s1" using assms(2) by (rule tomb.frame_law) (simp add: s1_def)
  have same: "key_epochs s1 = key_epochs s" "relationships s1 = relationships s" by (simp_all add: s1_def delete_rotations_def)
  have ins: "tombstoned rid e v \<and> key_epochs v = key_epochs u \<and> relationships v = relationships u"
    if "insert_rotation x u = (y, v)" "tombstoned rid e u" for x u y v
    using that by (auto simp: insert_rotation_def tombstoned_def split: if_splits)
  have "t = s1 \<or> (\<exists>x y v. insert_rotation x s1 = (y, v) \<and> (t = v \<or>
      t = forget_first_seen rid' e' (release_held (\<lambda>q. rq_rel q = rid' \<and> rq_reason q = ''unknown_future_epoch'' \<and> rq_epoch q \<le> e') v)))"
    using assms(1) by (auto simp: record_acking_rotation_def prog_run seq_run s1_def [symmetric] split: if_splits sum.splits prod.splits)
  then show "key_epochs t = key_epochs s" "relationships t = relationships s" "tombstoned rid e t \<or> rid' = rid \<and> e \<le> e'"
    using one same ins tomb_forget [OF tomb.release_law, of rid e _ rid' e'] not_le
    by (auto simp: forget_first_seen_def release_held_def) blast+
qed

lemma tomb_rollback: "tombstoned rid e s \<Longrightarrow> tombstoned rid e (rollback s u)"
  by (erule tomb.frame_law) (rule same_gate_writes(2))

lemma record_in_txn:
  assumes "txn (seq q (\<lambda>_. record_acking_rotation rid' e' prior p pid now)) s = (r, t)" "tombstoned rid e s"
    and q: "\<And>x u. q s = (x, u) \<Longrightarrow> tombstoned rid e u \<and> (x = Inr () \<longrightarrow> (\<exists>k \<in> set (key_epochs u). peer_key_of rid' k \<and> ek_epoch k = e'))"
  shows "tombstoned rid e t \<or> rid' = rid \<and> e \<le> current_epoch t rid"
proof -
  obtain x u where q1: "q s = (x, u)" by (cases "q s")
  note before = q [OF q1]
  show ?thesis
  proof (cases x)
    case (Inl y)
    then show ?thesis using assms(1) q1 tomb_rollback [OF assms(2)] by (auto simp: txn_def seq_run)
  next
    case (Inr y)
    obtain z v where rec: "record_acking_rotation rid' e' prior p pid now u = (z, v)"
      by (cases "record_acking_rotation rid' e' prior p pid now u")
    obtain k where k: "k \<in> set (key_epochs u)" "peer_key_of rid' k" "ek_epoch k = e'" using before Inr by auto
    note eff = record_effect [OF rec conjunct1 [OF before]]
    have "e' \<le> current_epoch v rid'" using peer_row_known [OF k(1,2)] k(3) current_epoch_same [OF eff(1,2)] by simp
    then show ?thesis
      using assms(1) q1 Inr rec eff(3) tomb_rollback [OF assms(2)]
      by (cases z) (auto simp: txn_def seq_run)
  qed
qed

lemma hold_conflict_step: "hold_conflict rid' e' p pid now s = (r, t) \<Longrightarrow> tombstoned rid e s \<Longrightarrow> tombstoned rid e t"
  using tomb.hold_law by (auto simp: hold_conflict_def prog_run seq_run txn_def)

lemma prepare_step:
  assumes run: "on_prepare fp now rid' p pid s = (r, t)" and old: "tombstoned rid e s"
  shows "tombstoned rid e t \<or> rid' = rid \<and> e \<le> current_epoch t rid"
proof -
  have insert: "tombstoned rid e u \<and> (x = Inr () \<longrightarrow> (\<exists>k \<in> set (key_epochs u). peer_key_of rid' k \<and> ek_epoch k = n))"
    if "insert_key \<lparr>ek_rel = rid', ek_epoch = n, ek_public = y, ek_ref = PEER_KEY_REF, ek_state = st\<rparr> s = (x, u)" for n y st x u
    using that old by (auto simp: insert_key_def tombstoned_def peer_key_of_def split: if_splits)
  have known: "tombstoned rid e u \<and> (x = Inr () \<longrightarrow> (\<exists>k \<in> set (key_epochs u). peer_key_of rid' k \<and> ek_epoch k = n))"
    if "ret () s = (x, u)" "peer_key s rid' n = Some k" for n k x u
    using that old fetchone_Some_mem by (fastforce simp: ret_def peer_key_def)
  have rec: "record_acking_rotation rid' n prior p pid now = seq (ret ()) (\<lambda>_. record_acking_rotation rid' n prior p pid now)" for n prior
    by (simp add: fun_eq_iff seq_run ret_def)
  have again: "tombstoned rid e u \<or> rid' = rid \<and> e \<le> current_epoch u rid"
    if "txn (record_acking_rotation rid' n prior p pid now) s = (x, u)" "peer_key s rid' n = Some k" for n prior x u k
  proof -
    have "txn (seq (ret ()) (\<lambda>_. record_acking_rotation rid' n prior p pid now)) s = (x, u)"
      using that(1) by (simp only: rec [symmetric])
    from record_in_txn [OF this old known [OF _ that(2)]] show ?thesis by simp
  qed
  have accept: "tombstoned rid e t \<or> rid' = rid \<and> e \<le> current_epoch t rid"
    if acc: "accept_prepare now rid' n prior p pid s = (r, t)" for n prior
  proof -
    have "t = s \<or> (\<exists>x. txn (seq (insert_key \<lparr>ek_rel = rid', ek_epoch = n, ek_public = pp_new_key p, ek_ref = PEER_KEY_REF,
        ek_state = ''acknowledged''\<rparr>) (\<lambda>_. record_acking_rotation rid' n prior p pid now)) s = (x, t))"
      using acc by (auto simp: accept_prepare_def prog_run seq_run [of "txn _"] split: if_splits sum.splits prod.splits)
    then show ?thesis
    proof
      assume "\<exists>x. txn (seq (insert_key \<lparr>ek_rel = rid', ek_epoch = n, ek_public = pp_new_key p, ek_ref = PEER_KEY_REF,
        ek_state = ''acknowledged''\<rparr>) (\<lambda>_. record_acking_rotation rid' n prior p pid now)) s = (x, t)"
      then obtain x where "txn (seq (insert_key \<lparr>ek_rel = rid', ek_epoch = n, ek_public = pp_new_key p, ek_ref = PEER_KEY_REF,
        ek_state = ''acknowledged''\<rparr>) (\<lambda>_. record_acking_rotation rid' n prior p pid now)) s = (x, t)" by blast
      from record_in_txn [OF this old] show ?thesis using insert by blast
    qed (simp add: old)
  qed
  show ?thesis
  proof (cases "valid_prepare p \<and> relationship_of s rid' \<noteq> None")
    case False
    then have "t = s" using run
      by (cases "valid_prepare p") (simp_all add: on_prepare_def require_relationship_def prog_run seq_run)
    then show ?thesis using old by simp
  next
    case True
    then obtain rel where rel: "valid_prepare p" "relationship_of s rid' = Some rel" by blast
    note step = run [unfolded on_prepare_def require_relationship_def, simplified rel prog_run seq_run if_True if_False
      option.case sum.case prod.case]
    show ?thesis
    proof (cases "epoch_with_print fp (pp_prior_fingerprint p) (peer_key_epochs s rid')")
      case (Inl x)
      then have "t = s" using step by (simp add: prog_run seq_run rel)
      then show ?thesis using old by simp
    next
      case found: (Inr o')
      show ?thesis
      proof (cases o')
        case None
        then have "t = s" using step found by (simp add: prog_run seq_run rel)
        then show ?thesis using old by simp
      next
        case (Some prior)
        show ?thesis
        proof (cases "peer_key s rid' (Suc prior)")
          case None
          have "t = s \<or> (\<exists>y :: rotation_exn + nat \<times> str. hold_conflict rid' (Suc prior) p pid now s = (y, t)) \<or>
              accept_prepare now rid' (Suc prior) prior p pid s = (r, t)"
            using step found Some None by (auto simp: prog_run seq_run rel Let_def split: if_splits)
          then show ?thesis using old accept hold_conflict_step [OF _ old] by blast
        next
          case (Some k)
          have "(\<exists>y :: rotation_exn + nat \<times> str. hold_conflict rid' (Suc prior) p pid now s = (y, t)) \<or>
              (\<exists>y. txn (record_acking_rotation rid' (Suc prior) prior p pid now) s = (y, t))"
            using step found \<open>o' = Some prior\<close> Some
            by (auto simp: prog_run seq_run [of "txn _"] rel Let_def split: if_splits prod.splits sum.splits)
          then show ?thesis using again [OF _ Some] hold_conflict_step [OF _ old] by blast
        qed
      qed
    qed
  qed
qed

lemma resolve_step:
  assumes run: "resolve_quarantine fp now rid' i choice s = (r, t)" and old: "tombstoned rid e s"
  shows "tombstoned rid e t \<or> rid' = rid \<and> e \<le> current_epoch t rid"
proof -
  have released: "tombstoned rid e v \<or> rid' = rid \<and> e \<le> current_epoch v rid"
    if "tombstoned rid e u \<or> rid' = rid \<and> e \<le> current_epoch u rid" "txn (exec (release_held P)) u = (x, v)" for P u x v
  proof -
    have v: "v = release_held P u" using that(2) by (auto simp: txn_def exec_def)
    have "current_epoch v rid = current_epoch u rid" by (rule current_epoch_same) (simp_all add: v release_held_def)
    then show ?thesis using that(1) tomb.release_law by (auto simp: v)
  qed
  have discarded: "preserves (tombstoned rid e) (txn (discard_candidate rid' n x))" "preserves (tombstoned rid e) (delete_key_file y)"
    for n x y by (intro tomb.txn_kept tomb.discard_kept tomb.writes_kept)+
  let ?es = "list_quarantine s rid'" let ?q = "?es ! nat i"
  show ?thesis
  proof (cases "i < 0 \<or> int (length ?es) \<le> i \<or> choice \<noteq> ''mine'' \<and> choice \<noteq> ''theirs'' \<or> rq_reason ?q \<noteq> ''conflicting_prepare''")
    case True
    then have "t = s" using run by (auto simp: resolve_quarantine_def prog_run Let_def split: if_splits)
    then show ?thesis using old by simp
  next
    case usable: False
    show ?thesis
    proof (cases "choice = ''theirs''")
      case False
      then have "\<exists>x :: rotation_exn + unit. txn (exec (release_held (\<lambda>x. rq_id x = rq_id ?q))) s = (x, t)"
        using run usable by (auto simp: resolve_quarantine_def prog_run Let_def seq_run split: prod.splits sum.splits)
      then show ?thesis using released old by blast
    next
      case True
      obtain x u where one: "txn (discard_candidate rid' (rq_epoch ?q) None) s = (x, u)" by fastforce
      have u: "tombstoned rid e u" using preservesD [OF discarded(1) old] one by (metis snd_conv)
      show ?thesis
      proof (cases x)
        case (Inl y)
        then have "t = u" using run usable True one by (simp add: resolve_quarantine_def prog_run Let_def seq_run)
        then show ?thesis using u by simp
      next
        case (Inr y)
        obtain z path where y: "y = (z, path)" by (cases y)
        let ?path = "case path of None \<Rightarrow> None | Some p \<Rightarrow> if p = [] then None else Some p"
        obtain w v where two: "delete_key_file ?path u = (w, v)" by fastforce
        have v: "tombstoned rid e v" using preservesD [OF discarded(2) u] two by (metis snd_conv)
        have "t = v \<or> (\<exists>p pid a. on_prepare fp now rid' p pid v = (a, t)) \<or>
            (\<exists>p pid a b (w' :: rotation_exn + unit). on_prepare fp now rid' p pid v = (a, b) \<and> txn (exec (release_held (\<lambda>x. rq_id x = rq_id ?q))) b = (w', t))"
          using run usable True one Inr y two
          by (auto simp: resolve_quarantine_def prog_run Let_def seq_run split: prod.splits sum.splits held_payload.splits)
        then show ?thesis using v prepare_step [OF _ v] released by blast
      qed
    qed
  qed
qed

text \<open>The prepares of a relationship, and histories in which none of them makes the epoch known.\<close>

fun offers_epoch :: "str \<Rightarrow> rotation_op \<Rightarrow> bool" where
  "offers_epoch rid (PrepareArrived rid' p pid) = (rid' = rid)"
| "offers_epoch rid (ResolveConflict rid' i choice) = (rid' = rid)"
| "offers_epoch rid _ = False"

fun never_made_known :: "(str \<Rightarrow> str option) \<Rightarrow> str \<Rightarrow> str \<Rightarrow> nat \<Rightarrow> (rat \<times> rotation_op) list \<Rightarrow> db \<Rightarrow> bool" where
  "never_made_known fp dir rid e [] s = True"
| "never_made_known fp dir rid e (x # h) s = (let t = rotation_step fp dir x s in
     (if offers_epoch rid (snd x) then current_epoch t rid < e else True) \<and> never_made_known fp dir rid e h t)"

lemma tomb_step:
  assumes "tombstoned rid e s" "if offers_epoch rid (snd x) then current_epoch (rotation_step fp dir x s) rid < e else True"
  shows "tombstoned rid e (rotation_step fp dir x s)"
proof (cases "accepts_no_prepare (snd x)")
  case True
  then show ?thesis using tomb.step_kept assms(1) by blast
next
  case False
  obtain now op where x: "x = (now, op)" by (cases x)
  show ?thesis
  proof (cases op)
    case (PrepareArrived rid' p pid)
    then show ?thesis
      using prepare_step [OF surjective_pairing assms(1), of fp now rid' p pid] assms(2) x by auto
  next
    case (ResolveConflict rid' i choice)
    then show ?thesis
      using resolve_step [OF surjective_pairing assms(1), of fp now rid' i choice] assms(2) x by auto
  qed (use False x in simp_all)
qed

lemma tomb_history:
  "tombstoned rid e s \<Longrightarrow> never_made_known fp dir rid e h s \<Longrightarrow> tombstoned rid e (fold (rotation_step fp dir) h s)"
  by (induction h arbitrary: s) (auto simp: Let_def intro: tomb_step)

section \<open>Properties\<close>

text \<open>C37. The epoch gate cannot be made to grow without bound. From a database where the quarantine of the
  rotation and the first-seen table are empty, after any history of rotation operations - forged
  epochs, conflicting prepares, sweeps, in any order and number - each relationship has at most 50
  held rows and at most 1000 first sightings that are not yet rejected.\<close>
theorem epoch_gate_bounded:
  "rowcount (\<lambda>q. rq_rel q = rid) (rotation_quarantine (fold (rotation_step fp dir) h
      (s\<lparr>rotation_quarantine := [], unknown_epoch_first_seen := []\<rparr>))) \<le> 50 \<and>
   rowcount (\<lambda>r. fs_rel r = rid \<and> \<not> fs_rejected r) (unknown_epoch_first_seen (fold (rotation_step fp dir) h
      (s\<lparr>rotation_quarantine := [], unknown_epoch_first_seen := []\<rparr>))) \<le> 1000"
proof -
  have "gate_bounded (s\<lparr>rotation_quarantine := [], unknown_epoch_first_seen := []\<rparr>)"
    by (simp add: gate_bounded_def unique_key_def rowcount_def)
  then have "gate_bounded (fold (rotation_step fp dir) h
      (s\<lparr>rotation_quarantine := [], unknown_epoch_first_seen := []\<rparr>))"
    by (rule bounded.any_history_kept)
  then show ?thesis by (simp add: gate_bounded_def)
qed

text \<open>C38. A rejection of an unknown epoch is permanent. Once the gate has answered that an epoch stayed
  unknown for a day, it gives the same answer again, at any clock reading and after any further history of
  rotation operations, however many other epochs fill and overflow the capped tables, whatever is swept,
  and whichever prepares arrive and conflicts are resolved, refused ones and those of other relationships
  included; unless a prepare of this very relationship has made known an epoch that is at least as high.\<close>
theorem rejected_epoch_stays_rejected:
  assumes "unique_key first_seen_id (unknown_epoch_first_seen s)"
    and "on_data_event_epoch now rid e s = (Inl (RotationError ''unknown_future_epoch_rejected''), u)"
    and "never_made_known fp dir rid e h u" and "t = fold (rotation_step fp dir) h u"
  shows "fst (on_data_event_epoch later rid e t) =
    (if e \<le> current_epoch t rid then Inr ''ok'' else Inl (RotationError ''unknown_future_epoch_rejected''))"
proof -
  have "tombstoned rid e t" unfolding assms(4) by (rule tomb_history [OF rejection_recorded [OF assms(1,2)] assms(3)])
  then show ?thesis
    by (simp add: gate_of_rejected) (simp add: on_data_event_epoch_def prog_run)
qed

definition sample_peer :: relationship_row where
  "sample_peer = \<lparr>rl_id = ''r'', rl_peer = ''bob'', rl_consent = ''active'', rl_policy = None, rl_epoch = 1,
     rl_peer_key = Some ''zB'', rl_name = None,
      rl_prior = None, rl_grace = None\<rparr>"

definition sample_gate :: db where
  "sample_gate = empty_db\<lparr>relationships := [sample_peer],
     unknown_epoch_first_seen := [\<lparr>fs_rel = ''r'', fs_epoch = 7, fs_at = ''2025-01-01T10:00:00Z'', fs_rejected = True\<rparr>]\<rparr>"

text \<open>After the rejection of epoch 7 the peer makes epoch 2 known, then names a print of no key; a relationship
  that does not exist is offered a key, and another unknown epoch is claimed.\<close>

definition offer :: "str \<Rightarrow> str \<Rightarrow> prepare_payload" where
  "offer key print = \<lparr>pp_new_key = key, pp_prior_fingerprint = print, pp_deadline = ''2026-01-02T00:00:00Z''\<rparr>"

definition busy_history :: "(rat \<times> rotation_op) list" where
  "busy_history =
     [(63902900600, PrepareArrived ''r'' (offer ''zC'' ''zB'') ''01234567-89ab-4cde-8f01-23456789abcd''),
      (63902900601, PrepareArrived ''r'' (offer ''zD'' ''zX'') ''01234567-89ab-4cde-8f01-23456789abcd''),
      (63902900602, PrepareArrived ''q'' (offer ''zE'' ''zB'') ''01234567-89ab-4cde-8f01-23456789abcd''),
      (63902900603, DataEvent ''r'' 9)]"

lemma offer_valid: "valid_prepare (offer ''zC'' ''zB'')" "valid_prepare (offer ''zD'' ''zX'')"
proof -
  have "matches multibase_shape ''zC''" "matches multibase_shape ''zD''" "matches base64url_shape ''zB''"
    "matches base64url_shape ''zX''" by code_simp+
  moreover have "utc_shape ''2026-01-02T00:00:00Z''" by (simp add: utc_shape_def is_digit_def eval_nat_numeral)
  then have "matches utc_shape ''2026-01-02T00:00:00Z''" by (simp add: matches_def)
  ultimately show "valid_prepare (offer ''zC'' ''zB'')" "valid_prepare (offer ''zD'' ''zX'')"
    by (simp_all add: valid_prepare_def offer_def)
qed

lemma data_event_keeps:
  "relationships (snd (on_data_event_epoch now rid e s)) = relationships s"
  "key_epochs (snd (on_data_event_epoch now rid e s)) = key_epochs s"
  "key_rotations (snd (on_data_event_epoch now rid e s)) = key_rotations s"
  by (simp_all add: on_data_event_epoch_def prog_run seq_run txn_def rollback_def cap_first_seen_def note_first_seen_def
      reject_epoch_def hold_def cap_quarantine_def add_held_def Let_def split: sum.split)

lemma epoch_two_known:
  assumes "relationships u = [sample_peer]" "key_epochs u = []" "key_rotations u = []"
  shows "relationships (snd (on_prepare Some 63902900600 ''r'' (offer ''zC'' ''zB'') ''01234567-89ab-4cde-8f01-23456789abcd'' u)) = [sample_peer] \<and>
    key_epochs (snd (on_prepare Some 63902900600 ''r'' (offer ''zC'' ''zB'') ''01234567-89ab-4cde-8f01-23456789abcd'' u)) =
      [\<lparr>ek_rel = ''r'', ek_epoch = 2, ek_public = ''zC'', ek_ref = PEER_KEY_REF, ek_state = ''acknowledged''\<rparr>]"
proof -
  have mo: "moment_of ''2026-01-02T00:00:00Z'' = Inr 63902908800"
    by (simp add: moment_of_def clock_eval)
  have peers: "peer_key_epochs u ''r'' = [(1, ''zB'')]" "own_epochs u ''r'' = []" "relationship_of u ''r'' = Some sample_peer"
    using assms by (simp_all add: peer_key_epochs_def own_epochs_def relationship_of_def fetchone_def select_def sample_peer_def truthy_def)
  have none: "peer_key u ''r'' 2 = None" "rotation_at u ''r'' 2 role = None" "in_flight u ''r'' x = None" for role x
    using assms by (simp_all add: peer_key_def rotation_at_def in_flight_def fetchone_def select_def)
  have cur: "current_epoch u ''r'' = 1" by (simp add: current_epoch_def peers)
  have off: "pp_prior_fingerprint (offer ''zC'' ''zB'') = ''zB''" "pp_new_key (offer ''zC'' ''zB'') = ''zC''"
    "pp_deadline (offer ''zC'' ''zB'') = ''2026-01-02T00:00:00Z''" by (simp_all add: offer_def)
  let ?p = "accept_prepare 63902900600 ''r'' 2 1 (offer ''zC'' ''zB'') ''01234567-89ab-4cde-8f01-23456789abcd''"
  have "on_prepare Some 63902900600 ''r'' (offer ''zC'' ''zB'') ''01234567-89ab-4cde-8f01-23456789abcd'' u = ?p u"
    by (simp add: on_prepare_def require_relationship_def prog_run seq_run offer_valid peers off none Let_def fingerprint_of_def numeral_2_eq_2 [symmetric])
  moreover have "relationships (snd (?p u)) = [sample_peer] \<and>
    key_epochs (snd (?p u)) = [\<lparr>ek_rel = ''r'', ek_epoch = 2, ek_public = ''zC'', ek_ref = PEER_KEY_REF, ek_state = ''acknowledged''\<rparr>]"
    using assms
    by (simp add: accept_prepare_def prog_run seq_run cur none mo off insert_key_def
       record_acking_rotation_def insert_rotation_def txn_def forget_first_seen_def release_held_def delete_rotations_def rotation_at_def
       fetchone_def delete_where_def)
  ultimately show ?thesis by simp
qed

lemma known_epochs: "relationships s = [sample_peer] \<Longrightarrow> key_epochs s = [] \<Longrightarrow> current_epoch s ''r'' = 1"
  by (simp add: current_epoch_def own_epochs_def peer_key_epochs_def relationship_of_def fetchone_def
      select_def sample_peer_def truthy_def)

theorem rejected_epoch_stays_rejected_witness:
  "\<exists>u. on_data_event_epoch 63902900500 ''r'' 7 sample_gate = (Inl (RotationError ''unknown_future_epoch_rejected''), u) \<and>
     current_epoch (fold (rotation_step Some ''k'') busy_history u) ''r'' = 2 \<and>
     fst (on_data_event_epoch 63902990000 ''r'' 7 (fold (rotation_step Some ''k'') busy_history u)) =
       Inl (RotationError ''unknown_future_epoch_rejected'')"
proof -
  have unique: "unique_key first_seen_id (unknown_epoch_first_seen sample_gate)"
    by (simp add: sample_gate_def unique_key_def)
  have "tombstoned ''r'' 7 sample_gate"
    by (simp add: tombstoned_def sample_gate_def unique_key_def first_seen_id_def)
  then have "fst (on_data_event_epoch 63902900500 ''r'' 7 sample_gate) = Inl (RotationError ''unknown_future_epoch_rejected'')"
    by (rule gate_of_rejected) (simp add: known_epochs sample_gate_def empty_db_def)
  then obtain u where first: "on_data_event_epoch 63902900500 ''r'' 7 sample_gate = (Inl (RotationError ''unknown_future_epoch_rejected''), u)"
    by (metis prod.collapse)
  have u: "relationships u = [sample_peer]" "key_epochs u = []" "key_rotations u = []"
    using data_event_keeps [of 63902900500 "''r''" 7 sample_gate] first by (simp_all add: sample_gate_def empty_db_def)
  define v where "v = snd (on_prepare Some 63902900600 ''r'' (offer ''zC'' ''zB'') ''01234567-89ab-4cde-8f01-23456789abcd'' u)"
  have v: "relationships v = [sample_peer]"
    "key_epochs v = [\<lparr>ek_rel = ''r'', ek_epoch = 2, ek_public = ''zC'', ek_ref = PEER_KEY_REF, ek_state = ''acknowledged''\<rparr>]"
    using epoch_two_known [OF u] by (simp_all add: v_def)
  have known: "current_epoch s ''r'' = 2" if "relationships s = relationships v" "key_epochs s = key_epochs v" for s
    using that v by (simp add: current_epoch_def own_epochs_def peer_key_epochs_def relationship_of_def fetchone_def
        select_def sample_peer_def truthy_def own_key_of_def peer_key_of_def)
  have peers: "peer_key_epochs v ''r'' = [(1, ''zB''), (2, ''zC'')]" "relationship_of v ''r'' = Some sample_peer"
    "relationship_of v ''q'' = None"
    using v by (simp_all add: peer_key_epochs_def relationship_of_def fetchone_def select_def sample_peer_def truthy_def
        peer_key_of_def)
  have refused: "snd (on_prepare Some 63902900601 ''r'' (offer ''zD'' ''zX'') pid v) = v"
    "snd (on_prepare Some 63902900602 ''q'' (offer ''zE'' ''zB'') pid v) = v" for pid
    using peers by (simp_all add: on_prepare_def require_relationship_def prog_run seq_run fingerprint_of_def
        offer_def [of "''zD''"])
  note steps = busy_history_def v_def [symmetric] refused
  let ?t = "fold (rotation_step Some ''k'') busy_history u"
  have t: "current_epoch ?t ''r'' = 2" by (rule known) (simp_all add: steps data_event_keeps)
  have "never_made_known Some ''k'' ''r'' 7 busy_history u" by (simp add: steps known Let_def)
  with rejected_epoch_stays_rejected [OF unique first, of Some "''k''" busy_history ?t 63902990000] first t show ?thesis
    by simp
qed

end
