(* ===== verification/RotationKeys.thy ===== *)
theory RotationKeys
  imports Rotation
begin

text \<open>
  The local private keys through any history of rotation operations: the side that has a key for a
  relationship always keeps one, and a discarded candidate or a retired key is never the last.
\<close>

section \<open>The invariant\<close>

definition live_rotating :: "str \<Rightarrow> rotation_row \<Rightarrow> bool" where
  "live_rotating rid r \<longleftrightarrow> kr_rel r = rid \<and> kr_role r = ''rotating'' \<and> live_phase (kr_phase r)"

text \<open>At most one live candidate, always beside another key, and no rotation from an epoch to itself.\<close>

definition one_live :: "str \<Rightarrow> rotation_row list \<Rightarrow> bool" where
  "one_live rid R \<longleftrightarrow> (\<exists>e. \<forall>r \<in> set R. live_rotating rid r \<longrightarrow> kr_epoch r = e)"

definition spare_key :: "str \<Rightarrow> key_row list \<Rightarrow> rotation_row list \<Rightarrow> bool" where
  "spare_key rid K R \<longleftrightarrow>
     (\<forall>r \<in> set R. live_rotating rid r \<longrightarrow> (\<exists>k \<in> set K. own_key_of rid k \<and> ek_epoch k \<noteq> kr_epoch r))"

definition has_own :: "str \<Rightarrow> key_row list \<Rightarrow> bool" where
  "has_own rid K \<longleftrightarrow> (\<exists>k \<in> set K. own_key_of rid k)"

definition proper_prior :: "rotation_row list \<Rightarrow> bool" where
  "proper_prior R \<longleftrightarrow> (\<forall>r \<in> set R. kr_prior_epoch r \<noteq> Some (kr_epoch r))"

definition safe :: "str \<Rightarrow> key_row list \<Rightarrow> rotation_row list \<Rightarrow> bool" where
  "safe rid K R \<longleftrightarrow> unique_key key_id K \<and> unique_key rotation_id R \<and>
     has_own rid K \<and> one_live rid R \<and> spare_key rid K R \<and> proper_prior R"

definition key_safe :: "str \<Rightarrow> db \<Rightarrow> bool" where
  "key_safe rid s \<longleftrightarrow> safe rid (key_epochs s) (key_rotations s)"

section \<open>Writes\<close>

definition tame :: "(str \<Rightarrow> bool) \<Rightarrow> (rotation_row \<Rightarrow> rotation_row) \<Rightarrow> bool" where
  "tame P f \<longleftrightarrow> (\<forall>r. rotation_id (f r) = rotation_id r \<and> kr_prior_epoch (f r) = kr_prior_epoch r \<and>
     (P (kr_phase r) \<longrightarrow> live_phase (kr_phase (f r)) \<longrightarrow> live_phase (kr_phase r)))"

lemma safe_update_rotations:
  assumes "safe rid K R" "tame P f"
  shows "safe rid K (update_where (at_row rid' e role P) f R)"
proof -
  let ?R = "update_where (at_row rid' e role P) f R"
  have old: "\<exists>r \<in> set R. kr_epoch r = kr_epoch x \<and> kr_prior_epoch r = kr_prior_epoch x \<and>
      (live_rotating rid x \<longrightarrow> live_rotating rid r)" if x: "x \<in> set ?R" for x
  proof -
    obtain r where r: "r \<in> set R" "x = r \<or> (at_row rid' e role P r \<and> x = f r)"
      using x by (auto simp: table_simps)
    moreover have "rotation_id (f r) = rotation_id r" "kr_prior_epoch (f r) = kr_prior_epoch r"
      "P (kr_phase r) \<Longrightarrow> live_phase (kr_phase (f r)) \<Longrightarrow> live_phase (kr_phase r)"
      using assms(2) by (auto simp: tame_def)
    ultimately show ?thesis by (intro bexI [of _ r]) (auto simp: live_rotating_def rotation_id_def at_row_def)
  qed
  have "unique_key rotation_id ?R"
    using assms by (simp add: safe_def unique_key_update tame_def)
  moreover have "one_live rid ?R"
    using old assms(1) unfolding safe_def one_live_def by metis
  moreover have "spare_key rid K ?R"
    using old assms(1) unfolding safe_def spare_key_def by metis
  moreover have "proper_prior ?R"
    using old assms(1) unfolding safe_def proper_prior_def by metis
  ultimately show ?thesis using assms(1) by (simp add: safe_def)
qed

lemma safe_fewer_rotations: "safe rid K R \<Longrightarrow> safe rid K (delete_where P R)"
  by (auto simp: safe_def unique_key_delete table_simps one_live_def spare_key_def proper_prior_def)

text \<open>Changing or adding keys without taking a local one away.\<close>

definition holds_own :: "str \<Rightarrow> key_row list \<Rightarrow> key_row list \<Rightarrow> bool" where
  "holds_own rid K K' \<longleftrightarrow> (\<forall>k \<in> set K. own_key_of rid k \<longrightarrow> (\<exists>k' \<in> set K'. own_key_of rid k' \<and> ek_epoch k' = ek_epoch k))"

lemma safe_keys:
  assumes "safe rid K R" "holds_own rid K K'" "unique_key key_id K'"
  shows "safe rid K' R"
proof -
  have "has_own rid K'"
    using assms(1,2) unfolding safe_def has_own_def holds_own_def by blast
  moreover have "spare_key rid K' R"
    unfolding spare_key_def
  proof (intro ballI impI)
    fix r assume "r \<in> set R" "live_rotating rid r"
    then obtain k where "k \<in> set K" "own_key_of rid k" "ek_epoch k \<noteq> kr_epoch r"
      using assms(1) unfolding safe_def spare_key_def by blast
    with assms(2) show "\<exists>k \<in> set K'. own_key_of rid k \<and> ek_epoch k \<noteq> kr_epoch r"
      unfolding holds_own_def by force
  qed
  ultimately show ?thesis using assms by (simp add: safe_def)
qed

lemma holds_own_state: "holds_own rid K (update_where P (\<lambda>k. k\<lparr>ek_state := st\<rparr>) K)"
  unfolding holds_own_def
proof (intro ballI impI)
  fix k assume k: "k \<in> set K" "own_key_of rid k"
  show "\<exists>k' \<in> set (update_where P (\<lambda>k. k\<lparr>ek_state := st\<rparr>) K). own_key_of rid k' \<and> ek_epoch k' = ek_epoch k"
    using k by (intro bexI [of _ "if P k then k\<lparr>ek_state := st\<rparr> else k"]) (auto simp: own_key_of_def update_where_def)
qed

lemma safe_key_state:
  assumes "safe rid K R"
  shows "safe rid (update_where P (\<lambda>k. k\<lparr>ek_state := st\<rparr>) K) R"
  by (rule safe_keys [OF assms holds_own_state]) (use assms in \<open>simp add: safe_def unique_key_update key_id_def\<close>)

lemma safe_more_keys: "safe rid K R \<Longrightarrow> key_id k \<notin> key_id ` set K \<Longrightarrow> safe rid (K @ [k]) R"
  by (rule safe_keys [of rid K R]) (auto simp: holds_own_def safe_def unique_key_append)

lemma safe_delete_other_keys:
  "safe rid K R \<Longrightarrow> (\<And>k. own_key_of rid k \<Longrightarrow> \<not> P k) \<Longrightarrow> safe rid (delete_where P K) R"
  by (rule safe_keys [of rid K R]) (auto simp: holds_own_def table_simps safe_def unique_key_delete)

lemma safe_add_rotation:
  assumes "safe rid K R" "rotation_id r \<notin> rotation_id ` set R" "kr_prior_epoch r \<noteq> Some (kr_epoch r)"
    and "live_rotating rid r \<Longrightarrow> (\<forall>x \<in> set R. \<not> live_rotating rid x) \<and>
      (\<exists>k \<in> set K. own_key_of rid k \<and> ek_epoch k \<noteq> kr_epoch r)"
  shows "safe rid K (R @ [r])"
proof -
  have "one_live rid (R @ [r])"
    using assms(1,4) unfolding one_live_def safe_def by (cases "live_rotating rid r") auto
  moreover have "spare_key rid K (R @ [r])"
    using assms(1,4) unfolding spare_key_def safe_def by auto
  moreover have "proper_prior (R @ [r])"
    using assms(1,3) unfolding proper_prior_def safe_def by auto
  ultimately show ?thesis using assms(1,2) by (simp add: safe_def unique_key_append)
qed

text \<open>Taking away one local key beside another, once no live candidate relies on it.\<close>

lemma safe_delete_own_key:
  assumes "safe rid K R" "k \<in> set K" "own_key_of rid k" "ek_epoch k \<noteq> e"
    and "\<And>r. r \<in> set R \<Longrightarrow> live_rotating rid r \<Longrightarrow> kr_epoch r \<noteq> ek_epoch k"
  shows "safe rid (delete_where (\<lambda>k. own_key_of rid k \<and> ek_epoch k = e) K) R"
proof -
  let ?K = "delete_where (\<lambda>k. own_key_of rid k \<and> ek_epoch k = e) K"
  have k: "k \<in> set ?K" using assms(2-4) by (simp add: table_simps)
  then have "has_own rid ?K" using assms(3) unfolding has_own_def by blast
  moreover have "spare_key rid ?K R"
    unfolding spare_key_def using k assms(3,5) by fastforce
  ultimately show ?thesis using assms(1) by (simp add: safe_def unique_key_delete)
qed

section \<open>Programs\<close>

named_theorems safe_intros "preservation of the keys' invariant"

lemma key_safe_frame:
  "key_safe rid s \<Longrightarrow> key_epochs t = key_epochs s \<Longrightarrow> key_rotations t = key_rotations s \<Longrightarrow> key_safe rid t"
  by (simp add: key_safe_def)

lemma exec_safe: "(\<And>s. key_epochs (f s) = key_epochs s \<and> key_rotations (f s) = key_rotations s) \<Longrightarrow> preserves (key_safe rid) (exec f)"
  by (rule preserves_exec) (simp add: key_safe_def)

lemma txn_safe [safe_intros]: "preserves (key_safe rid) p \<Longrightarrow> preserves (key_safe rid) (txn p)"
  by (erule preserves_txn) (simp add: key_safe_def rollback_def)

lemma keeps_txn_safe: "keeps (key_safe rid) p s \<Longrightarrow> keeps (key_safe rid) (txn p) s"
  by (auto simp: keeps_def txn_def key_safe_def rollback_def split: prod.split sum.split)

lemma advance_safe: "tame P f \<Longrightarrow> preserves (key_safe rid) (advance rid' e role P f)"
  by (rule preservesI) (simp add: advance_def key_safe_def safe_update_rotations)

lemma tame_updates [simp]:
  "tame P (\<lambda>r. r\<lparr>kr_phase := ''discarded''\<rparr>)"
  "tame (\<lambda>p. p = ''candidate'') (\<lambda>r. r\<lparr>kr_phase := ''acknowledged'', kr_acknowledged := x\<rparr>)"
  "tame P (\<lambda>r. r\<lparr>kr_new_wrap_seen := b\<rparr>)"
  "tame (\<lambda>p. p = ''acknowledged'') (confirmed_at now)"
  "tame P (committed_at now)"
  "tame P (\<lambda>r. (committed_at now r)\<lparr>kr_accepted := n\<rparr>)"
  "tame P (\<lambda>r. r\<lparr>kr_accepted := Suc (kr_accepted r)\<rparr>)"
  by (simp_all add: tame_def rotation_id_def confirmed_at_def committed_at_def live_phase_def)

lemma set_state_safe [safe_intros]: "preserves (key_safe rid) (exec (set_key_state P e st))"
  by (rule preserves_exec) (simp add: key_safe_def set_key_state_def safe_key_state)

lemma insert_key_safe [safe_intros]: "preserves (key_safe rid) (insert_key k)"
  by (rule preservesI) (simp add: key_safe_def insert_key_def safe_more_keys)

lemma delete_rotations_safe [safe_intros]: "preserves (key_safe rid) (exec (delete_rotations P))"
  by (rule preserves_exec) (simp add: key_safe_def delete_rotations_def safe_fewer_rotations)

lemma insert_acking_safe [safe_intros]:
  "preserves (key_safe rid) (insert_rotation (acking_row rid' (Suc prior) prior p pid now deadline))"
proof (rule preservesI)
  fix s assume "key_safe rid s"
  let ?r = "acking_row rid' (Suc prior) prior p pid now deadline"
  have "kr_prior_epoch ?r \<noteq> Some (kr_epoch ?r)" "\<not> live_rotating rid ?r"
    by (simp_all add: acking_row_def live_rotating_def)
  with \<open>key_safe rid s\<close> safe_add_rotation [of rid "key_epochs s" "key_rotations s" ?r]
  show "key_safe rid (snd (insert_rotation ?r s))"
    by (simp add: key_safe_def insert_rotation_def)
qed

lemma consume_safe [safe_intros]: "preserves (key_safe rid) (exec (consume_pending_wrap_seen rid' e))"
  by (rule preserves_exec) (simp add: key_safe_def consume_pending_wrap_seen_def Let_def safe_update_rotations)

lemma other_writes_safe [safe_intros]:
  "preserves (key_safe rid) (exec (hold rid' e reason payload now))"
  "preserves (key_safe rid) (exec (release_held P))"
  "preserves (key_safe rid) (exec (set_relationship rid' f))"
  "preserves (key_safe rid) (exec (delete_private_key path))"
  "preserves (key_safe rid) (exec (forget_first_seen rid' e))"
  "preserves (key_safe rid) (exec (note_first_seen rid' e now))"
  "preserves (key_safe rid) (exec (cap_first_seen rid'))"
  "preserves (key_safe rid) (exec (expire_wrap_seen now))"
  "preserves (key_safe rid) (exec (compact_security_key_events now))"
  "preserves (key_safe rid) (delete_key_file x)"
  "preserves (key_safe rid) (store_private_key path data)"
  by (rule preservesI; simp add: key_safe_def exec_def hold_def cap_quarantine_def add_held_def release_held_def
      set_relationship_def delete_private_key_def forget_first_seen_def note_first_seen_def cap_first_seen_def
      expire_wrap_seen_def compact_security_key_events_def delete_key_file_def store_private_key_def split: option.split)+

lemma cleaning_safe: "preserves (key_safe rid) p \<Longrightarrow> preserves (key_safe rid) (cleaning_up (delete_private_key path) p)"
  unfolding preserves_def cleaning_up_def
  by (auto simp: key_safe_def delete_private_key_def split: prod.split sum.split; metis snd_conv)

lemma advance_or_safe: "tame P f \<Longrightarrow> preserves (key_safe rid) (advance_or x (advance rid' e role P f))"
  unfolding advance_or_def by (intro pres_intros advance_safe)

lemma settled_safe [safe_intros]: "preserves (key_safe rid) (settled_or_rejected rid' e role ph)"
  unfolding settled_or_rejected_def by (intro pres_intros)

lemma reject_safe [safe_intros]: "preserves (key_safe rid) (exec (if b then reject_epoch rid' e else id))"
  by (rule preserves_exec) (simp add: key_safe_def reject_epoch_def)

section \<open>The operations that take no key away\<close>

lemma ack_safe: "preserves (key_safe rid) (on_ack now rid' e pid)"
  unfolding on_ack_def by (intro pres_intros safe_intros advance_safe tame_updates)

lemma wrap_safe: "preserves (key_safe rid) (note_decrypted_new_wrap now rid' e)"
proof -
  have "preserves (key_safe rid) (exec (if b then park_wrap_seen rid' e now else id))" for b
    by (rule exec_safe) (simp add: park_wrap_seen_def)
  then show ?thesis
    unfolding note_decrypted_new_wrap_def by (intro pres_intros txn_safe advance_safe tame_updates)
qed

lemma mark_confirmed_safe: "preserves (key_safe rid) (mark_confirmed now rid')"
  unfolding mark_confirmed_def by (intro pres_intros txn_safe advance_or_safe tame_updates)

lemma confirm_safe: "preserves (key_safe rid) (confirm_rotation now rid')"
  unfolding confirm_rotation_def by (intro pres_intros txn_safe advance_or_safe tame_updates)

lemma commit_safe: "preserves (key_safe rid) (on_commit now rid' e)"
proof -
  have "preserves (key_safe rid) (exec (case x of None \<Rightarrow> id
      | Some p \<Rightarrow> if p \<in> A then set_key_state (own_key_of rid') p st else id))" for x A st
    using set_state_safe [of rid "own_key_of rid'" _ st] by (auto simp: preserves_def exec_def split: option.split)
  then show ?thesis
    unfolding on_commit_def by (intro pres_intros safe_intros advance_safe tame_updates)
qed

lemma accepted_safe: "preserves (key_safe rid) (note_accepted_event rid')"
  unfolding note_accepted_event_def by (intro pres_intros txn_safe advance_safe tame_updates)

lemma on_confirm_safe: "preserves (key_safe rid) (on_confirm now rid' e)"
  unfolding on_confirm_def by (intro pres_intros safe_intros advance_safe tame_updates)

lemma mark_committed_safe: "preserves (key_safe rid) (mark_committed now rid')"
  unfolding mark_committed_def by (intro pres_intros safe_intros advance_or_safe tame_updates)

lemma data_event_safe: "preserves (key_safe rid) (on_data_event_epoch now rid' e)"
  unfolding on_data_event_epoch_def by (intro pres_intros safe_intros)

lemma record_safe [safe_intros]:
  "preserves (key_safe rid) (record_acking_rotation rid' (Suc prior) prior p pid now)"
  unfolding record_acking_rotation_def by (intro pres_intros safe_intros)

lemma hold_conflict_safe [safe_intros]: "preserves (key_safe rid) (hold_conflict rid' e p pid now)"
  unfolding hold_conflict_def by (intro pres_intros safe_intros)

lemma prepare_safe [safe_intros]: "preserves (key_safe rid) (on_prepare fp now rid' p pid)"
  unfolding on_prepare_def require_relationship_def accept_prepare_def Let_def
  by (intro pres_intros safe_intros)

section \<open>Beginning a rotation\<close>

lemma not_in_flight: "in_flight s rid None = None \<Longrightarrow> r \<in> set (key_rotations s) \<Longrightarrow> \<not> live_rotating rid r"
  by (auto simp: in_flight_def table_simps live_rotating_def)

lemma own_below_current:
  assumes "own_epochs s rid \<noteq> []"
  shows "\<exists>k \<in> set (key_epochs s). own_key_of rid k \<and> ek_epoch k \<noteq> Suc (current_epoch s rid)"
proof -
  obtain k where k: "k \<in> set (key_epochs s)" "own_key_of rid k"
    using assms by (auto simp: own_epochs_def select_def filter_empty_conv)
  then have "ek_epoch k \<in> set (map fst (own_epochs s rid @ peer_key_epochs s rid))"
    by (force simp: own_epochs_def select_def)
  then have "ek_epoch k \<le> current_epoch s rid" unfolding current_epoch_def by (rule le_foldr_max)
  with k show ?thesis by (intro bexI [of _ k]) auto
qed

lemma foldr_max_mono: "foldr max xs (0 :: nat) \<le> foldr max xs m"
  by (induction xs) auto

lemma own_prior_below_current: "foldr max (map fst (own_epochs s rid)) 0 \<le> current_epoch s rid"
  unfolding current_epoch_def map_append foldr_append by (rule foldr_max_mono)

lemma candidate_txn_safe:
  assumes safe: "key_safe rid s" and quiet: "\<And>r. r \<in> set (key_rotations s) \<Longrightarrow> \<not> live_rotating rid' r"
    and spare: "\<exists>k \<in> set (key_epochs s). own_key_of rid' k \<and> ek_epoch k \<noteq> e" and prior: "prior \<noteq> e"
  shows "key_safe rid (snd (seq (insert_key k) (\<lambda>_. seq (exec (delete_rotations P)) (\<lambda>_.
    insert_rotation (candidate_row rid' e prior print key pid now))) s))"
proof (cases "insert_key k s")
  case (Pair res t)
  then have t: "key_safe rid t" "key_rotations t = key_rotations s" "set (key_epochs s) \<subseteq> set (key_epochs t)"
    using safe insert_key_safe [THEN preservesD, of rid s k] by (auto simp: insert_key_def split: if_splits)
  let ?u = "delete_rotations P t" and ?r = "candidate_row rid' e prior print key pid now"
  have u: "safe rid (key_epochs ?u) (key_rotations ?u)"
    using delete_rotations_safe [THEN preservesD, OF t(1), of P] by (simp add: exec_def key_safe_def)
  have "(\<forall>x \<in> set (key_rotations ?u). \<not> live_rotating rid x) \<and>
      (\<exists>k \<in> set (key_epochs ?u). own_key_of rid k \<and> ek_epoch k \<noteq> kr_epoch ?r)" if "live_rotating rid ?r"
    using that quiet spare t(2,3) by (auto simp: delete_rotations_def table_simps candidate_row_def live_rotating_def)
  moreover have "kr_prior_epoch ?r \<noteq> Some (kr_epoch ?r)" using prior by (simp add: candidate_row_def)
  ultimately have "key_safe rid (snd (insert_rotation ?r ?u))"
    using u safe_add_rotation [OF u, of ?r] by (simp add: insert_rotation_def key_safe_def)
  then show ?thesis using Pair t(1) by (cases res) (simp_all add: seq_run prog_run)
qed

lemma require_unchanged: "snd (require_relationship rid s) = s"
  by (simp add: require_relationship_def prog_run split: option.split)

lemma store_keeps_tables:
  "key_epochs (snd (store_or_reconcile rid e path data s)) = key_epochs s \<and>
   key_rotations (snd (store_or_reconcile rid e path data s)) = key_rotations s"
  by (simp add: store_or_reconcile_def reconcile_orphan_key_file_def store_private_key_def prog_run seq_run
      delete_private_key_def split: sum.split)

lemma begin_safe: "preserves (key_safe rid) (begin_rotation fp dir fresh now rid' pid)"
proof (rule preservesI)
  fix s assume safe: "key_safe rid s"
  let ?e = "Suc (current_epoch s rid')" and ?prior = "foldr max (map fst (own_epochs s rid')) 0"
  let ?path = "key_path dir rid' ?e"
  let ?body = "\<lambda>print. seq (insert_key \<lparr>ek_rel = rid', ek_epoch = ?e, ek_public = fst fresh, ek_ref = ?path,
        ek_state = ''candidate''\<rparr>) (\<lambda>_.
      seq (exec (delete_rotations (at_row rid' ?e ''rotating'' (\<lambda>p. p = ''discarded'')))) (\<lambda>_.
      insert_rotation (candidate_row rid' ?e ?prior print (fst fresh) pid now)))"
  have body: "key_safe rid (snd (?body print t))"
    if "in_flight s rid' None = None" "own_epochs s rid' \<noteq> []" "key_epochs t = key_epochs s" "key_rotations t = key_rotations s"
    for print t
    using that not_in_flight own_below_current own_prior_below_current [of s rid'] safe
    by (intro candidate_txn_safe) (auto simp: key_safe_def)
  have wrapped: "key_safe rid (snd (cleaning_up (delete_private_key ?path) (txn (?body print)) t))"
    if "in_flight s rid' None = None" "own_epochs s rid' \<noteq> []" "key_epochs t = key_epochs s" "key_rotations t = key_rotations s"
    for print t
    using body [OF that, of print] that(3,4) safe
    by (auto simp: cleaning_up_def txn_def delete_private_key_def rollback_def key_safe_def split: prod.split sum.split)
  have stored: "keeps (key_safe rid) (seq (store_or_reconcile rid' ?e ?path (snd fresh)) (\<lambda>_.
      seq (cleaning_up (delete_private_key ?path) (txn (?body print))) (\<lambda>_. ret x))) s"
    if "in_flight s rid' None = None" "own_epochs s rid' \<noteq> []" for print and x :: "nat \<times> prepare_payload"
  proof (rule keeps_seq)
    show "keeps (key_safe rid) (store_or_reconcile rid' ?e ?path (snd fresh)) s"
      using store_keeps_tables [of rid' ?e ?path "snd fresh" s] by (intro keepsI) (simp add: key_safe_def)
  next
    fix a t assume "store_or_reconcile rid' ?e ?path (snd fresh) s = (Inr a, t)"
    then have "key_epochs t = key_epochs s" "key_rotations t = key_rotations s"
      using store_keeps_tables [of rid' ?e ?path "snd fresh" s] by simp_all
    then show "keeps (key_safe rid) (seq (cleaning_up (delete_private_key ?path) (txn (?body print))) (\<lambda>_. ret x)) t"
      using wrapped [OF that] by (intro keeps_seq keepsI keeps_ret) simp_all
  qed
  have "keeps (key_safe rid) (begin_rotation fp dir fresh now rid' pid) s"
    unfolding begin_rotation_def Let_def
    by (rule keeps_seq_same, simp add: require_unchanged, intro keep_intros; simp; rule stored; simp)
  then show "key_safe rid (snd (begin_rotation fp dir fresh now rid' pid s))" using safe by (simp add: keeps_def)
qed

section \<open>Discarding a candidate\<close>

lemma own_key_found: "own_key s rid e = Some k \<Longrightarrow> k \<in> set (key_epochs s) \<and> own_key_of rid k \<and> ek_epoch k = e"
  unfolding own_key_def by (auto dest: fetchone_Some_mem)

lemma discard_takes_spare:
  assumes safe: "safe rid K R" and r: "r \<in> set R" "at_row rid' e ''rotating'' P r"
    and live: "\<And>p. P p \<Longrightarrow> live_phase p"
  shows "safe rid (delete_where (\<lambda>k. own_key_of rid' k \<and> ek_epoch k = e) K)
    (update_where (at_row rid' e ''rotating'' P) (\<lambda>r. r\<lparr>kr_phase := ''discarded''\<rparr>) R)"
proof -
  let ?R = "update_where (at_row rid' e ''rotating'' P) (\<lambda>r. r\<lparr>kr_phase := ''discarded''\<rparr>) R"
  have upd: "safe rid K ?R" using safe by (simp add: safe_update_rotations)
  show ?thesis
  proof (cases "rid' = rid")
    case False
    with upd show ?thesis by (intro safe_delete_other_keys) (auto simp: own_key_of_def)
  next
    case True
    have mine: "live_rotating rid r" "kr_epoch r = e"
      using r(2) live True by (auto simp: at_row_def live_rotating_def)
    then obtain k where k: "k \<in> set K" "own_key_of rid k" "ek_epoch k \<noteq> e"
      using safe r(1) unfolding safe_def spare_key_def by blast
    have "\<not> live_rotating rid x" if x: "x \<in> set ?R" for x
    proof
      assume "live_rotating rid x"
      moreover from x obtain y where y: "y \<in> set R" "x = (if at_row rid' e ''rotating'' P y then y\<lparr>kr_phase := ''discarded''\<rparr> else y)"
        by (auto simp: update_where_def)
      ultimately have "x = y" "\<not> at_row rid' e ''rotating'' P y"
        by (auto simp: live_rotating_def live_phase_def split: if_splits)
      moreover have "kr_epoch y = e"
        using safe mine \<open>live_rotating rid x\<close> \<open>x = y\<close> y(1) r(1) unfolding safe_def one_live_def by auto
      ultimately have "rotation_id y = rotation_id r"
        using \<open>live_rotating rid x\<close> mine by (auto simp: rotation_id_def live_rotating_def)
      then have "y = r" using safe y(1) r(1) unfolding safe_def by (metis unique_key_same)
      with r(2) \<open>\<not> at_row rid' e ''rotating'' P y\<close> show False by simp
    qed
    then show ?thesis using safe_delete_own_key [OF upd k] True by auto
  qed
qed

lemma discard_safe [safe_intros]:
  assumes "expected = None \<or> expected = Some ''candidate''"
  shows "preserves (key_safe rid) (discard_candidate rid' e expected)"
proof (rule preservesI)
  fix s assume s: "key_safe rid s"
  let ?P = "case expected of None \<Rightarrow> live_phase | Some x \<Rightarrow> (\<lambda>p. p = x)"
  have live: "live_phase p" if "?P p" for p
    using that assms by (auto simp: live_phase_def split: option.splits)
  have run: "snd (discard_candidate rid' e expected s) =
      (let t = s\<lparr>key_rotations := update_where (at_row rid' e ''rotating'' ?P) (\<lambda>r. r\<lparr>kr_phase := ''discarded''\<rparr>) (key_rotations s)\<rparr>
       in if rowcount (at_row rid' e ''rotating'' ?P) (key_rotations s) = 0 then t
          else delete_keys (\<lambda>k. own_key_of rid' k \<and> ek_epoch k = e) t)"
    by (simp add: discard_candidate_def advance_def prog_run seq_run Let_def)
  show "key_safe rid (snd (discard_candidate rid' e expected s))"
  proof (cases "rowcount (at_row rid' e ''rotating'' ?P) (key_rotations s) = 0")
    case True
    then show ?thesis using s unfolding run by (simp add: key_safe_def safe_update_rotations)
  next
    case False
    then obtain r where "r \<in> set (key_rotations s)" "at_row rid' e ''rotating'' ?P r"
      by (auto simp: rowcount_zero)
    with s live show ?thesis
      unfolding run by (simp add: key_safe_def delete_keys_def discard_takes_spare False)
  qed
qed

lemma resolve_safe: "preserves (key_safe rid) (resolve_quarantine fp now rid' i choice)"
  unfolding resolve_quarantine_def Let_def
  by (intro pres_intros safe_intros) (auto intro!: pres_intros safe_intros split: held_payload.split)

section \<open>Retiring old keys\<close>

text \<open>What the loop of the sweep knows of the committed rotations it fetched.\<close>

definition retirable :: "rotation_row list \<Rightarrow> db \<Rightarrow> bool" where
  "retirable rs s \<longleftrightarrow> (\<forall>r \<in> set rs. kr_prior_epoch r \<noteq> Some (kr_epoch r) \<and>
     (\<forall>x \<in> set (key_rotations s). live_rotating (kr_rel r) x \<longrightarrow> kr_epoch x \<noteq> kr_epoch r))"

lemma retirable_fewer: "retirable rs s \<Longrightarrow> set (key_rotations t) \<subseteq> set (key_rotations s) \<Longrightarrow> retirable rs t"
  by (auto simp: retirable_def)

lemma rotation_table_write: "key_rotations (s\<lparr>key_rotations := R\<rparr>) = R"
  by simp

lemma retire_in_txn_safe:
  assumes s: "key_safe rid s" and "prior \<noteq> e"
    and quiet: "\<And>x. x \<in> set (key_rotations s) \<Longrightarrow> live_rotating rid' x \<Longrightarrow> kr_epoch x \<noteq> e"
  shows "key_safe rid (snd (retire_in_txn rid' e prior s)) \<and>
    set (key_rotations (snd (retire_in_txn rid' e prior s))) \<subseteq> set (key_rotations s)"
proof (cases "own_key s rid' e")
  case None
  then show ?thesis using s by (simp add: retire_in_txn_def prog_run)
next
  case (Some k)
  let ?t = "if own_key s rid' prior = None then s else delete_keys (\<lambda>k. own_key_of rid' k \<and> ek_epoch k = prior) s"
  note k = own_key_found [OF Some]
  have "key_safe rid (delete_keys (\<lambda>k. own_key_of rid' k \<and> ek_epoch k = prior) s)"
  proof (cases "rid' = rid")
    case False
    then show ?thesis using s by (auto simp: key_safe_def delete_keys_def own_key_of_def intro!: safe_delete_other_keys)
  next
    case True
    then show ?thesis
      using s k assms(2) quiet by (auto simp: key_safe_def delete_keys_def intro!: safe_delete_own_key [of _ _ _ k])
  qed
  then have t: "key_safe rid ?t" using s by simp
  let ?P = "at_row rid' e ''rotating'' (\<lambda>p. p = ''committed'')"
  have run: "snd (retire_in_txn rid' e prior s) = delete_rotations ?P ?t"
    using Some by (simp add: retire_in_txn_def prog_run)
  have "key_safe rid (delete_rotations ?P ?t)"
    using delete_rotations_safe [THEN preservesD, OF t, of ?P] by (simp only: exec_def snd_conv)
  moreover have "key_rotations ?t = key_rotations s" by (simp add: delete_keys_def)
  then have "set (key_rotations (delete_rotations ?P ?t)) \<subseteq> set (key_rotations s)"
    by (simp only: delete_rotations_def rotation_table_write set_delete_where) blast
  ultimately show ?thesis unfolding run by (rule conjI)
qed

lemma retire_in_txn_returns: "\<exists>x. fst (retire_in_txn rid e prior s) = Inr x"
  by (simp add: retire_in_txn_def prog_run seq_run)

lemma retire_old_key_safe:
  assumes s: "key_safe rid s" "retirable [r] s"
  shows "key_safe rid (snd (retire_old_key now r s)) \<and>
    set (key_rotations (snd (retire_old_key now r s))) \<subseteq> set (key_rotations s)"
proof -
  have step: "key_safe rid (snd (seq (txn (retire_in_txn (kr_rel r) (kr_epoch r) prior)) delete_key_file s)) \<and>
      set (key_rotations (snd (seq (txn (retire_in_txn (kr_rel r) (kr_epoch r) prior)) delete_key_file s)))
        \<subseteq> set (key_rotations s)" if "kr_prior_epoch r = Some prior" for prior
  proof -
    obtain path t where run: "retire_in_txn (kr_rel r) (kr_epoch r) prior s = (Inr path, t)"
      using retire_in_txn_returns by (metis prod.collapse)
    have "key_safe rid t \<and> set (key_rotations t) \<subseteq> set (key_rotations s)"
      using retire_in_txn_safe [OF s(1), of prior "kr_epoch r" "kr_rel r"] s(2) that run by (auto simp: retirable_def)
    then show ?thesis
      using run by (simp add: seq_run txn_def delete_key_file_def exec_def key_safe_def delete_private_key_def split: option.split)
  qed
  have "key_safe rid s \<and> set (key_rotations s) \<subseteq> set (key_rotations s)" using s by simp
  with step show ?thesis
    unfolding retire_old_key_def by (auto simp: prog_run ret_def split: option.split sum.split)
qed

lemma retire_old_keys_safe: "key_safe rid s \<Longrightarrow> retirable rs s \<Longrightarrow> key_safe rid (snd (retire_old_keys now rs s))"
proof (induction rs arbitrary: s)
  case (Cons r rs)
  obtain res t where run: "retire_old_key now r s = (res, t)" by fastforce
  have t: "key_safe rid t" "set (key_rotations t) \<subseteq> set (key_rotations s)"
    using retire_old_key_safe [OF Cons.prems(1), of r now] Cons.prems(2) run by (auto simp: retirable_def)
  moreover have "retirable rs s" using Cons.prems(2) by (simp add: retirable_def)
  ultimately have "key_safe rid (snd (retire_old_keys now rs t))" using Cons.IH retirable_fewer by blast
  with run t show ?case by (cases res) (simp_all add: seq_run)
qed (simp add: ret_def)

lemma committed_are_retirable:
  assumes "key_safe rid s"
  shows "retirable (select (\<lambda>r. kr_role r = ''rotating'' \<and> kr_phase r = ''committed'') (key_rotations s)) s"
  unfolding retirable_def
proof (intro ballI conjI impI notI)
  fix r assume r: "r \<in> set (select (\<lambda>r. kr_role r = ''rotating'' \<and> kr_phase r = ''committed'') (key_rotations s))"
  show False if "kr_prior_epoch r = Some (kr_epoch r)"
    using that r assms by (auto simp: key_safe_def safe_def proper_prior_def select_def)
  fix x assume x: "x \<in> set (key_rotations s)" "live_rotating (kr_rel r) x" "kr_epoch x = kr_epoch r"
  then have "rotation_id x = rotation_id r" using r by (auto simp: rotation_id_def live_rotating_def select_def)
  then have "x = r"
    using assms x(1) r unfolding key_safe_def safe_def by (auto simp: select_def dest: unique_key_same)
  with x(2) r show False by (simp add: live_rotating_def live_phase_def select_def)
qed

lemma compact_peers_safe: "key_safe rid s \<Longrightarrow> key_safe rid (fold compact_peer_keys_of rids s)"
proof (induction rids arbitrary: s)
  case (Cons x rids)
  have "safe rid (key_epochs s) (key_rotations s)" using Cons.prems by (simp add: key_safe_def)
  then have "key_safe rid (compact_peer_keys_of x s)"
    unfolding compact_peer_keys_of_def delete_keys_def key_safe_def
    by (simp, intro safe_delete_other_keys) (auto simp: own_key_of_def peer_key_of_def)
  with Cons.IH show ?case by simp
qed simp

lemma tidy_safe: "preserves (key_safe rid) (tidy now)"
proof -
  have "preserves (key_safe rid) (exec (compact_committed_rotations now))"
    by (rule preserves_exec) (simp add: key_safe_def compact_committed_rotations_def delete_rotations_def safe_fewer_rotations)
  moreover have "preserves (key_safe rid) (exec compact_peer_key_epochs)"
    by (rule preserves_exec) (simp add: compact_peer_key_epochs_def compact_peers_safe)
  ultimately show ?thesis unfolding tidy_def by (intro pres_intros safe_intros)
qed

lemma claim_safe: "preserves (key_safe rid) (claim_timed_out now)"
  unfolding claim_timed_out_def by (intro pres_intros safe_intros) (auto intro!: pres_intros safe_intros split: prod.split)

lemma sweep_safe: "preserves (key_safe rid) (sweep now)"
proof -
  let ?rows = "\<lambda>s. select (\<lambda>r. kr_role r = ''rotating'' \<and> kr_phase r = ''committed'') (key_rotations s)"
  have retire: "preserves (key_safe rid) (seq (query ?rows) (retire_old_keys now))"
    by (rule preservesI) (simp add: prog_run retire_old_keys_safe committed_are_retirable)
  show ?thesis
    unfolding sweep_def by (rule preserves_seq [OF tidy_safe], rule preserves_seq [OF claim_safe], rule retire)
qed

lemma key_step_safe: "key_safe rid s \<Longrightarrow> key_safe rid (rotation_step fp dir x s)"
  by (cases "(fp, dir, x, s)" rule: rotation_step.cases)
    (auto intro: begin_safe [THEN preservesD] ack_safe [THEN preservesD] wrap_safe [THEN preservesD]
      mark_confirmed_safe [THEN preservesD] confirm_safe [THEN preservesD] commit_safe [THEN preservesD]
      accepted_safe [THEN preservesD] prepare_safe [THEN preservesD] on_confirm_safe [THEN preservesD]
      mark_committed_safe [THEN preservesD] data_event_safe [THEN preservesD] resolve_safe [THEN preservesD]
      sweep_safe [THEN preservesD])

lemma key_history_safe: "key_safe rid s \<Longrightarrow> key_safe rid (fold (rotation_step fp dir) h s)"
  by (induction h arbitrary: s) (simp_all add: key_step_safe)

section \<open>Properties\<close>

text \<open>C7. A side never loses its last private key of a relationship. From a database with a local key and
  no rotation in progress, after any history of rotation operations - begun, acknowledged, timed
  out, resolved either way, committed, swept, in any order and at any clock readings - a local key
  remains, and every candidate still in flight has a local key of another epoch beside it, so that
  discarding it is never the end of the relationship.\<close>
theorem own_key_never_lost:
  assumes "unique_key key_id (key_epochs s)" "key_rotations s = []" "own_epochs s rid \<noteq> []"
    and "t = fold (rotation_step fp dir) h s"
  shows "own_epochs t rid \<noteq> [] \<and> (\<forall>r \<in> set (key_rotations t). live_rotating rid r \<longrightarrow>
    (\<exists>k \<in> set (key_epochs t). own_key_of rid k \<and> ek_epoch k \<noteq> kr_epoch r))"
proof -
  have "has_own rid (key_epochs s)"
    using assms(3) by (auto simp: own_epochs_def has_own_def select_def filter_empty_conv)
  then have "key_safe rid s"
    using assms(1,2) by (simp add: key_safe_def safe_def one_live_def spare_key_def proper_prior_def unique_key_def)
  then have "safe rid (key_epochs t) (key_rotations t)"
    unfolding assms(4) using key_history_safe key_safe_def by blast
  then show ?thesis
    by (auto simp: safe_def has_own_def spare_key_def own_epochs_def select_def filter_empty_conv)
qed

definition sample_keys :: db where
  "sample_keys = empty_db\<lparr>relationships := [\<lparr>rl_id = ''r'', rl_peer = ''bob'', rl_consent = ''active'',
     rl_policy = None, rl_epoch = 1, rl_peer_key = Some ''zB'', rl_name = None,
      rl_prior = None, rl_grace = None\<rparr>],
     key_epochs := [\<lparr>ek_rel = ''r'', ek_epoch = 1, ek_public = ''zA'', ek_ref = ''k/r-e1.key'', ek_state = ''active''\<rparr>]\<rparr>"

theorem own_key_never_lost_witness:
  "own_epochs (fold (rotation_step Some ''k'') [(100, BeginRotation ''r'' (''zN'', [1, 2]) None), (200000, Sweep)]
    sample_keys) ''r'' \<noteq> []"
proof -
  have "unique_key key_id (key_epochs sample_keys)" "key_rotations sample_keys = []" "own_epochs sample_keys ''r'' \<noteq> []"
    by (simp_all add: sample_keys_def unique_key_def own_epochs_def select_def own_key_of_def PEER_KEY_REF_def empty_db_def)
  from own_key_never_lost [OF this refl] show ?thesis by blast
qed

end
