(* ===== verification/RotationCeremony.thy ===== *)
theory RotationCeremony
  imports RotationKeys
begin

text \<open>
  The rotation ceremony of \<open>crypto/rotation.py\<close> played by two sides, each with its own database: the
  rotating side \<open>a\<close> and its peer \<open>b\<close>. The events travel as the payloads the methods return; every
  step has its own clock reading. \<open>in_step\<close> says that both sides agree on the epoch and on each
  other's keys and have no rotation in progress.
\<close>

section \<open>Two sides\<close>

definition on_a :: "'a rotation_prog \<Rightarrow> (db \<times> db, rotation_exn, 'a) prog" where
  "on_a p = (\<lambda>(a, b). case p a of (r, a') \<Rightarrow> (r, (a', b)))"

definition on_b :: "'a rotation_prog \<Rightarrow> (db \<times> db, rotation_exn, 'a) prog" where
  "on_b p = (\<lambda>(a, b). case p b of (r, b') \<Rightarrow> (r, (a, b')))"

text \<open>Begin, prepare, ack, a first event under the new key, confirm, commit: the answer is the new epoch.
  \<open>pid\<close> is the id of the prepare event; the command line begins without one.\<close>

definition ceremony ::
  "(str \<Rightarrow> str option) \<Rightarrow> str \<Rightarrow> (nat \<Rightarrow> rat) \<Rightarrow> str \<Rightarrow> str \<times> bytes \<Rightarrow> str \<Rightarrow> (db \<times> db, rotation_exn, nat) prog" where
  "ceremony fp dir clock rid fresh pid =
     seq (on_a (begin_rotation fp dir fresh (clock 0) rid None)) (\<lambda>(e, prepare).
     seq (on_b (on_prepare fp (clock 1) rid prepare pid)) (\<lambda>(acked, echo).
     seq (on_a (on_ack (clock 2) rid acked echo)) (\<lambda>_.
     seq (on_a (note_decrypted_new_wrap (clock 3) rid e)) (\<lambda>_.
     seq (on_a (build_confirm_payload rid)) (\<lambda>confirm.
     seq (on_a (mark_confirmed (clock 4) rid)) (\<lambda>_.
     seq (on_b (on_confirm (clock 5) rid confirm)) (\<lambda>_.
     seq (on_b (build_commit_payload rid)) (\<lambda>commit.
     seq (on_b (mark_committed (clock 6) rid)) (\<lambda>_.
     seq (on_a (on_commit (clock 7) rid commit)) (\<lambda>_.
     ret e))))))))))"

section \<open>Agreement\<close>

text \<open>Nothing of the relationship is newer than the epoch, and no rotation is live.\<close>

definition quiet :: "str \<Rightarrow> nat \<Rightarrow> db \<Rightarrow> bool" where
  "quiet rid n s \<longleftrightarrow> (\<forall>k \<in> set (key_epochs s). ek_rel k = rid \<longrightarrow> ek_epoch k \<le> n) \<and>
     (\<forall>r \<in> set (key_rotations s). kr_rel r = rid \<longrightarrow> kr_epoch r \<le> n \<and> \<not> live_phase (kr_phase r))"

text \<open>One side's view: the epoch, its own newest key and the peer's key.\<close>

definition newest_own :: "db \<Rightarrow> str \<Rightarrow> str option" where
  "newest_own s rid = map_of (own_epochs s rid) (foldr max (map fst (own_epochs s rid)) 0)"

definition view :: "str \<Rightarrow> nat \<Rightarrow> str \<Rightarrow> str \<Rightarrow> db \<Rightarrow> bool" where
  "view rid n own peer s \<longleftrightarrow>
     (case relationship_of s rid of None \<Rightarrow> False | Some r \<Rightarrow> rl_epoch r = n \<and> rl_peer_key r = Some peer) \<and>
     peer \<noteq> [] \<and> newest_own s rid = Some own \<and> quiet rid n s \<and>
     (\<forall>k \<in> set (key_epochs s). peer_key_of rid k \<and> ek_epoch k = n \<longrightarrow> ek_public k = peer)"

definition in_step :: "str \<Rightarrow> nat \<Rightarrow> str \<Rightarrow> str \<Rightarrow> db \<Rightarrow> db \<Rightarrow> bool" where
  "in_step rid n ka kb a b \<longleftrightarrow> 1 \<le> n \<and> view rid n ka kb a \<and> view rid n kb ka b"

section \<open>Tables with one new row\<close>

lemma update_where_none: "(\<And>r. r \<in> set t \<Longrightarrow> \<not> P r) \<Longrightarrow> update_where P f t = t"
  by (induction t) (auto simp: update_where_def)

lemma update_where_snoc: "(\<And>r. r \<in> set t \<Longrightarrow> \<not> P r) \<Longrightarrow> P x \<Longrightarrow> update_where P f (t @ [x]) = t @ [f x]"
  using update_where_none [of t P f] by (simp add: update_where_def)

lemma delete_where_none: "(\<And>r. r \<in> set t \<Longrightarrow> \<not> P r) \<Longrightarrow> delete_where P t = t"
  by (simp add: delete_where_def filter_id_conv)

lemma fetchone_snoc: "(\<And>r. r \<in> set t \<Longrightarrow> \<not> P r) \<Longrightarrow> P x \<Longrightarrow> fetchone P (t @ [x]) = Some x"
  using fetchone_None [of P t] by (simp add: fetchone_append)

lemma rowcount_snoc: "(\<And>r. r \<in> set t \<Longrightarrow> \<not> P r) \<Longrightarrow> P x \<Longrightarrow> rowcount P (t @ [x]) = 1"
  using rowcount_zero [of P t] by (simp add: rowcount_append)

text \<open>A side in the middle of the ceremony: its tables are those it started with and one new row each.\<close>

definition midway :: "str \<Rightarrow> nat \<Rightarrow> str \<Rightarrow> db \<Rightarrow> rotation_row \<Rightarrow> key_row \<Rightarrow> db \<Rightarrow> bool" where
  "midway rid n role s0 row k s \<longleftrightarrow> quiet rid n s0 \<and> relationships s = relationships s0 \<and>
     key_rotations s = key_rotations s0 @ [row] \<and> key_epochs s = key_epochs s0 @ [k] \<and>
     rotation_id row = (rid, Suc n, role) \<and> key_id k = (rid, Suc n)"

lemma not_before:
  assumes "midway rid n role s0 row k s" "r \<in> set (key_rotations s0)"
  shows "\<not> at_row rid (Suc n) x P r" "kr_rel r = rid \<Longrightarrow> \<not> live_phase (kr_phase r)"
    "\<not> (kr_rel r = rid \<and> kr_epoch r = Suc n \<and> kr_role r = x)"
  using assms by (auto simp: midway_def quiet_def at_row_def)

lemma advance_midway:
  assumes m: "midway rid n role s0 row k s" and "P (kr_phase row)" "rotation_id (f row) = rotation_id row"
  shows "\<exists>t. advance rid (Suc n) role P f s = (Inr 1, t) \<and> midway rid n role s0 (f row) k t \<and>
    t = s\<lparr>key_rotations := key_rotations s0 @ [f row]\<rparr>"
proof -
  have "at_row rid (Suc n) role P row" using assms by (simp add: midway_def at_row_def rotation_id_def)
  with m assms(3) show ?thesis
    using not_before(1) [OF m]
    by (simp add: advance_def midway_def update_where_snoc rowcount_snoc)
qed

lemma rotation_at_midway: "midway rid n role s0 row k s \<Longrightarrow> rotation_at s rid (Suc n) role = Some row"
  using not_before(3) unfolding rotation_at_def
  by (simp add: midway_def) (rule fetchone_snoc, auto simp: rotation_id_def quiet_def)

lemma in_flight_midway:
  "midway rid n role s0 row k s \<Longrightarrow> live_phase (kr_phase row) \<Longrightarrow> in_flight s rid (Some role) = Some row"
  unfolding in_flight_def
  by (simp add: midway_def) (rule fetchone_snoc, auto simp: rotation_id_def quiet_def)

lemma key_state_midway:
  assumes m: "midway rid n role s0 row k s" and "P k" "\<And>x. P x \<Longrightarrow> ek_rel x = rid"
  shows "midway rid n role s0 row (k\<lparr>ek_state := st\<rparr>) (set_key_state P (Suc n) st s)"
proof -
  have "update_where (\<lambda>k. P k \<and> ek_epoch k = Suc n) (\<lambda>k. k\<lparr>ek_state := st\<rparr>) (key_epochs s0 @ [k]) =
      key_epochs s0 @ [k\<lparr>ek_state := st\<rparr>]"
    using m assms(2,3) by (intro update_where_snoc) (auto simp: midway_def quiet_def key_id_def)
  with m show ?thesis by (simp add: midway_def set_key_state_def key_id_def)
qed

section \<open>The rotating side\<close>

lemma ack_midway:
  assumes m: "midway rid n ''rotating'' s0 row k s" and "kr_phase row = ''candidate''" "kr_prepare row = None"
    and "moment_of (kr_deadline row) = Inr d" "now \<le> of_int d" "own_key_of rid k" "valid_ack (Suc n) pid"
  shows "\<exists>t w. on_ack now rid (Suc n) pid s = (Inr (), t) \<and> midway rid n ''rotating'' s0
    (row\<lparr>kr_phase := ''acknowledged'', kr_acknowledged := Some (stamp_text now), kr_new_wrap_seen := w\<rparr>)
    (k\<lparr>ek_state := ''acknowledged''\<rparr>) t"
proof -
  let ?f = "\<lambda>r. r\<lparr>kr_phase := ''acknowledged'', kr_acknowledged := Some (stamp_text now)\<rparr>"
  let ?g = "\<lambda>r. r\<lparr>kr_new_wrap_seen := True\<rparr>"
  obtain u where u: "advance rid (Suc n) ''rotating'' (\<lambda>p. p = ''candidate'') ?f s = (Inr 1, u)"
      "midway rid n ''rotating'' s0 (?f row) k u"
    using advance_midway [OF m, of "\<lambda>p. p = ''candidate''" ?f] assms(2) by (auto simp: rotation_id_def)
  let ?v = "set_key_state (own_key_of rid) (Suc n) ''acknowledged'' u"
  have v: "midway rid n ''rotating'' s0 (?f row) (k\<lparr>ek_state := ''acknowledged''\<rparr>) ?v"
    using assms(6) by (intro key_state_midway [OF u(2)]) (auto simp: own_key_of_def)
  have "update_where (at_row rid (Suc n) ''rotating'' live_phase) ?g (key_rotations s0 @ [?f row])
      = key_rotations s0 @ [?g (?f row)]"
    using not_before(1) [OF v] v by (intro update_where_snoc) (auto simp: midway_def at_row_def rotation_id_def live_phase_def)
  then have "\<exists>w. midway rid n ''rotating'' s0 ((?f row)\<lparr>kr_new_wrap_seen := w\<rparr>) (k\<lparr>ek_state := ''acknowledged''\<rparr>)
      (consume_pending_wrap_seen rid (Suc n) ?v)"
    using v by (cases "rowcount (\<lambda>w. ws_rel w = rid \<and> ws_epoch w = Suc n) (wrap_seen_pending ?v) = 0")
      (auto simp: consume_pending_wrap_seen_def Let_def midway_def rotation_id_def
        intro: exI [of _ "kr_new_wrap_seen row"] exI [of _ True])
  moreover have "on_ack now rid (Suc n) pid s = (Inr (), consume_pending_wrap_seen rid (Suc n) ?v)"
    using assms rotation_at_midway [OF m] u(1)
    by (simp add: on_ack_def prog_run seq_run txn_def truthy_def)
  ultimately show ?thesis by auto
qed

lemma wrap_midway:
  assumes m: "midway rid n ''rotating'' s0 row k s" and "live_phase (kr_phase row)"
  shows "\<exists>t. note_decrypted_new_wrap now rid (Suc n) s = (Inr (), t) \<and>
    midway rid n ''rotating'' s0 (row\<lparr>kr_new_wrap_seen := True\<rparr>) k t"
proof -
  obtain t where "advance rid (Suc n) ''rotating'' live_phase (\<lambda>r. r\<lparr>kr_new_wrap_seen := True\<rparr>) s = (Inr 1, t)"
      "midway rid n ''rotating'' s0 (row\<lparr>kr_new_wrap_seen := True\<rparr>) k t"
    using advance_midway [OF m, of live_phase "\<lambda>r. r\<lparr>kr_new_wrap_seen := True\<rparr>"] assms(2) by (auto simp: rotation_id_def)
  then show ?thesis by (simp add: note_decrypted_new_wrap_def txn_def seq_run prog_run)
qed

lemma confirm_midway:
  assumes m: "midway rid n ''rotating'' s0 row k s" and "kr_phase row = ''acknowledged''" "kr_new_wrap_seen row"
    and "valid_epoch (Suc n)"
  shows "build_confirm_payload rid s = (Inr (Suc n), s)"
    and "\<exists>t. mark_confirmed now rid s = (Inr (), t) \<and> midway rid n ''rotating'' s0 (confirmed_at now row) k t"
proof -
  have row: "in_flight s rid (Some ''rotating'') = Some row" "kr_epoch row = Suc n"
    using in_flight_midway [OF m] assms(2) m by (auto simp: live_phase_def midway_def rotation_id_def)
  then show "build_confirm_payload rid s = (Inr (Suc n), s)"
    using assms(2-4) by (simp add: build_confirm_payload_def prog_run build_confirm_def checked_def)
  obtain t where "advance rid (Suc n) ''rotating'' (\<lambda>p. p = ''acknowledged'') (confirmed_at now) s = (Inr 1, t)"
      "midway rid n ''rotating'' s0 (confirmed_at now row) k t"
    using advance_midway [OF m, of "\<lambda>p. p = ''acknowledged''" "confirmed_at now"] assms(2)
    by (auto simp: rotation_id_def confirmed_at_def)
  then show "\<exists>t. mark_confirmed now rid s = (Inr (), t) \<and> midway rid n ''rotating'' s0 (confirmed_at now row) k t"
    using row assms(2) by (simp add: mark_confirmed_def txn_def advance_or_def seq_run prog_run)
qed

text \<open>The states of the keys the side started with change; nothing else of them does.\<close>

definition same_keys :: "key_row list \<Rightarrow> key_row list \<Rightarrow> bool" where
  "same_keys K K' \<longleftrightarrow> map (\<lambda>k. k\<lparr>ek_state := []\<rparr>) K' = map (\<lambda>k. k\<lparr>ek_state := []\<rparr>) K"

lemma same_keys_update: "same_keys K (update_where P (\<lambda>k. k\<lparr>ek_state := st\<rparr>) K)"
  by (simp add: same_keys_def update_where_def)

lemma commit_midway:
  assumes m: "midway rid n ''rotating'' s0 row k s" and "kr_phase row = ''confirmed''" "own_key_of rid k"
    and "valid_epoch (Suc n)" "kr_prior_epoch row \<noteq> Some (Suc n)"
  shows "\<exists>t K x. on_commit now rid (Suc n) s = (Inr (), t) \<and>
    relationships t = update_where (\<lambda>r. rl_id r = rid) (\<lambda>r. r\<lparr>rl_epoch := Suc n\<rparr>) (relationships s0) \<and>
    key_rotations t = key_rotations s0 @ [(committed_at now row)\<lparr>kr_accepted := 0\<rparr>] \<and>
    key_epochs t = K @ [k\<lparr>ek_state := x\<rparr>] \<and> same_keys (key_epochs s0) K"
proof -
  let ?f = "\<lambda>r. (committed_at now r)\<lparr>kr_accepted := 0\<rparr>"
  obtain u where u: "advance rid (Suc n) ''rotating'' (\<lambda>p. p = ''confirmed'') ?f s = (Inr 1, u)"
      "midway rid n ''rotating'' s0 (?f row) k u"
    using advance_midway [OF m, of "\<lambda>p. p = ''confirmed''" ?f] assms(2) by (auto simp: rotation_id_def committed_at_def)
  let ?v = "set_key_state (own_key_of rid) (Suc n) ''active'' u"
  have v: "midway rid n ''rotating'' s0 (?f row) (k\<lparr>ek_state := ''active''\<rparr>) ?v"
    using assms(3) by (intro key_state_midway [OF u(2)]) (auto simp: own_key_of_def)
  let ?h = "case kr_prior_epoch row of None \<Rightarrow> id
    | Some p \<Rightarrow> if p \<in> set (map fst (own_epochs s rid)) then set_key_state (own_key_of rid) p ''retired'' else id"
  have w: "relationships (?h ?v) = relationships s0 \<and> key_rotations (?h ?v) = key_rotations s0 @ [?f row] \<and>
      (\<exists>K. key_epochs (?h ?v) = K @ [k\<lparr>ek_state := ''active''\<rparr>] \<and> same_keys (key_epochs s0) K)"
  proof (cases "kr_prior_epoch row")
    case None
    then show ?thesis using v by (simp add: midway_def same_keys_def)
  next
    case (Some p)
    have "update_where P g (xs @ [y]) = update_where P g xs @ [if P y then g y else y]" for P g xs and y :: key_row
      by (simp add: update_where_def)
    then show ?thesis
      using v Some assms(5) same_keys_update
      by (auto simp: midway_def set_key_state_def key_id_def same_keys_def [of _ "key_epochs s0"])
  qed
  have "on_commit now rid (Suc n) s = (Inr (), set_relationship rid (\<lambda>x. x\<lparr>rl_epoch := Suc n\<rparr>) (?h ?v))"
    using assms rotation_at_midway [OF m] u(1)
    by (simp add: on_commit_def prog_run seq_run txn_def)
  with w show ?thesis by (auto simp: set_relationship_def)
qed

section \<open>Epochs of a side that has a view\<close>

lemma dict_fold_head:
  "(\<And>k. k \<in> set ks \<Longrightarrow> ek_epoch k = n \<Longrightarrow> ek_public k = v) \<Longrightarrow>
   \<exists>rest. foldl (\<lambda>d k. dict_put (ek_epoch k) (ek_public k) d) ((n, v) # d) ks = (n, v) # rest"
  by (induction ks arbitrary: d) auto

lemma view_peers:
  assumes "view rid n own peer s" "1 \<le> n"
  shows "\<exists>rest. peer_key_epochs s rid = (n, peer) # rest" "fst ` set (peer_key_epochs s rid) \<subseteq> {..n}"
proof -
  obtain r where r: "relationship_of s rid = Some r" "rl_epoch r = n" "rl_peer_key r = Some peer" "peer \<noteq> []"
    using assms(1) by (auto simp: view_def split: option.splits)
  then have eq: "peer_key_epochs s rid = foldl (\<lambda>d k. dict_put (ek_epoch k) (ek_public k) d) [(n, peer)]
      (select (peer_key_of rid) (key_epochs s))"
    using assms(2) by (simp add: peer_key_epochs_def truthy_def)
  show "\<exists>rest. peer_key_epochs s rid = (n, peer) # rest"
    unfolding eq by (rule dict_fold_head) (use assms(1) in \<open>auto simp: view_def select_def\<close>)
  show "fst ` set (peer_key_epochs s rid) \<subseteq> {..n}"
    unfolding eq dict_fold_epochs using assms(1) by (auto simp: view_def quiet_def select_def peer_key_of_def)
qed

lemma own_epochs_bound: "quiet rid n s \<Longrightarrow> fst ` set (own_epochs s rid) \<subseteq> {..n}"
  by (auto simp: quiet_def own_epochs_def select_def own_key_of_def)

lemma foldr_max_le: "set xs \<subseteq> {..n} \<Longrightarrow> foldr max xs 0 \<le> (n :: nat)"
  by (induction xs) auto

lemma foldr_max_top: "set xs \<subseteq> {..n} \<Longrightarrow> foldr max xs n = (n :: nat)"
  by (induction xs) auto

lemma view_current:
  assumes "view rid n own peer s" "1 \<le> n"
  shows "current_epoch s rid = n" "foldr max (map fst (peer_key_epochs s rid)) 0 = n"
proof -
  obtain rest where rest: "peer_key_epochs s rid = (n, peer) # rest" using view_peers(1) [OF assms] by blast
  have "set (map fst (own_epochs s rid @ peer_key_epochs s rid)) \<subseteq> {..n}"
    using own_epochs_bound [of rid n s] view_peers(2) [OF assms] assms(1) by (auto simp: view_def)
  then have "current_epoch s rid \<le> n" unfolding current_epoch_def by (rule foldr_max_le)
  moreover have "n \<le> current_epoch s rid" unfolding current_epoch_def by (rule le_foldr_max) (simp add: rest)
  ultimately show "current_epoch s rid = n" by simp
  have "foldr max (map fst (peer_key_epochs s rid)) 0 \<le> n"
    using view_peers(2) [OF assms] by (intro foldr_max_le) simp
  then show "foldr max (map fst (peer_key_epochs s rid)) 0 = n"
    using le_foldr_max [of n "map fst (peer_key_epochs s rid)"] rest by simp
qed

lemma view_idle: "view rid n own peer s \<Longrightarrow> in_flight s rid x = None"
  by (auto simp: view_def quiet_def in_flight_def fetchone_None)

lemma view_unused:
  assumes "view rid n own peer s"
  shows "(rid, Suc n) \<notin> key_id ` set (key_epochs s)" "(rid, Suc n, role) \<notin> rotation_id ` set (key_rotations s)"
    "delete_where (at_row rid (Suc n) role P) (key_rotations s) = key_rotations s"
    "rotation_at s rid (Suc n) role = None" "peer_key s rid (Suc n) = None" "Suc n \<notin> fst ` set (own_epochs s rid)"
  using assms own_epochs_bound [of rid n s]
  by (auto simp: view_def quiet_def key_id_def rotation_id_def at_row_def rotation_at_def peer_key_def peer_key_of_def
      fetchone_None intro!: delete_where_none)

section \<open>The first steps\<close>

lemma begin_midway:
  assumes v: "view rid n own peer a" "1 \<le> n" and "fp own = Some print"
    and "valid_prepare \<lparr>pp_new_key = new, pp_prior_fingerprint = print, pp_deadline = stamp_text (now + of_int ROTATION_WINDOW)\<rparr>"
    and "key_path dir rid (Suc n) \<notin> fst ` set (key_files a)"
  shows "\<exists>t prior k. begin_rotation fp dir (new, data) now rid None a =
      (Inr (Suc n, \<lparr>pp_new_key = new, pp_prior_fingerprint = print, pp_deadline = stamp_text (now + of_int ROTATION_WINDOW)\<rparr>), t) \<and>
    prior \<le> n \<and> own_key_of rid k \<and> ek_public k = new \<and>
    midway rid n ''rotating'' a (candidate_row rid (Suc n) prior print new None now) k t"
proof -
  obtain r where r: "relationship_of a rid = Some r" using v(1) by (auto simp: view_def split: option.splits)
  let ?prior = "foldr max (map fst (own_epochs a rid)) 0" and ?path = "key_path dir rid (Suc n)"
  have own: "map_of (own_epochs a rid) ?prior = Some own" "own_epochs a rid \<noteq> []"
    using v(1) by (auto simp: view_def newest_own_def)
  have prior: "?prior \<le> n"
    using own_epochs_bound [of rid n a] v(1) by (intro foldr_max_le) (auto simp: view_def)
  have path: "?path \<noteq> PEER_KEY_REF"
  proof
    assume "?path = PEER_KEY_REF"
    then have "CHR ''/'' \<in> set (PEER_KEY_REF)" by (metis key_path_def in_set_conv_decomp append_Cons)
    then show False by (simp add: PEER_KEY_REF_def)
  qed
  let ?k = "\<lparr>ek_rel = rid, ek_epoch = Suc n, ek_public = new, ek_ref = ?path, ek_state = ''candidate''\<rparr>"
  let ?row = "candidate_row rid (Suc n) ?prior print new None now"
  let ?t = "a\<lparr>key_files := key_files a @ [(?path, data)], key_epochs := key_epochs a @ [?k],
    key_rotations := key_rotations a @ [?row]\<rparr>"
  let ?a1 = "a\<lparr>key_files := key_files a @ [(?path, data)]\<rparr>"
  have ids: "key_id ?k = (rid, Suc n)" "rotation_id ?row = (rid, Suc n, ''rotating'')"
    by (simp_all add: key_id_def rotation_id_def candidate_row_def)
  have stored: "store_or_reconcile rid (Suc n) ?path data a = (Inr (), ?a1)"
    using assms(5) by (simp add: store_or_reconcile_def store_private_key_def prog_run)
  have "insert_key ?k ?a1 = (Inr (), ?a1\<lparr>key_epochs := key_epochs a @ [?k]\<rparr>)"
    using view_unused(1) [OF v(1)] ids(1) by (simp add: insert_key_def)
  moreover have "delete_rotations (at_row rid (Suc n) ''rotating'' P) (?a1\<lparr>key_epochs := K\<rparr>) = ?a1\<lparr>key_epochs := K\<rparr>" for P K
    using view_unused(3) [OF v(1)] by (simp add: delete_rotations_def)
  moreover have "insert_rotation ?row (?a1\<lparr>key_epochs := key_epochs a @ [?k]\<rparr>) = (Inr (), ?t)"
    using view_unused(2) [OF v(1), of "''rotating''"] ids(2) by (simp add: insert_rotation_def)
  ultimately have body: "cleaning_up (delete_private_key ?path) (txn (seq (insert_key ?k) (\<lambda>_.
      seq (exec (delete_rotations (at_row rid (Suc n) ''rotating'' (\<lambda>p. p = ''discarded'')))) (\<lambda>_.
      insert_rotation ?row)))) ?a1 = (Inr (), ?t)"
    by (simp only: cleaning_up_def txn_def seq_run prog_run prod.case sum.case)
  have req: "require_relationship rid a = (Inr r, a)" using r by (simp add: require_relationship_def prog_run)
  have facts: "in_flight a rid None = None" "current_epoch a rid = n" "(Suc n \<le> ?prior) = False" "(own_epochs a rid = []) = False"
    using view_idle [OF v(1)] view_current [OF v] prior own(2) by auto
  have print: "fingerprint_of fp (the (map_of (own_epochs a rid) ?prior)) = Inr print"
    using own(1) assms(3) by (simp add: fingerprint_of_def)
  have built: "build_prepare new print (now + of_int ROTATION_WINDOW) =
      Inr \<lparr>pp_new_key = new, pp_prior_fingerprint = print, pp_deadline = stamp_text (now + of_int ROTATION_WINDOW)\<rparr>"
    using assms(4) by (simp add: build_prepare_def checked_def Let_def)
  have "begin_rotation fp dir (new, data) now rid None a =
      (Inr (Suc n, \<lparr>pp_new_key = new, pp_prior_fingerprint = print, pp_deadline = stamp_text (now + of_int ROTATION_WINDOW)\<rparr>), ?t)"
    unfolding begin_rotation_def Let_def
    by (simp only: seq_run [of "require_relationship rid"] req prog_run facts print built fst_conv snd_conv
        seq_run [of "store_or_reconcile x y z w" for x y z w] stored seq_run [of "cleaning_up x y" for x y] body
        prod.case sum.case simp_thms if_False)
  moreover have "midway rid n ''rotating'' a ?row ?k ?t"
    using v(1) by (simp add: midway_def view_def key_id_def rotation_id_def candidate_row_def)
  moreover have "own_key_of rid ?k" using path by (simp add: own_key_of_def)
  moreover have "ek_public ?k = new" by simp
  ultimately show ?thesis using prior by blast
qed

lemma prepare_midway:
  assumes v: "view rid n own peer b" "1 \<le> n" and "fp peer = Some print" "valid_prepare p"
    and "pp_prior_fingerprint p = print" "moment_of (pp_deadline p) = Inr d" "now \<le> of_int d" "valid_ack (Suc n) pid"
  shows "\<exists>t k. on_prepare fp now rid p pid b = (Inr (Suc n, pid), t) \<and>
    peer_key_of rid k \<and> ek_public k = pp_new_key p \<and>
    midway rid n ''acking'' b (acking_row rid (Suc n) n p pid now d) k t"
proof -
  obtain r where r: "relationship_of b rid = Some r" using v(1) by (auto simp: view_def split: option.splits)
  obtain rest where rest: "peer_key_epochs b rid = (n, peer) # rest" using view_peers(1) [OF v] by blast
  let ?k = "\<lparr>ek_rel = rid, ek_epoch = Suc n, ek_public = pp_new_key p, ek_ref = PEER_KEY_REF, ek_state = ''acknowledged''\<rparr>"
  let ?row = "acking_row rid (Suc n) n p pid now d"
  let ?u = "b\<lparr>key_epochs := key_epochs b @ [?k], key_rotations := key_rotations b @ [?row]\<rparr>"
  let ?t = "forget_first_seen rid (Suc n)
    (release_held (\<lambda>q. rq_rel q = rid \<and> rq_reason q = ''unknown_future_epoch'' \<and> rq_epoch q \<le> Suc n) ?u)"
  have ids: "key_id ?k = (rid, Suc n)" "rotation_id ?row = (rid, Suc n, ''acking'')"
    by (simp_all add: key_id_def rotation_id_def acking_row_def)
  let ?b1 = "b\<lparr>key_epochs := key_epochs b @ [?k]\<rparr>"
  have key: "insert_key ?k b = (Inr (), ?b1)"
    using view_unused(1) [OF v(1)] ids(1) by (simp add: insert_key_def)
  have "delete_rotations (at_row rid (Suc n) ''acking'' P) ?b1 = ?b1" for P
    using view_unused(3) [OF v(1)] by (simp add: delete_rotations_def)
  moreover have "rotation_at ?b1 rid (Suc n) ''acking'' = None"
    using view_unused(4) [OF v(1)] by (simp add: rotation_at_def)
  moreover have "insert_rotation ?row ?b1 = (Inr (), ?u)"
    using view_unused(2) [OF v(1), of "''acking''"] ids(2) by (simp add: insert_rotation_def)
  ultimately have recorded: "record_acking_rotation rid (Suc n) n p pid now ?b1 = (Inr (), ?t)"
    using assms(6) by (simp add: record_acking_rotation_def prog_run seq_run)
  have accept: "accept_prepare now rid (Suc n) n p pid b = (Inr (Suc n, pid), ?t)"
  proof -
    have "(Suc n \<le> current_epoch b rid) = False" "in_flight b rid None = None" "(of_int d < now) = False"
      using view_current [OF v] view_idle [OF v(1)] assms(7) by auto
    moreover have "build_ack (Suc n) pid = Inr (Suc n, pid)" using assms(8) by (simp add: build_ack_def checked_def)
    ultimately show ?thesis
      using key recorded assms(6) by (simp add: accept_prepare_def prog_run seq_run txn_def)
  qed
  have found: "epoch_with_print fp (pp_prior_fingerprint p) (peer_key_epochs b rid) = Inr (Some n)"
    using rest assms(3,5) by (simp add: fingerprint_of_def)
  have req: "require_relationship rid b = (Inr r, b)" using r by (simp add: require_relationship_def prog_run)
  have facts: "peer_key b rid (Suc n) = None" "foldr max (map fst (peer_key_epochs b rid)) 0 = n"
    "(Suc n \<in> set (map fst (own_epochs b rid))) = False" "valid_prepare p = True"
    using view_unused(5,6) [OF v(1)] view_current(2) [OF v] assms(4) by auto
  have "on_prepare fp now rid p pid b = (Inr (Suc n, pid), ?t)"
    unfolding on_prepare_def Let_def
    by (simp only: seq_run [of "require_relationship rid"] req prog_run facts found accept prod.case sum.case option.case
        simp_thms if_False if_True)
  moreover have "midway rid n ''acking'' b ?row ?k ?t"
    using v(1) by (simp add: midway_def view_def key_id_def rotation_id_def acking_row_def forget_first_seen_def release_held_def)
  moreover have "peer_key_of rid ?k" "ek_public ?k = pp_new_key p" by (simp_all add: peer_key_of_def)
  ultimately show ?thesis by blast
qed

section \<open>The acking side\<close>

lemma on_confirm_midway:
  assumes m: "midway rid n ''acking'' s0 row k s" and "kr_phase row = ''acknowledged''" "valid_epoch (Suc n)"
  shows "\<exists>t. on_confirm now rid (Suc n) s = (Inr (), t) \<and> midway rid n ''acking'' s0 (confirmed_at now row) k t"
proof -
  obtain t where "advance rid (Suc n) ''acking'' (\<lambda>p. p = ''acknowledged'') (confirmed_at now) s = (Inr 1, t)"
      "midway rid n ''acking'' s0 (confirmed_at now row) k t"
    using advance_midway [OF m, of "\<lambda>p. p = ''acknowledged''" "confirmed_at now"] assms(2)
    by (auto simp: rotation_id_def confirmed_at_def)
  then show ?thesis
    using rotation_at_midway [OF m] assms(2,3) by (simp add: on_confirm_def txn_def seq_run prog_run)
qed

lemma mark_committed_midway:
  assumes m: "midway rid n ''acking'' s0 row k s" and "kr_phase row = ''confirmed''" "peer_key_of rid k" "valid_epoch (Suc n)"
  shows "build_commit_payload rid s = (Inr (Suc n), s)"
    and "\<exists>t x. mark_committed now rid s = (Inr (), t) \<and>
      relationships t = update_where (\<lambda>r. rl_id r = rid)
        (\<lambda>r. r\<lparr>rl_epoch := Suc n, rl_peer_key := kr_new_key row\<rparr>) (relationships s0) \<and>
      key_rotations t = key_rotations s0 @ [committed_at now row] \<and> key_epochs t = key_epochs s0 @ [k\<lparr>ek_state := x\<rparr>]"
proof -
  have row: "in_flight s rid (Some ''acking'') = Some row" "kr_epoch row = Suc n"
    using in_flight_midway [OF m] assms(2) m by (auto simp: live_phase_def midway_def rotation_id_def)
  then show "build_commit_payload rid s = (Inr (Suc n), s)"
    using assms(2,4) by (simp add: build_commit_payload_def prog_run build_commit_def checked_def)
  obtain u where u: "advance rid (Suc n) ''acking'' (\<lambda>p. p = ''confirmed'') (committed_at now) s = (Inr 1, u)"
      "midway rid n ''acking'' s0 (committed_at now row) k u"
    using advance_midway [OF m, of "\<lambda>p. p = ''confirmed''" "committed_at now"] assms(2)
    by (auto simp: rotation_id_def committed_at_def)
  let ?v = "set_key_state (peer_key_of rid) (Suc n) ''active'' u"
  have "midway rid n ''acking'' s0 (committed_at now row) (k\<lparr>ek_state := ''active''\<rparr>) ?v"
    using assms(3) by (intro key_state_midway [OF u(2)]) (auto simp: peer_key_of_def)
  moreover have "mark_committed now rid s =
      (Inr (), set_relationship rid (\<lambda>x. x\<lparr>rl_epoch := Suc n, rl_peer_key := kr_new_key row\<rparr>) ?v)"
    using row u(1) assms(2) by (simp add: mark_committed_def txn_def advance_or_def seq_run prog_run)
  ultimately show "\<exists>t x. mark_committed now rid s = (Inr (), t) \<and>
      relationships t = update_where (\<lambda>r. rl_id r = rid)
        (\<lambda>r. r\<lparr>rl_epoch := Suc n, rl_peer_key := kr_new_key row\<rparr>) (relationships s0) \<and>
      key_rotations t = key_rotations s0 @ [committed_at now row] \<and> key_epochs t = key_epochs s0 @ [k\<lparr>ek_state := x\<rparr>]"
    by (auto simp: midway_def set_relationship_def)
qed

section \<open>The views after a commit\<close>

lemma same_keys_filter:
  assumes "same_keys K K'" and P: "\<And>k st. P (k\<lparr>ek_state := st\<rparr>) = P k" and g: "\<And>k st. g (k\<lparr>ek_state := st\<rparr>) = g k"
  shows "map g (filter P K') = map g (filter P K)"
  using assms(1)
proof (induction K arbitrary: K')
  case (Cons k K)
  then obtain k' K'' where K': "K' = k' # K''" "same_keys K K''" "k'\<lparr>ek_state := []\<rparr> = k\<lparr>ek_state := []\<rparr>"
    by (auto simp: same_keys_def map_eq_Cons_conv)
  then have "P k' = P k" "g k' = g k" using P [of "[]" k'] P [of "[]" k] g [of "[]" k'] g [of "[]" k] by simp_all
  with Cons.IH [OF K'(2)] K'(1) show ?case by simp
qed (simp add: same_keys_def)

lemma same_keys_bound:
  assumes "same_keys K K'" "k' \<in> set K'"
  shows "\<exists>k \<in> set K. ek_rel k = ek_rel k' \<and> ek_epoch k = ek_epoch k' \<and> ek_public k = ek_public k' \<and> ek_ref k = ek_ref k'"
proof -
  let ?g = "\<lambda>k. (ek_rel k, ek_epoch k, ek_public k, ek_ref k)"
  have eq: "map ?g K' = map ?g K" using same_keys_filter [OF assms(1), of "\<lambda>_. True" ?g] by simp
  have "?g k' \<in> ?g ` set K" using imageI [OF assms(2), of ?g] arg_cong [OF eq, of set] by (simp only: set_map)
  then obtain k where k: "k \<in> set K" "?g k' = ?g k" by (rule imageE)
  from k(2) have "ek_rel k = ek_rel k'" "ek_epoch k = ek_epoch k'" "ek_public k = ek_public k'" "ek_ref k = ek_ref k'"
    by (simp_all only: prod.inject)
  with k(1) show ?thesis by blast
qed

lemma own_epochs_after:
  assumes "same_keys K0 K" "key_epochs s0 = K0" "key_epochs t = K @ [k]" "ek_rel k = rid"
  shows "own_epochs t rid = own_epochs s0 rid @ (if ek_ref k = PEER_KEY_REF then [] else [(ek_epoch k, ek_public k)])"
  using same_keys_filter [OF assms(1), of "own_key_of rid" "\<lambda>k. (ek_epoch k, ek_public k)"] assms(2-4)
  by (simp add: own_epochs_def select_def own_key_of_def)

lemma view_after:
  assumes v: "view rid n own peer s0"
    and rel: "relationships t = update_where (\<lambda>r. rl_id r = rid) f (relationships s0)"
    and f: "\<And>r. rl_id (f r) = rl_id r" "\<And>r. rl_epoch (f r) = Suc n"
      "\<And>r. rl_peer_key r = Some peer \<Longrightarrow> rl_peer_key (f r) = Some peer'" "peer' \<noteq> []"
    and rot: "key_rotations t = key_rotations s0 @ [row]" "\<not> live_phase (kr_phase row)" "kr_epoch row = Suc n"
    and keys: "key_epochs t = K @ [k]" "same_keys (key_epochs s0) K" "key_id k = (rid, Suc n)"
    and pub: "if ek_ref k = PEER_KEY_REF then ek_public k = peer' \<and> own' = own else ek_public k = own'"
  shows "view rid (Suc n) own' peer' t"
proof -
  obtain r where r: "relationship_of s0 rid = Some r" "rl_peer_key r = Some peer"
    using v by (auto simp: view_def split: option.splits)
  have "relationship_of t rid = Some (f r)"
    using r(1) f(1) unfolding relationship_of_def rel by (simp add: fetchone_update_same)
  then have "case relationship_of t rid of None \<Rightarrow> False | Some r \<Rightarrow> rl_epoch r = Suc n \<and> rl_peer_key r = Some peer'"
    using f(2,3) r(2) by simp
  moreover have old: "ek_epoch x \<le> n" if "x \<in> set K" "ek_rel x = rid" for x
    using same_keys_bound [OF keys(2) that(1)] that(2) v by (auto simp: view_def quiet_def)
  have "quiet rid (Suc n) t"
    using old v rot keys(1,3) by (force simp: view_def quiet_def key_id_def)
  moreover have "ek_public x = peer'" if "x \<in> set (key_epochs t)" "peer_key_of rid x" "ek_epoch x = Suc n" for x
    using that old keys(1,3) pub by (fastforce simp: peer_key_of_def split: if_splits)
  moreover have "newest_own t rid = Some own'"
  proof (cases "ek_ref k = PEER_KEY_REF")
    case True
    then have "own_epochs t rid = own_epochs s0 rid" using own_epochs_after [OF keys(2) refl keys(1), of rid] keys(3) by (simp add: key_id_def)
    then show ?thesis using v pub True by (simp add: view_def newest_own_def)
  next
    case False
    then have own: "own_epochs t rid = own_epochs s0 rid @ [(Suc n, own')]"
      using own_epochs_after [OF keys(2) refl keys(1), of rid] keys(3) pub by (simp add: key_id_def)
    have "set (map fst (own_epochs s0 rid)) \<subseteq> {..n}"
      using own_epochs_bound [of rid n s0] v by (simp add: view_def)
    then have "foldr max (map fst (own_epochs t rid)) 0 = Suc n"
      unfolding own using foldr_max_top [of "map fst (own_epochs s0 rid)" "Suc n"] by fastforce
    moreover have "Suc n \<notin> fst ` set (own_epochs s0 rid)"
      using own_epochs_bound [of rid n s0] v by (auto simp: view_def)
    then have "map_of (own_epochs s0 rid) (Suc n) = None" by (simp add: map_of_eq_None_iff)
    then have "map_of (own_epochs s0 rid @ [(Suc n, own')]) (Suc n) = Some own'" by (simp add: map_add_def)
    ultimately show ?thesis unfolding newest_own_def own by simp
  qed
  ultimately show ?thesis using f(4) unfolding view_def by blast
qed

section \<open>Properties\<close>

text \<open>C5. The ceremony achieves what it is for. If both sides agree on the epoch and on each other's keys and
  none has a rotation in progress, then a ceremony run by the deadline returns the next epoch and
  leaves them in agreement again: the peer wraps to the new public key, the rotating side holds it as
  its newest key and still holds every older one, and nothing blocks the next rotation, by either
  side.\<close>
theorem ceremony_renews:
  assumes "in_step rid n ka kb a b" "fp ka = Some print"
    and "matches multibase_shape new" "matches base64url_shape print" "uuid_matches pid" "Suc n \<le> 9007199254740991"
    and "key_path dir rid (Suc n) \<notin> fst ` set (key_files a)"
    and "d = \<lfloor>clock 0 + of_int ROTATION_WINDOW\<rfloor>" "in_range d" "clock 1 \<le> of_int d" "clock 2 \<le> of_int d"
  shows "\<exists>a' b'. ceremony fp dir clock rid (new, data) pid (a, b) = (Inr (Suc n), (a', b')) \<and>
    in_step rid (Suc n) new kb a' b' \<and> set (own_epochs a rid) \<subseteq> set (own_epochs a' rid)"
proof -
  let ?p = "\<lparr>pp_new_key = new, pp_prior_fingerprint = print, pp_deadline = stamp_text (clock 0 + of_int ROTATION_WINDOW)\<rparr>"
  have n: "1 \<le> n" and va: "view rid n ka kb a" and vb: "view rid n kb ka b" using assms(1) by (simp_all add: in_step_def)
  have deadline: "moment_of (stamp_text (clock 0 + of_int ROTATION_WINDOW)) = Inr d"
    using assms(8,9) by (simp add: moment_of_def stamp_text_def parse_format)
  have valid: "valid_prepare ?p" "valid_ack (Suc n) pid" "valid_epoch (Suc n)"
    using assms(3-6) by (simp_all add: valid_prepare_def valid_ack_def valid_epoch_def stamp_text_def format_canonical_utc_def
        matches_def utc_shape_of_fields)
  obtain a1 prior k where a1: "begin_rotation fp dir (new, data) (clock 0) rid None a = (Inr (Suc n, ?p), a1)"
      "prior \<le> n" "own_key_of rid k" "ek_public k = new"
      "midway rid n ''rotating'' a (candidate_row rid (Suc n) prior print new None (clock 0)) k a1"
    using begin_midway [where fp = fp and now = "clock 0", OF va n assms(2) valid(1) assms(7)] by blast
  obtain b1 q where b1: "on_prepare fp (clock 1) rid ?p pid b = (Inr (Suc n, pid), b1)"
      "peer_key_of rid q" "ek_public q = new" "midway rid n ''acking'' b (acking_row rid (Suc n) n ?p pid (clock 1) d) q b1"
    using prepare_midway [where fp = fp and now = "clock 1", OF vb n assms(2) valid(1) _ _ assms(10) valid(2)] deadline by fastforce
  have "moment_of (kr_deadline (candidate_row rid (Suc n) prior print new None (clock 0))) = Inr d"
    using deadline by (simp add: candidate_row_def)
  from ack_midway [where now = "clock 2", OF a1(5) _ _ this assms(11) a1(3) valid(2)] obtain a2 row2 k2 where
    a2: "on_ack (clock 2) rid (Suc n) pid a1 = (Inr (), a2)" "midway rid n ''rotating'' a row2 k2 a2"
      "kr_phase row2 = ''acknowledged''" "kr_prior_epoch row2 = Some prior" "own_key_of rid k2" "ek_public k2 = new"
    using a1(3,4) by (fastforce simp: candidate_row_def own_key_of_def)
  from wrap_midway [OF a2(2)] a2(3) obtain a3 where
    a3: "note_decrypted_new_wrap (clock 3) rid (Suc n) a2 = (Inr (), a3)"
      "midway rid n ''rotating'' a (row2\<lparr>kr_new_wrap_seen := True\<rparr>) k2 a3"
    by (auto simp: live_phase_def)
  have confirm: "build_confirm_payload rid a3 = (Inr (Suc n), a3)"
    using confirm_midway(1) [OF a3(2)] a2(3) valid(3) by simp
  obtain a4 where a4: "mark_confirmed (clock 4) rid a3 = (Inr (), a4)"
      "midway rid n ''rotating'' a (confirmed_at (clock 4) (row2\<lparr>kr_new_wrap_seen := True\<rparr>)) k2 a4"
    using confirm_midway(2) [OF a3(2)] a2(3) valid(3) by fastforce
  obtain b2 where b2: "on_confirm (clock 5) rid (Suc n) b1 = (Inr (), b2)"
      "midway rid n ''acking'' b (confirmed_at (clock 5) (acking_row rid (Suc n) n ?p pid (clock 1) d)) q b2"
    using on_confirm_midway [OF b1(4)] valid(3) by (fastforce simp: acking_row_def)
  let ?acked = "confirmed_at (clock 5) (acking_row rid (Suc n) n ?p pid (clock 1) d)"
  have commit: "build_commit_payload rid b2 = (Inr (Suc n), b2)"
    using mark_committed_midway(1) [OF b2(2) _ b1(2) valid(3)] by (simp add: confirmed_at_def)
  have acked_key: "kr_new_key ?acked = Some new" by (simp add: confirmed_at_def acking_row_def)
  obtain b3 x where b3: "mark_committed (clock 6) rid b2 = (Inr (), b3)"
      "relationships b3 = update_where (\<lambda>r. rl_id r = rid) (\<lambda>r. r\<lparr>rl_epoch := Suc n, rl_peer_key := Some new\<rparr>) (relationships b)"
      "key_rotations b3 = key_rotations b @ [committed_at (clock 6) ?acked]" "key_epochs b3 = key_epochs b @ [q\<lparr>ek_state := x\<rparr>]"
    using mark_committed_midway(2) [OF b2(2) _ b1(2) valid(3)] acked_key by (fastforce simp: confirmed_at_def)
  let ?confirmed = "confirmed_at (clock 4) (row2\<lparr>kr_new_wrap_seen := True\<rparr>)"
  obtain a5 K y where a5: "on_commit (clock 7) rid (Suc n) a4 = (Inr (), a5)"
      "relationships a5 = update_where (\<lambda>r. rl_id r = rid) (\<lambda>r. r\<lparr>rl_epoch := Suc n\<rparr>) (relationships a)"
      "key_rotations a5 = key_rotations a @ [(committed_at (clock 7) ?confirmed)\<lparr>kr_accepted := 0\<rparr>]"
      "key_epochs a5 = K @ [k2\<lparr>ek_state := y\<rparr>]" "same_keys (key_epochs a) K"
    using commit_midway [OF a4(2) _ a2(5) valid(3)] a1(2) a2(4) by (fastforce simp: confirmed_at_def)
  have run: "ceremony fp dir clock rid (new, data) pid (a, b) = (Inr (Suc n), (a5, b3))"
    by (simp add: ceremony_def seq_run prog_run on_a_def on_b_def a1(1) b1(1) a2(1) a3(1) confirm a4(1) b2(1) commit b3(1) a5(1) del: One_nat_def)
  have new: "new \<noteq> []" using assms(3) by (auto simp: matches_def multibase_shape_def)
  have ids: "key_id k2 = (rid, Suc n)" "key_id q = (rid, Suc n)" "kr_epoch row2 = Suc n"
    using a2(2) b1(4) by (simp_all add: midway_def rotation_id_def)
  have "view rid (Suc n) new kb a5"
    by (rule view_after [OF va a5(2) _ _ _ _ a5(3) _ _ a5(4,5)])
      (use va a2(5,6) ids in \<open>auto simp: view_def committed_at_def confirmed_at_def live_phase_def key_id_def own_key_of_def\<close>)
  moreover have "view rid (Suc n) kb new b3"
    by (rule view_after [OF vb b3(2) _ _ _ _ b3(3) _ _ b3(4)])
      (use new b1(2,3) ids in \<open>auto simp: same_keys_def committed_at_def confirmed_at_def acking_row_def live_phase_def
        key_id_def peer_key_of_def\<close>)
  moreover have "set (own_epochs a rid) \<subseteq> set (own_epochs a5 rid)"
    using own_epochs_after [OF a5(5) refl a5(4), of rid] ids(1) by (simp add: key_id_def)
  ultimately show ?thesis using run by (auto simp: in_step_def)
qed

definition sample_side :: "str \<Rightarrow> str \<Rightarrow> str \<Rightarrow> db" where
  "sample_side dir own peer = empty_db\<lparr>relationships := [\<lparr>rl_id = ''r'', rl_peer = ''did'', rl_consent = ''active'',
     rl_policy = None, rl_epoch = 1, rl_peer_key = Some peer, rl_name = None,
      rl_prior = None, rl_grace = None\<rparr>],
     key_epochs := [\<lparr>ek_rel = ''r'', ek_epoch = 1, ek_public = own, ek_ref = dir, ek_state = ''active''\<rparr>]\<rparr>"

lemma sample_in_step: "in_step ''r'' 1 ''zA'' ''zB'' (sample_side ''a'' ''zA'' ''zB'') (sample_side ''b'' ''zB'' ''zA'')"
  by (simp add: in_step_def view_def sample_side_def relationship_of_def fetchone_def newest_own_def own_epochs_def select_def
      own_key_of_def peer_key_of_def PEER_KEY_REF_def quiet_def empty_db_def)

theorem ceremony_renews_witness:
  "\<exists>a' b'. ceremony Some ''a'' (\<lambda>i. of_nat (100 * i)) ''r'' (''zN'', [7]) ''01234567-89ab-4cde-8f01-23456789abcd''
      (sample_side ''a'' ''zA'' ''zB'', sample_side ''b'' ''zB'' ''zA'') = (Inr 2, (a', b')) \<and>
    in_step ''r'' 2 ''zN'' ''zB'' a' b'"
proof -
  have "matches multibase_shape ''zN''" "matches base64url_shape ''zA''" by code_simp+
  moreover have "uuid_matches ''01234567-89ab-4cde-8f01-23456789abcd''" by code_simp
  moreover have "key_path ''a'' ''r'' (Suc 1) \<notin> fst ` set (key_files (sample_side ''a'' ''zA'' ''zB''))"
    by (simp add: sample_side_def empty_db_def)
  moreover have "\<lfloor>(of_nat (100 * 0) :: rat) + of_int ROTATION_WINDOW\<rfloor> = 86400" by (simp add: ROTATION_WINDOW_def)
  moreover have "in_range 86400" by (simp add: in_range_def max_instant_value days_before_year_def)
  ultimately show ?thesis
    using ceremony_renews [OF sample_in_step, of Some "''zA''" "''zN''" "''01234567-89ab-4cde-8f01-23456789abcd''" "''a''"
      86400 "\<lambda>i. of_nat (100 * i)" "[7]"] by (auto simp: numeral_2_eq_2)
qed

end
