(* ===== verification/Canonical.thy ===== *)
theory Canonical
  imports Clock "HOL-Library.Multiset"
begin

text \<open>
  The restricted JSON profile (\<open>canonical.py\<close>): the bytes that are hashed and signed, and the
  strict parser of what arrives.

  \<^item> A Python \<open>str\<close> is here the list of its code points, surrogates included; \<open>bytes\<close> are lists
    of byte values. \<open>jval\<close> is what \<open>restricted_jcs\<close> is given: an object is the list of its
    entries in insertion order (its keys are texts, so the refusal of other key types does not
    occur), a float keeps only whether it is finite, and \<open>VOther\<close> is any other Python object.
  \<^item> \<open>json.loads\<close> is modelled as the standard library's scanner reads: \<open>scan\<close> a value, \<open>members\<close>
    and \<open>elems\<close> the loops of objects and arrays. Its recursion limit is the argument \<open>d\<close>, and
    whether a float literal is finite as a double is the argument \<open>fin\<close>.
  \<^item> \<open>int\<close> refuses a literal of more than 4300 digits with a \<open>ValueError\<close> that is no
    \<open>JSONDecodeError\<close>: the value \<open>IntegerDigits\<close>.
\<close>

type_synonym codes = "nat list"

abbreviation codes_of :: "str \<Rightarrow> codes" where
  "codes_of \<equiv> map of_char"

datatype jval =
    VNull
  | VBool bool
  | VInt int
  | VFloat bool
  | VStr codes
  | VArr "jval list"
  | VObj "(codes \<times> jval) list"
  | VOther

datatype canon_error = CanonicalizationError codes str | IntegerDigits

definition SAFE_INT_MIN :: int where "SAFE_INT_MIN = - 9007199254740991"
definition SAFE_INT_MAX :: int where "SAFE_INT_MAX = 9007199254740991"

section \<open>UTF-8\<close>

definition is_surrogate :: "nat \<Rightarrow> bool" where
  "is_surrogate c \<longleftrightarrow> 0xD800 \<le> c \<and> c \<le> 0xDFFF"

definition utf8_char :: "nat \<Rightarrow> bytes" where
  "utf8_char c =
     (if c < 0x80 then [c]
      else if c < 0x800 then [0xC0 + c div 64, 0x80 + c mod 64]
      else if c < 0x10000 then [0xE0 + c div 4096, 0x80 + c div 64 mod 64, 0x80 + c mod 64]
      else [0xF0 + c div 262144, 0x80 + c div 4096 mod 64, 0x80 + c div 64 mod 64, 0x80 + c mod 64])"

definition utf8_encode :: "codes \<Rightarrow> bytes" where
  "utf8_encode s = concat (map utf8_char s)"

definition cont :: "nat \<Rightarrow> bool" where
  "cont b \<longleftrightarrow> 0x80 \<le> b \<and> b < 0xC0"

text \<open>One character of the strict decoder: no overlong form, no surrogate, nothing past 10FFFF.\<close>

definition utf8_step :: "bytes \<Rightarrow> (nat \<times> bytes) option" where
  "utf8_step bs = (case bs of
     [] \<Rightarrow> None
   | b # r \<Rightarrow>
      if b < 0x80 then Some (b, r)
      else if 0xC2 \<le> b \<and> b < 0xE0 then (case r of
          x # r' \<Rightarrow> if cont x then Some ((b - 0xC0) * 64 + (x - 0x80), r') else None | [] \<Rightarrow> None)
      else if 0xE0 \<le> b \<and> b < 0xF0 then (case r of
          x # y # r' \<Rightarrow>
            (let c = (b - 0xE0) * 4096 + (x - 0x80) * 64 + (y - 0x80) in
             if cont x \<and> cont y \<and> 0x800 \<le> c \<and> \<not> is_surrogate c then Some (c, r') else None)
          | _ \<Rightarrow> None)
      else if 0xF0 \<le> b \<and> b < 0xF5 then (case r of
          x # y # z # r' \<Rightarrow>
            (let c = (b - 0xF0) * 262144 + (x - 0x80) * 4096 + (y - 0x80) * 64 + (z - 0x80) in
             if cont x \<and> cont y \<and> cont z \<and> 0x10000 \<le> c \<and> c \<le> 0x10FFFF then Some (c, r') else None)
          | _ \<Rightarrow> None)
      else None)"

lemma utf8_step_shorter: "utf8_step bs = Some (c, r) \<Longrightarrow> length r < length bs"
  by (auto simp: utf8_step_def Let_def split: list.splits if_splits)

function utf8_decode :: "bytes \<Rightarrow> codes option" where
  "utf8_decode bs = (if bs = [] then Some [] else case utf8_step bs of
     None \<Rightarrow> None | Some (c, r) \<Rightarrow> map_option ((#) c) (utf8_decode r))"
  by pat_completeness auto
termination
  by (relation "measure length") (auto dest: utf8_step_shorter)

declare utf8_decode.simps [simp del]

section \<open>Serialisation\<close>

definition hex_digit :: "nat \<Rightarrow> nat" where
  "hex_digit n = (if n < 10 then 48 + n else 87 + n)"

definition escape_char :: "nat \<Rightarrow> codes" where
  "escape_char c =
     (if c = 34 then [92, 34] else if c = 92 then [92, 92]
      else if c = 8 then [92, 98] else if c = 9 then [92, 116] else if c = 10 then [92, 110]
      else if c = 12 then [92, 102] else if c = 13 then [92, 114]
      else if c < 0x20 \<or> c = 0x7F then [92, 117, 48, 48, hex_digit (c div 16), hex_digit (c mod 16)]
      else [c])"

definition quoted :: "codes \<Rightarrow> codes" where
  "quoted s = [34] @ concat (map escape_char s) @ [34]"

definition encode_string :: "codes \<Rightarrow> codes \<Rightarrow> canon_error + codes" where
  "encode_string path s =
     (if (\<exists>c \<in> set s. is_surrogate c) then Inl (CanonicalizationError path ''unpaired_surrogate'')
      else Inr (quoted s))"

definition int_text :: "int \<Rightarrow> codes" where
  "int_text i = (if i < 0 then 45 # codes_of (nat_text (nat (- i))) else codes_of (nat_text (nat i)))"

definition child_path :: "codes \<Rightarrow> codes \<Rightarrow> codes" where
  "child_path path key = (if path = [] then key else path @ [46] @ key)"

definition item_path :: "codes \<Rightarrow> nat \<Rightarrow> codes" where
  "item_path path i = path @ [91] @ codes_of (nat_text i) @ [93]"

text \<open>Code points as \<open>key.encode("ascii")\<close> compares them: the lexicographic order.\<close>

definition sorted_entries :: "(codes \<times> 'v) list \<Rightarrow> (codes \<times> 'v) list" where
  "sorted_entries d = sort_key fst d"

definition bind_err :: "'e + 'a \<Rightarrow> ('a \<Rightarrow> 'e + 'b) \<Rightarrow> 'e + 'b" where
  "bind_err r f = (case r of Inl e \<Rightarrow> Inl e | Inr a \<Rightarrow> f a)"

lemma bind_err_simps [simp]: "bind_err (Inl e) f = Inl e" "bind_err (Inr a) f = f a"
  by (simp_all add: bind_err_def)

lemma bind_err_Inr: "bind_err r f = Inr b \<longleftrightarrow> (\<exists>a. r = Inr a \<and> f a = Inr b)"
  by (cases r) auto

lemma bind_err_cong [fundef_cong]:
  "r = r' \<Longrightarrow> (\<And>a. r' = Inr a \<Longrightarrow> f a = g a) \<Longrightarrow> bind_err r f = bind_err r' g"
  by (cases r') auto

lemma size_sorted_entries:
  "size_list (size_prod (\<lambda>x. 0) size) (sorted_entries d) = size_list (size_prod (\<lambda>x. 0) size) d"
proof -
  have "size_list f xs = sum_list (map f xs) + length xs" for f :: "'b \<Rightarrow> nat" and xs
    by (induction xs) auto
  moreover have "mset (map f (sorted_entries d)) = mset (map f d)" for f :: "_ \<Rightarrow> nat"
    by (simp only: sorted_entries_def mset_map mset_sort)
  ultimately show ?thesis
    by (metis length_map mset_eq_length sum_mset_sum_list)
qed

text \<open>\<open>_encode\<close> on the output's text: everything but string content is ASCII, so the bytes of the
  pieces are the bytes of the whole. \<open>encode_members\<close> runs over the sorted entries.\<close>

function (sequential) encode :: "codes \<Rightarrow> jval \<Rightarrow> canon_error + codes"
  and encode_items :: "codes \<Rightarrow> nat \<Rightarrow> jval list \<Rightarrow> canon_error + codes"
  and encode_members :: "codes \<Rightarrow> bool \<Rightarrow> (codes \<times> jval) list \<Rightarrow> canon_error + codes"
where
  "encode path VNull = Inr (codes_of ''null'')"
| "encode path (VBool b) = Inr (if b then codes_of ''true'' else codes_of ''false'')"
| "encode path (VInt i) =
     (if SAFE_INT_MIN \<le> i \<and> i \<le> SAFE_INT_MAX then Inr (int_text i)
      else Inl (CanonicalizationError path ''integer_out_of_range''))"
| "encode path (VFloat fin) =
     Inl (CanonicalizationError path (if fin then ''float_number'' else ''nan_or_infinity''))"
| "encode path (VStr s) = encode_string path s"
| "encode path (VObj d) =
     (if (\<exists>k \<in> set (map fst d). \<exists>c \<in> set k. 128 \<le> c) then Inl (CanonicalizationError path ''non_ascii_key'')
      else if \<not> distinct (map fst d) then Inl (CanonicalizationError path ''duplicate_key'')
      else bind_err (encode_members path True (sorted_entries d)) (\<lambda>t. Inr ([123] @ t @ [125])))"
| "encode path (VArr vs) = bind_err (encode_items path 0 vs) (\<lambda>t. Inr ([91] @ t @ [93]))"
| "encode path VOther = Inl (CanonicalizationError path ''unsupported_type'')"
| "encode_items path i [] = Inr []"
| "encode_items path i (v # vs) =
     bind_err (encode (item_path path i) v) (\<lambda>t.
       bind_err (encode_items path (Suc i) vs) (\<lambda>u. Inr ((if i = 0 then [] else [44]) @ t @ u)))"
| "encode_members path first [] = Inr []"
| "encode_members path first ((k, v) # d) =
     bind_err (encode_string (child_path path k) k) (\<lambda>t.
       bind_err (encode (child_path path k) v) (\<lambda>u.
         bind_err (encode_members path False d) (\<lambda>w.
           Inr ((if first then [] else [44]) @ t @ [58] @ u @ w))))"
  by pat_completeness auto
termination
  by (relation "measure (\<lambda>x. case x of Inl (p, v) \<Rightarrow> size v
      | Inr (Inl (p, i, vs)) \<Rightarrow> size_list size vs
      | Inr (Inr (p, b, d)) \<Rightarrow> size_list (size_prod (\<lambda>x. 0) size) d)")
    (simp_all add: size_sorted_entries)

definition restricted_jcs :: "jval \<Rightarrow> canon_error + bytes" where
  "restricted_jcs v = bind_err (encode [] v) (\<lambda>t. Inr (utf8_encode t))"


section \<open>The parser\<close>

definition invalid_json :: "canon_error + 'a" where
  "invalid_json = Inl (CanonicalizationError [] ''invalid_json'')"

lemma invalid_json_simps [simp]: "invalid_json \<noteq> Inr a" "bind_err invalid_json f = invalid_json"
  by (simp_all add: invalid_json_def)

definition is_ws :: "nat \<Rightarrow> bool" where
  "is_ws c \<longleftrightarrow> c = 32 \<or> c = 9 \<or> c = 10 \<or> c = 13"

definition skip_ws :: "codes \<Rightarrow> codes" where
  "skip_ws s = dropWhile is_ws s"

lemma skip_ws_shorter: "length (skip_ws s) \<le> length s"
  by (simp add: skip_ws_def length_dropWhile_le)

definition starts_with :: "codes \<Rightarrow> codes \<Rightarrow> bool" where
  "starts_with p s \<longleftrightarrow> take (length p) s = p"

lemma starts_with_nonempty: "starts_with (c # p) s \<Longrightarrow> s \<noteq> []"
  by (auto simp: starts_with_def)

text \<open>Strings: the escapes, with surrogate pairs joined.\<close>

definition hex_value :: "nat \<Rightarrow> nat option" where
  "hex_value c =
     (if 48 \<le> c \<and> c \<le> 57 then Some (c - 48) else if 97 \<le> c \<and> c \<le> 102 then Some (c - 87)
      else if 65 \<le> c \<and> c \<le> 70 then Some (c - 55) else None)"

definition hex4 :: "codes \<Rightarrow> (nat \<times> codes) option" where
  "hex4 s = (case s of
     a # b # c # e # r \<Rightarrow> (case (hex_value a, hex_value b, hex_value c, hex_value e) of
         (Some a', Some b', Some c', Some e') \<Rightarrow> Some (a' * 4096 + b' * 256 + c' * 16 + e', r)
       | _ \<Rightarrow> None)
   | _ \<Rightarrow> None)"

definition low_surrogate :: "codes \<Rightarrow> (nat \<times> codes) option" where
  "low_surrogate s =
     (if starts_with [92, 117] s then (case hex4 (drop 2 s) of
         Some (l, r) \<Rightarrow> if 0xDC00 \<le> l \<and> l \<le> 0xDFFF then Some (l, r) else None
       | None \<Rightarrow> None)
      else None)"

definition short_escape :: "nat \<Rightarrow> nat option" where
  "short_escape c =
     (if c = 34 \<or> c = 92 \<or> c = 47 then Some c else if c = 98 then Some 8 else if c = 102 then Some 12
      else if c = 110 then Some 10 else if c = 114 then Some 13 else if c = 116 then Some 9 else None)"

text \<open>After the backslash.\<close>

definition unescape :: "codes \<Rightarrow> (nat \<times> codes) option" where
  "unescape s = (case s of
     [] \<Rightarrow> None
   | c # r \<Rightarrow>
      if c = 117 then (case hex4 r of
          None \<Rightarrow> None
        | Some (h, r') \<Rightarrow>
            if 0xD800 \<le> h \<and> h \<le> 0xDBFF then (case low_surrogate r' of
                Some (l, r'') \<Rightarrow> Some (0x10000 + (h - 0xD800) * 1024 + (l - 0xDC00), r'')
              | None \<Rightarrow> Some (h, r'))
            else Some (h, r'))
      else map_option (\<lambda>x. (x, r)) (short_escape c))"

lemma hex4_shorter: "hex4 s = Some (h, r) \<Longrightarrow> length r < length s"
  by (auto simp: hex4_def split: list.splits option.splits)

lemma low_surrogate_shorter: "low_surrogate s = Some (h, r) \<Longrightarrow> length r < length s"
  by (auto simp: low_surrogate_def split: if_splits option.splits dest: hex4_shorter)

lemma unescape_shorter: "unescape s = Some (h, r) \<Longrightarrow> length r < length s"
  by (auto simp: unescape_def split: list.splits if_splits option.splits
      dest!: hex4_shorter low_surrogate_shorter)

text \<open>\<open>scanstring\<close> after the opening quote; its strict mode refuses control characters.\<close>

function scan_string :: "codes \<Rightarrow> canon_error + codes \<times> codes" where
  "scan_string s = (case s of
     [] \<Rightarrow> invalid_json
   | c # r \<Rightarrow>
      if c = 34 then Inr ([], r)
      else if c = 92 then (case unescape r of
          None \<Rightarrow> invalid_json
        | Some (x, r') \<Rightarrow> bind_err (scan_string r') (\<lambda>(t, u). Inr (x # t, u)))
      else if c < 32 then invalid_json
      else bind_err (scan_string r) (\<lambda>(t, u). Inr (c # t, u)))"
  by pat_completeness auto
termination
  by (relation "measure length") (auto dest: unescape_shorter)

declare scan_string.simps [simp del]

lemma scan_string_shorter: "scan_string s = Inr (t, r) \<Longrightarrow> length r < length s"
proof (induction s arbitrary: t rule: scan_string.induct)
  case (1 s)
  show ?case
    using "1.prems" "1.IH"
    by (subst (asm) scan_string.simps)
      (fastforce simp: bind_err_Inr split: list.splits if_splits option.splits dest: unescape_shorter)
qed

text \<open>Numbers: an integer, or a float if a fraction or an exponent with digits follows.\<close>

definition is_digit_code :: "nat \<Rightarrow> bool" where
  "is_digit_code c \<longleftrightarrow> 48 \<le> c \<and> c \<le> 57"

definition fraction_length :: "codes \<Rightarrow> nat" where
  "fraction_length s = (case s of
     a # b # r \<Rightarrow> if a = 46 \<and> is_digit_code b then 1 + length (takeWhile is_digit_code (b # r)) else 0
   | _ \<Rightarrow> 0)"

definition exponent_length :: "codes \<Rightarrow> nat" where
  "exponent_length s = (case s of
     [] \<Rightarrow> 0
   | a # r \<Rightarrow>
      if a = 101 \<or> a = 69 then
        (let sign = (case r of b # _ \<Rightarrow> if b = 43 \<or> b = 45 then 1 else 0 | [] \<Rightarrow> 0);
             ds = takeWhile is_digit_code (drop sign r) in
         if ds = [] then 0 else 1 + sign + length ds)
      else 0)"

definition int_part :: "codes \<Rightarrow> codes option" where
  "int_part s = (case s of
     [] \<Rightarrow> None
   | c # r \<Rightarrow> if c = 48 then Some [48] else if is_digit_code c then Some (takeWhile is_digit_code s) else None)"

definition digits_number :: "codes \<Rightarrow> int" where
  "digits_number ds = foldl (\<lambda>a c. 10 * a + (int c - 48)) 0 ds"

definition INT_MAX_STR_DIGITS :: nat where "INT_MAX_STR_DIGITS = 4300"

definition match_number :: "(codes \<Rightarrow> bool) \<Rightarrow> codes \<Rightarrow> canon_error + jval \<times> codes" where
  "match_number fin s =
     (let negative = (case s of c # _ \<Rightarrow> c = 45 | [] \<Rightarrow> False); s1 = (if negative then tl s else s) in
      case int_part s1 of
        None \<Rightarrow> invalid_json
      | Some ds \<Rightarrow>
          (let s2 = drop (length ds) s1; n = fraction_length s2; m = exponent_length (drop n s2) in
           if n + m > 0
           then Inr (VFloat (fin (take (length s - length s1 + length ds + n + m) s)), drop (n + m) s2)
           else if length ds > INT_MAX_STR_DIGITS then Inl IntegerDigits
           else Inr (VInt (if negative then - digits_number ds else digits_number ds), s2)))"

lemma match_number_shorter: "match_number fin s = Inr (v, r) \<Longrightarrow> length r < length s"
  by (auto simp: match_number_def Let_def int_part_def split: list.splits if_splits)

text \<open>\<open>object_pairs_hook\<close>, run when an object closes.\<close>

definition reject_duplicate_keys :: "(codes \<times> jval) list \<Rightarrow> canon_error + jval" where
  "reject_duplicate_keys pairs =
     (if distinct (map fst pairs) then Inr (VObj pairs) else Inl (CanonicalizationError [] ''duplicate_key''))"

definition scan_literal :: "(codes \<Rightarrow> bool) \<Rightarrow> codes \<Rightarrow> canon_error + jval \<times> codes" where
  "scan_literal fin s =
     (if starts_with (codes_of ''null'') s then Inr (VNull, drop 4 s)
      else if starts_with (codes_of ''true'') s then Inr (VBool True, drop 4 s)
      else if starts_with (codes_of ''false'') s then Inr (VBool False, drop 5 s)
      else if starts_with (codes_of ''NaN'') s \<or> starts_with (codes_of ''Infinity'') s \<or>
              starts_with (codes_of ''-Infinity'') s
           then Inl (CanonicalizationError [] ''nan_or_infinity'')
      else match_number fin s)"

lemma scan_literal_shorter: "scan_literal fin s = Inr (v, r) \<Longrightarrow> length r < length s"
  by (auto simp: scan_literal_def split: if_splits dest: match_number_shorter starts_with_nonempty)

function (sequential) scan :: "(codes \<Rightarrow> bool) \<Rightarrow> nat \<Rightarrow> codes \<Rightarrow> canon_error + jval \<times> codes"
  and elems :: "(codes \<Rightarrow> bool) \<Rightarrow> nat \<Rightarrow> codes \<Rightarrow> canon_error + jval list \<times> codes"
  and members :: "(codes \<Rightarrow> bool) \<Rightarrow> nat \<Rightarrow> codes \<Rightarrow> canon_error + (codes \<times> jval) list \<times> codes"
where
  "scan fin d [] = invalid_json"
| "scan fin d (c # r) =
     (if c = 34 then bind_err (scan_string r) (\<lambda>(t, u). Inr (VStr t, u))
      else if c = 123 then
        (if d = 0 then Inl (CanonicalizationError [] ''too_deeply_nested'')
         else if skip_ws r \<noteq> [] \<and> hd (skip_ws r) = 125 then Inr (VObj [], tl (skip_ws r))
         else bind_err (members fin (d - 1) (skip_ws r)) (\<lambda>(kvs, u).
           bind_err (reject_duplicate_keys kvs) (\<lambda>v. Inr (v, u))))
      else if c = 91 then
        (if d = 0 then Inl (CanonicalizationError [] ''too_deeply_nested'')
         else if skip_ws r \<noteq> [] \<and> hd (skip_ws r) = 93 then Inr (VArr [], tl (skip_ws r))
         else bind_err (elems fin (d - 1) (skip_ws r)) (\<lambda>(vs, u). Inr (VArr vs, u)))
      else scan_literal fin (c # r))"
| "elems fin d s =
     bind_err (scan fin d s) (\<lambda>(v, r). case skip_ws r of
       [] \<Rightarrow> invalid_json
     | c # r' \<Rightarrow>
         if c = 93 then Inr ([v], r')
         else if c = 44 then bind_err (elems fin d (skip_ws r')) (\<lambda>(vs, u). Inr (v # vs, u))
         else invalid_json)"
| "members fin d [] = invalid_json"
| "members fin d (q # s) =
     (if q \<noteq> 34 then invalid_json
      else bind_err (scan_string s) (\<lambda>(k, r). case skip_ws r of
        [] \<Rightarrow> invalid_json
      | c # r' \<Rightarrow>
          if c \<noteq> 58 then invalid_json
          else bind_err (scan fin d (skip_ws r')) (\<lambda>(v, u). case skip_ws u of
            [] \<Rightarrow> invalid_json
          | e # u' \<Rightarrow>
              if e = 125 then Inr ([(k, v)], u')
              else if e = 44 then bind_err (members fin d (skip_ws u')) (\<lambda>(kvs, w). Inr ((k, v) # kvs, w))
              else invalid_json)))"
  by pat_completeness auto


lemma skip_ws_Cons: "skip_ws s = c # r \<Longrightarrow> length r < length s"
  using skip_ws_shorter [of s] by simp

lemma scan_shorter_dom:
  "scan_elems_members_dom (Inl (fin, d, s)) \<Longrightarrow> scan fin d s = Inr (v, r) \<Longrightarrow> length r < length s"
  "scan_elems_members_dom (Inr (Inl (fin, d, s))) \<Longrightarrow> elems fin d s = Inr (vs, r) \<Longrightarrow> length r < length s"
  "scan_elems_members_dom (Inr (Inr (fin, d, s))) \<Longrightarrow> members fin d s = Inr (kvs, r) \<Longrightarrow> length r < length s"
proof (induction fin d s and fin d s and fin d s arbitrary: v r and vs r and kvs r rule: scan_elems_members.pinduct)
  case (1 fin d)
  then show ?case by (simp add: scan.psimps)
next
  case (2 fin d c r v r')
  then show ?case
    using skip_ws_shorter [of r]
    by (auto simp: scan.psimps bind_err_Inr reject_duplicate_keys_def split: if_splits 
      dest!: scan_string_shorter scan_literal_shorter)
next
  case (3 fin d s vs r)
  have e: "elems fin d s = bind_err (scan fin d s) (\<lambda>(v, r). case skip_ws r of
       [] \<Rightarrow> invalid_json
     | c # r' \<Rightarrow>
         if c = 93 then Inr ([v], r')
         else if c = 44 then bind_err (elems fin d (skip_ws r')) (\<lambda>(vs, u). Inr (v # vs, u))
         else invalid_json)"
    using "3.hyps" by (simp add: elems.psimps)
  obtain v u c w where sc: "scan fin d s = Inr (v, u)" and w: "skip_ws u = c # w"
    using "3.prems" unfolding e by (auto simp: bind_err_Inr neq_Nil_conv split: list.splits)
  have "length w < length s" using "3.IH"(1) [OF sc] skip_ws_Cons [OF w] by simp
  moreover have "length r < length (skip_ws w)" if "c \<noteq> 93"
    using "3.prems" "3.IH"(2) [OF sc _ w that] that unfolding e sc
    by (auto simp: bind_err_Inr w split: if_splits)
  moreover have "r = w" if "c = 93" using "3.prems" that unfolding e sc by (simp add: w)
  ultimately show ?case using skip_ws_shorter [of w] by (cases "c = 93") auto
next
  case (4 fin d)
  then show ?case by (simp add: members.psimps)
next
  case (5 fin d q s kvs r)
  note e = members.psimps(2) [OF "5.hyps"]
  have q: "q = 34" using "5.prems" by (auto simp: e split: if_splits)
  note e' = e [unfolded q]
  obtain k y where sk: "scan_string s = Inr (k, y)"
    using "5.prems" [unfolded q] by (auto simp: e' bind_err_Inr)
  obtain c w where w0: "skip_ws y = c # w"
    using "5.prems" [unfolded q] by (cases "skip_ws y") (auto simp: e' sk)
  have w: "skip_ws y = c # w" "c = 58"
    using "5.prems" [unfolded q] by (auto simp: e' sk w0 split: if_splits)
  obtain v u where sc: "scan fin d (skip_ws w) = Inr (v, u)"
    using "5.prems" [unfolded q] by (auto simp: e' sk w bind_err_Inr)
  obtain c' w' where w': "skip_ws u = c' # w'"
    using "5.prems" [unfolded q] by (cases "skip_ws u") (auto simp: e' sk w sc)
  have le: "length w' < length s"
    using scan_string_shorter [OF sk] skip_ws_Cons [OF w(1)] skip_ws_shorter [of w]
      "5.IH"(1) [OF _ sk _ w(1) _ sc] skip_ws_Cons [OF w'] q w(2) by simp
  moreover have "length r < length (skip_ws w')" if "c' \<noteq> 125"
    using "5.prems" [unfolded q] "5.IH"(2) [OF _ sk _ w(1) _ sc _ w' that] that w(2) unfolding q e'
    by (auto simp: bind_err_Inr sk sc w w' split: if_splits)
  moreover have "r = w'" if "c' = 125"
    using "5.prems" [unfolded q] that unfolding e' by (simp add: sk sc w w')
  ultimately show ?case using skip_ws_shorter [of w'] by (cases "c' = 125") auto
qed

termination scan
proof (relation "measure (\<lambda>x. case x of Inl (f, d, s) \<Rightarrow> 2 * length s
      | Inr (Inl (f, d, s)) \<Rightarrow> 2 * length s + 1 | Inr (Inr (f, d, s)) \<Rightarrow> 2 * length s + 1)", goal_cases)
  case (2 fin d c r)
  then show ?case using skip_ws_shorter [of r] by simp
next
  case (3 fin d c r)
  then show ?case using skip_ws_shorter [of r] by simp
next
  case (5 fin d s a v r c r')
  then show ?case using scan_shorter_dom(1) [of fin d s v r] skip_ws_Cons [of r c r'] skip_ws_shorter [of r'] by simp
next
  case (6 fin d q s a k r c r')
  then show ?case using scan_string_shorter [of s k r] skip_ws_Cons [of r c r'] skip_ws_shorter [of r'] by simp
next
  case (7 fin d q s a k r c r' b v u e u')
  then show ?case
    using scan_string_shorter [of s k r] skip_ws_Cons [of r c r'] skip_ws_shorter [of r'] 
      scan_shorter_dom(1) [of fin d "skip_ws r'" v u] skip_ws_Cons [of u e u'] skip_ws_shorter [of u'] by simp
qed simp_all

definition loads :: "(codes \<Rightarrow> bool) \<Rightarrow> nat \<Rightarrow> codes \<Rightarrow> canon_error + jval" where
  "loads fin d s = bind_err (scan fin d (skip_ws s)) (\<lambda>(v, r).
     if skip_ws r = [] then Inr v else invalid_json)"

definition strict_parse :: "(codes \<Rightarrow> bool) \<Rightarrow> nat \<Rightarrow> bytes \<Rightarrow> canon_error + jval" where
  "strict_parse fin d bs = (case utf8_decode bs of
     None \<Rightarrow> Inl (CanonicalizationError [] ''invalid_utf8'')
   | Some s \<Rightarrow> loads fin d s)"

section \<open>Reading back what was written\<close>

fun points_ok :: "jval \<Rightarrow> bool" where
  "points_ok (VStr s) \<longleftrightarrow> (\<forall>c \<in> set s. c < 0x110000)"
| "points_ok (VArr vs) \<longleftrightarrow> (\<forall>v \<in> set vs. points_ok v)"
| "points_ok (VObj d) \<longleftrightarrow> (\<forall>e \<in> set d. points_ok (snd e))"
| "points_ok v \<longleftrightarrow> True"

text \<open>How deep a value nests, and the value with the entries of every object in sorted order:
  as Python values, where the order of a dict's entries does not count, they are equal.\<close>

fun depth :: "jval \<Rightarrow> nat" where
  "depth (VArr vs) = Suc (foldr max (map depth vs) 0)"
| "depth (VObj d) = Suc (foldr max (map (\<lambda>e. depth (snd e)) d) 0)"
| "depth v = 0"

fun canon :: "jval \<Rightarrow> jval" where
  "canon (VArr vs) = VArr (map canon vs)"
| "canon (VObj d) = VObj (sorted_entries (map (\<lambda>e. (fst e, canon (snd e))) d))"
| "canon v = v"

text \<open>UTF-8.\<close>

lemma sixes: "c div 4096 = c div 64 div 64" "c div 262144 = c div 64 div 64 div (64 :: nat)" for c :: nat
  by (simp_all add: flip: div_mult2_eq)

lemma utf8_parts:
  "c div 4096 * 4096 + c div 64 mod 64 * 64 + c mod 64 = (c :: nat)"
  "c div 262144 * 262144 + c div 4096 mod 64 * 4096 + c div 64 mod 64 * 64 + c mod 64 = c"
proof -
  let ?a = "c div 64" and ?b = "c div 64 div 64"
  have "c = ?a * 64 + c mod 64" "?a = ?b * 64 + ?a mod 64" "?b = ?b div 64 * 64 + ?b mod 64" by simp_all
  then show "c div 4096 * 4096 + c div 64 mod 64 * 64 + c mod 64 = c"
    "c div 262144 * 262144 + c div 4096 mod 64 * 4096 + c div 64 mod 64 * 64 + c mod 64 = c"
    unfolding sixes by linarith+
qed

lemma utf8_step_char:
  assumes "c < 0x110000" and "\<not> is_surrogate c"
  shows "utf8_step (utf8_char c @ r) = Some (c, r)"
proof -
  consider "c < 0x80" | "0x80 \<le> c" "c < 0x800" | "0x800 \<le> c" "c < 0x10000" | "0x10000 \<le> c"
    by linarith
  then show ?thesis
  proof cases
    case 1
    then show ?thesis by (simp add: utf8_char_def utf8_step_def)
  next
    case 2
    then show ?thesis by (simp add: utf8_char_def utf8_step_def cont_def) linarith
  next
    case 3
    then have "c div 4096 < 16" by (simp add: less_mult_imp_div_less)
    then show ?thesis using 3 assms utf8_parts(1) [of c] by (simp add: utf8_char_def utf8_step_def cont_def Let_def)
  next
    case 4
    have "c div 262144 < 5" using assms by (simp add: less_mult_imp_div_less)
    then show ?thesis using 4 assms utf8_parts(2) [of c] by (simp add: utf8_char_def utf8_step_def cont_def Let_def)
  qed
qed

lemma utf8_char_nonempty: "utf8_char c \<noteq> []"
  by (simp add: utf8_char_def)

lemma utf8_round_trip:
  "\<forall>c \<in> set s. c < 0x110000 \<and> \<not> is_surrogate c \<Longrightarrow> utf8_decode (utf8_encode s) = Some s"
proof (induction s)
  case Nil
  then show ?case by (simp add: utf8_encode_def utf8_decode.simps)
next
  case (Cons c s)
  then show ?case
    by (simp add: utf8_encode_def utf8_decode.simps [of "utf8_char c @ _"] utf8_char_nonempty utf8_step_char)
qed

text \<open>Strings.\<close>

lemma hex4_control:
  assumes "c < 32 \<or> c = 127"
  shows "hex4 (48 # 48 # hex_digit (c div 16) # hex_digit (c mod 16) # r) = Some (c, r)"
proof -
  have v: "hex_value (hex_digit n) = Some n" if "n < 16" for n
    using that by (auto simp: hex_value_def hex_digit_def)
  have z: "hex_value 48 = Some 0" by (simp add: hex_value_def)
  have "c div 16 < 16" using assms by auto
  then show ?thesis by (simp add: hex4_def v z)
qed

lemma scan_escaped:
  "scan_string (escape_char c @ s) = bind_err (scan_string s) (\<lambda>(t, u). Inr (c # t, u))"
proof (cases "c < 32 \<or> c = 127")
  case True
  have "unescape (117 # 48 # 48 # hex_digit (c div 16) # hex_digit (c mod 16) # s) = Some (c, s)"
    using True by (auto simp: unescape_def hex4_control)
  then show ?thesis
    using True by (subst scan_string.simps) (auto simp: escape_char_def unescape_def short_escape_def)
next
  case False
  then show ?thesis
    by (subst scan_string.simps) (auto simp: escape_char_def unescape_def short_escape_def)
qed

lemma scan_quoted: "scan_string (concat (map escape_char s) @ 34 # r) = Inr (s, r)"
  by (induction s) (simp_all add: scan_escaped scan_string.simps [of "34 # r"])

text \<open>Numbers.\<close>

definition delim :: "codes \<Rightarrow> bool" where
  "delim r \<longleftrightarrow> r = [] \<or> hd r \<in> {44, 93, 125}"

lemma digits_number_append: "digits_number (ds @ [c]) = 10 * digits_number ds + (int c - 48)"
  by (simp add: digits_number_def)

lemma of_digit_char: "n < 10 \<Longrightarrow> (of_char (digit_char n) :: nat) = 48 + n"
  by (simp add: digit_char_def)

lemma nat_text_codes:
  "set (codes_of (nat_text n)) \<subseteq> {48..57} \<and> digits_number (codes_of (nat_text n)) = int n \<and>
   codes_of (nat_text n) \<noteq> [] \<and> (hd (codes_of (nat_text n)) = 48 \<longrightarrow> n = 0)"
proof (induction n rule: nat_text.induct)
  case (1 n)
  show ?case
  proof (cases "n < 10")
    case True
    then show ?thesis by (simp add: nat_text.simps [of n] of_digit_char digits_number_def)
  next
    case False
    then have IH: "set (codes_of (nat_text (n div 10))) \<subseteq> {48..57}"
      "digits_number (codes_of (nat_text (n div 10))) = int (n div 10)"
      "nat_text (n div 10) \<noteq> []"
      "hd (codes_of (nat_text (n div 10))) = 48 \<longrightarrow> n div 10 = 0"
      using 1 by simp_all
    have t: "codes_of (nat_text n) = codes_of (nat_text (n div 10)) @ [48 + n mod 10]"
      using False by (simp add: nat_text.simps [of n] of_digit_char)
    have "10 * int (n div 10) + int (n mod 10) = int n" by presburger
    then show ?thesis
      using IH False unfolding t by (auto simp: digits_number_append hd_append)
  qed
qed

lemma nat_text_length: "n < 10 ^ k \<Longrightarrow> 0 < k \<Longrightarrow> length (nat_text n) \<le> k"
proof (induction n arbitrary: k rule: nat_text.induct)
  case (1 n)
  show ?case
  proof (cases "n < 10")
    case True
    then show ?thesis using "1.prems" by (simp add: nat_text.simps [of n])
  next
    case False
    then obtain j where k: "k = Suc j" "0 < j" using "1.prems"
      by (cases k; cases "k - 1") auto
    then have "n div 10 < 10 ^ j" using "1.prems" by (simp add: less_mult_imp_div_less mult.commute)
    then have "length (nat_text (n div 10)) \<le> j" using "1.IH" False k by simp
    then show ?thesis using False k by (simp add: nat_text.simps [of n])
  qed
qed

lemma int_part_nat:
  assumes "delim r"
  shows "int_part (codes_of (nat_text n) @ r) = Some (codes_of (nat_text n))"
proof -
  have dig: "\<forall>c \<in> set (codes_of (nat_text n)). is_digit_code c"
    using nat_text_codes [of n] by (auto simp: is_digit_code_def)
  have r: "takeWhile is_digit_code r = []"
    using assms by (cases r) (auto simp: delim_def is_digit_code_def)
  obtain c t where t: "codes_of (nat_text n) = c # t"
    using nat_text_codes [of n] by (cases "codes_of (nat_text n)") auto
  show ?thesis
  proof (cases "c = 48")
    case True
    then have "n = 0" using nat_text_codes [of n] t by simp
    then show ?thesis by (simp add: int_part_def nat_text.simps [of 0] of_digit_char)
  next
    case False
    have "takeWhile is_digit_code (codes_of (nat_text n) @ r) = codes_of (nat_text n)"
      using takeWhile_append2 [of "codes_of (nat_text n)" is_digit_code r, OF bspec [OF dig]] r by simp
    then show ?thesis using dig False by (simp add: int_part_def t)
  qed
qed

lemma delim_no_float: "delim r \<Longrightarrow> fraction_length r = 0 \<and> exponent_length r = 0"
  by (auto simp: delim_def fraction_length_def exponent_length_def split: list.split)

lemma match_int_text:
  assumes "SAFE_INT_MIN \<le> i" and "i \<le> SAFE_INT_MAX" and "delim r"
  shows "match_number fin (int_text i @ r) = Inr (VInt i, r)"
proof -
  define n where "n = nat (if i < 0 then - i else i)"
  have "n < 10 ^ 16" using assms by (auto simp: n_def SAFE_INT_MIN_def SAFE_INT_MAX_def)
  then have len: "length (nat_text n) \<le> INT_MAX_STR_DIGITS"
    using nat_text_length [of n 16] by (simp add: INT_MAX_STR_DIGITS_def)
  note ip = int_part_nat [OF assms(3), of n]
  have val: "digits_number (codes_of (nat_text n)) = int n" using nat_text_codes by blast
  obtain c t where t: "codes_of (nat_text n) = c # t" and c: "c \<noteq> 45"
    using nat_text_codes [of n] by (cases "codes_of (nat_text n)") auto
  show ?thesis
  proof (cases "i < 0")
    case True
    then have "int_text i = 45 # codes_of (nat_text n)" "int n = - i" by (simp_all add: int_text_def n_def)
    then show ?thesis using ip val len delim_no_float [OF assms(3)] by (simp add: match_number_def Let_def)
  next
    case False
    then have s: "int_text i = codes_of (nat_text n)" "int n = i" by (simp_all add: int_text_def n_def)
    have neg: "(case int_text i @ r of c # _ \<Rightarrow> c = 45 | [] \<Rightarrow> False) = False"
      using c by (simp add: s t)
    show ?thesis using ip val len delim_no_float [OF assms(3)] s(2)
      unfolding match_number_def neg by (simp add: Let_def s(1))
  qed
qed

text \<open>A text that is written starts with a character the scanner's loops do not mistake.\<close>

definition opener :: "codes \<Rightarrow> bool" where
  "opener t \<longleftrightarrow> t \<noteq> [] \<and> hd t \<notin> {9, 10, 13, 32, 93, 125}"

lemma opener_skip: "opener t \<Longrightarrow> skip_ws (t @ r) = t @ r"
  by (cases t) (auto simp: opener_def skip_ws_def is_ws_def)

lemma skip_ws_solid: "c \<in> {34, 44, 58, 93, 125} \<Longrightarrow> skip_ws (c # r) = c # r"
  by (auto simp: skip_ws_def is_ws_def)

lemma opener_int: "opener (int_text i)"
proof -
  have "opener (codes_of (nat_text n))" for n
    using nat_text_codes [of n] by (cases "codes_of (nat_text n)") (auto simp: opener_def)
  then show ?thesis by (auto simp: int_text_def opener_def)
qed

lemma encode_opener: "encode path v = Inr t \<Longrightarrow> opener t"
  using opener_int
  by (cases v) (auto simp: bind_err_Inr encode_string_def quoted_def opener_def split: if_splits)

lemma int_not_literal:
  "scan fin d (int_text i @ r) = match_number fin (int_text i @ r)"
proof -
  have d: "\<exists>c t. codes_of (nat_text n) = c # t \<and> 48 \<le> c \<and> c \<le> 57" for n
    using nat_text_codes [of n] by (cases "codes_of (nat_text n)") auto
  show ?thesis
  proof (cases "i < 0")
    case True
    obtain c t where "codes_of (nat_text (nat (- i))) = c # t" "48 \<le> c" "c \<le> 57"
      using d [of "nat (- i)"] by auto
    then show ?thesis using True by (simp add: int_text_def scan_literal_def starts_with_def)
  next
    case False
    obtain c t where "codes_of (nat_text (nat i)) = c # t" "48 \<le> c" "c \<le> 57"
      using d [of "nat i"] by auto
    then show ?thesis using False by (simp add: int_text_def scan_literal_def starts_with_def)
  qed
qed

lemma depth_item: "v \<in> set vs \<Longrightarrow> depth v \<le> foldr max (map depth vs) 0"
  by (induction vs) auto

lemma set_sorted_entries [simp]: "set (sorted_entries d) = set d"
  by (simp add: sorted_entries_def)

lemma depth_entry: "e \<in> set d \<Longrightarrow> depth (snd e) \<le> foldr max (map (\<lambda>e. depth (snd e)) d) 0"
  by (induction d) auto

abbreviation canon_entry :: "codes \<times> jval \<Rightarrow> codes \<times> jval" where
  "canon_entry e \<equiv> (fst e, canon (snd e))"

lemma sorted_entries_map: "sorted_entries (map canon_entry d) = map canon_entry (sorted_entries d)"
proof -
  have ins: "insort_key fst (canon_entry e) (map canon_entry d) = map canon_entry (insort_key fst e d)" for e d
    by (induction d) auto
  show ?thesis
    unfolding sorted_entries_def sort_key_def by (induction d) (simp_all add: ins)
qed

lemma distinct_sorted_entries: "distinct (map fst (sorted_entries d)) = distinct (map fst d)"
proof -
  have "mset (map fst (sorted_entries d)) = mset (map fst d)"
    by (simp add: sorted_entries_def)
  then show ?thesis by (metis mset_eq_imp_distinct_iff)
qed

lemma sorted_entries_Nil: "sorted_entries d = [] \<longleftrightarrow> d = []"
proof -
  have "length (sorted_entries d) = length d" by (simp add: sorted_entries_def)
  then show ?thesis by (metis length_0_conv)
qed

text \<open>The scanner reads back what was written, whatever follows a delimiter.\<close>

lemma scan_encoded:
  "encode path v = Inr t \<Longrightarrow> depth v \<le> n \<Longrightarrow> delim r \<Longrightarrow> scan fin n (t @ r) = Inr (canon v, r)"
  "encode_items path i vs = Inr t \<Longrightarrow> \<forall>v \<in> set vs. depth v \<le> n \<Longrightarrow> vs \<noteq> [] \<Longrightarrow>
     \<exists>t'. t = (if i = 0 then [] else [44]) @ t' \<and> opener t' \<and> elems fin n (t' @ 93 # r) = Inr (map canon vs, r)"
  "encode_members path fst_one d = Inr t \<Longrightarrow> \<forall>e \<in> set d. depth (snd e) \<le> n \<Longrightarrow> d \<noteq> [] \<Longrightarrow>
     \<exists>t'. t = (if fst_one then [] else [44]) @ t' \<and> opener t' \<and>
       members fin n (t' @ 125 # r) = Inr (map canon_entry d, r)"
proof (induction path v and path i vs and path fst_one d arbitrary: t n r and t n r and t n r
    rule: encode_encode_items_encode_members.induct)
  case (3 path i)
  then have "t = int_text i" "SAFE_INT_MIN \<le> i" "i \<le> SAFE_INT_MAX" by (auto split: if_splits)
  then show ?case using match_int_text 3 by (simp add: int_not_literal)
next
  case (5 path s)
  then have "t = 34 # concat (map escape_char s) @ [34]"
    by (simp add: encode_string_def quoted_def split: if_splits)
  then show ?case by (simp add: scan_quoted)
next
  case (6 path d)
  obtain u where u: "encode_members path True (sorted_entries d) = Inr u" "t = 123 # u @ [125]"
    and dist: "distinct (map fst d)" and g: "\<not> (\<exists>k \<in> set (map fst d). \<exists>c \<in> set k. 128 \<le> c)"
    using "6.prems"(1) by (auto simp: bind_err_Inr split: if_splits)
  obtain m where m: "n = Suc m" using "6.prems"(2) by (cases n) auto
  show ?case
  proof (cases "d = []")
    case True
    then have "u = []" using u by (simp add: sorted_entries_def)
    then show ?thesis using True m by (simp add: u skip_ws_solid sorted_entries_def)
  next
    case False
    have dep: "\<forall>e \<in> set (sorted_entries d). depth (snd e) \<le> m"
      using "6.prems"(2) depth_entry [of _ d] m by fastforce
    obtain t' where t': "u = t'" "opener t'"
      "members fin m (t' @ 125 # r) = Inr (map canon_entry (sorted_entries d), r)"
      using "6.IH" [OF g _ u(1) dep] dist False by (auto simp: sorted_entries_Nil)
    have hd: "hd (t' @ 125 # r) \<noteq> 125" using t'(2) by (cases t') (auto simp: opener_def)
    have ds: "distinct (map fst (map canon_entry (sorted_entries d)))"
      using dist by (simp add: distinct_sorted_entries comp_def)
    show ?thesis
      using t' hd ds m by (simp add: u opener_skip reject_duplicate_keys_def sorted_entries_map)
  qed
next
  case (7 path vs)
  obtain u where u: "encode_items path 0 vs = Inr u" "t = 91 # u @ [93]"
    using "7.prems"(1) by (auto simp: bind_err_Inr)
  obtain m where m: "n = Suc m" using "7.prems"(2) by (cases n) auto
  show ?case
  proof (cases "vs = []")
    case True
    then have "u = []" using u by simp
    then show ?thesis using True m by (simp add: u skip_ws_solid)
  next
    case False
    have dep: "\<forall>v \<in> set vs. depth v \<le> m"
      using "7.prems"(2) depth_item [of _ vs] m by fastforce
    obtain t' where t': "u = t'" "opener t'" "elems fin m (t' @ 93 # r) = Inr (map canon vs, r)"
      using "7.IH" [OF u(1) dep False] by auto
    have hd: "hd (t' @ 93 # r) \<noteq> 93" using t'(2) by (cases t') (auto simp: opener_def)
    show ?thesis using t' hd m by (simp add: u opener_skip)
  qed
next
  case (10 path i v vs)
  obtain tv tr where tv: "encode (item_path path i) v = Inr tv" and tr: "encode_items path (Suc i) vs = Inr tr"
    and t: "t = (if i = 0 then [] else [44]) @ tv @ tr"
    using "10.prems"(1) by (auto simp: bind_err_Inr)
  have "elems fin n ((tv @ tr) @ 93 # r) = Inr (map canon (v # vs), r)"
  proof (cases "vs = []")
    case True
    then have "scan fin n ((tv @ tr) @ 93 # r) = Inr (canon v, 93 # r)"
      using "10.IH"(1) [OF tv] "10.prems"(2) tr by (simp add: delim_def)
    then show ?thesis using True by (simp add: elems.simps [of _ _ "(tv @ tr) @ 93 # r"] skip_ws_solid)
  next
    case False
    then obtain t' where t': "tr = 44 # t'" "opener t'" "elems fin n (t' @ 93 # r) = Inr (map canon vs, r)"
      using "10.IH"(2) [OF tv tr] "10.prems"(2) by auto
    then have "scan fin n ((tv @ tr) @ 93 # r) = Inr (canon v, 44 # t' @ 93 # r)"
      using "10.IH"(1) [OF tv] "10.prems"(2) by (simp add: delim_def)
    then show ?thesis using t'
      by (simp add: elems.simps [of _ _ "(tv @ tr) @ 93 # r"] skip_ws_solid opener_skip)
  qed
  moreover have "opener (tv @ tr)" using encode_opener [OF tv] by (cases tv) (auto simp: opener_def)
  ultimately show ?case using t by auto
next
  case (12 path one k v d)
  obtain tv tr where tv: "encode (child_path path k) v = Inr tv" and tr: "encode_members path False d = Inr tr"
    and tk: "encode_string (child_path path k) k = Inr (quoted k)"
    and t: "t = (if one then [] else [44]) @ quoted k @ 58 # tv @ tr"
    using "12.prems"(1) by (auto simp: bind_err_Inr encode_string_def split: if_splits)
  have q: "(quoted k @ 58 # tv @ tr) @ 125 # r = 34 # concat (map escape_char k) @ 34 # 58 # tv @ tr @ 125 # r"
    by (simp add: quoted_def)
  have sk: "skip_ws (tv @ w) = tv @ w" for w using opener_skip [OF encode_opener [OF tv]] .
  have "members fin n ((quoted k @ 58 # tv @ tr) @ 125 # r) = Inr (map canon_entry ((k, v) # d), r)"
  proof (cases "d = []")
    case True
    then have "scan fin n (tv @ tr @ 125 # r) = Inr (canon v, 125 # r)"
      using "12.IH"(1) [OF tk tv] "12.prems"(2) tr by (simp add: delim_def)
    then show ?thesis using True unfolding q by (simp add: scan_quoted skip_ws_solid sk)
  next
    case False
    then obtain t' where t': "tr = 44 # t'" "opener t'" "members fin n (t' @ 125 # r) = Inr (map canon_entry d, r)"
      using "12.IH"(2) [OF tk tv tr] "12.prems"(2) by auto
    then have "scan fin n (tv @ tr @ 125 # r) = Inr (canon v, 44 # t' @ 125 # r)"
      using "12.IH"(1) [OF tk tv] "12.prems"(2) by (simp add: delim_def)
    then show ?thesis using t' unfolding q by (simp add: scan_quoted skip_ws_solid sk opener_skip)
  qed
  moreover have "opener (quoted k @ 58 # tv @ tr)" by (simp add: quoted_def opener_def)
  ultimately show ?case using t by auto
qed (auto simp: scan_literal_def starts_with_def split: if_splits)

text \<open>What is written is text the UTF-8 codec takes.\<close>

definition clean :: "codes \<Rightarrow> bool" where
  "clean t \<longleftrightarrow> (\<forall>c \<in> set t. c < 0x110000 \<and> \<not> is_surrogate c)"

lemma clean_simps [simp]:
  "clean []" "clean (c # t) \<longleftrightarrow> (c < 0x110000 \<and> \<not> is_surrogate c) \<and> clean t"
  "clean (t @ u) \<longleftrightarrow> clean t \<and> clean u"
  by (auto simp: clean_def)

lemma not_surrogate_ascii [simp]: "c < 128 \<Longrightarrow> \<not> is_surrogate c"
  by (simp add: is_surrogate_def)

lemma clean_escape: "c < 0x110000 \<and> \<not> is_surrogate c \<Longrightarrow> clean (escape_char c)"
  by (auto simp: escape_char_def hex_digit_def)

lemma clean_string:
  assumes "encode_string path s = Inr t" and "\<forall>c \<in> set s. c < 0x110000"
  shows "clean t"
proof -
  have "clean (concat (map escape_char s))"
    using assms by (induction s arbitrary: t) (auto simp: encode_string_def clean_escape split: if_splits)
  then show ?thesis using assms by (auto simp: encode_string_def quoted_def split: if_splits)
qed

lemma clean_int: "clean (int_text i)"
proof -
  have "clean (codes_of (nat_text n))" for n
    using nat_text_codes [of n] by (fastforce simp: clean_def subset_iff)
  then show ?thesis by (simp add: int_text_def)
qed

lemma encode_clean:
  "encode path v = Inr t \<Longrightarrow> points_ok v \<Longrightarrow> clean t"
  "encode_items path i vs = Inr t \<Longrightarrow> \<forall>v \<in> set vs. points_ok v \<Longrightarrow> clean t"
  "encode_members path fst_one d = Inr t \<Longrightarrow>
     \<forall>e \<in> set d. points_ok (snd e) \<and> (\<forall>c \<in> set (fst e). c < 128) \<Longrightarrow> clean t"
proof (induction path v and path i vs and path fst_one d arbitrary: t and t and t
    rule: encode_encode_items_encode_members.induct)
  case (12 path one k v d)
  then show ?case
    using clean_string [of "child_path path k" k] by (fastforce simp: bind_err_Inr)
qed (fastforce simp: bind_err_Inr clean_string clean_int split: if_splits)+

text \<open>Which values serialise, and how long the text can be.\<close>

fun encodable :: "jval \<Rightarrow> bool" where
  "encodable (VInt i) \<longleftrightarrow> SAFE_INT_MIN \<le> i \<and> i \<le> SAFE_INT_MAX"
| "encodable (VFloat fin) \<longleftrightarrow> False"
| "encodable (VStr s) \<longleftrightarrow> (\<forall>c \<in> set s. \<not> is_surrogate c)"
| "encodable (VArr vs) \<longleftrightarrow> (\<forall>v \<in> set vs. encodable v)"
| "encodable (VObj d) \<longleftrightarrow> (\<forall>e \<in> set d. encodable (snd e) \<and> (\<forall>c \<in> set (fst e). c < 128)) \<and> distinct (map fst d)"
| "encodable VOther \<longleftrightarrow> False"
| "encodable v \<longleftrightarrow> True"

fun weight :: "jval \<Rightarrow> nat" where
  "weight VNull = 4"
| "weight (VBool b) = 5"
| "weight (VInt i) = 17"
| "weight (VStr s) = 6 * length s + 2"
| "weight (VArr vs) = 2 + (\<Sum>v\<leftarrow>vs. weight v + 1)"
| "weight (VObj d) = 2 + (\<Sum>e\<leftarrow>d. 6 * length (fst e) + 4 + weight (snd e))"
| "weight v = 0"

lemma escape_length: "length (escape_char c) \<le> 6"
  by (simp add: escape_char_def)

lemma encode_string_ok:
  "(\<exists>t. encode_string path s = Inr t) \<longleftrightarrow> (\<forall>c \<in> set s. \<not> is_surrogate c)"
  "encode_string path s = Inr t \<Longrightarrow> length t \<le> 6 * length s + 2"
proof -
  show "(\<exists>t. encode_string path s = Inr t) \<longleftrightarrow> (\<forall>c \<in> set s. \<not> is_surrogate c)"
    by (auto simp: encode_string_def)
  have "length (concat (map escape_char s)) \<le> 6 * length s"
    using escape_length by (induction s) (auto simp: add_mono)
  then show "encode_string path s = Inr t \<Longrightarrow> length t \<le> 6 * length s + 2"
    by (auto simp: encode_string_def quoted_def split: if_splits)
qed

lemma int_text_length: "SAFE_INT_MIN \<le> i \<Longrightarrow> i \<le> SAFE_INT_MAX \<Longrightarrow> length (int_text i) \<le> 17"
proof -
  assume i: "SAFE_INT_MIN \<le> i" "i \<le> SAFE_INT_MAX"
  have "length (nat_text n) \<le> 16" if "n \<le> 9007199254740991" for n
    using nat_text_length [of n 16] that by simp
  from this [of "nat i"] this [of "nat (- i)"] show ?thesis
    using i by (auto simp: int_text_def nat_le_iff SAFE_INT_MIN_def SAFE_INT_MAX_def)
qed

lemma sum_sorted_entries: "(\<Sum>e\<leftarrow>sorted_entries d. f e) = (\<Sum>e\<leftarrow>d. f e)" for f :: "_ \<Rightarrow> nat"
proof -
  have "mset (map f (sorted_entries d)) = mset (map f d)" by (simp add: sorted_entries_def)
  then show ?thesis by (metis sum_mset_sum_list)
qed

lemma serialises:
  "(\<exists>t. encode path v = Inr t) \<longleftrightarrow> encodable v"
  "(\<exists>t. encode_items path i vs = Inr t) \<longleftrightarrow> (\<forall>v \<in> set vs. encodable v)"
  "(\<exists>t. encode_members path fst_one d = Inr t) \<longleftrightarrow>
     (\<forall>e \<in> set d. encodable (snd e) \<and> (\<forall>c \<in> set (fst e). \<not> is_surrogate c))"
proof (induction path v and path i vs and path fst_one d rule: encode_encode_items_encode_members.induct)
  case (6 path d)
  show ?case
  proof (cases "(\<exists>k \<in> set (map fst d). \<exists>c \<in> set k. 128 \<le> c) \<or> \<not> distinct (map fst d)")
    case True
    then have "\<nexists>t. encode path (VObj d) = Inr t" by auto
    moreover have "\<not> encodable (VObj d)" using True by (fastforce simp: not_less [symmetric])
    ultimately show ?thesis by blast
  next
    case False
    then have ascii: "\<forall>e \<in> set d. \<forall>c \<in> set (fst e). c < 128" by (auto simp: not_le)
    have "(\<exists>t. encode path (VObj d) = Inr t) \<longleftrightarrow> (\<exists>t. encode_members path True (sorted_entries d) = Inr t)"
      using False by (simp add: bind_err_Inr)
    also have "\<dots> \<longleftrightarrow> (\<forall>e \<in> set d. encodable (snd e) \<and> (\<forall>c \<in> set (fst e). \<not> is_surrogate c))"
      using "6.IH" False by simp
    finally show ?thesis using ascii False by auto
  qed
next
  case (12 path one k v d)
  then show ?case using encode_string_ok(1) [of "child_path path k" k] by (fastforce simp: bind_err_Inr)
qed (auto simp: bind_err_Inr encode_string_ok)

lemma encode_length:
  "encode path v = Inr t \<Longrightarrow> length t \<le> weight v"
  "encode_items path i vs = Inr t \<Longrightarrow> length t \<le> (\<Sum>v\<leftarrow>vs. weight v + 1)"
  "encode_members path fst_one d = Inr t \<Longrightarrow>
     length t \<le> (\<Sum>e\<leftarrow>d. 6 * length (fst e) + 4 + weight (snd e))"
proof (induction path v and path i vs and path fst_one d arbitrary: t and t and t
    rule: encode_encode_items_encode_members.induct)
  case (6 path d)
  then show ?case by (fastforce simp: bind_err_Inr sum_sorted_entries split: if_splits)
next
  case (10 path i v vs)
  then show ?case by (fastforce simp: bind_err_Inr)
next
  case (12 path one k v d)
  obtain a b c where p: "encode_string (child_path path k) k = Inr a" "encode (child_path path k) v = Inr b"
    "encode_members path False d = Inr c" and t: "t = (if one then [] else [44]) @ a @ [58] @ b @ c"
    using "12.prems" by (auto simp: bind_err_Inr)
  show ?case
    using "12.IH"(1) [OF p(1,2)] "12.IH"(2) [OF p] encode_string_ok(2) [OF p(1)] t by (simp add: split: if_splits)
next
  case (5 path s)
  then show ?case using encode_string_ok(2) [of path s t] by simp
qed (fastforce simp: bind_err_Inr int_text_length split: if_splits)+

lemma utf8_encode_length: "length (utf8_encode t) \<le> 4 * length t"
  by (induction t) (auto simp: utf8_encode_def utf8_char_def)

lemma jcs_exists: "encodable v \<Longrightarrow> \<exists>bs. restricted_jcs v = Inr bs \<and> length bs \<le> 4 * weight v"
  using serialises(1) [of "[]" v] encode_length(1) [of "[]" v] utf8_encode_length
  by (fastforce simp: restricted_jcs_def bind_err_Inr intro: order_trans)

text \<open>The order of entries does not reach the bytes.\<close>

lemma sorted_entries_idem: "sorted_entries (sorted_entries d) = sorted_entries d"
  by (simp add: sorted_entries_def sort_key_id_if_sorted)

lemma encode_canon:
  "encode path (canon v) = encode path v"
  "encode_items path i (map canon vs) = encode_items path i vs"
  "encode_members path fst_one (map canon_entry d) = encode_members path fst_one d"
proof (induction path v and path i vs and path fst_one d rule: encode_encode_items_encode_members.induct)
  case (6 path d)
  have keys: "map fst (map canon_entry d) = map fst d" by simp
  have "(\<exists>k \<in> set (map fst (sorted_entries (map canon_entry d))). \<exists>c \<in> set k. 128 \<le> c) \<longleftrightarrow>
      (\<exists>k \<in> set (map fst d). \<exists>c \<in> set k. 128 \<le> c)"
    by simp
  moreover have "distinct (map fst (sorted_entries (map canon_entry d))) = distinct (map fst d)"
    by (simp add: distinct_sorted_entries comp_def)
  ultimately show ?case
    using "6.IH" by (auto simp: sorted_entries_idem sorted_entries_map)
qed (simp_all cong: bind_err_cong)

lemma canonical_read_back:
  assumes "restricted_jcs v = Inr bs" and "points_ok v" and "depth v \<le> d"
  shows "strict_parse fin d bs = Inr (canon v)"
proof -
  obtain t where t: "encode [] v = Inr t" "bs = utf8_encode t"
    using assms(1) by (auto simp: restricted_jcs_def bind_err_Inr)
  have "utf8_decode bs = Some t"
    using utf8_round_trip encode_clean(1) [OF t(1) assms(2)] by (simp add: t(2) clean_def)
  moreover have "scan fin d t = Inr (canon v, [])"
    using scan_encoded(1) [OF t(1) assms(3), of "[]" fin] by (simp add: delim_def)
  moreover have "skip_ws t = t" using opener_skip [OF encode_opener [OF t(1)], of "[]"] by simp
  ultimately show ?thesis by (simp add: strict_parse_def loads_def skip_ws_def)
qed

text \<open>C8. Canonical bytes and values determine each other. If \<open>restricted_jcs\<close> serialises a value, the
  strict parser reads the bytes back as that value, with the entries of its objects in sorted
  order, whenever its recursion limit admits the value's nesting; and the bytes of another
  value are the same exactly if the two values differ at most in the order of entries. A
  signature over the bytes is therefore a signature over one value.\<close>
theorem canonical_bytes_exact:
  assumes "restricted_jcs v = Inr bs" and "points_ok v" and "points_ok w" and "depth v \<le> d"
  shows "strict_parse fin d bs = Inr (canon v) \<and> (restricted_jcs w = Inr bs \<longleftrightarrow> canon w = canon v)"
proof -
  have "canon w = canon v" if w: "restricted_jcs w = Inr bs"
    using canonical_read_back [OF assms(1,2), of "max (depth v) (depth w)" fin]
      canonical_read_back [OF w assms(3), of "max (depth v) (depth w)" fin] by simp
  moreover have "restricted_jcs w = Inr bs" if "canon w = canon v"
    using assms(1) encode_canon(1) [of "[]" w] encode_canon(1) [of "[]" v] that
    by (simp add: restricted_jcs_def)
  ultimately show ?thesis using canonical_read_back [OF assms(1,2,4)] by blast
qed

definition sample_object :: jval where
  "sample_object = VObj [(codes_of ''b'', VArr [VInt (- 7), VStr [0x1F600, 10]]), (codes_of ''a'', VBool True)]"

definition sample_bytes :: bytes where
  "sample_bytes = codes_of ''{'' @ [34, 97, 34] @ codes_of '':true,'' @ [34, 98, 34] @ codes_of '':[-7,'' @
     [34, 240, 159, 152, 128, 92, 110, 34, 93, 125]"

theorem canonical_bytes_exact_witness:
  "strict_parse (\<lambda>_. True) 2 sample_bytes = Inr (canon sample_object) \<and>
   restricted_jcs (canon sample_object) = Inr sample_bytes"
proof -
  have "restricted_jcs sample_object = Inr sample_bytes"
    by (simp add: restricted_jcs_def sample_object_def sample_bytes_def encode_string_def quoted_def
        escape_char_def sorted_entries_def child_path_def item_path_def int_text_def nat_text.simps
        SAFE_INT_MIN_def SAFE_INT_MAX_def is_surrogate_def utf8_encode_def utf8_char_def of_digit_char)
  moreover have "points_ok sample_object" "points_ok (canon sample_object)" "depth sample_object \<le> 2"
    "canon (canon sample_object) = canon sample_object"
    by (simp_all add: sample_object_def sorted_entries_def)
  ultimately show ?thesis
    using canonical_bytes_exact [of sample_object sample_bytes "canon sample_object" 2 "\<lambda>_. True"] by simp
qed

end
