(* ===== verification/Sealing.thy ===== *)
theory Sealing
  imports Canonical Store
begin

text \<open>
  Key identifiers (\<open>crypto/identity.py\<close>) and the sealing of envelopes (\<open>crypto/sealing.py\<close>).

  \<^item> The packages \<open>cryptography\<close>, \<open>base58\<close> and \<open>jsonschema\<close> are the fields of the record \<open>crypto\<close>,
    an argument of every function that uses them; \<open>crypto_laws\<close> is what their documentation
    promises, and \<open>toy_crypto\<close> shows that the promises can be kept together.
  \<^item> What \<open>os.urandom\<close> and key generation draw is the record \<open>draws\<close>.
  \<^item> \<open>base64\<close> is the standard library's: its decoder skips characters outside its alphabet.
  \<^item> The wiping of secrets from memory has no counterpart. The arguments are typed, so the
    \<open>isinstance\<close> checks are absent; \<open>SealRaised\<close> is a \<open>KeyError\<close> or \<open>TypeError\<close> on a part that the
    schema check has let through although it is missing or of another type.
\<close>

section \<open>Third-party functions\<close>

record crypto =
  sha256 :: "bytes \<Rightarrow> bytes"
  aes_seal :: "bytes \<Rightarrow> bytes \<Rightarrow> bytes \<Rightarrow> bytes \<Rightarrow> bytes"
  aes_open :: "bytes \<Rightarrow> bytes \<Rightarrow> bytes \<Rightarrow> bytes \<Rightarrow> bytes option"
  x_public :: "bytes \<Rightarrow> bytes"
  x_exchange :: "bytes \<Rightarrow> bytes \<Rightarrow> bytes option"
  hkdf :: "bytes \<Rightarrow> bytes \<Rightarrow> bytes \<Rightarrow> bytes"
  ed_public :: "bytes \<Rightarrow> bytes"
  ed_sign :: "bytes \<Rightarrow> bytes \<Rightarrow> bytes"
  ed_verify :: "bytes \<Rightarrow> bytes \<Rightarrow> bytes \<Rightarrow> bool"
  b58_encode :: "bytes \<Rightarrow> codes"
  b58_decode :: "codes \<Rightarrow> bytes option"
  schema_error :: "str \<Rightarrow> jval \<Rightarrow> (codes \<times> str) option"
  payload_error :: "codes \<Rightarrow> jval \<Rightarrow> (codes \<times> str) option"

section \<open>Base64url without padding\<close>

definition b64_char :: "nat \<Rightarrow> nat" where
  "b64_char n = (if n < 26 then 65 + n else if n < 52 then 71 + n else if n < 62 then n - 4
     else if n = 62 then 45 else 95)"

definition b64_value :: "nat \<Rightarrow> nat option" where
  "b64_value c =
     (if 65 \<le> c \<and> c \<le> 90 then Some (c - 65) else if 97 \<le> c \<and> c \<le> 122 then Some (c - 71)
      else if 48 \<le> c \<and> c \<le> 57 then Some (c + 4) else if c = 43 \<or> c = 45 then Some 62
      else if c = 47 \<or> c = 95 then Some 63 else None)"

fun b64url_encode :: "bytes \<Rightarrow> codes" where
  "b64url_encode [] = []"
| "b64url_encode [a] = [b64_char (a div 4), b64_char (a mod 4 * 16)]"
| "b64url_encode [a, b] = [b64_char (a div 4), b64_char (a mod 4 * 16 + b div 16), b64_char (b mod 16 * 4)]"
| "b64url_encode (a # b # c # r) =
     [b64_char (a div 4), b64_char (a mod 4 * 16 + b div 16), b64_char (b mod 16 * 4 + c div 64), b64_char (c mod 64)]
     @ b64url_encode r"

text \<open>\<open>binascii.a2b_base64\<close>, not strict: the position in the group of four, the bits left over and
  the padding characters seen.\<close>

fun a2b_base64 :: "nat \<Rightarrow> nat \<Rightarrow> nat \<Rightarrow> codes \<Rightarrow> bytes option" where
  "a2b_base64 q left pads [] = (if q = 0 then Some [] else None)"
| "a2b_base64 q left pads (c # s) =
     (if c = 61 then
        (if 2 \<le> q \<and> 4 \<le> q + pads + 1 then Some []
         else a2b_base64 q left (if 2 \<le> q then pads + 1 else pads) s)
      else case b64_value c of
        None \<Rightarrow> a2b_base64 q left pads s
      | Some v \<Rightarrow>
          (if q = 0 then a2b_base64 1 v 0 s
           else if q = 1 then map_option ((#) (left * 4 + v div 16)) (a2b_base64 2 (v mod 16) 0 s)
           else if q = 2 then map_option ((#) (left * 16 + v div 4)) (a2b_base64 3 (v mod 4) 0 s)
           else map_option ((#) (left * 64 + v)) (a2b_base64 0 0 0 s)))"

definition b64url_decode :: "codes \<Rightarrow> bytes option" where
  "b64url_decode t =
     (if (\<exists>c \<in> set t. 128 \<le> c) then None
      else a2b_base64 0 0 0 (t @ replicate ((4 - length t mod 4) mod 4) 61))"

section \<open>Identifiers of keys\<close>

definition MULTICODEC_ED25519 :: bytes where "MULTICODEC_ED25519 = [0xED, 0x01]"
definition MULTICODEC_X25519 :: bytes where "MULTICODEC_X25519 = [0xEC, 0x01]"
definition RAW_PUBKEY_LEN :: nat where "RAW_PUBKEY_LEN = 32"
definition IDENTITY_ID_PREFIX :: codes where "IDENTITY_ID_PREFIX = codes_of ''did:key:z''"
definition AGREEMENT_KEY_PREFIX :: codes where "AGREEMENT_KEY_PREFIX = codes_of ''z''"

definition identity_id_from_pubkey :: "crypto \<Rightarrow> bytes \<Rightarrow> codes option" where
  "identity_id_from_pubkey C raw =
     (if length raw \<noteq> RAW_PUBKEY_LEN then None
      else Some (IDENTITY_ID_PREFIX @ b58_encode C (MULTICODEC_ED25519 @ raw)))"

definition agreement_key_multibase_from_pubkey :: "crypto \<Rightarrow> bytes \<Rightarrow> codes option" where
  "agreement_key_multibase_from_pubkey C raw =
     (if length raw \<noteq> RAW_PUBKEY_LEN then None
      else Some (AGREEMENT_KEY_PREFIX @ b58_encode C (MULTICODEC_X25519 @ raw)))"

definition decode_multicodec :: "crypto \<Rightarrow> codes \<Rightarrow> bytes \<Rightarrow> bytes option" where
  "decode_multicodec C payload expected = (case b58_decode C payload of
     None \<Rightarrow> None
   | Some decoded \<Rightarrow>
       if take (length expected) decoded \<noteq> expected then None
       else if length (drop (length expected) decoded) \<noteq> RAW_PUBKEY_LEN then None
       else Some (drop (length expected) decoded))"

definition parse_identity_id :: "crypto \<Rightarrow> codes \<Rightarrow> bytes option" where
  "parse_identity_id C i =
     (if take (length IDENTITY_ID_PREFIX) i \<noteq> IDENTITY_ID_PREFIX then None
      else decode_multicodec C (drop (length IDENTITY_ID_PREFIX) i) MULTICODEC_ED25519)"

definition parse_agreement_key :: "crypto \<Rightarrow> codes \<Rightarrow> bytes option" where
  "parse_agreement_key C k =
     (if take (length AGREEMENT_KEY_PREFIX) k \<noteq> AGREEMENT_KEY_PREFIX \<or> length k < 2 then None
      else decode_multicodec C (drop (length AGREEMENT_KEY_PREFIX) k) MULTICODEC_X25519)"

section \<open>Sealing\<close>

datatype seal_error = SealingError str codes str | SealRaised str

definition CEK_BYTES :: nat where "CEK_BYTES = 32"
definition NONCE_BYTES :: nat where "NONCE_BYTES = 12"
definition MAX_PAYLOAD_BYTES :: nat where "MAX_PAYLOAD_BYTES = 240 * 1024"
definition MSG_WRAP_INFO :: bytes where "MSG_WRAP_INFO = codes_of ''muse-agent-social/v1/msg-wrap''"
definition ZERO32 :: bytes where "ZERO32 = replicate 32 0"

record recipient =
  rp_recipient :: codes
  rp_agreement_key :: codes
  rp_public :: bytes

record draws =
  dr_ephemeral :: bytes
  dr_cek :: bytes
  dr_nonce :: bytes
  dr_wrap_nonce :: "nat \<Rightarrow> bytes"

type_synonym fields = "(codes \<times> jval) list"

abbreviation sealing_error :: "str \<Rightarrow> seal_error + 'a" where
  "sealing_error code \<equiv> Inl (SealingError code [] [])"

definition canonical_or_raise :: "jval \<Rightarrow> seal_error + bytes" where
  "canonical_or_raise v = (case restricted_jcs v of
     Inl (CanonicalizationError path code) \<Rightarrow> Inl (SealingError ''not_canonical'' path code)
   | Inl IntegerDigits \<Rightarrow> Inl (SealRaised ''ValueError'')
   | Inr bs \<Rightarrow> Inr bs)"

definition exchange_or_reject :: "crypto \<Rightarrow> bytes \<Rightarrow> bytes \<Rightarrow> seal_error + bytes" where
  "exchange_or_reject C priv peer = (case x_exchange C priv peer of
     None \<Rightarrow> sealing_error ''low_order_key''
   | Some shared \<Rightarrow> if shared = ZERO32 then sealing_error ''low_order_key'' else Inr shared)"

definition entry_path :: "nat \<Rightarrow> codes" where
  "entry_path i = codes_of ''recipients['' @ codes_of (nat_text i) @ [93]"

definition check_recipient_entry :: "crypto \<Rightarrow> nat \<Rightarrow> recipient \<Rightarrow> seal_error + recipient" where
  "check_recipient_entry C i r =
     (if length (rp_public r) \<noteq> 32
      then Inl (SealingError ''bad_recipient'' (entry_path i @ codes_of ''.relationship_pub'') [])
      else if parse_identity_id C (rp_recipient r) = None
      then Inl (SealingError ''bad_recipient'' (entry_path i @ codes_of ''.recipient'') [])
      else case parse_agreement_key C (rp_agreement_key r) of
        None \<Rightarrow> Inl (SealingError ''bad_recipient'' (entry_path i @ codes_of ''.agreement_key'') [])
      | Some decoded \<Rightarrow>
          if decoded \<noteq> rp_public r then Inl (SealingError ''key_mismatch'' (entry_path i) []) else Inr r)"

primrec check_entries :: "crypto \<Rightarrow> nat \<Rightarrow> recipient list \<Rightarrow> seal_error + recipient list" where
  "check_entries C i [] = Inr []"
| "check_entries C i (r # rs) =
     bind_err (check_recipient_entry C i r) (\<lambda>r'. bind_err (check_entries C (Suc i) rs) (\<lambda>rs'. Inr (r' # rs')))"

definition wrap_aad :: "bytes \<Rightarrow> codes \<Rightarrow> codes \<Rightarrow> bytes" where
  "wrap_aad digest who key = digest @ utf8_encode who @ utf8_encode key"

record wrap =
  wr_recipient :: codes
  wr_agreement_key :: codes
  wr_nonce :: bytes
  wr_key :: bytes

definition wrap_one :: "crypto \<Rightarrow> draws \<Rightarrow> bytes \<Rightarrow> recipient \<Rightarrow> bytes \<Rightarrow> seal_error + wrap" where
  "wrap_one C dr digest r nonce =
     bind_err (exchange_or_reject C (dr_ephemeral dr) (rp_public r)) (\<lambda>shared.
       Inr \<lparr>wr_recipient = rp_recipient r, wr_agreement_key = rp_agreement_key r, wr_nonce = nonce,
         wr_key = aes_seal C (hkdf C shared digest MSG_WRAP_INFO) nonce (dr_cek dr)
           (wrap_aad digest (rp_recipient r) (rp_agreement_key r))\<rparr>)"

primrec wrap_all :: "crypto \<Rightarrow> draws \<Rightarrow> bytes \<Rightarrow> nat \<Rightarrow> recipient list \<Rightarrow> seal_error + wrap list" where
  "wrap_all C dr digest i [] = Inr []"
| "wrap_all C dr digest i (r # rs) =
     bind_err (wrap_one C dr digest r (dr_wrap_nonce dr i)) (\<lambda>w.
       bind_err (wrap_all C dr digest (Suc i) rs) (\<lambda>ws. Inr (w # ws)))"

definition wrap_value :: "wrap \<Rightarrow> jval" where
  "wrap_value w = VObj [(codes_of ''recipient'', VStr (wr_recipient w)),
     (codes_of ''agreement_key'', VStr (wr_agreement_key w)),
     (codes_of ''wrap_nonce'', VStr (b64url_encode (wr_nonce w))),
     (codes_of ''wrapped_key'', VStr (b64url_encode (wr_key w)))]"

definition sorted_wraps :: "wrap list \<Rightarrow> wrap list" where
  "sorted_wraps ws = sort_key wr_recipient (sort_key wr_agreement_key ws)"

definition envelope_fields :: "fields \<Rightarrow> wrap list \<Rightarrow> bytes \<Rightarrow> bytes \<Rightarrow> fields" where
  "envelope_fields header ws nonce ciphertext =
     [(codes_of ''protected'', VObj header),
      (codes_of ''recipients'', VArr (map wrap_value (sorted_wraps ws))),
      (codes_of ''content_nonce'', VStr (b64url_encode nonce)),
      (codes_of ''ciphertext'', VStr (b64url_encode ciphertext))]"

definition seal_sender :: "crypto \<Rightarrow> fields \<Rightarrow> bytes \<Rightarrow> seal_error + unit" where
  "seal_sender C protected sk =
     (case (case map_of protected (codes_of ''sender'') of Some (VStr i) \<Rightarrow> parse_identity_id C i | _ \<Rightarrow> None) of
        None \<Rightarrow> Inl (SealingError ''bad_sender'' (codes_of ''protected.sender'') [])
      | Some pub \<Rightarrow>
          if pub \<noteq> ed_public C sk then Inl (SealingError ''sender_key_mismatch'' (codes_of ''protected.sender'') [])
          else Inr ())"

definition sign_envelope :: "crypto \<Rightarrow> bytes \<Rightarrow> fields \<Rightarrow> seal_error + jval" where
  "sign_envelope C sk unsigned =
     bind_err (canonical_or_raise (VObj unsigned)) (\<lambda>text.
       let envelope = VObj (unsigned @ [(codes_of ''signature'', VStr (b64url_encode (ed_sign C sk text)))]) in
       case schema_error C ''event-envelope'' envelope of
         Some (path, code) \<Rightarrow> Inl (SealingError ''schema_invalid'' path code)
       | None \<Rightarrow> bind_err (canonical_or_raise envelope) (\<lambda>sealed.
           if length sealed > MAX_ENVELOPE_BYTES then sealing_error ''envelope_too_large'' else Inr envelope))"

definition seal_envelope :: "crypto \<Rightarrow> draws \<Rightarrow> fields \<Rightarrow> jval \<Rightarrow> bytes \<Rightarrow> recipient list \<Rightarrow> seal_error + jval" where
  "seal_envelope C dr protected payload sk recipients =
     (if recipients = [] then sealing_error ''no_recipients''
      else if length recipients > 2 then sealing_error ''too_many_recipients''
      else bind_err (seal_sender C protected sk) (\<lambda>_.
        bind_err (check_entries C 0 recipients) (\<lambda>entries.
        case agreement_key_multibase_from_pubkey C (x_public C (dr_ephemeral dr)) of
          None \<Rightarrow> Inl (SealRaised ''ValueError'')
        | Some ephemeral \<Rightarrow>
          (let header = dict_set (codes_of ''ephemeral_key'') (VStr ephemeral) protected in
           bind_err (canonical_or_raise payload) (\<lambda>payload_bytes.
             if length payload_bytes > MAX_PAYLOAD_BYTES then sealing_error ''payload_too_large''
             else bind_err (canonical_or_raise (VObj header)) (\<lambda>header_bytes.
               let digest = sha256 C header_bytes;
                   ciphertext = aes_seal C (dr_cek dr) (dr_nonce dr) payload_bytes digest in
               bind_err (wrap_all C dr digest 0 entries) (\<lambda>ws.
                 sign_envelope C sk (envelope_fields header ws (dr_nonce dr) ciphertext))))))))"

section \<open>Unsealing\<close>

datatype envelope_input = EnvBytes bytes | EnvDict jval

definition parse_envelope_input :: "(codes \<Rightarrow> bool) \<Rightarrow> nat \<Rightarrow> envelope_input \<Rightarrow> seal_error + jval" where
  "parse_envelope_input fin d inp = (case inp of
     EnvBytes data \<Rightarrow>
       if length data > MAX_ENVELOPE_BYTES then sealing_error ''envelope_too_large''
       else (case strict_parse fin d data of
         Inl (CanonicalizationError path code) \<Rightarrow> Inl (SealingError ''invalid_envelope'' [] code)
       | Inl IntegerDigits \<Rightarrow> Inl (SealRaised ''ValueError'')
       | Inr (VObj fs) \<Rightarrow> Inr (VObj fs)
       | Inr _ \<Rightarrow> Inl (SealingError ''invalid_envelope'' [] ''not_an_object''))
   | EnvDict (VObj fs) \<Rightarrow>
       bind_err (canonical_or_raise (VObj fs)) (\<lambda>raw.
         if length raw > MAX_ENVELOPE_BYTES then sealing_error ''envelope_too_large'' else Inr (VObj fs))
   | EnvDict _ \<Rightarrow> sealing_error ''bad_envelope_type'')"

text \<open>Subscripts of parsed objects, which the schema check has made safe.\<close>

definition obj_at :: "jval \<Rightarrow> str \<Rightarrow> seal_error + jval" where
  "obj_at v k = (case v of
     VObj fs \<Rightarrow> (case map_of fs (codes_of k) of None \<Rightarrow> Inl (SealRaised ''KeyError'') | Some x \<Rightarrow> Inr x)
   | _ \<Rightarrow> Inl (SealRaised ''TypeError''))"

definition text_at :: "jval \<Rightarrow> str \<Rightarrow> seal_error + codes" where
  "text_at v k = bind_err (obj_at v k) (\<lambda>x. case x of VStr t \<Rightarrow> Inr t | _ \<Rightarrow> Inl (SealRaised ''TypeError''))"

definition list_at :: "jval \<Rightarrow> str \<Rightarrow> seal_error + jval list" where
  "list_at v k = bind_err (obj_at v k) (\<lambda>x. case x of VArr vs \<Rightarrow> Inr vs | _ \<Rightarrow> Inl (SealRaised ''TypeError''))"

definition fields_at :: "jval \<Rightarrow> str \<Rightarrow> seal_error + fields" where
  "fields_at v k = bind_err (obj_at v k) (\<lambda>x. case x of VObj fs \<Rightarrow> Inr fs | _ \<Rightarrow> Inl (SealRaised ''TypeError''))"

definition without_signature :: "jval \<Rightarrow> jval" where
  "without_signature v = (case v of
     VObj fs \<Rightarrow> VObj (filter (\<lambda>e. fst e \<noteq> codes_of ''signature'') fs) | _ \<Rightarrow> v)"

definition check_signature :: "crypto \<Rightarrow> bytes \<Rightarrow> jval \<Rightarrow> seal_error + unit" where
  "check_signature C sender_pub env =
     bind_err (text_at env ''signature'') (\<lambda>t.
       case b64url_decode t of
         None \<Rightarrow> Inl (SealingError ''bad_signature'' (codes_of ''signature'') [])
       | Some signature \<Rightarrow>
           if length signature \<noteq> 64 then Inl (SealingError ''bad_signature'' (codes_of ''signature'') [])
           else bind_err (canonical_or_raise (without_signature env)) (\<lambda>text.
             if ed_verify C sender_pub signature text then Inr () else sealing_error ''bad_signature''))"

datatype 'a attempt = Opened 'a | Failed_with str | Attempt_raised str

text \<open>One wrap; a failure names the reason that is reported if no later wrap opens.\<close>

definition open_wrap :: "crypto \<Rightarrow> bytes \<Rightarrow> bytes \<Rightarrow> bytes \<Rightarrow> jval \<Rightarrow> bytes attempt" where
  "open_wrap C kek digest own_pub entry =
     (case (text_at entry ''agreement_key'', text_at entry ''recipient'',
            text_at entry ''wrap_nonce'', text_at entry ''wrapped_key'') of
        (Inr key, Inr who, Inr nonce_text, Inr key_text) \<Rightarrow>
          (case parse_agreement_key C key of
             None \<Rightarrow> Failed_with ''bad_agreement_key''
           | Some entry_key \<Rightarrow>
               (case (b64url_decode nonce_text, b64url_decode key_text) of
                  (Some nonce, Some wrapped) \<Rightarrow>
                    if length nonce \<noteq> NONCE_BYTES then Failed_with ''tampered_wrap''
                    else (case aes_open C kek nonce wrapped (wrap_aad digest who key) of
                        Some cek \<Rightarrow> Opened cek
                      | None \<Rightarrow> Failed_with (if entry_key \<noteq> own_pub then ''wrong_aad'' else ''tampered_wrap''))
                | _ \<Rightarrow> Failed_with ''tampered_wrap''))
      | _ \<Rightarrow> Attempt_raised ''KeyError'')"

primrec open_wraps :: "crypto \<Rightarrow> bytes \<Rightarrow> bytes \<Rightarrow> bytes \<Rightarrow> str \<Rightarrow> jval list \<Rightarrow> seal_error + bytes" where
  "open_wraps C kek digest own_pub failure [] = sealing_error failure"
| "open_wraps C kek digest own_pub failure (e # es) = (case open_wrap C kek digest own_pub e of
     Opened cek \<Rightarrow> Inr cek
   | Failed_with f \<Rightarrow> open_wraps C kek digest own_pub f es
   | Attempt_raised n \<Rightarrow> Inl (SealRaised n))"

definition names_recipient :: "codes \<Rightarrow> jval \<Rightarrow> bool" where
  "names_recipient me e \<longleftrightarrow> text_at e ''recipient'' = Inr me"

definition open_body :: "crypto \<Rightarrow> (codes \<Rightarrow> bool) \<Rightarrow> nat \<Rightarrow> bytes \<Rightarrow> bytes \<Rightarrow> jval \<Rightarrow> seal_error + jval" where
  "open_body C fin d cek digest env =
     bind_err (text_at env ''content_nonce'') (\<lambda>nonce_text.
     bind_err (text_at env ''ciphertext'') (\<lambda>cipher_text.
       case (b64url_decode nonce_text, b64url_decode cipher_text) of
         (Some nonce, Some ciphertext) \<Rightarrow>
           if length nonce \<noteq> NONCE_BYTES then Inl (SealingError ''tampered_body'' (codes_of ''content_nonce'') [])
           else (case aes_open C cek nonce ciphertext digest of
               None \<Rightarrow> sealing_error ''tampered_body''
             | Some payload_bytes \<Rightarrow> (case strict_parse fin d payload_bytes of
                 Inl (CanonicalizationError path code) \<Rightarrow> Inl (SealingError ''invalid_payload'' [] code)
               | Inl IntegerDigits \<Rightarrow> Inl (SealRaised ''ValueError'')
               | Inr (VObj fs) \<Rightarrow> Inr (VObj fs)
               | Inr _ \<Rightarrow> Inl (SealingError ''invalid_payload'' [] ''not_an_object'')))
       | _ \<Rightarrow> Inl (SealingError ''tampered_body'' (codes_of ''ciphertext'') [])))"

definition checked_payload :: "crypto \<Rightarrow> codes \<Rightarrow> jval \<Rightarrow> seal_error + jval" where
  "checked_payload C event_type payload = (case payload_error C event_type payload of
     Some (path, code) \<Rightarrow> Inl (SealingError ''payload_invalid'' path code) | None \<Rightarrow> Inr payload)"

definition unwrap_key :: "crypto \<Rightarrow> bytes \<Rightarrow> codes \<Rightarrow> bytes \<Rightarrow> bytes \<Rightarrow> jval \<Rightarrow> seal_error + bytes" where
  "unwrap_key C priv me ephemeral_pub digest env =
     bind_err (list_at env ''recipients'') (\<lambda>entries.
       if filter (names_recipient me) entries = [] then sealing_error ''unknown_recipient''
       else bind_err (exchange_or_reject C priv ephemeral_pub) (\<lambda>shared.
         open_wraps C (hkdf C shared digest MSG_WRAP_INFO) digest (x_public C priv) ''tampered_wrap''
           (filter (names_recipient me) entries)))"

definition unseal_envelope ::
  "crypto \<Rightarrow> (codes \<Rightarrow> bool) \<Rightarrow> nat \<Rightarrow> envelope_input \<Rightarrow> bytes \<Rightarrow> codes \<Rightarrow> seal_error + fields \<times> jval" where
  "unseal_envelope C fin d inp priv me =
     bind_err (parse_envelope_input fin d inp) (\<lambda>env.
     case schema_error C ''event-envelope'' env of
       Some (path, code) \<Rightarrow> Inl (SealingError ''schema_invalid'' path code)
     | None \<Rightarrow>
        bind_err (fields_at env ''protected'') (\<lambda>protected.
        bind_err (text_at (VObj protected) ''sender'') (\<lambda>sender.
        case parse_identity_id C sender of
          None \<Rightarrow> Inl (SealingError ''bad_sender'' (codes_of ''protected.sender'') [])
        | Some sender_pub \<Rightarrow>
        bind_err (text_at (VObj protected) ''ephemeral_key'') (\<lambda>ephemeral.
        case parse_agreement_key C ephemeral of
          None \<Rightarrow> Inl (SealingError ''bad_ephemeral_key'' (codes_of ''protected.ephemeral_key'') [])
        | Some ephemeral_pub \<Rightarrow>
        bind_err (check_signature C sender_pub env) (\<lambda>_.
        bind_err (canonical_or_raise (VObj protected)) (\<lambda>header_bytes.
          let digest = sha256 C header_bytes in
          bind_err (unwrap_key C priv me ephemeral_pub digest env) (\<lambda>cek.
          bind_err (open_body C fin d cek digest env) (\<lambda>payload.
          bind_err (text_at (VObj protected) ''event_type'') (\<lambda>event_type.
          bind_err (checked_payload C event_type payload) (\<lambda>p. Inr (protected, p)))))))))))"

section \<open>Reading encodings back\<close>

definition byte_list :: "bytes \<Rightarrow> bool" where
  "byte_list bs \<longleftrightarrow> (\<forall>b \<in> set bs. b < 256)"

lemma b64_value_char: "n < 64 \<Longrightarrow> b64_value (b64_char n) = Some n"
  by (auto simp: b64_value_def b64_char_def)

lemma b64_char_plain: "n < 64 \<Longrightarrow> b64_char n \<noteq> 61 \<and> b64_char n < 128"
  by (auto simp: b64_char_def)

lemma a2b_step:
  assumes "n < 64"
  shows "a2b_base64 q left pads (b64_char n # s) =
     (if q = 0 then a2b_base64 1 n 0 s
      else if q = 1 then map_option ((#) (left * 4 + n div 16)) (a2b_base64 2 (n mod 16) 0 s)
      else if q = 2 then map_option ((#) (left * 16 + n div 4)) (a2b_base64 3 (n mod 4) 0 s)
      else map_option ((#) (left * 64 + n)) (a2b_base64 0 0 0 s))"
  using assms by (simp add: b64_value_char b64_char_plain)

lemma b64_quarters:
  assumes "a < 256" "b < 256" "c < (256 :: nat)"
  shows "a div 4 < 64" "a mod 4 * 16 + b div 16 < 64" "b mod 16 * 4 + c div 64 < 64" "c mod 64 < 64"
    "a div 4 * 4 + (a mod 4 * 16 + b div 16) div 16 = a"
    "(a mod 4 * 16 + b div 16) mod 16 * 16 + (b mod 16 * 4 + c div 64) div 4 = b"
    "(b mod 16 * 4 + c div 64) mod 4 * 64 + c mod 64 = c"
proof -
  have lt: "a div 4 < 64" "b div 16 < 16" "c div 64 < 4" "a mod 4 < 4" "b mod 16 < 16"
    using assms by (simp_all add: less_mult_imp_div_less)
  show "a div 4 < 64" "c mod 64 < 64" using lt by simp_all
  show "a mod 4 * 16 + b div 16 < 64" "b mod 16 * 4 + c div 64 < 64" using lt by linarith+
  show "a div 4 * 4 + (a mod 4 * 16 + b div 16) div 16 = a"
    using lt div_less [OF lt(2)] by (simp del: div_less)
  show "(a mod 4 * 16 + b div 16) mod 16 * 16 + (b mod 16 * 4 + c div 64) div 4 = b"
    using lt div_less [OF lt(3)] by (simp del: div_less)
  show "(b mod 16 * 4 + c div 64) mod 4 * 64 + c mod 64 = c"
    using lt by simp
qed

lemma a2b_encoded:
  "byte_list raw \<Longrightarrow>
   a2b_base64 0 0 0 (b64url_encode raw @ replicate ((4 - length (b64url_encode raw) mod 4) mod 4) 61) = Some raw"
proof (induction raw rule: b64url_encode.induct)
  case (2 a)
  then have "a < 256" by (simp add: byte_list_def)
  then show ?case
    using b64_quarters [of a 0 0] by (simp add: a2b_step numeral_2_eq_2 del: a2b_base64.simps(2)) simp
next
  case (3 a b)
  then have "a < 256" "b < 256" by (simp_all add: byte_list_def)
  then show ?case
    using b64_quarters [of a b 0] by (simp add: a2b_step numeral_2_eq_2 del: a2b_base64.simps(2)) simp
next
  case (4 a b c r)
  then have "a < 256" "b < 256" "c < 256" by (simp_all add: byte_list_def)
  then show ?case
    using b64_quarters [of a b c] 4 by (simp add: a2b_step byte_list_def del: a2b_base64.simps(2))
qed simp

lemma b64url_encode_ascii: "byte_list raw \<Longrightarrow> \<forall>c \<in> set (b64url_encode raw). c < 128"
proof (induction raw rule: b64url_encode.induct)
  case (2 a)
  then show ?case using b64_quarters [of a 0 0] by (simp add: byte_list_def b64_char_plain)
next
  case (3 a b)
  then show ?case using b64_quarters [of a b 0] by (simp add: byte_list_def b64_char_plain)
next
  case (4 a b c r)
  then show ?case using b64_quarters [of a b c] by (simp add: byte_list_def b64_char_plain)
qed simp

lemma b64url_round_trip: "byte_list raw \<Longrightarrow> b64url_decode (b64url_encode raw) = Some raw"
  using a2b_encoded b64url_encode_ascii by (fastforce simp: b64url_decode_def)

text \<open>The decoder is not injective: it skips what is outside the alphabet.\<close>

lemma b64url_decode_skips: "b64url_decode (codes_of ''AAAA!'') = b64url_decode (codes_of ''AAAA'')"
  by code_simp

section \<open>What the packages promise\<close>

definition sound_crypto :: "crypto \<Rightarrow> bool" where
  "sound_crypto C \<longleftrightarrow>
     (\<forall>k n m a. aes_open C k n (aes_seal C k n m a) a = Some m) \<and>
     (\<forall>k k' n m a a'. (k', a') \<noteq> (k, a) \<longrightarrow> aes_open C k' n (aes_seal C k n m a) a' = None) \<and>
     (\<forall>k n m a. byte_list (aes_seal C k n m a)) \<and>
     (\<forall>a b. x_exchange C a (x_public C b) = x_exchange C b (x_public C a)) \<and>
     (\<forall>a. length (x_public C a) = 32 \<and> byte_list (x_public C a)) \<and>
     (\<forall>sk m. ed_verify C (ed_public C sk) (ed_sign C sk m) m) \<and>
     (\<forall>sk m. length (ed_sign C sk m) = 64 \<and> byte_list (ed_sign C sk m)) \<and>
     (\<forall>bs. byte_list bs \<longrightarrow> b58_decode C (b58_encode C bs) = Some bs \<and> (bs \<noteq> [] \<longrightarrow> b58_encode C bs \<noteq> [])) \<and>
     (\<forall>n v. schema_error C n v = None \<longrightarrow> schema_error C n (canon v) = None)"

definition good_draws :: "draws \<Rightarrow> bool" where
  "good_draws dr \<longleftrightarrow> length (dr_nonce dr) = NONCE_BYTES \<and> byte_list (dr_nonce dr) \<and>
     (\<forall>i. length (dr_wrap_nonce dr i) = NONCE_BYTES \<and> byte_list (dr_wrap_nonce dr i))"

lemma sound_cryptoD:
  assumes "sound_crypto C"
  shows "aes_open C k n (aes_seal C k n m a) a = Some m"
    "aes_open C k' n (aes_seal C k n m a) a' = (if (k', a') = (k, a) then Some m else None)"
    "byte_list (aes_seal C k n m a)" "x_exchange C x (x_public C y) = x_exchange C y (x_public C x)"
    "length (x_public C x) = 32" "byte_list (x_public C x)" "ed_verify C (ed_public C sk) (ed_sign C sk m) m"
    "length (ed_sign C sk m) = 64" "byte_list (ed_sign C sk m)"
    "byte_list bs \<Longrightarrow> b58_decode C (b58_encode C bs) = Some bs"
    "byte_list bs \<Longrightarrow> bs \<noteq> [] \<Longrightarrow> b58_encode C bs \<noteq> []"
    "schema_error C nm v = None \<Longrightarrow> schema_error C nm (canon v) = None"
  using assms unfolding sound_crypto_def by simp_all

section \<open>What was sealed is unsealed\<close>

text \<open>Subscripts of an object whose entries were sorted.\<close>

lemma map_of_sorted_entries:
  assumes "distinct (map fst d)"
  shows "map_of (sorted_entries d) k = map_of d k"
  using assms map_of_eqI [of "sorted_entries d" d]
  by (metis distinct_sorted_entries map_of_eq_Some_iff not_None_eq set_sorted_entries)

lemma map_of_canon_entries: "map_of (map canon_entry d) k = map_option canon (map_of d k)"
  by (induction d) auto

lemma obj_at_canon:
  assumes "distinct (map fst d)"
  shows "obj_at (canon (VObj d)) k = bind_err (obj_at (VObj d) k) (\<lambda>x. Inr (canon x))"
proof -
  have "distinct (map fst (map canon_entry d))" using assms by (simp add: comp_def)
  from map_of_sorted_entries [OF this, of "codes_of k"] show ?thesis
    by (simp add: obj_at_def map_of_canon_entries split: option.split)
qed

lemma text_at_canon:
  assumes "distinct (map fst d)"
  shows "text_at (canon (VObj d)) k = text_at (VObj d) k"
proof -
  have "(case canon x of VStr t \<Rightarrow> Inr t | _ \<Rightarrow> Inl (SealRaised ''TypeError'')) =
      (case x of VStr t \<Rightarrow> Inr t | _ \<Rightarrow> Inl (SealRaised ''TypeError''))" for x
    by (cases x) simp_all
  then show ?thesis
    unfolding text_at_def obj_at_canon [OF assms] by (cases "obj_at (VObj d) k") simp_all
qed

lemma at_Inr:
  "text_at v k = Inr t \<longleftrightarrow> obj_at v k = Inr (VStr t)"
  "list_at v k = Inr vs \<longleftrightarrow> obj_at v k = Inr (VArr vs)"
  "fields_at v k = Inr fs \<longleftrightarrow> obj_at v k = Inr (VObj fs)"
  unfolding text_at_def list_at_def fields_at_def
  by (cases "obj_at v k"; simp split: jval.split; metis)+

lemma list_at_canon:
  "distinct (map fst d) \<Longrightarrow> list_at (VObj d) k = Inr vs \<Longrightarrow> list_at (canon (VObj d)) k = Inr (map canon vs)"
  unfolding at_Inr obj_at_canon by simp

lemma fields_at_canon:
  "distinct (map fst d) \<Longrightarrow> fields_at (VObj d) k = Inr fs \<Longrightarrow>
   fields_at (canon (VObj d)) k = Inr (sorted_entries (map canon_entry fs))"
  unfolding at_Inr obj_at_canon by simp

lemma without_signature_canon:
  assumes "\<forall>e \<in> set d. fst e \<noteq> codes_of ''signature''"
  shows "without_signature (canon (VObj (d @ [(codes_of ''signature'', x)]))) = canon (VObj d)"
proof -
  have "filter (\<lambda>e. fst e \<noteq> codes_of ''signature'') (map canon_entry (d @ [(codes_of ''signature'', x)])) =
      map canon_entry d"
    using assms by (simp add: filter_id_conv)
  then show ?thesis
    by (simp add: without_signature_def sorted_entries_def filter_sort del: map_append)
qed

lemma canonical_canon: "canonical_or_raise (canon v) = canonical_or_raise v"
  by (simp add: canonical_or_raise_def restricted_jcs_def encode_canon)

lemma canonical_jcs: "canonical_or_raise v = Inr bs \<longleftrightarrow> restricted_jcs v = Inr bs"
  by (auto simp: canonical_or_raise_def split: sum.splits canon_error.splits)

lemma canonical_distinct: "canonical_or_raise (VObj d) = Inr bs \<Longrightarrow> distinct (map fst d)"
  by (auto simp: canonical_jcs restricted_jcs_def bind_err_Inr split: if_splits)

text \<open>The wraps.\<close>

lemma wrap_all_shape:
  "wrap_all C dr digest i rs = Inr ws \<Longrightarrow>
   (\<forall>w \<in> set ws. \<exists>r \<in> set rs. \<exists>j. wrap_one C dr digest r (dr_wrap_nonce dr j) = Inr w) \<and>
   (\<forall>r \<in> set rs. \<exists>w \<in> set ws. \<exists>j. wrap_one C dr digest r (dr_wrap_nonce dr j) = Inr w)"
proof (induction rs arbitrary: i ws)
  case (Cons r rs)
  then obtain w us where w: "wrap_one C dr digest r (dr_wrap_nonce dr i) = Inr w"
    "wrap_all C dr digest (Suc i) rs = Inr us" "ws = w # us"
    by (auto simp: bind_err_Inr)
  from Cons.IH [OF w(2)] w(1,3) show ?case by fastforce
qed simp

lemma check_entries_same: "check_entries C i rs = Inr es \<Longrightarrow> es = rs \<and> (\<forall>r \<in> set rs. \<exists>k. check_recipient_entry C k r = Inr r)"
proof (induction rs arbitrary: i es)
  case (Cons r rs)
  have "check_recipient_entry C k r = Inr r' \<Longrightarrow> r' = r" for k r'
    by (auto simp: check_recipient_entry_def split: if_splits option.splits)
  then show ?case using Cons by (fastforce simp: bind_err_Inr)
qed simp

lemma wrap_texts:
  "text_at (wrap_value w) ''recipient'' = Inr (wr_recipient w)"
  "text_at (wrap_value w) ''agreement_key'' = Inr (wr_agreement_key w)"
  "text_at (wrap_value w) ''wrap_nonce'' = Inr (b64url_encode (wr_nonce w))"
  "text_at (wrap_value w) ''wrapped_key'' = Inr (b64url_encode (wr_key w))"
  by (simp_all add: text_at_def obj_at_def wrap_value_def)

lemma wrap_texts_canon: "text_at (canon (wrap_value w)) k = text_at (wrap_value w) k"
  unfolding wrap_value_def by (rule text_at_canon) simp

lemma open_wrap_made:
  assumes "sound_crypto C" and "good_draws dr" and "check_recipient_entry C i r = Inr r"
    and "wrap_one C dr digest r (dr_wrap_nonce dr j) = Inr w"
  shows "wr_recipient w = rp_recipient r \<and>
    (\<exists>shared. exchange_or_reject C (dr_ephemeral dr) (rp_public r) = Inr shared \<and>
      (\<forall>kek own. open_wrap C kek digest own (canon (wrap_value w)) =
       (if kek = hkdf C shared digest MSG_WRAP_INFO then Opened (dr_cek dr)
        else Failed_with (if rp_public r \<noteq> own then ''wrong_aad'' else ''tampered_wrap''))))"
proof -
  obtain shared where sh: "exchange_or_reject C (dr_ephemeral dr) (rp_public r) = Inr shared"
    and w: "w = \<lparr>wr_recipient = rp_recipient r, wr_agreement_key = rp_agreement_key r,
      wr_nonce = dr_wrap_nonce dr j,
      wr_key = aes_seal C (hkdf C shared digest MSG_WRAP_INFO) (dr_wrap_nonce dr j) (dr_cek dr)
        (wrap_aad digest (rp_recipient r) (rp_agreement_key r))\<rparr>"
    using assms(4) by (auto simp: wrap_one_def bind_err_Inr)
  have k: "parse_agreement_key C (rp_agreement_key r) = Some (rp_public r)"
    using assms(3) by (auto simp: check_recipient_entry_def split: if_splits option.splits)
  have n: "length (dr_wrap_nonce dr j) = NONCE_BYTES" "byte_list (dr_wrap_nonce dr j)"
    using assms(2) by (simp_all add: good_draws_def)
  have "open_wrap C kek digest own (canon (wrap_value w)) =
       (if kek = hkdf C shared digest MSG_WRAP_INFO then Opened (dr_cek dr)
        else Failed_with (if rp_public r \<noteq> own then ''wrong_aad'' else ''tampered_wrap''))" for kek own
    unfolding open_wrap_def wrap_texts_canon wrap_texts
    by (simp add: w k n b64url_round_trip sound_cryptoD [OF assms(1)])
  then show ?thesis using sh by (auto simp: w)
qed

lemma open_wraps_find:
  assumes "\<forall>e \<in> set es. open_wrap C kek digest own e = Opened cek \<or> (\<exists>f. open_wrap C kek digest own e = Failed_with f)"
    and "\<exists>e \<in> set es. open_wrap C kek digest own e = Opened cek"
  shows "open_wraps C kek digest own failure es = Inr cek"
  using assms
proof (induction es arbitrary: failure)
  case (Cons e es)
  then show ?case by (cases "open_wrap C kek digest own e") auto
qed simp

lemma seal_parts:
  assumes "seal_envelope C dr protected payload sk rs = Inr env"
  obtains ephemeral header payload_bytes header_bytes digest ws E tx where
    "seal_sender C protected sk = Inr ()"
    "\<forall>r \<in> set rs. \<exists>k. check_recipient_entry C k r = Inr r"
    "agreement_key_multibase_from_pubkey C (x_public C (dr_ephemeral dr)) = Some ephemeral"
    "header = dict_set (codes_of ''ephemeral_key'') (VStr ephemeral) protected"
    "restricted_jcs payload = Inr payload_bytes"
    "canonical_or_raise (VObj header) = Inr header_bytes" "digest = sha256 C header_bytes"
    "wrap_all C dr digest 0 rs = Inr ws"
    "E = envelope_fields header ws (dr_nonce dr) (aes_seal C (dr_cek dr) (dr_nonce dr) payload_bytes digest)"
    "canonical_or_raise (VObj E) = Inr tx"
    "env = VObj (E @ [(codes_of ''signature'', VStr (b64url_encode (ed_sign C sk tx)))])"
    "schema_error C ''event-envelope'' env = None"
    "\<exists>bs. restricted_jcs env = Inr bs \<and> length bs \<le> MAX_ENVELOPE_BYTES"
proof -
  obtain es where e: "check_entries C 0 rs = Inr es" "seal_sender C protected sk = Inr ()"
    using assms by (auto simp: seal_envelope_def bind_err_Inr split: if_splits)
  have es: "es = rs" "\<forall>r \<in> set rs. \<exists>k. check_recipient_entry C k r = Inr r"
    using check_entries_same [OF e(1)] by simp_all
  obtain ephemeral where eph: "agreement_key_multibase_from_pubkey C (x_public C (dr_ephemeral dr)) = Some ephemeral"
    using assms by (auto simp: seal_envelope_def bind_err_Inr e split: if_splits option.splits)
  define header where "header = dict_set (codes_of ''ephemeral_key'') (VStr ephemeral) protected"
  obtain pb hb ws where p: "restricted_jcs payload = Inr pb"
    "canonical_or_raise (VObj header) = Inr hb" "wrap_all C dr (sha256 C hb) 0 rs = Inr ws"
    and s: "sign_envelope C sk (envelope_fields header ws (dr_nonce dr)
        (aes_seal C (dr_cek dr) (dr_nonce dr) pb (sha256 C hb))) = Inr env"
    using assms unfolding seal_envelope_def e eph bind_err_simps option.case es header_def [symmetric] Let_def
    by (auto simp: bind_err_Inr canonical_jcs split: if_splits)
  define E where "E = envelope_fields header ws (dr_nonce dr) (aes_seal C (dr_cek dr) (dr_nonce dr) pb (sha256 C hb))"
  obtain tx where t: "canonical_or_raise (VObj E) = Inr tx"
    using s unfolding E_def [symmetric] sign_envelope_def by (auto simp: bind_err_Inr)
  define env' where "env' = VObj (E @ [(codes_of ''signature'', VStr (b64url_encode (ed_sign C sk tx)))])"
  have v: "env = env'" "schema_error C ''event-envelope'' env = None"
    "\<exists>bs. restricted_jcs env = Inr bs \<and> length bs \<le> MAX_ENVELOPE_BYTES"
    using s unfolding E_def [symmetric] sign_envelope_def t bind_err_simps Let_def env'_def [symmetric]
    by (auto simp: bind_err_Inr canonical_jcs split: option.splits prod.splits if_splits)
  show ?thesis
    by (rule that [OF e(2) es(2) eph header_def p(1,2) refl p(3) E_def t _ v(2,3)]) (simp add: v env'_def)
qed

lemma parse_own_multibase:
  assumes "sound_crypto C" and "agreement_key_multibase_from_pubkey C pub = Some key" and "byte_list pub"
  shows "parse_agreement_key C key = Some pub"
proof -
  have key: "key = AGREEMENT_KEY_PREFIX @ b58_encode C (MULTICODEC_X25519 @ pub)" "length pub = 32"
    using assms(2) by (auto simp: agreement_key_multibase_from_pubkey_def RAW_PUBKEY_LEN_def split: if_splits)
  have b: "byte_list (MULTICODEC_X25519 @ pub)" using assms(3) by (auto simp: byte_list_def MULTICODEC_X25519_def)
  have "b58_encode C (MULTICODEC_X25519 @ pub) \<noteq> []"
    using sound_cryptoD(11) [OF assms(1) b] by (simp add: MULTICODEC_X25519_def)
  then show ?thesis
    using sound_cryptoD(10) [OF assms(1) b] key
    by (simp add: parse_agreement_key_def decode_multicodec_def AGREEMENT_KEY_PREFIX_def RAW_PUBKEY_LEN_def
        Suc_le_eq)
qed

lemma set_sorted_wraps [simp]: "set (sorted_wraps ws) = set ws"
  by (simp add: sorted_wraps_def)

lemma unwrap_made:
  assumes "sound_crypto C" and "good_draws dr" and "\<forall>r \<in> set rs. \<exists>k. check_recipient_entry C k r = Inr r"
    and "wrap_all C dr digest 0 rs = Inr ws" and "r \<in> set rs" and "rp_public r = x_public C priv"
    and "list_at env ''recipients'' = Inr (map canon (map wrap_value (sorted_wraps ws)))"
  shows "unwrap_key C priv (rp_recipient r) (x_public C (dr_ephemeral dr)) digest env = Inr (dr_cek dr)"
proof -
  define es where "es = filter (names_recipient (rp_recipient r)) (map canon (map wrap_value (sorted_wraps ws)))"
  have made: "\<exists>r' \<in> set rs. \<exists>j k. wrap_one C dr digest r' (dr_wrap_nonce dr j) = Inr w \<and>
      check_recipient_entry C k r' = Inr r'" if "w \<in> set ws" for w
    using wrap_all_shape [OF assms(4)] assms(3) that by blast
  obtain w j k where w: "w \<in> set ws" "wrap_one C dr digest r (dr_wrap_nonce dr j) = Inr w"
    "check_recipient_entry C k r = Inr r"
    using wrap_all_shape [OF assms(4)] assms(3,5) by blast
  obtain shared where sh: "exchange_or_reject C (dr_ephemeral dr) (rp_public r) = Inr shared"
    and opens: "open_wrap C (hkdf C shared digest MSG_WRAP_INFO) digest (x_public C priv) (canon (wrap_value w)) =
      Opened (dr_cek dr)"
    and who: "wr_recipient w = rp_recipient r"
    using open_wrap_made [OF assms(1,2) w(3,2)] by auto
  have sh': "exchange_or_reject C priv (x_public C (dr_ephemeral dr)) = Inr shared"
    using sh sound_cryptoD(4) [OF assms(1), of "dr_ephemeral dr" priv] by (simp add: exchange_or_reject_def assms(6))
  have mem: "canon (wrap_value w) \<in> set es"
    using w(1) who by (simp add: es_def names_recipient_def wrap_texts_canon wrap_texts)
  have "open_wraps C (hkdf C shared digest MSG_WRAP_INFO) digest (x_public C priv) ''tampered_wrap'' es = Inr (dr_cek dr)"
  proof (rule open_wraps_find)
    show "\<exists>e \<in> set es. open_wrap C (hkdf C shared digest MSG_WRAP_INFO) digest (x_public C priv) e = Opened (dr_cek dr)"
      using mem opens by blast
    show "\<forall>e \<in> set es. open_wrap C (hkdf C shared digest MSG_WRAP_INFO) digest (x_public C priv) e = Opened (dr_cek dr) \<or>
      (\<exists>f. open_wrap C (hkdf C shared digest MSG_WRAP_INFO) digest (x_public C priv) e = Failed_with f)"
    proof
      fix e
      assume "e \<in> set es"
      then obtain v where v: "v \<in> set ws" "e = canon (wrap_value v)" by (auto simp: es_def)
      obtain r' j' k' where "wrap_one C dr digest r' (dr_wrap_nonce dr j') = Inr v"
        "check_recipient_entry C k' r' = Inr r'"
        using made [OF v(1)] by blast
      from open_wrap_made [OF assms(1,2) this(2,1)] obtain s where
        "\<forall>kek own. open_wrap C kek digest own (canon (wrap_value v)) =
          (if kek = hkdf C s digest MSG_WRAP_INFO then Opened (dr_cek dr)
           else Failed_with (if rp_public r' \<noteq> own then ''wrong_aad'' else ''tampered_wrap''))"
        by blast
      then show "open_wrap C (hkdf C shared digest MSG_WRAP_INFO) digest (x_public C priv) e = Opened (dr_cek dr) \<or>
        (\<exists>f. open_wrap C (hkdf C shared digest MSG_WRAP_INFO) digest (x_public C priv) e = Failed_with f)"
        unfolding v(2) by (cases "hkdf C shared digest MSG_WRAP_INFO = hkdf C s digest MSG_WRAP_INFO") simp_all
    qed
  qed
  moreover have "es \<noteq> []" using mem by auto
  ultimately show ?thesis unfolding unwrap_key_def assms(7) bind_err_simps sh' es_def [symmetric] by simp
qed

text \<open>The envelope as the receiver parses it: its entries sorted.\<close>

definition envelope_of :: "fields \<Rightarrow> bytes \<Rightarrow> jval" where
  "envelope_of E signature = VObj (E @ [(codes_of ''signature'', VStr (b64url_encode signature))])"

lemma envelope_parts:
  fixes header ws nonce ciphertext signature
  defines "E \<equiv> envelope_fields header ws nonce ciphertext"
  defines "env \<equiv> canon (envelope_of E signature)"
  shows "fields_at env ''protected'' = Inr (sorted_entries (map canon_entry header))"
    "list_at env ''recipients'' = Inr (map canon (map wrap_value (sorted_wraps ws)))"
    "text_at env ''signature'' = Inr (b64url_encode signature)"
    "text_at env ''content_nonce'' = Inr (b64url_encode nonce)"
    "text_at env ''ciphertext'' = Inr (b64url_encode ciphertext)"
    "without_signature env = canon (VObj E)"
proof -
  have dist: "distinct (map fst (E @ [(codes_of ''signature'', VStr (b64url_encode signature))]))"
    by (simp add: E_def envelope_fields_def)
  have at: "obj_at (envelope_of E signature) ''protected'' = Inr (VObj header)"
    "obj_at (envelope_of E signature) ''recipients'' = Inr (VArr (map wrap_value (sorted_wraps ws)))"
    "obj_at (envelope_of E signature) ''signature'' = Inr (VStr (b64url_encode signature))"
    "obj_at (envelope_of E signature) ''content_nonce'' = Inr (VStr (b64url_encode nonce))"
    "obj_at (envelope_of E signature) ''ciphertext'' = Inr (VStr (b64url_encode ciphertext))"
    by (simp_all add: obj_at_def envelope_of_def E_def envelope_fields_def)
  show "fields_at env ''protected'' = Inr (sorted_entries (map canon_entry header))"
    unfolding env_def envelope_of_def
    by (rule fields_at_canon [OF dist]) (use at(1) in \<open>simp add: at_Inr envelope_of_def\<close>)
  show "list_at env ''recipients'' = Inr (map canon (map wrap_value (sorted_wraps ws)))"
    unfolding env_def envelope_of_def
    by (rule list_at_canon [OF dist]) (use at(2) in \<open>simp add: at_Inr envelope_of_def\<close>)
  show "text_at env ''signature'' = Inr (b64url_encode signature)"
    "text_at env ''content_nonce'' = Inr (b64url_encode nonce)"
    "text_at env ''ciphertext'' = Inr (b64url_encode ciphertext)"
    unfolding env_def envelope_of_def text_at_canon [OF dist]
    using at by (simp_all add: at_Inr envelope_of_def)
  show "without_signature env = canon (VObj E)"
    unfolding env_def envelope_of_def
    by (rule without_signature_canon) (simp add: E_def envelope_fields_def)
qed

text \<open>C4. What is sealed is unsealed. If \<open>seal_envelope\<close> succeeds, its envelope serialises within
  the size limit, and every recipient it was sealed for, holding the private key of the public key
  given for it, unseals those bytes to the sealed header, completed by the ephemeral key, and the
  payload (both up to the order of entries), provided the payload passes its schema. This rests on
  the named promises of the cryptographic packages and holds for one and for two wraps.\<close>
theorem seal_then_unseal:
  assumes "sound_crypto C" and "good_draws dr"
    and "seal_envelope C dr protected payload sk rs = Inr env"
    and "r \<in> set rs" and "rp_public r = x_public C priv"
    and "map_of protected (codes_of ''event_type'') = Some (VStr ty)"
    and "payload = VObj fs" and "payload_error C ty (canon payload) = None"
    and "points_ok env" and "points_ok payload" and "depth env \<le> d" and "depth payload \<le> d"
  shows "\<exists>bs ephemeral header. restricted_jcs env = Inr bs \<and> length bs \<le> MAX_ENVELOPE_BYTES \<and>
    VObj header = canon (VObj (dict_set (codes_of ''ephemeral_key'') (VStr ephemeral) protected)) \<and>
    unseal_envelope C fin d (EnvBytes bs) priv (rp_recipient r) = Inr (header, canon payload)"
proof -
  obtain ephemeral header payload_bytes header_bytes digest ws E tx where
    s: "seal_sender C protected sk = Inr ()"
    and rs: "\<forall>r \<in> set rs. \<exists>k. check_recipient_entry C k r = Inr r"
    and eph: "agreement_key_multibase_from_pubkey C (x_public C (dr_ephemeral dr)) = Some ephemeral"
    and header: "header = dict_set (codes_of ''ephemeral_key'') (VStr ephemeral) protected"
    and pb: "restricted_jcs payload = Inr payload_bytes"
    and hb: "canonical_or_raise (VObj header) = Inr header_bytes" and digest: "digest = sha256 C header_bytes"
    and ws: "wrap_all C dr digest 0 rs = Inr ws"
    and E: "E = envelope_fields header ws (dr_nonce dr) (aes_seal C (dr_cek dr) (dr_nonce dr) payload_bytes digest)"
    and tx: "canonical_or_raise (VObj E) = Inr tx"
    and env: "env = envelope_of E (ed_sign C sk tx)"
    and sch: "schema_error C ''event-envelope'' env = None"
    and size: "\<exists>bs. restricted_jcs env = Inr bs \<and> length bs \<le> MAX_ENVELOPE_BYTES"
    by (rule seal_parts [OF assms(3), folded envelope_of_def])
  note parts = envelope_parts [of header ws "dr_nonce dr" "aes_seal C (dr_cek dr) (dr_nonce dr) payload_bytes digest"
      "ed_sign C sk tx", folded E env]
  note laws = sound_cryptoD [OF assms(1)]
  obtain bs where bs: "restricted_jcs env = Inr bs" "length bs \<le> MAX_ENVELOPE_BYTES" using size by blast
  have parsed: "parse_envelope_input fin d (EnvBytes bs) = Inr (canon env)"
    using canonical_read_back [OF bs(1) assms(9,11), of fin] bs(2)
    by (simp add: parse_envelope_input_def env envelope_of_def)
  define H where "H = sorted_entries (map canon_entry header)"
  have canonH: "VObj H = canon (VObj header)" by (simp add: H_def)
  have hdr: "text_at (VObj H) k = text_at (VObj header) k" for k
    unfolding canonH by (rule text_at_canon [OF canonical_distinct [OF hb]])
  obtain sender where snd: "map_of protected (codes_of ''sender'') = Some (VStr sender)"
    "parse_identity_id C sender = Some (ed_public C sk)"
    using s by (auto simp: seal_sender_def split: option.splits jval.splits if_splits)
  have texts: "text_at (VObj H) ''sender'' = Inr sender" "text_at (VObj H) ''ephemeral_key'' = Inr ephemeral"
    "text_at (VObj H) ''event_type'' = Inr ty"
    unfolding hdr at_Inr obj_at_def header using snd(1) assms(6) by simp_all
  have ephk: "parse_agreement_key C ephemeral = Some (x_public C (dr_ephemeral dr))"
    using parse_own_multibase [OF assms(1) eph laws(6)] .
  have sig: "check_signature C (ed_public C sk) (canon env) = Inr ()"
    unfolding check_signature_def parts(3,6) canonical_canon tx
    by (simp add: b64url_round_trip laws)
  have hb': "canonical_or_raise (VObj H) = Inr header_bytes" by (simp only: canonH canonical_canon hb)
  note key = unwrap_made [OF assms(1,2) rs ws assms(4,5) parts(2)]
  have body: "open_body C fin d (dr_cek dr) digest (canon env) = Inr (canon payload)"
    using canonical_read_back [OF pb assms(10,12), of fin] assms(2,7)
    by (simp add: open_body_def parts(4,5) b64url_round_trip good_draws_def laws)
  have "unseal_envelope C fin d (EnvBytes bs) priv (rp_recipient r) = Inr (H, canon payload)"
    unfolding unseal_envelope_def parsed bind_err_simps laws(12) [OF sch] option.case
      parts(1) [folded H_def] texts snd(2) ephk sig hb' Let_def digest [symmetric] key body checked_payload_def assms(8)
    by simp
  then show ?thesis using bs canonH header by blast
qed

text \<open>The promises can be kept together: functions that keep them all, though nothing secret.\<close>

fun varint :: "nat \<Rightarrow> bytes" where
  "varint n = (if n < 128 then [128 + n] else (n mod 128) # varint (n div 128))"

declare varint.simps [simp del]

fun unvar :: "bytes \<Rightarrow> nat list" where
  "unvar [] = []"
| "unvar (b # bs) = (if 128 \<le> b then (b - 128) # unvar bs
     else (case unvar bs of [] \<Rightarrow> [b] | x # xs \<Rightarrow> (b + 128 * x) # xs))"

definition toy_seal :: "bytes \<Rightarrow> bytes \<Rightarrow> bytes \<Rightarrow> bytes \<Rightarrow> bytes" where
  "toy_seal k n m a = concat (map varint (length k # k @ length n # n @ length a # a @ m))"

definition toy_open :: "bytes \<Rightarrow> bytes \<Rightarrow> bytes \<Rightarrow> bytes \<Rightarrow> bytes option" where
  "toy_open k n c a = (let h = length k # k @ length n # n @ length a # a; t = unvar c in
     if take (length h) t = h then Some (drop (length h) t) else None)"

lemma unvar_varint: "unvar (varint n @ r) = n # unvar r"
proof (induction n rule: varint.induct)
  case (1 n)
  then show ?case by (cases "n < 128") (simp_all add: varint.simps [of n])
qed

lemma unvar_sealed: "unvar (concat (map varint xs)) = xs"
  by (induction xs) (simp_all add: unvar_varint)

lemma varint_bytes: "byte_list (varint n)"
proof (induction n rule: varint.induct)
  case (1 n)
  then show ?case by (cases "n < 128") (simp_all add: varint.simps [of n] byte_list_def less_trans [of _ 128])
qed

definition toy_crypto :: crypto where
  "toy_crypto = \<lparr>sha256 = \<lambda>m. [0], aes_seal = toy_seal, aes_open = toy_open,
     x_public = \<lambda>k. replicate 32 9, x_exchange = \<lambda>k p. Some [1], hkdf = \<lambda>s d i. [2],
     ed_public = \<lambda>k. replicate 32 5, ed_sign = \<lambda>k m. replicate 64 0, ed_verify = \<lambda>p s m. s = replicate 64 0,
     b58_encode = id, b58_decode = Some, schema_error = \<lambda>n v. None, payload_error = \<lambda>n v. None\<rparr>"

lemma toy_open_sealed: "toy_open k' n (toy_seal k n m a) a' = (if (k', a') = (k, a) then Some m else None)"
proof -
  have t: "unvar (toy_seal k n m a) = length k # k @ length n # n @ length a # a @ m"
    unfolding toy_seal_def by (rule unvar_sealed)
  show ?thesis
  proof (cases "(k', a') = (k, a)")
    case True
    then show ?thesis by (simp add: toy_open_def t Let_def)
  next
    case False
    have "take (length (length k' # k' @ length n # n @ length a' # a')) (length k # k @ length n # n @ length a # a @ m)
        \<noteq> length k' # k' @ length n # n @ length a' # a'"
    proof
      assume "take (length (length k' # k' @ length n # n @ length a' # a')) (length k # k @ length n # n @ length a # a @ m)
        = length k' # k' @ length n # n @ length a' # a'"
      then obtain z where "length k # k @ length n # n @ length a # a @ m =
          (length k' # k' @ length n # n @ length a' # a') @ z"
        by (metis append_take_drop_id)
      then show False using False by auto
    qed
    then show ?thesis using False by (simp add: toy_open_def t Let_def)
  qed
qed

lemma toy_seal_bytes: "byte_list (toy_seal k n m a)"
  using varint_bytes by (fastforce simp: byte_list_def toy_seal_def)

lemma toy_sound: "sound_crypto toy_crypto"
  unfolding sound_crypto_def toy_crypto_def
  by (simp add: toy_open_sealed toy_seal_bytes) (simp add: byte_list_def)

definition toy_draws :: draws where
  "toy_draws = \<lparr>dr_ephemeral = [1], dr_cek = [7], dr_nonce = replicate 12 2, dr_wrap_nonce = \<lambda>i. replicate 12 3\<rparr>"


definition toy_id :: codes where
  "toy_id = codes_of ''did:key:z'' @ [0xED, 0x01] @ replicate 32 5"

definition toy_header :: fields where
  "toy_header = [(codes_of ''sender'', VStr toy_id), (codes_of ''event_type'', VStr (codes_of ''message.created''))]"

definition toy_recipient :: recipient where
  "toy_recipient = \<lparr>rp_recipient = toy_id, rp_agreement_key = [122, 0xEC, 0x01] @ replicate 32 9,
     rp_public = replicate 32 9\<rparr>"

definition toy_payload :: jval where
  "toy_payload = VObj [(codes_of ''body'', VStr (codes_of ''hi''))]"

lemmas toy_defs = toy_crypto_def toy_draws_def toy_id_def toy_header_def toy_recipient_def toy_payload_def

lemma rep: "replicate 32 x = [x, x, x, x, x, x, x, x, x, x, x, x, x, x, x, x, x, x, x, x, x, x, x, x, x, x, x, x, x, x, x, x]"
  "replicate 12 x = [x, x, x, x, x, x, x, x, x, x, x, x]"
  "replicate 64 x = replicate 32 x @ replicate 32 x"
  by (simp_all add: numeral_eq_Suc)

lemma canonical_exists:
  "encodable v \<Longrightarrow> 4 * weight v \<le> n \<Longrightarrow> \<exists>bs. canonical_or_raise v = Inr bs \<and> length bs \<le> n"
  using jcs_exists [of v] by (fastforce simp: canonical_jcs)

lemma b64url_encode_length: "length (b64url_encode r) \<le> 2 * length r + 2"
  by (induction r rule: b64url_encode.induct) auto

lemma b64url_encode_plain: "byte_list r \<Longrightarrow> c \<in> set (b64url_encode r) \<Longrightarrow> \<not> is_surrogate c \<and> c < 1114112"
  using b64url_encode_ascii [of r] by (auto simp: is_surrogate_def)

definition toy_body :: bytes where
  "toy_body = codes_of ''{'' @ [34] @ codes_of ''body'' @ [34, 58, 34] @ codes_of ''hi'' @ [34] @ codes_of ''}''"

definition toy_cipher :: bytes where
  "toy_cipher = toy_seal [7] (replicate 12 2) toy_body [0]"

definition toy_wrap :: wrap where
  "toy_wrap = \<lparr>wr_recipient = toy_id, wr_agreement_key = rp_agreement_key toy_recipient, wr_nonce = replicate 12 3,
     wr_key = toy_seal [2] (replicate 12 3) [7] (wrap_aad [0] toy_id (rp_agreement_key toy_recipient))\<rparr>"

definition toy_unsigned :: "fields \<Rightarrow> fields" where
  "toy_unsigned header = envelope_fields header [toy_wrap] (replicate 12 2) toy_cipher"

lemma toy_bytes:
  "byte_list (wr_key toy_wrap)" "byte_list toy_cipher" "byte_list (replicate 12 3)" "byte_list (replicate 12 2)"
  "byte_list (replicate 64 0)" "length (wr_key toy_wrap) \<le> 200" "length toy_cipher \<le> 200"
  by (simp_all add: toy_wrap_def toy_cipher_def toy_seal_bytes)
    (simp_all add: byte_list_def toy_seal_def toy_body_def wrap_aad_def toy_id_def toy_recipient_def utf8_encode_def
      utf8_char_def varint.simps rep)

lemmas toy_plain = toy_bytes(1-5) [THEN b64url_encode_plain]

lemma toy_envelope:
  assumes "encodable (VObj header)" and "weight (VObj header) \<le> 10000"
  shows "encodable (VObj (toy_unsigned header))" "encodable (envelope_of (toy_unsigned header) (replicate 64 0))"
    "4 * weight (VObj (toy_unsigned header)) \<le> MAX_ENVELOPE_BYTES"
    "4 * weight (envelope_of (toy_unsigned header) (replicate 64 0)) \<le> MAX_ENVELOPE_BYTES"
proof -
  have who: "wr_recipient toy_wrap = toy_id" "wr_agreement_key toy_wrap = rp_agreement_key toy_recipient"
    "wr_nonce toy_wrap = replicate 12 3" by (simp_all add: toy_wrap_def)
  have ids: "\<forall>c \<in> set toy_id. \<not> is_surrogate c" "\<forall>c \<in> set (rp_agreement_key toy_recipient). \<not> is_surrogate c"
    "length toy_id = 43" "length (rp_agreement_key toy_recipient) = 35"
    by (auto simp: toy_id_def toy_recipient_def is_surrogate_def)
  have wrap: "encodable (wrap_value toy_wrap)"
    using ids toy_plain by (auto simp: wrap_value_def who)
  show "encodable (VObj (toy_unsigned header))" "encodable (envelope_of (toy_unsigned header) (replicate 64 0))"
    using assms(1) wrap toy_plain
    by (auto simp: toy_unsigned_def envelope_fields_def sorted_wraps_def envelope_of_def simp del: encodable.simps(5))
      (auto dest!: toy_plain)
  have "weight (wrap_value toy_wrap) \<le> 4000"
    using ids toy_bytes(6) b64url_encode_length [of "wr_key toy_wrap"] b64url_encode_length [of "replicate 12 3"]
    by (simp add: wrap_value_def who)
  then show "4 * weight (VObj (toy_unsigned header)) \<le> MAX_ENVELOPE_BYTES"
    "4 * weight (envelope_of (toy_unsigned header) (replicate 64 0)) \<le> MAX_ENVELOPE_BYTES"
    using assms(2) toy_bytes(7) b64url_encode_length [of toy_cipher] b64url_encode_length [of "replicate 12 2"]
      b64url_encode_length [of "replicate 64 0"]
    by (simp_all add: toy_unsigned_def envelope_fields_def sorted_wraps_def envelope_of_def MAX_ENVELOPE_BYTES_def
        del: weight.simps(6))
      (simp_all add: algebra_simps)
qed

lemma toy_seals:
  fixes protected
  defines "header \<equiv> dict_set (codes_of ''ephemeral_key'') (VStr (rp_agreement_key toy_recipient)) protected"
  assumes "map_of protected (codes_of ''sender'') = Some (VStr toy_id)"
    and "encodable (VObj header)" and "weight (VObj header) \<le> 10000"
  shows "seal_envelope toy_crypto toy_draws protected toy_payload [5] [toy_recipient] =
      Inr (envelope_of (toy_unsigned header) (replicate 64 0))" (is ?sealed)
    "\<exists>bs. canonical_or_raise (envelope_of (toy_unsigned header) (replicate 64 0)) = Inr bs" (is ?bytes)
proof -
  have "parse_identity_id toy_crypto toy_id = Some (replicate 32 5)" "ed_public toy_crypto [5] = replicate 32 5"
    by (simp_all add: toy_defs parse_identity_id_def decode_multicodec_def IDENTITY_ID_PREFIX_def
        MULTICODEC_ED25519_def RAW_PUBKEY_LEN_def)
  then have "seal_sender toy_crypto protected [5] = Inr ()"
    unfolding seal_sender_def assms(2) by simp
  moreover have "check_entries toy_crypto 0 [toy_recipient] = Inr [toy_recipient]"
    "agreement_key_multibase_from_pubkey toy_crypto (x_public toy_crypto (dr_ephemeral toy_draws)) =
       Some (rp_agreement_key toy_recipient)"
    by (simp_all add: check_recipient_entry_def toy_defs parse_identity_id_def
        parse_agreement_key_def decode_multicodec_def agreement_key_multibase_from_pubkey_def
        IDENTITY_ID_PREFIX_def AGREEMENT_KEY_PREFIX_def MULTICODEC_ED25519_def MULTICODEC_X25519_def RAW_PUBKEY_LEN_def)
  ultimately have parts: "seal_sender toy_crypto protected [5] = Inr ()"
    "check_entries toy_crypto 0 [toy_recipient] = Inr [toy_recipient]"
    "agreement_key_multibase_from_pubkey toy_crypto (x_public toy_crypto (dr_ephemeral toy_draws)) =
       Some (rp_agreement_key toy_recipient)"
    by blast+
  have pb: "canonical_or_raise toy_payload = Inr toy_body" "length toy_body \<le> MAX_PAYLOAD_BYTES"
    by (simp_all add: canonical_or_raise_def restricted_jcs_def encode_string_def quoted_def toy_payload_def
        escape_char_def sorted_entries_def child_path_def is_surrogate_def utf8_encode_def utf8_char_def toy_body_def
        MAX_PAYLOAD_BYTES_def)
  obtain hb where hb: "canonical_or_raise (VObj header) = Inr hb"
    using canonical_exists [OF assms(3) order_refl] by blast
  have ws: "wrap_all toy_crypto toy_draws (sha256 toy_crypto hb) 0 [toy_recipient] = Inr [toy_wrap]"
    by (simp add: wrap_one_def exchange_or_reject_def ZERO32_def rep toy_crypto_def toy_draws_def toy_wrap_def
        toy_recipient_def)
  note env = toy_envelope [OF assms(3,4)]
  obtain tx where tx: "canonical_or_raise (VObj (toy_unsigned header)) = Inr tx"
    using canonical_exists [OF env(1,3)] by blast
  obtain bs where bs: "canonical_or_raise (envelope_of (toy_unsigned header) (replicate 64 0)) = Inr bs"
    "length bs \<le> MAX_ENVELOPE_BYTES"
    using canonical_exists [OF env(2,4)] by blast
  have "sign_envelope toy_crypto [5] (toy_unsigned header) = Inr (envelope_of (toy_unsigned header) (replicate 64 0))"
    using bs by (simp add: sign_envelope_def tx envelope_of_def toy_crypto_def)
  moreover have "toy_unsigned header = envelope_fields header [toy_wrap] (dr_nonce toy_draws)
      (aes_seal toy_crypto (dr_cek toy_draws) (dr_nonce toy_draws) toy_body (sha256 toy_crypto hb))"
    by (simp add: toy_unsigned_def toy_cipher_def toy_crypto_def toy_draws_def)
  ultimately show ?sealed
    unfolding seal_envelope_def parts bind_err_simps option.case Let_def header_def [symmetric] pb(1) hb(1) ws
    using pb(2) by simp
  show ?bytes using bs by blast
qed

lemma toy_sealed:
  "\<exists>env. seal_envelope toy_crypto toy_draws toy_header toy_payload [5] [toy_recipient] = Inr env \<and>
     points_ok env \<and> depth env \<le> 9"
proof -
  define header where "header = dict_set (codes_of ''ephemeral_key'') (VStr (rp_agreement_key toy_recipient)) toy_header"
  have small: "map_of toy_header (codes_of ''sender'') = Some (VStr toy_id)" "encodable (VObj header)"
    "weight (VObj header) \<le> 10000" "points_ok (VObj header)" "depth (VObj header) \<le> 1"
    by (auto simp: header_def toy_header_def toy_recipient_def toy_id_def is_surrogate_def)
  have ids: "\<forall>c \<in> set (wr_recipient toy_wrap). c < 1114112" "\<forall>c \<in> set (wr_agreement_key toy_wrap). c < 1114112"
    "wr_nonce toy_wrap = replicate 12 3"
    by (auto simp: toy_wrap_def toy_id_def toy_recipient_def)
  have "points_ok (envelope_of (toy_unsigned header) (replicate 64 0))"
    using small(4) ids by (auto simp: envelope_of_def toy_unsigned_def envelope_fields_def sorted_wraps_def
        wrap_value_def dest!: toy_plain)
  moreover have "depth (envelope_of (toy_unsigned header) (replicate 64 0)) \<le> 9"
    using small(5) by (simp add: envelope_of_def toy_unsigned_def envelope_fields_def sorted_wraps_def wrap_value_def)
  ultimately show ?thesis
    using toy_seals(1) [OF small(1) small(2,3) [unfolded header_def]] by (simp add: header_def)
qed

theorem seal_then_unseal_witness:
  "\<exists>env bs header. seal_envelope toy_crypto toy_draws toy_header toy_payload [5] [toy_recipient] = Inr env \<and>
     restricted_jcs env = Inr bs \<and>
     unseal_envelope toy_crypto (\<lambda>_. True) 9 (EnvBytes bs) [9] toy_id = Inr (header, toy_payload)"
proof -
  obtain env where env: "seal_envelope toy_crypto toy_draws toy_header toy_payload [5] [toy_recipient] = Inr env"
    "points_ok env" "depth env \<le> 9"
    using toy_sealed by blast
  have "good_draws toy_draws" by (simp add: good_draws_def toy_draws_def NONCE_BYTES_def byte_list_def)
  moreover have "map_of toy_header (codes_of ''event_type'') = Some (VStr (codes_of ''message.created''))"
    by (simp add: toy_header_def)
  moreover have "canon toy_payload = toy_payload" "points_ok toy_payload" "depth toy_payload \<le> 9"
    by (simp_all add: toy_payload_def sorted_entries_def)
  ultimately show ?thesis
    using seal_then_unseal [OF toy_sound _ env(1), of toy_recipient "[9]" "codes_of ''message.created''"
        "[(codes_of ''body'', VStr (codes_of ''hi''))]" 9 "\<lambda>_. True"] env
    by (fastforce simp: toy_recipient_def toy_crypto_def toy_payload_def)
qed

end
