(* ===== verification/Outgoing.thy ===== *)
theory Outgoing
  imports Sealing Approvals Scheduler Rebuild
begin

text \<open>
  Outgoing events (\<open>model/events.py\<close>): the protected header, the rule for replies, and the
  sealing and persisting of an event in one transaction.

  \<^item> The header is a record; its JSON object is \<open>header_fields\<close>. \<open>doc\<close> gives the JSON object of a
    payload, \<open>valid\<close> is \<open>validate_payload\<close>, \<open>C\<close> the cryptographic packages and \<open>dr\<close> what the
    sealing draws; the event id and the nonce of a new header are arguments.
  \<^item> One call reads the clock once: \<open>wall\<close> is the text of every \<open>utcnow\<close> in it.
  \<^item> The constraints of the tables are checked in SQLite's order: NOT NULL and CHECK, the unique
    indexes in the order of their declaration, then the foreign keys. \<open>stamp_glob\<close> is the CHECK on
    timestamps. The callers validate the payload first, so it is a value of \<open>payload\<close>.
\<close>

datatype outgoing_exn =
    EventStoreError str
  | OutSealing seal_error
  | OutProjection proj_exn
  | OutValueError

type_synonym 'a outgoing = "(db, outgoing_exn, 'a) prog"

record header =
  hd_event :: str
  hd_rel :: str
  hd_conv :: str
  hd_sender :: str
  hd_seq :: nat
  hd_created :: str
  hd_deliver :: "str option"
  hd_expires :: "str option"
  hd_type :: str
  hd_thread :: "str option"
  hd_reply :: "str option"
  hd_epoch :: nat
  hd_nonce :: str
  hd_ephemeral :: "str option"

definition PROTOCOL :: str where "PROTOCOL = ''muse-agent-social/0.2''"

definition text_value :: "str \<Rightarrow> jval" where
  "text_value t = VStr (codes_of t)"

definition opt_value :: "str option \<Rightarrow> jval" where
  "opt_value t = (case t of None \<Rightarrow> VNull | Some x \<Rightarrow> text_value x)"

definition header_fields :: "header \<Rightarrow> fields" where
  "header_fields h = map (\<lambda>e. (codes_of (fst e), snd e))
     [(''protocol'', text_value PROTOCOL), (''event_id'', text_value (hd_event h)),
      (''relationship_id'', text_value (hd_rel h)), (''conversation_id'', text_value (hd_conv h)),
      (''sender'', text_value (hd_sender h)), (''sender_seq'', VInt (int (hd_seq h))),
      (''created_at'', text_value (hd_created h)), (''deliver_at'', opt_value (hd_deliver h)),
      (''expires_at'', opt_value (hd_expires h)), (''event_type'', text_value (hd_type h)),
      (''thread_id'', opt_value (hd_thread h)), (''reply_to'', opt_value (hd_reply h)),
      (''key_epoch'', VInt (int (hd_epoch h))), (''replay_nonce'', text_value (hd_nonce h)),
      (''ephemeral_key'', opt_value (hd_ephemeral h))]"

section \<open>The header of a new event\<close>

definition check_opt_uuid :: "str option \<Rightarrow> bool" where
  "check_opt_uuid v = (case v of None \<Rightarrow> True | Some t \<Rightarrow> uuid_matches t)"

definition check_opt_timestamp :: "str option \<Rightarrow> bool" where
  "check_opt_timestamp v = (case v of None \<Rightarrow> True | Some t \<Rightarrow> is_ok (parse_canonical_utc t))"

definition build_protected ::
  "crypto \<Rightarrow> str \<Rightarrow> str \<Rightarrow> str \<Rightarrow> str \<Rightarrow> str \<Rightarrow> str \<Rightarrow> str \<Rightarrow> str option \<Rightarrow> str option \<Rightarrow> int \<Rightarrow>
   str option \<Rightarrow> str option \<Rightarrow> str option \<Rightarrow> str option \<Rightarrow> outgoing_exn + header" where
  "build_protected C wall fresh nonce rel conv sender etype thread reply epoch deliver expires ephemeral created =
     (if \<not> (uuid_matches rel \<and> uuid_matches conv \<and> parse_identity_id C (codes_of sender) \<noteq> None \<and>
         etype \<in> set PAYLOAD_TYPES \<and> check_opt_uuid thread \<and> check_opt_uuid reply \<and> 1 \<le> epoch \<and>
         check_opt_timestamp deliver \<and> check_opt_timestamp expires \<and>
         (case ephemeral of None \<Rightarrow> True | Some k \<Rightarrow> parse_agreement_key C (codes_of k) \<noteq> None) \<and>
         check_opt_timestamp created)
      then Inl OutValueError
      else Inr \<lparr>hd_event = fresh, hd_rel = rel, hd_conv = conv, hd_sender = sender, hd_seq = 0,
        hd_created = (case created of None \<Rightarrow> wall | Some t \<Rightarrow> t), hd_deliver = deliver, hd_expires = expires,
        hd_type = etype, hd_thread = thread, hd_reply = reply, hd_epoch = nat epoch, hd_nonce = nonce,
        hd_ephemeral = ephemeral\<rparr>)"

definition validate_reply :: "db \<Rightarrow> str \<Rightarrow> str option \<Rightarrow> str \<Rightarrow> outgoing_exn + unit" where
  "validate_reply s target thread conv =
     (if \<not> uuid_matches target then Inl (EventStoreError ''bad_reply_target'')
      else case event_of s target of
        None \<Rightarrow> Inl (EventStoreError ''unknown_reply_target'')
      | Some e \<Rightarrow>
          if ev_conv e \<noteq> conv then Inl (EventStoreError ''reply_wrong_conversation'')
          else if ev_thread e \<noteq> thread then Inl (EventStoreError ''reply_wrong_thread'')
          else Inr ())"

section \<open>The human approval of a gated event\<close>

definition choices_text :: "str list \<Rightarrow> str" where
  "choices_text choices = (case encode [] (VArr (map text_value choices)) of
     Inl _ \<Rightarrow> [] | Inr t \<Rightarrow> map char_of t)"

definition approval_binding :: "header \<Rightarrow> payload \<Rightarrow> outgoing_exn + binding" where
  "approval_binding h p =
     (if hd_type h = ''human.responded'' then (case p of
        PHumanResponded request answer approved responded \<Rightarrow>
          Inr \<lparr>b_rel = Some (hd_rel h), b_subject_type = Some ''human_request'', b_subject = Some request,
            b_answer = Some answer, b_approved = Some approved\<rparr>
      | _ \<Rightarrow> Inl (EventStoreError ''approval_binding_incomplete''))
      else if hd_type h = ''poll.responded'' then (case p of
        PPollResponded poll choices confirmed record_id \<Rightarrow>
          Inr (if confirmed
            then \<lparr>b_rel = Some (hd_rel h), b_subject_type = Some ''poll'', b_subject = Some poll,
              b_answer = Some (choices_text choices), b_approved = Some True\<rparr>
            else unbound)
      | _ \<Rightarrow> Inr unbound)
      else Inr unbound)"

definition claim_approval :: "str \<Rightarrow> header \<Rightarrow> payload \<Rightarrow> str option \<Rightarrow> unit outgoing" where
  "claim_approval wall h p approval = (case approval of
     None \<Rightarrow> ret ()
   | Some aid \<Rightarrow> seq (lift (approval_binding h p)) (\<lambda>b.
       seq (\<lambda>s. case consume_approval aid wall b s of (won, s') \<Rightarrow> (Inr won, s')) (\<lambda>won.
         if won then ret () else raise (EventStoreError ''approval_consumed''))))"

section \<open>Persisting\<close>

definition stamp_glob :: "str \<Rightarrow> bool" where
  "stamp_glob t \<longleftrightarrow> length t = 20 \<and> t ! 4 = CHR ''-'' \<and> t ! 7 = CHR ''-'' \<and> t ! 10 = CHR ''T'' \<and>
     t ! 13 = CHR '':'' \<and> t ! 16 = CHR '':'' \<and> t ! 19 = CHR ''Z''"

definition latest_seq :: "db \<Rightarrow> str \<Rightarrow> str \<Rightarrow> nat" where
  "latest_seq s rel sender =
     foldr max (map ev_seq (select (\<lambda>e. ev_rel e = rel \<and> ev_sender e = sender) (events s))) 0"

definition event_row_of :: "header \<Rightarrow> bytes \<Rightarrow> event_row" where
  "event_row_of h sealed = \<lparr>ev_id = hd_event h, ev_rel = hd_rel h, ev_conv = hd_conv h, ev_thread = hd_thread h,
     ev_sender = hd_sender h, ev_seq = hd_seq h, ev_created = hd_created h, ev_epoch = hd_epoch h,
     ev_type = hd_type h, ev_nonce = hd_nonce h, ev_sealed = sealed\<rparr>"

definition event_slot :: "event_row \<Rightarrow> str \<times> str \<times> nat" where
  "event_slot e = (ev_rel e, ev_sender e, ev_seq e)"

text \<open>What refuses a row of \<open>events\<close>: the code \<open>_classify_integrity\<close> makes of the message.\<close>

definition event_conflict :: "db \<Rightarrow> event_row \<Rightarrow> str option" where
  "event_conflict s e =
     (if \<not> (1 \<le> ev_seq e \<and> stamp_glob (ev_created e)) then Some ''integrity_error''
      else if ev_id e \<in> ev_id ` set (events s) then Some ''duplicate_event''
      else if ev_nonce e \<in> ev_nonce ` set (events s) then Some ''duplicate_nonce''
      else if event_slot e \<in> event_slot ` set (events s) then Some ''sequence_conflict''
      else if \<not> (ev_rel e \<in> rl_id ` set (relationships s) \<and>
          (\<exists>k \<in> set (key_epochs s). ek_rel k = ev_rel e \<and> ek_epoch k = ev_epoch e) \<and>
          ev_conv e \<in> set (conversations s) \<and>
          (case ev_thread e of None \<Rightarrow> True | Some t \<Rightarrow> t \<in> th_id ` set (threads s)))
      then Some ''missing_reference''
      else None)"

definition ensure_conversation :: "str \<Rightarrow> db \<Rightarrow> db" where
  "ensure_conversation conv s = s\<lparr>conversations := insert_or_ignore id conv (conversations s)\<rparr>"

definition ensure_thread :: "str option \<Rightarrow> str \<Rightarrow> unit outgoing" where
  "ensure_thread thread conv = (case thread of
     None \<Rightarrow> ret ()
   | Some tid \<Rightarrow> seq (query (\<lambda>s. fetchone (\<lambda>t. th_id t = tid) (threads s))) (\<lambda>existing.
       case existing of
         None \<Rightarrow> exec (\<lambda>s. s\<lparr>threads := threads s @ [\<lparr>th_id = tid, th_conv = conv\<rparr>]\<rparr>)
       | Some t \<Rightarrow> if th_conv t \<noteq> conv then raise (EventStoreError ''thread_conversation_mismatch'')
                   else ret ()))"

definition insert_event :: "event_row \<Rightarrow> unit outgoing" where
  "insert_event e = seq (query (\<lambda>s. event_conflict s e)) (\<lambda>conflict. case conflict of
     Some code \<Rightarrow> raise (EventStoreError code)
   | None \<Rightarrow> exec (\<lambda>s. s\<lparr>events := events s @ [e]\<rparr>))"

definition sequence_key :: "sequence_row \<Rightarrow> str \<times> str" where
  "sequence_key r = (sn_rel r, sn_sender r)"

definition note_sequence :: "str \<Rightarrow> str \<Rightarrow> nat \<Rightarrow> db \<Rightarrow> db" where
  "note_sequence rel sender n s = s\<lparr>sender_sequence :=
     upsert sequence_key \<lparr>sn_rel = rel, sn_sender = sender, sn_last = n\<rparr>
       (\<lambda>r. r\<lparr>sn_last := max (sn_last r) n\<rparr>) (sender_sequence s)\<rparr>"

definition queue_projection :: "str \<Rightarrow> str \<Rightarrow> db \<Rightarrow> db" where
  "queue_projection eid wall s =
     s\<lparr>projection_queue := insert_or_ignore pq_event \<lparr>pq_event = eid, pq_at = wall\<rparr> (projection_queue s)\<rparr>"

definition stage_payload :: "(str \<Rightarrow> payload \<Rightarrow> bool) \<Rightarrow> str \<Rightarrow> header \<Rightarrow> payload \<Rightarrow> str option \<Rightarrow> unit outgoing" where
  "stage_payload valid wall h p received = (\<lambda>s.
     case record_projection_input valid wall (hd_event h) (hd_type h) p (hd_reply h) received s of
       (Inl e, s') \<Rightarrow> (Inl (OutProjection e), s')
     | (Inr _, s') \<Rightarrow> (Inr (), s'))"

definition deliver_moment :: "header \<Rightarrow> str \<Rightarrow> str" where
  "deliver_moment h wall = (case hd_deliver h of None \<Rightarrow> wall | Some t \<Rightarrow> if t = [] then wall else t)"

definition enqueue :: "str \<Rightarrow> header \<Rightarrow> bytes \<Rightarrow> unit outgoing" where
  "enqueue wall h sealed = seq (query (\<lambda>s.
       stamp_glob (deliver_moment h wall) \<and> (case hd_expires h of None \<Rightarrow> True | Some t \<Rightarrow> stamp_glob t) \<and>
       hd_event h \<notin> sq_id ` set (scheduler_queue s))) (\<lambda>ok.
     if \<not> ok then raise (EventStoreError ''integrity_error'')
     else exec (\<lambda>s. s\<lparr>scheduler_queue := scheduler_queue s @
       [new_sched_row (hd_event h) sealed (deliver_moment h wall) (hd_expires h)]\<rparr>))"

definition mark_approval :: "str \<Rightarrow> str option \<Rightarrow> db \<Rightarrow> db" where
  "mark_approval eid approval s = (case approval of
     None \<Rightarrow> s
   | Some aid \<Rightarrow> s\<lparr>scheduler_queue :=
       update_where (\<lambda>r. sq_id r = eid) (\<lambda>r. r\<lparr>sq_approval := Some aid\<rparr>) (scheduler_queue s)\<rparr>)"

definition numbered :: "db \<Rightarrow> header \<Rightarrow> header" where
  "numbered s h = h\<lparr>hd_seq := Suc (latest_seq s (hd_rel h) (hd_sender h))\<rparr>"

definition seal_header ::
  "crypto \<Rightarrow> draws \<Rightarrow> (payload \<Rightarrow> jval) \<Rightarrow> bytes \<Rightarrow> recipient list \<Rightarrow> header \<Rightarrow> payload \<Rightarrow>
   outgoing_exn + (jval \<times> bytes)" where
  "seal_header C dr doc sk recipients h p =
     (case seal_envelope C dr (header_fields h) (doc p) sk recipients of
        Inl e \<Rightarrow> Inl (OutSealing e)
      | Inr env \<Rightarrow> (case canonical_or_raise env of Inl e \<Rightarrow> Inl (OutSealing e) | Inr sealed \<Rightarrow> Inr (env, sealed)))"

text \<open>The statements after the sealing, for the numbered header.\<close>

definition store_outgoing ::
  "(str \<Rightarrow> payload \<Rightarrow> bool) \<Rightarrow> str \<Rightarrow> header \<Rightarrow> payload \<Rightarrow> str option \<Rightarrow> bytes \<Rightarrow> unit outgoing" where
  "store_outgoing valid wall h p approval sealed =
     seq (exec (ensure_conversation (hd_conv h))) (\<lambda>_.
     seq (ensure_thread (hd_thread h) (hd_conv h)) (\<lambda>_.
     seq (insert_event (event_row_of h sealed)) (\<lambda>_.
     seq (exec (note_sequence (hd_rel h) (hd_sender h) (hd_seq h))) (\<lambda>_.
     seq (exec (queue_projection (hd_event h) wall)) (\<lambda>_.
     seq (stage_payload valid wall h p None) (\<lambda>_.
     seq (enqueue wall h sealed) (\<lambda>_.
     exec (mark_approval (hd_event h) approval))))))))"

definition persist_outgoing_in_txn ::
  "crypto \<Rightarrow> draws \<Rightarrow> (payload \<Rightarrow> jval) \<Rightarrow> (str \<Rightarrow> payload \<Rightarrow> bool) \<Rightarrow> str \<Rightarrow> header \<Rightarrow> payload \<Rightarrow> bytes \<Rightarrow>
   recipient list \<Rightarrow> str option \<Rightarrow> jval outgoing" where
  "persist_outgoing_in_txn C dr doc valid wall h p sk recipients approval =
     seq (claim_approval wall h p approval) (\<lambda>_.
     if hd_rel h = [] \<or> hd_sender h = [] then raise OutValueError
     else seq (query (\<lambda>s. numbered s h)) (\<lambda>h'.
       seq (lift (seal_header C dr doc sk recipients h' p)) (\<lambda>(env, sealed).
         seq (store_outgoing valid wall h' p approval sealed) (\<lambda>_. ret env))))"

definition assign_and_persist_outgoing ::
  "crypto \<Rightarrow> draws \<Rightarrow> (payload \<Rightarrow> jval) \<Rightarrow> (str \<Rightarrow> payload \<Rightarrow> bool) \<Rightarrow> str \<Rightarrow> header \<Rightarrow> payload \<Rightarrow> bytes \<Rightarrow>
   recipient list \<Rightarrow> str option \<Rightarrow> jval outgoing" where
  "assign_and_persist_outgoing C dr doc valid wall h p sk recipients approval =
     txn (persist_outgoing_in_txn C dr doc valid wall h p sk recipients approval)"

section \<open>All or nothing\<close>

text \<open>None of the statements writes a file.\<close>

definition same_files :: "db \<Rightarrow> db \<Rightarrow> bool" where
  "same_files s t \<longleftrightarrow> relay t = relay s \<and> key_files t = key_files s"

lemma same_files_refl [simp]: "same_files s s"
  by (simp add: same_files_def)

lemma rollback_same_files: "same_files s t \<Longrightarrow> rollback s t = s"
  by (simp add: same_files_def rollback_def)

lemma claim_files: "preserves (same_files s) (claim_approval wall h p approval)"
  unfolding claim_approval_def
  by (intro pres_intros preservesI | simp add: same_files_def consume_approval_def preserves_def split: prod.split)+

lemma stage_files: "preserves (same_files s) (stage_payload valid wall h p received)"
proof -
  have "preserves (same_files s) (record_projection_input valid wall (hd_event h) (hd_type h) p (hd_reply h) received)"
    unfolding record_projection_input_def Let_def
    by (intro pres_intros preserves_exec) (simp_all add: same_files_def)
  then show ?thesis
    unfolding preserves_def stage_payload_def by (fastforce split: prod.split sum.split)
qed

lemma store_files: "preserves (same_files s) (store_outgoing valid wall h p approval sealed)"
  unfolding store_outgoing_def ensure_thread_def insert_event_def enqueue_def ensure_conversation_def
    note_sequence_def queue_projection_def mark_approval_def
  by (intro pres_intros stage_files preserves_exec | simp add: same_files_def split: option.split)+

lemma persist_files: "preserves (same_files s) (persist_outgoing_in_txn C dr doc valid wall h p sk recipients approval)"
  unfolding persist_outgoing_in_txn_def
  by (intro pres_intros claim_files | simp add: split_beta | intro store_files)+

text \<open>What each statement has done when it returns.\<close>

definition approval_claimed :: "str \<Rightarrow> header \<Rightarrow> payload \<Rightarrow> str option \<Rightarrow> db \<Rightarrow> db \<Rightarrow> bool" where
  "approval_claimed wall h p approval s t \<longleftrightarrow> (case approval of
     None \<Rightarrow> t = s
   | Some aid \<Rightarrow> \<exists>b. approval_binding h p = Inr b \<and> consume_approval aid wall b s = (True, t))"

lemma claim_returns: "claim_approval wall h p approval s = (Inr u, t) \<longleftrightarrow> approval_claimed wall h p approval s t"
proof (cases approval)
  case None
  then show ?thesis by (auto simp: claim_approval_def approval_claimed_def prog_run)
next
  case (Some aid)
  show ?thesis
  proof (cases "approval_binding h p")
    case (Inr b)
    obtain won s' where c: "consume_approval aid wall b s = (won, s')" by fastforce
    show ?thesis by (cases won) (auto simp: claim_approval_def approval_claimed_def Some Inr c prog_run seq_run)
  qed (simp add: claim_approval_def approval_claimed_def Some prog_run)
qed

lemma claimed_same: "approval_claimed wall h p approval s t \<Longrightarrow> \<exists>a. t = s\<lparr>human_approvals := a\<rparr>"
  by (auto simp: approval_claimed_def consume_approval_def split: option.splits intro: exI [of _ "human_approvals s"])

definition has_thread :: "str option \<Rightarrow> str \<Rightarrow> db \<Rightarrow> bool" where
  "has_thread thread conv s \<longleftrightarrow> (case thread of None \<Rightarrow> True
     | Some tid \<Rightarrow> \<exists>t. fetchone (\<lambda>t. th_id t = tid) (threads s) = Some t \<and> th_conv t = conv)"

lemma ensure_thread_returns:
  "ensure_thread thread conv s = (Inr u, t) \<Longrightarrow> has_thread thread conv t \<and> (\<exists>x. t = s\<lparr>threads := x\<rparr>)"
  by (auto simp: ensure_thread_def has_thread_def prog_run fetchone_append split: option.splits if_splits
      intro: exI [of _ "threads s"])

lemma insert_event_returns:
  "insert_event e s = (Inr u, t) \<longleftrightarrow> event_conflict s e = None \<and> t = s\<lparr>events := events s @ [e]\<rparr>"
  by (auto simp: insert_event_def prog_run split: option.splits)

lemma enqueue_returns:
  "enqueue wall h sealed s = (Inr u, t) \<longleftrightarrow>
     stamp_glob (deliver_moment h wall) \<and> (case hd_expires h of None \<Rightarrow> True | Some x \<Rightarrow> stamp_glob x) \<and>
     hd_event h \<notin> sq_id ` set (scheduler_queue s) \<and>
     t = s\<lparr>scheduler_queue := scheduler_queue s @
       [new_sched_row (hd_event h) sealed (deliver_moment h wall) (hd_expires h)]\<rparr>"
  by (auto simp: enqueue_def prog_run split: if_splits)

definition staged_row :: "header \<Rightarrow> payload \<Rightarrow> str \<Rightarrow> payload_row" where
  "staged_row h p received = \<lparr>pl_event = hd_event h, pl_type = hd_type h, pl_payload = p,
     pl_reply_to = hd_reply h, pl_received = Some received\<rparr>"

text \<open>Only logged events have a staged payload, as the foreign key demands.\<close>

definition payloads_logged :: "db \<Rightarrow> bool" where
  "payloads_logged s \<longleftrightarrow> pl_event ` set (event_payloads s) \<subseteq> ev_id ` set (events s)"

lemma stage_returns:
  assumes "stage_payload valid wall h p received s = (Inr u, t)"
    and "hd_event h \<notin> pl_event ` set (event_payloads s)"
  shows "valid (hd_type h) p \<and> t = s\<lparr>event_payloads := event_payloads s @
    [staged_row h p (case received of None \<Rightarrow> wall | Some r \<Rightarrow> r)]\<rparr>"
proof -
  have none: "fetchone (\<lambda>p. pl_event p = hd_event h) (event_payloads s) = None"
    unfolding fetchone_None using assms(2) by (metis imageI)
  have app: "event_payloads_update (\<lambda>t. t @ [r]) s = s\<lparr>event_payloads := event_payloads s @ [r]\<rparr>" for r
    by (cases s) simp
  show ?thesis
    using assms(1)
    by (auto simp: stage_payload_def record_projection_input_def Let_def prog_run none staged_row_def app
        split: prod.splits sum.splits if_splits)
qed

lemma note_sequence_same: "\<exists>x. note_sequence rel sender n s = s\<lparr>sender_sequence := x\<rparr>"
  by (auto simp: note_sequence_def)

lemma queue_projection_mem: "eid \<in> pq_event ` set (projection_queue (queue_projection eid wall s))"
  by (auto simp: queue_projection_def insert_or_ignore_def)

text \<open>A stored outgoing event: one new row of the log, its payload, its place in the two queues.\<close>

definition stored :: "str \<Rightarrow> header \<Rightarrow> payload \<Rightarrow> str option \<Rightarrow> bytes \<Rightarrow> db \<Rightarrow> db \<Rightarrow> bool" where
  "stored wall h p approval sealed s t \<longleftrightarrow>
     events t = events s @ [event_row_of h sealed] \<and>
     hd_event h \<notin> ev_id ` set (events s) \<and> hd_nonce h \<notin> ev_nonce ` set (events s) \<and>
     staged_row h p wall \<in> set (event_payloads t) \<and> hd_event h \<in> pq_event ` set (projection_queue t) \<and>
     scheduler_queue t = scheduler_queue s @
       [(new_sched_row (hd_event h) sealed (deliver_moment h wall) (hd_expires h))\<lparr>sq_approval := approval\<rparr>] \<and>
     has_thread (hd_thread h) (hd_conv h) t \<and> human_approvals t = human_approvals s"

lemma mark_approval_rows:
  assumes "eid \<notin> sq_id ` set rows"
  shows "scheduler_queue (mark_approval eid approval (s\<lparr>scheduler_queue := rows @ [new_sched_row eid b d e]\<rparr>)) =
    rows @ [(new_sched_row eid b d e)\<lparr>sq_approval := approval\<rparr>]"
proof -
  have "update_where (\<lambda>r. sq_id r = eid) f rows = rows" for f :: "sched_row \<Rightarrow> sched_row"
    using assms by (induction rows) (auto simp: update_where_def)
  then show ?thesis
    by (cases approval) (simp_all add: mark_approval_def new_sched_row_def update_where_def)
qed

lemma store_returns:
  assumes "store_outgoing valid wall h p approval sealed s = (Inr u, t)" and "payloads_logged s"
  shows "valid (hd_type h) p \<and> stored wall h p approval sealed s t \<and> payloads_logged t"
proof -
  define s1 where "s1 = ensure_conversation (hd_conv h) s"
  obtain s2 where s2: "ensure_thread (hd_thread h) (hd_conv h) s1 = (Inr (), s2)"
    and r2: "seq (insert_event (event_row_of h sealed)) (\<lambda>_.
     seq (exec (note_sequence (hd_rel h) (hd_sender h) (hd_seq h))) (\<lambda>_.
     seq (exec (queue_projection (hd_event h) wall)) (\<lambda>_.
     seq (stage_payload valid wall h p None) (\<lambda>_.
     seq (enqueue wall h sealed) (\<lambda>_. exec (mark_approval (hd_event h) approval)))))) s2 = (Inr u, t)"
    using assms(1) unfolding store_outgoing_def prog_run s1_def [symmetric] by (auto simp: seq_returns)
  obtain th where th: "has_thread (hd_thread h) (hd_conv h) s2" "s2 = s1\<lparr>threads := th\<rparr>"
    using ensure_thread_returns [OF s2] by blast
  define s3 where "s3 = s2\<lparr>events := events s2 @ [event_row_of h sealed]\<rparr>"
  define s4 where "s4 = note_sequence (hd_rel h) (hd_sender h) (hd_seq h) s3"
  define s5 where "s5 = queue_projection (hd_event h) wall s4"
  obtain s6 where ins: "event_conflict s2 (event_row_of h sealed) = None"
    and s6: "stage_payload valid wall h p None s5 = (Inr (), s6)"
    and r6: "seq (enqueue wall h sealed) (\<lambda>_. exec (mark_approval (hd_event h) approval)) s6 = (Inr u, t)"
    using r2 unfolding seq_returns [of "insert_event _"] insert_event_returns
    by (auto simp: prog_run seq_returns s3_def s4_def s5_def)
  have ev: "events s2 = events s" by (simp add: th(2) s1_def ensure_conversation_def)
  have fresh: "hd_event h \<notin> ev_id ` set (events s)" "hd_nonce h \<notin> ev_nonce ` set (events s)"
    using ins by (auto simp: event_conflict_def event_row_of_def ev split: if_splits)
  have same5: "event_payloads s5 = event_payloads s" "events s5 = events s @ [event_row_of h sealed]"
    "scheduler_queue s5 = scheduler_queue s" "human_approvals s5 = human_approvals s" "threads s5 = threads s2"
    by (simp_all add: s5_def s4_def s3_def queue_projection_def note_sequence_def th(2) s1_def ensure_conversation_def)
  have unstaged: "hd_event h \<notin> pl_event ` set (event_payloads s5)"
    using fresh(1) assms(2) by (auto simp: payloads_logged_def same5)
  have st: "valid (hd_type h) p" "s6 = s5\<lparr>event_payloads := event_payloads s5 @ [staged_row h p wall]\<rparr>"
    using stage_returns [OF s6 unstaged] by simp_all
  obtain new: "hd_event h \<notin> sq_id ` set (scheduler_queue s)"
    and t: "t = mark_approval (hd_event h) approval (s6\<lparr>scheduler_queue := scheduler_queue s @
       [new_sched_row (hd_event h) sealed (deliver_moment h wall) (hd_expires h)]\<rparr>)"
    using r6 by (auto simp: seq_returns enqueue_returns prog_run st(2) same5)
  obtain x where x: "t = s6\<lparr>scheduler_queue := x\<rparr>"
    using t by (cases approval) (simp_all add: mark_approval_def)
  have "scheduler_queue t = scheduler_queue s @
      [(new_sched_row (hd_event h) sealed (deliver_moment h wall) (hd_expires h))\<lparr>sq_approval := approval\<rparr>]"
    unfolding t by (rule mark_approval_rows [OF new])
  moreover have "hd_event h \<in> pq_event ` set (projection_queue t)"
    using queue_projection_mem [of "hd_event h" wall s4] by (simp add: x st(2) s5_def)
  moreover have "has_thread (hd_thread h) (hd_conv h) t"
  proof -
    have "threads t = threads s2" by (simp add: x st(2) same5)
    then show ?thesis using th(1) by (simp only: has_thread_def)
  qed
  moreover have "staged_row h p wall \<in> set (event_payloads t)" by (simp add: x st(2))
  moreover have "events t = events s @ [event_row_of h sealed]" "human_approvals t = human_approvals s"
    by (simp_all add: x st(2) same5)
  ultimately have "stored wall h p approval sealed s t"
    using fresh by (simp add: stored_def)
  moreover have "payloads_logged t"
    using same5 assms(2) by (auto simp: x st(2) payloads_logged_def event_row_of_def staged_row_def)
  ultimately show ?thesis using st(1) by simp
qed

lemma claimed_numbered: "approval_claimed wall h p approval s u \<Longrightarrow> numbered u h = numbered s h"
  using claimed_same by (fastforce simp: numbered_def latest_seq_def)

lemma claimed_logged: "approval_claimed wall h p approval s u \<Longrightarrow> payloads_logged s \<Longrightarrow> payloads_logged u"
  using claimed_same by (fastforce simp: payloads_logged_def)

lemma persist_returns:
  assumes "persist_outgoing_in_txn C dr doc valid wall h p sk recipients approval s = (Inr env, t)"
    and "payloads_logged s"
  shows "\<exists>sealed u. seal_header C dr doc sk recipients (numbered s h) p = Inr (env, sealed) \<and>
    valid (hd_type h) p \<and> approval_claimed wall h p approval s u \<and>
    stored wall (numbered s h) p approval sealed u t \<and> payloads_logged t"
proof -
  obtain u where u: "approval_claimed wall h p approval s u"
    and r: "(if hd_rel h = [] \<or> hd_sender h = [] then raise OutValueError
      else seq (query (\<lambda>s. numbered s h)) (\<lambda>h'. seq (lift (seal_header C dr doc sk recipients h' p))
        (\<lambda>(env, sealed). seq (store_outgoing valid wall h' p approval sealed) (\<lambda>_. ret env)))) u = (Inr env, t)"
    using assms(1) unfolding persist_outgoing_in_txn_def seq_returns [of "claim_approval _ _ _ _"] claim_returns by blast
  have ok: "hd_rel h \<noteq> []" "hd_sender h \<noteq> []"
    using r by (auto simp: prog_run split: if_splits)
  obtain e sealed where se: "seal_header C dr doc sk recipients (numbered u h) p = Inr (e, sealed)"
    using r ok by (cases "seal_header C dr doc sk recipients (numbered u h) p") (auto simp: prog_run)
  have st: "store_outgoing valid wall (numbered u h) p approval sealed u = (Inr (), t)" and e: "e = env"
    using r ok se by (auto simp: prog_run seq_returns)
  from store_returns [OF st claimed_logged [OF u assms(2)]] show ?thesis
    using u se e by (auto simp: claimed_numbered [OF u]) (auto simp: numbered_def)
qed

lemma outgoing_step:
  assumes "payloads_logged s"
  shows "case assign_and_persist_outgoing C dr doc valid wall h p sk recipients approval s of
      (Inl e, t) \<Rightarrow> t = s
    | (Inr env, t) \<Rightarrow> \<exists>sealed u. seal_header C dr doc sk recipients (numbered s h) p = Inr (env, sealed) \<and>
        valid (hd_type h) p \<and> approval_claimed wall h p approval s u \<and>
        stored wall (numbered s h) p approval sealed u t \<and> payloads_logged t"
proof -
  obtain r t where p: "persist_outgoing_in_txn C dr doc valid wall h p sk recipients approval s = (r, t)" by fastforce
  show ?thesis
  proof (cases r)
    case (Inl e)
    have "same_files s t"
      using preservesD [OF persist_files [of s C dr doc valid wall h p sk recipients approval], of s] p by simp
    then show ?thesis
      using txn_Inl [of "persist_outgoing_in_txn C dr doc valid wall h p sk recipients approval"] p Inl
      by (simp add: assign_and_persist_outgoing_def rollback_same_files)
  next
    case (Inr env)
    then show ?thesis
      using txn_Inr [of "persist_outgoing_in_txn C dr doc valid wall h p sk recipients approval"] p
        persist_returns [OF _ assms, of C dr doc valid wall h p sk recipients approval env t]
      by (fastforce simp: assign_and_persist_outgoing_def)
  qed
qed

text \<open>C6. An outgoing event is stored completely or not at all. If \<open>assign_and_persist_outgoing\<close>
  raises, for whatever reason, the database is as before: no number is used up, and above all the
  human approval is not spent. If it returns an envelope, the log has exactly one row more,
  with the next number of its sender and the bytes of that envelope, the payload is staged under the
  schema check, the event waits for projection and, once, in the scheduler's queue with its
  delivery moment and approval, and the approval, if one was given, was live, matched this very
  response and is spent.\<close>
theorem outgoing_complete_or_nothing:
  assumes "payloads_logged s"
  shows "case assign_and_persist_outgoing C dr doc valid wall h p sk recipients approval s of
      (Inl e, t) \<Rightarrow> t = s
    | (Inr env, t) \<Rightarrow> \<exists>sealed u. seal_header C dr doc sk recipients (numbered s h) p = Inr (env, sealed) \<and>
        valid (hd_type h) p \<and> approval_claimed wall h p approval s u \<and>
        stored wall (numbered s h) p approval sealed u t"
  using outgoing_step [OF assms, where C = C and dr = dr and doc = doc and valid = valid and wall = wall and h = h and p = p
      and sk = sk and recipients = recipients and approval = approval]
  by (simp split: prod.splits sum.splits) blast

text \<open>An answer that a human approved.\<close>

definition sample_answer_header :: header where
  "sample_answer_header = \<lparr>hd_event = ''e1'', hd_rel = ''r'', hd_conv = ''c'', hd_sender = map char_of toy_id,
     hd_seq = 0, hd_created = ''2025-01-01T00:00:00Z'', hd_deliver = None, hd_expires = None,
     hd_type = ''human.responded'', hd_thread = None, hd_reply = None, hd_epoch = 1, hd_nonce = ''n1'',
     hd_ephemeral = None\<rparr>"

definition sample_sender_db :: db where
  "sample_sender_db = empty_db\<lparr>relationships := [\<lparr>rl_id = ''r'', rl_peer = ''bob'', rl_consent = ''active'',
       rl_policy = None, rl_epoch = 1, rl_peer_key = None, rl_name = None, rl_prior = None, rl_grace = None\<rparr>],
     key_epochs := [\<lparr>ek_rel = ''r'', ek_epoch = 1, ek_public = ''z'', ek_ref = ''k'', ek_state = ''active''\<rparr>],
     human_approvals := [\<lparr>ap_id = ''ap1'', ap_rel = ''r'', ap_subject_type = ''human_request'', ap_subject = ''q1'',
       ap_answer = ''yes'', ap_approved = True, ap_created = ''2025-01-01T00:00:00Z'',
       ap_expires = ''2025-01-02T00:00:00Z'', ap_consumed = None, ap_note = None\<rparr>]\<rparr>"

abbreviation sample_answer_sent :: "str \<Rightarrow> (outgoing_exn + jval) \<times> db" where
  "sample_answer_sent answer \<equiv> assign_and_persist_outgoing toy_crypto toy_draws (\<lambda>_. toy_payload) (\<lambda>_ _. True)
     ''2025-01-01T00:00:01Z'' sample_answer_header (PHumanResponded ''q1'' answer True ''ap1'') [5] [toy_recipient]
     (Some ''ap1'') sample_sender_db"

lemma codes_of_char: "\<forall>c \<in> set cs. c < 256 \<Longrightarrow> codes_of (map char_of cs) = cs"
  by (induction cs) simp_all

lemma sample_sealed:
  "\<exists>env sealed. seal_header toy_crypto toy_draws (\<lambda>_. toy_payload) [5] [toy_recipient]
     (sample_answer_header\<lparr>hd_seq := 1\<rparr>) p = Inr (env, sealed)"
proof -
  let ?h = "header_fields (sample_answer_header\<lparr>hd_seq := 1\<rparr>)"
  let ?header = "dict_set (codes_of ''ephemeral_key'') (VStr (rp_agreement_key toy_recipient)) ?h"
  have id: "codes_of (map char_of toy_id) = toy_id" by (rule codes_of_char) (simp add: toy_id_def)
  have at: "map_of ?h (codes_of ''sender'') = Some (VStr toy_id)"
    by (simp add: header_fields_def text_value_def sample_answer_header_def id del: map_map)
  have "encodable (VObj ?header)" "weight (VObj ?header) \<le> 10000"
    by (auto simp: header_fields_def text_value_def opt_value_def sample_answer_header_def id toy_id_def
        toy_recipient_def is_surrogate_def PROTOCOL_def SAFE_INT_MIN_def SAFE_INT_MAX_def simp del: map_map)
  from toy_seals [OF at this] show ?thesis by (auto simp: seal_header_def)
qed

definition sample_sent_db :: "bytes \<Rightarrow> db" where
  "sample_sent_db sealed = sample_sender_db\<lparr>
     human_approvals := map (\<lambda>r. r\<lparr>ap_consumed := Some ''2025-01-01T00:00:01Z''\<rparr>) (human_approvals sample_sender_db),
     conversations := [''c''], events := [event_row_of (sample_answer_header\<lparr>hd_seq := 1\<rparr>) sealed],
     sender_sequence := [\<lparr>sn_rel = ''r'', sn_sender = map char_of toy_id, sn_last = 1\<rparr>],
     projection_queue := [\<lparr>pq_event = ''e1'', pq_at = ''2025-01-01T00:00:01Z''\<rparr>],
     event_payloads := [staged_row sample_answer_header (PHumanResponded ''q1'' ''yes'' True ''ap1'') ''2025-01-01T00:00:01Z''],
     scheduler_queue := [(new_sched_row ''e1'' sealed ''2025-01-01T00:00:01Z'' None)\<lparr>sq_approval := Some ''ap1''\<rparr>]\<rparr>"

lemmas sample_send_defs = assign_and_persist_outgoing_def txn_def persist_outgoing_in_txn_def claim_approval_def
  approval_binding_def consume_approval_def prog_run seq_run rowcount_def consumable_def live_def binds_def agrees_def
  update_where_def

lemma sample_numbered: "events s = [] \<Longrightarrow> numbered s sample_answer_header = sample_answer_header\<lparr>hd_seq := 1\<rparr>"
  by (simp add: numbered_def latest_seq_def select_def)

lemma sample_stored:
  "store_outgoing (\<lambda>_ _. True) ''2025-01-01T00:00:01Z'' (sample_answer_header\<lparr>hd_seq := 1\<rparr>)
     (PHumanResponded ''q1'' ''yes'' True ''ap1'') (Some ''ap1'') sealed
     (sample_sender_db\<lparr>human_approvals :=
       map (\<lambda>r. r\<lparr>ap_consumed := Some ''2025-01-01T00:00:01Z''\<rparr>) (human_approvals sample_sender_db)\<rparr>) =
   (Inr (), sample_sent_db sealed)"
  by (simp add: store_outgoing_def prog_run seq_run ensure_conversation_def ensure_thread_def insert_event_def
      event_conflict_def stamp_glob_def note_sequence_def upsert_def queue_projection_def insert_or_ignore_def
      stage_payload_def record_projection_input_def Let_def fetchone_def enqueue_def deliver_moment_def mark_approval_def
      update_where_def sample_sent_db_def sample_answer_header_def sample_sender_db_def empty_db_def event_row_of_def
      staged_row_def new_sched_row_def)

lemma sample_yes: "\<exists>env sealed. sample_answer_sent ''yes'' = (Inr env, sample_sent_db sealed)"
proof -
  obtain env sealed where se: "seal_header toy_crypto toy_draws (\<lambda>_. toy_payload) [5] [toy_recipient]
     (sample_answer_header\<lparr>hd_seq := 1\<rparr>) (PHumanResponded ''q1'' ''yes'' True ''ap1'') = Inr (env, sealed)"
    using sample_sealed by blast
  have claim: "claim_approval ''2025-01-01T00:00:01Z'' sample_answer_header (PHumanResponded ''q1'' ''yes'' True ''ap1'')
      (Some ''ap1'') sample_sender_db = (Inr (), sample_sender_db\<lparr>human_approvals :=
       map (\<lambda>r. r\<lparr>ap_consumed := Some ''2025-01-01T00:00:01Z''\<rparr>) (human_approvals sample_sender_db)\<rparr>)"
    by (simp add: sample_send_defs sample_answer_header_def sample_sender_db_def)
  have ne: "hd_rel sample_answer_header \<noteq> []" "hd_sender sample_answer_header \<noteq> []"
    by (simp_all add: sample_answer_header_def toy_id_def)
  have num: "numbered (sample_sender_db\<lparr>human_approvals := x\<rparr>) sample_answer_header =
      sample_answer_header\<lparr>hd_seq := 1\<rparr>" for x
    by (rule sample_numbered) (simp add: sample_sender_db_def empty_db_def)
  have "persist_outgoing_in_txn toy_crypto toy_draws (\<lambda>_. toy_payload) (\<lambda>_ _. True) ''2025-01-01T00:00:01Z''
      sample_answer_header (PHumanResponded ''q1'' ''yes'' True ''ap1'') [5] [toy_recipient] (Some ''ap1'')
      sample_sender_db = (Inr env, sample_sent_db sealed)"
    unfolding persist_outgoing_in_txn_def seq_run [of "claim_approval _ _ _ _"] claim
    by (simp only: prod.case sum.case prog_run num se seq_run [of "store_outgoing _ _ _ _ _ _"] sample_stored ne
        simp_thms if_False)
  from txn_Inr [where p = "persist_outgoing_in_txn toy_crypto toy_draws (\<lambda>_. toy_payload) (\<lambda>_ _. True)
      ''2025-01-01T00:00:01Z'' sample_answer_header (PHumanResponded ''q1'' ''yes'' True ''ap1'') [5] [toy_recipient]
      (Some ''ap1'')", OF this]
  show ?thesis unfolding assign_and_persist_outgoing_def by (intro exI)
qed

lemma sample_payloads_logged: "payloads_logged sample_sender_db"
  by (simp add: payloads_logged_def sample_sender_db_def empty_db_def)

theorem outgoing_complete_or_nothing_witness:
  "(\<exists>env sealed u. sample_answer_sent ''yes'' = (Inr env, sample_sent_db sealed) \<and>
     approval_claimed ''2025-01-01T00:00:01Z'' sample_answer_header (PHumanResponded ''q1'' ''yes'' True ''ap1'')
       (Some ''ap1'') sample_sender_db u) \<and>
   sample_answer_sent ''no'' = (Inl (EventStoreError ''approval_consumed''), sample_sender_db)"
proof -
  obtain env sealed where yes: "sample_answer_sent ''yes'' = (Inr env, sample_sent_db sealed)" using sample_yes by blast
  have "fst (sample_answer_sent ''no'') = Inl (EventStoreError ''approval_consumed'')"
    by (simp add: sample_send_defs sample_answer_header_def sample_sender_db_def)
  then obtain t where no: "sample_answer_sent ''no'' = (Inl (EventStoreError ''approval_consumed''), t)"
    by (cases "sample_answer_sent ''no''") simp
  note step = outgoing_complete_or_nothing [OF sample_payloads_logged, where C = toy_crypto and dr = toy_draws
    and doc = "\<lambda>_. toy_payload" and valid = "\<lambda>_ _. True" and wall = "''2025-01-01T00:00:01Z''" and sk = "[5]"
    and h = sample_answer_header and recipients = "[toy_recipient]" and approval = "Some ''ap1''"]
  show ?thesis
    using step [where p = "PHumanResponded ''q1'' ''yes'' True ''ap1''"]
      step [where p = "PHumanResponded ''q1'' ''no'' True ''ap1''"] by (auto simp: yes no)
qed

section \<open>Numbering\<close>

type_synonym send = "draws \<times> str \<times> header \<times> payload \<times> recipient list \<times> str option"

fun send_once ::
  "crypto \<Rightarrow> (payload \<Rightarrow> jval) \<Rightarrow> (str \<Rightarrow> payload \<Rightarrow> bool) \<Rightarrow> bytes \<Rightarrow> send \<Rightarrow> jval outgoing" where
  "send_once C doc valid sk (dr, wall, h, p, recipients, approval) =
     assign_and_persist_outgoing C dr doc valid wall h p sk recipients approval"

text \<open>A run of sends, each of which may fail, and how many of those of one sender in one relationship
  succeeded.\<close>

fun send_all ::
  "crypto \<Rightarrow> (payload \<Rightarrow> jval) \<Rightarrow> (str \<Rightarrow> payload \<Rightarrow> bool) \<Rightarrow> bytes \<Rightarrow> str \<Rightarrow> str \<Rightarrow> send list \<Rightarrow> db \<Rightarrow> nat \<times> db" where
  "send_all C doc valid sk rel sender [] s = (0, s)"
| "send_all C doc valid sk rel sender (x # xs) s =
     (case send_once C doc valid sk x s of (r, t) \<Rightarrow>
      case send_all C doc valid sk rel sender xs t of (n, u) \<Rightarrow>
        (case x of (_, _, h, _) \<Rightarrow> if is_ok r \<and> hd_rel h = rel \<and> hd_sender h = sender then Suc n else n, u))"

definition numbers :: "db \<Rightarrow> str \<Rightarrow> str \<Rightarrow> nat list" where
  "numbers s rel sender = map ev_seq (select (\<lambda>e. ev_rel e = rel \<and> ev_sender e = sender) (events s))"

lemma latest_consecutive: "numbers s rel sender = [1..<Suc n] \<Longrightarrow> latest_seq s rel sender = n"
proof -
  have "foldr max [1..<Suc n] (0 :: nat) = n"
  proof (induction n)
    case (Suc n)
    have "foldr max xs (a :: nat) = max (foldr max xs 0) a" for xs a by (induction xs) auto
    from this [of "[1..<Suc n]" "max (Suc n) 0"] show ?case using Suc by simp
  qed simp
  then show "numbers s rel sender = [1..<Suc n] \<Longrightarrow> latest_seq s rel sender = n"
    by (simp add: latest_seq_def numbers_def)
qed

lemma send_once_numbers:
  assumes "send_once C doc valid sk (dr, wall, h, p, recipients, approval) s = (r, t)" and "payloads_logged s"
    and "numbers s rel sender = [1..<Suc n]"
  shows "payloads_logged t \<and> numbers t rel sender =
    [1..<Suc (if is_ok r \<and> hd_rel h = rel \<and> hd_sender h = sender then Suc n else n)]"
proof (cases r)
  case (Inl e)
  have "t = s"
    using outgoing_step [OF assms(2), where C = C and dr = dr and doc = doc and valid = valid and wall = wall and h = h and p = p
      and sk = sk and recipients = recipients and approval = approval] assms(1) Inl by simp
  then show ?thesis using assms Inl by simp
next
  case (Inr env)
  obtain u sealed where u: "approval_claimed wall h p approval s u" "stored wall (numbered s h) p approval sealed u t"
    "payloads_logged t"
    using outgoing_step [OF assms(2), where C = C and dr = dr and doc = doc and valid = valid and wall = wall and h = h and p = p
      and sk = sk and recipients = recipients and approval = approval] assms(1) Inr by auto
  have "events u = events s" using claimed_same [OF u(1)] by auto
  then have ev: "events t = events s @ [event_row_of (numbered s h) sealed]" using u(2) by (simp add: stored_def)
  have "hd_seq (numbered s h) = Suc n" if "hd_rel h = rel" "hd_sender h = sender"
    using latest_consecutive [OF assms(3)] that by (simp add: numbered_def)
  then show ?thesis
    using u(3) assms(3) Inr
    by (auto simp: numbers_def select_def ev event_row_of_def numbered_def simp del: upt_Suc) simp_all
qed

text \<open>C12. Numbers are consecutive. If the events of a sender in a relationship are numbered 1, 2, \<dots>, n
  in the order of the log, then after any run of sends, over any relationships and with any failures
  in between, they are numbered 1, 2, \<dots>, n + k in that order, where k of the sender's sends
  succeeded: a failed send leaves no hole for the peer to report as missing.\<close>
theorem outgoing_numbers_consecutive:
  assumes "payloads_logged s" and "numbers s rel sender = [1..<Suc n]"
  shows "numbers (snd (send_all C doc valid sk rel sender sends s)) rel sender =
    [1..<Suc (n + fst (send_all C doc valid sk rel sender sends s))]"
  using assms
proof (induction sends arbitrary: s n)
  case (Cons x xs)
  obtain dr wall h p recipients approval where x: "x = (dr, wall, h, p, recipients, approval)" by (cases x)
  obtain r t where r: "send_once C doc valid sk x s = (r, t)" by fastforce
  obtain k u where k: "send_all C doc valid sk rel sender xs t = (k, u)" by fastforce
  have all: "send_all C doc valid sk rel sender (x # xs) s =
      (if is_ok r \<and> hd_rel h = rel \<and> hd_sender h = sender then Suc k else k, u)"
    by (simp add: r k) (simp add: x)
  note one = send_once_numbers [OF r [unfolded x] Cons.prems]
  from Cons.IH [OF conjunct1 [OF one] conjunct2 [OF one]] show ?case
    unfolding all by (auto simp: k simp del: upt_Suc)
qed simp

theorem outgoing_numbers_consecutive_witness:
  "numbers (snd (send_all toy_crypto (\<lambda>_. toy_payload) (\<lambda>_ _. True) [5] ''r'' (map char_of toy_id)
     [(toy_draws, ''2025-01-01T00:00:01Z'', sample_answer_header, PHumanResponded ''q1'' ''yes'' True ''ap1'',
       [toy_recipient], Some ''ap1'')] sample_sender_db)) ''r'' (map char_of toy_id) = [1..<Suc (0 + 1)]"
proof -
  obtain env sealed where yes: "sample_answer_sent ''yes'' = (Inr env, sample_sent_db sealed)" using sample_yes by blast
  have "numbers sample_sender_db ''r'' (map char_of toy_id) = [1..<Suc 0]"
    by (simp add: numbers_def select_def sample_sender_db_def empty_db_def)
  from outgoing_numbers_consecutive [OF sample_payloads_logged this, of toy_crypto "\<lambda>_. toy_payload" "\<lambda>_ _. True" "[5]"
    "[(toy_draws, ''2025-01-01T00:00:01Z'', sample_answer_header, PHumanResponded ''q1'' ''yes'' True ''ap1'',
       [toy_recipient], Some ''ap1'')]"]
  show ?thesis
    by (simp add: yes del: upt_Suc) (simp add: sample_answer_header_def del: upt_Suc)
qed

end
