(* ===== verification/Sending.thy ===== *)
theory Sending
  imports Outgoing Release RotationKeys ProjectionInv
begin

text \<open>
  Sending from the command line (\<open>cli.py\<close>, \<open>_send_event\<close> and what it calls): the checks of the
  delivery window, the recipients during a rotation, the semantic dry run, persisting, the local
  projection, a cancellation with its retraction, the release of what is due, and the activation
  of a relationship (\<open>model/invites.py\<close>).

  \<^item> \<open>sender\<close> is the installation: its identity, its signing key, the clock, which one call reads
    once, and the parameters of the theories it calls. \<open>sd_flush\<close> is the push of the queued
    mutations of a relationship to its git relay, which writes no other table.
  \<^item> \<open>fresh\<close> holds what one event draws: its ids, its nonce and the sealing's randomness.
  \<^item> Warnings on stderr are not modelled; an exception of another class is \<open>CliRaised\<close> with its name.
\<close>

datatype cli_exn = CliError str | CliStorage bool | CliRaised str

type_synonym 'a cli = "(db, cli_exn, 'a) prog"

definition catching :: "('e \<Rightarrow> cli_exn) \<Rightarrow> (db, 'e, 'a) prog \<Rightarrow> 'a cli" where
  "catching f p = (\<lambda>s. case p s of (Inl e, t) \<Rightarrow> (Inl (f e), t) | (Inr a, t) \<Rightarrow> (Inr a, t))"

record sender =
  sd_crypto :: crypto
  sd_doc :: "payload \<Rightarrow> jval"
  sd_valid :: "str \<Rightarrow> payload \<Rightarrow> bool"
  sd_me :: str
  sd_secret :: bytes
  sd_now :: rat
  sd_draw :: "db \<Rightarrow> str"
  sd_pick :: "str \<Rightarrow> str"
  sd_flush :: "str \<Rightarrow> mutation_row list \<Rightarrow> mutation_row list"

record fresh =
  fr_event :: str
  fr_nonce :: str
  fr_thread :: str
  fr_draws :: draws

record intent =
  it_type :: str
  it_payload :: payload
  it_conv :: "str option"
  it_thread :: "str option"
  it_reply :: "str option"
  it_deliver :: "str option"
  it_expires :: "str option"
  it_dry :: bool
  it_skew :: "rat option"

record sent =
  se_event :: str
  se_seq :: "nat option"
  se_epoch :: nat
  se_names :: "str list"
  se_released :: "str list"
  se_cancel :: "str option"

definition wall_of :: "sender \<Rightarrow> str" where
  "wall_of S = stamp_text (sd_now S)"

definition rotation_name :: "rotation_exn \<Rightarrow> str" where
  "rotation_name e = (case e of RotationError c \<Rightarrow> ''RotationError'' | ConfirmRejected \<Rightarrow> ''ConfirmRejected''
     | NoAckTimeout r n \<Rightarrow> ''NoAckTimeout'' | RotationRaised n \<Rightarrow> n)"

definition projection_name :: "proj_exn \<Rightarrow> str" where
  "projection_name e = (case e of ProjectionError c \<Rightarrow> ''ProjectionError'' | ProjKeyError \<Rightarrow> ''KeyError''
     | ProjTypeError \<Rightarrow> ''TypeError''
     | ProjIntegrity \<Rightarrow> ''IntegrityError'' | ProjClock c \<Rightarrow> (case c of ValueError \<Rightarrow> ''ValueError'' | OverflowError \<Rightarrow> ''OverflowError''))"

definition sched_code :: "sched_exn \<Rightarrow> str" where
  "sched_code e = (case e of SchedulerError c \<Rightarrow> c | UnknownScheduledIdError i \<Rightarrow> ''unknown_scheduled_id''
     | AlreadyReleasedError i \<Rightarrow> ''already_released'' | RevokedRelationshipError i \<Rightarrow> ''relationship_revoked''
     | SendPausedError i \<Rightarrow> ''send_paused'' | InvalidSchedulerTransition i \<Rightarrow> ''invalid_transition''
     | ScheduledIdConflictError i \<Rightarrow> ''scheduled_id_conflict'' | _ \<Rightarrow> [])"

section \<open>Before anything is written\<close>

definition validate_delivery_window :: "str option \<Rightarrow> str option \<Rightarrow> str \<Rightarrow> cli_exn + unit" where
  "validate_delivery_window deliver expires now =
     (case parse_canonical_utc now of Inl _ \<Rightarrow> Inl (CliError ''bad_args'') | Inr now_dt \<Rightarrow>
      case (case deliver of None \<Rightarrow> Inr () | Some d \<Rightarrow>
        (case parse_canonical_utc d of Inl _ \<Rightarrow> Inl (CliError ''bad_args'') | Inr spot \<Rightarrow>
           let retention = now_dt + OLD_KEY_RETENTION; horizon = now_dt + ACCEPT_WINDOW_DAYS * 86400 in
           if spot > min retention horizon
           then Inl (CliError (if retention \<le> horizon then ''deliver_at_beyond_retention_horizon''
             else ''deliver_at_beyond_accept_window''))
           else Inr ())) of
        Inl e \<Rightarrow> Inl e
      | Inr _ \<Rightarrow> (case expires of None \<Rightarrow> Inr () | Some x \<Rightarrow>
          (case (parse_canonical_utc x, parse_canonical_utc (case deliver of None \<Rightarrow> now | Some d \<Rightarrow> d)) of
             (Inr x_dt, Inr d_dt) \<Rightarrow> if x_dt \<le> d_dt then Inl (CliError ''expires_not_after_deliver_at'') else Inr ()
           | _ \<Rightarrow> Inl (CliError ''bad_args''))))"

fun recipient_list :: "crypto \<Rightarrow> str \<Rightarrow> str list \<Rightarrow> cli_exn + recipient list" where
  "recipient_list C peer [] = Inr []"
| "recipient_list C peer (pub # pubs) = (case parse_agreement_key C (codes_of pub) of
     None \<Rightarrow> Inl (CliRaised ''ValueError'')
   | Some raw \<Rightarrow> (case recipient_list C peer pubs of Inl e \<Rightarrow> Inl e
       | Inr rs \<Rightarrow> Inr (\<lparr>rp_recipient = codes_of peer, rp_agreement_key = codes_of pub, rp_public = raw\<rparr> # rs)))"

definition seal_keys :: "db \<Rightarrow> relationship_row \<Rightarrow> cli_exn + str list \<times> nat" where
  "seal_keys s rel = (case dual_wrap_keys s (rl_id rel) of
     Inr dual \<Rightarrow> (let es = sort (map fst dual) in Inr (map (\<lambda>e. the (map_of dual e)) es, foldr max es 0))
   | Inl e \<Rightarrow>
       if e = RotationError ''no_acknowledged_rotation'' then
         (if truthy (rl_peer_key rel) then Inr ([the (rl_peer_key rel)], rl_epoch rel)
          else Inl (CliError ''send_error''))
       else Inl (CliRaised (rotation_name e)))"

definition recipients_for :: "crypto \<Rightarrow> db \<Rightarrow> relationship_row \<Rightarrow> str \<Rightarrow> cli_exn + recipient list \<times> nat" where
  "recipients_for C s rel peer = (case seal_keys s rel of Inl e \<Rightarrow> Inl e
   | Inr (pubs, epoch) \<Rightarrow> (case recipient_list C peer pubs of Inl e \<Rightarrow> Inl e | Inr rs \<Rightarrow> Inr (rs, epoch)))"

definition place :: "db \<Rightarrow> str \<Rightarrow> intent \<Rightarrow> cli_exn + str \<times> str option" where
  "place s rid it =
     (if truthy (it_reply it) \<and> it_thread it = None then
        (case fetchone (\<lambda>e. ev_id e = the (it_reply it) \<and> ev_rel e = rid) (events s) of
           None \<Rightarrow> Inl (CliError ''bad_args'')
         | Some e \<Rightarrow> Inr (ev_conv e, ev_thread e))
      else Inr (if truthy (it_conv it) then the (it_conv it) else rid, it_thread it))"

text \<open>The header of the event and the thread it is in; the first event of a thread gives it its id.\<close>

definition address :: "sender \<Rightarrow> fresh \<Rightarrow> str \<Rightarrow> nat \<Rightarrow> intent \<Rightarrow> str \<times> str option \<Rightarrow> cli_exn + header \<times> str option" where
  "address S fr rid epoch it where_to =
     (case build_protected (sd_crypto S) (wall_of S) (fr_event fr) (fr_nonce fr) rid (fst where_to) (sd_me S) (it_type it)
         (Some (if truthy (snd where_to) then the (snd where_to) else fr_thread fr)) (it_reply it) (int epoch)
         (it_deliver it) (it_expires it) None None of
        Inl _ \<Rightarrow> Inl (CliError ''send_error'')
      | Inr h \<Rightarrow> Inr (if snd where_to = None then (h\<lparr>hd_event := fr_thread fr\<rparr>, Some (fr_thread fr)) else (h, snd where_to)))"

definition check_reply :: "db \<Rightarrow> intent \<Rightarrow> str option \<Rightarrow> str \<Rightarrow> cli_exn + unit" where
  "check_reply s it thread conv =
     (if truthy (it_reply it) then
        (case validate_reply s (the (it_reply it)) thread conv of Inl _ \<Rightarrow> Inl (CliError ''bad_args'') | Inr _ \<Rightarrow> Inr ())
      else Inr ())"

definition event_input :: "event_row \<Rightarrow> payload \<Rightarrow> str option \<Rightarrow> proj_event" where
  "event_input e p reply = \<lparr>pe_id = ev_id e, pe_rel = ev_rel e, pe_conv = ev_conv e, pe_thread = ev_thread e,
     pe_sender = ev_sender e, pe_seq = ev_seq e, pe_created = ev_created e, pe_epoch = Some (ev_epoch e),
     pe_type = ev_type e, pe_payload = p, pe_reply_to = reply, pe_received = None\<rparr>"

text \<open>The staged payload of the dry run; its foreign key is deferred and never checked.\<close>

definition stage_deferred :: "str \<Rightarrow> header \<Rightarrow> payload \<Rightarrow> str option \<Rightarrow> db \<Rightarrow> db" where
  "stage_deferred wall h p reply s =
     (if hd_event h \<in> pl_event ` set (event_payloads s) then s
      else s\<lparr>event_payloads := event_payloads s @ [\<lparr>pl_event = hd_event h, pl_type = hd_type h, pl_payload = p,
        pl_reply_to = reply, pl_received = Some wall\<rparr>]\<rparr>)"

definition semantic_dry_run :: "sender \<Rightarrow> header \<Rightarrow> payload \<Rightarrow> str option \<Rightarrow> db \<Rightarrow> cli_exn + unit" where
  "semantic_dry_run S h p reply s =
     (if \<not> sd_valid S (hd_type h) p then Inl (CliError ''send_error'')
      else case fst (apply_event (wall_of S) (event_input ((event_row_of h [])\<lparr>ev_seq := 0\<rparr>) p reply)
          (stage_deferred (wall_of S) h p reply s)) of
        Inl _ \<Rightarrow> Inl (CliError ''send_error'') | Inr _ \<Rightarrow> Inr ())"

definition approval_of :: "str \<Rightarrow> payload \<Rightarrow> str option" where
  "approval_of etype p =
     (if etype \<in> {''human.responded'', ''poll.responded''} then (case p of
        PHumanResponded _ _ _ aid \<Rightarrow> Some aid | PPollResponded _ _ _ aid \<Rightarrow> aid | _ \<Rightarrow> None)
      else None)"

section \<open>Persisting and projecting\<close>

definition acknowledge :: "str \<Rightarrow> db \<Rightarrow> db" where
  "acknowledge eid s = s\<lparr>projection_queue := delete_where (\<lambda>q. pq_event q = eid) (projection_queue s)\<rparr>"

definition project_and_acknowledge :: "str \<Rightarrow> proj_event \<Rightarrow> (db, proj_exn, unit) prog" where
  "project_and_acknowledge wall ev = txn (seq (apply_event wall ev) (\<lambda>_. exec (acknowledge (pe_id ev))))"

definition project_sent :: "str \<Rightarrow> str \<Rightarrow> payload \<Rightarrow> str option \<Rightarrow> unit cli" where
  "project_sent wall eid p reply =
     seq (query (\<lambda>s. event_of s eid)) (\<lambda>row. case row of
       None \<Rightarrow> raise (CliRaised ''TypeError'')
     | Some e \<Rightarrow> catching (\<lambda>x. case x of ProjectionError c \<Rightarrow> CliError ''send_projection_failed''
         | _ \<Rightarrow> CliRaised (projection_name x)) (project_and_acknowledge wall (event_input e p reply)))"

section \<open>Cancellation and activation\<close>

definition claim_cancel :: "str \<Rightarrow> payload \<Rightarrow> str option cli" where
  "claim_cancel etype p =
     (if etype = ''delivery.canceled'' then (case p of
        PDeliveryCanceled sid \<Rightarrow> (\<lambda>s. case cancel sid s of (Inl e, t) \<Rightarrow> (Inr (Some (sched_code e)), t)
          | (Inr c, t) \<Rightarrow> (Inr (Some ''canceled''), t))
      | _ \<Rightarrow> raise (CliRaised ''KeyError''))
      else ret None)"

text \<open>The message a late cancellation asks back, and its thread.\<close>

definition retraction_of :: "db \<Rightarrow> str \<Rightarrow> str option \<Rightarrow> str \<times> str option" where
  "retraction_of s sid thread =
     (let inner = (case staged_of s sid of None \<Rightarrow> sid
        | Some p \<Rightarrow> (case pl_payload p of PDeliveryScheduled i _ _ \<Rightarrow> i | _ \<Rightarrow> sid))
      in (inner, case event_of s inner of
           Some e \<Rightarrow> (if truthy (ev_thread e) then ev_thread e
             else (case event_of s sid of None \<Rightarrow> thread | Some d \<Rightarrow> ev_thread d))
         | None \<Rightarrow> (case event_of s sid of None \<Rightarrow> thread | Some d \<Rightarrow> ev_thread d)))"

definition retraction_intent :: "intent \<Rightarrow> str \<Rightarrow> str \<times> str option \<Rightarrow> intent" where
  "retraction_intent it conv target = \<lparr>it_type = ''message.retracted'',
     it_payload = PMessageRetracted (fst target) (Some ''cancel after release''), it_conv = Some conv,
     it_thread = snd target, it_reply = None, it_deliver = None, it_expires = None, it_dry = False,
     it_skew = it_skew it\<rparr>"

definition mark_active :: "str \<Rightarrow> unit cli" where
  "mark_active rid =
     (if \<not> uuid_matches rid then raise (CliRaised ''PairingError'') else
      txn (seq (query (\<lambda>s. rowcount (\<lambda>r. rl_id r = rid \<and> rl_consent r = ''pending'') (relationships s))) (\<lambda>n.
        if n = 0 then raise (CliRaised ''PairingError'')
        else exec (\<lambda>s. s\<lparr>relationships := update_where (\<lambda>r. rl_id r = rid \<and> rl_consent r = ''pending'')
          (\<lambda>r. r\<lparr>rl_consent := ''active''\<rparr>) (relationships s)\<rparr>))))"

definition sent_by :: "db \<Rightarrow> str \<Rightarrow> str \<Rightarrow> str \<Rightarrow> bool" where
  "sent_by s rid etype who \<longleftrightarrow> (\<exists>e \<in> set (events s). ev_rel e = rid \<and> ev_type e = etype \<and> ev_sender e = who)"

definition maybe_mark_active_after_ready :: "str \<Rightarrow> str \<Rightarrow> unit cli" where
  "maybe_mark_active_after_ready me rid =
     seq (query (\<lambda>s. if uuid_matches rid then relationship_of s rid else None)) (\<lambda>rel. case rel of
       None \<Rightarrow> raise (CliRaised ''PairingError'')
     | Some r \<Rightarrow>
        if rl_consent r = ''active'' then ret ()
        else seq (query (\<lambda>s. sent_by s rid ''relationship.ready'' me \<and> sent_by s rid ''relationship.ready'' (rl_peer r)))
          (\<lambda>both. if both then mark_active rid else ret ()))"

section \<open>Sending\<close>

definition flush_send_transports :: "sender \<Rightarrow> str \<Rightarrow> unit cli" where
  "flush_send_transports S rid = seq (query (\<lambda>s. transport_for s rid ''send'')) (\<lambda>r. case r of
     Inr (GitRelay scope) \<Rightarrow> exec (\<lambda>s. s\<lparr>mutation_queue := sd_flush S scope (mutation_queue s)\<rparr>)
   | Inr (LocalRelay _) \<Rightarrow> ret ()
   | Inl c \<Rightarrow> if c \<in> {''AttributeError'', ''TypeError''} then raise (CliRaised c) else ret ())"

definition sweep_rotations :: "rat \<Rightarrow> unit cli" where
  "sweep_rotations now = (\<lambda>s. case sweep now s of
     (Inl (NoAckTimeout rid n), t) \<Rightarrow> (Inr (), t)
   | (Inl e, t) \<Rightarrow> (Inl (CliRaised (rotation_name e)), t)
   | (Inr _, t) \<Rightarrow> (Inr (), t))"

definition release_due :: "sender \<Rightarrow> rat option \<Rightarrow> str list cli" where
  "release_due S skew = catching (\<lambda>_. CliError ''send_error'')
     (seq (run_due (wall_of S) (cli_release (sd_draw S) (sd_pick S) (sd_now S) (wall_of S)) skew (wall_of S))
       (\<lambda>due. ret (sm_released due)))"

text \<open>Everything before the event is persisted reads only.\<close>

definition prepare_send ::
  "sender \<Rightarrow> fresh \<Rightarrow> relationship_row \<Rightarrow> intent \<Rightarrow> db \<Rightarrow> cli_exn + header \<times> str option \<times> recipient list" where
  "prepare_send S fr rel it s =
     (let rid = rl_id rel in
      case may_send (sd_now S) s rid of
        Inl c \<Rightarrow> Inl (if c = ''send_paused_acknowledged'' then CliError ''send_error'' else CliRaised c)
      | Inr _ \<Rightarrow>
      (case validate_delivery_window (it_deliver it) (it_expires it) (wall_of S) of Inl e \<Rightarrow> Inl e | Inr _ \<Rightarrow>
      (case place s rid it of Inl e \<Rightarrow> Inl e | Inr where_to \<Rightarrow>
      (case recipients_for (sd_crypto S) s rel (rl_peer rel) of Inl e \<Rightarrow> Inl e | Inr (recipients, epoch) \<Rightarrow>
      (case address S fr rid epoch it where_to of Inl e \<Rightarrow> Inl e | Inr (h, thread) \<Rightarrow>
      (case check_reply s it thread (fst where_to) of Inl e \<Rightarrow> Inl e | Inr _ \<Rightarrow>
       if it_dry it then Inr (h, thread, recipients)
       else case semantic_dry_run S h (it_payload it) (it_reply it) s of Inl e \<Rightarrow> Inl e
         | Inr _ \<Rightarrow> Inr (h, thread, recipients)))))))"

definition sequence_of :: "db \<Rightarrow> str \<Rightarrow> nat option" where
  "sequence_of s eid = map_option ev_seq (event_of s eid)"

text \<open>\<open>retract\<close> sends the retraction of a late cancellation.\<close>

definition retract_released ::
  "intent \<Rightarrow> str \<Rightarrow> str option \<Rightarrow> (intent \<Rightarrow> sent cli) \<Rightarrow> str option \<Rightarrow> str option cli" where
  "retract_released it conv thread retract claimed =
     (if claimed = Some ''already_released'' then
        seq (query (\<lambda>s. case it_payload it of PDeliveryCanceled sid \<Rightarrow> retraction_of s sid thread | _ \<Rightarrow> ([], None)))
          (\<lambda>target s. case retract (retraction_intent it conv target) s of
             (Inl (CliError c), t) \<Rightarrow> (Inr (Some ''already_released_retraction_failed''), t)
           | (Inl e, t) \<Rightarrow> (Inl e, t)
           | (Inr _, t) \<Rightarrow> (Inr (Some ''already_released_retracted''), t))
      else ret claimed)"

definition deliver_and_tidy :: "sender \<Rightarrow> relationship_row \<Rightarrow> intent \<Rightarrow> header \<Rightarrow> str option \<Rightarrow> sent cli" where
  "deliver_and_tidy S rel it h outcome =
     seq (release_due S (it_skew it)) (\<lambda>released.
     seq (flush_send_transports S (rl_id rel)) (\<lambda>_.
     seq (sweep_rotations (sd_now S)) (\<lambda>_.
     seq (if it_type it = ''relationship.ready'' then maybe_mark_active_after_ready (sd_me S) (rl_id rel) else ret ()) (\<lambda>_.
     query (\<lambda>s. \<lparr>se_event = hd_event h, se_seq = sequence_of s (hd_event h), se_epoch = hd_epoch h,
       se_names = map so_object (select (\<lambda>x. so_id x \<in> set released) (sent_objects s)),
       se_released = released, se_cancel = outcome\<rparr>)))))"

definition after_persist :: "sender \<Rightarrow> relationship_row \<Rightarrow> intent \<Rightarrow> header \<Rightarrow> str option \<Rightarrow> (intent \<Rightarrow> sent cli) \<Rightarrow> sent cli" where
  "after_persist S rel it h thread retract =
     seq (project_sent (wall_of S) (hd_event h) (it_payload it) (it_reply it)) (\<lambda>_.
     seq (claim_cancel (it_type it) (it_payload it)) (\<lambda>claimed.
     seq (retract_released it (hd_conv h) thread retract claimed) (\<lambda>outcome.
     deliver_and_tidy S rel it h outcome)))"

definition send_with :: "sender \<Rightarrow> fresh \<Rightarrow> relationship_row \<Rightarrow> (intent \<Rightarrow> sent cli) \<Rightarrow> intent \<Rightarrow> sent cli" where
  "send_with S fr rel retract it =
     seq (\<lambda>s. (prepare_send S fr rel it s, s)) (\<lambda>(h, thread, recipients).
     if it_dry it then ret \<lparr>se_event = hd_event h, se_seq = None, se_epoch = hd_epoch h, se_names = [],
       se_released = [], se_cancel = None\<rparr>
     else
       seq (catching (\<lambda>_. CliError ''send_error'')
         (assign_and_persist_outgoing (sd_crypto S) (fr_draws fr) (sd_doc S) (sd_valid S) (wall_of S) h (it_payload it)
           (sd_secret S) recipients (approval_of (it_type it) (it_payload it)))) (\<lambda>_.
       after_persist S rel it h thread retract))"

text \<open>A retraction is no cancellation, so the recursion ends with it.\<close>

definition send_event :: "sender \<Rightarrow> fresh \<Rightarrow> fresh \<Rightarrow> relationship_row \<Rightarrow> intent \<Rightarrow> sent cli" where
  "send_event S fr fr' rel it = send_with S fr rel (send_with S fr' rel (\<lambda>_. raise (CliRaised []))) it"

section \<open>The log keeps its rows, and gains those of the sender\<close>

definition log_in :: "event_row set \<Rightarrow> event_row set \<Rightarrow> db \<Rightarrow> bool" where
  "log_in L B s \<longleftrightarrow> L \<subseteq> set (events s) \<and> set (events s) \<subseteq> B"

named_theorems log_intros "programs that keep the rows of the log"

lemma log_same: "(\<And>s. events (snd (p s)) = events s) \<Longrightarrow> preserves (log_in L B) p"
  by (rule preservesI) (simp add: log_in_def)

lemma log_exec: "(\<And>s. events (f s) = events s) \<Longrightarrow> preserves (log_in L B) (exec f)"
  by (rule preserves_exec) (simp add: log_in_def)

lemma log_txn [log_intros]: "preserves (log_in L B) p \<Longrightarrow> preserves (log_in L B) (txn p)"
  by (erule preserves_txn) (simp add: log_in_def rollback_def)

text \<open>A program that only renames the outcome of another.\<close>

lemma preserves_outcome: "preserves I p \<Longrightarrow> (\<And>s. snd (q s) = snd (p s)) \<Longrightarrow> preserves I q"
  by (simp add: preserves_def)

lemma log_catching [log_intros]: "preserves (log_in L B) p \<Longrightarrow> preserves (log_in L B) (catching f p)"
  by (erule preserves_outcome) (simp add: catching_def split: prod.split sum.split)

lemma log_apply [log_intros]: "preserves (log_in L B) (apply_event wall ev)"
proof (rule log_same)
  fix s
  have "outside (snd (apply_event wall ev s)) = outside s"
    using preservesD [OF frame.apply_event_kept [where B = "outside s" and ev = ev and wall = wall], of s] by simp
  then have "events (outside (snd (apply_event wall ev s))) = events (outside s)" by simp
  then show "events (snd (apply_event wall ev s)) = events s" by (simp add: outside_def)
qed

lemma log_project [log_intros]: "preserves (log_in L B) (project_and_acknowledge wall ev)"
  unfolding project_and_acknowledge_def
  by (intro log_intros pres_intros log_exec) (simp add: acknowledge_def)

lemma log_project_sent [log_intros]: "preserves (log_in L B) (project_sent wall eid p reply)"
  unfolding project_sent_def by (intro pres_intros log_intros)

lemma log_release [log_intros]: "preserves (log_in L B) (cli_release draw pick now wall sid env late)"
  by (rule log_same) (use cli.release_setting in \<open>simp add: same_setting_def\<close>)

lemma log_restore [log_intros]: "preserves (log_in L B) (restore_approval sid aid wall t)"
  by (rule log_same) (use same_setting_restore in \<open>simp add: same_setting_def\<close>)

lemma log_set_state [log_intros]: "preserves (log_in L B) (exec (set_state sid st))"
  by (rule log_exec) (simp add: set_state_def)

lemma log_release_body [log_intros]: "preserves (log_in L B) (release_body (cli_release draw pick now wall) moment row)"
proof -
  have "preserves (log_in L B) (gated_release (cli_release draw pick now wall) sid env late)" for sid env late
    by (rule preserves_outcome [OF log_release [of L B draw pick now wall sid env late]])
      (simp add: gated_release_def split: prod.split sum.split sched_exn.split)
  then show ?thesis
    unfolding release_body_def Let_def by (intro pres_intros log_intros)
qed

lemma log_run_row [log_intros]: "preserves (log_in L B) (run_row (cli_release draw pick now wall) moment wall' row m)"
proof -
  have "preserves (log_in L B) (release_one_row (cli_release draw pick now wall) moment row)"
    by (rule preserves_outcome [OF log_txn [OF log_release_body [of L B draw pick now wall moment row]]])
      (simp add: release_one_row_def split: prod.split sum.split sched_exn.split)
  moreover have "preserves (log_in L B) (record_release_failure wall' sid)" for sid
    unfolding record_release_failure_def
    by (intro pres_intros log_intros log_exec) (simp_all add: strike_def)
  ultimately have step: "log_in L B s \<Longrightarrow> release_one_row (cli_release draw pick now wall) moment row s = (r, t) \<Longrightarrow> log_in L B t"
    "log_in L B s \<Longrightarrow> record_release_failure wall' sid s = (q, t) \<Longrightarrow> log_in L B t" for s t r q sid
    unfolding preserves_def by (metis snd_conv)+
  show ?thesis
    by (rule preservesI) (auto simp: run_row_def split: prod.split sum.split dest: step)
qed

lemma log_run_rows [log_intros]:
  "preserves (log_in L B) (run_rows (cli_release draw pick now wall) moment wall' rows m)"
  by (induction rows arbitrary: m) (simp_all add: preserves_ret preserves_seq log_run_row)

lemma log_release_due [log_intros]: "preserves (log_in L B) (release_due S skew)"
  unfolding release_due_def run_due_def by (intro pres_intros log_intros)

lemma log_cancel [log_intros]: "preserves (log_in L B) (claim_cancel etype p)"
proof -
  have "preserves (log_in L B) (cancel sid)" for sid
    unfolding cancel_def by (intro pres_intros log_intros)
  then have step: "log_in L B s \<Longrightarrow> cancel sid s = (r, t) \<Longrightarrow> log_in L B t" for s t r sid
    unfolding preserves_def by (metis snd_conv)
  show ?thesis
    by (rule preservesI, cases p)
      (auto simp: claim_cancel_def prog_run split: prod.split sum.split dest: step)
qed

text \<open>The sweep writes the tables of the rotation only.\<close>

lemma log_advance [log_intros]: "preserves (log_in L B) (advance rid e role P f)"
  by (rule log_same) (simp add: advance_def)

lemma log_key_file [log_intros]: "preserves (log_in L B) (delete_key_file x)"
  unfolding delete_key_file_def by (rule log_exec) (simp add: delete_private_key_def split: option.split)

lemma compact_peer_log: "events (compact_peer_key_epochs s) = events s"
proof -
  have "events (fold compact_peer_keys_of rids s) = events s" for rids
    by (induction rids arbitrary: s) (simp_all add: compact_peer_keys_of_def delete_keys_def)
  then show ?thesis by (simp add: compact_peer_key_epochs_def)
qed

lemma log_tidy [log_intros]: "preserves (log_in L B) (tidy now)"
  unfolding tidy_def
  by (intro pres_intros log_intros log_exec)
    (simp_all add: release_held_def expire_wrap_seen_def compact_committed_rotations_def delete_rotations_def
      compact_peer_log compact_security_key_events_def)

lemma log_discard [log_intros]: "preserves (log_in L B) (discard_candidate rid e expected)"
  unfolding discard_candidate_def
  by (intro pres_intros log_intros log_exec) (simp add: delete_keys_def)

lemma log_claim [log_intros]: "preserves (log_in L B) (claim_timed_out now)"
  unfolding claim_timed_out_def by (intro pres_intros log_intros)

lemma log_retire [log_intros]: "preserves (log_in L B) (retire_old_keys now rs)"
proof -
  have "preserves (log_in L B) (retire_in_txn rid e prior)" for rid e prior
    unfolding retire_in_txn_def
    by (intro pres_intros log_intros log_exec) (simp_all add: delete_keys_def delete_rotations_def)
  then have "preserves (log_in L B) (retire_old_key now r)" for r
    unfolding retire_old_key_def
    by (intro pres_intros log_intros | assumption | simp split: option.split)+
  then show ?thesis by (induction rs) (simp_all add: preserves_ret preserves_seq)
qed

lemma log_sweep [log_intros]: "preserves (log_in L B) (sweep_rotations now)"
proof -
  have "preserves (log_in L B) (sweep now)"
    unfolding sweep_def by (intro pres_intros log_intros)
  then show ?thesis
    by (rule preserves_outcome) (simp add: sweep_rotations_def split: prod.split sum.split rotation_exn.split)
qed

lemma log_mark [log_intros]: "preserves (log_in L B) (maybe_mark_active_after_ready me rid)"
  unfolding maybe_mark_active_after_ready_def mark_active_def
  by (intro pres_intros log_intros log_exec) simp_all

lemma log_flush [log_intros]: "preserves (log_in L B) (flush_send_transports S rid)"
  unfolding flush_send_transports_def
  by (intro preserves_seq preserves_query)
    (auto split: sum.split relay_kind.split intro!: log_exec pres_intros)

lemma log_stage: "events (snd (stage_payload valid wall h p received s)) = events s"
  "scheduler_queue (snd (stage_payload valid wall h p received s)) = scheduler_queue s"
  by (auto simp: stage_payload_def record_projection_input_def Let_def prog_run split: option.split prod.split sum.split)

text \<open>What a returned \<open>persist_outgoing_in_txn\<close> has written.\<close>

lemma persist_logs:
  assumes "persist_outgoing_in_txn C dr doc valid wall h p sk recipients approval s = (Inr env, t)"
  shows "\<exists>sealed. events t = events s @ [event_row_of (numbered s h) sealed] \<and>
    hd_event h \<notin> ev_id ` set (events s) \<and>
    (\<exists>q \<in> set (scheduler_queue t). sq_id q = hd_event h \<and> sq_state q = Scheduled \<and> sq_inner q = sealed)"
proof -
  obtain u where u: "approval_claimed wall h p approval s u"
    and r: "(if hd_rel h = [] \<or> hd_sender h = [] then raise OutValueError
      else seq (query (\<lambda>s. numbered s h)) (\<lambda>h'. seq (lift (seal_header C dr doc sk recipients h' p))
        (\<lambda>(env, sealed). seq (store_outgoing valid wall h' p approval sealed) (\<lambda>_. ret env)))) u = (Inr env, t)"
    using assms unfolding persist_outgoing_in_txn_def seq_returns [of "claim_approval _ _ _ _"] claim_returns by blast
  have same: "events u = events s" using claimed_same [OF u] by auto
  have n: "numbered u h = numbered s h" by (rule claimed_numbered [OF u])
  obtain e sealed where se: "seal_header C dr doc sk recipients (numbered u h) p = Inr (e, sealed)"
    and st: "store_outgoing valid wall (numbered u h) p approval sealed u = (Inr (), t)"
    using r by (cases "seal_header C dr doc sk recipients (numbered u h) p") (auto simp: prog_run seq_returns split: if_splits)
  let ?h = "numbered s h"
  obtain s2 where s2: "ensure_thread (hd_thread ?h) (hd_conv ?h) (ensure_conversation (hd_conv ?h) u) = (Inr (), s2)"
    and r2: "seq (insert_event (event_row_of ?h sealed)) (\<lambda>_.
     seq (exec (note_sequence (hd_rel ?h) (hd_sender ?h) (hd_seq ?h))) (\<lambda>_.
     seq (exec (queue_projection (hd_event ?h) wall)) (\<lambda>_.
     seq (stage_payload valid wall ?h p None) (\<lambda>_.
     seq (enqueue wall ?h sealed) (\<lambda>_. exec (mark_approval (hd_event ?h) approval)))))) s2 = (Inr (), t)"
    using st unfolding store_outgoing_def prog_run n by (auto simp: seq_returns)
  have ev2: "events s2 = events s"
    using ensure_thread_returns [OF s2] same by (auto simp: ensure_conversation_def)
  obtain s6 where fresh: "event_conflict s2 (event_row_of ?h sealed) = None"
    and s6: "stage_payload valid wall ?h p None (queue_projection (hd_event ?h) wall (note_sequence (hd_rel ?h) (hd_sender ?h)
      (hd_seq ?h) (s2\<lparr>events := events s2 @ [event_row_of ?h sealed]\<rparr>))) = (Inr (), s6)"
    and r6: "seq (enqueue wall ?h sealed) (\<lambda>_. exec (mark_approval (hd_event ?h) approval)) s6 = (Inr (), t)"
    using r2 unfolding seq_returns [of "insert_event _"] insert_event_returns
    by (auto simp: prog_run seq_returns)
  have ev6: "events s6 = events s @ [event_row_of ?h sealed]"
    using arg_cong [OF s6, of snd, THEN arg_cong, of events]
    by (simp add: log_stage queue_projection_def note_sequence_def ev2)
  obtain new: "hd_event ?h \<notin> sq_id ` set (scheduler_queue s6)"
    and t: "t = mark_approval (hd_event ?h) approval (s6\<lparr>scheduler_queue := scheduler_queue s6 @
       [new_sched_row (hd_event ?h) sealed (deliver_moment ?h wall) (hd_expires ?h)]\<rparr>)"
    using r6 by (auto simp: seq_returns enqueue_returns prog_run)
  have "hd_event h \<notin> ev_id ` set (events s)"
    using fresh by (auto simp: event_conflict_def event_row_of_def ev2 numbered_def split: if_splits)
  moreover have "events t = events s @ [event_row_of ?h sealed]"
    using ev6 by (cases approval) (simp_all add: t mark_approval_def)
  moreover have "\<exists>q \<in> set (scheduler_queue t). sq_id q = hd_event h \<and> sq_state q = Scheduled \<and> sq_inner q = sealed"
    using mark_approval_rows [OF new] by (simp add: t new_sched_row_def numbered_def)
  ultimately show ?thesis by blast
qed

lemma assign_logs:
  "case assign_and_persist_outgoing C dr doc valid wall h p sk recipients approval s of
      (Inl e, t) \<Rightarrow> t = s
    | (Inr env, t) \<Rightarrow> \<exists>sealed. events t = events s @ [event_row_of (numbered s h) sealed] \<and>
        hd_event h \<notin> ev_id ` set (events s) \<and>
        (\<exists>q \<in> set (scheduler_queue t). sq_id q = hd_event h \<and> sq_state q = Scheduled \<and> sq_inner q = sealed)"
proof -
  obtain r t where p: "persist_outgoing_in_txn C dr doc valid wall h p sk recipients approval s = (r, t)" by fastforce
  show ?thesis
  proof (cases r)
    case (Inl e)
    have "same_files s t"
      using preservesD [OF persist_files [of s C dr doc valid wall h p sk recipients approval], of s] p by simp
    then show ?thesis
      using txn_Inl [of "persist_outgoing_in_txn C dr doc valid wall h p sk recipients approval"] p Inl
      by (simp add: assign_and_persist_outgoing_def rollback_same_files)
  next
    case (Inr env)
    then show ?thesis
      using txn_Inr [of "persist_outgoing_in_txn C dr doc valid wall h p sk recipients approval"] p persist_logs
      by (fastforce simp: assign_and_persist_outgoing_def)
  qed
qed

definition own_rows :: "str \<Rightarrow> event_row set" where
  "own_rows me = {e. ev_sender e = me}"

lemma own_row: "ev_sender e = me \<Longrightarrow> own_rows me \<subseteq> B \<Longrightarrow> e \<in> B"
  by (auto simp: own_rows_def)

lemma log_assign:
  assumes "own_rows (hd_sender h) \<subseteq> B"
  shows "preserves (log_in L B) (assign_and_persist_outgoing C dr doc valid wall h p sk recipients approval)"
proof (rule preservesI)
  fix s assume "log_in L B s"
  then show "log_in L B (snd (assign_and_persist_outgoing C dr doc valid wall h p sk recipients approval s))"
    using own_row [OF _ assms] assign_logs [where C = C and dr = dr and doc = doc and valid = valid and wall = wall
        and h = h and p = p and sk = sk and recipients = recipients and approval = approval and s = s]
    by (auto simp: log_in_def event_row_of_def numbered_def split: prod.splits sum.splits)
qed

lemma log_after_persist:
  assumes "\<And>i. preserves (log_in L B) (retract i)"
  shows "preserves (log_in L B) (after_persist S rel it h thread retract)"
proof -
  have "preserves (log_in L B) (\<lambda>s. case retract i s of
      (Inl (CliError c), t) \<Rightarrow> (Inr (Some ''already_released_retraction_failed''), t)
    | (Inl e, t) \<Rightarrow> (Inl e, t) | (Inr _, t) \<Rightarrow> (Inr (Some ''already_released_retracted''), t))" for i
    by (rule preserves_outcome [OF assms [of i]]) (simp split: prod.split sum.split cli_exn.split)
  then show ?thesis
    unfolding after_persist_def deliver_and_tidy_def retract_released_def by (intro pres_intros log_intros)
qed

text \<open>Only the projection reports \<open>send_projection_failed\<close>.\<close>

definition never :: "'e \<Rightarrow> ('s, 'e, 'a) prog \<Rightarrow> bool" where
  "never x p \<longleftrightarrow> (\<forall>s. fst (p s) \<noteq> Inl x)"

named_theorems never_intros "programs that never raise an exception"

lemma never_seq [never_intros]: "never x p \<Longrightarrow> (\<And>a. never x (f a)) \<Longrightarrow> never x (seq p f)"
  unfolding never_def seq_def by (auto split: prod.split sum.split) (metis fst_conv)

lemma never_basic [never_intros]: "never x (ret a)" "never x (query f)" "never x (exec h)" "e \<noteq> x \<Longrightarrow> never x (raise e)"
  by (simp_all add: never_def prog_run)

lemma never_if [never_intros]: "(b \<Longrightarrow> never x p) \<Longrightarrow> (\<not> b \<Longrightarrow> never x q) \<Longrightarrow> never x (if b then p else q)"
  by simp

lemma never_txn [never_intros]: "never x p \<Longrightarrow> never x (txn p)"
  by (simp add: never_def txn_outcome)

lemma never_catching [never_intros]: "(\<And>e. f e \<noteq> x) \<Longrightarrow> never x (catching f p)"
  by (auto simp: never_def catching_def split: prod.split sum.split)

abbreviation projection_failed :: cli_exn where
  "projection_failed \<equiv> CliError ''send_projection_failed''"

lemma after_projection:
  assumes "after_persist S rel it h thread retract s = (Inl projection_failed, t)"
  shows "project_sent (wall_of S) (hd_event h) (it_payload it) (it_reply it) s = (Inl projection_failed, t)"
proof -
  have a: "never projection_failed (claim_cancel etype p)" for etype p
    by (auto simp: never_def claim_cancel_def prog_run split: payload.split prod.split sum.split)
  have b: "never projection_failed (retract_released it' conv thread' retract claimed)" for it' conv thread' claimed
    by (auto simp: never_def retract_released_def prog_run split: prod.split sum.split cli_exn.split)
  have c: "never projection_failed (flush_send_transports S rid)" for rid
    by (auto simp: never_def flush_send_transports_def prog_run split: sum.split relay_kind.split)
  have d: "never projection_failed (sweep_rotations now)" for now
    by (auto simp: never_def sweep_rotations_def split: prod.split sum.split rotation_exn.split)
  have e: "never projection_failed (maybe_mark_active_after_ready me rid)" for me rid
    by (auto simp: never_def maybe_mark_active_after_ready_def mark_active_def txn_def prog_run split: option.split)
  have r: "never projection_failed (release_due S skew)" for skew
    unfolding release_due_def by (intro never_intros) simp
  obtain q u where p: "project_sent (wall_of S) (hd_event h) (it_payload it) (it_reply it) s = (q, u)" by fastforce
  show ?thesis
  proof (cases q)
    case (Inl x)
    then show ?thesis using assms p by (simp add: after_persist_def seq_run)
  next
    case (Inr x)
    have "never projection_failed (seq (claim_cancel (it_type it) (it_payload it)) (\<lambda>claimed.
        seq (retract_released it (hd_conv h) thread retract claimed) (deliver_and_tidy S rel it h)))"
      unfolding deliver_and_tidy_def by (intro never_intros a b c d e r)
    then show ?thesis using assms unfolding after_persist_def seq_run [of "project_sent _ _ _ _"] p Inr
      by (auto simp: never_def dest: arg_cong [where f = fst])
  qed
qed

lemma failed_projection_queue:
  assumes "project_sent wall eid p reply s = (Inl x, t)"
  shows "scheduler_queue t = scheduler_queue s"
  using assms
  by (auto simp: project_sent_def prog_run catching_def project_and_acknowledge_def txn_def rollback_def
      split: option.splits prod.splits sum.splits)

lemma addressed:
  assumes "address S fr rid epoch it where_to = Inr (h, thread)"
  shows "hd_rel h = rid \<and> hd_sender h = sd_me S \<and> hd_type h = it_type it"
proof -
  have built: "hd_rel b = rel \<and> hd_sender b = who \<and> hd_type b = etype"
    if "build_protected C wall e n rel conv who etype th re ep d x k c = Inr b" for C wall e n rel conv who etype th re ep d x k c b
    using that by (simp add: build_protected_def split: if_splits) (auto dest: sym)
  show ?thesis using assms unfolding address_def by (simp split: sum.splits if_splits) (use built in fastforce)+
qed

lemma prepared:
  assumes "prepare_send S fr rel it s = Inr (h, thread, recipients)"
  shows "may_send (sd_now S) s (rl_id rel) = Inr ()"
    "validate_delivery_window (it_deliver it) (it_expires it) (wall_of S) = Inr ()"
    "\<not> it_dry it \<Longrightarrow> semantic_dry_run S h (it_payload it) (it_reply it) s = Inr ()"
    "hd_rel h = rl_id rel" "hd_sender h = sd_me S" "hd_type h = it_type it"
proof -
  have m: "may_send (sd_now S) s (rl_id rel) = Inr ()"
    using assms by (cases "may_send (sd_now S) s (rl_id rel)") (simp_all add: prepare_send_def)
  have v: "validate_delivery_window (it_deliver it) (it_expires it) (wall_of S) = Inr ()"
    using assms by (cases "validate_delivery_window (it_deliver it) (it_expires it) (wall_of S)")
      (simp_all add: prepare_send_def Let_def m)
  obtain w where w: "place s (rl_id rel) it = Inr w"
    using assms by (simp add: prepare_send_def Let_def m v split: sum.splits)
  obtain rs epoch where r: "recipients_for (sd_crypto S) s rel (rl_peer rel) = Inr (rs, epoch)"
    using assms by (simp add: prepare_send_def Let_def m v w split: sum.splits prod.splits)
  obtain h' th where a: "address S fr (rl_id rel) epoch it w = Inr (h', th)"
    using assms by (simp add: prepare_send_def Let_def m v w r split: sum.splits prod.splits)
  have h: "h' = h" "\<not> it_dry it \<Longrightarrow> semantic_dry_run S h (it_payload it) (it_reply it) s = Inr ()"
    using assms by (simp_all add: prepare_send_def Let_def m v w r a split: sum.splits if_splits)
  show "may_send (sd_now S) s (rl_id rel) = Inr ()"
    "validate_delivery_window (it_deliver it) (it_expires it) (wall_of S) = Inr ()"
    "\<not> it_dry it \<Longrightarrow> semantic_dry_run S h (it_payload it) (it_reply it) s = Inr ()"
    "hd_rel h = rl_id rel" "hd_sender h = sd_me S" "hd_type h = it_type it"
    using m v h addressed [OF a] by simp_all
qed

lemma log_send_with:
  assumes "\<And>i. preserves (log_in L B) (retract i)" and "own_rows (sd_me S) \<subseteq> B"
  shows "preserves (log_in L B) (send_with S fr rel retract it)"
proof (rule preservesI)
  fix s assume s: "log_in L B s"
  show "log_in L B (snd (send_with S fr rel retract it s))"
  proof (cases "prepare_send S fr rel it s")
    case (Inl x)
    then show ?thesis using s by (simp add: send_with_def seq_run)
  next
    case (Inr a)
    obtain h thread recipients where a: "a = (h, thread, recipients)" by (cases a)
    have p: "own_rows (hd_sender h) \<subseteq> B" using prepared(5) [OF Inr [unfolded a]] assms(2) by simp
    have "preserves (log_in L B) (if it_dry it then ret x
      else seq (catching f (assign_and_persist_outgoing (sd_crypto S) (fr_draws fr) (sd_doc S) (sd_valid S) (wall_of S) h
          (it_payload it) (sd_secret S) recipients (approval_of (it_type it) (it_payload it))))
        (\<lambda>_. after_persist S rel it h thread retract))" for x f
      by (intro pres_intros log_intros log_assign [OF p] log_after_persist [OF assms(1)])
    from preservesD [OF this s] show ?thesis
      by (simp add: send_with_def seq_run [where p = "\<lambda>s. (prepare_send S fr rel it s, s)"] Inr a)
  qed
qed

lemma log_send_event: "own_rows (sd_me S) \<subseteq> B \<Longrightarrow> preserves (log_in L B) (send_event S fr fr' rel it)"
  unfolding send_event_def by (intro log_send_with pres_intros)

lemma refused_codes:
  "validate_delivery_window d x now \<noteq> Inl projection_failed" "place s rid it \<noteq> Inl projection_failed"
  "address S fr rid epoch it w \<noteq> Inl projection_failed" "check_reply s it th conv \<noteq> Inl projection_failed"
  "semantic_dry_run S h p reply s \<noteq> Inl projection_failed"
  by (auto simp: validate_delivery_window_def place_def address_def check_reply_def semantic_dry_run_def Let_def
      split: sum.split option.split)

lemma recipient_list_no: "recipient_list C peer pubs \<noteq> Inl (CliError c)"
  by (induction pubs) (auto split: option.split sum.split)

lemma recipients_code: "recipients_for C s rel peer \<noteq> Inl projection_failed"
  by (auto simp: recipients_for_def seal_keys_def Let_def recipient_list_no
      simp del: recipient_list.simps split: sum.splits prod.splits if_splits)

lemma prepare_code: "prepare_send S fr rel it s \<noteq> Inl projection_failed"
proof
  assume a: "prepare_send S fr rel it s = Inl projection_failed"
  have m: "may_send (sd_now S) s (rl_id rel) = Inr ()"
    using a by (cases "may_send (sd_now S) s (rl_id rel)") (simp_all add: prepare_send_def split: if_splits)
  obtain w where w: "validate_delivery_window (it_deliver it) (it_expires it) (wall_of S) = Inr ()"
    "place s (rl_id rel) it = Inr w"
    using a by (cases "validate_delivery_window (it_deliver it) (it_expires it) (wall_of S)";
      cases "place s (rl_id rel) it") (auto simp: prepare_send_def Let_def m refused_codes)
  obtain rs epoch where r: "recipients_for (sd_crypto S) s rel (rl_peer rel) = Inr (rs, epoch)"
    using a by (simp add: prepare_send_def Let_def m w recipients_code split: sum.splits prod.splits)
  show False
    using a by (simp add: prepare_send_def Let_def m w r refused_codes split: sum.splits prod.splits if_splits)
qed

text \<open>What one call leaves behind.\<close>

definition sent_row :: "sender \<Rightarrow> relationship_row \<Rightarrow> intent \<Rightarrow> db \<Rightarrow> event_row \<Rightarrow> bool" where
  "sent_row S rel it s e \<longleftrightarrow> ev_rel e = rl_id rel \<and> ev_sender e = sd_me S \<and> ev_type e = it_type it \<and>
     ev_seq e = Suc (latest_seq s (rl_id rel) (sd_me S)) \<and> ev_id e \<notin> ev_id ` set (events s)"

definition still_queued :: "event_row \<Rightarrow> db \<Rightarrow> bool" where
  "still_queued e t \<longleftrightarrow> (\<exists>q \<in> set (scheduler_queue t). sq_id q = ev_id e \<and> sq_state q = Scheduled \<and> sq_inner q = ev_sealed e)"

text \<open>C13. A send either changes nothing or puts exactly the event it was asked for into the log.
  Whatever \<open>_send_event\<close> answers, one of two things holds. The database is as before, no approval is
  spent, and the answer is a refusal or that of a dry run. Or the relationship may send, the delivery
  window holds and the dry run of the projection has passed, and the event, with the next number
  of its sender, is in the log together with everything logged before, and every other event the log
  has gained was sent by this side, whatever happened to its projection, its release, a late
  cancellation and its retraction or the sweep. The code
  \<open>send_projection_failed\<close>, which tells the operator not to send again, is given only in the second
  case, and then the sealed event indeed waits in the scheduler's queue; a returned summary names
  the logged event.\<close>
theorem send_logged_or_untouched:
  "case send_event S fr fr' rel it s of (r, t) \<Rightarrow>
     (t = s \<and> r \<noteq> Inl projection_failed \<and> (is_ok r \<longleftrightarrow> it_dry it \<and> is_ok (prepare_send S fr rel it s))) \<or>
     (may_send (sd_now S) s (rl_id rel) = Inr () \<and>
      validate_delivery_window (it_deliver it) (it_expires it) (wall_of S) = Inr () \<and>
      (\<exists>h thread recipients. prepare_send S fr rel it s = Inr (h, thread, recipients) \<and>
        semantic_dry_run S h (it_payload it) (it_reply it) s = Inr ()) \<and>
      (\<exists>e. sent_row S rel it s e \<and> insert e (set (events s)) \<subseteq> set (events t) \<and>
        set (events t) \<subseteq> set (events s) \<union> own_rows (sd_me S) \<and>
        (case r of Inl x \<Rightarrow> if x = projection_failed then still_queued e t else True
          | Inr x \<Rightarrow> se_event x = ev_id e)))"
proof -
  let ?retract = "send_with S fr' rel (\<lambda>_. raise (CliRaised []))"
  obtain r t where rt: "send_event S fr fr' rel it s = (r, t)" by fastforce
  have "preserves (log_in {} (set (events s) \<union> own_rows (sd_me S))) (send_event S fr fr' rel it)"
    by (rule log_send_event) simp
  then have own: "set (events t) \<subseteq> set (events s) \<union> own_rows (sd_me S)"
    using preservesD [of "log_in {} (set (events s) \<union> own_rows (sd_me S))" _ s] rt by (fastforce simp: log_in_def)
  show ?thesis
  proof (cases "prepare_send S fr rel it s")
    case (Inl x)
    have "x \<noteq> projection_failed"
      using Inl prepare_code [of S fr rel it s] by auto
    then show ?thesis using Inl rt by (auto simp: send_event_def send_with_def seq_run)
  next
    case (Inr a)
    obtain h thread recipients where p: "prepare_send S fr rel it s = Inr (h, thread, recipients)"
      using Inr by (cases a) auto
    show ?thesis
    proof (cases "it_dry it")
      case True
      then have "is_ok r \<and> t = s"
        using rt by (auto simp: send_event_def send_with_def seq_run p prog_run)
      then show ?thesis unfolding rt p using True by (cases r) auto
    next
      case False
      let ?persist = "assign_and_persist_outgoing (sd_crypto S) (fr_draws fr) (sd_doc S) (sd_valid S) (wall_of S) h
        (it_payload it) (sd_secret S) recipients (approval_of (it_type it) (it_payload it))"
      obtain q u where qu: "?persist s = (q, u)" by fastforce
      have run: "(r, t) = (case q of Inl x \<Rightarrow> (Inl (CliError ''send_error''), u)
          | Inr x \<Rightarrow> after_persist S rel it h thread ?retract u)"
        using rt False by (simp add: send_event_def send_with_def seq_run p catching_def qu split: sum.splits)
      note logs = assign_logs [where C = "sd_crypto S" and dr = "fr_draws fr" and doc = "sd_doc S" and valid = "sd_valid S"
          and wall = "wall_of S" and h = h and p = "it_payload it" and sk = "sd_secret S" and recipients = recipients
          and approval = "approval_of (it_type it) (it_payload it)" and s = s, unfolded qu]
      show ?thesis
      proof (cases q)
        case (Inl x)
        then show ?thesis using run logs rt False by simp
      next
        case (Inr env)
        obtain sealed where e: "events u = events s @ [event_row_of (numbered s h) sealed]"
          "hd_event h \<notin> ev_id ` set (events s)"
          "\<exists>q \<in> set (scheduler_queue u). sq_id q = hd_event h \<and> sq_state q = Scheduled \<and> sq_inner q = sealed"
          using logs Inr by auto
        let ?e = "event_row_of (numbered s h) sealed"
        have ap: "after_persist S rel it h thread ?retract u = (r, t)" using run Inr by simp
        have row: "sent_row S rel it s ?e" "ev_id ?e = hd_event h" "ev_sealed ?e = sealed"
          using prepared [OF p] e(2) by (simp_all add: sent_row_def event_row_of_def numbered_def)
        have "preserves (log_in (set (events u)) UNIV) (after_persist S rel it h thread ?retract)"
          by (intro log_after_persist log_send_with pres_intros) simp
        then have grow: "insert ?e (set (events s)) \<subseteq> set (events t)"
          using preservesD [of "log_in (set (events u)) UNIV" _ u] ap by (fastforce simp: log_in_def e(1))
        have "still_queued ?e t" if "r = Inl projection_failed"
          using failed_projection_queue [OF after_projection [OF ap [unfolded that]]] e(3) row
          by (simp add: still_queued_def)
        moreover have "se_event x = hd_event h" if "r = Inr x" for x
          using ap that by (auto simp: after_persist_def deliver_and_tidy_def seq_returns prog_run)
        ultimately show ?thesis
          using rt p prepared [OF p] False row grow own by (cases r) auto
      qed
    qed
  qed
qed

end
