(* ===== verification/Cards.thy ===== *)
theory Cards
  imports Sealing Rotation
begin

text \<open>
  Agent cards (\<open>model/cards.py\<close>), the eight-word phrase (\<open>crypto/words.py\<close>) and the rotation of an
  identity key (the functions at the end of \<open>crypto/rotation.py\<close>).

  \<^item> A card is a JSON value as it was parsed. \<open>verify_card\<close> answers its reason code; the card is good
    exactly if that is \<open>VALID\<close>, and \<open>EXPIRED\<close> is the only code that comes with \<open>expired=True\<close>.
  \<^item> Timestamps are ASCII texts (\<open>strptime\<close> also reads other decimal digits at some places), and \<open>now\<close> is
    in seconds since year 1, at least five minutes before the last year ends. The order of texts is the
    order of their code points.
\<close>

definition CARD_VERSION :: int where "CARD_VERSION = 1"
definition MAX_CAPABILITIES :: nat where "MAX_CAPABILITIES = 64"
definition MAX_CAPABILITY_BYTES :: nat where "MAX_CAPABILITY_BYTES = 64"
definition MAX_CARD_LIFETIME :: int where "MAX_CARD_LIFETIME = 365 * 86400"
definition CLOCK_SKEW_TOLERANCE :: int where "CLOCK_SKEW_TOLERANCE = 5 * 60"
definition CARD_NONCE_BYTES :: nat where "CARD_NONCE_BYTES = 16"

definition CARD_FIELDS :: "codes list" where
  "CARD_FIELDS = map codes_of [''card_version'', ''identity_id'', ''display_name'', ''principal_label'',
     ''bootstrap_agreement_key'', ''capabilities'', ''issued_at'', ''expires_at'', ''card_nonce'', ''signature'']"

section \<open>Fields\<close>

definition hex_char :: "nat \<Rightarrow> char" where
  "hex_char n = ''0123456789abcdef'' ! n"

definition hex_text :: "bytes \<Rightarrow> str" where
  "hex_text bs = concat (map (\<lambda>b. [hex_char (b div 16), hex_char (b mod 16)]) bs)"

text \<open>A document of the database as the parser's value.\<close>

fun jval_of :: "json \<Rightarrow> jval" where
  "jval_of JNull = VNull"
| "jval_of (JBool b) = VBool b"
| "jval_of (JInt i) = VInt i"
| "jval_of (JStr t) = VStr (codes_of t)"
| "jval_of (JArr vs) = VArr (map jval_of vs)"
| "jval_of (JObj d) = VObj (map (\<lambda>e. (codes_of (fst e), jval_of (snd e))) d)"

definition codes_value :: "jval \<Rightarrow> codes option" where
  "codes_value v = (case v of VStr t \<Rightarrow> Some t | _ \<Rightarrow> None)"

definition card_field :: "fields \<Rightarrow> str \<Rightarrow> jval" where
  "card_field fs k = (case map_of fs (codes_of k) of None \<Rightarrow> VNull | Some v \<Rightarrow> v)"

definition parse_timestamp :: "jval \<Rightarrow> instant option" where
  "parse_timestamp v = (case v of
     VStr t \<Rightarrow> if \<forall>c \<in> set t. c < 128 then (case parse_canonical_utc (map char_of t) of Inl _ \<Rightarrow> None | Inr x \<Rightarrow> Some x) else None
   | _ \<Rightarrow> None)"

definition identity_key :: "crypto \<Rightarrow> jval \<Rightarrow> bytes option" where
  "identity_key C v = Option.bind (codes_value v) (parse_identity_id C)"

definition agreement_key :: "crypto \<Rightarrow> jval \<Rightarrow> bytes option" where
  "agreement_key C v = Option.bind (codes_value v) (parse_agreement_key C)"

definition base64_value :: "jval \<Rightarrow> bytes option" where
  "base64_value v = Option.bind (codes_value v) b64url_decode"

section \<open>Capabilities\<close>

fun text_list :: "jval list \<Rightarrow> codes list option" where
  "text_list [] = Some []"
| "text_list (VStr t # vs) = map_option ((#) t) (text_list vs)"
| "text_list (v # vs) = None"

definition normalize_capabilities :: "codes list \<Rightarrow> codes list option" where
  "normalize_capabilities caps =
     (if (\<exists>c \<in> set caps. (\<exists>x \<in> set c. 128 \<le> x) \<or> length c > MAX_CAPABILITY_BYTES) then None
      else if length caps > MAX_CAPABILITIES \<or> \<not> distinct caps then None
      else Some (sort caps))"

definition capability_list :: "jval \<Rightarrow> codes list option" where
  "capability_list v = (case v of VArr vs \<Rightarrow> text_list vs | _ \<Rightarrow> None)"

section \<open>Verification\<close>

definition is_label :: "jval \<Rightarrow> bool" where
  "is_label v \<longleftrightarrow> (case v of VStr t \<Rightarrow> t \<noteq> [] | _ \<Rightarrow> False)"

text \<open>\<open>True == 1\<close>, and a Boolean is an \<open>int\<close>.\<close>

definition is_card_version :: "jval \<Rightarrow> bool" where
  "is_card_version v \<longleftrightarrow> v = VInt CARD_VERSION \<or> v = VBool True"

definition verify_lifetime :: "fields \<Rightarrow> str + instant \<times> instant" where
  "verify_lifetime fs = (case (parse_timestamp (card_field fs ''issued_at''), parse_timestamp (card_field fs ''expires_at'')) of
     (Some issued, Some expires) \<Rightarrow>
       if expires \<le> issued then Inl ''BAD_TIMESTAMP''
       else if expires - issued > MAX_CARD_LIFETIME then Inl ''EXPIRY_TOO_LONG'' else Inr (issued, expires)
   | _ \<Rightarrow> Inl ''BAD_TIMESTAMP'')"

text \<open>\<open>Inl\<close> is a \<open>CanonicalizationError\<close>, which is no \<open>ValueError\<close> and is not caught.\<close>

definition verify_self_signature :: "crypto \<Rightarrow> bytes \<Rightarrow> fields \<Rightarrow> canon_error + str" where
  "verify_self_signature C pub fs = (case base64_value (card_field fs ''signature'') of
     None \<Rightarrow> Inr ''BAD_SIGNATURE''
   | Some signature \<Rightarrow>
       if length signature \<noteq> 64 then Inr ''BAD_SIGNATURE''
       else (case restricted_jcs (without_signature (VObj fs)) of
         Inl IntegerDigits \<Rightarrow> Inr ''MALFORMED''
       | Inl e \<Rightarrow> Inl e
       | Inr msg \<Rightarrow> Inr (if ed_verify C pub signature msg then ''VALID'' else ''BAD_SIGNATURE'')))"

definition verify_live :: "rat \<Rightarrow> instant \<times> instant \<Rightarrow> str" where
  "verify_live now lifetime =
     (if of_int (fst lifetime) > now + of_int CLOCK_SKEW_TOLERANCE then ''ISSUED_IN_FUTURE''
      else if now \<ge> of_int (snd lifetime) then ''EXPIRED'' else ''VALID'')"

definition verify_fields :: "crypto \<Rightarrow> rat \<Rightarrow> fields \<Rightarrow> canon_error + str" where
  "verify_fields C now fs =
     (if \<not> is_card_version (card_field fs ''card_version'') then Inr ''BAD_VERSION'' else
      case identity_key C (card_field fs ''identity_id'') of None \<Rightarrow> Inr ''BAD_IDENTITY_ID'' | Some pub \<Rightarrow>
      if agreement_key C (card_field fs ''bootstrap_agreement_key'') = None then Inr ''BAD_AGREEMENT_KEY''
      else if \<not> is_label (card_field fs ''display_name'') \<or> \<not> is_label (card_field fs ''principal_label'') then Inr ''MALFORMED'' else
      case capability_list (card_field fs ''capabilities'') of None \<Rightarrow> Inr ''BAD_CAPABILITY'' | Some caps \<Rightarrow>
      if normalize_capabilities caps \<noteq> Some caps then Inr ''BAD_CAPABILITY'' else
      case verify_lifetime fs of Inl e \<Rightarrow> Inr e | Inr lifetime \<Rightarrow>
      case base64_value (card_field fs ''card_nonce'') of None \<Rightarrow> Inr ''BAD_NONCE'' | Some nonce \<Rightarrow>
      if length nonce \<noteq> CARD_NONCE_BYTES then Inr ''BAD_NONCE''
      else (case verify_self_signature C pub fs of Inl e \<Rightarrow> Inl e
        | Inr signed \<Rightarrow> Inr (if signed = ''VALID'' then verify_live now lifetime else signed)))"

definition verify_card :: "crypto \<Rightarrow> rat \<Rightarrow> jval \<Rightarrow> canon_error + str" where
  "verify_card C now doc = (case doc of
     VObj fs \<Rightarrow>
       if \<exists>k \<in> set (map fst fs). k \<notin> set CARD_FIELDS then Inr ''UNKNOWN_FIELD''
       else if \<exists>k \<in> set CARD_FIELDS. k \<notin> set (map fst fs) then Inr ''MALFORMED''
       else verify_fields C now fs
   | _ \<Rightarrow> Inr ''MALFORMED'')"

definition card_fingerprint :: "crypto \<Rightarrow> jval \<Rightarrow> canon_error + str" where
  "card_fingerprint C doc = (case restricted_jcs doc of Inl e \<Rightarrow> Inl e | Inr msg \<Rightarrow> Inr (hex_text (sha256 C msg)))"

section \<open>Creation\<close>

definition unsigned_card :: "codes \<Rightarrow> codes \<Rightarrow> codes \<Rightarrow> codes \<Rightarrow> codes list \<Rightarrow> str \<Rightarrow> str \<Rightarrow> bytes \<Rightarrow> fields" where
  "unsigned_card identity display_name label agreement caps issued expires nonce =
     [(codes_of ''card_version'', VInt CARD_VERSION), (codes_of ''identity_id'', VStr identity),
      (codes_of ''display_name'', VStr display_name), (codes_of ''principal_label'', VStr label),
      (codes_of ''bootstrap_agreement_key'', VStr agreement), (codes_of ''capabilities'', VArr (map VStr caps)),
      (codes_of ''issued_at'', VStr (codes_of issued)), (codes_of ''expires_at'', VStr (codes_of expires)),
      (codes_of ''card_nonce'', VStr (b64url_encode nonce))]"

definition canon_exn :: "canon_error \<Rightarrow> str" where
  "canon_exn e = (if e = IntegerDigits then ''ValueError'' else ''CanonicalizationError'')"

text \<open>\<open>nonce\<close> is the draw of \<open>os.urandom\<close>, \<open>sk\<close> the identity key; a refusal is the class of the exception.\<close>

definition create_card ::
  "crypto \<Rightarrow> bytes \<Rightarrow> bytes \<Rightarrow> codes \<Rightarrow> codes \<Rightarrow> codes \<Rightarrow> codes list \<Rightarrow> str \<Rightarrow> str \<Rightarrow> str + jval" where
  "create_card C nonce sk display_name label agreement capabilities issued expires =
     (if display_name = [] \<or> label = [] \<or> parse_agreement_key C agreement = None then Inl ''ValueError'' else
      case (normalize_capabilities capabilities, parse_canonical_utc issued, parse_canonical_utc expires) of
        (Some caps, Inr a, Inr b) \<Rightarrow>
          if b \<le> a \<or> b - a > MAX_CARD_LIFETIME then Inl ''ValueError''
          else (case identity_id_from_pubkey C (ed_public C sk) of
            None \<Rightarrow> Inl ''ValueError''
          | Some identity \<Rightarrow> let fs = unsigned_card identity display_name label agreement caps issued expires nonce in
              (case restricted_jcs (VObj fs) of
                Inl e \<Rightarrow> Inl (canon_exn e)
              | Inr msg \<Rightarrow> Inr (VObj (fs @ [(codes_of ''signature'', VStr (b64url_encode (ed_sign C sk msg)))]))))
      | _ \<Rightarrow> Inl ''ValueError'')"

section \<open>Rotation of an identity key\<close>

datatype identity_exn = IdentityRotationError str | IdentityRaised str

text \<open>\<open>list(...)\<close> of the capabilities of a card that nobody has verified.\<close>

definition listed :: "jval \<Rightarrow> str + codes list" where
  "listed v = (case v of
     VArr vs \<Rightarrow> (case text_list vs of None \<Rightarrow> Inl ''ValueError'' | Some ts \<Rightarrow> Inr ts)
   | VStr t \<Rightarrow> Inr (map (\<lambda>c. [c]) t)
   | VObj fs \<Rightarrow> Inr (map fst fs)
   | _ \<Rightarrow> Inl ''TypeError'')"

definition card_get :: "fields \<Rightarrow> str \<Rightarrow> jval \<Rightarrow> jval" where
  "card_get fs k missing = (case map_of fs (codes_of k) of None \<Rightarrow> missing | Some v \<Rightarrow> v)"

definition renewed_card :: "crypto \<Rightarrow> bytes \<Rightarrow> bytes \<Rightarrow> rat \<Rightarrow> fields \<Rightarrow> str + jval" where
  "renewed_card C nonce sk now fs =
     (case listed (card_get fs ''capabilities'' (VArr [])) of Inl e \<Rightarrow> Inl e | Inr caps \<Rightarrow>
      case (codes_value (card_get fs ''display_name'' (VStr [])), codes_value (card_get fs ''principal_label'' (VStr [])),
          codes_value (card_get fs ''bootstrap_agreement_key'' (VStr [])), codes_value (card_get fs ''expires_at'' (VStr []))) of
        (Some display_name, Some label, Some agreement, Some expires) \<Rightarrow>
          if \<exists>c \<in> set expires. 128 \<le> c then Inl ''ValueError''
          else create_card C nonce sk display_name label agreement caps (stamp_text now) (map char_of expires)
      | _ \<Rightarrow> Inl ''ValueError'')"

definition cross_signature :: "crypto \<Rightarrow> bytes \<Rightarrow> codes \<Rightarrow> bytes \<Rightarrow> jval" where
  "cross_signature C msg key sk = VObj [(codes_of ''key_id'', VStr key), (codes_of ''signature'', VStr (b64url_encode (ed_sign C sk msg)))]"

text \<open>\<open>old\<close> is the old key, if it is still there.\<close>

definition rotate_identity_key :: "crypto \<Rightarrow> bytes \<Rightarrow> rat \<Rightarrow> fields \<Rightarrow> bytes option \<Rightarrow> bytes \<Rightarrow> identity_exn + jval" where
  "rotate_identity_key C nonce now fs old sk = (case old of
     None \<Rightarrow> Inl (IdentityRotationError ''old_key_unavailable'')
   | Some osk \<Rightarrow>
       let old_id = card_get fs ''identity_id'' (VStr []) in
       (case identity_key C old_id of
          None \<Rightarrow> Inl (IdentityRotationError ''bad_card'')
        | Some pub \<Rightarrow>
            if ed_public C osk \<noteq> pub then Inl (IdentityRotationError ''key_mismatch'')
            else (case renewed_card C nonce sk now fs of
              Inl e \<Rightarrow> Inl (IdentityRaised e)
            | Inr new_card \<Rightarrow>
                (case (new_card, codes_value old_id) of
                   (VObj ns, Some old_text) \<Rightarrow> let new_id = card_field ns ''identity_id'' in
                     if new_id = old_id then Inl (IdentityRotationError ''same_key'')
                     else (case (restricted_jcs new_card, card_fingerprint C (VObj fs), codes_value new_id) of
                       (Inr msg, Inr print, Some new_text) \<Rightarrow> Inr (VObj [(codes_of ''rotation_version'', VInt 1),
                         (codes_of ''prior_card_fingerprint'', VStr (codes_of print)), (codes_of ''new_card'', new_card),
                         (codes_of ''cross_signatures'', VArr [cross_signature C msg old_text osk, cross_signature C msg new_text sk])])
                     | (Inl e, _, _) \<Rightarrow> Inl (IdentityRaised (canon_exn e))
                     | (_, Inl e, _) \<Rightarrow> Inl (IdentityRaised (canon_exn e))
                     | _ \<Rightarrow> Inl (IdentityRaised ''TypeError''))
                 | _ \<Rightarrow> Inl (IdentityRaised ''TypeError'')))))"

definition signature_entries :: "jval list \<Rightarrow> (jval \<times> jval) list" where
  "signature_entries vs = concat (map (\<lambda>v. case v of
     VObj fs \<Rightarrow> [(card_field fs ''key_id'', card_field fs ''signature'')] | _ \<Rightarrow> []) vs)"

definition cross_signed :: "crypto \<Rightarrow> bytes \<Rightarrow> (jval \<times> jval) list \<Rightarrow> jval \<Rightarrow> bool" where
  "cross_signed C msg entries key = (case (identity_key C key, map_of (rev entries) key) of
     (Some pub, Some s) \<Rightarrow> (case base64_value s of None \<Rightarrow> False | Some sg \<Rightarrow> ed_verify C pub sg msg)
   | _ \<Rightarrow> False)"

text \<open>An uncaught \<open>CanonicalizationError\<close> is \<open>Inl\<close>.\<close>

definition verify_identity_rotation :: "crypto \<Rightarrow> rat \<Rightarrow> jval \<Rightarrow> fields \<Rightarrow> canon_error + bool" where
  "verify_identity_rotation C now announcement fs = (case announcement of
     VObj an \<Rightarrow>
       if card_field an ''rotation_version'' \<notin> {VInt 1, VBool True} then Inr False
       else (case card_fingerprint C (VObj fs) of
         Inl IntegerDigits \<Rightarrow> Inr False | Inl e \<Rightarrow> Inl e
       | Inr print \<Rightarrow>
           if card_field an ''prior_card_fingerprint'' \<noteq> VStr (codes_of print) then Inr False
           else (case verify_card C now (card_field an ''new_card'') of
             Inl e \<Rightarrow> Inl e
           | Inr code \<Rightarrow>
               (case (code = ''VALID'', card_field an ''new_card'', card_field an ''cross_signatures'') of
                  (True, VObj ns, VArr sigs) \<Rightarrow>
                    let old_id = card_get fs ''identity_id'' (VStr []); new_id = card_field ns ''identity_id'';
                      entries = signature_entries sigs in
                    if old_id = VStr [] \<or> old_id = new_id \<or> length sigs \<noteq> 2 \<or> set (map fst entries) \<noteq> {old_id, new_id} then Inr False
                    else (case restricted_jcs (VObj ns) of Inl IntegerDigits \<Rightarrow> Inr False | Inl e \<Rightarrow> Inl e
                      | Inr msg \<Rightarrow> Inr (cross_signed C msg entries old_id \<and> cross_signed C msg entries new_id))
                | _ \<Rightarrow> Inr False)))
   | _ \<Rightarrow> Inr False)"

section \<open>The phrase\<close>

definition VERIFY_DOMAIN :: bytes where "VERIFY_DOMAIN = codes_of ''muse-agent-social/verify-v1''"
definition WORDLIST_SIZE :: nat where "WORDLIST_SIZE = 256"
definition PHRASE_LEN :: nat where "PHRASE_LEN = 8"

definition is_word :: "codes \<Rightarrow> bool" where
  "is_word w \<longleftrightarrow> w \<noteq> [] \<and> (\<forall>c \<in> set w. 97 \<le> c \<and> c \<le> 122)"

fun split_lines :: "codes \<Rightarrow> codes list" where
  "split_lines [] = [[]]"
| "split_lines (c # cs) = (if c = 10 then [] # split_lines cs else (case split_lines cs of [] \<Rightarrow> [[c]] | l # ls \<Rightarrow> (c # l) # ls))"

definition load_wordlist :: "codes \<Rightarrow> codes list option" where
  "load_wordlist text =
     (if (\<exists>c \<in> set text. 128 \<le> c) \<or> text = [] \<or> last text \<noteq> 10 then None
      else let words = butlast (split_lines text) in
        if [] \<in> set words \<or> length words \<noteq> WORDLIST_SIZE \<or> \<not> distinct words \<or> (\<exists>w \<in> set words. \<not> is_word w) then None
        else Some words)"

text \<open>\<open>None\<close> is a \<open>ValueError\<close>.\<close>

definition verification_phrase :: "crypto \<Rightarrow> codes \<Rightarrow> codes \<Rightarrow> codes list \<Rightarrow> codes list option" where
  "verification_phrase C a b words =
     (if length words \<noteq> WORDLIST_SIZE then None
      else case (parse_identity_id C a, parse_identity_id C b) of
        (Some ka, Some kb) \<Rightarrow>
          (let lo = (if ka \<le> kb then ka else kb); hi = (if ka \<le> kb then kb else ka) in
           Some (map (\<lambda>i. words ! i) (take PHRASE_LEN (sha256 C (VERIFY_DOMAIN @ lo @ hi)))))
      | _ \<Rightarrow> None)"

section \<open>Lemmas\<close>

text \<open>The phrase does not depend on who computes it.\<close>

lemma phrase_symmetric: "verification_phrase C a b words = verification_phrase C b a words"
  by (auto simp: verification_phrase_def Let_def split: option.split)

lemma parse_own_identity:
  assumes "sound_crypto C" and "identity_id_from_pubkey C pub = Some i" and "byte_list pub"
  shows "parse_identity_id C i = Some pub"
proof -
  have i: "i = IDENTITY_ID_PREFIX @ b58_encode C (MULTICODEC_ED25519 @ pub)" "length pub = 32"
    using assms(2) by (auto simp: identity_id_from_pubkey_def RAW_PUBKEY_LEN_def split: if_splits)
  have "byte_list (MULTICODEC_ED25519 @ pub)" using assms(3) by (auto simp: byte_list_def MULTICODEC_ED25519_def)
  from sound_cryptoD(10) [OF assms(1) this] show ?thesis
    using i by (simp add: parse_identity_id_def decode_multicodec_def RAW_PUBKEY_LEN_def)
qed

lemma fields_text_ascii: "c \<in> set (text_of_fields f) \<Longrightarrow> (of_char c :: nat) < 128"
proof -
  have "(of_char d :: nat) < 128" if "d \<in> set (pad_digits k n)" for d k n
    using that is_digit_pad_digits [of k n] by (auto simp: list_all_iff is_digit_def)
  then show "c \<in> set (text_of_fields f) \<Longrightarrow> (of_char c :: nat) < 128"
    by (auto simp: text_of_fields_def split: prod.splits)
qed

lemma parse_written_timestamp:
  assumes "parse_canonical_utc s = Inr t" shows "parse_timestamp (VStr (codes_of s)) = Some t"
proof -
  have "s = text_of_fields (fields_of_instant t)" using format_parse [OF assms] by (simp add: format_canonical_utc_def)
  then have "\<forall>c \<in> set (codes_of s). c < 128" using fields_text_ascii by auto
  then show ?thesis using assms by (simp add: parse_timestamp_def comp_def)
qed

lemma text_list_map [simp]: "text_list (map VStr ts) = Some ts"
  by (induction ts) simp_all

lemma normalized_again: "normalize_capabilities caps = Some ns \<Longrightarrow> normalize_capabilities ns = Some ns"
  by (auto simp: normalize_capabilities_def sorted_sort_id split: if_splits)

text \<open>A card that was made verifies, from five minutes before its issue until it expires.\<close>

lemma created_card_verifies:
  assumes "sound_crypto C" "byte_list nonce" "length nonce = CARD_NONCE_BYTES" "byte_list (ed_public C sk)"
    and made: "create_card C nonce sk display_name label agreement capabilities issued expires = Inr doc"
    and "parse_canonical_utc issued = Inr a" "parse_canonical_utc expires = Inr b"
    and "of_int a \<le> now + 300" "now < of_int b"
  shows "verify_card C now doc = Inr ''VALID''"
proof -
  from made assms(6,7) obtain caps identity msg where caps: "normalize_capabilities capabilities = Some caps"
    and id: "identity_id_from_pubkey C (ed_public C sk) = Some identity"
    and life: "\<not> b \<le> a" "\<not> b - a > MAX_CARD_LIFETIME"
    and plain: "display_name \<noteq> []" "label \<noteq> []" "parse_agreement_key C agreement \<noteq> None"
    and msg: "restricted_jcs (VObj (unsigned_card identity display_name label agreement caps issued expires nonce)) = Inr msg"
    and doc: "doc = VObj (unsigned_card identity display_name label agreement caps issued expires nonce @
      [(codes_of ''signature'', VStr (b64url_encode (ed_sign C sk msg)))])"
    by (auto simp: create_card_def Let_def split: if_splits option.splits sum.splits canon_error.splits)
  let ?fs = "unsigned_card identity display_name label agreement caps issued expires nonce"
  define full where "full = ?fs @ [(codes_of ''signature'', VStr (b64url_encode (ed_sign C sk msg)))]"
  have field: "card_field full ''card_version'' = VInt 1" "card_field full ''identity_id'' = VStr identity"
    "card_field full ''display_name'' = VStr display_name" "card_field full ''principal_label'' = VStr label"
    "card_field full ''bootstrap_agreement_key'' = VStr agreement" "card_field full ''capabilities'' = VArr (map VStr caps)"
    "card_field full ''issued_at'' = VStr (codes_of issued)" "card_field full ''expires_at'' = VStr (codes_of expires)"
    "card_field full ''card_nonce'' = VStr (b64url_encode nonce)"
    "card_field full ''signature'' = VStr (b64url_encode (ed_sign C sk msg))"
    by (simp_all add: full_def card_field_def unsigned_card_def CARD_VERSION_def)
  have keys: "map fst full = CARD_FIELDS" by (simp add: full_def unsigned_card_def CARD_FIELDS_def)
  have unsigned: "without_signature (VObj full) = VObj ?fs" by (simp add: full_def without_signature_def unsigned_card_def)
  have pub: "identity_key C (VStr identity) = Some (ed_public C sk)"
    using parse_own_identity [OF assms(1) id assms(4)] by (simp add: identity_key_def codes_value_def)
  have sig: "verify_self_signature C (ed_public C sk) full = Inr ''VALID''"
    using sound_cryptoD(7-9) [OF assms(1)] b64url_round_trip
    by (simp add: verify_self_signature_def field unsigned msg base64_value_def codes_value_def)
  have "verify_lifetime full = Inr (a, b)"
    using parse_written_timestamp assms(6,7) life by (simp add: verify_lifetime_def field)
  then have "verify_fields C now full = Inr ''VALID''"
    using plain pub sig normalized_again [OF caps] assms(3,8,9) b64url_round_trip [OF assms(2)]
    by (simp add: verify_fields_def field is_card_version_def CARD_VERSION_def agreement_key_def codes_value_def is_label_def
        capability_list_def base64_value_def verify_live_def CLOCK_SKEW_TOLERANCE_def)
  moreover have "doc = VObj full" unfolding full_def by (rule doc)
  ultimately show ?thesis unfolding verify_card_def by (simp add: keys del: set_map list.set_map)
qed

lemma created_card_fields:
  assumes "create_card C nonce sk display_name label agreement capabilities issued expires = Inr doc"
  obtains ns identity where "doc = VObj ns" "card_field ns ''identity_id'' = VStr identity"
    "identity_id_from_pubkey C (ed_public C sk) = Some identity" "is_ok (parse_canonical_utc issued)"
proof -
  from assms obtain caps identity msg where "identity_id_from_pubkey C (ed_public C sk) = Some identity"
    "doc = VObj (unsigned_card identity display_name label agreement caps issued expires nonce @
      [(codes_of ''signature'', VStr (b64url_encode (ed_sign C sk msg)))])" "is_ok (parse_canonical_utc issued)"
    by (auto simp: create_card_def Let_def split: if_splits option.splits sum.splits canon_error.splits)
  then show ?thesis by (intro that) (auto simp: card_field_def unsigned_card_def)
qed

text \<open>An announcement that was made verifies against the old card.\<close>

lemma announcement_verifies:
  assumes "sound_crypto C" "byte_list nonce" "length nonce = CARD_NONCE_BYTES" "byte_list (ed_public C osk)" "byte_list (ed_public C sk)"
    and made: "rotate_identity_key C nonce now fs (Some osk) sk = Inr announcement"
    and in_time: "of_int \<lfloor>now\<rfloor> \<le> later + 300" "in_range \<lfloor>now\<rfloor>"
    and live: "parse_timestamp (card_get fs ''expires_at'' VNull) = Some x" "later < of_int x"
  shows "verify_identity_rotation C later announcement fs = Inr True"
proof -
  let ?old = "card_get fs ''identity_id'' (VStr [])"
  from made obtain new_card ns old_text new_text msg print where
    old: "identity_key C ?old = Some (ed_public C osk)" "?old = VStr old_text" and
    new: "renewed_card C nonce sk now fs = Inr new_card" "new_card = VObj ns" "card_field ns ''identity_id'' = VStr new_text" and
    neq: "new_text \<noteq> old_text" and msg: "restricted_jcs new_card = Inr msg" and print: "card_fingerprint C (VObj fs) = Inr print" and
    ann: "announcement = VObj [(codes_of ''rotation_version'', VInt 1),
       (codes_of ''prior_card_fingerprint'', VStr (codes_of print)), (codes_of ''new_card'', new_card),
       (codes_of ''cross_signatures'', VArr [cross_signature C msg old_text osk, cross_signature C msg new_text sk])]"
    by (auto simp: rotate_identity_key_def Let_def codes_value_def split: if_splits option.splits sum.splits jval.splits canon_error.splits)
  from new(1) obtain display_name label agreement caps expires where
    cre: "create_card C nonce sk display_name label agreement caps (stamp_text now) (map char_of expires) = Inr new_card"
    and ex: "card_get fs ''expires_at'' (VStr []) = VStr expires" "\<not> (\<exists>c \<in> set expires. 128 \<le> c)"
    by (auto simp: renewed_card_def codes_value_def split: sum.splits option.splits jval.splits if_splits)
  have "card_get fs ''expires_at'' VNull = VStr expires"
    using ex(1) live(1) by (auto simp: card_get_def parse_timestamp_def split: option.splits)
  then have x: "parse_canonical_utc (map char_of expires) = Inr x"
    using live(1) ex(2) by (auto simp: parse_timestamp_def split: sum.splits if_splits)
  have valid: "verify_card C later new_card = Inr ''VALID''"
    using created_card_verifies [OF assms(1,2,3,5) cre _ x in_time(1) live(2)] parse_format [OF in_time(2)]
    by (simp add: stamp_text_def)
  have id: "identity_id_from_pubkey C (ed_public C sk) = Some new_text"
    using created_card_fields [OF cre] new(2,3) by (metis jval.inject(4) jval.inject(6))
  have old_nonempty: "old_text \<noteq> []" using old by (auto simp: identity_key_def codes_value_def parse_identity_id_def IDENTITY_ID_PREFIX_def)
  have sound: "b64url_decode (b64url_encode (ed_sign C k m)) = Some (ed_sign C k m)" "ed_verify C (ed_public C k) (ed_sign C k m) m" for k m
    by (simp_all add: sound_cryptoD(7,9) [OF assms(1)] b64url_round_trip)
  define an where "an = [(codes_of ''rotation_version'', VInt 1),
       (codes_of ''prior_card_fingerprint'', VStr (codes_of print)), (codes_of ''new_card'', new_card),
       (codes_of ''cross_signatures'', VArr [cross_signature C msg old_text osk, cross_signature C msg new_text sk])]"
  have field: "card_field an ''rotation_version'' = VInt 1" "card_field an ''prior_card_fingerprint'' = VStr (codes_of print)"
    "card_field an ''new_card'' = VObj ns"
    "card_field an ''cross_signatures'' = VArr [cross_signature C msg old_text osk, cross_signature C msg new_text sk]"
    by (simp_all add: an_def card_field_def new(2))
  have entries: "signature_entries [cross_signature C msg old_text osk, cross_signature C msg new_text sk] =
      [(VStr old_text, VStr (b64url_encode (ed_sign C osk msg))), (VStr new_text, VStr (b64url_encode (ed_sign C sk msg)))]"
    by (simp add: signature_entries_def cross_signature_def card_field_def)
  have "identity_key C (VStr new_text) = Some (ed_public C sk)"
    using parse_own_identity [OF assms(1) id assms(5)] by (simp add: identity_key_def codes_value_def)
  then have "verify_identity_rotation C later (VObj an) fs = Inr True"
    using old valid msg neq old_nonempty new(2) sound
    by (simp add: verify_identity_rotation_def field print new(3) entries cross_signed_def base64_value_def codes_value_def Let_def insert_commute)
  then show ?thesis by (simp add: ann an_def)
qed

end
