(* ===== verification/Receive.thy ===== *)
theory Receive
  imports Sending Cards
begin

text \<open>
  The receive pipeline of one object (\<open>cli.py\<close>, \<open>_receive_object\<close> and what it calls): parsing and
  authentication, the epoch gate, replay protection, clock window, quota and sequence bound, the
  receive commit with the accepted receipt, the projection, identity rotation and the rotation hooks.
  The bookkeeping of failures around it is in \<open>Polling\<close>.

  \<^item> \<open>receiver\<close> holds the installation as \<open>sender\<close> has it and the parameters: \<open>rv_legacy\<close> is
    \<open>detect_v01\<close> and \<open>rv_legacy_path\<close> the v0.1 adapter, \<open>rv_read\<close> reads a schema-checked payload,
    \<open>rv_fin\<close> and \<open>rv_depth\<close> are those of the parser; \<open>rv_receipt\<close>,
    \<open>rv_ack\<close> and \<open>rv_spare\<close> are the draws of the events the pipeline sends itself.
  \<^item> A statement of the model fails only by a constraint; \<open>CliStorage b\<close> is a storage exception,
    transient if \<open>b\<close>. The texts of exceptions, kept as details of a quarantine, and the running
    totals for the terminal are left out.
\<close>

section \<open>State and parameters\<close>

definition MAX_UNKNOWN_EPOCH_SIGHTINGS :: nat where "MAX_UNKNOWN_EPOCH_SIGHTINGS = 100"
definition MAX_CONSECUTIVE_RECEIVE_FAILURES :: nat where "MAX_CONSECUTIVE_RECEIVE_FAILURES = 10"
definition PRIOR_IDENTITY_GRACE_SECONDS :: int where "PRIOR_IDENTITY_GRACE_SECONDS = 72 * 3600"
definition INGRESS_MAX_EVENTS_PER_DAY :: nat where "INGRESS_MAX_EVENTS_PER_DAY = 10000"
definition RECEIVE_QUARANTINE_TTL_DAYS :: int where "RECEIVE_QUARANTINE_TTL_DAYS = 30"
definition RECEIVE_QUARANTINE_MAX_PER_RELATIONSHIP :: nat where "RECEIVE_QUARANTINE_MAX_PER_RELATIONSHIP = 100"

record outcome =
  oc_kind :: str
  oc_surfaces :: nat
  oc_receipts :: nat

definition outcome_of :: "str \<Rightarrow> outcome" where
  "outcome_of kind = \<lparr>oc_kind = kind, oc_surfaces = 0, oc_receipts = 0\<rparr>"

record receiver =
  rv_sender :: sender
  rv_fin :: "codes \<Rightarrow> bool"
  rv_depth :: nat
  rv_read :: "str \<Rightarrow> jval \<Rightarrow> payload"
  rv_legacy :: "bytes \<Rightarrow> bool"
  rv_legacy_path :: "str \<Rightarrow> str \<Rightarrow> bytes \<Rightarrow> outcome cli"
  rv_print :: "str \<Rightarrow> str option"
  rv_receipt :: fresh
  rv_ack :: fresh
  rv_spare :: fresh

definition rv_me :: "receiver \<Rightarrow> str" where "rv_me R = sd_me (rv_sender R)"
definition rv_now :: "receiver \<Rightarrow> rat" where "rv_now R = sd_now (rv_sender R)"
definition rv_wall :: "receiver \<Rightarrow> str" where "rv_wall R = wall_of (rv_sender R)"
definition rv_crypto :: "receiver \<Rightarrow> crypto" where "rv_crypto R = sd_crypto (rv_sender R)"

definition moved :: "str \<Rightarrow> int \<Rightarrow> cli_exn + str" where
  "moved t n = (case add_seconds t n of Inr x \<Rightarrow> Inr x | Inl ValueError \<Rightarrow> Inl (CliRaised ''ValueError'')
     | Inl OverflowError \<Rightarrow> Inl (CliRaised ''OverflowError''))"

section \<open>Quarantine and retries\<close>

definition object_key :: "object_row \<Rightarrow> str \<times> str" where
  "object_key r = (oq_rel r, oq_name r)"

definition put_object :: "object_row \<Rightarrow> db \<Rightarrow> db" where
  "put_object r s = s\<lparr>receive_quarantine := delete_where (\<lambda>x. object_key x = object_key r) (receive_quarantine s) @ [r]\<rparr>"

definition expire_objects :: "str \<Rightarrow> db \<Rightarrow> db" where
  "expire_objects cutoff s = s\<lparr>receive_quarantine := delete_where (\<lambda>r. oq_at r \<le> cutoff) (receive_quarantine s)\<rparr>"

definition cap_objects :: "str \<Rightarrow> db \<Rightarrow> db" where
  "cap_objects rid s = s\<lparr>receive_quarantine := delete_where (\<lambda>r. oq_rel r = rid \<and> object_key r \<notin> set (map object_key
     (newest RECEIVE_QUARANTINE_MAX_PER_RELATIONSHIP (\<lambda>r. (oq_at r, oq_name r))
       (select (\<lambda>r. oq_rel r = rid) (receive_quarantine s))))) (receive_quarantine s)\<rparr>"

definition record_quarantine :: "str \<Rightarrow> str \<Rightarrow> str \<Rightarrow> str \<Rightarrow> unit cli" where
  "record_quarantine wall rid name reason =
     seq (exec (put_object \<lparr>oq_rel = rid, oq_name = name, oq_reason = reason, oq_detail = [], oq_at = wall\<rparr>)) (\<lambda>_.
     seq (lift (moved wall (- (RECEIVE_QUARANTINE_TTL_DAYS * 24 * 3600)))) (\<lambda>cutoff.
     seq (exec (expire_objects cutoff)) (\<lambda>_.
     exec (cap_objects rid))))"

definition quarantine_outcome :: "str \<Rightarrow> str \<Rightarrow> str \<Rightarrow> str \<Rightarrow> outcome cli" where
  "quarantine_outcome wall rid name reason =
     seq (record_quarantine wall rid name reason) (\<lambda>_. ret (outcome_of ''quarantined''))"

definition retry_key :: "retry_row \<Rightarrow> str \<times> str \<times> str" where
  "retry_key r = (ry_rel r, ry_name r, ry_reason r)"

definition sightings :: "db \<Rightarrow> str \<Rightarrow> str \<Rightarrow> str \<Rightarrow> nat" where
  "sightings s rid name reason = (case fetchone (\<lambda>r. retry_key r = (rid, name, reason)) (receive_retry_state s) of
     None \<Rightarrow> 0 | Some r \<Rightarrow> ry_sightings r)"

definition see_again :: "str \<Rightarrow> str \<Rightarrow> str \<Rightarrow> str \<Rightarrow> db \<Rightarrow> db" where
  "see_again wall rid name reason s = s\<lparr>receive_retry_state := upsert retry_key
     \<lparr>ry_rel = rid, ry_name = name, ry_reason = reason, ry_sightings = 1, ry_first = wall, ry_last = wall\<rparr>
     (\<lambda>r. r\<lparr>ry_sightings := Suc (ry_sightings r), ry_last := wall\<rparr>) (receive_retry_state s)\<rparr>"

definition bump_retry_sighting :: "str \<Rightarrow> str \<Rightarrow> str \<Rightarrow> str \<Rightarrow> nat cli" where
  "bump_retry_sighting wall rid name reason =
     seq (exec (see_again wall rid name reason)) (\<lambda>_. query (\<lambda>s. sightings s rid name reason))"

definition clear_retry_state :: "str \<Rightarrow> str \<Rightarrow> db \<Rightarrow> db" where
  "clear_retry_state rid name s =
     s\<lparr>receive_retry_state := delete_where (\<lambda>r. ry_rel r = rid \<and> ry_name r = name) (receive_retry_state s)\<rparr>"

section \<open>Reading the envelope\<close>

text \<open>The fields of a schema-checked envelope, whose texts are ASCII.\<close>

definition text_of :: "jval \<Rightarrow> str option" where
  "text_of v = (case v of VStr c \<Rightarrow> if \<forall>x \<in> set c. x < 256 then Some (map char_of c) else None | _ \<Rightarrow> None)"

definition opt_text_of :: "jval \<Rightarrow> str option option" where
  "opt_text_of v = (case v of VNull \<Rightarrow> Some None | _ \<Rightarrow> map_option Some (text_of v))"

definition nat_of :: "jval \<Rightarrow> nat option" where
  "nat_of v = (case v of VInt i \<Rightarrow> if 0 \<le> i then Some (nat i) else None | _ \<Rightarrow> None)"

definition field :: "fields \<Rightarrow> str \<Rightarrow> (jval \<Rightarrow> 'a option) \<Rightarrow> 'a option" where
  "field fs k f = Option.bind (map_of fs (codes_of k)) f"

definition optional_field :: "fields \<Rightarrow> str \<Rightarrow> str option option" where
  "optional_field fs k = (case map_of fs (codes_of k) of None \<Rightarrow> Some None | Some v \<Rightarrow> opt_text_of v)"

definition read_header :: "fields \<Rightarrow> header option" where
  "read_header fs =
     Option.bind (field fs ''event_id'' text_of) (\<lambda>eid.
     Option.bind (field fs ''relationship_id'' text_of) (\<lambda>rel.
     Option.bind (field fs ''conversation_id'' text_of) (\<lambda>conv.
     Option.bind (field fs ''sender'' text_of) (\<lambda>who.
     Option.bind (field fs ''sender_seq'' nat_of) (\<lambda>n.
     Option.bind (field fs ''created_at'' text_of) (\<lambda>created.
     Option.bind (optional_field fs ''deliver_at'') (\<lambda>deliver.
     Option.bind (optional_field fs ''expires_at'') (\<lambda>expires.
     Option.bind (field fs ''event_type'' text_of) (\<lambda>etype.
     Option.bind (field fs ''thread_id'' opt_text_of) (\<lambda>thread.
     Option.bind (optional_field fs ''reply_to'') (\<lambda>reply.
     Option.bind (field fs ''key_epoch'' nat_of) (\<lambda>epoch.
     Option.bind (field fs ''replay_nonce'' text_of) (\<lambda>nonce.
     Option.bind (optional_field fs ''ephemeral_key'') (\<lambda>ephemeral.
     Some \<lparr>hd_event = eid, hd_rel = rel, hd_conv = conv, hd_sender = who, hd_seq = n, hd_created = created,
       hd_deliver = deliver, hd_expires = expires, hd_type = etype, hd_thread = thread, hd_reply = reply,
       hd_epoch = epoch, hd_nonce = nonce, hd_ephemeral = ephemeral\<rparr>))))))))))))))"

definition read_envelope :: "receiver \<Rightarrow> bytes \<Rightarrow> cli_exn + jval \<times> header" where
  "read_envelope R data = (case strict_parse (rv_fin R) (rv_depth R) data of
     Inl (CanonicalizationError path code) \<Rightarrow> Inl (CliError ''parse_error'')
   | Inl IntegerDigits \<Rightarrow> Inl (CliRaised ''ValueError'')
   | Inr v \<Rightarrow> (case schema_error (rv_crypto R) ''event-envelope'' v of
       Some _ \<Rightarrow> Inl (CliError ''envelope_schema_invalid'')
     | None \<Rightarrow> (case fields_at v ''protected'' of Inl _ \<Rightarrow> Inl (CliRaised ''KeyError'')
         | Inr fs \<Rightarrow> (case read_header fs of None \<Rightarrow> Inl (CliRaised ''KeyError'') | Some h \<Rightarrow> Inr (v, h)))))"

text \<open>\<open>get_relationship\<close>: an unknown relationship raises an error of the pairing module.\<close>

definition get_relationship :: "db \<Rightarrow> str \<Rightarrow> cli_exn + relationship_row" where
  "get_relationship s rid =
     (if \<not> uuid_matches rid then Inl (CliRaised ''PairingError'')
      else case relationship_of s rid of None \<Rightarrow> Inl (CliRaised ''PairingError'') | Some r \<Rightarrow> Inr r)"

definition check_relationship :: "db \<Rightarrow> str \<Rightarrow> bytes \<Rightarrow> cli_exn + relationship_row" where
  "check_relationship s rid data =
     (if length data > MAX_ENVELOPE_BYTES then Inl (CliError ''object_too_large'')
      else case get_relationship s rid of Inl e \<Rightarrow> Inl e
        | Inr rel \<Rightarrow> if rl_consent rel = ''revoked'' then Inl (CliError ''relationship_revoked'') else Inr rel)"

text \<open>The sender is the peer or, within the grace window, the identity the peer has retired.\<close>

definition check_sender :: "str \<Rightarrow> str \<Rightarrow> relationship_row \<Rightarrow> header \<Rightarrow> cli_exn + unit" where
  "check_sender wall rid rel h =
     (if hd_rel h \<noteq> rid then Inl (CliError ''relationship_mismatch'')
      else if hd_sender h \<noteq> rl_peer rel \<and> Some (hd_sender h) \<noteq> rl_prior rel then Inl (CliError ''unknown_sender'')
      else if hd_sender h \<noteq> rl_peer rel \<and> (\<not> truthy (rl_grace rel) \<or> wall > the (rl_grace rel))
      then Inl (CliError ''prior_identity_expired'')
      else Inr ())"

section \<open>Authentication\<close>

definition own_keys_newest :: "db \<Rightarrow> str \<Rightarrow> key_row list" where
  "own_keys_newest s rid = rev (sort_key ek_epoch (select (own_key_of rid) (key_epochs s)))"

text \<open>At most two keys: the current epoch and the newest own key below it, or the two newest.\<close>

definition unseal_candidates :: "db \<Rightarrow> str \<Rightarrow> key_row list" where
  "unseal_candidates s rid =
     (let rows = own_keys_newest s rid; current = map_option rl_epoch (relationship_of s rid) in
      case current of
        None \<Rightarrow> take 2 rows
      | Some c \<Rightarrow>
          if c \<in> ek_epoch ` set rows
          then filter (\<lambda>k. ek_epoch k = c) rows @ take 1 (filter (\<lambda>k. ek_epoch k < c) rows)
          else take 2 rows)"

definition open_with :: "receiver \<Rightarrow> db \<Rightarrow> jval \<Rightarrow> key_row \<Rightarrow> seal_error + fields \<times> jval" where
  "open_with R s env k = (case map_of (key_files s) (ek_ref k) of
     None \<Rightarrow> sealing_error ''unknown_recipient''
   | Some raw \<Rightarrow>
       if length raw \<noteq> 32 then sealing_error ''unknown_recipient''
       else unseal_envelope (rv_crypto R) (rv_fin R) (rv_depth R) (EnvDict env) raw (codes_of (rv_me R)))"

fun open_first :: "receiver \<Rightarrow> db \<Rightarrow> jval \<Rightarrow> seal_error \<Rightarrow> key_row list \<Rightarrow> seal_error + fields \<times> jval" where
  "open_first R s env failure [] = Inl failure"
| "open_first R s env failure (k # ks) = (case open_with R s env k of
     Inr x \<Rightarrow> Inr x
   | Inl (SealingError a b c) \<Rightarrow> open_first R s env (SealingError a b c) ks
   | Inl (SealRaised n) \<Rightarrow> Inl (SealRaised n))"

definition try_unseal :: "receiver \<Rightarrow> db \<Rightarrow> str \<Rightarrow> jval \<Rightarrow> cli_exn + jval" where
  "try_unseal R s rid env =
     (case open_first R s env (SealingError ''unknown_recipient'' [] []) (unseal_candidates s rid) of
        Inr (_, body) \<Rightarrow> Inr body
      | Inl (SealingError code _ _) \<Rightarrow> Inl (CliError (''unseal_'' @ code))
      | Inl (SealRaised n) \<Rightarrow> Inl (CliRaised n))"

text \<open>\<open>True\<close> if the object must wait for its epoch.\<close>

definition epoch_gate :: "receiver \<Rightarrow> str \<Rightarrow> str \<Rightarrow> nat \<Rightarrow> bool cli" where
  "epoch_gate R rid name e = (\<lambda>s. case on_data_event_epoch (rv_now R) rid e s of
     (Inr _, t) \<Rightarrow> (Inr False, t)
   | (Inl (RotationError c), t) \<Rightarrow>
       if c = ''unknown_future_epoch'' then
         seq (bump_retry_sighting (rv_wall R) rid name ''unknown_future_epoch'') (\<lambda>n.
           if n > MAX_UNKNOWN_EPOCH_SIGHTINGS then raise (CliError ''epoch_rejected'') else ret True) t
       else (Inl (CliError ''epoch_rejected''), t)
   | (Inl (RotationRaised n), t) \<Rightarrow> (Inl (CliRaised n), t)
   | (Inl _, t) \<Rightarrow> (Inl (CliError ''epoch_rejected''), t))"

section \<open>Freshness\<close>

definition envelope_digest :: "receiver \<Rightarrow> bytes \<Rightarrow> str" where
  "envelope_digest R data = hex_text (sha256 (rv_crypto R) data)"

text \<open>\<open>True\<close> for the redelivery of the envelope that used the nonce.\<close>

definition check_nonce :: "receiver \<Rightarrow> db \<Rightarrow> header \<Rightarrow> bytes \<Rightarrow> cli_exn + bool" where
  "check_nonce R s h data = (case fetchone (\<lambda>r. rg_nonce r = hd_nonce h) (replay_guard s) of
     None \<Rightarrow> Inr False
   | Some r \<Rightarrow>
       if rg_digest r \<noteq> None \<and> rg_event r = Some (hd_event h) \<and> rg_digest r = Some (envelope_digest R data)
       then Inr True else Inl (CliError ''nonce_reuse''))"

definition check_window :: "str \<Rightarrow> str \<Rightarrow> cli_exn + unit" where
  "check_window now created =
     (case moved now FUTURE_TOLERANCE_SECONDS of Inl e \<Rightarrow> Inl e | Inr latest \<Rightarrow>
      if created > latest then Inl (CliError ''clock_future'')
      else case moved now (- (ACCEPT_WINDOW_DAYS * 24 * 3600)) of Inl e \<Rightarrow> Inl e | Inr earliest \<Rightarrow>
      if created < earliest then Inl (CliError ''expired_window'') else Inr ())"

definition accepted_since :: "db \<Rightarrow> str \<Rightarrow> str \<Rightarrow> nat" where
  "accepted_since s rid cutoff = sum_list (map (\<lambda>p.
     if (case pl_received p of None \<Rightarrow> False | Some t \<Rightarrow> t \<ge> cutoff)
     then rowcount (\<lambda>e. ev_id e = pl_event p \<and> ev_rel e = rid) (events s) else 0) (event_payloads s))"

text \<open>\<open>True\<close> if the relationship is over its quota of the last day.\<close>

definition over_ingress_quota :: "db \<Rightarrow> str \<Rightarrow> str \<Rightarrow> cli_exn + bool" where
  "over_ingress_quota s rid now = (case moved now (- (24 * 3600)) of Inl e \<Rightarrow> Inl e
     | Inr cutoff \<Rightarrow> Inr (accepted_since s rid cutoff \<ge> INGRESS_MAX_EVENTS_PER_DAY))"

definition trunc :: "rat \<Rightarrow> int" where
  "trunc q = (if 0 \<le> q then \<lfloor>q\<rfloor> else \<lceil>q\<rceil>)"

definition ts_delta :: "rat \<Rightarrow> str \<Rightarrow> int \<Rightarrow> cli_exn + int" where
  "ts_delta now t d = (case parse_canonical_utc t of Inl _ \<Rightarrow> Inl (CliRaised ''ValueError'')
     | Inr m \<Rightarrow> Inr (trunc (of_int (m + d) - now)))"

definition replay_expiry :: "receiver \<Rightarrow> str \<Rightarrow> cli_exn + str" where
  "replay_expiry R created = (case ts_delta (rv_now R) created (7 * 24 * 3600 + 3600) of Inl e \<Rightarrow> Inl e
     | Inr d \<Rightarrow> moved (rv_wall R) (max d (7 * 24 * 3600)))"

definition last_sequence :: "db \<Rightarrow> str \<Rightarrow> str \<Rightarrow> nat" where
  "last_sequence s rid who = (case fetchone (\<lambda>r. sequence_key r = (rid, who)) (sender_sequence s) of
     None \<Rightarrow> 0 | Some r \<Rightarrow> sn_last r)"

section \<open>Identity rotation\<close>

definition card_text :: "json \<Rightarrow> str \<Rightarrow> str option" where
  "card_text doc k = (case doc of JObj d \<Rightarrow> (case dict_get d k of Some (JStr t) \<Rightarrow> Some t | _ \<Rightarrow> None) | _ \<Rightarrow> None)"

definition signed_by :: "crypto \<Rightarrow> bytes \<Rightarrow> str \<Rightarrow> str \<Rightarrow> bool" where
  "signed_by C msg key signature = (case (parse_identity_id C (codes_of key), b64url_decode (codes_of signature)) of
     (Some pub, Some sg) \<Rightarrow> ed_verify C pub sg msg | _ \<Rightarrow> False)"

text \<open>The new identity of an announcement that the pinned identity has cross-signed. Its card was read from
  a canonical document, so \<open>verify_card\<close> does not raise.\<close>

definition verify_identity_rotation_against_pinned :: "receiver \<Rightarrow> announcement \<Rightarrow> str \<Rightarrow> str option" where
  "verify_identity_rotation_against_pinned R a old =
     (if verify_card (rv_crypto R) (rv_now R) (jval_of (an_card a)) \<noteq> Inr ''VALID'' then None
      else case card_text (an_card a) ''identity_id'' of None \<Rightarrow> None
      | Some new \<Rightarrow>
          if old = [] \<or> new = [] \<or> old = new \<or> length (an_signatures a) \<noteq> 2 \<or>
             fst ` set (an_signatures a) \<noteq> {old, new} then None
          else (case restricted_jcs (jval_of (an_card a)) of Inl _ \<Rightarrow> None
            | Inr msg \<Rightarrow> if \<forall>sg \<in> set (an_signatures a). signed_by (rv_crypto R) msg (fst sg) (snd sg)
                then Some new else None))"

text \<open>\<open>False\<close> stands for the \<open>IdentityRotationError\<close>: the announcement does not verify, or the pinned
  identity has moved on. An announcement applied before is accepted without a write.\<close>

definition apply_identity_rotation :: "receiver \<Rightarrow> str \<Rightarrow> announcement \<Rightarrow> str \<Rightarrow> bool cli" where
  "apply_identity_rotation R rid a old =
     (case verify_identity_rotation_against_pinned R a old of None \<Rightarrow> ret False
      | Some new \<Rightarrow>
          seq (\<lambda>s. (get_relationship s rid, s)) (\<lambda>rel.
          if rl_peer rel = new then ret True
          else if rl_peer rel \<noteq> old then ret False
          else seq (lift (moved (rv_wall R) PRIOR_IDENTITY_GRACE_SECONDS)) (\<lambda>grace.
            seq (txn (exec (set_relationship rid (\<lambda>r. r\<lparr>rl_peer := new, rl_prior := Some old, rl_grace := Some grace,
              rl_name := card_text (an_card a) ''display_name''\<rparr>)))) (\<lambda>_. ret True))))"

definition check_announcement :: "receiver \<Rightarrow> header \<Rightarrow> payload \<Rightarrow> cli_exn + unit" where
  "check_announcement R h p =
     (if hd_type h = ''identity.rotated'' then (case p of
        PIdentityRotated a \<Rightarrow> if verify_identity_rotation_against_pinned R a (hd_sender h) = None
          then Inl (CliError ''identity_rotation_rejected'') else Inr ()
      | _ \<Rightarrow> Inl (CliError ''identity_rotation_rejected''))
      else Inr ())"

section \<open>Hooks after the commit\<close>

datatype hook_exn = HookRejected | HookFailed

definition rotation_hook :: "'a rotation_prog \<Rightarrow> (db, hook_exn, 'a) prog" where
  "rotation_hook p = (\<lambda>s. case p s of
     (Inl (RotationRaised n), t) \<Rightarrow> (Inl HookFailed, t) | (Inl e, t) \<Rightarrow> (Inl HookRejected, t) | (Inr a, t) \<Rightarrow> (Inr a, t))"

definition cli_hook :: "'a cli \<Rightarrow> (db, hook_exn, 'a) prog" where
  "cli_hook p = (\<lambda>s. case p s of (Inl e, t) \<Rightarrow> (Inl HookFailed, t) | (Inr a, t) \<Rightarrow> (Inr a, t))"

definition ack_already_sent :: "str \<Rightarrow> str \<Rightarrow> str \<Rightarrow> db \<Rightarrow> bool" where
  "ack_already_sent me rid pid s \<longleftrightarrow> (\<exists>e \<in> set (events s). \<exists>p \<in> set (event_payloads s).
     pl_event p = ev_id e \<and> ev_rel e = rid \<and> ev_type e = ''security.key.ack'' \<and> ev_sender e = me \<and>
     (case pl_payload p of PKeyAck _ x \<Rightarrow> x = pid | _ \<Rightarrow> False))"

definition ack_intent :: "nat \<Rightarrow> str \<Rightarrow> intent" where
  "ack_intent e pid = \<lparr>it_type = ''security.key.ack'', it_payload = PKeyAck e pid, it_conv = None, it_thread = None,
     it_reply = None, it_deliver = None, it_expires = None, it_dry = False, it_skew = None\<rparr>"

definition quietly :: "(db, 'e, unit) prog \<Rightarrow> (db, 'f, unit) prog" where
  "quietly p = (\<lambda>s. (Inr (), snd (p s)))"

definition post_receive_hooks :: "receiver \<Rightarrow> str \<Rightarrow> str \<Rightarrow> payload \<Rightarrow> str \<Rightarrow> nat \<Rightarrow> (db, hook_exn, unit) prog" where
  "post_receive_hooks R rid etype p eid epoch =
     seq (cli_hook (\<lambda>s. (get_relationship s rid, s))) (\<lambda>rel.
     if etype = ''security.key.prepare'' then (case p of
       PKeyPrepare pp \<Rightarrow>
         seq (rotation_hook (on_prepare (rv_print R) (rv_now R) rid pp eid)) (\<lambda>(e, pid).
         seq (query (ack_already_sent (rv_me R) rid eid)) (\<lambda>acked.
         if acked then ret ()
         else seq (cli_hook (send_event (rv_sender R) (rv_ack R) (rv_spare R) rel (ack_intent e pid))) (\<lambda>_. ret ())))
     | _ \<Rightarrow> raise HookFailed)
     else if etype = ''security.key.ack'' then (case p of
       PKeyAck e pid \<Rightarrow> rotation_hook (on_ack (rv_now R) rid e pid) | _ \<Rightarrow> raise HookFailed)
     else if etype = ''security.key.confirm'' then (case p of
       PKeyConfirm e \<Rightarrow> rotation_hook (on_confirm (rv_now R) rid e) | _ \<Rightarrow> raise HookFailed)
     else if etype = ''security.key.commit'' then (case p of
       PKeyCommit e \<Rightarrow> rotation_hook (on_commit (rv_now R) rid e) | _ \<Rightarrow> raise HookFailed)
     else if etype = ''relationship.ready'' then cli_hook (maybe_mark_active_after_ready (rv_me R) rid)
     else seq (quietly (note_decrypted_new_wrap (rv_now R) rid epoch)) (\<lambda>_. quietly (note_accepted_event rid)))"

definition ROTATION_EVENT_TYPES :: "str list" where
  "ROTATION_EVENT_TYPES = [''security.key.prepare'', ''security.key.ack'', ''security.key.confirm'', ''security.key.commit'']"

definition mark_rotation_processed :: "str \<Rightarrow> str \<Rightarrow> str \<Rightarrow> str \<Rightarrow> db \<Rightarrow> db" where
  "mark_rotation_processed wall eid rid etype s = s\<lparr>rotation_processed_events := insert_or_ignore rx_event
     \<lparr>rx_event = eid, rx_rel = rid, rx_type = etype, rx_at = wall\<rparr> (rotation_processed_events s)\<rparr>"

text \<open>A rejection is final and marked like a success; another failure is left for a later poll.\<close>

definition run_rotation_hooks :: "receiver \<Rightarrow> str \<Rightarrow> str \<Rightarrow> payload \<Rightarrow> str \<Rightarrow> nat \<Rightarrow> db \<Rightarrow> db" where
  "run_rotation_hooks R rid etype p eid epoch s = (case post_receive_hooks R rid etype p eid epoch s of
     (Inl HookFailed, t) \<Rightarrow> t
   | (_, t) \<Rightarrow> mark_rotation_processed (rv_wall R) eid rid etype t)"

definition run_hooks :: "receiver \<Rightarrow> str \<Rightarrow> str \<Rightarrow> payload \<Rightarrow> str \<Rightarrow> nat \<Rightarrow> db \<Rightarrow> db" where
  "run_hooks R rid etype p eid epoch s =
     (if etype \<in> set ROTATION_EVENT_TYPES then run_rotation_hooks R rid etype p eid epoch s
      else snd (post_receive_hooks R rid etype p eid epoch s))"

section \<open>Resuming after a crash\<close>

definition redrain_projection :: "receiver \<Rightarrow> str \<Rightarrow> str \<Rightarrow> unit cli" where
  "redrain_projection R rid eid = (\<lambda>s.
     if eid \<notin> pq_event ` set (projection_queue s) then (Inr (), s)
     else case (staged_of s eid, event_of s eid) of
       (Some p, Some e) \<Rightarrow>
         (case project_and_acknowledge (rv_wall R) (event_input e (pl_payload p) (pl_reply_to p)) s of
            (Inl (ProjectionError c), t) \<Rightarrow>
              txn (exec (\<lambda>u. acknowledge eid (add_quarantine (rv_wall R) rid (ev_sender e) (ev_seq e) eid (''projection_'' @ c) u))) t
          | (Inl x, t) \<Rightarrow> (Inl (if x = ProjIntegrity then CliStorage False else CliRaised (projection_name x)), t)
          | (Inr _, t) \<Rightarrow> (Inr (), t))
     | _ \<Rightarrow> (Inr (), s))"

definition maybe_apply_pending_identity_rotation :: "receiver \<Rightarrow> str \<Rightarrow> str \<Rightarrow> str \<Rightarrow> unit cli" where
  "maybe_apply_pending_identity_rotation R rid eid who =
     seq (query (\<lambda>s. case (event_of s eid, staged_of s eid) of
       (Some e, Some p) \<Rightarrow> if ev_type e = ''identity.rotated'' then
         (case pl_payload p of PIdentityRotated a \<Rightarrow> Some a | _ \<Rightarrow> None) else None
     | _ \<Rightarrow> None)) (\<lambda>found. case found of None \<Rightarrow> ret ()
       | Some a \<Rightarrow> seq (apply_identity_rotation R rid a who) (\<lambda>applied.
           if applied then ret () else raise (CliRaised ''IdentityRotationError'')))"

definition converge_rotation_hooks :: "receiver \<Rightarrow> str \<Rightarrow> str \<Rightarrow> db \<Rightarrow> db" where
  "converge_rotation_hooks R rid eid s =
     (if eid \<in> rx_event ` set (rotation_processed_events s) then s
      else case (event_of s eid, staged_of s eid) of
        (Some e, Some p) \<Rightarrow> if ev_type e \<in> set ROTATION_EVENT_TYPES
          then run_rotation_hooks R rid (ev_type e) (pl_payload p) eid (ev_epoch e) s else s
      | _ \<Rightarrow> s)"

definition resume :: "receiver \<Rightarrow> str \<Rightarrow> header \<Rightarrow> outcome cli" where
  "resume R rid h =
     seq (redrain_projection R rid (hd_event h)) (\<lambda>_.
     seq (maybe_apply_pending_identity_rotation R rid (hd_event h) (hd_sender h)) (\<lambda>_.
     seq (exec (converge_rotation_hooks R rid (hd_event h))) (\<lambda>_.
     ret (outcome_of ''accepted''))))"

section \<open>The receive commit\<close>

definition add_received_thread :: "str option \<Rightarrow> str \<Rightarrow> db \<Rightarrow> db" where
  "add_received_thread thread conv s = (case thread of
     None \<Rightarrow> s\<lparr>null_threads := null_threads s @ [conv]\<rparr>
   | Some tid \<Rightarrow> s\<lparr>threads := insert_or_ignore th_id \<lparr>th_id = tid, th_conv = conv\<rparr> (threads s)\<rparr>)"

definition sequence_clash :: "header \<Rightarrow> db \<Rightarrow> bool" where
  "sequence_clash h s \<longleftrightarrow> (\<exists>e \<in> set (events s). ev_rel e = hd_rel h \<and> ev_sender e = hd_sender h \<and>
     ev_seq e = hd_seq h \<and> ev_id e \<noteq> hd_event h)"

text \<open>An INSERT that a constraint may refuse.\<close>

definition insert_if :: "(db \<Rightarrow> bool) \<Rightarrow> (db \<Rightarrow> db) \<Rightarrow> unit cli" where
  "insert_if ok f = seq (query ok) (\<lambda>b. if b then exec f else raise (CliError ''integrity_conflict''))"

definition guard_nonce :: "receiver \<Rightarrow> header \<Rightarrow> bytes \<Rightarrow> str \<Rightarrow> unit cli" where
  "guard_nonce R h data expires =
     insert_if (\<lambda>s. stamp_glob expires \<and> hd_nonce h \<notin> rg_nonce ` set (replay_guard s))
       (\<lambda>s. s\<lparr>replay_guard := replay_guard s @ [\<lparr>rg_nonce = hd_nonce h, rg_event = Some (hd_event h),
          rg_digest = Some (envelope_digest R data), rg_expires = expires\<rparr>]\<rparr>)"

definition projection_as_cli :: "proj_exn \<Rightarrow> cli_exn" where
  "projection_as_cli x = (if x = ProjIntegrity then CliError ''integrity_conflict'' else CliRaised (projection_name x))"

definition stage_received :: "receiver \<Rightarrow> header \<Rightarrow> payload \<Rightarrow> unit cli" where
  "stage_received R h p = catching projection_as_cli
     (seq (record_projection_input (sd_valid (rv_sender R)) (rv_wall R) (hd_event h) (hd_type h) p (hd_reply h) (Some (rv_wall R)))
       (\<lambda>_. ret ()))"

definition queue_received :: "str \<Rightarrow> str \<Rightarrow> unit cli" where
  "queue_received wall eid = insert_if (\<lambda>s. eid \<notin> pq_event ` set (projection_queue s))
     (\<lambda>s. s\<lparr>projection_queue := projection_queue s @ [\<lparr>pq_event = eid, pq_at = wall\<rparr>]\<rparr>)"

definition policy_as_cli :: "policy_exn \<Rightarrow> cli_exn" where
  "policy_as_cli e = CliRaised (case e of PolicyError c \<Rightarrow> ''PolicyError''
     | UnknownRelationshipError c \<Rightarrow> ''UnknownRelationshipError'' | PyRaise n \<Rightarrow> n)"

text \<open>The mode of a snapshot is any JSON value; one that is no text is no known mode, or not hashable.\<close>

definition snapshot_action :: "dict \<Rightarrow> policy_exn + str" where
  "snapshot_action snap = (case item snap ''mode'' of JStr m \<Rightarrow> surface_action m
     | JArr _ \<Rightarrow> Inl (PyRaise ''TypeError'') | JObj _ \<Rightarrow> Inl (PyRaise ''TypeError'')
     | _ \<Rightarrow> Inl (PolicyError ''invalid_delivery_mode''))"

definition surface_received :: "str \<Rightarrow> str \<Rightarrow> str \<Rightarrow> nat cli" where
  "surface_received wall rid eid =
     catching policy_as_cli
       (seq (\<lambda>s. (policy_snapshot s rid, s)) (\<lambda>snap.
        seq (lift (snapshot_action snap)) (\<lambda>action.
        seq (exec (\<lambda>s. s\<lparr>surface_queue := insert_or_ignore sf_event
          \<lparr>sf_event = eid, sf_snapshot = JObj snap, sf_at = wall\<rparr> (surface_queue s)\<rparr>)) (\<lambda>_.
        ret (if action = ''persist_only'' then 0 else 1)))))"

definition outgoing_as_cli :: "outgoing_exn \<Rightarrow> cli_exn" where
  "outgoing_as_cli e = (case e of EventStoreError c \<Rightarrow> CliError ''integrity_conflict''
     | OutSealing x \<Rightarrow> CliRaised ''SealingError'' | OutProjection x \<Rightarrow> projection_as_cli x | OutValueError \<Rightarrow> CliRaised ''ValueError'')"

definition receipt_header :: "receiver \<Rightarrow> str \<Rightarrow> nat \<Rightarrow> outgoing_exn + header" where
  "receipt_header R rid epoch = build_protected (rv_crypto R) (rv_wall R) (fr_event (rv_receipt R)) (fr_nonce (rv_receipt R))
     rid rid (rv_me R) ''receipt.accepted'' (Some (fr_thread (rv_receipt R))) None (int epoch) None None None None"

definition queue_accepted_receipt :: "receiver \<Rightarrow> str \<Rightarrow> str \<Rightarrow> str \<Rightarrow> unit cli" where
  "queue_accepted_receipt R rid peer eid =
     seq (\<lambda>s. (get_relationship s rid, s)) (\<lambda>rel.
     seq (\<lambda>s. (recipients_for (rv_crypto R) s rel peer, s)) (\<lambda>(recipients, epoch).
     let S = rv_sender R; p = PReceiptAccepted eid (rv_wall R) in
     if \<not> sd_valid S ''receipt.accepted'' p then raise (CliError ''send_error'')
     else case receipt_header R rid epoch of Inl _ \<Rightarrow> raise (CliError ''send_error'')
       | Inr h \<Rightarrow> seq (catching outgoing_as_cli (persist_outgoing_in_txn (rv_crypto R) (fr_draws (rv_receipt R)) (sd_doc S)
             (sd_valid S) (rv_wall R) h p (sd_secret S) recipients None)) (\<lambda>_. ret ())))"

definition accept_receipt :: "receiver \<Rightarrow> str \<Rightarrow> str \<Rightarrow> header \<Rightarrow> nat cli" where
  "accept_receipt R rid peer h =
     seq (catching policy_as_cli (\<lambda>s. (accepted_receipt_permitted s rid, s))) (\<lambda>permitted.
     if permitted \<and> hd_type h \<notin> {''receipt.accepted'', ''receipt.seen''}
     then seq (queue_accepted_receipt R rid peer (hd_event h)) (\<lambda>_. ret 1) else ret 0)"

text \<open>One transaction: the surfaces and receipts it queues are its answer.\<close>

definition log_received :: "header \<Rightarrow> bytes \<Rightarrow> unit cli" where
  "log_received h data =
     seq (exec (ensure_conversation (hd_conv h))) (\<lambda>_.
     seq (exec (add_received_thread (hd_thread h) (hd_conv h))) (\<lambda>_.
     seq (query (sequence_clash h)) (\<lambda>clash.
     if clash then raise (CliError ''sequence_fork'') else
     seq (exec (note_sequence (hd_rel h) (hd_sender h) (hd_seq h))) (\<lambda>_.
     insert_if (\<lambda>s. event_conflict s (event_row_of h data) = None)
       (\<lambda>s. s\<lparr>events := events s @ [event_row_of h data]\<rparr>)))))"

definition commit_received ::
  "receiver \<Rightarrow> str \<Rightarrow> str \<Rightarrow> header \<Rightarrow> payload \<Rightarrow> bytes \<Rightarrow> str \<Rightarrow> (nat \<times> nat) cli" where
  "commit_received R rid peer h p data expires =
     txn (seq (log_received h data) (\<lambda>_.
       seq (guard_nonce R h data expires) (\<lambda>_.
       seq (stage_received R h p) (\<lambda>_.
       seq (queue_received (rv_wall R) (hd_event h)) (\<lambda>_.
       seq (surface_received (rv_wall R) rid (hd_event h)) (\<lambda>shown.
       seq (accept_receipt R rid peer h) (\<lambda>answered.
       ret (shown, answered))))))))"

section \<open>One object\<close>

text \<open>What follows the commit: the projection, then a rotation of the peer's identity, then the hooks.\<close>

definition after_commit :: "receiver \<Rightarrow> str \<Rightarrow> str \<Rightarrow> header \<Rightarrow> payload \<Rightarrow> bytes \<Rightarrow> nat \<times> nat \<Rightarrow> outcome cli" where
  "after_commit R rid name h p data counts = (\<lambda>s.
     case project_and_acknowledge (rv_wall R) (event_input (event_row_of h data) p (hd_reply h)) s of
       (Inl (ProjectionError c), t) \<Rightarrow>
         seq (txn (exec (\<lambda>u. acknowledge (hd_event h)
             (add_quarantine (rv_wall R) rid (hd_sender h) (hd_seq h) (hd_event h) (''projection_'' @ c) u)))) (\<lambda>_.
         quarantine_outcome (rv_wall R) rid name (''projection_'' @ c)) t
     | (Inl x, t) \<Rightarrow> (Inl (if x = ProjIntegrity then CliStorage False else CliRaised (projection_name x)), t)
     | (Inr _, t) \<Rightarrow>
         seq (if hd_type h = ''identity.rotated'' then (case p of
             PIdentityRotated a \<Rightarrow> apply_identity_rotation R rid a (hd_sender h) | _ \<Rightarrow> ret False) else ret True) (\<lambda>applied.
         if \<not> applied then quarantine_outcome (rv_wall R) rid name ''identity_rotation_rejected''
         else seq (exec (run_hooks R rid (hd_type h) p (hd_event h) (hd_epoch h))) (\<lambda>_.
           ret \<lparr>oc_kind = ''accepted'', oc_surfaces = fst counts, oc_receipts = snd counts\<rparr>)) t)"

text \<open>An authenticated event of a known epoch.\<close>

definition receive_authenticated :: "receiver \<Rightarrow> str \<Rightarrow> str \<Rightarrow> str \<Rightarrow> header \<Rightarrow> payload \<Rightarrow> bytes \<Rightarrow> outcome cli" where
  "receive_authenticated R rid name peer h p data =
     seq (\<lambda>s. (check_nonce R s h data, s)) (\<lambda>again.
     if again then ret (outcome_of ''accepted'') else
     seq (lift (check_window (rv_wall R) (hd_created h))) (\<lambda>_.
     seq (\<lambda>s. (over_ingress_quota s rid (rv_wall R), s)) (\<lambda>over.
     if over then ret (outcome_of ''retry_pending'') else
     seq (lift (check_announcement R h p)) (\<lambda>_.
     seq (lift (replay_expiry R (hd_created h))) (\<lambda>expires.
     seq (query (\<lambda>s. last_sequence s rid (hd_sender h))) (\<lambda>last_no.
     if hd_seq h > last_no + MAX_SEQ_GAP then raise (CliError ''seq_gap_too_large'') else
     seq (commit_received R rid peer h p data expires) (after_commit R rid name h p data)))))))"

definition receive_object_inner :: "receiver \<Rightarrow> str \<Rightarrow> str \<Rightarrow> bytes \<Rightarrow> outcome cli" where
  "receive_object_inner R rid name data =
     seq (\<lambda>s. (check_relationship s rid data, s)) (\<lambda>rel.
     if rv_legacy R data then rv_legacy_path R rid name data else
     seq (lift (read_envelope R data)) (\<lambda>(env, h).
     seq (lift (check_sender (rv_wall R) rid rel h)) (\<lambda>_.
     seq (query (\<lambda>s. event_of s (hd_event h))) (\<lambda>existing. case existing of
       Some e \<Rightarrow> if ev_sealed e = data then resume R rid h else raise (CliError ''event_id_conflict'')
     | None \<Rightarrow>
         seq (\<lambda>s. (try_unseal R s rid env, s)) (\<lambda>body.
         seq (epoch_gate R rid name (hd_epoch h)) (\<lambda>waits.
         if waits then ret (outcome_of ''retry_pending'')
         else receive_authenticated R rid name (rl_peer rel) h (rv_read R (hd_type h) body) data))))))"

section \<open>What the log gains\<close>

lemma log_rotation_hook [log_intros]: "preserves (log_in L B) p \<Longrightarrow> preserves (log_in L B) (rotation_hook p)"
  by (erule preserves_outcome) (simp add: rotation_hook_def split: prod.split sum.split rotation_exn.split)

lemma log_cli_hook [log_intros]: "preserves (log_in L B) p \<Longrightarrow> preserves (log_in L B) (cli_hook p)"
  by (erule preserves_outcome) (simp add: cli_hook_def split: prod.split sum.split)

lemma log_quietly [log_intros]: "preserves (log_in L B) p \<Longrightarrow> preserves (log_in L B) (quietly p)"
  by (erule preserves_outcome) (simp add: quietly_def)

lemma log_read: "preserves (log_in L B) (\<lambda>s. (f s, s))"
  by (simp add: preserves_def)

text \<open>The operations of the rotation write the tables of the rotation only.\<close>

lemma log_rotation_writes [log_intros]:
  "preserves (log_in L B) (insert_key k)" "preserves (log_in L B) (insert_rotation r)"
  "preserves (log_in L B) (exec (hold rid e reason payload now))" "preserves (log_in L B) (exec (release_held P))"
  "preserves (log_in L B) (exec (forget_first_seen rid e))" "preserves (log_in L B) (exec (delete_rotations Q))"
  "preserves (log_in L B) (exec (set_key_state K e st))" "preserves (log_in L B) (exec (set_relationship rid f))"
  "preserves (log_in L B) (exec (consume_pending_wrap_seen rid e))" "preserves (log_in L B) (exec (park_wrap_seen rid e now))"
  "preserves (log_in L B) (exec (note_first_seen rid e now))" "preserves (log_in L B) (exec (cap_first_seen rid))"
  "preserves (log_in L B) (exec (reject_epoch rid e))" "preserves (log_in L B) (exec id)"
  by (rule log_same, simp add: insert_key_def insert_rotation_def exec_def hold_def cap_quarantine_def add_held_def
      release_held_def forget_first_seen_def delete_rotations_def set_key_state_def set_relationship_def
      consume_pending_wrap_seen_def park_wrap_seen_def note_first_seen_def cap_first_seen_def reject_epoch_def Let_def)+

lemma log_exec_if [log_intros]:
  "preserves (log_in L B) (exec f :: (db, 'e, unit) prog) \<Longrightarrow> preserves (log_in L B) (exec g :: (db, 'e, unit) prog) \<Longrightarrow>
   preserves (log_in L B) (exec (if b then f else g) :: (db, 'e, unit) prog)"
  by simp

lemma log_on_ack [log_intros]: "preserves (log_in L B) (on_ack now rid e pid)"
  unfolding on_ack_def by (intro pres_intros log_intros)

lemma log_on_confirm [log_intros]: "preserves (log_in L B) (on_confirm now rid e)"
  unfolding on_confirm_def settled_or_rejected_def by (intro pres_intros log_intros)

lemma log_on_commit [log_intros]: "preserves (log_in L B) (on_commit now rid e)"
  unfolding on_commit_def settled_or_rejected_def by (intro pres_intros log_intros) (simp split: option.split add: log_intros)

lemma log_on_prepare [log_intros]: "preserves (log_in L B) (on_prepare fp now rid p pid)"
proof -
  have "preserves (log_in L B) (record_acking_rotation rid e prior p pid now)" for e prior
    unfolding record_acking_rotation_def by (intro pres_intros log_intros)
  then show ?thesis
    unfolding on_prepare_def hold_conflict_def accept_prepare_def require_relationship_def Let_def
    by (intro pres_intros log_intros)
qed

lemma log_note_wrap [log_intros]: "preserves (log_in L B) (note_decrypted_new_wrap now rid e)"
  unfolding note_decrypted_new_wrap_def by (intro pres_intros log_intros)

lemma log_note_accepted [log_intros]: "preserves (log_in L B) (note_accepted_event rid)"
  unfolding note_accepted_event_def by (intro pres_intros log_intros)

lemma log_post_hooks:
  "own_rows (rv_me R) \<subseteq> B \<Longrightarrow> preserves (log_in L B) (post_receive_hooks R rid etype p eid epoch)"
  unfolding post_receive_hooks_def rv_me_def
  by (cases p; simp only: payload.case; intro pres_intros log_intros log_read log_send_event)

lemma log_run_rotation_hooks:
  assumes "own_rows (rv_me R) \<subseteq> B" "log_in L B s"
  shows "log_in L B (run_rotation_hooks R rid etype p eid epoch s)"
proof -
  have "log_in L B (snd (post_receive_hooks R rid etype p eid epoch s))"
    using preservesD [OF log_post_hooks [OF assms(1)] assms(2)] .
  then show ?thesis
    by (auto simp: run_rotation_hooks_def mark_rotation_processed_def log_in_def split: prod.split sum.split hook_exn.split)
qed

lemma log_run_hooks:
  assumes "own_rows (rv_me R) \<subseteq> B" "log_in L B s"
  shows "log_in L B (run_hooks R rid etype p eid epoch s)"
  using log_run_rotation_hooks [OF assms] preservesD [OF log_post_hooks [OF assms(1)] assms(2)]
  by (simp add: run_hooks_def)

lemma log_quarantine [log_intros]: "preserves (log_in L B) (quarantine_outcome wall rid name reason)"
  unfolding quarantine_outcome_def record_quarantine_def
  by (intro pres_intros log_exec) (simp_all add: put_object_def expire_objects_def cap_objects_def)

lemma log_identity [log_intros]: "preserves (log_in L B) (apply_identity_rotation R rid a old)"
  unfolding apply_identity_rotation_def by (intro pres_intros log_intros log_read)

lemma log_set_aside [log_intros]:
  "preserves (log_in L B) (exec (\<lambda>u. acknowledge eid (add_quarantine wall rid who n eid reason u)))"
  by (rule log_exec) (simp add: acknowledge_def add_quarantine_def)

lemma log_redrain [log_intros]: "preserves (log_in L B) (redrain_projection R rid eid)"
proof (rule preservesI)
  fix s assume s: "log_in L B s"
  have p: "log_in L B t" if "project_and_acknowledge wall ev s = (r, t)" for wall ev r t
    using preservesD [OF log_project s] that by (metis snd_conv)
  have q: "log_in L B (snd (txn (exec (\<lambda>u. acknowledge eid (add_quarantine wall rid who n eid reason u))) t))"
    if "log_in L B t" for wall who n reason t
    using preservesD [OF log_txn [OF log_set_aside] that] .
  show "log_in L B (snd (redrain_projection R rid eid s))"
    using s by (auto simp: redrain_projection_def split: option.split prod.split sum.split proj_exn.split dest: p intro!: q)
qed

lemma log_resume: "own_rows (rv_me R) \<subseteq> B \<Longrightarrow> preserves (log_in L B) (resume R rid h)"
  unfolding resume_def maybe_apply_pending_identity_rotation_def converge_rotation_hooks_def
  by (intro pres_intros log_intros preserves_exec) (auto intro: log_run_rotation_hooks split: option.split)

section \<open>The commit is complete or nothing\<close>

definition received_row :: "receiver \<Rightarrow> header \<Rightarrow> payload \<Rightarrow> payload_row" where
  "received_row R h p = \<lparr>pl_event = hd_event h, pl_type = hd_type h, pl_payload = p, pl_reply_to = hd_reply h,
     pl_received = Some (rv_wall R)\<rparr>"

definition nonce_row :: "receiver \<Rightarrow> header \<Rightarrow> bytes \<Rightarrow> str \<Rightarrow> replay_row" where
  "nonce_row R h data expires = \<lparr>rg_nonce = hd_nonce h, rg_event = Some (hd_event h),
     rg_digest = Some (envelope_digest R data), rg_expires = expires\<rparr>"

text \<open>The tables a commit fills, and the files it must leave alone.\<close>

definition ledger :: "db \<Rightarrow> payload_row list \<times> replay_row list \<times> projection_queue_row list \<times> surface_row list" where
  "ledger s = (event_payloads s, replay_guard s, projection_queue s, surface_queue s)"

lemma insert_if_returns: "insert_if ok f s = (Inr u, t) \<longleftrightarrow> ok s \<and> t = f s"
  by (auto simp: insert_if_def prog_run)

lemma insert_if_files: "(\<And>s. same_files r s \<Longrightarrow> same_files r (f s)) \<Longrightarrow> preserves (same_files r) (insert_if ok f)"
  unfolding insert_if_def by (intro pres_intros preserves_exec)

lemma log_received_returns:
  assumes "log_received h data s = (Inr u, t)"
  shows "events t = events s @ [event_row_of h data] \<and> hd_event h \<notin> ev_id ` set (events s) \<and>
    \<not> sequence_clash h s \<and> ledger t = ledger s \<and> same_files s t"
  using assms
  by (auto simp: log_received_def prog_run insert_if_returns seq_returns ensure_conversation_def add_received_thread_def
      sequence_clash_def note_sequence_def event_conflict_def event_row_of_def ledger_def same_files_def
      split: if_splits option.splits)

lemma catching_returns: "catching f p s = (Inr a, t) \<longleftrightarrow> p s = (Inr a, t)"
  by (auto simp: catching_def split: prod.split sum.split)

lemma stage_received_returns:
  assumes "stage_received R h p s = (Inr u, t)"
  shows "sd_valid (rv_sender R) (hd_type h) p \<and>
    (\<exists>r \<in> set (event_payloads t). pl_event r = hd_event h \<and> (r \<in> set (event_payloads s) \<or> r = received_row R h p)) \<and>
    (\<exists>x. t = s\<lparr>event_payloads := x\<rparr>) "
proof -
  have app: "event_payloads_update (\<lambda>t. t @ [r]) s = s\<lparr>event_payloads := event_payloads s @ [r]\<rparr>" for r
    by (cases s) simp
  show ?thesis
    using assms
    by (auto simp: stage_received_def catching_returns seq_returns record_projection_input_def Let_def prog_run app
        received_row_def split: if_splits option.splits dest!: fetchone_Some_mem intro: exI [of _ "event_payloads s"])
qed

lemma surface_returns:
  "surface_received wall rid eid s = (Inr n, t) \<Longrightarrow>
   eid \<in> sf_event ` set (surface_queue t) \<and> (\<exists>x. t = s\<lparr>surface_queue := x\<rparr>)"
  by (auto simp: surface_received_def catching_returns seq_returns lift_def exec_def ret_def insert_or_ignore_def
      simp del: o_apply)

lemma stage_payload_ledger:
  "ledger (snd (stage_payload valid wall h p received s)) = (fst (ledger (snd (stage_payload valid wall h p received s))), snd (ledger s))"
  "set (event_payloads s) \<subseteq> set (event_payloads (snd (stage_payload valid wall h p received s)))"
  by (auto simp: stage_payload_def record_projection_input_def Let_def prog_run ledger_def
      split: option.split prod.split sum.split)

text \<open>An event of one's own, persisted in between, takes nothing away.\<close>

definition ledger_grows :: "db \<Rightarrow> db \<Rightarrow> bool" where
  "ledger_grows s t \<longleftrightarrow> set (event_payloads s) \<subseteq> set (event_payloads t) \<and> set (replay_guard s) \<subseteq> set (replay_guard t) \<and>
     set (projection_queue s) \<subseteq> set (projection_queue t) \<and> set (surface_queue s) \<subseteq> set (surface_queue t)"

lemma persist_ledger:
  "preserves (ledger_grows r) (persist_outgoing_in_txn C dr doc valid wall h p sk recipients None)"
proof -
  have st: "preserves (ledger_grows r) (stage_payload valid wall h' p None)" for h'
  proof (rule preservesI)
    fix s assume g: "ledger_grows r s"
    show "ledger_grows r (snd (stage_payload valid wall h' p None s))"
      using g stage_payload_ledger [where valid = valid and wall = wall and h = h' and p = p and received = None and s = s]
      by (auto simp: ledger_grows_def ledger_def)
  qed
  have store: "preserves (ledger_grows r) (store_outgoing valid wall h' p None sealed)" for h' sealed
    unfolding store_outgoing_def Outgoing.ensure_thread_def insert_event_def enqueue_def ensure_conversation_def
      note_sequence_def queue_projection_def mark_approval_def
    by (intro pres_intros st preserves_exec) (auto simp: ledger_grows_def insert_or_ignore_def)
  have claim: "preserves (ledger_grows r) (claim_approval wall h p None)"
    unfolding claim_approval_def by (intro pres_intros) simp_all
  show ?thesis
    unfolding persist_outgoing_in_txn_def by (intro pres_intros claim store)
qed

lemma files_read: "preserves (same_files r) (\<lambda>s. (f s, s))"
  by (simp add: preserves_def)

lemma files_catching: "preserves (same_files r) p \<Longrightarrow> preserves (same_files r) (catching f p)"
  by (erule preserves_outcome) (simp add: catching_def split: prod.split sum.split)

lemma receipt_files: "preserves (same_files r) (accept_receipt R rid peer h)"
  unfolding accept_receipt_def queue_accepted_receipt_def Let_def
  by (intro pres_intros files_read files_catching persist_files)

lemma commit_files:
  "preserves (same_files r) (seq (log_received h data) (\<lambda>_. seq (guard_nonce R h data expires) (\<lambda>_.
     seq (stage_received R h p) (\<lambda>_. seq (queue_received (rv_wall R) (hd_event h)) (\<lambda>_.
     seq (surface_received (rv_wall R) rid (hd_event h)) (\<lambda>shown.
     seq (accept_receipt R rid peer h) (\<lambda>answered. ret (shown, answered))))))))"
proof -
  have same: "same_files r (f s) = same_files r s" if "relay (f s) = relay s" "key_files (f s) = key_files s" for f s
    using that by (simp add: same_files_def)
  show ?thesis
    unfolding log_received_def guard_nonce_def queue_received_def stage_received_def surface_received_def
      record_projection_input_def Let_def
    by (intro pres_intros files_read files_catching receipt_files insert_if_files preserves_exec)
      (simp_all add: same_files_def ensure_conversation_def add_received_thread_def note_sequence_def split: option.splits)
qed

text \<open>A receipt is one more event of one's own in the log, and waits in the scheduler's queue.\<close>

definition receipt_queued :: "receiver \<Rightarrow> str \<Rightarrow> nat \<Rightarrow> db \<Rightarrow> db \<Rightarrow> bool" where
  "receipt_queued R rid n s t \<longleftrightarrow>
     (if n = 0 then events t = events s
      else \<exists>e. events t = events s @ [e] \<and> ev_type e = ''receipt.accepted'' \<and> ev_rel e = rid \<and> ev_sender e = rv_me R \<and>
        still_queued e t)"

lemma receipt_header_fields:
  "receipt_header R rid epoch = Inr h \<Longrightarrow> hd_rel h = rid \<and> hd_sender h = rv_me R \<and> hd_type h = ''receipt.accepted''"
  by (auto simp: receipt_header_def build_protected_def split: if_splits)

lemma accept_receipt_returns:
  assumes "accept_receipt R rid peer h s = (Inr n, t)"
  shows "receipt_queued R rid n s t \<and> ledger_grows s t"
proof -
  have perm: "catching policy_as_cli (\<lambda>s. (accepted_receipt_permitted s rid, s)) s = (Inr b, u) \<Longrightarrow> u = s" for b u
    by (auto simp: catching_returns)
  obtain b where b: "(if b \<and> hd_type h \<notin> {''receipt.accepted'', ''receipt.seen''}
     then seq (queue_accepted_receipt R rid peer (hd_event h)) (\<lambda>_. ret 1) else ret 0) s = (Inr n, t)"
    using assms unfolding accept_receipt_def seq_returns [of "catching _ _"] by (auto dest: perm)
  show ?thesis
  proof (cases "b \<and> hd_type h \<notin> {''receipt.accepted'', ''receipt.seen''}")
    case False
    then show ?thesis using b by (auto simp: prog_run receipt_queued_def ledger_grows_def)
  next
    case True
    then have q: "queue_accepted_receipt R rid peer (hd_event h) s = (Inr (), t)" and n: "n = 1"
      using b by (auto simp: seq_returns prog_run)
    from q obtain rel recipients epoch where
      r: "get_relationship s rid = Inr rel" "recipients_for (rv_crypto R) s rel peer = Inr (recipients, epoch)"
      by (auto simp: queue_accepted_receipt_def seq_returns)
    with q obtain rh env where "receipt_header R rid epoch = Inr rh" and
      p: "persist_outgoing_in_txn (rv_crypto R) (fr_draws (rv_receipt R)) (sd_doc (rv_sender R)) (sd_valid (rv_sender R))
         (rv_wall R) rh (PReceiptAccepted (hd_event h) (rv_wall R)) (sd_secret (rv_sender R)) recipients None s = (Inr env, t)"
      by (auto simp: queue_accepted_receipt_def seq_returns Let_def catching_returns prog_run split: if_splits sum.splits)
    then have f: "hd_rel rh = rid" "hd_sender rh = rv_me R" "hd_type rh = ''receipt.accepted''"
      using receipt_header_fields by blast+
    have "ledger_grows s t"
      using preservesD [OF persist_ledger, of s s] p by (metis ledger_grows_def snd_conv subset_refl)
    moreover have "receipt_queued R rid n s t"
      using persist_logs [OF p] f by (auto simp: receipt_queued_def n event_row_of_def numbered_def still_queued_def)
    ultimately show ?thesis by simp
  qed
qed

lemma commit_returns:
  assumes "commit_received R rid peer h p data expires s = (Inr (shown, answered), t)"
  shows "hd_event h \<notin> ev_id ` set (events s) \<and> \<not> sequence_clash h s \<and>
    hd_nonce h \<notin> rg_nonce ` set (replay_guard s) \<and>
    (\<exists>u. events u = events s @ [event_row_of h data] \<and> receipt_queued R rid answered u t) \<and>
    sd_valid (rv_sender R) (hd_type h) p \<and>
    (\<exists>r \<in> set (event_payloads t). pl_event r = hd_event h \<and> (r \<in> set (event_payloads s) \<or> r = received_row R h p)) \<and>
    nonce_row R h data expires \<in> set (replay_guard t) \<and> hd_event h \<in> pq_event ` set (projection_queue t) \<and>
    hd_event h \<in> sf_event ` set (surface_queue t)"
proof -
  let ?rest = "\<lambda>_. seq (surface_received (rv_wall R) rid (hd_event h)) (\<lambda>shown.
       seq (accept_receipt R rid peer h) (\<lambda>answered. ret (shown, answered)))"
  have "seq (log_received h data) (\<lambda>_. seq (guard_nonce R h data expires) (\<lambda>_. seq (stage_received R h p) (\<lambda>_.
      seq (queue_received (rv_wall R) (hd_event h)) ?rest))) s = (Inr (shown, answered), t)"
    using assms unfolding commit_received_def txn_def by (auto split: prod.splits sum.splits)
  then obtain s1 s2 s3 s4 where
    a: "log_received h data s = (Inr (), s1)" and b: "guard_nonce R h data expires s1 = (Inr (), s2)" and
    c: "stage_received R h p s2 = (Inr (), s3)" and d: "queue_received (rv_wall R) (hd_event h) s3 = (Inr (), s4)" and
    e: "?rest () s4 = (Inr (shown, answered), t)"
    unfolding seq_returns by auto
  from e obtain s5 where f: "surface_received (rv_wall R) rid (hd_event h) s4 = (Inr shown, s5)"
    and g: "accept_receipt R rid peer h s5 = (Inr answered, t)"
    by (auto simp: seq_returns prog_run)
  note a' = log_received_returns [OF a] and c' = stage_received_returns [OF c] and f' = surface_returns [OF f]
    and g' = accept_receipt_returns [OF g]
  have b': "hd_nonce h \<notin> rg_nonce ` set (replay_guard s1)"
    "s2 = s1\<lparr>replay_guard := replay_guard s1 @ [nonce_row R h data expires]\<rparr>"
    using b by (simp_all add: guard_nonce_def insert_if_returns nonce_row_def)
  have d': "s4 = s3\<lparr>projection_queue := projection_queue s3 @ [\<lparr>pq_event = hd_event h, pq_at = rv_wall R\<rparr>]\<rparr>"
    using d by (simp add: queue_received_def insert_if_returns)
  have ev: "events s5 = events s @ [event_row_of h data]"
    using a' b'(2) c' d' f' by auto
  have rg: "nonce_row R h data expires \<in> set (replay_guard s5)" "hd_event h \<in> pq_event ` set (projection_queue s5)"
    using b'(2) c' d' f' by auto
  have pl: "\<exists>r \<in> set (event_payloads s5). pl_event r = hd_event h \<and> (r \<in> set (event_payloads s) \<or> r = received_row R h p)"
    using a' b'(2) c' d' f' by (auto simp: ledger_def)
  have sf: "hd_event h \<in> sf_event ` set (surface_queue s5)" using f' by simp
  show ?thesis
    using a' b'(1) c' g' ev rg pl sf unfolding ledger_grows_def ledger_def by (auto intro: image_eqI)
qed

lemma received_commit_step:
  "case commit_received R rid peer h p data expires s of (Inl e, t) \<Rightarrow> t = s | (Inr a, t) \<Rightarrow> True"
proof -
  let ?body = "seq (log_received h data) (\<lambda>_. seq (guard_nonce R h data expires) (\<lambda>_.
     seq (stage_received R h p) (\<lambda>_. seq (queue_received (rv_wall R) (hd_event h)) (\<lambda>_.
     seq (surface_received (rv_wall R) rid (hd_event h)) (\<lambda>shown.
     seq (accept_receipt R rid peer h) (\<lambda>answered. ret (shown, answered)))))))"
  have "same_files s (snd (?body s))"
    using preservesD [OF commit_files, of s s] by simp
  then show ?thesis
    by (auto simp: commit_received_def txn_def rollback_same_files split: prod.splits sum.splits)
qed

text \<open>C2. A received event is committed completely or not at all. If the receive commit raises, on a
  sequence fork, a conflict with a stored event or nonce, a payload its schema refuses, a policy that
  cannot be read or a receipt that cannot be built, the database is as before. If it returns, the
  event id, the nonce and the sequence number of its sender were unused, and in one step the event
  is in the log with the bytes that came in, its nonce is guarded with the digest of those
  bytes, its payload is staged with the moment of acceptance, it waits for projection and for
  surfacing, and, exactly if a receipt is reported, one accepted receipt of this side is logged
  after it and waits in the scheduler's queue.\<close>
theorem received_complete_or_nothing:
  "case commit_received R rid peer h p data expires s of
     (Inl e, t) \<Rightarrow> t = s
   | (Inr (shown, answered), t) \<Rightarrow>
       hd_event h \<notin> ev_id ` set (events s) \<and> \<not> sequence_clash h s \<and>
       hd_nonce h \<notin> rg_nonce ` set (replay_guard s) \<and>
       (\<exists>u. events u = events s @ [event_row_of h data] \<and> receipt_queued R rid answered u t) \<and>
       sd_valid (rv_sender R) (hd_type h) p \<and>
       (\<exists>r \<in> set (event_payloads t). pl_event r = hd_event h \<and> (r \<in> set (event_payloads s) \<or> r = received_row R h p)) \<and>
       nonce_row R h data expires \<in> set (replay_guard t) \<and> hd_event h \<in> pq_event ` set (projection_queue t) \<and>
       hd_event h \<in> sf_event ` set (surface_queue t)"
  using received_commit_step [where R = R and rid = rid and peer = peer and h = h and p = p and data = data and expires = expires and s = s] commit_returns [where R = R and rid = rid and peer = peer and h = h and p = p and data = data and expires = expires and s = s]
  by (cases "commit_received R rid peer h p data expires s") (fastforce split: sum.splits prod.splits)

section \<open>Only admitted events are logged\<close>

text \<open>What an object must be for its event to enter the log: every check reads the database as the
  object found it.\<close>

definition authentic :: "receiver \<Rightarrow> jval \<Rightarrow> str \<Rightarrow> bool" where
  "authentic R env who \<longleftrightarrow> (\<exists>pub. parse_identity_id (rv_crypto R) (codes_of who) = Some pub \<and>
     check_signature (rv_crypto R) pub env = Inr ())"

definition admitted :: "receiver \<Rightarrow> str \<Rightarrow> bytes \<Rightarrow> db \<Rightarrow> event_row \<Rightarrow> bool" where
  "admitted R rid data s e \<longleftrightarrow> (\<exists>rel env h body.
     check_relationship s rid data = Inr rel \<and> read_envelope R data = Inr (env, h) \<and>
     check_sender (rv_wall R) rid rel h = Inr () \<and> authentic R env (hd_sender h) \<and>
     try_unseal R s rid env = Inr body \<and> hd_epoch h \<le> current_epoch s rid \<and>
     check_nonce R s h data = Inr False \<and> hd_nonce h \<notin> rg_nonce ` set (replay_guard s) \<and>
     check_window (rv_wall R) (hd_created h) = Inr () \<and> over_ingress_quota s rid (rv_wall R) = Inr False \<and>
     check_announcement R h (rv_read R (hd_type h) body) = Inr () \<and>
     hd_seq h \<le> last_sequence s rid (hd_sender h) + MAX_SEQ_GAP \<and> \<not> sequence_clash h s \<and>
     e = event_row_of h data \<and> ev_id e \<notin> ev_id ` set (events s))"

text \<open>What an accepted object has left in the log, now or before.\<close>

definition known_to_log :: "receiver \<Rightarrow> bytes \<Rightarrow> db \<Rightarrow> db \<Rightarrow> bool" where
  "known_to_log R data s t \<longleftrightarrow> (\<exists>env h. read_envelope R data = Inr (env, h) \<and>
     ((\<exists>e \<in> set (events t). ev_id e = hd_event h \<and> ev_sealed e = data) \<or> check_nonce R s h data = Inr True))"

lemma unseal_authentic:
  assumes "unseal_envelope C fin d (EnvDict env) priv me = Inr x"
  shows "\<exists>fs who pub. fields_at env ''protected'' = Inr fs \<and> text_at (VObj fs) ''sender'' = Inr who \<and>
    parse_identity_id C who = Some pub \<and> check_signature C pub env = Inr ()"
proof -
  have env: "parse_envelope_input fin d (EnvDict env) = Inr v \<Longrightarrow> v = env" for v
    by (cases env) (auto simp: parse_envelope_input_def bind_err_Inr split: if_splits)
  show ?thesis
    using assms unfolding unseal_envelope_def bind_err_Inr [of "parse_envelope_input _ _ _"]
    by (auto simp: bind_err_Inr split: option.splits prod.splits dest!: env)
qed

lemma read_envelope_sender:
  assumes "read_envelope R data = Inr (env, h)" and "fields_at env ''protected'' = Inr fs"
    and "text_at (VObj fs) ''sender'' = Inr who"
  shows "codes_of (hd_sender h) = who"
proof -
  have r: "read_header fs = Some h"
    using assms(1,2) by (auto simp: read_envelope_def split: sum.splits canon_error.splits option.splits)
  then have "field fs ''sender'' text_of = Some (hd_sender h)"
    by (auto simp: read_header_def bind_eq_Some_conv)
  then have "\<forall>c \<in> set who. c < 256" "hd_sender h = map char_of who"
    using assms(3)
    by (auto simp: field_def text_of_def text_at_def obj_at_def bind_err_Inr bind_eq_Some_conv
        split: option.splits jval.splits if_splits)
  then show ?thesis by (simp only: codes_of_char)
qed

lemma open_first_Inr: "open_first R s env failure ks = Inr x \<Longrightarrow> \<exists>k \<in> set ks. open_with R s env k = Inr x"
  by (induction ks arbitrary: failure) (auto split: sum.splits seal_error.splits)

lemma try_unseal_authentic:
  assumes "read_envelope R data = Inr (env, h)" and "try_unseal R s rid env = Inr body"
  shows "authentic R env (hd_sender h)"
proof -
  obtain x where "open_first R s env (SealingError ''unknown_recipient'' [] []) (unseal_candidates s rid) = Inr x"
    using assms(2) by (auto simp: try_unseal_def split: sum.splits seal_error.splits)
  then obtain k where "open_with R s env k = Inr x" using open_first_Inr by blast
  then obtain raw where "unseal_envelope (rv_crypto R) (rv_fin R) (rv_depth R) (EnvDict env) raw (codes_of (rv_me R)) = Inr x"
    by (auto simp: open_with_def split: option.splits if_splits)
  from unseal_authentic [OF this] obtain fs who pub where
    "fields_at env ''protected'' = Inr fs" "text_at (VObj fs) ''sender'' = Inr who"
    "parse_identity_id (rv_crypto R) who = Some pub" "check_signature (rv_crypto R) pub env = Inr ()" by blast
  with read_envelope_sender [OF assms(1) this(1,2)] show ?thesis by (auto simp: authentic_def)
qed

lemma log_data_event [log_intros]: "preserves (log_in L B) (on_data_event_epoch now rid e)"
  unfolding on_data_event_epoch_def by (intro pres_intros log_intros)

lemma log_bump [log_intros]: "preserves (log_in L B) (bump_retry_sighting wall rid name reason)"
  unfolding bump_retry_sighting_def by (intro pres_intros log_exec) (simp add: see_again_def)

lemma log_gate [log_intros]: "preserves (log_in L B) (epoch_gate R rid name e)"
proof (rule preservesI)
  fix s assume s: "log_in L B s"
  have a: "log_in L B t" if "on_data_event_epoch now rid e s = (r, t)" for now r t
    using preservesD [OF log_data_event s] that by (metis snd_conv)
  have b: "log_in L B (snd (seq (bump_retry_sighting wall rid name c) (\<lambda>n. if n > m then raise x else ret True) t))"
    if "log_in L B t" for wall c m x t
    by (rule preservesD [where I = "log_in L B", OF _ that]) (intro pres_intros log_intros)
  show "log_in L B (snd (epoch_gate R rid name e s))"
    using s by (auto simp: epoch_gate_def split: prod.split sum.split rotation_exn.split dest: a intro!: b)
qed

lemma gate_open:
  assumes "epoch_gate R rid name e s = (Inr False, t)" shows "e \<le> current_epoch s rid \<and> t = s"
proof -
  have a: "\<exists>x u. on_data_event_epoch (rv_now R) rid e s = (Inl x, u)" if "\<not> e \<le> current_epoch s rid"
    using that by (auto simp: on_data_event_epoch_def prog_run seq_run split: prod.split sum.split)
  have b: "on_data_event_epoch (rv_now R) rid e s = (Inr ''ok'', s)" if "e \<le> current_epoch s rid"
    using that by (simp add: on_data_event_epoch_def prog_run)
  have "epoch_gate R rid name e s \<noteq> (Inr False, t)" if "on_data_event_epoch (rv_now R) rid e s = (Inl x, u)" for x u
    using that by (cases x) (auto simp: epoch_gate_def seq_returns prog_run)
  then show ?thesis using assms a b by (cases "e \<le> current_epoch s rid") (auto simp: epoch_gate_def)
qed

lemma log_after_commit:
  assumes "own_rows (rv_me R) \<subseteq> B"
  shows "preserves (log_in L B) (after_commit R rid name h p data counts)"
proof (rule preservesI)
  fix s assume s: "log_in L B s"
  have a: "log_in L B t" if "project_and_acknowledge wall ev s = (r, t)" for wall ev r t
    using preservesD [OF log_project s] that by (metis snd_conv)
  have b: "log_in L B (snd (seq (txn (exec (\<lambda>u. acknowledge eid (add_quarantine wall rid who n eid reason u))))
      (\<lambda>_. quarantine_outcome wall rid name reason) t))" if "log_in L B t" for wall eid who n reason t
    by (rule preservesD [where I = "log_in L B", OF _ that]) (intro pres_intros log_intros)
  have c: "log_in L B (snd (seq (if x then (case p of PIdentityRotated a \<Rightarrow> apply_identity_rotation R rid a who | _ \<Rightarrow> ret False) else ret True)
      (\<lambda>applied. if \<not> applied then quarantine_outcome wall rid name reason
         else seq (exec (run_hooks R rid etype p eid epoch)) (\<lambda>_. ret q)) t))"
    if "log_in L B t" for x who wall reason etype eid epoch q t
    by (rule preservesD [where I = "log_in L B", OF _ that])
      (intro pres_intros log_intros preserves_exec log_run_hooks [OF assms];
       cases p; simp add: preserves_ret log_identity)
  show "log_in L B (snd (after_commit R rid name h p data counts s))"
    using s by (auto simp: after_commit_def split: prod.split sum.split proj_exn.split split del: if_split dest: a intro!: b c)
qed

lemma log_commit:
  assumes "commit_received R rid peer h p data expires s = (r, t)"
  shows "set (events s) \<subseteq> set (events t) \<and>
    set (events t) \<subseteq> set (events s) \<union> own_rows (rv_me R) \<union>
      (if \<not> sequence_clash h s \<and> hd_event h \<notin> ev_id ` set (events s) then {event_row_of h data} else {}) \<and>
    (case r of Inl _ \<Rightarrow> True | Inr _ \<Rightarrow> event_row_of h data \<in> set (events t))"
proof (cases r)
  case (Inl e)
  then show ?thesis
    using received_commit_step [where R = R and rid = rid and peer = peer and h = h and p = p and data = data and expires = expires and s = s] assms by auto
next
  case (Inr a)
  obtain x y where a: "a = (x, y)" by (cases a)
  note c = commit_returns [OF assms [unfolded Inr a]]
  then obtain u where u: "events u = events s @ [event_row_of h data]" "receipt_queued R rid y u t" by blast
  have "set (events t) \<subseteq> set (events u) \<union> own_rows (rv_me R) \<and> set (events u) \<subseteq> set (events t)"
    using u(2) by (auto simp: receipt_queued_def own_rows_def split: if_splits)
  then show ?thesis using u(1) c Inr by auto
qed

lemma check_nonce_unused:
  "check_nonce R s h data = Inr False \<Longrightarrow> hd_nonce h \<notin> rg_nonce ` set (replay_guard s)"
proof -
  assume "check_nonce R s h data = Inr False"
  then have "fetchone (\<lambda>r. rg_nonce r = hd_nonce h) (replay_guard s) = None"
    by (auto simp: check_nonce_def split: option.splits if_splits)
  then show ?thesis by (auto simp: fetchone_None)
qed

lemma after_commit_keeps: "row \<in> set (events s) \<Longrightarrow> row \<in> set (events (snd (after_commit R rid name h p data counts s)))"
  using preservesD [OF log_after_commit [of R UNIV "{row}" rid name h p data counts], of s] by (simp add: log_in_def)

text \<open>The part of the pipeline that may log, once all checks before it are known to have passed.\<close>

lemma receive_authenticated_step:
  assumes "check_relationship s rid data = Inr rel" "read_envelope R data = Inr (env, h)"
    "check_sender (rv_wall R) rid rel h = Inr ()" "try_unseal R s rid env = Inr body" "hd_epoch h \<le> current_epoch s rid"
    "event_of s (hd_event h) = None"
    and run: "receive_authenticated R rid name (rl_peer rel) h (rv_read R (hd_type h) body) data s = (r, t)"
  defines "L \<equiv> set (events s)" and "B \<equiv> set (events s) \<union> own_rows (rv_me R) \<union> {e. admitted R rid data s e}"
  shows "log_in L B t \<and> (case r of Inl _ \<Rightarrow> True
      | Inr q \<Rightarrow> if oc_kind q = ''accepted'' then known_to_log R data s t else True)"
proof -
  have here: "log_in L B s" by (auto simp: log_in_def L_def B_def)
  have own: "own_rows (rv_me R) \<subseteq> B" by (auto simp: B_def)
  let ?p = "rv_read R (hd_type h) body"
  show ?thesis
  proof (cases "check_nonce R s h data = Inr False \<and> check_window (rv_wall R) (hd_created h) = Inr () \<and>
      over_ingress_quota s rid (rv_wall R) = Inr False \<and> check_announcement R h ?p = Inr () \<and>
      hd_seq h \<le> last_sequence s rid (hd_sender h) + MAX_SEQ_GAP \<and> is_ok (replay_expiry R (hd_created h))")
    case False
    have "t = s \<and> (case r of Inl _ \<Rightarrow> True | Inr q \<Rightarrow> if oc_kind q = ''accepted'' then check_nonce R s h data = Inr True else True)"
      using run False unfolding receive_authenticated_def
      by (auto simp: seq_run prog_run outcome_of_def split: sum.splits if_splits)
    then show ?thesis using here assms(2) by (auto simp: known_to_log_def split: sum.splits)
  next
    case True
    then obtain expires where x: "replay_expiry R (hd_created h) = Inr expires"
      by (cases "replay_expiry R (hd_created h)") auto
    obtain q u where qu: "commit_received R rid (rl_peer rel) h ?p data expires s = (q, u)" by fastforce
    have rest: "(r, t) = (case q of Inl e \<Rightarrow> (Inl e, u) | Inr counts \<Rightarrow> after_commit R rid name h ?p data counts u)"
      using run True x unfolding receive_authenticated_def
      by (simp add: seq_run prog_run qu split: sum.splits)
    note c = log_commit [OF qu]
    have fresh: "hd_nonce h \<notin> rg_nonce ` set (replay_guard s)" using True check_nonce_unused by blast
    have "ev_id (event_row_of h data) = hd_event h" by (simp add: event_row_of_def)
    then have adm: "admitted R rid data s (event_row_of h data)"
      if "\<not> sequence_clash h s" "hd_event h \<notin> ev_id ` set (events s)"
      unfolding admitted_def using assms(1-5) True that fresh try_unseal_authentic [OF assms(2,4)] by metis
    have u: "log_in L B u"
      using c adm by (auto simp: log_in_def L_def B_def split: if_splits)
    show ?thesis
    proof (cases q)
      case (Inl e)
      then show ?thesis using rest u by simp
    next
      case (Inr counts)
      have t: "t = snd (after_commit R rid name h ?p data counts u)" using rest Inr by (metis snd_conv sum.case(2))
      have "log_in L B t" using preservesD [OF log_after_commit [OF own] u] by (simp add: t)
      moreover have "event_row_of h data \<in> set (events t)"
        using after_commit_keeps c Inr by (simp add: t)
      then have "known_to_log R data s t"
        using assms(2) by (auto simp: known_to_log_def event_row_of_def intro!: bexI)
      ultimately show ?thesis by (simp split: sum.split)
    qed
  qed
qed

lemma receive_event_step:
  assumes legacy: "\<not> rv_legacy R data" and rel: "check_relationship s rid data = Inr rel"
    and env: "read_envelope R data = Inr (env, h)"
  defines "L \<equiv> set (events s)" and "B \<equiv> set (events s) \<union> own_rows (rv_me R) \<union> {e. admitted R rid data s e}"
  assumes here: "log_in L B s" and own: "own_rows (rv_me R) \<subseteq> B"
  shows "case receive_object_inner R rid name data s of (r, t) \<Rightarrow>
    log_in L B t \<and> (case r of Inl _ \<Rightarrow> True
      | Inr q \<Rightarrow> if oc_kind q = ''accepted'' then known_to_log R data s t else True)"
proof -
  let ?tail = "\<lambda>existing. case existing of
       Some e \<Rightarrow> if ev_sealed e = data then resume R rid h else raise (CliError ''event_id_conflict'')
     | None \<Rightarrow> seq (\<lambda>s. (try_unseal R s rid env, s)) (\<lambda>body. seq (epoch_gate R rid name (hd_epoch h)) (\<lambda>waits.
         if waits then ret (outcome_of ''retry_pending'')
         else receive_authenticated R rid name (rl_peer rel) h (rv_read R (hd_type h) body) data))"
  have inner: "receive_object_inner R rid name data s =
      seq (lift (check_sender (rv_wall R) rid rel h)) (\<lambda>_. seq (query (\<lambda>s. event_of s (hd_event h))) ?tail) s"
    using legacy rel env by (simp add: receive_object_inner_def seq_run [where p = "\<lambda>s. (check_relationship s rid data, s)"] prog_run)
  show ?thesis
  proof (cases "check_sender (rv_wall R) rid rel h")
    case (Inl e)
    then show ?thesis using here by (simp add: inner prog_run)
  next
    case (Inr sent)
    show ?thesis
    proof (cases "event_of s (hd_event h)")
      case (Some e)
      have e: "e \<in> set (events s)" "ev_id e = hd_event h"
        using fetchone_Some_mem [OF Some [unfolded event_of_def]] by auto
      show ?thesis
      proof (cases "ev_sealed e = data")
        case True
        obtain r t where rt: "resume R rid h s = (r, t)" by fastforce
        have "log_in L B t" using preservesD [OF log_resume [OF own] here] rt by (metis snd_conv)
        moreover have "known_to_log R data s t"
          using env e True calculation unfolding known_to_log_def log_in_def L_def by blast
        ultimately show ?thesis using Some True Inr rt by (simp add: inner prog_run split: sum.split)
      qed (use Some Inr here in \<open>simp add: inner prog_run\<close>)
    next
      case None
      show ?thesis
      proof (cases "try_unseal R s rid env")
        case (Inl e)
        then show ?thesis using None Inr here by (simp add: inner prog_run seq_run)
      next
        case (Inr body)
        note body = Inr
        obtain q u where gate: "epoch_gate R rid name (hd_epoch h) s = (q, u)" by fastforce
        have u: "log_in L B u" using preservesD [OF log_gate here] gate by (metis snd_conv)
        show ?thesis
        proof (cases "q = Inr False")
          case True
          then have g: "hd_epoch h \<le> current_epoch s rid" "u = s" using gate_open gate by blast+
          obtain r t where run: "receive_authenticated R rid name (rl_peer rel) h (rv_read R (hd_type h) body) data s = (r, t)"
            by fastforce
          have "check_sender (rv_wall R) rid rel h = Inr ()" using \<open>check_sender (rv_wall R) rid rel h = Inr sent\<close> by simp
          from receive_authenticated_step [OF rel env this body g(1) None run]
          show ?thesis
            by (simp add: inner prog_run None seq_run [where p = "\<lambda>s. (try_unseal R s rid env, s)"] body
                seq_run [where p = "epoch_gate R rid name (hd_epoch h)"] gate True g(2) L_def B_def run
                \<open>check_sender (rv_wall R) rid rel h = Inr sent\<close> split del: if_split)
        next
          case False
          then show ?thesis
            using u \<open>check_sender (rv_wall R) rid rel h = Inr sent\<close>
            by (auto simp: inner prog_run None seq_run [where p = "\<lambda>s. (try_unseal R s rid env, s)"] body
                seq_run [where p = "epoch_gate R rid name (hd_epoch h)"] gate outcome_of_def split: sum.split)
        qed
      qed
    qed
  qed
qed

text \<open>C1. Only what passed every check enters the log, and nothing leaves it. Whatever object of the v0.2
  format arrives, and however its processing ends, by an answer, a refusal or an exception at any point, every row
  the log gains is an event of this side (a receipt or an acknowledgement) or the event of the
  object, and then the relationship was there and not revoked, the envelope was well formed, its
  sender the peer or the identity it retired within the grace window, the signature that identity's
  own, the payload unsealed with one of the two retained keys, the epoch known, the nonce, the id
  and the number unused, the creation moment inside the window, the quota not reached, an
  announcement of a new identity cross-signed, and the jump in the sequence bounded. And an object
  is reported as accepted only if its event is in the log with these very bytes, or its nonce was
  used by these very bytes before. An object of the v0.1 format reaches its own path, a parameter here,
  only after the check of the relationship; when that fails it is refused and nothing changes.\<close>
theorem receive_logs_only_admitted:
  "case receive_object_inner R rid name data s of (r, t) \<Rightarrow>
     if rv_legacy R data then
       (case check_relationship s rid data of Inl e \<Rightarrow> r = Inl e \<and> t = s
         | Inr rel \<Rightarrow> (r, t) = rv_legacy_path R rid name data s)
     else set (events s) \<subseteq> set (events t) \<and>
       set (events t) \<subseteq> set (events s) \<union> own_rows (rv_me R) \<union> {e. admitted R rid data s e} \<and>
       (case r of Inl _ \<Rightarrow> True | Inr q \<Rightarrow> if oc_kind q = ''accepted'' then known_to_log R data s t else True)"
proof (cases "rv_legacy R data")
  case False
  let ?B = "set (events s) \<union> own_rows (rv_me R) \<union> {e. admitted R rid data s e}" and ?L = "set (events s)"
  obtain r t where rt: "receive_object_inner R rid name data s = (r, t)" by fastforce
  have own: "own_rows (rv_me R) \<subseteq> ?B" by blast
  have here: "log_in ?L ?B s" by (auto simp: log_in_def)
  let ?goal = "\<lambda>r t. log_in ?L ?B t \<and> (case r of Inl _ \<Rightarrow> True
      | Inr q \<Rightarrow> if oc_kind q = ''accepted'' then known_to_log R data s t else True)"
  have "?goal r t"
  proof -
    note run = rt [unfolded receive_object_inner_def]
    show ?thesis
    proof (cases "check_relationship s rid data")
      case (Inl e)
      then show ?thesis using run here by (auto simp: seq_run)
    next
      case (Inr rel)
      note rel = Inr
      show ?thesis
      proof (cases "read_envelope R data")
        case (Inl e)
        then show ?thesis using run here False rel by (auto simp: seq_run [where p = "\<lambda>s. (check_relationship s rid data, s)"] prog_run)
      next
        case (Inr eh)
        obtain env h where env: "read_envelope R data = Inr (env, h)" using Inr by (cases eh) auto
        show ?thesis
          using receive_event_step [OF False rel env here own, of name] rt by simp
      qed
    qed
  qed
  then show ?thesis using rt False by (simp add: log_in_def)
next
  case True
  then show ?thesis
    by (auto simp: receive_object_inner_def seq_run [where p = "\<lambda>s. (check_relationship s rid data, s)"] split: sum.split)
qed

end
