(* ===== verification/Polling.thy ===== *)
theory Polling
  imports Receive Watcher
begin

text \<open>
  Around the pipeline of \<open>Receive\<close> (\<open>cli.py\<close>): the handlers of \<open>_receive_object\<close>, which turn every
  exception into a quarantine or a counted retry, the reconciliation of rotation events, and the
  pruning of the replay guard. The properties: an object that only ever meets transient storage
  errors is retried a bounded number of times, and a nonce is forgotten only when the clock window
  refuses its event.
\<close>

section \<open>Failures\<close>

text \<open>An \<open>OSError\<close> has its number, if any; the numbers are those of Linux. Messages are Latin-1, of which
  \<open>lower\<close> makes an ASCII letter only from an ASCII one.\<close>

datatype storage_exn = OperationalError str | OtherDatabaseError str | OSError "nat option" str

definition TRANSIENT_SQLITE_MARKERS :: "str list" where
  "TRANSIENT_SQLITE_MARKERS = [''database is locked'', ''database table is locked'', ''database schema is locked'',
     ''database is busy'', ''disk i/o error'', ''database or disk is full'', ''interrupted'']"

definition TRANSIENT_OS_ERRNOS :: "nat list" where "TRANSIENT_OS_ERRNOS = [11, 4, 16, 28, 122, 5]"

definition TRANSIENT_OS_MARKERS :: "str list" where
  "TRANSIENT_OS_MARKERS = [''i/o error'', ''no space'', ''quota exceeded'', ''temporarily unavailable'', ''resource busy'']"

definition lower :: "str \<Rightarrow> str" where
  "lower s = map (\<lambda>c. let n = (of_char c :: nat) in if 65 \<le> n \<and> n \<le> 90 then char_of (n + 32) else c) s"

definition contains :: "str \<Rightarrow> str \<Rightarrow> bool" where
  "contains s m \<longleftrightarrow> (\<exists>i \<in> set [0..<Suc (length s)]. take (length m) (drop i s) = m)"

definition is_transient_storage_error :: "storage_exn \<Rightarrow> bool" where
  "is_transient_storage_error x = (case x of
     OperationalError msg \<Rightarrow> \<exists>m \<in> set TRANSIENT_SQLITE_MARKERS. contains (lower msg) m
   | OtherDatabaseError msg \<Rightarrow> False
   | OSError number msg \<Rightarrow> (case number of None \<Rightarrow> False | Some n \<Rightarrow> n \<in> set TRANSIENT_OS_ERRNOS) \<or>
       (\<exists>m \<in> set TRANSIENT_OS_MARKERS. contains (lower msg) m))"

text \<open>The storage exception as the handlers see it.\<close>

definition storage_raised :: "storage_exn \<Rightarrow> cli_exn" where
  "storage_raised x = CliStorage (is_transient_storage_error x)"

lemma locked_is_transient: "storage_raised (OperationalError ''database is locked'') = CliStorage True"
  by (simp add: storage_raised_def is_transient_storage_error_def TRANSIENT_SQLITE_MARKERS_def, code_simp)

text \<open>The process counts, per object, how often not even the bookkeeping of a failure could be
  written; \<open>can_count\<close> and \<open>can_quarantine\<close> say whether its two tables can be written in this call.\<close>

record bookkeeping =
  can_count :: bool
  can_quarantine :: bool

type_synonym poller = "db \<times> (str \<times> str \<Rightarrow> nat)"

definition storage_failure_outcome :: "bookkeeping \<Rightarrow> str \<Rightarrow> str \<Rightarrow> str \<Rightarrow> bool \<Rightarrow> outcome cli" where
  "storage_failure_outcome bk wall rid name transient =
     (if \<not> transient then
        (if can_quarantine bk then quarantine_outcome wall rid name ''storage_error'' else raise (CliStorage False))
      else if \<not> can_count bk then raise (CliStorage False)
      else seq (bump_retry_sighting wall rid name ''transient_storage'') (\<lambda>n.
        if n \<ge> MAX_CONSECUTIVE_RECEIVE_FAILURES then
          (if can_quarantine bk then quarantine_outcome wall rid name ''retry_ceiling_exceeded'' else raise (CliStorage False))
        else ret (outcome_of ''retry_pending'')))"

definition bookkeeping_failed_outcome ::
  "bookkeeping \<Rightarrow> str \<Rightarrow> str \<Rightarrow> str \<Rightarrow> poller \<Rightarrow> (cli_exn + outcome) \<times> poller" where
  "bookkeeping_failed_outcome bk wall rid name = (\<lambda>(s, counts).
     let counts' = counts((rid, name) := Suc (counts (rid, name))) in
     if counts' (rid, name) \<ge> MAX_CONSECUTIVE_RECEIVE_FAILURES \<and> can_quarantine bk then
       (case quarantine_outcome wall rid name ''storage_error'' s of
          (Inr q, t) \<Rightarrow> (Inr q, (t, counts'((rid, name) := 0)))
        | (Inl _, t) \<Rightarrow> (Inr (outcome_of ''retry_pending''), (t, counts')))
     else (Inr (outcome_of ''retry_pending''), (s, counts')))"

text \<open>The clearing is best effort; the quarantine in the handlers is not guarded.\<close>

definition clear_quietly :: "bookkeeping \<Rightarrow> str \<Rightarrow> str \<Rightarrow> db \<Rightarrow> db" where
  "clear_quietly bk rid name s = (if can_count bk then clear_retry_state rid name s else s)"

definition reject_object :: "bookkeeping \<Rightarrow> str \<Rightarrow> str \<Rightarrow> str \<Rightarrow> str \<Rightarrow> outcome cli" where
  "reject_object bk wall rid name reason =
     seq (exec (clear_quietly bk rid name)) (\<lambda>_.
     if can_quarantine bk then quarantine_outcome wall rid name reason else raise (CliStorage False))"

definition receive_object ::
  "bookkeeping \<Rightarrow> str \<Rightarrow> str \<Rightarrow> str \<Rightarrow> outcome cli \<Rightarrow> poller \<Rightarrow> (cli_exn + outcome) \<times> poller" where
  "receive_object bk wall rid name inner = (\<lambda>(s, counts). case inner s of
     (Inl (CliError code), t) \<Rightarrow> (case reject_object bk wall rid name code t of (r, u) \<Rightarrow> (r, (u, counts)))
   | (Inl (CliRaised n), t) \<Rightarrow> (case reject_object bk wall rid name ''receive_error'' t of (r, u) \<Rightarrow> (r, (u, counts)))
   | (Inl (CliStorage transient), t) \<Rightarrow> (case storage_failure_outcome bk wall rid name transient t of
        (Inl _, u) \<Rightarrow> bookkeeping_failed_outcome bk wall rid name (u, counts)
      | (Inr q, u) \<Rightarrow> (Inr q, (u, counts)))
   | (Inr q, t) \<Rightarrow>
       if oc_kind q = ''retry_pending'' then (Inr q, (t, counts))
       else (Inr q, (clear_quietly bk rid name t, counts((rid, name) := 0))))"

section \<open>Reconciling and pruning\<close>

text \<open>The accepted rotation events of others without a marker, oldest first, at most \<open>limit\<close>; \<open>R i\<close>
  has the draws of the \<open>i\<close>-th.\<close>

definition unprocessed :: "str \<Rightarrow> nat \<Rightarrow> db \<Rightarrow> (event_row \<times> payload_row) list" where
  "unprocessed me limit s = take limit (concat (map (\<lambda>e. map (Pair e) (select (\<lambda>p. pl_event p = ev_id e) (event_payloads s)))
     (select (\<lambda>e. ev_type e \<in> set ROTATION_EVENT_TYPES \<and> ev_sender e \<noteq> me \<and>
       ev_id e \<notin> rx_event ` set (rotation_processed_events s)) (events s))))"

definition reconcile_rotation_events :: "(nat \<Rightarrow> receiver) \<Rightarrow> nat \<Rightarrow> db \<Rightarrow> nat \<times> db" where
  "reconcile_rotation_events R limit s = (let rows = unprocessed (rv_me (R 0)) limit s in
     (length rows, fold (\<lambda>(i, e, p). run_rotation_hooks (R i) (ev_rel e) (ev_type e) (pl_payload p) (ev_id e) (ev_epoch e))
       (enumerate 0 rows) s))"

definition prune_replay :: "str \<Rightarrow> db \<Rightarrow> nat \<times> db" where
  "prune_replay now s = (rowcount (\<lambda>r. rg_expires r < now) (replay_guard s),
     s\<lparr>replay_guard := delete_where (\<lambda>r. rg_expires r < now) (replay_guard s)\<rparr>)"

section \<open>A poll of one relationship\<close>

text \<open>The world of the watcher is the poller and whatever the transport acts on; \<open>turn\<close> has the
  installation as a call finds it, \<open>spares\<close> those of the events that a reconciliation sends, \<open>cls\<close> the
  class name of an exception, and \<open>shown\<close> is the mode in the result.\<close>

record 'x installation =
  in_turn :: "'x \<Rightarrow> (receiver \<times> bookkeeping) \<times> 'x"
  in_spares :: "'x \<Rightarrow> (nat \<Rightarrow> receiver) \<times> 'x"
  in_cls :: "cli_exn \<Rightarrow> str"
  in_shown :: "json \<Rightarrow> str"

definition outcome_document :: "outcome \<Rightarrow> outcome_doc" where
  "outcome_document q = \<lparr>od_outcome = Some (oc_kind q), od_surfaces = Some (int (oc_surfaces q)),
     od_receipts = Some (int (oc_receipts q))\<rparr>"

definition receive_fn ::
  "'x installation \<Rightarrow> str \<Rightarrow> str \<Rightarrow> bytes \<Rightarrow> poller \<times> 'x \<Rightarrow> (str + outcome_doc) \<times> poller \<times> 'x" where
  "receive_fn I rid name data = (\<lambda>(p, x). case in_turn I x of ((R, bk), y) \<Rightarrow>
     (case receive_object bk (rv_wall R) rid name (receive_object_inner R rid name data) p of
        (Inl e, q) \<Rightarrow> (Inl (in_cls I e), q, y)
      | (Inr doc, q) \<Rightarrow> (Inr (outcome_document doc), q, y)))"

definition policy_callback :: "'x installation \<Rightarrow> str \<Rightarrow> poller \<times> 'x \<Rightarrow> (str + str option) \<times> poller \<times> 'x" where
  "policy_callback I rid = (\<lambda>((s, counts), x). (case policy_snapshot s rid of
       Inl e \<Rightarrow> Inl (in_cls I (policy_as_cli e)) | Inr snap \<Rightarrow> Inr (Some (in_shown I (item snap ''mode''))), (s, counts), x))"

definition rotation_maintenance :: "(nat \<Rightarrow> receiver) \<Rightarrow> unit cli" where
  "rotation_maintenance R = seq (sweep_rotations (rv_now (R 0))) (\<lambda>_. exec (\<lambda>s. snd (reconcile_rotation_events R 50 s)))"

definition maintenance_callback :: "'x installation \<Rightarrow> poller \<times> 'x \<Rightarrow> (str + unit) \<times> poller \<times> 'x" where
  "maintenance_callback I = (\<lambda>((s, counts), x). case in_spares I x of (R, y) \<Rightarrow>
     (case rotation_maintenance R s of
        (Inl e, t) \<Rightarrow> (Inl (in_cls I e), (t, counts), y) | (Inr _, t) \<Rightarrow> (Inr (), (t, counts), y)))"

definition receive_services :: "'x installation \<Rightarrow> str \<Rightarrow> (poller \<times> 'x) services \<Rightarrow> (poller \<times> 'x) services" where
  "receive_services I rid sv = sv\<lparr>sv_policy := policy_callback I rid, sv_receive := receive_fn I rid,
     sv_maintain := Some (maintenance_callback I)\<rparr>"

text \<open>The release of what is due is best effort, the flush is not.\<close>

definition release_after_receive :: "sender \<Rightarrow> str \<Rightarrow> rat option \<Rightarrow> nat cli" where
  "release_after_receive S rid skew =
     seq (\<lambda>s. case release_due S skew s of (Inl _, t) \<Rightarrow> (Inr 0, t) | (Inr ids, t) \<Rightarrow> (Inr (length ids), t)) (\<lambda>n.
     seq (flush_send_transports S rid) (\<lambda>_. ret n))"

text \<open>The exit code, the result, how many receipts and due events were released and, after a complete
  poll, how many nonces were pruned.\<close>

definition receive_relationship ::
  "'x installation \<Rightarrow> (poller \<times> 'x) services \<Rightarrow> str \<Rightarrow> rat \<Rightarrow> rat option \<Rightarrow> (poller \<times> 'x) \<times> watch_state \<Rightarrow>
   (cli_exn + nat \<times> watch_result \<times> nat \<times> nat option) \<times> (poller \<times> 'x) \<times> watch_state" where
  "receive_relationship I sv rid budget skew before =
     (case run_once (receive_services I rid sv) 0 budget before of ((code, reason, res), ((s, counts), x), file) \<Rightarrow>
      case in_turn I x of ((R, bk), y) \<Rightarrow>
      (case (if code \<in> {EXIT_OK, EXIT_RETRYABLE, EXIT_PARTIAL_TIMEOUT}
             then release_after_receive (rv_sender R) rid skew s else (Inr 0, s)) of
         (Inl e, t) \<Rightarrow> (Inl e, ((t, counts), y), file)
       | (Inr n, t) \<Rightarrow>
           (case (if code = EXIT_OK then map_prod Some id (prune_replay (rv_wall R) t) else (None, t)) of
              (pruned, u) \<Rightarrow> (Inr (code, res, n, pruned), ((u, counts), y), file))))"

section \<open>Retries end\<close>

text \<open>The polls of one object that stays on the relay while it is to be retried: the number of the poll
  that settled it and its answer.\<close>

partial_function (option) redeliver ::
  "(nat \<Rightarrow> bookkeeping) \<Rightarrow> (nat \<Rightarrow> str) \<Rightarrow> str \<Rightarrow> str \<Rightarrow> (nat \<Rightarrow> outcome cli) \<Rightarrow> nat \<Rightarrow> poller \<Rightarrow> (nat \<times> (cli_exn + outcome)) option" where
  "redeliver bk wall rid name inner n p = (case receive_object (bk n) (wall n) rid name (inner n) p of
     (Inl e, q) \<Rightarrow> Some (n, Inl e)
   | (Inr x, q) \<Rightarrow> if oc_kind x = ''retry_pending'' then redeliver bk wall rid name inner (Suc n) q else Some (n, Inr x))"

lemma sightings_again: "sightings (see_again wall rid name reason s) rid name reason = Suc (sightings s rid name reason)"
proof (cases "fetchone (\<lambda>r. retry_key r = (rid, name, reason)) (receive_retry_state s)")
  case None
  then have "(rid, name, reason) \<notin> retry_key ` set (receive_retry_state s)" by (auto simp: fetchone_None)
  then show ?thesis using None by (simp add: sightings_def see_again_def upsert_def retry_key_def fetchone_append)
next
  case (Some r)
  then have "(rid, name, reason) \<in> retry_key ` set (receive_retry_state s)" using fetchone_Some_mem [OF Some] by force
  then show ?thesis
    using Some by (simp add: sightings_def see_again_def upsert_def fetchone_update_same retry_key_def)
qed

lemma quarantine_answers:
  "moved wall (- (RECEIVE_QUARANTINE_TTL_DAYS * 24 * 3600)) = Inr c \<Longrightarrow>
   \<exists>t. quarantine_outcome wall rid name reason s = (Inr (outcome_of ''quarantined''), t)"
  by (simp add: quarantine_outcome_def record_quarantine_def seq_def exec_def lift_def ret_def)

text \<open>How far an object is from its ceilings, in the table and in the process.\<close>

definition retries_left :: "str \<Rightarrow> str \<Rightarrow> poller \<Rightarrow> nat" where
  "retries_left rid name p = (MAX_CONSECUTIVE_RECEIVE_FAILURES - 1 - sightings (fst p) rid name ''transient_storage'') +
     (MAX_CONSECUTIVE_RECEIVE_FAILURES - 1 - snd p (rid, name))"

lemma transient_poll:
  assumes quarantinable: "can_quarantine bk" and wall: "moved wall (- (RECEIVE_QUARANTINE_TTL_DAYS * 24 * 3600)) = Inr c"
    and fails: "inner s = (Inl (CliStorage True), t)"
    and keeps: "sightings s rid name ''transient_storage'' \<le> sightings t rid name ''transient_storage''"
    and run: "receive_object bk wall rid name inner (s, counts) = (r, q)"
  shows "r = Inr (outcome_of ''quarantined'') \<or>
    r = Inr (outcome_of ''retry_pending'') \<and> retries_left rid name q < retries_left rid name (s, counts)"
proof -
  note quarantine = quarantine_answers [OF wall, where rid = rid and name = name]
  show ?thesis
  proof (cases "can_count bk")
    case True
    let ?n = "Suc (sightings t rid name ''transient_storage'')"
    let ?t = "see_again wall rid name ''transient_storage'' t"
    obtain u where u: "quarantine_outcome wall rid name ''retry_ceiling_exceeded'' ?t = (Inr (outcome_of ''quarantined''), u)"
      using quarantine by blast
    have "storage_failure_outcome bk wall rid name True t =
        (if ?n \<ge> MAX_CONSECUTIVE_RECEIVE_FAILURES then (Inr (outcome_of ''quarantined''), u) else (Inr (outcome_of ''retry_pending''), ?t))"
      using True quarantinable by (simp add: storage_failure_outcome_def bump_retry_sighting_def seq_def exec_def query_def ret_def sightings_again u)
    then show ?thesis
      using run keeps fails
      by (auto simp: receive_object_def retries_left_def MAX_CONSECUTIVE_RECEIVE_FAILURES_def sightings_again split: if_splits)
  next
    case False
    let ?n = "Suc (counts (rid, name))"
    obtain u where u: "quarantine_outcome wall rid name ''storage_error'' t = (Inr (outcome_of ''quarantined''), u)"
      using quarantine by blast
    have "storage_failure_outcome bk wall rid name True t = (Inl (CliStorage False), t)"
      using False by (simp add: storage_failure_outcome_def prog_run)
    then show ?thesis
      using run keeps fails quarantinable
      by (auto simp: receive_object_def bookkeeping_failed_outcome_def Let_def retries_left_def
          MAX_CONSECUTIVE_RECEIVE_FAILURES_def u split: if_splits)
  qed
qed

text \<open>While the quarantine cannot be written the object stays, and no count is lost.\<close>

lemma waiting_poll:
  assumes quarantinable: "\<not> can_quarantine bk" and fails: "inner s = (Inl (CliStorage True), t)"
    and keeps: "sightings s rid name ''transient_storage'' \<le> sightings t rid name ''transient_storage''"
    and run: "receive_object bk wall rid name inner (s, counts) = (r, q)"
  shows "r = Inr (outcome_of ''retry_pending'') \<and> retries_left rid name q \<le> retries_left rid name (s, counts)"
proof (cases "can_count bk")
  case True
  let ?n = "Suc (sightings t rid name ''transient_storage'')"
  let ?t = "see_again wall rid name ''transient_storage'' t"
  have "storage_failure_outcome bk wall rid name True t =
      (if ?n \<ge> MAX_CONSECUTIVE_RECEIVE_FAILURES then (Inl (CliStorage False), ?t) else (Inr (outcome_of ''retry_pending''), ?t))"
    using True quarantinable
    by (simp add: storage_failure_outcome_def bump_retry_sighting_def seq_def exec_def query_def ret_def raise_def sightings_again)
  then show ?thesis
    using run keeps fails quarantinable
    by (auto simp: receive_object_def bookkeeping_failed_outcome_def Let_def retries_left_def
        MAX_CONSECUTIVE_RECEIVE_FAILURES_def sightings_again split: if_splits)
next
  case False
  have "storage_failure_outcome bk wall rid name True t = (Inl (CliStorage False), t)"
    using False by (simp add: storage_failure_outcome_def prog_run)
  then show ?thesis
    using run keeps fails quarantinable
    by (auto simp: receive_object_def bookkeeping_failed_outcome_def Let_def retries_left_def split: if_splits)
qed

text \<open>The polls from \<open>n\<close> and before \<open>m\<close> in which the quarantine can be written.\<close>

definition writable_polls :: "(nat \<Rightarrow> bookkeeping) \<Rightarrow> nat \<Rightarrow> nat \<Rightarrow> nat" where
  "writable_polls bk n m = length (filter (\<lambda>i. can_quarantine (bk i)) [n..<m])"

lemma redeliver_settles:
  assumes "\<And>n. \<exists>c. moved (wall n) (- (RECEIVE_QUARANTINE_TTL_DAYS * 24 * 3600)) = Inr c"
    and "\<And>n s. \<exists>t. inner n s = (Inl (CliStorage True), t) \<and>
        sightings s rid name ''transient_storage'' \<le> sightings t rid name ''transient_storage''"
  shows "retries_left rid name p < writable_polls bk n m \<Longrightarrow>
    \<exists>k < m. redeliver bk wall rid name inner n p = Some (k, Inr (outcome_of ''quarantined''))"
proof (induction "m - n" arbitrary: n p)
  case 0
  then show ?case by (simp add: writable_polls_def)
next
  case (Suc d)
  then have n: "n < m" by simp
  then have polls: "writable_polls bk n m = (if can_quarantine (bk n) then 1 else 0) + writable_polls bk (Suc n) m"
    by (simp add: writable_polls_def upt_conv_Cons)
  obtain s counts where p: "p = (s, counts)" by (cases p)
  obtain c where c: "moved (wall n) (- (RECEIVE_QUARANTINE_TTL_DAYS * 24 * 3600)) = Inr c" using assms(1) by blast
  obtain t where t: "inner n s = (Inl (CliStorage True), t)"
    "sightings s rid name ''transient_storage'' \<le> sightings t rid name ''transient_storage''" using assms(2) by blast
  obtain r q where run: "receive_object (bk n) (wall n) rid name (inner n) (s, counts) = (r, q)" by (metis surj_pair)
  note unfold = redeliver.simps [of bk wall rid name inner n p, unfolded p run]
  have "r = Inr (outcome_of ''quarantined'') \<or>
      r = Inr (outcome_of ''retry_pending'') \<and> retries_left rid name q < writable_polls bk (Suc n) m"
    using transient_poll [OF _ c t run] waiting_poll [OF _ t run] Suc.prems polls p
    by (cases "can_quarantine (bk n)") auto
  then show ?case
  proof
    assume "r = Inr (outcome_of ''quarantined'')"
    then show ?thesis using unfold n by (simp add: p outcome_of_def)
  next
    assume "r = Inr (outcome_of ''retry_pending'') \<and> retries_left rid name q < writable_polls bk (Suc n) m"
    then show ?thesis using unfold Suc.hyps(1) [of "Suc n" q] Suc.hyps(2) by (simp add: p outcome_of_def)
  qed
qed



section \<open>A forgotten nonce\<close>

lemma moved_Inr:
  "moved t n = Inr u \<longleftrightarrow> (\<exists>a. parse_canonical_utc t = Inr a \<and> in_range (a + n) \<and> u = format_canonical_utc (a + n))"
  by (auto simp: moved_def add_seconds_def split: sum.splits clock_error.splits if_splits)

lemma parse_wall: "in_range \<lfloor>rv_now R\<rfloor> \<Longrightarrow> parse_canonical_utc (rv_wall R) = Inr \<lfloor>rv_now R\<rfloor>"
  by (simp add: rv_wall_def rv_now_def wall_of_def stamp_text_def parse_format)

text \<open>The guard keeps a nonce for an hour longer than the window accepts its event, up to the rounding
  of the clock to seconds.\<close>

lemma replay_expiry_bound:
  assumes "replay_expiry R created = Inr expires" "parse_canonical_utc created = Inr m" "in_range \<lfloor>rv_now R\<rfloor>"
  shows "\<exists>x. parse_canonical_utc expires = Inr x \<and> m + 608399 \<le> x"
proof -
  let ?n = "rv_now R"
  let ?d = "max (trunc (of_int (m + 608400) - ?n)) 604800"
  have e: "moved (rv_wall R) ?d = Inr expires"
    using assms(1,2) by (simp add: replay_expiry_def ts_delta_def)
  then have x: "parse_canonical_utc expires = Inr (\<lfloor>?n\<rfloor> + ?d)"
    using parse_wall [OF assms(3)] by (auto simp: moved_Inr parse_format)
  have "m + 608399 \<le> \<lfloor>?n\<rfloor> + ?d"
  proof (cases "?n \<le> of_int (m + 608400)")
    case True
    then have "trunc (of_int (m + 608400) - ?n) = \<lfloor>of_int (m + 608400) - ?n\<rfloor>" by (simp add: trunc_def)
    moreover have "m + 608400 \<le> \<lfloor>?n\<rfloor> + \<lfloor>of_int (m + 608400) - ?n\<rfloor> + 1" by linarith
    ultimately show ?thesis by linarith
  next
    case False
    then have "m + 608400 \<le> \<lfloor>?n\<rfloor>" by linarith
    then show ?thesis by linarith
  qed
  with x show ?thesis by blast
qed

text \<open>C39. A nonce is forgotten only when its event has become unacceptable. The expiry that a commit
  writes beside the nonce is such that, whenever a later pruning removes the row, every clock
  reading from then on places the event before the acceptance window: a redelivery of it, whatever
  became of its other records, is refused with \<open>expired_window\<close>, and the missing row opens no
  replay.\<close>
theorem forgotten_only_when_refused:
  assumes "replay_expiry R created = Inr (rg_expires row)" and "parse_canonical_utc created = Inr m"
    and "row \<in> set (replay_guard s)" and "row \<notin> set (replay_guard (snd (prune_replay (rv_wall P) s)))"
    and "rv_now P \<le> rv_now Q" and "in_range \<lfloor>rv_now R\<rfloor>" "in_range \<lfloor>rv_now P\<rfloor>" "in_range (\<lfloor>rv_now Q\<rfloor> + 300)"
  shows "check_window (rv_wall Q) created = Inl (CliError ''expired_window'')"
proof -
  obtain x where x: "parse_canonical_utc (rg_expires row) = Inr x" "m + 608399 \<le> x"
    using replay_expiry_bound [OF assms(1,2,6)] by blast
  have "rg_expires row < rv_wall P"
    using assms(3,4) by (auto simp: prune_replay_def delete_where_def)
  then have p: "x < \<lfloor>rv_now P\<rfloor>" using parse_less_iff [OF x(1) parse_wall [OF assms(7)]] by simp
  have q: "\<lfloor>rv_now P\<rfloor> \<le> \<lfloor>rv_now Q\<rfloor>" using assms(5) by (rule floor_mono)
  have m: "0 \<le> m" using parse_in_range [OF assms(2)] by (simp add: in_range_def)
  let ?q = "\<lfloor>rv_now Q\<rfloor>"
  have "604800 \<le> ?q" "?q + 300 \<le> max_instant" using assms(8) p q x(2) m by (simp_all only: in_range_def)
  then have r: "in_range ?q" "in_range (?q - 604800)" unfolding in_range_def by linarith+
  have latest: "moved (rv_wall Q) 300 = Inr (format_canonical_utc (?q + 300))"
    and earliest: "moved (rv_wall Q) (- 604800) = Inr (format_canonical_utc (?q - 604800))"
    using parse_wall [OF r(1)] assms(8) r(2) by (simp_all add: moved_Inr)
  have "\<not> created > format_canonical_utc (?q + 300)" "created < format_canonical_utc (?q - 604800)"
    using parse_less_iff [OF parse_format [OF assms(8)] assms(2)] parse_less_iff [OF assms(2) parse_format [OF r(2)]] p q x(2)
    by simp_all
  then show ?thesis
    using latest earliest by (simp add: check_window_def FUTURE_TOLERANCE_SECONDS_def ACCEPT_WINDOW_DAYS_def)
qed

definition sample_fresh :: fresh where
  "sample_fresh = \<lparr>fr_event = ''e1'', fr_nonce = ''n1'', fr_thread = ''t1'', fr_draws = toy_draws\<rparr>"

definition sample_receiver :: "rat \<Rightarrow> receiver" where
  "sample_receiver now = \<lparr>rv_sender = \<lparr>sd_crypto = toy_crypto, sd_doc = \<lambda>_. VNull, sd_valid = \<lambda>_ _. True, sd_me = ''me'',
       sd_secret = [5], sd_now = now, sd_draw = \<lambda>_. ''d'', sd_pick = id, sd_flush = \<lambda>_. id\<rparr>,
     rv_fin = \<lambda>_. True, rv_depth = 32, rv_read = \<lambda>_ _. PReceiptAccepted ''e'' ''t'', rv_legacy = \<lambda>_. False,
     rv_legacy_path = \<lambda>_ _ _. ret (outcome_of ''quarantined''), rv_print = \<lambda>_. None,
     rv_receipt = sample_fresh, rv_ack = sample_fresh, rv_spare = sample_fresh\<rparr>"

definition sample_guard :: replay_row where
  "sample_guard = \<lparr>rg_nonce = ''n'', rg_event = Some ''e'', rg_digest = Some ''d'', rg_expires = ''2024-03-08T01:00:00Z''\<rparr>"

theorem forgotten_only_when_refused_witness:
  "replay_expiry (sample_receiver 63844848000) ''2024-03-01T00:00:00Z'' = Inr ''2024-03-08T01:00:00Z'' \<and>
   check_window (rv_wall (sample_receiver 63845456402)) ''2024-03-01T00:00:00Z'' = Inl (CliError ''expired_window'')"
proof -
  have now: "rv_now (sample_receiver n) = n" for n by (simp add: rv_now_def sample_receiver_def)
  have range: "in_range \<lfloor>rv_now (sample_receiver (of_int n))\<rfloor>" if "0 \<le> n" "n \<le> 63845456800" for n
    using that by (simp add: now in_range_def max_instant_value days_before_year_def)
  have c: "parse_canonical_utc ''2024-03-01T00:00:00Z'' = Inr 63844848000"
    and x: "parse_canonical_utc ''2024-03-08T01:00:00Z'' = Inr 63845456400" by (simp_all add: clock_eval)
  have e: "replay_expiry (sample_receiver 63844848000) ''2024-03-01T00:00:00Z'' = Inr ''2024-03-08T01:00:00Z''"
    using parse_wall [OF range [of 63844848000]] parse_in_range [OF x] format_parse [OF x]
    by (simp add: replay_expiry_def ts_delta_def c trunc_def moved_Inr now)
  have "rg_expires sample_guard < rv_wall (sample_receiver 63845456401)"
    using parse_less_iff [OF x parse_wall [OF range [of 63845456401]]] by (simp add: sample_guard_def now)
  then have gone: "sample_guard \<notin> set (replay_guard (snd (prune_replay (rv_wall (sample_receiver 63845456401))
      (empty_db\<lparr>replay_guard := [sample_guard]\<rparr>))))"
    by (simp add: prune_replay_def delete_where_def)
  show ?thesis
    using forgotten_only_when_refused [where R = "sample_receiver 63844848000" and row = sample_guard
        and P = "sample_receiver 63845456401" and Q = "sample_receiver 63845456402", OF _ c _ gone]
      range [of 63844848000] range [of 63845456401] range [of 63845456702] e
    by (simp add: now sample_guard_def)
qed

end
