(* ===== verification/Retention.thy ===== *)
theory Retention
  imports Delivery
begin

text \<open>
  The plaintext cache (\<open>policy/retention.py\<close>): the opt-in of a relationship, the cached files, their
  deletion and the scan for plaintext where none may be.

  \<^item> \<open>vault\<close> is the database and the state directory that holds it. A node is a regular file with its
    bytes, the JSON document in them, if any, and its modification time in seconds since 1970, or a
    directory; modes and links are not modelled. Relationship and event ids are single file names.
  \<^item> The order in which \<open>sorted\<close> visits the entries of the cache decides what a purge that raises has
    done; elsewhere the order of a walk shows in no result.
\<close>

section \<open>Files\<close>

datatype node = File bytes "json option" rat | Dir "(str \<times> node) list"

type_synonym entries = "(str \<times> node) list"

record vault =
  vt_db :: db
  vt_files :: entries

datatype retention_exn = RetentionError str | RetentionUnknownRelationship str | RetentionRaised str

type_synonym 'a retention = "(vault, retention_exn, 'a) prog"

text \<open>The files below a node: the parts of the path, and what \<open>File\<close> has.\<close>

fun node_files :: "node \<Rightarrow> (str list \<times> bytes \<times> json option \<times> rat) list" where
  "node_files (File b j t) = [([], b, j, t)]"
| "node_files (Dir es) = concat (map (\<lambda>e. map (\<lambda>f. (fst e # fst f, snd f)) (node_files (snd e))) es)"

definition count_files :: "node \<Rightarrow> nat" where
  "count_files x = length (node_files x)"

definition put_entry :: "str \<Rightarrow> node option \<Rightarrow> entries \<Rightarrow> entries" where
  "put_entry n x es = (case x of None \<Rightarrow> filter (\<lambda>e. fst e \<noteq> n) es | Some y \<Rightarrow> dict_set n y es)"

definition CACHE_DIRNAME :: str where "CACHE_DIRNAME = ''plaintext_cache''"
definition MANIFEST_FILENAME :: str where "MANIFEST_FILENAME = ''optin.json''"

definition cache_root :: "vault \<Rightarrow> node option" where
  "cache_root v = map_of (vt_files v) CACHE_DIRNAME"

definition set_cache_root :: "entries \<Rightarrow> vault \<Rightarrow> vault" where
  "set_cache_root es v = v\<lparr>vt_files := put_entry CACHE_DIRNAME (Some (Dir es)) (vt_files v)\<rparr>"

definition cache_dir :: "vault \<Rightarrow> str \<Rightarrow> node option" where
  "cache_dir v rid = (case cache_root v of Some (Dir es) \<Rightarrow> map_of es rid | _ \<Rightarrow> None)"

text \<open>\<open>mkdir(parents=True, exist_ok=True)\<close> on the directory of a relationship, then the write of one file
  in it: \<open>Inl\<close> if a file stands where a directory is needed, or the other way round.\<close>

definition write_cached :: "str \<Rightarrow> str \<Rightarrow> node \<Rightarrow> unit retention" where
  "write_cached rid name x = (\<lambda>v.
     case (case cache_root v of None \<Rightarrow> Inr [] | Some (Dir es) \<Rightarrow> Inr es | Some _ \<Rightarrow> Inl (RetentionRaised ''NotADirectoryError'')) of
       Inl e \<Rightarrow> (Inl e, v)
     | Inr es \<Rightarrow>
         (case (case map_of es rid of None \<Rightarrow> Inr [] | Some (Dir fs) \<Rightarrow> Inr fs | Some _ \<Rightarrow> Inl (RetentionRaised ''FileExistsError'')) of
            Inl e \<Rightarrow> (Inl e, v)
          | Inr fs \<Rightarrow> let made = set_cache_root (put_entry rid (Some (Dir fs)) es) v in
              (case map_of fs name of
                 Some (Dir _) \<Rightarrow> (Inl (RetentionRaised ''IsADirectoryError''), made)
               | _ \<Rightarrow> (Inr (), set_cache_root (put_entry rid (Some (Dir (put_entry name (Some x) fs))) es) v))))"

section \<open>The opt-in\<close>

definition PLAINTEXT_CACHE_PERIODS :: "(str \<times> int option) list" where
  "PLAINTEXT_CACHE_PERIODS = [(''1d'', Some (24 * 3600)), (''7d'', Some (7 * 24 * 3600)), (''30d'', Some (30 * 24 * 3600)),
     (''indefinite'', None)]"

definition PLAINTEXT_PERIOD_ALIASES :: "(str \<times> str) list" where
  "PLAINTEXT_PERIOD_ALIASES = [(''1d'', ''1d''), (''1day'', ''1d''), (''1-day'', ''1d''), (''day'', ''1d''),
     (''7d'', ''7d''), (''7day'', ''7d''), (''7days'', ''7d''), (''7-day'', ''7d''), (''week'', ''7d''),
     (''30d'', ''30d''), (''30day'', ''30d''), (''30days'', ''30d''), (''30-day'', ''30d''), (''month'', ''30d''),
     (''indefinite'', ''indefinite''), (''forever'', ''indefinite'')]"

text \<open>\<open>strip\<close> and \<open>lower\<close> on Latin-1 texts; only ASCII letters become ASCII letters.\<close>

definition is_space :: "char \<Rightarrow> bool" where
  "is_space c \<longleftrightarrow> (of_char c :: nat) \<in> {9, 10, 11, 12, 13, 28, 29, 30, 31, 32, 133, 160}"

definition strip :: "str \<Rightarrow> str" where
  "strip s = rev (dropWhile is_space (rev (dropWhile is_space s)))"

definition lower_char :: "char \<Rightarrow> char" where
  "lower_char c = (let n = (of_char c :: nat) in if 65 \<le> n \<and> n \<le> 90 then char_of (n + 32) else c)"

definition normalize_period :: "str \<Rightarrow> retention_exn + str" where
  "normalize_period period = (case map_of PLAINTEXT_PERIOD_ALIASES (map lower_char (strip period)) of
     None \<Rightarrow> Inl (RetentionError ''invalid_period'') | Some p \<Rightarrow> Inr p)"

text \<open>\<open>PLAINTEXT_CACHE_PERIODS.get(period) if period else None\<close>, for the period of a document.\<close>

definition period_seconds :: "json \<Rightarrow> retention_exn + int option" where
  "period_seconds p = (case p of
     JStr t \<Rightarrow> Inr (case map_of PLAINTEXT_CACHE_PERIODS t of None \<Rightarrow> None | Some x \<Rightarrow> x)
   | JArr (_ # _) \<Rightarrow> Inl (RetentionRaised ''TypeError'') | JObj (_ # _) \<Rightarrow> Inl (RetentionRaised ''TypeError'')
   | _ \<Rightarrow> Inr None)"

definition policy_document :: "db \<Rightarrow> str \<Rightarrow> retention_exn + dict" where
  "policy_document s rid = (case relationship_of s rid of
     None \<Rightarrow> Inl (RetentionUnknownRelationship rid)
   | Some r \<Rightarrow> (case rl_policy r of Some (JObj d) \<Rightarrow> Inr d | _ \<Rightarrow> Inl (RetentionError ''policy_not_json'')))"

definition store_document :: "str \<Rightarrow> dict \<Rightarrow> vault \<Rightarrow> vault" where
  "store_document rid d v = v\<lparr>vt_db := set_policy_document rid d (vt_db v)\<rparr>"

definition retention_of :: "dict \<Rightarrow> dict" where
  "retention_of doc = (case dict_get doc ''retention'' of Some (JObj d) \<Rightarrow> d | _ \<Rightarrow> [])"

definition optin_entry :: "str \<Rightarrow> str \<Rightarrow> str \<Rightarrow> str option \<Rightarrow> dict" where
  "optin_entry rid period now expires = [(''relationship_id'', JStr rid), (''period'', JStr period), (''set_at'', JStr now),
     (''expires_at'', case expires of None \<Rightarrow> JNull | Some x \<Rightarrow> JStr x)]"

definition expiry_of :: "str \<Rightarrow> str \<Rightarrow> retention_exn + str option" where
  "expiry_of period now = (case map_of PLAINTEXT_CACHE_PERIODS period of
     Some (Some n) \<Rightarrow> (case add_seconds now n of
        Inr x \<Rightarrow> Inr (Some x)
      | Inl ValueError \<Rightarrow> Inl (RetentionRaised ''ValueError'') | Inl OverflowError \<Rightarrow> Inl (RetentionRaised ''OverflowError''))
   | _ \<Rightarrow> Inr None)"

text \<open>The document is committed before the manifest is written; \<open>dumps\<close> is \<open>json.dumps\<close> and \<open>clock\<close> the
  time of the write.\<close>

definition set_plaintext_cache :: "(json \<Rightarrow> bytes) \<Rightarrow> rat \<Rightarrow> str \<Rightarrow> str \<Rightarrow> str \<Rightarrow> dict retention" where
  "set_plaintext_cache dumps clock now rid period =
     seq (lift (normalize_period period)) (\<lambda>canonical.
     seq (lift (expiry_of canonical now)) (\<lambda>expires.
     let entry = optin_entry rid canonical now expires in
     seq (\<lambda>v. case policy_document (vt_db v) rid of
         Inl e \<Rightarrow> (Inl e, v)
       | Inr doc \<Rightarrow> (Inr (), store_document rid
           (dict_set ''retention'' (JObj (dict_set ''plaintext_cache'' (JObj entry) (retention_of doc))) doc) v)) (\<lambda>_.
     seq (write_cached rid MANIFEST_FILENAME (File (dumps (JObj entry)) (Some (JObj entry)) clock)) (\<lambda>_.
     ret entry))))"

definition optin_of :: "dict \<Rightarrow> dict option" where
  "optin_of doc = (case dict_get doc ''retention'' of
     Some (JObj d) \<Rightarrow> (case dict_get d ''plaintext_cache'' of Some (JObj r) \<Rightarrow> Some r | _ \<Rightarrow> None)
   | _ \<Rightarrow> None)"

record cache_status =
  cs_enabled :: bool
  cs_period :: json
  cs_set :: json
  cs_expires :: json

text \<open>A moment or an expiry that is no canonical UTC text disables a timed opt-in.\<close>

definition in_force :: "str \<Rightarrow> json \<Rightarrow> bool" where
  "in_force moment expires = (case expires of
     JNull \<Rightarrow> True
   | JStr t \<Rightarrow> (case (parse_canonical_utc moment, parse_canonical_utc t) of (Inr a, Inr b) \<Rightarrow> a < b | _ \<Rightarrow> False)
   | _ \<Rightarrow> False)"

definition plaintext_cache_status :: "str \<Rightarrow> db \<Rightarrow> str \<Rightarrow> retention_exn + cache_status" where
  "plaintext_cache_status moment s rid = (case policy_document s rid of
     Inl e \<Rightarrow> Inl e
   | Inr doc \<Rightarrow> Inr (case optin_of doc of
       None \<Rightarrow> \<lparr>cs_enabled = False, cs_period = JNull, cs_set = JNull, cs_expires = JNull\<rparr>
     | Some r \<Rightarrow> \<lparr>cs_enabled = in_force moment (item r ''expires_at''), cs_period = item r ''period'',
         cs_set = item r ''set_at'', cs_expires = item r ''expires_at''\<rparr>))"

definition require_enabled :: "str \<Rightarrow> db \<Rightarrow> str \<Rightarrow> retention_exn + cache_status" where
  "require_enabled moment s rid = (case plaintext_cache_status moment s rid of
     Inl e \<Rightarrow> Inl e
   | Inr st \<Rightarrow> if cs_enabled st then Inr st else Inl (RetentionError ''plaintext_cache_not_enabled''))"

section \<open>Writing, reading, deleting\<close>

definition file_name :: "str \<Rightarrow> str" where "file_name eid = eid @ ''.json''"

text \<open>\<open>doc\<close> is the JSON document in the payload.\<close>

definition write_plaintext_cache :: "rat \<Rightarrow> str \<Rightarrow> str \<Rightarrow> str \<Rightarrow> bytes \<Rightarrow> json option \<Rightarrow> unit retention" where
  "write_plaintext_cache clock moment rid eid payload doc =
     (if payload = [] then raise (RetentionError ''invalid_payload'')
      else if length payload > MAX_ENVELOPE_BYTES then raise (RetentionError ''payload_too_large'')
      else seq (\<lambda>v. (require_enabled moment (vt_db v) rid, v)) (\<lambda>_.
        write_cached rid (file_name eid) (File payload doc clock)))"

definition epoch_of :: "str \<Rightarrow> retention_exn + rat" where
  "epoch_of moment = (case parse_canonical_utc moment of
     Inl _ \<Rightarrow> Inl (RetentionRaised ''ValueError'') | Inr t \<Rightarrow> Inr (of_int (t - unix_epoch)))"

text \<open>Whether a file of that age is too old.\<close>

definition too_old :: "int option \<Rightarrow> rat \<Rightarrow> rat \<Rightarrow> bool" where
  "too_old seconds now_epoch mtime \<longleftrightarrow> (case seconds of None \<Rightarrow> False | Some n \<Rightarrow> mtime < now_epoch - of_int n)"

text \<open>Reading an event's file, given the directory of the relationship, if there is one.\<close>

definition read_dir :: "str \<Rightarrow> db \<Rightarrow> str \<Rightarrow> str \<Rightarrow> node option \<Rightarrow> retention_exn + bytes option" where
  "read_dir moment s rid eid d = (case plaintext_cache_status moment s rid of
     Inl e \<Rightarrow> Inl e
   | Inr st \<Rightarrow>
       if \<not> cs_enabled st then Inr None
       else (case d of
         Some (Dir fs) \<Rightarrow> (case map_of fs (file_name eid) of
             Some (File payload doc mtime) \<Rightarrow> (case period_seconds (cs_period st) of
                 Inl e \<Rightarrow> Inl e
               | Inr None \<Rightarrow> Inr (Some payload)
               | Inr (Some n) \<Rightarrow> (case epoch_of moment of
                   Inl e \<Rightarrow> Inl e
                 | Inr now \<Rightarrow> Inr (if too_old (Some n) now mtime then None else Some payload)))
           | _ \<Rightarrow> Inr None)
       | _ \<Rightarrow> Inr None))"

definition read_plaintext_cache :: "str \<Rightarrow> vault \<Rightarrow> str \<Rightarrow> str \<Rightarrow> retention_exn + bytes option" where
  "read_plaintext_cache moment v rid eid = read_dir moment (vt_db v) rid eid (cache_dir v rid)"

text \<open>The directory goes first, the opt-in after it.\<close>

definition delete_plaintext_cache :: "str \<Rightarrow> nat retention" where
  "delete_plaintext_cache rid =
     seq (query (\<lambda>v. cache_dir v rid)) (\<lambda>d.
     case d of
       Some (File _ _ _) \<Rightarrow> raise (RetentionRaised ''NotADirectoryError'')
     | _ \<Rightarrow>
       seq (exec (\<lambda>v. case (d, cache_root v) of
           (Some (Dir _), Some (Dir es)) \<Rightarrow> set_cache_root (put_entry rid None es) v | _ \<Rightarrow> v)) (\<lambda>_.
       seq (\<lambda>v. (policy_document (vt_db v) rid, v)) (\<lambda>doc.
       seq (case dict_get doc ''retention'' of
           Some (JObj r) \<Rightarrow> exec (store_document rid (dict_set ''retention''
             (JObj (filter (\<lambda>e. fst e \<noteq> ''plaintext_cache'') r)) doc))
         | _ \<Rightarrow> ret ()) (\<lambda>_.
       ret (case d of None \<Rightarrow> 0 | Some x \<Rightarrow> count_files x)))))"

section \<open>Purging\<close>

definition expendable :: "int \<Rightarrow> rat \<Rightarrow> str \<Rightarrow> rat \<Rightarrow> bool" where
  "expendable seconds now name mtime \<longleftrightarrow> name \<noteq> MANIFEST_FILENAME \<and> too_old (Some seconds) now mtime"

fun drop_old :: "int \<Rightarrow> rat \<Rightarrow> node \<Rightarrow> node" where
  "drop_old seconds now (File b j t) = File b j t"
| "drop_old seconds now (Dir es) = Dir (map (\<lambda>e. (fst e, drop_old seconds now (snd e)))
     (filter (\<lambda>e. case snd e of File b j t \<Rightarrow> \<not> expendable seconds now (fst e) t | Dir _ \<Rightarrow> True) es))"

text \<open>What becomes of one entry of the cache: how many files go, and what stays.\<close>

definition purge_entry :: "str \<Rightarrow> rat \<Rightarrow> db \<Rightarrow> str \<times> node \<Rightarrow> retention_exn + nat \<times> node option" where
  "purge_entry moment now s e = (case snd e of
     File _ _ _ \<Rightarrow> Inr (1, None)
   | Dir fs \<Rightarrow>
       if relationship_of s (fst e) = None then Inr (count_files (Dir fs), None)
       else (case plaintext_cache_status moment s (fst e) of
         Inl x \<Rightarrow> Inl x
       | Inr st \<Rightarrow> (case period_seconds (cs_period st) of
           Inl x \<Rightarrow> Inl x
         | Inr seconds \<Rightarrow>
             if \<not> cs_enabled st then Inr (count_files (Dir fs), None)
             else (case seconds of
               None \<Rightarrow> Inr (0, Some (Dir fs))
             | Some n \<Rightarrow> Inr (length (filter (\<lambda>f. expendable n now (last (fst f)) (snd (snd (snd f)))) (node_files (Dir fs))),
                 Some (drop_old n now (Dir fs)))))))"

fun purge_entries :: "str \<Rightarrow> rat \<Rightarrow> db \<Rightarrow> entries \<Rightarrow> (retention_exn + nat) \<times> entries" where
  "purge_entries moment now s [] = (Inr 0, [])"
| "purge_entries moment now s (e # es) = (case purge_entry moment now s e of
     Inl x \<Rightarrow> (Inl x, e # es)
   | Inr (n, kept) \<Rightarrow> (case purge_entries moment now s es of (r, rest) \<Rightarrow>
       (case r of Inl x \<Rightarrow> Inl x | Inr m \<Rightarrow> Inr (n + m), (case kept of None \<Rightarrow> rest | Some x \<Rightarrow> (fst e, x) # rest))))"

definition purge_expired_plaintext_cache :: "str \<Rightarrow> nat retention" where
  "purge_expired_plaintext_cache moment =
     seq (lift (epoch_of moment)) (\<lambda>now v. case cache_root v of
       Some (Dir es) \<Rightarrow> (case purge_entries moment now (vt_db v) (sort_key fst es) of (r, kept) \<Rightarrow> (r, set_cache_root kept v))
     | _ \<Rightarrow> (Inr 0, v))"

section \<open>The scan\<close>

definition read_manifest :: "entries \<Rightarrow> dict option" where
  "read_manifest fs = (case map_of fs MANIFEST_FILENAME of Some (File _ (Some (JObj d)) _) \<Rightarrow> Some d | _ \<Rightarrow> None)"

text \<open>\<open>None\<close> if the manifest covers a file of that age, else why not.\<close>

definition manifest_covers :: "dict option \<Rightarrow> rat \<Rightarrow> rat \<Rightarrow> retention_exn + str option" where
  "manifest_covers manifest mtime now = (case manifest of
     None \<Rightarrow> Inr (Some ''stale_or_unauthorized_plaintext_cache'')
   | Some d \<Rightarrow>
       (case (case item d ''expires_at'' of JNull \<Rightarrow> Inr False
           | JStr t \<Rightarrow> (case parse_canonical_utc t of Inl _ \<Rightarrow> Inl () | Inr x \<Rightarrow> Inr (now \<ge> of_int (x - unix_epoch)))
           | _ \<Rightarrow> Inl ()) of
          Inl _ \<Rightarrow> Inr (Some ''stale_or_unauthorized_plaintext_cache'')
        | Inr True \<Rightarrow> Inr (Some ''expired_optin_plaintext_cache'')
        | Inr False \<Rightarrow> (case period_seconds (item d ''period'') of
            Inl e \<Rightarrow> Inl e
          | Inr seconds \<Rightarrow> Inr (if too_old seconds now mtime then Some ''cache_file_older_than_period'' else None))))"

type_synonym finding = "str list \<times> str"

definition scan_box :: "entries \<Rightarrow> str \<Rightarrow> finding list" where
  "scan_box files box = (case map_of files box of
     Some (Dir es) \<Rightarrow> map (\<lambda>f. (box # fst f, ''plaintext_'' @ box @ ''_forbidden'')) (node_files (Dir es))
   | _ \<Rightarrow> [])"

fun scan_files :: "dict option \<Rightarrow> rat \<Rightarrow> str \<Rightarrow> (str list \<times> bytes \<times> json option \<times> rat) list \<Rightarrow> retention_exn + finding list" where
  "scan_files manifest now rid [] = Inr []"
| "scan_files manifest now rid (f # fs) =
     (if last (fst f) = MANIFEST_FILENAME then scan_files manifest now rid fs
      else case manifest_covers manifest (snd (snd (snd f))) now of
        Inl e \<Rightarrow> Inl e
      | Inr why \<Rightarrow> (case scan_files manifest now rid fs of
          Inl e \<Rightarrow> Inl e
        | Inr found \<Rightarrow> Inr ((case why of None \<Rightarrow> [] | Some w \<Rightarrow> [(CACHE_DIRNAME # rid # fst f, w)]) @ found)))"

fun scan_cache :: "rat \<Rightarrow> entries \<Rightarrow> retention_exn + finding list" where
  "scan_cache now [] = Inr []"
| "scan_cache now (e # es) =
     (case (case snd e of
         File _ _ _ \<Rightarrow> Inr [([CACHE_DIRNAME, fst e], ''stray_file_in_plaintext_cache'')]
       | Dir fs \<Rightarrow> scan_files (read_manifest fs) now (fst e) (node_files (Dir fs))) of
        Inl x \<Rightarrow> Inl x
      | Inr found \<Rightarrow> (case scan_cache now es of Inl x \<Rightarrow> Inl x | Inr others \<Rightarrow> Inr (found @ others)))"

definition starts_with :: "str \<Rightarrow> str \<Rightarrow> bool" where
  "starts_with s p \<longleftrightarrow> take (length p) s = p"

definition ends_with :: "str \<Rightarrow> str \<Rightarrow> bool" where
  "ends_with s p \<longleftrightarrow> starts_with (rev s) (rev p)"

definition legacy_name :: "str \<Rightarrow> bool" where
  "legacy_name n \<longleftrightarrow> starts_with n ''inbox'' \<or> starts_with n ''outbox'' \<or> ends_with n ''.plaintext'' \<or> ends_with n ''.decrypted''"

definition skipped :: "entries \<Rightarrow> str \<Rightarrow> bool" where
  "skipped files n \<longleftrightarrow> n = CACHE_DIRNAME \<or>
     n \<in> {''mirror'', ''locks''} \<and> (case map_of files n of Some (Dir _) \<Rightarrow> True | _ \<Rightarrow> False)"

definition scan_legacy :: "entries \<Rightarrow> finding list" where
  "scan_legacy files = map (\<lambda>f. (fst f, ''legacy_plaintext_pattern''))
     (filter (\<lambda>f. \<not> skipped files (hd (fst f)) \<and> legacy_name (last (fst f))) (node_files (Dir files)))"

text \<open>The first reason for a path is the one that counts.\<close>

fun first_reasons :: "finding list \<Rightarrow> finding list" where
  "first_reasons [] = []"
| "first_reasons (f # fs) = f # filter (\<lambda>g. fst g \<noteq> fst f) (first_reasons fs)"

fun path_text :: "str \<Rightarrow> str list \<Rightarrow> str" where
  "path_text base [] = base"
| "path_text base (n # ns) = path_text (base @ ''/'' @ n) ns"

definition retention_scan :: "str \<Rightarrow> str \<Rightarrow> vault \<Rightarrow> retention_exn + (str \<times> str) list" where
  "retention_scan base moment v = (case epoch_of moment of
     Inl e \<Rightarrow> Inl e
   | Inr now \<Rightarrow>
       (case (case cache_root v of Some (Dir es) \<Rightarrow> scan_cache now es | _ \<Rightarrow> Inr []) of
          Inl e \<Rightarrow> Inl e
        | Inr cached \<Rightarrow> Inr (sort_key fst (map (\<lambda>f. (path_text base (fst f), snd f))
            (first_reasons (scan_box (vt_files v) ''inbox'' @ scan_box (vt_files v) ''outbox'' @ cached @ scan_legacy (vt_files v)))))))"

section \<open>A purge takes away what nobody may read\<close>

text \<open>Names in a directory are distinct.\<close>

fun well_named :: "node \<Rightarrow> bool" where
  "well_named (File b j t) = True"
| "well_named (Dir es) = (distinct (map fst es) \<and> (\<forall>e \<in> set es. well_named (snd e)))"

definition cached_files :: "vault \<Rightarrow> (str list \<times> bytes \<times> json option \<times> rat) list" where
  "cached_files v = (case cache_root v of Some (Dir es) \<Rightarrow> node_files (Dir es) | _ \<Rightarrow> [])"

text \<open>The files that an opt-in in force covers at a moment: a manifest, or a file within the period.\<close>

definition covered :: "str \<Rightarrow> db \<Rightarrow> (str list \<times> bytes \<times> json option \<times> rat) set" where
  "covered moment s = {f. \<exists>rid ns st seconds now. fst f = rid # ns \<and> ns \<noteq> [] \<and> epoch_of moment = Inr now \<and>
     plaintext_cache_status moment s rid = Inr st \<and> cs_enabled st \<and> period_seconds (cs_period st) = Inr seconds \<and>
     (last ns = MANIFEST_FILENAME \<or> \<not> too_old seconds now (snd (snd (snd f))))}"

lemma dir_paths: "f \<in> set (node_files (Dir es)) \<Longrightarrow> fst f \<noteq> []"
  by auto

lemma map_of_kept:
  assumes "distinct (map fst fs)"
  shows "map_of (map (\<lambda>e. (fst e, f (snd e))) (filter P fs)) k =
    (case map_of fs k of None \<Rightarrow> None | Some x \<Rightarrow> if P (k, x) then Some (f x) else None)"
  using assms
proof (induction fs)
  case (Cons e fs)
  have "map_of fs (fst e) = None" using Cons.prems by (simp add: map_of_eq_None_iff)
  then show ?case using Cons by (cases e) auto
qed simp

definition keep_file :: "int \<Rightarrow> rat \<Rightarrow> str list \<times> bytes \<times> json option \<times> rat \<Rightarrow> bool" where
  "keep_file n now f \<longleftrightarrow> \<not> expendable n now (last (fst f)) (snd (snd (snd f)))"

lemma keep_below: "filter (keep_file n now) (map (\<lambda>f. (k # fst f, snd f)) (node_files (Dir es))) =
    map (\<lambda>f. (k # fst f, snd f)) (filter (keep_file n now) (node_files (Dir es)))"
  unfolding filter_map by (intro arg_cong [where f = "map _"] filter_cong) (auto simp: keep_file_def dest: dir_paths)

lemma drop_old_files: "x = Dir es \<Longrightarrow> node_files (drop_old n now x) = filter (keep_file n now) (node_files x)"
proof (induction n now x arbitrary: es rule: drop_old.induct)
  case (2 n now fs)
  let ?keep = "\<lambda>e. case snd e of File b j t \<Rightarrow> \<not> expendable n now (fst e) t | Dir _ \<Rightarrow> True"
  let ?below = "\<lambda>g e. map (\<lambda>f. (fst e # fst f, snd f)) (node_files (g (snd e)))"
  have one: "filter (keep_file n now) (?below id e) = (if ?keep e then ?below (drop_old n now) e else [])" if "e \<in> set fs" for e
  proof (cases "snd e")
    case (Dir gs)
    then show ?thesis using 2(1) [of e gs] that keep_below [of n now "fst e" gs] by simp
  qed (simp add: keep_file_def)
  have "concat (map (?below (drop_old n now)) (filter ?keep gs)) = filter (keep_file n now) (concat (map (?below id) gs))"
    if "set gs \<subseteq> set fs" for gs
    using that by (induction gs) (simp_all add: one [unfolded id_apply])
  from this [of fs] show ?case by (simp add: comp_def)
qed simp

lemma entry_readable:
  assumes "well_named (snd e)" "epoch_of moment = Inr now" "purge_entry moment now s e = Inr (n, kept)"
  shows "read_dir moment s (fst e) eid kept = read_dir moment s (fst e) eid (Some (snd e))"
proof (cases "snd e")
  case (File b j t)
  then show ?thesis using assms(3) by (auto simp: purge_entry_def read_dir_def split: sum.split)
next
  case (Dir fs)
  show ?thesis
  proof (cases "relationship_of s (fst e)")
    case None
    then show ?thesis by (simp add: read_dir_def plaintext_cache_status_def policy_document_def)
  next
    case (Some rel)
    with Dir assms(3) obtain st seconds where st: "plaintext_cache_status moment s (fst e) = Inr st"
      "period_seconds (cs_period st) = Inr seconds" by (auto simp: purge_entry_def split: sum.splits)
    show ?thesis
    proof (cases "cs_enabled st \<and> seconds \<noteq> None")
      case False
      then show ?thesis using Dir Some assms(3) st by (auto simp: purge_entry_def read_dir_def split: option.splits)
    next
      case True
      then obtain m where m: "seconds = Some m" by blast
      then have kept: "kept = Some (drop_old m now (Dir fs))" using True Dir Some assms(3) st by (simp add: purge_entry_def)
      have d: "distinct (map fst fs)" using assms(1) Dir by simp
      show ?thesis
        using True st m assms(2) Dir unfolding read_dir_def kept drop_old.simps
        by (auto simp: map_of_kept [OF d] expendable_def split: option.splits node.splits)
    qed
  qed
qed

lemma entry_files:
  assumes "purge_entry moment now s e = Inr (n, kept)"
  shows "count_files (snd e) = n + (case kept of None \<Rightarrow> 0 | Some x \<Rightarrow> count_files x)"
proof -
  have part: "length (filter (\<lambda>f. expendable m now (last (fst f)) (snd (snd (snd f)))) xs) + length (filter (keep_file m now) xs) = length xs" for m xs
    using sum_length_filter_compl [of "\<lambda>f. expendable m now (last (fst f)) (snd (snd (snd f)))" xs] by (simp add: keep_file_def [abs_def])
  show ?thesis
    using assms by (auto simp: purge_entry_def count_files_def drop_old_files [OF refl] part
        split: node.splits if_splits sum.splits option.splits simp del: node_files.simps(2) drop_old.simps)
qed

lemma entry_covered:
  assumes "purge_entry moment now s e = Inr (n, Some x)" "epoch_of moment = Inr now" "f \<in> set (node_files x)"
  shows "(fst e # fst f, snd f) \<in> covered moment s"
proof -
  obtain fs where fs: "snd e = Dir fs" using assms(1) by (auto simp: purge_entry_def split: node.splits)
  then obtain st seconds where st: "plaintext_cache_status moment s (fst e) = Inr st" "cs_enabled st"
    "period_seconds (cs_period st) = Inr seconds"
    and x: "x = (case seconds of None \<Rightarrow> Dir fs | Some m \<Rightarrow> drop_old m now (Dir fs))"
    using assms(1) by (auto simp: purge_entry_def split: if_splits sum.splits option.splits)
  have "f \<in> set (node_files (Dir fs)) \<and> (case seconds of None \<Rightarrow> True | Some m \<Rightarrow> keep_file m now f)"
    using assms(3) x by (auto simp: drop_old_files [OF refl] split: option.splits simp del: node_files.simps drop_old.simps)
  then have "fst f \<noteq> [] \<and> (last (fst f) = MANIFEST_FILENAME \<or> \<not> too_old seconds now (snd (snd (snd f))))"
    using dir_paths [of f fs] by (auto simp: keep_file_def expendable_def too_old_def split: option.splits simp del: node_files.simps)
  then show ?thesis using st assms(2) by (auto simp: covered_def)
qed

text \<open>The whole cache, entry by entry.\<close>

lemma entries_step:
  assumes "purge_entries moment now s (e # es) = (r, kept)"
  obtains (Stop) x where "purge_entry moment now s e = Inl x" "r = Inl x" "kept = e # es"
  | (Go) n x q rest where "purge_entry moment now s e = Inr (n, x)" "purge_entries moment now s es = (q, rest)"
      "kept = (case x of None \<Rightarrow> rest | Some y \<Rightarrow> (fst e, y) # rest)"
      "r = (case q of Inl y \<Rightarrow> Inl y | Inr m \<Rightarrow> Inr (n + m))"
  using assms by (cases "purge_entry moment now s e"; cases "purge_entries moment now s es") auto

lemma entries_names: "purge_entries moment now s es = (r, kept) \<Longrightarrow> fst ` set kept \<subseteq> fst ` set es"
proof (induction es arbitrary: r kept)
  case (Cons e es)
  from Cons.prems show ?case
  proof (cases rule: entries_step)
    case (Go n x q rest)
    then show ?thesis using Cons.IH [OF Go(2)] by (auto split: option.splits)
  qed simp
qed simp

lemma entries_readable:
  assumes "distinct (map fst es)" "\<And>e. e \<in> set es \<Longrightarrow> well_named (snd e)" "epoch_of moment = Inr now"
    and "purge_entries moment now s es = (r, kept)"
  shows "read_dir moment s rid eid (map_of kept rid) = read_dir moment s rid eid (map_of es rid)"
  using assms(1,2,4)
proof (induction es arbitrary: r kept)
  case (Cons e es)
  from Cons.prems(3) show ?case
  proof (cases rule: entries_step)
    case (Go n x q rest)
    note a = Go(1) and rest = Go(2) and kept = Go(3)
    have ih: "read_dir moment s rid eid (map_of rest rid) = read_dir moment s rid eid (map_of es rid)"
      using Cons.IH [OF _ _ rest] Cons.prems(1,2) by simp
    have new: "map_of rest (fst e) = None"
      using entries_names [OF rest] Cons.prems(1) by (auto simp: map_of_eq_None_iff)
    have one: "read_dir moment s (fst e) eid x = read_dir moment s (fst e) eid (Some (snd e))"
      using entry_readable [OF _ assms(3) a] Cons.prems(2) by simp
    show ?thesis using ih new one kept by (cases e; cases "fst e = rid") (auto split: option.splits)
  qed simp
qed simp

lemma entries_files:
  assumes "purge_entries moment now s es = (Inr n, kept)" "epoch_of moment = Inr now"
  shows "count_files (Dir es) = n + count_files (Dir kept) \<and> set (node_files (Dir kept)) \<subseteq> covered moment s"
  using assms(1)
proof (induction es arbitrary: n kept)
  case (Cons e es)
  from Cons.prems obtain k x m rest where a: "purge_entry moment now s e = Inr (k, x)"
    and rest: "purge_entries moment now s es = (Inr m, rest)" "n = k + m"
      "kept = (case x of None \<Rightarrow> rest | Some y \<Rightarrow> (fst e, y) # rest)"
    by (cases rule: entries_step) (auto split: sum.splits)
  have "count_files (Dir (e # es)) = count_files (snd e) + count_files (Dir es)"
    "count_files (Dir kept) = (case x of None \<Rightarrow> 0 | Some y \<Rightarrow> count_files y) + count_files (Dir rest)"
    using rest(3) by (auto simp: count_files_def split: option.splits)
  moreover have "set (node_files (Dir kept)) \<subseteq> covered moment s"
    using Cons.IH [OF rest(1)] rest(3) entry_covered [OF _ assms(2), of s e k] a by (auto split: option.splits)
  ultimately show ?case using Cons.IH [OF rest(1)] entry_files [OF a] rest(2) by simp
qed (simp add: count_files_def)

text \<open>C40. A purge takes away exactly what nobody may read. However it ends, it changes nothing for
  readers at that moment, of any event of any relationship, nothing in the database and nothing in
  the state directory beside the cache. If it returns, the number it returns is that of the files it
  removed, and every file left in the cache belongs to a known relationship whose opt-in is in force
  and is a manifest or within the period.\<close>
theorem purge_takes_what_nobody_may_read:
  assumes "well_named (Dir (vt_files v))"
  shows "case purge_expired_plaintext_cache moment v of (r, t) \<Rightarrow>
    vt_db t = vt_db v \<and> (\<forall>n. n = CACHE_DIRNAME \<or> map_of (vt_files t) n = map_of (vt_files v) n) \<and>
    (\<forall>rid eid. read_plaintext_cache moment t rid eid = read_plaintext_cache moment v rid eid) \<and>
    (case r of Inl _ \<Rightarrow> True
     | Inr n \<Rightarrow> length (cached_files v) = n + length (cached_files t) \<and> set (cached_files t) \<subseteq> covered moment (vt_db v))"
proof (cases "\<exists>now es. epoch_of moment = Inr now \<and> cache_root v = Some (Dir es)")
  case False
  then have "purge_expired_plaintext_cache moment v = (case epoch_of moment of Inl e \<Rightarrow> (Inl e, v) | Inr _ \<Rightarrow> (Inr 0, v))"
    by (auto simp: purge_expired_plaintext_cache_def prog_run split: sum.split option.split node.split)
  moreover have "cached_files v = []" if "epoch_of moment = Inr now" for now
    using False that by (auto simp: cached_files_def split: option.split node.split)
  ultimately show ?thesis by (auto split: sum.split)
next
  case True
  then obtain now es where now: "epoch_of moment = Inr now" and es: "cache_root v = Some (Dir es)" by blast
  obtain r kept where run: "purge_entries moment now (vt_db v) (sort_key fst es) = (r, kept)" by (metis surj_pair)
  let ?t = "set_cache_root kept v"
  have purge: "purge_expired_plaintext_cache moment v = (r, ?t)"
    by (simp add: purge_expired_plaintext_cache_def prog_run now es run)
  have "(CACHE_DIRNAME, Dir es) \<in> set (vt_files v)" using es by (auto simp: cache_root_def dest: map_of_SomeD)
  then have wf: "distinct (map fst es)" "e \<in> set es \<Longrightarrow> well_named (snd e)" for e using assms by force+
  have sorted: "distinct (map fst (sort_key fst es))"
    using wf(1) by (simp add: distinct_map)
  have look: "map_of (sort_key fst es) rid = map_of es rid" for rid
    using map_of_inject_set [OF sorted wf(1)] by simp
  have root: "cache_root ?t = Some (Dir kept)" and beside: "n = CACHE_DIRNAME \<or> map_of (vt_files ?t) n = map_of (vt_files v) n" for n
    by (simp_all add: cache_root_def set_cache_root_def put_entry_def dict_get_set)
  have db: "vt_db ?t = vt_db v" by (simp add: set_cache_root_def)
  have read: "read_plaintext_cache moment ?t rid eid = read_plaintext_cache moment v rid eid" for rid eid
    using entries_readable [OF sorted _ now run] wf(2) by (simp add: read_plaintext_cache_def db cache_dir_def root es look)
  have files: "length (cached_files v) = n + length (cached_files ?t) \<and> set (cached_files ?t) \<subseteq> covered moment (vt_db v)"
    if "r = Inr n" for n
  proof -
    have "length (node_files (Dir (sort_key fst es))) = length (node_files (Dir es))"
      using wf(1) sorted by (simp add: length_concat comp_def distinct_map sum_list_distinct_conv_sum_set)
    then show ?thesis using entries_files [OF run [unfolded that] now] by (simp add: cached_files_def root es count_files_def)
  qed
  show ?thesis unfolding purge using db beside read files by (auto split: sum.split)
qed

definition sample_optin :: dict where
  "sample_optin = optin_entry ''r'' ''1d'' ''2024-03-01T12:00:00Z'' (Some ''2024-03-02T12:00:00Z'')"

text \<open>A young file, an old one, the manifest, a directory without a relationship, and a stray file.\<close>

definition sample_vault :: vault where
  "sample_vault = \<lparr>vt_db = empty_db\<lparr>relationships := [(sample_relationship ''r'')\<lparr>rl_policy :=
       Some (JObj [(''retention'', JObj [(''plaintext_cache'', JObj sample_optin)])])\<rparr>]\<rparr>,
     vt_files = [(''plaintext_cache'', Dir [(''r'', Dir [(''young.json'', File [1] None 1709337500), (''old.json'', File [2] None 0),
       (''optin.json'', File [3] (Some (JObj sample_optin)) 0)]), (''q'', Dir [(''x.json'', File [4] None 1709337500)]),
       (''stray'', File [5] None 1709337500)]), (''state.db'', File [6] None 0)]\<rparr>"

theorem purge_takes_what_nobody_may_read_witness:
  "read_plaintext_cache ''2024-03-02T00:00:00Z'' (snd (purge_expired_plaintext_cache ''2024-03-02T00:00:00Z'' sample_vault))
     ''r'' ''young'' = Inr (Some [1]) \<and>
   read_plaintext_cache ''2024-03-02T00:00:00Z'' (snd (purge_expired_plaintext_cache ''2024-03-02T00:00:00Z'' sample_vault))
     ''r'' ''old'' = Inr None"
proof -
  have moment: "parse_canonical_utc ''2024-03-02T00:00:00Z'' = Inr 63844934400"
    and expiry: "parse_canonical_utc ''2024-03-02T12:00:00Z'' = Inr 63844977600" by (simp_all add: clock_eval)
  have "read_plaintext_cache ''2024-03-02T00:00:00Z'' sample_vault ''r'' ''young'' = Inr (Some [1])"
    "read_plaintext_cache ''2024-03-02T00:00:00Z'' sample_vault ''r'' ''old'' = Inr None"
    by (simp_all add: read_plaintext_cache_def read_dir_def cache_dir_def cache_root_def CACHE_DIRNAME_def sample_vault_def
        plaintext_cache_status_def policy_document_def relationship_of_def fetchone_def sample_relationship_def optin_of_def
        sample_optin_def optin_entry_def item_def in_force_def moment expiry file_name_def period_seconds_def
        PLAINTEXT_CACHE_PERIODS_def epoch_of_def too_old_def unix_epoch_def)
  moreover have "well_named (Dir (vt_files sample_vault))" by (simp add: sample_vault_def)
  ultimately show ?thesis
    using purge_takes_what_nobody_may_read [of sample_vault "''2024-03-02T00:00:00Z''"]
    by (simp split: prod.splits)
qed

end
