(* ===== verification/Pairing.thy ===== *)
theory Pairing
  imports Cards Scheduler
begin

text \<open>
  The pairing ceremony (\<open>model/invites.py\<close>): invites, acceptances, the verification by humans, the commit
  of the inviter and its ingestion by the acceptor.

  \<^item> \<open>pairing\<close> is the state database with the tables of the ceremony beside it. The JSON columns hold
    the parsed documents, which \<open>json.dumps\<close> and \<open>json.loads\<close> keep; a text of a document is
    stored in a TEXT column as its UTF-8.
  \<^item> \<open>site\<close> is the machine: the primitives, the clock (at least fifteen minutes before the last year
    ends), and whether the operating system unlinks and overwrites a file that is to be destroyed.
    Draws of ids and keys are arguments. The checks of the Python types of keys are absent.
  \<^item> \<open>BurnAndAbort\<close> is the subclass of \<open>PairingError\<close> that burns the invite after the rollback;
    \<open>SchemaError\<close> is a \<open>ValidationError\<close> and \<open>PairingRaised\<close> another class with its name.
\<close>

datatype pairing_exn = PairingError str | BurnAndAbort str | SchemaError | PairingRaised str

section \<open>Tables\<close>

record invite_row =
  iv_id :: str
  iv_state :: str
  iv_issued :: str
  iv_expires :: str

record acceptance_row =
  pa_id :: str
  pa_invite :: jval
  pa_acceptance :: jval
  pa_at :: str

record verification_row =
  pv_id :: str
  pv_inviter :: str
  pv_acceptor :: str
  pv_at :: str
  pv_approved :: bool

record deploy_row =
  dk_key :: str
  dk_rel :: str
  dk_at :: str

record pairing =
  pg_db :: db
  invites :: "invite_row list"
  invite_bodies :: "(str \<times> jval) list"
  pairing_acceptances :: "acceptance_row list"
  pairing_verifications :: "verification_row list"
  deploy_keys :: "deploy_row list"

type_synonym 'a ceremony = "(pairing, pairing_exn, 'a) prog"

record site =
  st_crypto :: crypto
  st_now :: rat
  st_unlinks :: bool
  st_wipes :: bool

definition pairing_txn :: "'a ceremony \<Rightarrow> 'a ceremony" where
  "pairing_txn p = (\<lambda>s. case p s of
     (Inl e, t) \<Rightarrow> (Inl e, s\<lparr>pg_db := rollback (pg_db s) (pg_db t)\<rparr>) | (Inr a, t) \<Rightarrow> (Inr a, t))"

text \<open>An INSERT that raises on a key already present, and an INSERT OR REPLACE.\<close>

definition add_row :: "('r \<Rightarrow> 'k) \<Rightarrow> 'r \<Rightarrow> (pairing \<Rightarrow> 'r list) \<Rightarrow> (('r list \<Rightarrow> 'r list) \<Rightarrow> pairing \<Rightarrow> pairing) \<Rightarrow> unit ceremony" where
  "add_row k r tab upd = (\<lambda>s. if k r \<in> set (map k (tab s)) then (Inl (PairingRaised ''IntegrityError''), s)
     else (Inr (), upd (\<lambda>t. t @ [r]) s))"

definition replace_row :: "('r \<Rightarrow> 'k) \<Rightarrow> 'r \<Rightarrow> 'r list \<Rightarrow> 'r list" where
  "replace_row k r t = delete_where (\<lambda>x. k x = k r) t @ [r]"

definition invite_of :: "str \<Rightarrow> pairing \<Rightarrow> invite_row option" where
  "invite_of iid s = fetchone (\<lambda>r. iv_id r = iid) (invites s)"

definition verification_of :: "str \<Rightarrow> pairing \<Rightarrow> verification_row option" where
  "verification_of iid s = fetchone (\<lambda>r. pv_id r = iid) (pairing_verifications s)"

text \<open>\<open>UPDATE invites SET state=new WHERE invite_id=iid AND state IN old\<close>.\<close>

definition move_invite :: "str \<Rightarrow> str set \<Rightarrow> str \<Rightarrow> pairing \<Rightarrow> pairing" where
  "move_invite iid old new s = s\<lparr>invites := update_where (\<lambda>r. iv_id r = iid \<and> iv_state r \<in> old)
     (\<lambda>r. r\<lparr>iv_state := new\<rparr>) (invites s)\<rparr>"

definition INVITE_STATES :: "str set" where
  "INVITE_STATES = {''issued'', ''accepted'', ''committed'', ''expired'', ''canceled''}"

section \<open>Constants and small helpers\<close>

definition INVITE_VERSION :: int where "INVITE_VERSION = 1"
definition ACCEPTANCE_VERSION :: int where "ACCEPTANCE_VERSION = 1"
definition COMMIT_VERSION :: int where "COMMIT_VERSION = 1"
definition INVITE_LIFETIME :: int where "INVITE_LIFETIME = 15 * 60"
definition MAX_CLOCK_SKEW :: int where "MAX_CLOCK_SKEW = 5 * 60"
definition INVITE_URI_SCHEME :: codes where "INVITE_URI_SCHEME = codes_of ''muse-agent-social://pair/v1#''"
definition MAX_INVITE_FILE_BYTES :: nat where "MAX_INVITE_FILE_BYTES = 262144"
definition MAX_INVITE_URI_BYTES :: nat where
  "MAX_INVITE_URI_BYTES = length INVITE_URI_SCHEME + MAX_INVITE_FILE_BYTES * 4 div 3 + 8"

text \<open>The UTF-8 of a text, as a column of the database.\<close>

definition column_text :: "codes \<Rightarrow> str" where
  "column_text t = map char_of (utf8_encode t)"

text \<open>A document as a JSON column; the schema of an invite admits no text in its policy.\<close>

fun json_of :: "jval \<Rightarrow> json" where
  "json_of (VBool b) = JBool b"
| "json_of (VInt i) = JInt i"
| "json_of (VStr t) = JStr (column_text t)"
| "json_of (VArr vs) = JArr (map json_of vs)"
| "json_of (VObj d) = JObj (map (\<lambda>e. (column_text (fst e), json_of (snd e))) d)"
| "json_of v = JNull"

text \<open>Python's \<open>==\<close> on parsed documents: a Boolean is a number, and an object has no order.\<close>

fun unbool :: "jval \<Rightarrow> jval" where
  "unbool (VBool b) = VInt (if b then 1 else 0)"
| "unbool (VArr vs) = VArr (map unbool vs)"
| "unbool (VObj d) = VObj (map (\<lambda>e. (fst e, unbool (snd e))) d)"
| "unbool v = v"

definition py_equal :: "jval \<Rightarrow> jval \<Rightarrow> bool" where
  "py_equal a b \<longleftrightarrow> canon (unbool a) = canon (unbool b)"

text \<open>Subscription, and a value that must be a text.\<close>

definition pick :: "jval \<Rightarrow> str \<Rightarrow> pairing_exn + jval" where
  "pick v k = (case v of
     VObj fs \<Rightarrow> (case map_of fs (codes_of k) of None \<Rightarrow> Inl (PairingRaised ''KeyError'') | Some x \<Rightarrow> Inr x)
   | _ \<Rightarrow> Inl (PairingRaised ''TypeError''))"

definition pick_text :: "jval \<Rightarrow> str \<Rightarrow> pairing_exn + codes" where
  "pick_text v k = bind_err (pick v k) (\<lambda>x. case x of VStr t \<Rightarrow> Inr t | _ \<Rightarrow> Inl (PairingRaised ''TypeError''))"

definition canonical :: "jval \<Rightarrow> pairing_exn + bytes" where
  "canonical v = (case restricted_jcs v of Inl e \<Rightarrow> Inl (PairingRaised (canon_exn e)) | Inr msg \<Rightarrow> Inr msg)"

definition fingerprint :: "crypto \<Rightarrow> jval \<Rightarrow> pairing_exn + str" where
  "fingerprint C v = (case card_fingerprint C v of Inl e \<Rightarrow> Inl (PairingRaised (canon_exn e)) | Inr f \<Rightarrow> Inr f)"

definition moment :: "jval \<Rightarrow> pairing_exn + instant" where
  "moment v = (case parse_timestamp v of None \<Rightarrow> Inl (PairingRaised ''ValueError'') | Some t \<Rightarrow> Inr t)"

definition validate :: "crypto \<Rightarrow> str \<Rightarrow> jval \<Rightarrow> pairing_exn + unit" where
  "validate C name v = (case schema_error C name v of None \<Rightarrow> Inr () | Some _ \<Rightarrow> Inl SchemaError)"

definition require_uuid4 :: "jval \<Rightarrow> pairing_exn + str" where
  "require_uuid4 v = (case v of
     VStr t \<Rightarrow> if uuid_matches (column_text t) then Inr (column_text t) else Inl (PairingError ''bad_uuid'')
   | _ \<Rightarrow> Inl (PairingError ''bad_uuid''))"

definition require_id :: "str \<Rightarrow> pairing_exn + unit" where
  "require_id i = (if uuid_matches i then Inr () else Inl (PairingError ''bad_uuid''))"

definition require_live_card :: "crypto \<Rightarrow> rat \<Rightarrow> jval \<Rightarrow> pairing_exn + unit" where
  "require_live_card C now doc = (case verify_card C now doc of
     Inl e \<Rightarrow> Inl (PairingRaised (canon_exn e))
   | Inr code \<Rightarrow> if code = ''VALID'' then Inr () else Inl (PairingError ''card_invalid''))"

definition card_matches_key :: "crypto \<Rightarrow> jval \<Rightarrow> bytes \<Rightarrow> pairing_exn + unit" where
  "card_matches_key C doc sk = (case identity_id_from_pubkey C (ed_public C sk) of
     None \<Rightarrow> Inl (PairingRaised ''ValueError'')
   | Some expected \<Rightarrow> (case doc of
       VObj fs \<Rightarrow> if card_field fs ''identity_id'' = VStr expected then Inr () else Inl (PairingError ''card_key_mismatch'')
     | _ \<Rightarrow> Inl (PairingRaised ''AttributeError'')))"

text \<open>A document with its signature added.\<close>

definition signed :: "crypto \<Rightarrow> bytes \<Rightarrow> fields \<Rightarrow> pairing_exn + jval" where
  "signed C sk fs = bind_err (canonical (VObj fs)) (\<lambda>msg.
     Inr (VObj (fs @ [(codes_of ''signature'', VStr (b64url_encode (ed_sign C sk msg)))])))"

definition verify_signature :: "crypto \<Rightarrow> jval \<Rightarrow> jval \<Rightarrow> jval \<Rightarrow> pairing_exn + unit" where
  "verify_signature C identity sig unsigned =
     (case (identity_key C identity, base64_value sig, restricted_jcs unsigned) of
        (Some pub, Some sg, Inr msg) \<Rightarrow>
          if length sg = 64 \<and> ed_verify C pub sg msg then Inr () else Inl (PairingError ''bad_signature'')
      | _ \<Rightarrow> Inl (PairingError ''bad_signature''))"

text \<open>\<open>str.strip\<close> on all of Unicode.\<close>

definition is_white :: "nat \<Rightarrow> bool" where
  "is_white c \<longleftrightarrow> (9 \<le> c \<and> c \<le> 13) \<or> (28 \<le> c \<and> c \<le> 32) \<or> (0x2000 \<le> c \<and> c \<le> 0x200A) \<or>
     c \<in> {133, 160, 0x1680, 0x2028, 0x2029, 0x202F, 0x205F, 0x3000}"

definition strip_codes :: "codes \<Rightarrow> codes" where
  "strip_codes t = rev (dropWhile is_white (rev (dropWhile is_white t)))"

fun occurs_in :: "codes \<Rightarrow> codes \<Rightarrow> bool" where
  "occurs_in p [] = (p = [])"
| "occurs_in p (c # t) = (starts_with p (c # t) \<or> occurs_in p t)"

definition PRIVATE_MARKERS :: "codes list" where
  "PRIVATE_MARKERS = [codes_of ''PRIVATE KEY'', codes_of ''openssh-key-v1'']"

definition reject_private_material :: "jval \<Rightarrow> pairing_exn + codes" where
  "reject_private_material v = (case v of
     VStr t \<Rightarrow> if (\<exists>m \<in> set PRIVATE_MARKERS. occurs_in m t) \<or> starts_with (codes_of ''-----BEGIN'') (strip_codes t)
       then Inl (PairingError ''private_key_material'') else Inr t
   | _ \<Rightarrow> Inl (PairingError ''private_key_material''))"

definition SSH_ALGORITHMS :: "codes list" where
  "SSH_ALGORITHMS = map codes_of [''ssh-ed25519'', ''ssh-rsa'', ''ssh-dss'', ''ecdsa-sha2-nistp256'', ''ecdsa-sha2-nistp384'',
     ''ecdsa-sha2-nistp521'', ''sk-ssh-ed25519@openssh.com'', ''sk-ecdsa-sha2-nistp256@openssh.com'']"

definition is_key_char :: "nat \<Rightarrow> bool" where
  "is_key_char c \<longleftrightarrow> (65 \<le> c \<and> c \<le> 90) \<or> (97 \<le> c \<and> c \<le> 122) \<or> (48 \<le> c \<and> c \<le> 57) \<or> c = 43 \<or> c = 47 \<or> c = 61"

text \<open>What may follow the key: nothing or a comment, and \<open>$\<close> admits one line end.\<close>

definition key_tail :: "codes \<Rightarrow> bool" where
  "key_tail t \<longleftrightarrow> t = [] \<or> t = [10] \<or>
     (hd t = 32 \<and> 10 \<notin> set (butlast t))"

definition ssh_pubkey_matches :: "codes \<Rightarrow> bool" where
  "ssh_pubkey_matches t \<longleftrightarrow> (\<exists>a \<in> set SSH_ALGORITHMS. starts_with (a @ [32]) t \<and>
     (let r = drop (length a + 1) t in takeWhile is_key_char r \<noteq> [] \<and> key_tail (dropWhile is_key_char r)))"

definition invite_hash :: "crypto \<Rightarrow> jval \<Rightarrow> pairing_exn + codes" where
  "invite_hash C invite = bind_err (canonical invite) (\<lambda>msg. Inr (b64url_encode (sha256 C msg)))"

definition check_slot :: "fields \<Rightarrow> str \<Rightarrow> pairing_exn + codes" where
  "check_slot fs k = (case card_field fs k of
     VStr t \<Rightarrow> if t = [] \<or> (\<exists>c \<in> set t. 128 \<le> c) \<or> length t > 128 then Inl (PairingError ''bad_slots'') else Inr t
   | _ \<Rightarrow> Inl (PairingError ''bad_slots''))"

definition check_slots :: "jval \<Rightarrow> pairing_exn + fields" where
  "check_slots v = (case v of
     VObj fs \<Rightarrow> bind_err (check_slot fs ''inviter_send_slot'') (\<lambda>a. bind_err (check_slot fs ''inviter_receive_slot'') (\<lambda>b.
       if a = b then Inl (PairingError ''bad_slots'')
       else Inr [(codes_of ''inviter_send_slot'', VStr a), (codes_of ''inviter_receive_slot'', VStr b)]))
   | _ \<Rightarrow> Inl (PairingError ''bad_slots''))"

definition check_relay_url :: "jval \<Rightarrow> pairing_exn + codes" where
  "check_relay_url v = (case v of
     VStr t \<Rightarrow> if starts_with (codes_of ''https://'') t \<or> starts_with (codes_of ''git@'') t then Inr t
       else Inl (PairingError ''bad_relay_url'')
   | _ \<Rightarrow> Inl (PairingError ''bad_relay_url''))"

definition checked_capabilities :: "jval \<Rightarrow> pairing_exn + codes list" where
  "checked_capabilities v = (case Option.bind (capability_list v) normalize_capabilities of
     None \<Rightarrow> Inl (PairingError ''bad_capability'') | Some caps \<Rightarrow> Inr caps)"

text \<open>Iteration over a parsed value, and the texts of \<open>set(...)\<close> of it.\<close>

definition iterated :: "jval \<Rightarrow> pairing_exn + jval list" where
  "iterated v = (case v of
     VArr vs \<Rightarrow> Inr vs | VStr t \<Rightarrow> Inr (map (\<lambda>c. VStr [c]) t) | VObj fs \<Rightarrow> Inr (map (\<lambda>e. VStr (fst e)) fs)
   | _ \<Rightarrow> Inl (PairingRaised ''TypeError''))"

definition hashable :: "jval \<Rightarrow> bool" where
  "hashable v \<longleftrightarrow> (case v of VArr _ \<Rightarrow> False | VObj _ \<Rightarrow> False | _ \<Rightarrow> True)"

definition set_of_values :: "jval \<Rightarrow> pairing_exn + jval list" where
  "set_of_values v = bind_err (iterated v) (\<lambda>vs. if list_all hashable vs then Inr vs else Inl (PairingRaised ''TypeError''))"

section \<open>Invites\<close>

definition unsigned_invite :: "codes \<Rightarrow> jval \<Rightarrow> codes \<Rightarrow> codes list \<Rightarrow> jval \<Rightarrow> rat \<Rightarrow> fields" where
  "unsigned_invite iid doc ephemeral caps policy now =
     [(codes_of ''invite_version'', VInt INVITE_VERSION), (codes_of ''invite_id'', VStr iid),
      (codes_of ''inviter_card'', doc), (codes_of ''ephemeral_agreement_key'', VStr ephemeral),
      (codes_of ''requested_capabilities'', VArr (map VStr caps)), (codes_of ''requested_policy'', policy),
      (codes_of ''issued_at'', VStr (codes_of (stamp_text now))),
      (codes_of ''expires_at'', VStr (codes_of (stamp_text (now + of_int INVITE_LIFETIME))))]"

definition agreement_text :: "crypto \<Rightarrow> bytes \<Rightarrow> pairing_exn + codes" where
  "agreement_text C sk = (case agreement_key_multibase_from_pubkey C (x_public C sk) of
     None \<Rightarrow> Inl (PairingRaised ''ValueError'') | Some k \<Rightarrow> Inr k)"

definition build_invite :: "site \<Rightarrow> str \<Rightarrow> jval \<Rightarrow> bytes \<Rightarrow> bytes \<Rightarrow> codes list \<Rightarrow> jval \<Rightarrow> pairing_exn + jval" where
  "build_invite E iid doc sk ephemeral capabilities policy = (let C = st_crypto E in
     bind_err (require_live_card C (st_now E) doc) (\<lambda>_.
     bind_err (card_matches_key C doc sk) (\<lambda>_.
     case normalize_capabilities capabilities of None \<Rightarrow> Inl (PairingError ''bad_capability'') | Some caps \<Rightarrow>
     (case policy of
        VObj _ \<Rightarrow>
          bind_err (agreement_text C ephemeral) (\<lambda>key.
          bind_err (signed C sk (unsigned_invite (codes_of iid) doc key caps policy (st_now E))) (\<lambda>invite.
          bind_err (validate C ''invite'' invite) (\<lambda>_. Inr invite)))
      | _ \<Rightarrow> Inl (PairingError ''bad_policy'')))))"

definition create_invite :: "site \<Rightarrow> str \<Rightarrow> jval \<Rightarrow> bytes \<Rightarrow> bytes \<Rightarrow> codes list \<Rightarrow> jval \<Rightarrow> jval ceremony" where
  "create_invite E iid doc sk ephemeral capabilities policy =
     seq (lift (build_invite E iid doc sk ephemeral capabilities policy)) (\<lambda>invite.
     seq (pairing_txn
       (seq (add_row iv_id \<lparr>iv_id = iid, iv_state = ''issued'', iv_issued = stamp_text (st_now E),
           iv_expires = stamp_text (st_now E + of_int INVITE_LIFETIME)\<rparr> invites invites_update) (\<lambda>_.
         add_row fst (iid, invite) invite_bodies invite_bodies_update))) (\<lambda>_.
     ret invite))"

definition invite_uri :: "jval \<Rightarrow> pairing_exn + codes" where
  "invite_uri invite = (case invite of
     VObj fs \<Rightarrow> bind_err (canonical (VObj fs)) (\<lambda>msg. Inr (INVITE_URI_SCHEME @ b64url_encode msg))
   | _ \<Rightarrow> Inl (PairingError ''bad_invite''))"

text \<open>What both readers share; \<open>bad\<close> is the code for what is no JSON object.\<close>

definition parsed_invite :: "crypto \<Rightarrow> (codes \<Rightarrow> bool) \<Rightarrow> nat \<Rightarrow> str \<Rightarrow> bytes \<Rightarrow> pairing_exn + jval" where
  "parsed_invite C fin d bad raw = (case strict_parse fin d raw of
     Inl IntegerDigits \<Rightarrow> Inl (PairingRaised ''ValueError'')
   | Inl _ \<Rightarrow> Inl (PairingError bad)
   | Inr (VObj fs) \<Rightarrow> bind_err (validate C ''invite'' (VObj fs)) (\<lambda>_. Inr (VObj fs))
   | Inr _ \<Rightarrow> Inl (PairingError bad))"

definition parse_invite_uri :: "crypto \<Rightarrow> (codes \<Rightarrow> bool) \<Rightarrow> nat \<Rightarrow> codes \<Rightarrow> pairing_exn + jval" where
  "parse_invite_uri C fin d uri =
     (if \<not> starts_with INVITE_URI_SCHEME uri then Inl (PairingError ''bad_invite_uri'')
      else if length uri > MAX_INVITE_URI_BYTES then Inl (PairingError ''invite_too_large'')
      else case b64url_decode (drop (length INVITE_URI_SCHEME) uri) of
        None \<Rightarrow> Inl (PairingError ''bad_invite_uri'')
      | Some raw \<Rightarrow> parsed_invite C fin d ''bad_invite_uri'' raw)"

definition invite_from_raw :: "crypto \<Rightarrow> (codes \<Rightarrow> bool) \<Rightarrow> nat \<Rightarrow> bytes \<Rightarrow> pairing_exn + jval" where
  "invite_from_raw C fin d raw = parsed_invite C fin d ''bad_invite_file'' raw"

definition parse_invite_json :: "crypto \<Rightarrow> (codes \<Rightarrow> bool) \<Rightarrow> nat \<Rightarrow> codes \<Rightarrow> pairing_exn + jval" where
  "parse_invite_json C fin d t = (if \<exists>c \<in> set t. is_surrogate c then Inl (PairingRaised ''UnicodeEncodeError'')
     else invite_from_raw C fin d (utf8_encode t))"

definition read_invite_file :: "crypto \<Rightarrow> (codes \<Rightarrow> bool) \<Rightarrow> nat \<Rightarrow> bytes \<Rightarrow> pairing_exn + jval" where
  "read_invite_file C fin d content = (let raw = take (MAX_INVITE_FILE_BYTES + 1) content in
     if length raw > MAX_INVITE_FILE_BYTES then Inl (PairingError ''invite_too_large'') else invite_from_raw C fin d raw)"

definition check_lifetime :: "rat \<Rightarrow> instant \<Rightarrow> instant \<Rightarrow> pairing_exn + unit" where
  "check_lifetime now issued expires =
     (if expires - issued > INVITE_LIFETIME then Inl (PairingError ''lifetime_exceeded'')
      else if of_int issued > now + of_int MAX_CLOCK_SKEW then Inl (PairingError ''clock_skew'')
      else if now \<ge> of_int expires then Inl (PairingError ''expired'') else Inr ())"

definition check_invite_pure :: "crypto \<Rightarrow> rat \<Rightarrow> jval \<Rightarrow> pairing_exn + unit" where
  "check_invite_pure C now invite =
     bind_err (validate C ''invite'' invite) (\<lambda>_.
     bind_err (pick invite ''inviter_card'') (\<lambda>doc.
     bind_err (require_live_card C now doc) (\<lambda>_.
     bind_err (pick doc ''identity_id'') (\<lambda>identity.
     bind_err (pick invite ''signature'') (\<lambda>sig.
     bind_err (verify_signature C identity sig (without_signature invite)) (\<lambda>_.
     bind_err (bind_err (pick invite ''issued_at'') moment) (\<lambda>issued.
     bind_err (bind_err (pick invite ''expires_at'') moment) (\<lambda>expires.
     check_lifetime now issued expires))))))))"

definition invite_id_of :: "jval \<Rightarrow> jval" where
  "invite_id_of invite = (case invite of VObj fs \<Rightarrow> card_field fs ''invite_id'' | _ \<Rightarrow> VNull)"

definition note_expiry :: "jval \<Rightarrow> pairing_exn \<Rightarrow> pairing \<Rightarrow> pairing" where
  "note_expiry v e = (case v of
     VStr t \<Rightarrow> if e = PairingError ''expired'' \<and> t \<noteq> [] then move_invite (column_text t) {''issued''} ''expired'' else id
   | _ \<Rightarrow> id)"

definition preview_invite :: "site \<Rightarrow> jval \<Rightarrow> str ceremony" where
  "preview_invite E invite =
     seq (case check_invite_pure (st_crypto E) (st_now E) invite of
       Inr _ \<Rightarrow> ret () | Inl e \<Rightarrow> seq (exec (note_expiry (invite_id_of invite) e)) (\<lambda>_. raise e)) (\<lambda>_.
     seq (lift (require_uuid4 (invite_id_of invite))) (\<lambda>iid.
     seq (query (invite_of iid)) (\<lambda>row. case row of
       None \<Rightarrow> raise (PairingError ''unknown_invite'')
     | Some r \<Rightarrow> if iv_state r \<noteq> ''issued'' then raise (PairingError ''already_used'') else ret iid)))"

text \<open>\<open>UPDATE\<close> of an issued invite to accepted, and the rows it changed.\<close>

definition claim_invite :: "str \<Rightarrow> nat ceremony" where
  "claim_invite iid =
     seq (query (\<lambda>s. rowcount (\<lambda>r. iv_id r = iid \<and> iv_state r \<in> {''issued''}) (invites s))) (\<lambda>n.
     seq (exec (move_invite iid {''issued''} ''accepted'')) (\<lambda>_. ret n))"

definition validate_invite :: "site \<Rightarrow> jval \<Rightarrow> unit ceremony" where
  "validate_invite E invite =
     seq (preview_invite E invite) (\<lambda>iid.
     pairing_txn (seq (claim_invite iid) (\<lambda>n. if n \<noteq> 1 then raise (PairingError ''already_used'') else ret ())))"

definition reset_invite_for_retry :: "str \<Rightarrow> unit ceremony" where
  "reset_invite_for_retry iid =
     pairing_txn (seq (query (invite_of iid)) (\<lambda>row. case row of
       None \<Rightarrow> ret ()
     | Some r \<Rightarrow> if iv_state r = ''accepted'' then exec (move_invite iid INVITE_STATES ''issued'') else ret ()))"

section \<open>Keys of the acceptor\<close>

text \<open>The OpenSSH forms of an Ed25519 key, and what loading a stored private key finds.\<close>

datatype loaded_key = BadKey | OtherKey | Ed25519Key bytes

record ssh =
  ssh_private :: "bytes \<Rightarrow> bytes"
  ssh_public :: "bytes \<Rightarrow> str"
  ssh_load :: "bytes \<Rightarrow> loaded_key"

definition generate_relationship_keypair :: "crypto \<Rightarrow> bytes \<Rightarrow> pairing_exn + bytes \<times> codes" where
  "generate_relationship_keypair C sk = bind_err (agreement_text C sk) (\<lambda>k. Inr (sk, k))"

definition store_key :: "str \<Rightarrow> bytes \<Rightarrow> unit ceremony" where
  "store_key path data = (\<lambda>s. if path \<in> set (map fst (key_files (pg_db s))) then (Inl (PairingRaised ''FileExistsError''), s)
     else (Inr (), s\<lparr>pg_db := (pg_db s)\<lparr>key_files := key_files (pg_db s) @ [(path, data)]\<rparr>\<rparr>))"

definition generate_deploy_keypair :: "ssh \<Rightarrow> str \<Rightarrow> bytes \<Rightarrow> str ceremony" where
  "generate_deploy_keypair H path sk = seq (store_key path (ssh_private H sk)) (\<lambda>_. ret (strip (ssh_public H sk)))"

definition load_or_generate_deploy_keypair :: "ssh \<Rightarrow> str \<Rightarrow> bytes \<Rightarrow> str ceremony" where
  "load_or_generate_deploy_keypair H path sk =
     seq (query (\<lambda>s. map_of (key_files (pg_db s)) path)) (\<lambda>stored. case stored of
       None \<Rightarrow> generate_deploy_keypair H path sk
     | Some data \<Rightarrow> (case ssh_load H data of
         Ed25519Key k \<Rightarrow> ret (strip (ssh_public H k))
       | _ \<Rightarrow> raise (PairingError ''bad_deploy_key'')))"

section \<open>The acceptance\<close>

definition unsigned_acceptance :: "jval \<Rightarrow> codes \<Rightarrow> jval \<Rightarrow> codes \<Rightarrow> codes \<Rightarrow> rat \<Rightarrow> fields" where
  "unsigned_acceptance iid hash doc agreement deploy now =
     [(codes_of ''acceptance_version'', VInt ACCEPTANCE_VERSION), (codes_of ''invite_id'', iid),
      (codes_of ''invite_hash'', VStr hash), (codes_of ''acceptor_card'', doc),
      (codes_of ''relationship_agreement_key'', VStr agreement), (codes_of ''deploy_public_key'', VStr deploy),
      (codes_of ''accepted_at'', VStr (codes_of (stamp_text now)))]"

definition build_acceptance :: "site \<Rightarrow> jval \<Rightarrow> jval \<Rightarrow> bytes \<Rightarrow> jval \<Rightarrow> jval \<Rightarrow> pairing_exn + jval" where
  "build_acceptance E invite doc sk agreement deploy = (let C = st_crypto E in
     bind_err (check_invite_pure C (st_now E) invite) (\<lambda>_.
     bind_err (require_live_card C (st_now E) doc) (\<lambda>_.
     bind_err (card_matches_key C doc sk) (\<lambda>_.
     bind_err (reject_private_material agreement) (\<lambda>akey.
     if parse_agreement_key C akey = None then Inl (PairingError ''bad_agreement_key'') else
     bind_err (reject_private_material deploy) (\<lambda>dkey.
     if \<not> ssh_pubkey_matches dkey then Inl (PairingError ''bad_deploy_key'') else
     bind_err (pick invite ''invite_id'') (\<lambda>iid.
     bind_err (invite_hash C invite) (\<lambda>hash.
     bind_err (signed C sk (unsigned_acceptance iid hash doc akey dkey (st_now E))) (\<lambda>acceptance.
     bind_err (validate C ''invite-acceptance'' acceptance) (\<lambda>_. Inr acceptance))))))))))"

definition create_acceptance :: "site \<Rightarrow> jval \<Rightarrow> jval \<Rightarrow> bytes \<Rightarrow> jval \<Rightarrow> jval \<Rightarrow> jval ceremony" where
  "create_acceptance E invite doc sk agreement deploy =
     seq (lift (build_acceptance E invite doc sk agreement deploy)) (\<lambda>acceptance.
     seq (lift (pick_text invite ''invite_id'')) (\<lambda>iid.
     seq (exec (pairing_acceptances_update (replace_row pa_id \<lparr>pa_id = column_text iid, pa_invite = invite,
       pa_acceptance = acceptance, pa_at = stamp_text (st_now E)\<rparr>))) (\<lambda>_.
     ret acceptance)))"

section \<open>The verification\<close>

text \<open>The words are the file's or the caller's; \<open>None\<close> is a \<open>ValueError\<close>.\<close>

definition pairing_phrase :: "crypto \<Rightarrow> codes list \<Rightarrow> jval \<Rightarrow> jval \<Rightarrow> pairing_exn + codes list" where
  "pairing_phrase C words inviter_card acceptor_card =
     bind_err (pick inviter_card ''identity_id'') (\<lambda>a. bind_err (pick acceptor_card ''identity_id'') (\<lambda>b.
       case (a, b) of
         (VStr x, VStr y) \<Rightarrow> (case verification_phrase C x y words of
            None \<Rightarrow> Inl (PairingRaised ''ValueError'') | Some p \<Rightarrow> Inr p)
       | _ \<Rightarrow> Inl (PairingRaised ''ValueError'')))"

definition burn_invite :: "str \<Rightarrow> str ceremony" where
  "burn_invite iid =
     seq (lift (require_id iid)) (\<lambda>_.
     pairing_txn (seq (query (invite_of iid)) (\<lambda>row. case row of
       None \<Rightarrow> raise (PairingError ''unknown_invite'')
     | Some r \<Rightarrow> seq (exec (if iv_state r \<in> {''issued'', ''accepted''} then move_invite iid INVITE_STATES ''canceled'' else id))
         (\<lambda>_. ret (iv_state r)))))"

definition is_fingerprint :: "str \<Rightarrow> bool" where
  "is_fingerprint f \<longleftrightarrow> length f = 64 \<and> (\<forall>c \<in> set f. c \<in> set ''0123456789abcdef'')"

text \<open>Why the invite must be burned, if it must.\<close>

definition altered :: "crypto \<Rightarrow> jval option \<Rightarrow> str \<Rightarrow> str \<Rightarrow> pairing_exn + bool" where
  "altered C doc k print = (case doc of None \<Rightarrow> Inr False
     | Some d \<Rightarrow> bind_err (bind_err (pick d k) (fingerprint C)) (\<lambda>f. Inr (f \<noteq> print)))"

definition burn_reason :: "crypto \<Rightarrow> jval option \<Rightarrow> jval option \<Rightarrow> str \<Rightarrow> str \<Rightarrow> bool \<Rightarrow> pairing_exn + str option" where
  "burn_reason C invite acceptance inviter acceptor approved =
     bind_err (altered C invite ''inviter_card'' inviter) (\<lambda>a.
     bind_err (if a then Inr True else altered C acceptance ''acceptor_card'' acceptor) (\<lambda>b.
     Inr (if b then Some ''altered_card'' else if \<not> approved then Some ''phrase_mismatch'' else None)))"

definition acceptance_of :: "str \<Rightarrow> pairing \<Rightarrow> jval option" where
  "acceptance_of iid s = map_option pa_acceptance (fetchone (\<lambda>r. pa_id r = iid) (pairing_acceptances s))"

definition write_verification :: "site \<Rightarrow> str \<Rightarrow> str \<Rightarrow> str \<Rightarrow> bool \<Rightarrow> pairing \<Rightarrow> pairing" where
  "write_verification E iid inviter acceptor approved = pairing_verifications_update (replace_row pv_id
     \<lparr>pv_id = iid, pv_inviter = inviter, pv_acceptor = acceptor, pv_at = stamp_text (st_now E), pv_approved = approved\<rparr>)"

definition record_verification :: "site \<Rightarrow> str \<Rightarrow> str \<Rightarrow> str \<Rightarrow> bool \<Rightarrow> unit ceremony" where
  "record_verification E iid inviter acceptor approved =
     seq (lift (require_id iid)) (\<lambda>_.
     if \<not> is_fingerprint inviter \<or> \<not> is_fingerprint acceptor then raise (PairingError ''bad_fingerprints'') else
     seq (pairing_txn (seq (query (invite_of iid)) (\<lambda>row. case row of
         None \<Rightarrow> raise (PairingError ''unknown_invite'')
       | Some r \<Rightarrow>
           seq (query (\<lambda>s. burn_reason (st_crypto E) (map_of (invite_bodies s) iid) (acceptance_of iid s) inviter acceptor approved)) (\<lambda>why.
           seq (lift why) (\<lambda>burn. case burn of
             Some code \<Rightarrow> ret burn
           | None \<Rightarrow>
               if iv_state r = ''committed'' then raise (PairingError ''already_committed'')
               else seq (exec (write_verification E iid inviter acceptor True)) (\<lambda>_. ret None)))))) (\<lambda>burn.
     case burn of
       None \<Rightarrow> ret ()
     | Some code \<Rightarrow> seq (burn_invite iid) (\<lambda>_. raise (PairingError code))))"

definition record_displayed_phrase :: "site \<Rightarrow> str \<Rightarrow> str \<Rightarrow> str \<Rightarrow> unit ceremony" where
  "record_displayed_phrase E iid inviter acceptor =
     seq (lift (require_id iid)) (\<lambda>_.
     pairing_txn (seq (query (invite_of iid)) (\<lambda>row. case row of
       None \<Rightarrow> raise (PairingError ''unknown_invite'')
     | Some r \<Rightarrow>
         if iv_state r = ''committed'' then raise (PairingError ''already_committed'')
         else exec (write_verification E iid inviter acceptor False))))"

definition confirm_verification :: "site \<Rightarrow> str \<Rightarrow> str \<Rightarrow> str \<Rightarrow> unit ceremony" where
  "confirm_verification E iid inviter acceptor =
     seq (lift (require_id iid)) (\<lambda>_.
     pairing_txn (seq (query (verification_of iid)) (\<lambda>row. case row of
       None \<Rightarrow> raise (PairingError ''no_phrase_displayed'')
     | Some v \<Rightarrow>
         if pv_inviter v \<noteq> inviter \<or> pv_acceptor v \<noteq> acceptor then raise (PairingError ''phrase_record_mismatch'')
         else if pv_approved v then ret ()
         else exec (pairing_verifications_update (update_where (\<lambda>x. pv_id x = iid)
           (\<lambda>x. x\<lparr>pv_approved := True, pv_at := stamp_text (st_now E)\<rparr>))))))"

section \<open>The commit of the inviter\<close>

text \<open>\<open>cq_fresh\<close> is the id that is drawn if the caller gives none, \<open>cq_secret\<close> the new agreement key.\<close>

record commit_request =
  cq_acceptance :: jval
  cq_relay :: jval
  cq_slots :: jval
  cq_capabilities :: "codes list"
  cq_keys_dir :: str
  cq_rel :: "str option"
  cq_fresh :: str
  cq_secret :: bytes
  cq_claim :: bool

definition path_join :: "str \<Rightarrow> str \<Rightarrow> str" where
  "path_join dir name = (if dir = [] \<or> last dir = CHR ''/'' then dir @ name else dir @ ''/'' @ name)"

definition pairing_key_path :: "str \<Rightarrow> str \<Rightarrow> str" where
  "pairing_key_path dir rid = path_join (path_join dir rid) ''epoch1.key''"

text \<open>\<open>delete_private_key\<close> and whether it answers that the key is gone.\<close>

definition destroy :: "site \<Rightarrow> str \<Rightarrow> bool ceremony" where
  "destroy E path = (\<lambda>s. if path \<notin> set (map fst (key_files (pg_db s))) then (Inr True, s)
     else (Inr (st_unlinks E \<and> st_wipes E), if st_unlinks E then s\<lparr>pg_db := delete_private_key path (pg_db s)\<rparr> else s))"

definition destroy_pairing_key :: "site \<Rightarrow> str \<Rightarrow> unit ceremony" where
  "destroy_pairing_key E path =
     seq (destroy E path) (\<lambda>gone. if gone then ret () else raise (PairingError ''key_destruction_failed''))"

definition reconcile_orphan_pairing_key :: "site \<Rightarrow> str \<Rightarrow> str \<Rightarrow> unit ceremony" where
  "reconcile_orphan_pairing_key E rid path =
     seq (query (\<lambda>s. (\<exists>r \<in> set (relationships (pg_db s)). rl_id r = rid) \<or>
       (\<exists>k \<in> set (key_epochs (pg_db s)). ek_rel k = rid \<and> ek_epoch k = 1))) (\<lambda>owned.
     if owned then raise (PairingRaised ''FileExistsError'') else destroy_pairing_key E path)"

definition store_pairing_key :: "site \<Rightarrow> str \<Rightarrow> str \<Rightarrow> bytes \<Rightarrow> unit ceremony" where
  "store_pairing_key E rid path data =
     seq (query (\<lambda>s. path \<in> set (map fst (key_files (pg_db s))))) (\<lambda>taken.
     if taken then seq (reconcile_orphan_pairing_key E rid path) (\<lambda>_. store_key path data) else store_key path data)"

text \<open>The state the invite must be in, and the claim.\<close>

definition claim_for_commit :: "site \<Rightarrow> bool \<Rightarrow> str \<Rightarrow> jval \<Rightarrow> str \<Rightarrow> unit ceremony" where
  "claim_for_commit E claim iid invite state =
     (if claim then
        seq (lift (check_invite_pure (st_crypto E) (st_now E) invite)) (\<lambda>_.
        seq (claim_invite iid) (\<lambda>n. if n \<noteq> 1 then raise (PairingError ''invite_not_issued'') else ret ()))
      else if state \<noteq> ''accepted'' then raise (PairingError ''invite_not_accepted'')
      else lift (bind_err (bind_err (pick invite ''expires_at'') moment) (\<lambda>expires.
        if st_now E \<ge> of_int expires then Inl (PairingError ''expired'') else Inr ())))"

definition check_answers :: "crypto \<Rightarrow> jval \<Rightarrow> jval \<Rightarrow> pairing_exn + unit" where
  "check_answers C acceptance invite =
     bind_err (pick acceptance ''invite_hash'') (\<lambda>given. bind_err (invite_hash C invite) (\<lambda>hash.
       if given \<noteq> VStr hash then Inl (BurnAndAbort ''invite_hash_mismatch'') else Inr ()))"

definition check_verified :: "crypto \<Rightarrow> jval \<Rightarrow> jval \<Rightarrow> verification_row option \<Rightarrow> pairing_exn + unit" where
  "check_verified C doc invite v = (case v of
     None \<Rightarrow> Inl (PairingError ''unverified'')
   | Some v \<Rightarrow>
       if \<not> pv_approved v then Inl (PairingError ''unverified'') else
       bind_err (fingerprint C doc) (\<lambda>a.
       if a \<noteq> pv_acceptor v then Inl (BurnAndAbort ''acceptor_card_changed'') else
       bind_err (bind_err (pick invite ''inviter_card'') (fingerprint C)) (\<lambda>b.
       if b \<noteq> pv_inviter v then Inl (BurnAndAbort ''inviter_card_changed'') else Inr ())))"

definition check_acceptance :: "crypto \<Rightarrow> rat \<Rightarrow> jval \<Rightarrow> jval \<Rightarrow> jval \<Rightarrow> pairing_exn + unit" where
  "check_acceptance C now acceptance doc invite =
     bind_err (require_live_card C now doc) (\<lambda>_.
     bind_err (pick doc ''identity_id'') (\<lambda>identity.
     bind_err (pick acceptance ''signature'') (\<lambda>sig.
     bind_err (verify_signature C identity sig (without_signature acceptance)) (\<lambda>_.
     bind_err (bind_err (pick acceptance ''accepted_at'') moment) (\<lambda>accepted.
     if of_int accepted > now + of_int MAX_CLOCK_SKEW then Inl (BurnAndAbort ''clock_skew'') else
     bind_err (bind_err (pick invite ''issued_at'') moment) (\<lambda>issued.
     if accepted < issued then Inl (BurnAndAbort ''accepted_before_issued'') else Inr ()))))))"

definition check_keys :: "crypto \<Rightarrow> (str \<Rightarrow> bool) \<Rightarrow> jval \<Rightarrow> pairing_exn + codes \<times> codes" where
  "check_keys C used acceptance =
     bind_err (bind_err (pick acceptance ''deploy_public_key'') reject_private_material) (\<lambda>key.
     if \<not> ssh_pubkey_matches key then Inl (BurnAndAbort ''bad_deploy_key'')
     else if used (column_text key) then Inl (BurnAndAbort ''deploy_key_reused'') else
     bind_err (pick acceptance ''relationship_agreement_key'') (\<lambda>v. case v of
       VStr agreement \<Rightarrow> if parse_agreement_key C agreement = None then Inl (BurnAndAbort ''bad_agreement_key'')
         else Inr (key, agreement)
     | _ \<Rightarrow> Inl (BurnAndAbort ''bad_agreement_key'')))"

definition check_negotiated :: "codes list \<Rightarrow> jval \<Rightarrow> jval \<Rightarrow> jval \<Rightarrow> pairing_exn + unit" where
  "check_negotiated negotiated requested acceptor_caps inviter_caps =
     bind_err (set_of_values acceptor_caps) (\<lambda>theirs.
     bind_err (set_of_values inviter_caps) (\<lambda>ours.
     bind_err (iterated requested) (\<lambda>wanted.
     if \<not> set wanted \<subseteq> VStr ` set negotiated then Inl (BurnAndAbort ''unsupported_capability'')
     else if \<not> VStr ` set negotiated \<subseteq> set theirs \<inter> set ours then Inl (BurnAndAbort ''unsupported_capability'')
     else Inr ())))"

text \<open>Everything the commit checks after the claim: the identity, the name and the two keys of the peer.\<close>

record partner =
  pt_identity :: codes
  pt_name :: codes
  pt_deploy :: codes
  pt_agreement :: codes

definition partner_of :: "site \<Rightarrow> bytes \<Rightarrow> jval \<Rightarrow> jval \<Rightarrow> codes list \<Rightarrow> verification_row option \<Rightarrow> (str \<Rightarrow> bool) \<Rightarrow> pairing_exn + partner" where
  "partner_of E sk acceptance invite negotiated v used = (let C = st_crypto E in
     bind_err (check_answers C acceptance invite) (\<lambda>_.
     bind_err (pick acceptance ''acceptor_card'') (\<lambda>doc.
     bind_err (check_verified C doc invite v) (\<lambda>_.
     bind_err (check_acceptance C (st_now E) acceptance doc invite) (\<lambda>_.
     bind_err (pick invite ''inviter_card'') (\<lambda>own.
     bind_err (card_matches_key C own sk) (\<lambda>_.
     bind_err (check_keys C used acceptance) (\<lambda>keys.
     bind_err (pick invite ''requested_capabilities'') (\<lambda>requested.
     bind_err (pick doc ''capabilities'') (\<lambda>theirs.
     bind_err (pick own ''capabilities'') (\<lambda>ours.
     bind_err (check_negotiated negotiated requested theirs ours) (\<lambda>_.
     bind_err (pick_text doc ''identity_id'') (\<lambda>identity.
     bind_err (pick_text doc ''display_name'') (\<lambda>name.
     Inr \<lparr>pt_identity = identity, pt_name = name, pt_deploy = fst keys, pt_agreement = snd keys\<rparr>))))))))))))))"

definition unsigned_commit :: "str \<Rightarrow> str \<Rightarrow> codes \<Rightarrow> fields \<Rightarrow> codes list \<Rightarrow> codes \<Rightarrow> rat \<Rightarrow> fields" where
  "unsigned_commit rid iid relay_url slots negotiated agreement now =
     [(codes_of ''commit_version'', VInt COMMIT_VERSION), (codes_of ''relationship_id'', VStr (codes_of rid)),
      (codes_of ''invite_id'', VStr (codes_of iid)), (codes_of ''repository_url'', VStr relay_url), (codes_of ''slots'', VObj slots),
      (codes_of ''negotiated_capabilities'', VArr (map VStr negotiated)),
      (codes_of ''initial_key_epochs'', VArr [VObj [(codes_of ''epoch'', VInt 1), (codes_of ''agreement_public_key'', VStr agreement)]]),
      (codes_of ''committed_at'', VStr (codes_of (stamp_text now)))]"

definition pending_relationship :: "str \<Rightarrow> codes \<Rightarrow> codes \<Rightarrow> codes \<Rightarrow> jval \<Rightarrow> relationship_row" where
  "pending_relationship rid identity name agreement policy = \<lparr>rl_id = rid, rl_peer = column_text identity,
     rl_consent = ''pending'', rl_policy = Some (json_of policy), rl_epoch = 1, rl_peer_key = Some (column_text agreement),
     rl_name = Some (column_text name), rl_prior = None, rl_grace = None\<rparr>"

definition first_key :: "str \<Rightarrow> codes \<Rightarrow> str \<Rightarrow> key_row" where
  "first_key rid agreement path = \<lparr>ek_rel = rid, ek_epoch = 1, ek_public = column_text agreement, ek_ref = path, ek_state = ''active''\<rparr>"

definition add_relationship :: "relationship_row \<Rightarrow> key_row \<Rightarrow> unit ceremony" where
  "add_relationship r k =
     seq (add_row rl_id r (\<lambda>s. relationships (pg_db s)) (\<lambda>f. pg_db_update (relationships_update f))) (\<lambda>_.
     add_row key_id k (\<lambda>s. key_epochs (pg_db s)) (\<lambda>f. pg_db_update (key_epochs_update f)))"

record commit_plan =
  cp_invite :: str
  cp_slots :: fields
  cp_url :: codes
  cp_caps :: "codes list"
  cp_rel :: str
  cp_public :: codes
  cp_path :: str

definition commit_txn :: "site \<Rightarrow> bytes \<Rightarrow> commit_request \<Rightarrow> commit_plan \<Rightarrow> jval ceremony" where
  "commit_txn E sk q p = (let iid = cp_invite p in
     seq (query (\<lambda>s. (map_of (invite_bodies s) iid, invite_of iid s))) (\<lambda>found. case found of
       (Some invite, Some row) \<Rightarrow>
         seq (claim_for_commit E (cq_claim q) iid invite (iv_state row)) (\<lambda>_.
         seq (query (\<lambda>s. partner_of E sk (cq_acceptance q) invite (cp_caps p) (verification_of iid s)
           (\<lambda>key. key \<in> dk_key ` set (deploy_keys s)))) (\<lambda>checked.
         seq (lift checked) (\<lambda>peer.
         seq (lift (signed (st_crypto E) sk (unsigned_commit (cp_rel p) iid (cp_url p) (cp_slots p) (cp_caps p) (cp_public p) (st_now E)))) (\<lambda>commit.
         seq (lift (pick invite ''requested_policy'')) (\<lambda>policy.
         seq (add_relationship (pending_relationship (cp_rel p) (pt_identity peer) (pt_name peer) (pt_agreement peer) policy)
           (first_key (cp_rel p) (cp_public p) (cp_path p))) (\<lambda>_.
         seq (add_row dk_key \<lparr>dk_key = column_text (pt_deploy peer), dk_rel = cp_rel p, dk_at = stamp_text (st_now E)\<rparr>
           deploy_keys deploy_keys_update) (\<lambda>_.
         seq (exec (move_invite iid INVITE_STATES ''committed'')) (\<lambda>_.
         ret commit))))))))
     | _ \<Rightarrow> raise (PairingError ''unknown_invite'')))"

definition plan_commit :: "site \<Rightarrow> commit_request \<Rightarrow> pairing_exn + commit_plan" where
  "plan_commit E q =
     bind_err (validate (st_crypto E) ''invite-acceptance'' (cq_acceptance q)) (\<lambda>_.
     bind_err (bind_err (pick (cq_acceptance q) ''invite_id'') require_uuid4) (\<lambda>iid.
     bind_err (check_slots (cq_slots q)) (\<lambda>slots.
     bind_err (check_relay_url (cq_relay q)) (\<lambda>url.
     case normalize_capabilities (cq_capabilities q) of None \<Rightarrow> Inl (PairingError ''bad_capability'') | Some caps \<Rightarrow>
     bind_err (case cq_rel q of None \<Rightarrow> Inr () | Some rid \<Rightarrow> require_id rid) (\<lambda>_.
     let rid = (case cq_rel q of None \<Rightarrow> cq_fresh q | Some rid \<Rightarrow> rid) in
     bind_err (agreement_text (st_crypto E) (cq_secret q)) (\<lambda>public.
     Inr \<lparr>cp_invite = iid, cp_slots = slots, cp_url = url, cp_caps = caps, cp_rel = rid, cp_public = public,
       cp_path = pairing_key_path (cq_keys_dir q) rid\<rparr>))))))"

text \<open>The handlers: the burn or the expiry in a transaction of its own, the key destroyed, and the
  exception again, unless the destruction fails.\<close>

definition abort_commit :: "site \<Rightarrow> str \<Rightarrow> str \<Rightarrow> pairing_exn \<Rightarrow> 'a ceremony" where
  "abort_commit E iid path e = (case e of
     BurnAndAbort code \<Rightarrow> (\<lambda>s. case burn_invite iid s of (burned, t) \<Rightarrow>
       seq (destroy_pairing_key E path) (\<lambda>_. case burned of Inl e' \<Rightarrow> raise e' | Inr _ \<Rightarrow> raise e) t)
   | _ \<Rightarrow>
       seq (exec (if e = PairingError ''expired'' then move_invite iid INVITE_STATES ''expired'' else id)) (\<lambda>_.
       seq (destroy_pairing_key E path) (\<lambda>_. raise e)))"

definition aborting :: "(pairing_exn \<Rightarrow> 'a ceremony) \<Rightarrow> 'a ceremony \<Rightarrow> 'a ceremony" where
  "aborting h p = (\<lambda>s. case p s of (Inl e, t) \<Rightarrow> h e t | (Inr a, t) \<Rightarrow> (Inr a, t))"

definition commit_pairing :: "site \<Rightarrow> bytes \<Rightarrow> commit_request \<Rightarrow> jval ceremony" where
  "commit_pairing E sk q =
     seq (lift (plan_commit E q)) (\<lambda>p.
     seq (store_pairing_key E (cp_rel p) (cp_path p) (cq_secret q)) (\<lambda>_.
     aborting (abort_commit E (cp_invite p) (cp_path p)) (pairing_txn (commit_txn E sk q p))))"

section \<open>The ingestion by the acceptor\<close>

definition COMMIT_FIELDS :: "codes list" where
  "COMMIT_FIELDS = map codes_of [''commit_version'', ''relationship_id'', ''invite_id'', ''repository_url'', ''slots'',
     ''negotiated_capabilities'', ''initial_key_epochs'', ''committed_at'', ''signature'']"

definition epoch_one_keys :: "jval list \<Rightarrow> jval list" where
  "epoch_one_keys epochs = concat (map (\<lambda>e. case e of
     VObj fs \<Rightarrow> if py_equal (card_field fs ''epoch'') (VInt 1) then [card_field fs ''agreement_public_key''] else []
   | _ \<Rightarrow> []) epochs)"

definition check_commit_shape :: "jval \<Rightarrow> jval \<Rightarrow> pairing_exn + str" where
  "check_commit_shape commit invite = (case commit of
     VObj cs \<Rightarrow>
       if \<exists>k \<in> set COMMIT_FIELDS. k \<notin> set (map fst cs) then Inl (PairingError ''malformed_commit'')
       else if \<not> py_equal (card_field cs ''commit_version'') (VInt COMMIT_VERSION) then Inl (PairingError ''malformed_commit'')
       else bind_err (require_uuid4 (card_field cs ''relationship_id'')) (\<lambda>rid. case invite of
         VObj fs \<Rightarrow> if py_equal (card_field fs ''invite_id'') (card_field cs ''invite_id'') then Inr rid
           else Inl (PairingError ''invite_mismatch'')
       | _ \<Rightarrow> Inl (PairingError ''invite_mismatch''))
   | _ \<Rightarrow> Inl (PairingError ''malformed_commit''))"

definition check_local_caps :: "jval \<Rightarrow> fields \<Rightarrow> pairing_exn + unit" where
  "check_local_caps negotiated local_card =
     bind_err (checked_capabilities negotiated) (\<lambda>caps.
     bind_err (set_of_values (card_get local_card ''capabilities'' (VArr []))) (\<lambda>ours.
     if \<not> VStr ` set caps \<subseteq> set ours then Inl (PairingError ''unsupported_capability'') else Inr ()))"

definition inviter_key_of :: "crypto \<Rightarrow> jval \<Rightarrow> pairing_exn + codes" where
  "inviter_key_of C epochs = (case epochs of
     VArr es \<Rightarrow> (case epoch_one_keys es of
       [] \<Rightarrow> Inl (PairingError ''malformed_commit'')
     | k # _ \<Rightarrow> (case agreement_key C k of None \<Rightarrow> Inl (PairingError ''bad_agreement_key'')
         | Some _ \<Rightarrow> (case k of VStr t \<Rightarrow> Inr t | _ \<Rightarrow> Inl (PairingError ''bad_agreement_key''))))
   | _ \<Rightarrow> Inl (PairingError ''malformed_commit''))"

definition check_committed_at :: "rat \<Rightarrow> jval \<Rightarrow> pairing_exn + unit" where
  "check_committed_at now v = (case parse_timestamp v of
     None \<Rightarrow> Inl (PairingError ''malformed_commit'')
   | Some t \<Rightarrow> if of_int t > now + of_int MAX_CLOCK_SKEW then Inl (PairingError ''clock_skew'') else Inr ())"

text \<open>What the commit says: the relationship and the key of the inviter.\<close>

definition check_commit :: "site \<Rightarrow> jval \<Rightarrow> jval \<Rightarrow> codes \<Rightarrow> str \<Rightarrow> fields \<Rightarrow> pairing_exn + str \<times> jval \<times> codes" where
  "check_commit E commit invite own_public own_ref local_card = (let C = st_crypto E in
     bind_err (check_commit_shape commit invite) (\<lambda>rid.
     bind_err (pick invite ''inviter_card'') (\<lambda>doc.
     bind_err (require_live_card C (st_now E) doc) (\<lambda>_.
     bind_err (pick doc ''identity_id'') (\<lambda>identity.
     bind_err (pick commit ''signature'') (\<lambda>sig.
     bind_err (verify_signature C identity sig (without_signature commit)) (\<lambda>_.
     bind_err (bind_err (pick commit ''negotiated_capabilities'') (\<lambda>n. check_local_caps n local_card)) (\<lambda>_.
     if parse_agreement_key C own_public = None then Inl (PairingError ''bad_agreement_key'')
     else if own_ref = [] then Inl (PairingError ''bad_key_ref'') else
     bind_err (bind_err (pick commit ''initial_key_epochs'') (inviter_key_of C)) (\<lambda>key.
     bind_err (bind_err (pick commit ''slots'') check_slots) (\<lambda>_.
     bind_err (bind_err (pick commit ''repository_url'') check_relay_url) (\<lambda>_.
     bind_err (bind_err (pick commit ''committed_at'') (check_committed_at (st_now E))) (\<lambda>_.
     Inr (rid, doc, key)))))))))))))"

definition ingest_commit :: "site \<Rightarrow> jval \<Rightarrow> jval \<Rightarrow> codes \<Rightarrow> str \<Rightarrow> fields \<Rightarrow> str ceremony" where
  "ingest_commit E commit invite own_public own_ref local_card =
     seq (lift (check_commit E commit invite own_public own_ref local_card)) (\<lambda>(rid, doc, key).
     pairing_txn (seq (query (\<lambda>s. relationship_of (pg_db s) rid)) (\<lambda>there. case there of
       Some _ \<Rightarrow> raise (PairingError ''duplicate_relationship'')
     | None \<Rightarrow>
         seq (lift (pick_text doc ''identity_id'')) (\<lambda>identity.
         seq (lift (pick_text doc ''display_name'')) (\<lambda>name.
         seq (lift (pick invite ''requested_policy'')) (\<lambda>policy.
         seq (add_relationship (pending_relationship rid identity name key policy) (first_key rid own_public own_ref)) (\<lambda>_.
         ret rid)))))))"

end
