(* ===== verification/Ceremony.thy ===== *)
theory Ceremony
  imports Pairing
begin

text \<open>
  What the pairing ceremony guarantees: an invite serves one commit, whatever the order of the
  operations; a commit pairs with exactly what the humans verified, or ends at most its own invite; and a late
  retry of a commit overwrites a terminal state with expired.
\<close>

section \<open>Spent invites\<close>

definition terminal :: "str set" where
  "terminal = {''committed'', ''expired'', ''canceled''}"

definition spent :: "str \<Rightarrow> pairing \<Rightarrow> bool" where
  "spent iid s \<longleftrightarrow> (\<exists>r \<in> set (invites s). iv_id r = iid \<and> iv_state r \<in> terminal)"

definition spent_for_good :: "str set \<Rightarrow> pairing \<Rightarrow> bool" where
  "spent_for_good ids s \<longleftrightarrow> unique_key iv_id (invites s) \<and> (\<forall>iid \<in> ids. spent iid s)"

text \<open>An operation that preserves every property of the table of invites that moves keep.\<close>

definition lawful_move :: "str \<Rightarrow> str set \<Rightarrow> str \<Rightarrow> pairing \<Rightarrow> bool" where
  "lawful_move iid old new s \<longleftrightarrow> old \<inter> terminal = {} \<or> new \<in> terminal \<or> \<not> spent iid s"

lemma unique_move [simp]: "unique_key iv_id (invites (move_invite iid old new s)) = unique_key iv_id (invites s)"
  by (simp add: move_invite_def unique_key_update)

lemma spent_move:
  assumes "spent iid s" and "lawful_move iid' old new s"
  shows "spent iid (move_invite iid' old new s)"
proof -
  obtain r where r: "r \<in> set (invites s)" "iv_id r = iid" "iv_state r \<in> terminal"
    using assms(1) by (auto simp: spent_def)
  let ?f = "\<lambda>r. if iv_id r = iid' \<and> iv_state r \<in> old then r\<lparr>iv_state := new\<rparr> else r"
  have "?f r \<in> set (invites (move_invite iid' old new s))"
    using r(1) by (simp add: move_invite_def update_where_def)
  moreover have "iv_id (?f r) = iid" "iv_state (?f r) \<in> terminal"
    using r assms unfolding lawful_move_def spent_def by auto
  ultimately show ?thesis unfolding spent_def by blast
qed

lemma good_move: "lawful_move iid' old new s \<Longrightarrow> spent_for_good ids s \<Longrightarrow> spent_for_good ids (move_invite iid' old new s)"
  by (simp add: spent_for_good_def spent_move)

lemma lawful_moves [simp]:
  "lawful_move iid {''issued''} new s" "lawful_move iid old ''expired'' s" "lawful_move iid old ''canceled'' s"
  "lawful_move iid old ''committed'' s"
  by (simp_all add: lawful_move_def terminal_def)

lemma good_other:
  "invites t = invites s \<Longrightarrow> spent_for_good ids s \<Longrightarrow> spent_for_good ids t"
  by (simp add: spent_for_good_def spent_def)

lemma good_txn [pres_intros]:
  assumes "preserves (spent_for_good ids) p" shows "preserves (spent_for_good ids) (pairing_txn p)"
proof (rule preservesI)
  fix s assume s: "spent_for_good ids s"
  obtain r t where run: "p s = (r, t)" by (cases "p s")
  have "spent_for_good ids t" using preservesD [OF assms s] run by simp
  moreover have "spent_for_good ids (s\<lparr>pg_db := d\<rparr>)" for d by (rule good_other [OF _ s]) simp
  ultimately show "spent_for_good ids (snd (pairing_txn p s))"
    using run by (cases r) (simp_all add: pairing_txn_def)
qed

lemma good_same: "(\<And>s. invites (snd (p s)) = invites s) \<Longrightarrow> preserves (spent_for_good ids) p"
  by (rule preservesI) (rule good_other)

lemma good_add [pres_intros]: "preserves (spent_for_good ids) (add_row iv_id r invites invites_update)"
  by (auto intro!: preservesI simp: add_row_def spent_for_good_def spent_def unique_key_append)

lemma good_exec_move: "(\<And>s. lawful_move iid' old new s) \<Longrightarrow> preserves (spent_for_good ids) (exec (move_invite iid' old new))"
  by (rule preserves_exec) (rule good_move)

lemma good_exec_same: "(\<And>s. invites (f s) = invites s) \<Longrightarrow> preserves (spent_for_good ids) (exec f)"
  by (rule good_same) (simp add: exec_def)

lemma good_rows [pres_intros]:
  "preserves (spent_for_good ids) (add_row fst b invite_bodies invite_bodies_update)"
  "preserves (spent_for_good ids) (add_row dk_key d deploy_keys deploy_keys_update)"
  "preserves (spent_for_good ids) (add_relationship rel k)"
  "preserves (spent_for_good ids) (store_key path data)"
  "preserves (spent_for_good ids) (destroy E path)"
  by (rule good_same; simp add: add_row_def add_relationship_def seq_run store_key_def destroy_def split: sum.split)+

lemma good_files [pres_intros]:
  "preserves (spent_for_good ids) (destroy_pairing_key E path)"
  "preserves (spent_for_good ids) (reconcile_orphan_pairing_key E rid path)"
  "preserves (spent_for_good ids) (store_pairing_key E rid path data)"
  unfolding destroy_pairing_key_def reconcile_orphan_pairing_key_def store_pairing_key_def
  by (intro pres_intros)+

lemma good_claim [pres_intros]: "preserves (spent_for_good ids) (claim_invite iid')"
  unfolding claim_invite_def by (intro pres_intros good_exec_move) simp

lemma good_preview [pres_intros]: "preserves (spent_for_good ids) (preview_invite E invite)"
proof -
  have noted: "preserves (spent_for_good ids) (exec (note_expiry v e))" for v e
    by (rule preserves_exec) (auto simp: note_expiry_def good_move split: jval.split)
  show ?thesis
    unfolding preview_invite_def by (intro noted pres_intros)
qed

lemma good_validate [pres_intros]: "preserves (spent_for_good ids) (validate_invite E invite)"
  unfolding validate_invite_def by (intro pres_intros)

lemma good_burn [pres_intros]: "preserves (spent_for_good ids) (burn_invite iid')"
proof -
  have "preserves (spent_for_good ids) (exec (if b then move_invite iid' INVITE_STATES ''canceled'' else id))" for b
    by (rule preserves_exec) (simp add: good_move)
  then show ?thesis unfolding burn_invite_def by (intro pres_intros)
qed

text \<open>Only the reset moves an invite back, and only an accepted one.\<close>

lemma invite_of_state:
  "unique_key iv_id (invites s) \<Longrightarrow> invite_of iid s = Some r \<Longrightarrow> iv_state r \<notin> terminal \<Longrightarrow> \<not> spent iid s"
proof
  assume u: "unique_key iv_id (invites s)" and found: "invite_of iid s = Some r" and live: "iv_state r \<notin> terminal"
  assume "spent iid s"
  then obtain x where x: "x \<in> set (invites s)" "iv_id x = iid" "iv_state x \<in> terminal" by (auto simp: spent_def)
  then have "invite_of iid s = Some x" using fetchone_key [OF u x(1)] by (simp add: invite_of_def)
  then show False using found live x(3) by simp
qed

lemma good_reset [pres_intros]: "preserves (spent_for_good ids) (reset_invite_for_retry iid')"
  unfolding reset_invite_for_retry_def
proof (rule good_txn, rule preserves_by_keeps, rule keeps_query, rule keeps_case_option)
  fix s show "keeps (spent_for_good ids) (ret ()) s" by (rule keeps_ret)
next
  fix s r assume r: "invite_of iid' s = Some r"
  show "keeps (spent_for_good ids) (if iv_state r = ''accepted'' then exec (move_invite iid' INVITE_STATES ''issued'') else ret ()) s"
  proof (rule keepsI)
    assume good: "spent_for_good ids s"
    then have "iv_state r = ''accepted'' \<Longrightarrow> \<not> spent iid' s"
      using invite_of_state [OF _ r] by (simp add: spent_for_good_def terminal_def)
    then have "iv_state r = ''accepted'' \<Longrightarrow> spent_for_good ids (move_invite iid' INVITE_STATES ''issued'' s)"
      by (intro good_move [OF _ good]) (simp add: lawful_move_def)
    then show "spent_for_good ids (snd ((if iv_state r = ''accepted'' then exec (move_invite iid' INVITE_STATES ''issued'') else ret ()) s))"
      using good by (cases "iv_state r = ''accepted''") (simp_all add: prog_run)
  qed
qed

lemma good_abort: "preserves (spent_for_good ids) (abort_commit E iid' path e)"
proof (cases e)
  case (BurnAndAbort code)
  show ?thesis
  proof (rule preservesI)
    fix s assume s: "spent_for_good ids s"
    obtain b t where burn: "burn_invite iid' s = (b, t)" by (cases "burn_invite iid' s")
    then have "spent_for_good ids t" using preservesD [OF good_burn s, of iid'] by simp
    moreover have "preserves (spent_for_good ids) (seq (destroy_pairing_key E path) (\<lambda>_. case b of Inl e' \<Rightarrow> raise e' | Inr _ \<Rightarrow> raise e))"
      by (cases b) (simp_all add: pres_intros)
    ultimately show "spent_for_good ids (snd (abort_commit E iid' path e s))"
      using burn preservesD BurnAndAbort by (fastforce simp: abort_commit_def)
  qed
next
  case (PairingError code)
  have "preserves (spent_for_good ids) (exec (if b then move_invite iid' INVITE_STATES ''expired'' else id))" for b
    by (rule preserves_exec) (simp add: good_move)
  then show ?thesis unfolding abort_commit_def PairingError pairing_exn.case by (intro pres_intros)
qed (simp_all add: abort_commit_def preserves_seq preserves_raise good_files good_exec_same)

lemma good_commit_txn [pres_intros]: "preserves (spent_for_good ids) (commit_txn E sk q p)"
proof -
  have claim: "preserves (spent_for_good ids) (claim_for_commit E c iid' invite st)" for c iid' invite st
    unfolding claim_for_commit_def by (intro pres_intros)
  have last: "preserves (spent_for_good ids) (exec (move_invite iid' INVITE_STATES ''committed''))" for iid'
    by (rule good_exec_move) simp
  show ?thesis
    unfolding commit_txn_def Let_def by (intro pres_intros claim last)
qed

lemma good_commit [pres_intros]: "preserves (spent_for_good ids) (commit_pairing E sk q)"
proof -
  have wrapped: "preserves (spent_for_good ids) (aborting (abort_commit E iid' path) p)"
    if p: "preserves (spent_for_good ids) p" for p :: "jval ceremony" and iid' path
  proof (rule preservesI)
    fix s assume s: "spent_for_good ids s"
    obtain r t where run: "p s = (r, t)" by (cases "p s")
    then have "spent_for_good ids t" using preservesD [OF p s] by simp
    then show "spent_for_good ids (snd (aborting (abort_commit E iid' path) p s))"
      using run preservesD [OF good_abort] by (cases r) (simp_all add: aborting_def)
  qed
  show ?thesis unfolding commit_pairing_def by (intro wrapped pres_intros)
qed

lemma good_create [pres_intros]: "preserves (spent_for_good ids) (create_invite E iid' c sk x caps policy)"
  unfolding create_invite_def by (intro pres_intros)

lemma good_acceptance [pres_intros]: "preserves (spent_for_good ids) (create_acceptance E invite c sk a d)"
  unfolding create_acceptance_def by (intro pres_intros good_exec_same) simp

lemma good_verification [pres_intros]:
  "preserves (spent_for_good ids) (record_verification E iid' x y ok)"
  "preserves (spent_for_good ids) (record_displayed_phrase E iid' x y)"
  "preserves (spent_for_good ids) (confirm_verification E iid' x y)"
  unfolding record_verification_def record_displayed_phrase_def confirm_verification_def
  by (intro pres_intros good_exec_same; simp add: write_verification_def)+

lemma good_ingest [pres_intros]: "preserves (spent_for_good ids) (ingest_commit E c invite k ref mine)"
  unfolding ingest_commit_def by (intro pres_intros)

section \<open>A commit that succeeds\<close>

lemma prog_returns:
  "query f s = (Inr a, t) \<longleftrightarrow> a = f s \<and> t = s" "lift r s = (Inr b, t) \<longleftrightarrow> r = Inr b \<and> t = s"
  "exec h s = (Inr u, t) \<longleftrightarrow> t = h s" "ret x s = (Inr y, t) \<longleftrightarrow> y = x \<and> t = s" "raise e s \<noteq> (Inr z, t)"
  "seq p g s = (Inr w, t) \<longleftrightarrow> (\<exists>v r. p s = (Inr v, r) \<and> g v r = (Inr w, t))"
  "(if c then m else n) s = (if c then m s else n s)"
  by (auto simp: ret_def raise_def query_def exec_def lift_def seq_returns)

lemma add_row_returns:
  "add_row k r tab upd s = (Inr u, t) \<longleftrightarrow> k r \<notin> set (map k (tab s)) \<and> t = upd (\<lambda>x. x @ [r]) s"
  by (auto simp: add_row_def)

definition claimed :: "commit_request \<Rightarrow> str \<Rightarrow> pairing \<Rightarrow> pairing" where
  "claimed q iid s = (if cq_claim q then move_invite iid {''issued''} ''accepted'' s else s)"

definition in_time :: "site \<Rightarrow> jval \<Rightarrow> bool" where
  "in_time E invite = (case bind_err (pick invite ''expires_at'') moment of Inl _ \<Rightarrow> False | Inr x \<Rightarrow> st_now E < of_int x)"

lemma in_time_iff: "in_time E invite \<longleftrightarrow> (\<exists>x. bind_err (pick invite ''expires_at'') moment = Inr x \<and> st_now E < of_int x)"
  by (simp add: in_time_def split: sum.split)

lemma check_lifetime_ok: "check_lifetime now issued expires = Inr u \<Longrightarrow> now < of_int expires"
  by (auto simp: check_lifetime_def split: if_splits)

lemma pure_in_time: "check_invite_pure (st_crypto E) (st_now E) invite = Inr u \<Longrightarrow> in_time E invite"
  by (auto simp: check_invite_pure_def in_time_iff bind_err_Inr dest!: check_lifetime_ok)

lemma claim_admits:
  assumes "claim_for_commit E (cq_claim q) iid invite st s = (Inr u, t)"
  shows "t = claimed q iid s" "in_time E invite"
    "if cq_claim q then \<exists>r \<in> set (invites s). iv_id r = iid \<and> iv_state r = ''issued'' else st = ''accepted''"
proof -
  have "t = claimed q iid s \<and> in_time E invite \<and>
      (if cq_claim q then rowcount (\<lambda>r. iv_id r = iid \<and> iv_state r \<in> {''issued''}) (invites s) \<noteq> 0 else st = ''accepted'')"
    using assms by (auto simp: claim_for_commit_def claim_invite_def prog_returns claimed_def in_time_iff [symmetric] bind_err_Inr
        intro: pure_in_time split: if_splits) (auto simp: in_time_iff bind_err_Inr)
  then show "t = claimed q iid s" "in_time E invite"
    "if cq_claim q then \<exists>r \<in> set (invites s). iv_id r = iid \<and> iv_state r = ''issued'' else st = ''accepted''"
    by (auto simp: rowcount_zero)
qed

text \<open>The state a successful commit leaves.\<close>

definition paired_state :: "site \<Rightarrow> commit_request \<Rightarrow> commit_plan \<Rightarrow> partner \<Rightarrow> jval \<Rightarrow> pairing \<Rightarrow> pairing" where
  "paired_state E q p peer policy s = (claimed q (cp_invite p) s)\<lparr>
     pg_db := (pg_db s)\<lparr>
       relationships := relationships (pg_db s) @ [pending_relationship (cp_rel p) (pt_identity peer) (pt_name peer) (pt_agreement peer) policy],
       key_epochs := key_epochs (pg_db s) @ [first_key (cp_rel p) (cp_public p) (cp_path p)]\<rparr>,
     deploy_keys := deploy_keys s @ [\<lparr>dk_key = column_text (pt_deploy peer), dk_rel = cp_rel p, dk_at = stamp_text (st_now E)\<rparr>],
     invites := invites (move_invite (cp_invite p) INVITE_STATES ''committed'' (claimed q (cp_invite p) s))\<rparr>"

lemma claimed_other [simp]:
  "pg_db (claimed q iid s) = pg_db s" "invite_bodies (claimed q iid s) = invite_bodies s" "deploy_keys (claimed q iid s) = deploy_keys s"
  "pairing_verifications (claimed q iid s) = pairing_verifications s" "pairing_acceptances (claimed q iid s) = pairing_acceptances s"
  "verification_of iid' (claimed q iid s) = verification_of iid' s"
  by (simp_all add: claimed_def move_invite_def verification_of_def)

text \<open>What is checked before anything is inserted.\<close>

definition commit_checked :: "site \<Rightarrow> bytes \<Rightarrow> commit_request \<Rightarrow> commit_plan \<Rightarrow> jval \<Rightarrow> partner \<Rightarrow> pairing \<Rightarrow> bool" where
  "commit_checked E sk q p invite peer s \<longleftrightarrow> map_of (invite_bodies s) (cp_invite p) = Some invite \<and> in_time E invite \<and>
     (\<exists>r \<in> set (invites s). iv_id r = cp_invite p \<and> iv_state r = (if cq_claim q then ''issued'' else ''accepted'')) \<and>
     partner_of E sk (cq_acceptance q) invite (cp_caps p) (verification_of (cp_invite p) s)
       (\<lambda>key. key \<in> dk_key ` set (deploy_keys s)) = Inr peer"

lemma add_relationship_returns:
  "add_relationship r k s = (Inr u, t) \<longleftrightarrow> rl_id r \<notin> set (map rl_id (relationships (pg_db s))) \<and>
     key_id k \<notin> set (map key_id (key_epochs (pg_db s))) \<and>
     t = s\<lparr>pg_db := (pg_db s)\<lparr>relationships := relationships (pg_db s) @ [r], key_epochs := key_epochs (pg_db s) @ [k]\<rparr>\<rparr>"
  by (auto simp: add_relationship_def add_row_returns prog_returns)

lemma commit_txn_paired:
  assumes "commit_txn E sk q p s = (Inr c, t)"
  shows "\<exists>invite peer policy. commit_checked E sk q p invite peer s \<and> pick invite ''requested_policy'' = Inr policy \<and>
    t = paired_state E q p peer policy s \<and> cp_rel p \<notin> rl_id ` set (relationships (pg_db s))"
proof -
  from assms obtain invite row peer policy u where
    body: "map_of (invite_bodies s) (cp_invite p) = Some invite" and row: "invite_of (cp_invite p) s = Some row" and
    claim: "claim_for_commit E (cq_claim q) (cp_invite p) invite (iv_state row) s = (Inr (), u)" and
    checked: "partner_of E sk (cq_acceptance q) invite (cp_caps p) (verification_of (cp_invite p) u)
       (\<lambda>key. key \<in> dk_key ` set (deploy_keys u)) = Inr peer" and
    policy: "pick invite ''requested_policy'' = Inr policy" and
    new: "cp_rel p \<notin> rl_id ` set (relationships (pg_db u))" and
    t: "t = move_invite (cp_invite p) INVITE_STATES ''committed''
       (deploy_keys_update (\<lambda>x. x @ [\<lparr>dk_key = column_text (pt_deploy peer), dk_rel = cp_rel p, dk_at = stamp_text (st_now E)\<rparr>])
         (u\<lparr>pg_db := (pg_db u)\<lparr>
           relationships := relationships (pg_db u) @ [pending_relationship (cp_rel p) (pt_identity peer) (pt_name peer) (pt_agreement peer) policy],
           key_epochs := key_epochs (pg_db u) @ [first_key (cp_rel p) (cp_public p) (cp_path p)]\<rparr>\<rparr>))"
    by (auto simp: commit_txn_def Let_def prog_returns add_relationship_returns add_row_returns
        pending_relationship_def split: option.splits)
  note facts = claim_admits [OF claim]
  have "\<exists>r \<in> set (invites s). iv_id r = cp_invite p \<and> iv_state r = (if cq_claim q then ''issued'' else ''accepted'')"
    using facts(3) fetchone_Some_mem [OF row [unfolded invite_of_def]] by (auto split: if_splits)
  then have "commit_checked E sk q p invite peer s"
    using body facts(1,2) checked by (simp add: commit_checked_def)
  moreover have "t = paired_state E q p peer policy s"
    unfolding t facts(1) paired_state_def by (simp add: move_invite_def)
  ultimately show ?thesis using policy new facts(1) by auto
qed

section \<open>A commit that fails\<close>

text \<open>Nothing of the database has changed but the files and the states of invites.\<close>

definition untouched :: "pairing \<Rightarrow> pairing \<Rightarrow> bool" where
  "untouched s t \<longleftrightarrow> (pg_db t)\<lparr>key_files := []\<rparr> = (pg_db s)\<lparr>key_files := []\<rparr> \<and> invite_bodies t = invite_bodies s \<and>
     deploy_keys t = deploy_keys s \<and> pairing_verifications t = pairing_verifications s \<and>
     pairing_acceptances t = pairing_acceptances s"

text \<open>The other key files; the table of invites with the rows of one invite ended; and the tables of invites
  that a commit refused with \<open>e\<close> may leave. The failure of the key's destruction hides the refusal it follows.\<close>

definition other_files :: "str \<Rightarrow> pairing \<Rightarrow> (str \<times> bytes) list" where
  "other_files path s = filter (\<lambda>f. fst f \<noteq> path) (key_files (pg_db s))"

definition ended :: "str \<Rightarrow> str \<Rightarrow> pairing \<Rightarrow> invite_row list" where
  "ended iid new s = map (\<lambda>r. if iv_id r = iid \<and> iv_state r \<in> INVITE_STATES then r\<lparr>iv_state := new\<rparr> else r) (invites s)"

definition burned :: "str \<Rightarrow> pairing \<Rightarrow> invite_row list" where
  "burned iid s = (case invite_of iid s of None \<Rightarrow> invites s
     | Some r \<Rightarrow> if iv_state r \<in> {''issued'', ''accepted''} then ended iid ''canceled'' s else invites s)"

definition closings :: "pairing_exn \<Rightarrow> str \<Rightarrow> pairing \<Rightarrow> invite_row list set" where
  "closings e iid s = (case e of
     BurnAndAbort code \<Rightarrow> {burned iid s}
   | PairingError code \<Rightarrow> if code = ''expired'' then {ended iid ''expired'' s}
       else if code = ''key_destruction_failed'' then {invites s, ended iid ''expired'' s, burned iid s} else {invites s}
   | _ \<Rightarrow> {invites s})"

definition owned :: "str \<Rightarrow> pairing \<Rightarrow> bool" where
  "owned rid s \<longleftrightarrow> (\<exists>r \<in> set (relationships (pg_db s)). rl_id r = rid) \<or>
     (\<exists>k \<in> set (key_epochs (pg_db s)). ek_rel k = rid \<and> ek_epoch k = 1)"

definition new_files :: "pairing \<Rightarrow> pairing \<Rightarrow> (str \<times> bytes) set" where
  "new_files s t = set (key_files (pg_db t)) - set (key_files (pg_db s))"

lemma untouched_refl [simp]: "untouched s s"
  by (simp add: untouched_def)

lemma untouched_trans: "untouched s t \<Longrightarrow> untouched t u \<Longrightarrow> untouched s u"
  by (simp add: untouched_def)

lemma untouched_move [simp]: "untouched s (move_invite iid old new t) = untouched s t" "new_files s (move_invite iid old new t) = new_files s t"
  by (simp_all add: untouched_def move_invite_def new_files_def)

text \<open>The commit's statements leave the files alone, so that a rollback restores the whole database.\<close>

definition same_disk :: "db \<Rightarrow> pairing \<Rightarrow> bool" where
  "same_disk d s \<longleftrightarrow> key_files (pg_db s) = key_files d \<and> relay (pg_db s) = relay d"

lemma disk_commit: "preserves (same_disk d) (commit_txn E sk q p)"
proof -
  have rows: "preserves (same_disk d) (add_relationship r k)" "preserves (same_disk d) (add_row dk_key x deploy_keys deploy_keys_update)"
    "preserves (same_disk d) (exec (move_invite iid old new))" for r k x iid old new
    by (rule preservesI, simp add: add_relationship_def add_row_def seq_run exec_def move_invite_def same_disk_def split: sum.split)+
  have claim: "preserves (same_disk d) (claim_for_commit E c iid invite st)" for c iid invite st
    unfolding claim_for_commit_def claim_invite_def by (intro rows pres_intros)
  show ?thesis unfolding commit_txn_def Let_def by (intro rows claim pres_intros)
qed

lemma rolled_back:
  assumes "pairing_txn (commit_txn E sk q p) s = (Inl e, t)" shows "t = s"
proof -
  obtain r u where run: "commit_txn E sk q p s = (r, u)" by (cases "commit_txn E sk q p s")
  have "same_disk (pg_db s) u" using preservesD [OF disk_commit, of "pg_db s" s E sk q p] run by (simp add: same_disk_def)
  then show ?thesis using assms run by (cases r) (simp_all add: pairing_txn_def rollback_def same_disk_def)
qed

text \<open>Files.\<close>

lemma destroy_effect:
  assumes "destroy_pairing_key E path s = (r, t)"
  shows "untouched s t" "invites t = invites s" "new_files s t = {}" "set (key_files (pg_db t)) \<subseteq> set (key_files (pg_db s))"
    "if st_unlinks E then path \<notin> fst ` set (key_files (pg_db t)) else True"
  using assms by (auto simp: destroy_pairing_key_def destroy_def seq_run prog_run untouched_def new_files_def delete_private_key_def
      table_simps split: if_splits prod.splits sum.splits)

lemma store_effect:
  assumes "store_pairing_key E rid path data s = (r, t)"
  shows "untouched s t" "invites t = invites s" "fst ` new_files s t \<subseteq> {path}" "r = Inl e \<Longrightarrow> new_files s t = {}"
proof -
  have store: "untouched u v \<and> invites v = invites u \<and> set (key_files (pg_db v)) \<subseteq> insert (path, data) (set (key_files (pg_db u))) \<and>
      (\<forall>e. x = Inl e \<longrightarrow> set (key_files (pg_db v)) \<subseteq> set (key_files (pg_db u)))"
    if "store_key path data u = (x, v)" for u v x
    using that by (auto simp: store_key_def untouched_def split: if_splits)
  have rec: "untouched u v \<and> invites v = invites u \<and> set (key_files (pg_db v)) \<subseteq> set (key_files (pg_db u))"
    if "reconcile_orphan_pairing_key E rid path u = (x, v)" for u v x
    using that destroy_effect(1,2,4) [of E path u x v] by (auto simp: reconcile_orphan_pairing_key_def prog_run split: if_splits)
  have "untouched s t \<and> invites t = invites s \<and> set (key_files (pg_db t)) \<subseteq> insert (path, data) (set (key_files (pg_db s))) \<and>
      (\<forall>e. r = Inl e \<longrightarrow> set (key_files (pg_db t)) \<subseteq> set (key_files (pg_db s)))"
  proof (cases "path \<in> set (map fst (key_files (pg_db s)))")
    case False
    then show ?thesis using assms store by (simp add: store_pairing_key_def prog_run)
  next
    case True
    obtain x u where mid: "reconcile_orphan_pairing_key E rid path s = (x, u)" by (cases "reconcile_orphan_pairing_key E rid path s")
    note one = rec [OF mid]
    show ?thesis
    proof (cases x)
      case (Inl e)
      then show ?thesis using assms True mid one by (auto simp: store_pairing_key_def prog_run seq_run)
    next
      case (Inr y)
      then have "store_key path data u = (r, t)" using assms True mid by (simp add: store_pairing_key_def prog_run seq_run)
      from store [OF this] show ?thesis using one untouched_trans by auto
    qed
  qed
  then show "untouched s t" "invites t = invites s" "fst ` new_files s t \<subseteq> {path}" "r = Inl e \<Longrightarrow> new_files s t = {}"
    by (auto simp: new_files_def)
qed

text \<open>The exceptions of the destruction and of the store, and the other files.\<close>

definition undestroyed :: pairing_exn where
  "undestroyed = PairingError ''key_destruction_failed''"

lemma destroy_answers:
  assumes "destroy_pairing_key E path s = (r, t)"
  shows "other_files path t = other_files path s"
    "r = Inr () \<and> path \<notin> fst ` set (key_files (pg_db t)) \<or> r = Inl undestroyed"
  using assms by (auto simp: destroy_pairing_key_def destroy_def seq_run prog_run other_files_def delete_private_key_def
      delete_where_def undestroyed_def split: if_splits prod.splits sum.splits)

lemma reconcile_answers:
  "reconcile_orphan_pairing_key E rid path s =
     (if owned rid s then (Inl (PairingRaised ''FileExistsError''), s) else destroy_pairing_key E path s)"
  by (auto simp: reconcile_orphan_pairing_key_def prog_run owned_def)

lemma store_key_answers:
  assumes "store_key path data s = (r, t)"
  shows "other_files path t = other_files path s" "r = Inl e \<Longrightarrow> e = PairingRaised ''FileExistsError''"
  using assms by (auto simp: store_key_def other_files_def split: if_splits)

lemma store_answers:
  assumes "store_pairing_key E rid path data s = (r, t)"
  shows "other_files path t = other_files path s" "r = Inl e \<Longrightarrow> e = PairingRaised ''FileExistsError'' \<or> e = undestroyed"
    "path \<in> fst ` set (key_files (pg_db s)) \<Longrightarrow> owned rid s \<Longrightarrow> t = s \<and> (\<exists>e. r = Inl e)"
proof -
  have "other_files path t = other_files path s \<and> (\<forall>e. r = Inl e \<longrightarrow> e = PairingRaised ''FileExistsError'' \<or> e = undestroyed) \<and>
    (path \<in> fst ` set (key_files (pg_db s)) \<longrightarrow> owned rid s \<longrightarrow> t = s \<and> (\<exists>e. r = Inl e))"
  proof (cases "path \<in> set (map fst (key_files (pg_db s)))")
    case False
    then show ?thesis using assms store_key_answers [of path data s r t] by (auto simp: store_pairing_key_def prog_run)
  next
    case True
    show ?thesis
    proof (cases "owned rid s")
      case own: True
      then show ?thesis using assms True by (auto simp: store_pairing_key_def prog_run seq_run reconcile_answers)
    next
      case False
      obtain x u where mid: "destroy_pairing_key E path s = (x, u)" by (cases "destroy_pairing_key E path s")
      note one = destroy_answers [OF mid]
      show ?thesis
        using one assms True False mid store_key_answers [of path data u r t]
        by (cases x) (auto simp: store_pairing_key_def prog_run seq_run reconcile_answers)
    qed
  qed
  then show "other_files path t = other_files path s" "r = Inl e \<Longrightarrow> e = PairingRaised ''FileExistsError'' \<or> e = undestroyed"
    "path \<in> fst ` set (key_files (pg_db s)) \<Longrightarrow> owned rid s \<Longrightarrow> t = s \<and> (\<exists>e. r = Inl e)" by blast+
qed

lemma moved_invites: "invites (move_invite iid INVITE_STATES new s) = ended iid new s"
  by (simp add: move_invite_def ended_def update_where_def)

lemma burn_effect:
  assumes "burn_invite iid s = (r, t)"
  shows "untouched s t" "pg_db t = pg_db s"
    "(case r of Inr _ \<Rightarrow> invites t = burned iid s
       | Inl e \<Rightarrow> invites t = invites s \<and> e \<in> {PairingError ''bad_uuid'', PairingError ''unknown_invite''})"
proof -
  have roll: "s\<lparr>pg_db := rollback (pg_db s) (pg_db s)\<rparr> = s" by (simp add: rollback_def)
  have run: "burn_invite iid s = (if \<not> uuid_matches iid then (Inl (PairingError ''bad_uuid''), s)
    else case invite_of iid s of None \<Rightarrow> (Inl (PairingError ''unknown_invite''), s)
    | Some x \<Rightarrow> (Inr (iv_state x), if iv_state x \<in> {''issued'', ''accepted''} then move_invite iid INVITE_STATES ''canceled'' s else s))"
    by (simp add: burn_invite_def require_id_def prog_run pairing_txn_def seq_run roll split: option.split)
  have db: "pg_db (move_invite iid old new s) = pg_db s" for old new by (simp add: move_invite_def)
  show "untouched s t" "pg_db t = pg_db s"
    "(case r of Inr _ \<Rightarrow> invites t = burned iid s
       | Inl e \<Rightarrow> invites t = invites s \<and> e \<in> {PairingError ''bad_uuid'', PairingError ''unknown_invite''})"
    using assms by (auto simp: run db burned_def moved_invites split: if_splits option.splits)
qed

lemma closing_hidden: "invites s \<in> closings undestroyed iid s" "ended iid ''expired'' s \<in> closings undestroyed iid s"
  "burned iid s \<in> closings undestroyed iid s"
  by (simp_all add: closings_def undestroyed_def)

lemma closing_same: "e \<noteq> PairingError ''expired'' \<Longrightarrow> \<forall>code. e \<noteq> BurnAndAbort code \<Longrightarrow> invites s \<in> closings e iid s"
  by (auto simp: closings_def split: pairing_exn.split)

lemma abort_effect:
  assumes "abort_commit E iid path e s = (r, t)"
  shows "\<exists>e'. r = Inl e' \<and> untouched s t \<and> invites t \<in> closings e' iid s \<and> other_files path t = other_files path s \<and>
    set (key_files (pg_db t)) \<subseteq> set (key_files (pg_db s)) \<and>
    (if st_unlinks E then path \<notin> fst ` set (key_files (pg_db t))
     else path \<notin> fst ` set (key_files (pg_db t)) \<or> e' = undestroyed)"
proof -
  have last: "\<exists>e'. r = Inl e' \<and> untouched u t \<and> invites t = invites u \<and> other_files path t = other_files path u \<and>
      set (key_files (pg_db t)) \<subseteq> set (key_files (pg_db u)) \<and> (e' = undestroyed \<or> e' = x) \<and>
      (if st_unlinks E then path \<notin> fst ` set (key_files (pg_db t))
       else path \<notin> fst ` set (key_files (pg_db t)) \<or> e' = undestroyed)"
    if run: "seq (destroy_pairing_key E path) (\<lambda>_. raise x) u = (r, t)" for x u
  proof -
    obtain d v where d: "destroy_pairing_key E path u = (d, v)" by (cases "destroy_pairing_key E path u")
    then have "t = v" "r = (case d of Inl y \<Rightarrow> Inl y | Inr _ \<Rightarrow> Inl x)"
      using run by (auto simp: seq_run prog_run split: sum.splits)
    then show ?thesis using destroy_effect [OF d] destroy_answers [OF d] by (auto split: if_splits)
  qed
  show ?thesis
  proof (cases "\<exists>code. e = BurnAndAbort code")
    case True
    obtain b u where burn: "burn_invite iid s = (b, u)" by (cases "burn_invite iid s")
    define x where "x = (case b of Inl y \<Rightarrow> y | Inr _ \<Rightarrow> e)"
    have "seq (destroy_pairing_key E path) (\<lambda>_. raise x) u = (r, t)"
      using assms True burn by (cases b) (auto simp: abort_commit_def x_def)
    note fin = last [OF this] and eff = burn_effect [OF burn]
    have "invites u \<in> closings x iid s" "invites u \<in> closings undestroyed iid s"
      using eff(3) True closing_hidden by (auto simp: x_def closings_def undestroyed_def split: sum.splits)
    moreover have "other_files path u = other_files path s" using eff(2) by (simp add: other_files_def)
    moreover obtain e' where e': "r = Inl e'" "e' = undestroyed \<or> e' = x" "untouched u t" "invites t = invites u"
        "other_files path t = other_files path u" "set (key_files (pg_db t)) \<subseteq> set (key_files (pg_db u))"
        "if st_unlinks E then path \<notin> fst ` set (key_files (pg_db t))
         else path \<notin> fst ` set (key_files (pg_db t)) \<or> e' = undestroyed"
      using fin by blast
    ultimately have "invites t \<in> closings e' iid s" "other_files path t = other_files path s" by auto
    moreover have "untouched s t" using eff(1) e'(3) by (rule untouched_trans)
    ultimately show ?thesis using e'(1,6,7) eff(2) by auto
  next
    case False
    define u where "u = (if e = PairingError ''expired'' then move_invite iid INVITE_STATES ''expired'' else id) s"
    have "seq (destroy_pairing_key E path) (\<lambda>_. raise e) u = (r, t)"
      using assms False by (cases e) (simp_all add: abort_commit_def prog_run u_def)
    note fin = last [OF this]
    have u: "untouched s u" "pg_db u = pg_db s" by (simp_all add: u_def) (simp add: move_invite_def)
    have "invites u \<in> closings e iid s" "invites u \<in> closings undestroyed iid s"
      using False closing_hidden closing_same [of e s iid]
      by (cases "e = PairingError ''expired''"; simp add: u_def moved_invites closings_def; fail)+
    moreover have "other_files path u = other_files path s" using u(2) by (simp add: other_files_def)
    moreover obtain e' where e': "r = Inl e'" "e' = undestroyed \<or> e' = e" "untouched u t" "invites t = invites u"
        "other_files path t = other_files path u" "set (key_files (pg_db t)) \<subseteq> set (key_files (pg_db u))"
        "if st_unlinks E then path \<notin> fst ` set (key_files (pg_db t))
         else path \<notin> fst ` set (key_files (pg_db t)) \<or> e' = undestroyed"
      using fin by blast
    ultimately have "invites t \<in> closings e' iid s" "other_files path t = other_files path s" by auto
    moreover have "untouched s t" using u(1) e'(3) by (rule untouched_trans)
    ultimately show ?thesis using e'(1,6,7) u(2) by auto
  qed
qed

section \<open>What a commit pairs\<close>

lemma checked_untouched:
  "untouched s u \<Longrightarrow> invites u = invites s \<Longrightarrow> commit_checked E sk q p invite peer u = commit_checked E sk q p invite peer s"
  by (simp add: commit_checked_def untouched_def verification_of_def)

lemma same_db: "untouched s u \<Longrightarrow> relationships (pg_db u) = relationships (pg_db s) \<and> key_epochs (pg_db u) = key_epochs (pg_db s)"
  by (auto simp: untouched_def dest: arg_cong [where f = relationships] arg_cong [where f = key_epochs])

lemma no_new_file:
  assumes "new_files s t \<subseteq> new_files s u" "if b then path \<notin> fst ` set (key_files (pg_db t)) else True"
    "fst ` new_files s u \<subseteq> {path}"
  shows "if b then new_files s t = {} else True"
proof (cases b)
  case True
  have "False" if f: "f \<in> new_files s t" for f
  proof -
    have "fst f = path" using assms(1,3) f by auto
    moreover have "f \<in> set (key_files (pg_db t))" using f by (simp add: new_files_def)
    ultimately show False using assms(2) True by auto
  qed
  then show ?thesis by auto
qed simp

lemma commit_fails:
  assumes "commit_pairing E sk q s = (Inl e, t)"
  shows "untouched s t \<and> (case plan_commit E q of Inl _ \<Rightarrow> t = s
    | Inr p \<Rightarrow> invites t \<in> closings e (cp_invite p) s \<and> other_files (cp_path p) t = other_files (cp_path p) s \<and>
       (if st_unlinks E then new_files s t = {} else new_files s t = {} \<or> e = undestroyed) \<and>
       (if owned (cp_rel p) s \<and> cp_path p \<in> fst ` set (key_files (pg_db s)) then t = s else True))"
proof (cases "plan_commit E q")
  case (Inl e')
  then show ?thesis using assms by (simp add: commit_pairing_def prog_run new_files_def)
next
  case (Inr p)
  obtain r u where store: "store_pairing_key E (cp_rel p) (cp_path p) (cq_secret q) s = (r, u)"
    by (cases "store_pairing_key E (cp_rel p) (cp_path p) (cq_secret q) s")
  note stored = store_effect [OF store] and answers = store_answers [OF store]
  show ?thesis
  proof (cases r)
    case (Inl e')
    then have "e = e'" "t = u" using assms Inr store by (simp_all add: commit_pairing_def prog_run seq_run)
    moreover have "invites s \<in> closings e' (cp_invite p) s"
      using answers(2) [OF Inl] by (auto simp: closings_def undestroyed_def)
    ultimately show ?thesis using Inr Inl stored answers(1,3) by auto
  next
    case okay: (Inr y)
    obtain x v where run: "pairing_txn (commit_txn E sk q p) u = (x, v)" by (cases "pairing_txn (commit_txn E sk q p) u")
    have rest: "aborting (abort_commit E (cp_invite p) (cp_path p)) (pairing_txn (commit_txn E sk q p)) u = (Inl e, t)"
      using assms Inr store okay by (simp add: commit_pairing_def prog_run seq_run)
    then obtain e' where x: "x = Inl e'" using run by (cases x) (simp_all add: aborting_def)
    then have "v = u" using rolled_back run by blast
    then have "abort_commit E (cp_invite p) (cp_path p) e' u = (Inl e :: pairing_exn + jval, t)" using rest run x by (simp add: aborting_def)
    note aborted = abort_effect [OF this]
    have "ended i n u = ended i n s" "burned i u = burned i s" for i n
      using stored(2) by (simp add: ended_def, cases "invite_of i s") (simp_all add: burned_def ended_def invite_of_def)
    then have "closings e (cp_invite p) u = closings e (cp_invite p) s"
      using stored(2) by (cases e) (simp_all add: closings_def)
    moreover have "new_files s t = {} \<or> \<not> st_unlinks E \<and> e = undestroyed"
    proof -
      have new: "new_files s t \<subseteq> new_files s u" using aborted by (auto simp: new_files_def)
      have "new_files s t = {}" if "cp_path p \<notin> fst ` set (key_files (pg_db t))"
        using no_new_file [where b = True, OF new _ stored(3)] that by simp
      then show ?thesis using aborted by (auto split: if_splits)
    qed
    moreover have "\<not> (owned (cp_rel p) s \<and> cp_path p \<in> fst ` set (key_files (pg_db s)))" using answers(3) okay by auto
    moreover have "untouched s t" using aborted stored(1) untouched_trans by blast
    ultimately show ?thesis using Inr aborted answers(1) by auto
  qed
qed

lemma commit_succeeds:
  assumes "commit_pairing E sk q s = (Inr c, t)"
  obtains p u invite peer policy where "plan_commit E q = Inr p" "untouched s u" "invites u = invites s"
    "commit_checked E sk q p invite peer s" "pick invite ''requested_policy'' = Inr policy" "t = paired_state E q p peer policy u"
    "cp_rel p \<notin> rl_id ` set (relationships (pg_db s))"
proof -
  from assms obtain p x u where p: "plan_commit E q = Inr p" and
    store: "store_pairing_key E (cp_rel p) (cp_path p) (cq_secret q) s = (Inr x, u)" and
    run: "aborting (abort_commit E (cp_invite p) (cp_path p)) (pairing_txn (commit_txn E sk q p)) u = (Inr c, t)"
    by (auto simp: commit_pairing_def prog_returns)
  obtain y v where txn: "pairing_txn (commit_txn E sk q p) u = (y, v)" by (cases "pairing_txn (commit_txn E sk q p) u")
  have "y = Inr c \<and> v = t"
  proof (cases y)
    case (Inl e)
    then have "abort_commit E (cp_invite p) (cp_path p) e v = (Inr c, t)" using run txn by (simp add: aborting_def)
    from abort_effect [OF this] show ?thesis by simp
  qed (use run txn in \<open>simp add: aborting_def\<close>)
  then have "commit_txn E sk q p u = (Inr c, t)"
    using txn by (auto simp: pairing_txn_def split: prod.splits sum.splits)
  from commit_txn_paired [OF this] obtain invite peer policy where
    "commit_checked E sk q p invite peer u" "pick invite ''requested_policy'' = Inr policy" "t = paired_state E q p peer policy u"
    "cp_rel p \<notin> rl_id ` set (relationships (pg_db u))" by blast
  moreover note eff = store_effect(1,2) [OF store]
  ultimately show ?thesis
    by (intro that [OF p eff]) (simp_all add: checked_untouched [OF eff] same_db [OF eff(1)])
qed

definition verified_by_humans :: "crypto \<Rightarrow> verification_row \<Rightarrow> jval \<Rightarrow> jval \<Rightarrow> bool" where
  "verified_by_humans C v acceptance invite \<longleftrightarrow> pv_approved v \<and>
     bind_err (pick acceptance ''acceptor_card'') (fingerprint C) = Inr (pv_acceptor v) \<and>
     bind_err (pick invite ''inviter_card'') (fingerprint C) = Inr (pv_inviter v)"

definition genuine_answer :: "site \<Rightarrow> jval \<Rightarrow> jval \<Rightarrow> codes \<Rightarrow> bool" where
  "genuine_answer E acceptance invite identity \<longleftrightarrow>
     (case (pick acceptance ''invite_hash'', invite_hash (st_crypto E) invite, pick acceptance ''acceptor_card'', pick acceptance ''signature'') of
        (Inr given, Inr hash, Inr c, Inr sig) \<Rightarrow> given = VStr hash \<and> verify_card (st_crypto E) (st_now E) c = Inr ''VALID'' \<and>
          pick_text c ''identity_id'' = Inr identity \<and>
          verify_signature (st_crypto E) (VStr identity) sig (without_signature acceptance) = Inr ()
      | _ \<Rightarrow> False)"

lemma pick_text_value: "pick_text v k = Inr x \<longleftrightarrow> pick v k = Inr (VStr x)"
proof (cases "pick v k")
  case (Inr y)
  then show ?thesis by (cases y) (auto simp: pick_text_def)
qed (simp add: pick_text_def)

lemma live_card: "require_live_card C now c = Inr u \<longleftrightarrow> verify_card C now c = Inr ''VALID''"
  by (simp add: require_live_card_def split: sum.split)

lemma answers: "check_answers C acceptance invite = Inr u \<longleftrightarrow>
   (\<exists>hash. pick acceptance ''invite_hash'' = Inr (VStr hash) \<and> invite_hash C invite = Inr hash)"
  by (auto simp: check_answers_def bind_err_Inr)

lemma verified: "check_verified C c invite v = Inr u \<longleftrightarrow>
   (\<exists>w. v = Some w \<and> pv_approved w \<and> fingerprint C c = Inr (pv_acceptor w) \<and>
      bind_err (pick invite ''inviter_card'') (fingerprint C) = Inr (pv_inviter w))"
  by (cases v) (auto simp: check_verified_def bind_err_Inr)

lemma acceptance_checked:
  assumes "check_acceptance C now acceptance c invite = Inr u"
  shows "verify_card C now c = Inr ''VALID''"
    "\<exists>identity sig. pick c ''identity_id'' = Inr identity \<and> pick acceptance ''signature'' = Inr sig \<and>
       verify_signature C identity sig (without_signature acceptance) = Inr ()"
  using assms by (auto simp: check_acceptance_def bind_err_Inr live_card)

lemma keys_checked:
  assumes "check_keys C used acceptance = Inr (key, agreement)" shows "\<not> used (column_text key)"
proof -
  obtain k where "bind_err (pick acceptance ''deploy_public_key'') reject_private_material = Inr k"
    using assms by (cases "bind_err (pick acceptance ''deploy_public_key'') reject_private_material") (simp_all add: check_keys_def)
  then obtain v where "\<not> used (column_text k)" and
    "(case v of VStr a \<Rightarrow> if parse_agreement_key C a = None then Inl (BurnAndAbort ''bad_agreement_key'') else Inr (k, a)
      | _ \<Rightarrow> Inl (BurnAndAbort ''bad_agreement_key'')) = Inr (key, agreement)"
    using assms by (auto simp: check_keys_def bind_err_Inr [of "pick _ _"] split: if_splits)
  then show ?thesis by (cases v) (auto split: if_splits)
qed

lemma partner_verified:
  assumes "partner_of E sk acceptance invite caps v used = Inr peer"
  shows "\<exists>w. v = Some w \<and> verified_by_humans (st_crypto E) w acceptance invite" "genuine_answer E acceptance invite (pt_identity peer)"
    "\<not> used (column_text (pt_deploy peer))"
proof -
  from assms obtain c key agreement where "check_answers (st_crypto E) acceptance invite = Inr ()"
    "pick acceptance ''acceptor_card'' = Inr c" "check_verified (st_crypto E) c invite v = Inr ()"
    "check_acceptance (st_crypto E) (st_now E) acceptance c invite = Inr ()"
    "check_keys (st_crypto E) used acceptance = Inr (key, agreement)" "pt_deploy peer = key"
    "pick_text c ''identity_id'' = Inr (pt_identity peer)"
    unfolding partner_of_def Let_def bind_err_Inr by auto
  then show "\<exists>w. v = Some w \<and> verified_by_humans (st_crypto E) w acceptance invite" "genuine_answer E acceptance invite (pt_identity peer)"
    "\<not> used (column_text (pt_deploy peer))"
    using acceptance_checked [of "st_crypto E" "st_now E" acceptance c invite] keys_checked [of "st_crypto E" used acceptance key agreement]
    by (auto simp: answers verified verified_by_humans_def genuine_answer_def pick_text_value)
qed

lemma commit_pairs:
  assumes "commit_pairing E sk q s = (Inr c, t)"
  shows "\<exists>p invite v (peer :: partner) policy. plan_commit E q = Inr p \<and>
       map_of (invite_bodies s) (cp_invite p) = Some invite \<and> in_time E invite \<and>
       (\<exists>r \<in> set (invites s). iv_id r = cp_invite p \<and> iv_state r = (if cq_claim q then ''issued'' else ''accepted'')) \<and>
       verification_of (cp_invite p) s = Some v \<and> verified_by_humans (st_crypto E) v (cq_acceptance q) invite \<and>
       genuine_answer E (cq_acceptance q) invite (pt_identity peer) \<and>
       column_text (pt_deploy peer) \<notin> dk_key ` set (deploy_keys s) \<and>
       relationships (pg_db t) = relationships (pg_db s) @
         [pending_relationship (cp_rel p) (pt_identity peer) (pt_name peer) (pt_agreement peer) policy] \<and>
       key_epochs (pg_db t) = key_epochs (pg_db s) @ [first_key (cp_rel p) (cp_public p) (cp_path p)] \<and>
       deploy_keys t = deploy_keys s @ [\<lparr>dk_key = column_text (pt_deploy peer), dk_rel = cp_rel p, dk_at = stamp_text (st_now E)\<rparr>] \<and>
       spent (cp_invite p) t"
proof -
  obtain p u invite peer policy where plan: "plan_commit E q = Inr p" and mid: "untouched s u" "invites u = invites s"
    and ok: "commit_checked E sk q p invite peer s" and t: "t = paired_state E q p peer policy u"
    using commit_succeeds [OF assms] by metis
  have "spent (cp_invite p) t"
  proof -
    obtain r where r: "r \<in> set (invites u)" "iv_id r = cp_invite p"
      "iv_state r = (if cq_claim q then ''issued'' else ''accepted'')" using ok mid(2) by (auto simp: commit_checked_def)
    define x where "x = (if cq_claim q then r\<lparr>iv_state := ''accepted''\<rparr> else r)"
    have "x \<in> set (invites (claimed q (cp_invite p) u))"
      using r by (auto simp: x_def claimed_def move_invite_def update_where_def)
    moreover have x: "iv_id x = cp_invite p" "iv_state x = ''accepted''" using r by (auto simp: x_def)
    ultimately have "x\<lparr>iv_state := ''committed''\<rparr> \<in> set (invites t)"
      unfolding t paired_state_def by (force simp: move_invite_def update_where_def INVITE_STATES_def)
    then show ?thesis
      using x by (auto simp: spent_def terminal_def intro!: bexI [of _ "x\<lparr>iv_state := ''committed''\<rparr>"])
  qed
  moreover have "deploy_keys u = deploy_keys s" using mid(1) by (simp add: untouched_def)
  moreover from ok obtain v where "map_of (invite_bodies s) (cp_invite p) = Some invite" "in_time E invite"
    "\<exists>r \<in> set (invites s). iv_id r = cp_invite p \<and> iv_state r = (if cq_claim q then ''issued'' else ''accepted'')"
    "verification_of (cp_invite p) s = Some v" "verified_by_humans (st_crypto E) v (cq_acceptance q) invite"
    "genuine_answer E (cq_acceptance q) invite (pt_identity peer)"
    "column_text (pt_deploy peer) \<notin> dk_key ` set (deploy_keys s)"
    unfolding commit_checked_def by (metis partner_verified)
  moreover have "relationships (pg_db t) = relationships (pg_db s) @
      [pending_relationship (cp_rel p) (pt_identity peer) (pt_name peer) (pt_agreement peer) policy]"
    "key_epochs (pg_db t) = key_epochs (pg_db s) @ [first_key (cp_rel p) (cp_public p) (cp_path p)]"
    "deploy_keys t = deploy_keys s @ [\<lparr>dk_key = column_text (pt_deploy peer), dk_rel = cp_rel p, dk_at = stamp_text (st_now E)\<rparr>]"
    using same_db [OF mid(1)] mid(1) by (simp_all add: t paired_state_def untouched_def)
  ultimately show ?thesis using plan by - ((rule exI)+, intro conjI, assumption+)
qed

text \<open>C3. Pairing binds to what the humans verified. A commit that succeeds has a verification record with
  the approval of a human for exactly these two cards, an acceptance that answers the stored invite and is
  signed by the valid card's identity, an invite that had not expired and was free (issued, or accepted by
  the older sequence), and a deploy key never registered before; it adds one pending relationship with that
  identity, its first key and the deploy key, and spends the invite. A commit that fails changes no table but that of the invites, and there at most the
  state of the acceptance's own invite, as its answer tells: \<open>expired\<close> marks it expired, a refusal that
  burns cancels an invite that was issued or accepted, any other leaves it; after a failed destruction of the
  key it is one of the three, for that answer hides the refusal before it. Every other key file stays.
  A new key file is left only if it cannot be unlinked, and then the answer says so; a file already at the
  path of the new key may be removed, unless the relationship or its first key is in the database: then
  nothing at all changes.
\<close>

theorem pairing_only_as_verified:
  "case commit_pairing E sk q s of
     (Inl e, t) \<Rightarrow> untouched s t \<and> (case plan_commit E q of Inl _ \<Rightarrow> t = s
       | Inr p \<Rightarrow> invites t \<in> closings e (cp_invite p) s \<and> other_files (cp_path p) t = other_files (cp_path p) s \<and>
           (if st_unlinks E then new_files s t = {} else new_files s t = {} \<or> e = undestroyed) \<and>
           (if owned (cp_rel p) s \<and> cp_path p \<in> fst ` set (key_files (pg_db s)) then t = s else True))
   | (Inr commit, t) \<Rightarrow> \<exists>p invite v (peer :: partner) policy. plan_commit E q = Inr p \<and>
       map_of (invite_bodies s) (cp_invite p) = Some invite \<and> in_time E invite \<and>
       (\<exists>r \<in> set (invites s). iv_id r = cp_invite p \<and> iv_state r = (if cq_claim q then ''issued'' else ''accepted'')) \<and>
       verification_of (cp_invite p) s = Some v \<and> verified_by_humans (st_crypto E) v (cq_acceptance q) invite \<and>
       genuine_answer E (cq_acceptance q) invite (pt_identity peer) \<and>
       column_text (pt_deploy peer) \<notin> dk_key ` set (deploy_keys s) \<and>
       relationships (pg_db t) = relationships (pg_db s) @
         [pending_relationship (cp_rel p) (pt_identity peer) (pt_name peer) (pt_agreement peer) policy] \<and>
       key_epochs (pg_db t) = key_epochs (pg_db s) @ [first_key (cp_rel p) (cp_public p) (cp_path p)] \<and>
       deploy_keys t = deploy_keys s @ [\<lparr>dk_key = column_text (pt_deploy peer), dk_rel = cp_rel p, dk_at = stamp_text (st_now E)\<rparr>] \<and>
       spent (cp_invite p) t"
proof (cases "commit_pairing E sk q s")
  case (Pair r t)
  show ?thesis
  proof (cases r)
    case (Inl e)
    then show ?thesis using commit_fails [of E sk q s e t] Pair by simp
  next
    case (Inr c)
    then show ?thesis using commit_pairs [of E sk q s c t] Pair by simp
  qed
qed

text \<open>
  A late retry overwrites a terminal state: the expiry is checked before the state of the invite, and the
  handler moves the invite whatever its state is, so a committed or canceled invite becomes expired.
\<close>

lemma late_retry_expires:
  assumes "plan_commit E q = Inr p" "cq_claim q" "map_of (invite_bodies s) (cp_invite p) = Some invite"
    and row: "invite_of (cp_invite p) s = Some r" "iv_state r \<in> INVITE_STATES"
    and late: "check_invite_pure (st_crypto E) (st_now E) invite = Inl (PairingError ''expired'')"
    and os: "cp_path p \<notin> fst ` set (key_files (pg_db s))" "st_unlinks E" "st_wipes E"
  shows "fst (commit_pairing E sk q s) = Inl (PairingError ''expired'')"
    "r\<lparr>iv_state := ''expired''\<rparr> \<in> set (invites (snd (commit_pairing E sk q s)))"
proof -
  define u where "u = s\<lparr>pg_db := (pg_db s)\<lparr>key_files := key_files (pg_db s) @ [(cp_path p, cq_secret q)]\<rparr>\<rparr>"
  have stored: "store_pairing_key E (cp_rel p) (cp_path p) (cq_secret q) s = (Inr (), u)"
    using os(1) by (simp add: store_pairing_key_def store_key_def prog_run u_def)
  have "fst (commit_txn E sk q p u) = Inl (PairingError ''expired'') \<and> snd (commit_txn E sk q p u) = u"
    using assms(2,3) row(1) late by (simp add: commit_txn_def Let_def prog_run seq_run u_def invite_of_def claim_for_commit_def)
  then have txn: "pairing_txn (commit_txn E sk q p) u = (Inl (PairingError ''expired''), u\<lparr>pg_db := rollback (pg_db u) (pg_db u)\<rparr>)"
    by (auto simp: pairing_txn_def split: prod.splits)
  have gone: "fst (destroy_pairing_key E path x) = Inr () \<and> invites (snd (destroy_pairing_key E path x)) = invites x" for path x
    using os(2,3) by (simp add: destroy_pairing_key_def destroy_def prog_run seq_run)
  let ?w = "move_invite (cp_invite p) INVITE_STATES ''expired'' (u\<lparr>pg_db := rollback (pg_db u) (pg_db u)\<rparr>)"
  obtain x where x: "destroy_pairing_key E (cp_path p) ?w = (Inr (), x)" "invites x = invites ?w"
    using gone [of "cp_path p" ?w] by (metis prod.collapse)
  have run: "commit_pairing E sk q s = (Inl (PairingError ''expired''), x)"
    using assms(1) stored txn x(1) by (simp add: commit_pairing_def prog_run seq_run aborting_def abort_commit_def exec_def)
  have "r \<in> set (invites s)" "iv_id r = cp_invite p"
    using row(1) by (auto simp: invite_of_def dest: fetchone_Some_mem)
  then show "fst (commit_pairing E sk q s) = Inl (PairingError ''expired'')"
    "r\<lparr>iv_state := ''expired''\<rparr> \<in> set (invites (snd (commit_pairing E sk q s)))"
    using run x(2) row(2) by (force simp: u_def move_invite_def update_where_def)+
qed

section \<open>Histories\<close>

text \<open>The operations of the ceremony on one store, in any order and with any arguments.\<close>

datatype pairing_op =
    OpCreate site str jval bytes bytes "codes list" jval
  | OpPreview site jval
  | OpValidate site jval
  | OpReset str
  | OpAccept site jval jval bytes jval jval
  | OpRecord site str str str bool
  | OpDisplay site str str str
  | OpConfirm site str str str
  | OpBurn str
  | OpCommit site bytes commit_request
  | OpIngest site jval jval codes str fields

fun after_op :: "pairing_op \<Rightarrow> pairing \<Rightarrow> pairing" where
  "after_op (OpCreate E iid c sk x caps policy) s = snd (create_invite E iid c sk x caps policy s)"
| "after_op (OpPreview E invite) s = snd (preview_invite E invite s)"
| "after_op (OpValidate E invite) s = snd (validate_invite E invite s)"
| "after_op (OpReset iid) s = snd (reset_invite_for_retry iid s)"
| "after_op (OpAccept E invite c sk a d) s = snd (create_acceptance E invite c sk a d s)"
| "after_op (OpRecord E iid x y ok) s = snd (record_verification E iid x y ok s)"
| "after_op (OpDisplay E iid x y) s = snd (record_displayed_phrase E iid x y s)"
| "after_op (OpConfirm E iid x y) s = snd (confirm_verification E iid x y s)"
| "after_op (OpBurn iid) s = snd (burn_invite iid s)"
| "after_op (OpCommit E sk q) s = snd (commit_pairing E sk q s)"
| "after_op (OpIngest E c invite k ref mine) s = snd (ingest_commit E c invite k ref mine s)"

text \<open>The invite that an operation commits, if it does: the commit document names it.\<close>

definition commits :: "pairing_op \<Rightarrow> pairing \<Rightarrow> str list" where
  "commits op s = (case op of
     OpCommit E sk q \<Rightarrow> (case (commit_pairing E sk q s, bind_err (pick (cq_acceptance q) ''invite_id'') require_uuid4) of
       ((Inr _, _), Inr iid) \<Rightarrow> [iid] | _ \<Rightarrow> [])
   | _ \<Rightarrow> [])"

fun all_commits :: "pairing_op list \<Rightarrow> pairing \<Rightarrow> str list" where
  "all_commits [] s = []"
| "all_commits (op # ops) s = commits op s @ all_commits ops (after_op op s)"

lemma after_op_spent: "spent_for_good ids s \<Longrightarrow> spent_for_good ids (after_op op s)"
  by (cases op) (simp_all add: preservesD pres_intros)

lemma plan_invite: "plan_commit E q = Inr p \<Longrightarrow> bind_err (pick (cq_acceptance q) ''invite_id'') require_uuid4 = Inr (cp_invite p)"
  by (auto simp: plan_commit_def bind_err_Inr Let_def split: option.splits)

lemma committed_once:
  assumes "unique_key iv_id (invites s)" and "iid \<in> set (commits op s)"
  shows "\<not> spent iid s" "spent iid (after_op op s)"
proof -
  obtain E sk q where op: "op = OpCommit E sk q" using assms(2) by (cases op) (simp_all add: commits_def)
  obtain r t where ran: "commit_pairing E sk q s = (r, t)" by (cases "commit_pairing E sk q s")
  obtain c where run: "commit_pairing E sk q s = (Inr c, t)"
    using assms(2) op ran by (cases r) (simp_all add: commits_def)
  obtain i where i: "bind_err (pick (cq_acceptance q) ''invite_id'') require_uuid4 = Inr i"
    using assms(2) op run by (cases "bind_err (pick (cq_acceptance q) ''invite_id'') require_uuid4") (simp_all add: commits_def)
  then have id: "i = iid" using assms(2) op run by (simp_all add: commits_def)
  from commit_pairs [OF run] obtain p where p: "plan_commit E q = Inr p"
    "\<exists>r \<in> set (invites s). iv_id r = cp_invite p \<and> iv_state r = (if cq_claim q then ''issued'' else ''accepted'')"
    "spent (cp_invite p) t" by blast
  have iid: "cp_invite p = iid" using plan_invite [OF p(1)] i id by simp
  show "spent iid (after_op op s)" using p(3) iid run op by simp
  show "\<not> spent iid s"
  proof
    assume "spent iid s"
    then obtain x where x: "x \<in> set (invites s)" "iv_id x = iid" "iv_state x \<in> terminal" by (auto simp: spent_def)
    obtain r where r: "r \<in> set (invites s)" "iv_id r = iid" "iv_state r = (if cq_claim q then ''issued'' else ''accepted'')"
      using p(2) iid by auto
    have "x = r" using unique_key_same [OF assms(1) x(1) r(1)] x(2) r(2) by simp
    then show False using x(3) r(3) by (auto simp: terminal_def split: if_splits)
  qed
qed

lemma commits_apart:
  "spent_for_good ids s \<Longrightarrow> distinct (all_commits ops s) \<and> set (all_commits ops s) \<inter> ids = {}"
proof (induction ops arbitrary: ids s)
  case (Cons op ops)
  have u: "unique_key iv_id (invites s)" and old: "\<forall>iid \<in> ids. spent iid s" using Cons.prems by (auto simp: spent_for_good_def)
  have after: "spent_for_good (ids \<union> set (commits op s)) (after_op op s)"
    using after_op_spent [OF Cons.prems, of op] committed_once(2) [OF u] by (auto simp: spent_for_good_def)
  have "distinct (commits op s)" by (simp add: commits_def split: pairing_op.split sum.split prod.split)
  moreover have "set (commits op s) \<inter> ids = {}" using committed_once(1) [OF u] old by auto
  moreover have "distinct (all_commits ops (after_op op s)) \<and>
      set (all_commits ops (after_op op s)) \<inter> (ids \<union> set (commits op s)) = {}" by (rule Cons.IH [OF after])
  ultimately show ?case by (simp add: Int_Un_distrib Int_Un_distrib2 Int_commute)
qed simp

definition sample_pairing :: pairing where
  "sample_pairing = \<lparr>pg_db = empty_db,
     invites = [\<lparr>iv_id = ''00000000-0000-4000-8000-000000000001'', iv_state = ''accepted'', iv_issued = ''i'', iv_expires = ''e''\<rparr>,
       \<lparr>iv_id = ''00000000-0000-4000-8000-000000000002'', iv_state = ''committed'', iv_issued = ''i'', iv_expires = ''e''\<rparr>],
     invite_bodies = [], pairing_acceptances = [], pairing_verifications = [], deploy_keys = []\<rparr>"

definition sample_pairing_ops :: "pairing_op list" where
  "sample_pairing_ops = [OpReset ''00000000-0000-4000-8000-000000000002'', OpReset ''00000000-0000-4000-8000-000000000001'',
     OpBurn ''00000000-0000-4000-8000-000000000001'', OpReset ''00000000-0000-4000-8000-000000000001'']"

lemma sample_pairing_moves:
  "map iv_state (invites sample_pairing) = [''accepted'', ''committed'']"
  "map iv_state (invites (fold after_op (take 2 sample_pairing_ops) sample_pairing)) = [''issued'', ''committed'']"
  "map iv_state (invites (fold after_op sample_pairing_ops sample_pairing)) = [''canceled'', ''committed'']"
proof -
  have "uuid_matches ''00000000-0000-4000-8000-000000000001''" by code_simp
  then show "map iv_state (invites sample_pairing) = [''accepted'', ''committed'']"
    "map iv_state (invites (fold after_op (take 2 sample_pairing_ops) sample_pairing)) = [''issued'', ''committed'']"
    "map iv_state (invites (fold after_op sample_pairing_ops sample_pairing)) = [''canceled'', ''committed'']"
    by (simp_all add: sample_pairing_def sample_pairing_ops_def reset_invite_for_retry_def burn_invite_def require_id_def
        pairing_txn_def prog_run seq_run invite_of_def fetchone_def move_invite_def update_where_def INVITE_STATES_def)
qed

text \<open>C10. An invite is single use. In any history of the operations of the ceremony on one store, whatever
  their order and arguments, no invite is committed twice, and none that was committed, expired or
  canceled before the history began.
\<close>

theorem invite_single_use:
  assumes "unique_key iv_id (invites s)"
  shows "distinct (all_commits ops s) \<and> (\<forall>iid \<in> set (all_commits ops s). \<not> spent iid s)"
proof -
  have "spent_for_good {iid. spent iid s} s" using assms by (simp add: spent_for_good_def)
  from commits_apart [OF this, of ops] show ?thesis by auto
qed


theorem invite_single_use_witness:
  "map iv_state (invites sample_pairing) = [''accepted'', ''committed''] \<and>
   map iv_state (invites (fold after_op sample_pairing_ops sample_pairing)) = [''canceled'', ''committed''] \<and>
   distinct (all_commits sample_pairing_ops sample_pairing)"
  using invite_single_use [of sample_pairing sample_pairing_ops] sample_pairing_moves
  by (simp add: unique_key_def sample_pairing_def)

end
