(* ===== verification/HonestRun.thy ===== *)
theory HonestRun
  imports Ceremony
begin

text \<open>
  The ceremony between two honest sides: create, accept, display, confirm, commit and ingest, with the
  stores of both. It completes, and the two relationships mirror each other.
\<close>

section \<open>Texts\<close>

lemma column_ascii: "(\<forall>c \<in> set s. (of_char c :: nat) < 128) \<Longrightarrow> column_text (codes_of s) = s"
  by (induction s) (simp_all add: column_text_def utf8_encode_def utf8_char_def)

lemma hex_ascii: "is_hex c \<or> c = CHR ''-'' \<or> c = CHR 0x0A \<Longrightarrow> (of_char c :: nat) < 128"
  by (auto simp: is_hex_def is_digit_def)

lemma uuid_shape_ascii: "uuid_shape s \<Longrightarrow> c \<in> set s \<Longrightarrow> (of_char c :: nat) < 128"
proof -
  assume s: "uuid_shape s" and c: "c \<in> set s"
  obtain i where i: "i < length s" "c = s ! i" using c by (auto simp: in_set_conv_nth)
  have "i \<in> {0..<36}" using s i(1) unfolding uuid_shape_def atLeastLessThan_iff by linarith
  then have "if i \<in> {8, 13, 18, 23} then s ! i = CHR ''-'' else is_hex (s ! i)"
    using s unfolding uuid_shape_def by blast
  then have "is_hex c \<or> c = CHR ''-''" unfolding i(2) by (cases "i \<in> {8, 13, 18, 23}") simp_all
  then show ?thesis using hex_ascii by blast
qed

lemma uuid_ascii: "uuid_matches s \<Longrightarrow> c \<in> set s \<Longrightarrow> (of_char c :: nat) < 128"
proof -
  assume "uuid_matches s" "c \<in> set s"
  then have "uuid_shape s \<and> c \<in> set s \<or> uuid_shape (butlast s) \<and> (c = CHR 0x0A \<or> c \<in> set (butlast s))"
    unfolding uuid_matches_def by (cases s rule: rev_cases) auto
  then show ?thesis using uuid_shape_ascii hex_ascii by blast
qed

lemma uuid_column: "uuid_matches s \<Longrightarrow> column_text (codes_of s) = s"
  using uuid_ascii column_ascii by blast

lemma uuid_back: "uuid_matches s \<Longrightarrow> require_uuid4 (VStr (codes_of s)) = Inr s"
  by (simp add: require_uuid4_def uuid_column)

lemma stamp_moment: "in_range \<lfloor>now\<rfloor> \<Longrightarrow> moment (VStr (codes_of (stamp_text now))) = Inr \<lfloor>now\<rfloor>"
  using parse_written_timestamp [OF parse_format] by (simp add: moment_def stamp_text_def)

section \<open>Documents with their own signature\<close>

definition with_signature :: "fields \<Rightarrow> bytes \<Rightarrow> jval" where
  "with_signature fs sig = VObj (fs @ [(codes_of ''signature'', VStr (b64url_encode sig))])"

lemma signed_document:
  "signed C sk fs = Inr doc \<longleftrightarrow> (\<exists>msg. restricted_jcs (VObj fs) = Inr msg \<and> doc = with_signature fs (ed_sign C sk msg))"
  by (auto simp: signed_def canonical_def with_signature_def bind_err_Inr split: sum.splits)

lemma matching_key:
  assumes "sound_crypto C" "byte_list (ed_public C sk)" "card_matches_key C doc sk = Inr u"
  obtains identity where "pick doc ''identity_id'' = Inr (VStr identity)" "identity_key C (VStr identity) = Some (ed_public C sk)"
proof -
  obtain identity fs where i: "identity_id_from_pubkey C (ed_public C sk) = Some identity" and d: "doc = VObj fs"
    and "card_field fs ''identity_id'' = VStr identity"
    using assms(3) by (auto simp: card_matches_key_def split: option.splits jval.splits if_splits)
  then have "pick doc ''identity_id'' = Inr (VStr identity)"
    by (auto simp: pick_def card_field_def split: option.splits)
  moreover have "identity_key C (VStr identity) = Some (ed_public C sk)"
    using parse_own_identity [OF assms(1) i assms(2)] by (simp add: identity_key_def codes_value_def)
  ultimately show ?thesis using that by blast
qed

lemma own_signature:
  assumes "sound_crypto C" and "identity_key C identity = Some (ed_public C sk)"
    and "restricted_jcs (VObj fs) = Inr msg" and "\<forall>e \<in> set fs. fst e \<noteq> codes_of ''signature''"
  shows "verify_signature C identity (VStr (b64url_encode (ed_sign C sk msg)))
     (without_signature (with_signature fs (ed_sign C sk msg))) = Inr ()"
proof -
  have "filter (\<lambda>e. fst e \<noteq> codes_of ''signature'') fs = fs" using assms(4) by (simp add: filter_id_conv)
  then have "without_signature (with_signature fs (ed_sign C sk msg)) = VObj fs"
    by (simp add: without_signature_def with_signature_def)
  then show ?thesis
    using assms(2,3) sound_cryptoD(7-9) [OF assms(1)] b64url_round_trip
    by (simp add: verify_signature_def base64_value_def codes_value_def)
qed

section \<open>The invite\<close>

lemma invite_made:
  assumes "create_invite E iid doc sk ephemeral capabilities policy s = (Inr invite, s1)"
  obtains caps key msg where "normalize_capabilities capabilities = Some caps"
    "verify_card (st_crypto E) (st_now E) doc = Inr ''VALID''" "card_matches_key (st_crypto E) doc sk = Inr ()"
    "restricted_jcs (VObj (unsigned_invite (codes_of iid) doc key caps policy (st_now E))) = Inr msg"
    "invite = with_signature (unsigned_invite (codes_of iid) doc key caps policy (st_now E)) (ed_sign (st_crypto E) sk msg)"
    "validate (st_crypto E) ''invite'' invite = Inr ()" "iid \<notin> iv_id ` set (invites s)"
    "iid \<notin> fst ` set (invite_bodies s)"
    "s1 = s\<lparr>invites := invites s @ [\<lparr>iv_id = iid, iv_state = ''issued'', iv_issued = stamp_text (st_now E),
       iv_expires = stamp_text (st_now E + of_int INVITE_LIFETIME)\<rparr>], invite_bodies := invite_bodies s @ [(iid, invite)]\<rparr>"
proof -
  from assms have built: "build_invite E iid doc sk ephemeral capabilities policy = Inr invite" and
    txn: "pairing_txn (seq (add_row iv_id \<lparr>iv_id = iid, iv_state = ''issued'', iv_issued = stamp_text (st_now E),
           iv_expires = stamp_text (st_now E + of_int INVITE_LIFETIME)\<rparr> invites invites_update) (\<lambda>_.
         add_row fst (iid, invite) invite_bodies invite_bodies_update)) s = (Inr (), s1)"
    by (auto simp: create_invite_def prog_returns)
  from txn have rows: "iid \<notin> iv_id ` set (invites s)" "iid \<notin> fst ` set (invite_bodies s)"
    "s1 = s\<lparr>invites := invites s @ [\<lparr>iv_id = iid, iv_state = ''issued'', iv_issued = stamp_text (st_now E),
       iv_expires = stamp_text (st_now E + of_int INVITE_LIFETIME)\<rparr>], invite_bodies := invite_bodies s @ [(iid, invite)]\<rparr>"
    by (auto simp: pairing_txn_def add_row_def seq_run split: prod.splits sum.splits if_splits)
  from built obtain caps key where m: "normalize_capabilities capabilities = Some caps"
    "require_live_card (st_crypto E) (st_now E) doc = Inr ()" "card_matches_key (st_crypto E) doc sk = Inr ()"
    "signed (st_crypto E) sk (unsigned_invite (codes_of iid) doc key caps policy (st_now E)) = Inr invite"
    "validate (st_crypto E) ''invite'' invite = Inr ()"
    by (auto simp: build_invite_def Let_def bind_err_Inr split: option.splits jval.splits)
  from m(4) obtain msg where sig: "restricted_jcs (VObj (unsigned_invite (codes_of iid) doc key caps policy (st_now E))) = Inr msg"
    "invite = with_signature (unsigned_invite (codes_of iid) doc key caps policy (st_now E)) (ed_sign (st_crypto E) sk msg)"
    by (auto simp: signed_document)
  show ?thesis by (rule that [OF m(1) iffD1 [OF live_card m(2)] m(3) sig m(5) rows])
qed

text \<open>What the fields of the documents hold.\<close>

lemma pick_invite:
  assumes "invite = with_signature (unsigned_invite iid doc key caps policy now) sig"
  shows "pick invite ''invite_id'' = Inr (VStr iid)" "pick invite ''inviter_card'' = Inr doc"
    "pick invite ''requested_capabilities'' = Inr (VArr (map VStr caps))" "pick invite ''requested_policy'' = Inr policy"
    "pick invite ''issued_at'' = Inr (VStr (codes_of (stamp_text now)))"
    "pick invite ''expires_at'' = Inr (VStr (codes_of (stamp_text (now + of_int INVITE_LIFETIME))))"
    "pick invite ''signature'' = Inr (VStr (b64url_encode sig))"
  by (simp_all add: assms with_signature_def unsigned_invite_def pick_def)

lemma unsigned_keys:
  "\<forall>e \<in> set (unsigned_invite iid doc key caps policy now). fst e \<noteq> codes_of ''signature''"
  "\<forall>e \<in> set (unsigned_acceptance iid2 hash doc agreement deploy now). fst e \<noteq> codes_of ''signature''"
  "\<forall>e \<in> set (unsigned_commit rid iid3 url slots caps agreement now). fst e \<noteq> codes_of ''signature''"
  by (simp_all add: unsigned_invite_def unsigned_acceptance_def unsigned_commit_def)

lemma later_check:
  assumes "sound_crypto C" "byte_list (ed_public C sk)" "card_matches_key C doc sk = Inr ()"
    and made: "restricted_jcs (VObj (unsigned_invite iid doc key caps policy now)) = Inr msg"
      "invite = with_signature (unsigned_invite iid doc key caps policy now) (ed_sign C sk msg)"
    and "validate C ''invite'' invite = Inr ()" "verify_card C later doc = Inr ''VALID''"
    and time: "in_range \<lfloor>now\<rfloor>" "in_range (\<lfloor>now\<rfloor> + 900)" "of_int \<lfloor>now\<rfloor> \<le> later + 300" "later < of_int (\<lfloor>now\<rfloor> + 900)"
  shows "check_invite_pure C later invite = Inr ()"
proof -
  obtain identity where id: "pick doc ''identity_id'' = Inr (VStr identity)" "identity_key C (VStr identity) = Some (ed_public C sk)"
    using matching_key [OF assms(1-3)] by blast
  note field = pick_invite [OF made(2)]
  have floor: "\<lfloor>now + of_int INVITE_LIFETIME\<rfloor> = \<lfloor>now\<rfloor> + 900" by (simp add: INVITE_LIFETIME_def)
  have "verify_signature C (VStr identity) (VStr (b64url_encode (ed_sign C sk msg))) (without_signature invite) = Inr ()"
    unfolding made(2) by (rule own_signature [OF assms(1) id(2) made(1) unsigned_keys(1)])
  moreover have "moment (VStr (codes_of (stamp_text now))) = Inr \<lfloor>now\<rfloor>"
    "moment (VStr (codes_of (stamp_text (now + of_int INVITE_LIFETIME)))) = Inr (\<lfloor>now\<rfloor> + 900)"
    using stamp_moment [of now] stamp_moment [of "now + of_int INVITE_LIFETIME"] time(1,2) floor by simp_all
  ultimately show ?thesis
    unfolding check_invite_pure_def assms(6) field bind_err_simps id(1)
    using assms(7) time(3,4) by (simp add: require_live_card_def check_lifetime_def INVITE_LIFETIME_def MAX_CLOCK_SKEW_def)
qed

section \<open>The acceptance\<close>

lemma pick_acceptance:
  assumes "acceptance = with_signature (unsigned_acceptance iid hash doc agreement deploy now) sig"
  shows "pick acceptance ''invite_id'' = Inr iid" "pick acceptance ''invite_hash'' = Inr (VStr hash)"
    "pick acceptance ''acceptor_card'' = Inr doc" "pick acceptance ''relationship_agreement_key'' = Inr (VStr agreement)"
    "pick acceptance ''deploy_public_key'' = Inr (VStr deploy)"
    "pick acceptance ''accepted_at'' = Inr (VStr (codes_of (stamp_text now)))"
    "pick acceptance ''signature'' = Inr (VStr (b64url_encode sig))"
  by (simp_all add: assms with_signature_def unsigned_acceptance_def pick_def)

lemma material_kept: "reject_private_material v = Inr t \<Longrightarrow> v = VStr t"
  by (auto simp: reject_private_material_def split: jval.splits if_splits)

lemma acceptance_made:
  assumes "create_acceptance E invite doc sk agreement deploy s = (Inr acceptance, s1)"
    and "invite = with_signature (unsigned_invite (codes_of iid) idoc key caps policy now) sig"
  obtains akey dkey hash msg where "agreement = VStr akey" "deploy = VStr dkey" "parse_agreement_key (st_crypto E) akey \<noteq> None"
    "ssh_pubkey_matches dkey" "reject_private_material (VStr dkey) = Inr dkey" "invite_hash (st_crypto E) invite = Inr hash"
    "verify_card (st_crypto E) (st_now E) doc = Inr ''VALID''" "card_matches_key (st_crypto E) doc sk = Inr ()"
    "restricted_jcs (VObj (unsigned_acceptance (VStr (codes_of iid)) hash doc akey dkey (st_now E))) = Inr msg"
    "acceptance = with_signature (unsigned_acceptance (VStr (codes_of iid)) hash doc akey dkey (st_now E)) (ed_sign (st_crypto E) sk msg)"
    "validate (st_crypto E) ''invite-acceptance'' acceptance = Inr ()" "pg_db s1 = pg_db s"
proof -
  from assms(1) have built: "build_acceptance E invite doc sk agreement deploy = Inr acceptance" and "pg_db s1 = pg_db s"
    by (auto simp: create_acceptance_def prog_returns)
  from built obtain akey dkey hash where m: "reject_private_material agreement = Inr akey" "reject_private_material deploy = Inr dkey"
    "parse_agreement_key (st_crypto E) akey \<noteq> None" "ssh_pubkey_matches dkey" "invite_hash (st_crypto E) invite = Inr hash"
    "require_live_card (st_crypto E) (st_now E) doc = Inr ()" "card_matches_key (st_crypto E) doc sk = Inr ()"
    "signed (st_crypto E) sk (unsigned_acceptance (VStr (codes_of iid)) hash doc akey dkey (st_now E)) = Inr acceptance"
    "validate (st_crypto E) ''invite-acceptance'' acceptance = Inr ()"
    by (auto simp: build_acceptance_def Let_def bind_err_Inr pick_invite(1) [OF assms(2)] split: if_splits)
  note texts = m(1,2) [THEN material_kept]
  from m(8) obtain msg where sig: "restricted_jcs (VObj (unsigned_acceptance (VStr (codes_of iid)) hash doc akey dkey (st_now E))) = Inr msg"
    "acceptance = with_signature (unsigned_acceptance (VStr (codes_of iid)) hash doc akey dkey (st_now E)) (ed_sign (st_crypto E) sk msg)"
    by (auto simp: signed_document)
  show ?thesis
    by (rule that [OF texts m(3,4) m(2) [unfolded texts(2)] m(5) iffD1 [OF live_card m(6)] m(7) sig m(9) \<open>pg_db s1 = pg_db s\<close>])
qed

section \<open>Cards\<close>

text \<open>The capabilities a card offers.\<close>

definition offered :: "jval \<Rightarrow> codes set" where
  "offered doc = (case doc of
     VObj fs \<Rightarrow> (case capability_list (card_field fs ''capabilities'') of None \<Rightarrow> {} | Some caps \<Rightarrow> set caps) | _ \<Rightarrow> {})"

lemma text_list_inverse: "text_list vs = Some ts \<Longrightarrow> vs = map VStr ts"
  by (induction vs arbitrary: ts rule: text_list.induct) auto

lemma field_picked: "card_field fs k = v \<Longrightarrow> v \<noteq> VNull \<Longrightarrow> pick (VObj fs) k = Inr v"
  by (auto simp: card_field_def pick_def split: option.splits)

lemma verify_fields_caps:
  assumes "verify_fields C now fs = Inr ''VALID''"
  shows "\<exists>caps. capability_list (card_field fs ''capabilities'') = Some caps" "is_label (card_field fs ''display_name'')"
  using assms by (auto simp: verify_fields_def split: if_splits option.splits)

lemma valid_card:
  assumes "verify_card C now doc = Inr ''VALID''"
  obtains fs caps name where "doc = VObj fs" "card_field fs ''capabilities'' = VArr (map VStr caps)" "offered doc = set caps"
    "pick doc ''capabilities'' = Inr (VArr (map VStr caps))" "pick doc ''display_name'' = Inr (VStr name)"
proof -
  from assms obtain fs where doc: "doc = VObj fs" and ok: "verify_fields C now fs = Inr ''VALID''"
    by (auto simp: verify_card_def split: jval.splits if_splits)
  obtain caps where caps: "capability_list (card_field fs ''capabilities'') = Some caps" using verify_fields_caps(1) [OF ok] by blast
  then have field: "card_field fs ''capabilities'' = VArr (map VStr caps)"
    by (auto simp: capability_list_def text_list_inverse split: jval.splits)
  obtain name where "card_field fs ''display_name'' = VStr name"
    using verify_fields_caps(2) [OF ok] by (auto simp: is_label_def split: jval.splits)
  then show ?thesis
    using that [OF doc field] field caps doc by (simp add: offered_def field_picked)
qed

lemma normalized_set: "normalize_capabilities caps = Some ns \<Longrightarrow> set ns = set caps"
  by (auto simp: normalize_capabilities_def split: if_splits)

section \<open>The commit\<close>

lemma partner_found:
  assumes "sound_crypto C" "st_crypto E = C"
    and "byte_list (ed_public C ask)" "card_matches_key C acard ask = Inr ()" "card_matches_key C icard isk = Inr ()"
    and inv: "invite = with_signature (unsigned_invite iid icard ikey rcaps policy inow) isig"
    and acc: "acceptance = with_signature (unsigned_acceptance aid hash acard akey dkey anow) (ed_sign C ask msg)"
    and jcs: "restricted_jcs (VObj (unsigned_acceptance aid hash acard akey dkey anow)) = Inr msg"
    and "invite_hash C invite = Inr hash" "parse_agreement_key C akey \<noteq> None" "ssh_pubkey_matches dkey"
    "reject_private_material (VStr dkey) = Inr dkey" "\<not> used (column_text dkey)"
    and v: "pv_approved v" "fingerprint C acard = Inr (pv_acceptor v)" "fingerprint C icard = Inr (pv_inviter v)"
    and live: "verify_card C (st_now E) acard = Inr ''VALID''" "verify_card C (st_now E) icard = Inr ''VALID''"
    and caps: "set rcaps \<subseteq> set caps" "set caps \<subseteq> offered icard \<inter> offered acard"
    and time: "in_range \<lfloor>inow\<rfloor>" "in_range \<lfloor>anow\<rfloor>" "inow \<le> anow" "of_int \<lfloor>anow\<rfloor> \<le> st_now E + 300"
  obtains identity name where "partner_of E isk acceptance invite caps (Some v) used =
       Inr \<lparr>pt_identity = identity, pt_name = name, pt_deploy = dkey, pt_agreement = akey\<rparr>"
    "pick acard ''identity_id'' = Inr (VStr identity)" "pick acard ''display_name'' = Inr (VStr name)"
proof -
  obtain identity where id: "pick acard ''identity_id'' = Inr (VStr identity)" "identity_key C (VStr identity) = Some (ed_public C ask)"
    using matching_key [OF assms(1,3,4)] by blast
  obtain afs acaps name where a: "acard = VObj afs" "offered acard = set acaps"
    "pick acard ''capabilities'' = Inr (VArr (map VStr acaps))" "pick acard ''display_name'' = Inr (VStr name)"
    using valid_card [OF live(1)] by metis
  obtain ifs icaps where i: "icard = VObj ifs" "offered icard = set icaps" "pick icard ''capabilities'' = Inr (VArr (map VStr icaps))"
    using valid_card [OF live(2)] by metis
  note ifields = pick_invite [OF inv] and afields = pick_acceptance [OF acc]
  have "check_answers C acceptance invite = Inr ()" using assms(9) afields(2) by (simp add: answers)
  moreover have "check_verified C acard invite (Some v) = Inr ()" using v ifields(2) by (simp add: verified)
  moreover have "check_acceptance C (st_now E) acceptance acard invite = Inr ()"
  proof -
    have "verify_signature C (VStr identity) (VStr (b64url_encode (ed_sign C ask msg))) (without_signature acceptance) = Inr ()"
      unfolding acc by (rule own_signature [OF assms(1) id(2) jcs unsigned_keys(2)])
    moreover have "\<lfloor>inow\<rfloor> \<le> \<lfloor>anow\<rfloor>" using time(3) by (rule floor_mono)
    ultimately show ?thesis
      using live(1) id(1) ifields(5) afields(6,7) stamp_moment [OF time(1)] stamp_moment [OF time(2)] time(4)
      by (simp add: check_acceptance_def require_live_card_def MAX_CLOCK_SKEW_def)
  qed
  moreover have "check_keys C used acceptance = Inr (dkey, akey)"
    using afields(4,5) assms(10-13) by (simp add: check_keys_def)
  moreover have "check_negotiated caps (VArr (map VStr rcaps)) (VArr (map VStr acaps)) (VArr (map VStr icaps)) = Inr ()"
    using caps a(2) i(2) by (auto simp: check_negotiated_def set_of_values_def iterated_def hashable_def list_all_iff)
  ultimately have "partner_of E isk acceptance invite caps (Some v) used =
       Inr \<lparr>pt_identity = identity, pt_name = name, pt_deploy = dkey, pt_agreement = akey\<rparr>"
    using assms(2,5) afields(3) ifields(2,3) a(3,4) i(3) id(1) by (simp add: partner_of_def Let_def pick_text_def)
  then show ?thesis using that id(1) a(4) by blast
qed

lemma commit_runs:
  assumes plan: "plan_commit E q = Inr p" "cq_claim q"
    and found: "map_of (invite_bodies s) (cp_invite p) = Some invite" "invite_of (cp_invite p) s = Some row"
      "rowcount (\<lambda>r. iv_id r = cp_invite p \<and> iv_state r \<in> {''issued''}) (invites s) = 1"
    and checks: "check_invite_pure (st_crypto E) (st_now E) invite = Inr ()"
      "partner_of E sk (cq_acceptance q) invite (cp_caps p) (verification_of (cp_invite p) s) (\<lambda>key. key \<in> dk_key ` set (deploy_keys s)) = Inr peer"
      "signed (st_crypto E) sk (unsigned_commit (cp_rel p) (cp_invite p) (cp_url p) (cp_slots p) (cp_caps p) (cp_public p) (st_now E)) = Inr commit"
      "pick invite ''requested_policy'' = Inr policy"
    and free: "cp_path p \<notin> fst ` set (key_files (pg_db s))" "cp_rel p \<notin> rl_id ` set (relationships (pg_db s))"
      "(cp_rel p, 1) \<notin> key_id ` set (key_epochs (pg_db s))" "column_text (pt_deploy peer) \<notin> dk_key ` set (deploy_keys s)"
  obtains t where "commit_pairing E sk q s = (Inr commit, t)"
    "relationships (pg_db t) = relationships (pg_db s) @ [pending_relationship (cp_rel p) (pt_identity peer) (pt_name peer) (pt_agreement peer) policy]"
    "key_epochs (pg_db t) = key_epochs (pg_db s) @ [first_key (cp_rel p) (cp_public p) (cp_path p)]"
proof -
  let ?d = "(pg_db s)\<lparr>key_files := key_files (pg_db s) @ [(cp_path p, cq_secret q)]\<rparr>"
  define u where "u = s\<lparr>pg_db := ?d\<rparr>"
  have stored: "store_pairing_key E (cp_rel p) (cp_path p) (cq_secret q) s = (Inr (), u)"
    using free(1) by (simp add: store_pairing_key_def store_key_def prog_run u_def)
  have same: "invite_bodies u = invite_bodies s" "invite_of i u = invite_of i s" "invites u = invites s" "deploy_keys u = deploy_keys s"
    "verification_of i u = verification_of i s" for i by (simp_all add: u_def invite_of_def verification_of_def)
  have claim: "claim_for_commit E True (cp_invite p) invite st u = (Inr (), move_invite (cp_invite p) {''issued''} ''accepted'' u)" for st
    using found(3) checks(1) same(3) by (simp add: claim_for_commit_def claim_invite_def prog_run seq_run)
  define w where "w = move_invite (cp_invite p) {''issued''} ''accepted'' u"
  have w: "pg_db w = ?d" "deploy_keys w = deploy_keys s" "verification_of i w = verification_of i s" for i
    by (simp_all add: w_def u_def move_invite_def verification_of_def)
  let ?rel = "pending_relationship (cp_rel p) (pt_identity peer) (pt_name peer) (pt_agreement peer) policy"
  let ?key = "first_key (cp_rel p) (cp_public p) (cp_path p)"
  have "\<exists>t. add_relationship ?rel ?key w = (Inr (), t) \<and> t = w\<lparr>pg_db := ?d\<lparr>relationships := relationships ?d @ [?rel],
      key_epochs := key_epochs ?d @ [?key]\<rparr>\<rparr>"
    using free(2,3) w(1) by (simp add: add_relationship_returns pending_relationship_def first_key_def key_id_def)
  then obtain x where x: "add_relationship ?rel ?key w = (Inr (), x)" and
    x_db: "pg_db x = ?d\<lparr>relationships := relationships ?d @ [?rel], key_epochs := key_epochs ?d @ [?key]\<rparr>" and
    x_keys: "deploy_keys x = deploy_keys s" using w(2) by auto
  obtain t where t: "commit_txn E sk q p u = (Inr commit, t)" "pg_db t = pg_db x"
    using found(1,2) same(1,2) plan(2) claim checks(2-4) w(2,3) x x_keys free(4)
    by (simp add: commit_txn_def Let_def prog_run seq_run w_def [symmetric] add_row_def exec_def ret_def)
      (simp add: move_invite_def)
  then have "commit_pairing E sk q s = (Inr commit, t)"
    using plan(1) stored by (simp add: commit_pairing_def prog_run seq_run aborting_def pairing_txn_def)
  then show ?thesis using that t(2) x_db by simp
qed

section \<open>The ingestion\<close>

lemma own_agreement:
  assumes "sound_crypto C" "agreement_text C sk = Inr k" shows "parse_agreement_key C k \<noteq> None"
proof -
  have "agreement_key_multibase_from_pubkey C (x_public C sk) = Some k"
    using assms(2) by (simp add: agreement_text_def split: option.splits)
  from parse_own_multibase [OF assms(1) this sound_cryptoD(6) [OF assms(1)]] show ?thesis by simp
qed

lemma slot_ok: "check_slot fs k = Inr t \<longleftrightarrow> card_field fs k = VStr t \<and> t \<noteq> [] \<and> (\<forall>c \<in> set t. c < 128) \<and> length t \<le> 128"
  by (cases "card_field fs k") (auto simp: check_slot_def not_le not_less)

lemma slots_again:
  assumes "check_slots v = Inr slots" shows "check_slots (VObj slots) = Inr slots"
proof -
  obtain fs a b where ab: "check_slot fs ''inviter_send_slot'' = Inr a" "check_slot fs ''inviter_receive_slot'' = Inr b" "a \<noteq> b" and
    slots: "slots = [(codes_of ''inviter_send_slot'', VStr a), (codes_of ''inviter_receive_slot'', VStr b)]"
    using assms by (cases v) (auto simp: check_slots_def bind_err_Inr split: if_splits)
  have "card_field slots ''inviter_send_slot'' = VStr a" "card_field slots ''inviter_receive_slot'' = VStr b"
    by (simp_all add: slots card_field_def)
  then have "check_slot slots ''inviter_send_slot'' = Inr a" "check_slot slots ''inviter_receive_slot'' = Inr b"
    using ab(1,2) by (simp_all add: slot_ok)
  then show ?thesis using ab(3) by (simp add: check_slots_def slots)
qed

lemma url_again: "check_relay_url v = Inr url \<Longrightarrow> check_relay_url (VStr url) = Inr url"
  by (auto simp: check_relay_url_def split: jval.splits if_splits)

lemma plan_parts:
  assumes "plan_commit E q = Inr p"
  shows "normalize_capabilities (cq_capabilities q) = Some (cp_caps p)" "check_slots (VObj (cp_slots p)) = Inr (cp_slots p)"
    "check_relay_url (VStr (cp_url p)) = Inr (cp_url p)" "agreement_text (st_crypto E) (cq_secret q) = Inr (cp_public p)"
  using assms by (auto simp: plan_commit_def bind_err_Inr Let_def slots_again url_again split: option.splits)

lemma pick_commit:
  assumes "commit = with_signature (unsigned_commit rid iid url slots caps agreement now) sig"
  shows "pick commit ''signature'' = Inr (VStr (b64url_encode sig))" "pick commit ''slots'' = Inr (VObj slots)"
    "pick commit ''repository_url'' = Inr (VStr url)" "pick commit ''committed_at'' = Inr (VStr (codes_of (stamp_text now)))"
    "pick commit ''negotiated_capabilities'' = Inr (VArr (map VStr caps))"
    "pick commit ''initial_key_epochs'' = Inr (VArr [VObj [(codes_of ''epoch'', VInt 1), (codes_of ''agreement_public_key'', VStr agreement)]])"
  by (simp_all add: assms with_signature_def unsigned_commit_def pick_def)

lemma commit_shape:
  assumes "commit = with_signature (unsigned_commit rid iid url slots caps agreement now) sig"
    and "invite = with_signature (unsigned_invite (codes_of iid) doc key rcaps policy inow) isig" and "uuid_matches rid"
  shows "check_commit_shape commit invite = Inr rid"
proof -
  have "card_field (unsigned_commit rid iid url slots caps agreement now @ [(codes_of ''signature'', v)]) ''relationship_id'' = VStr (codes_of rid)"
    "card_field (unsigned_commit rid iid url slots caps agreement now @ [(codes_of ''signature'', v)]) ''invite_id'' = VStr (codes_of iid)"
    "card_field (unsigned_commit rid iid url slots caps agreement now @ [(codes_of ''signature'', v)]) ''commit_version'' = VInt 1"
    "card_field (unsigned_invite (codes_of iid) doc key rcaps policy inow @ [(codes_of ''signature'', v)]) ''invite_id'' = VStr (codes_of iid)" for v
    by (simp_all add: card_field_def unsigned_commit_def unsigned_invite_def COMMIT_VERSION_def)
  moreover have "set (map fst (unsigned_commit rid iid url slots caps agreement now @ [(codes_of ''signature'', v)])) = set COMMIT_FIELDS" for v
    by (auto simp: unsigned_commit_def COMMIT_FIELDS_def)
  ultimately show ?thesis
    unfolding assms(1,2) with_signature_def check_commit_shape_def
    using uuid_back [OF assms(3)] by (simp add: py_equal_def COMMIT_VERSION_def del: set_map list.set_map map_append)
qed

lemma ingest_runs:
  assumes "sound_crypto C" "st_crypto E = C" "byte_list (ed_public C isk)" "card_matches_key C icard isk = Inr ()"
    and inv: "invite = with_signature (unsigned_invite (codes_of iid) icard ikey rcaps policy inow) isig"
    and com: "commit = with_signature (unsigned_commit rid iid url slots caps ipub cnow) (ed_sign C isk msg)"
      "restricted_jcs (VObj (unsigned_commit rid iid url slots caps ipub cnow)) = Inr msg"
    and parts: "uuid_matches rid" "normalize_capabilities caps0 = Some caps" "check_slots (VObj slots) = Inr slots"
      "check_relay_url (VStr url) = Inr url" "parse_agreement_key C ipub \<noteq> None"
    and live: "verify_card C (st_now E) icard = Inr ''VALID''"
    and mine: "card_field afs ''capabilities'' = VArr (map VStr acaps)" "set caps \<subseteq> set acaps"
      "parse_agreement_key C akey \<noteq> None" "ref \<noteq> []"
    and time: "in_range \<lfloor>cnow\<rfloor>" "of_int \<lfloor>cnow\<rfloor> \<le> st_now E + 300"
    and free: "rid \<notin> rl_id ` set (relationships (pg_db s))" "(rid, 1) \<notin> key_id ` set (key_epochs (pg_db s))"
  obtains t identity name where "ingest_commit E commit invite akey ref afs s = (Inr rid, t)"
    "pick icard ''identity_id'' = Inr (VStr identity)" "pick icard ''display_name'' = Inr (VStr name)"
    "relationships (pg_db t) = relationships (pg_db s) @ [pending_relationship rid identity name ipub policy]"
    "key_epochs (pg_db t) = key_epochs (pg_db s) @ [first_key rid akey ref]"
proof -
  obtain identity where id: "pick icard ''identity_id'' = Inr (VStr identity)" "identity_key C (VStr identity) = Some (ed_public C isk)"
    using matching_key [OF assms(1,3,4)] by blast
  obtain name where name: "pick icard ''display_name'' = Inr (VStr name)" using valid_card [OF live] by metis
  note ifields = pick_invite [OF inv] and cfields = pick_commit [OF com(1)]
  have sig: "verify_signature C (VStr identity) (VStr (b64url_encode (ed_sign C isk msg))) (without_signature commit) = Inr ()"
    unfolding com(1) by (rule own_signature [OF assms(1) id(2) com(2) unsigned_keys(3)])
  have local: "check_local_caps (VArr (map VStr caps)) afs = Inr ()"
  proof -
    have "card_get afs ''capabilities'' (VArr []) = VArr (map VStr acaps)"
      using mine(1) by (auto simp: card_get_def card_field_def split: option.splits)
    then show ?thesis
      using mine(2) normalized_again [OF parts(2)]
      by (auto simp: check_local_caps_def checked_capabilities_def capability_list_def set_of_values_def iterated_def hashable_def list_all_iff)
  qed
  have key: "inviter_key_of C (VArr [VObj [(codes_of ''epoch'', VInt 1), (codes_of ''agreement_public_key'', VStr ipub)]]) = Inr ipub"
    using parts(5) by (auto simp: inviter_key_of_def epoch_one_keys_def card_field_def py_equal_def agreement_key_def codes_value_def)
  have at_time: "check_committed_at (st_now E) (VStr (codes_of (stamp_text cnow))) = Inr ()"
    using stamp_moment [OF time(1)] time(2)
    by (auto simp: check_committed_at_def moment_def MAX_CLOCK_SKEW_def split: option.splits)
  have checked: "check_commit E commit invite akey ref afs = Inr (rid, icard, ipub)"
    using commit_shape [OF com(1) inv parts(1)] ifields(2) live id(1) sig cfields local mine(3,4) key at_time parts(3,4) assms(2)
    by (simp add: check_commit_def Let_def require_live_card_def)
  have "relationship_of (pg_db s) rid = None" using free(1) by (auto simp: relationship_of_def fetchone_None)
  then have "\<exists>t. ingest_commit E commit invite akey ref afs s = (Inr rid, t) \<and>
      t = s\<lparr>pg_db := (pg_db s)\<lparr>relationships := relationships (pg_db s) @ [pending_relationship rid identity name ipub policy],
        key_epochs := key_epochs (pg_db s) @ [first_key rid akey ref]\<rparr>\<rparr>"
    using checked id(1) name ifields(4) free
    by (simp add: ingest_commit_def prog_run seq_run pick_text_def pairing_txn_def add_relationship_def add_row_def
        pending_relationship_def first_key_def key_id_def ret_def)
  then show ?thesis using that id(1) name by auto
qed

section \<open>The whole run\<close>

lemma displayed_and_confirmed:
  assumes "uuid_matches iid" "invite_of iid s = Some row" "iv_state row = ''issued''"
  obtains s2 s3 v where "record_displayed_phrase E iid x y s = (Inr (), s2)" "confirm_verification E iid x y s2 = (Inr (), s3)"
    "verification_of iid s3 = Some v" "pv_approved v" "pv_inviter v = x" "pv_acceptor v = y" "pg_db s3 = pg_db s"
    "invites s3 = invites s" "invite_bodies s3 = invite_bodies s" "deploy_keys s3 = deploy_keys s"
proof -
  define s2 where "s2 = write_verification E iid x y False s"
  define v where "v = \<lparr>pv_id = iid, pv_inviter = x, pv_acceptor = y, pv_at = stamp_text (st_now E), pv_approved = False\<rparr>"
  have one: "record_displayed_phrase E iid x y s = (Inr (), s2)"
    using assms by (simp add: record_displayed_phrase_def require_id_def prog_run pairing_txn_def s2_def exec_def)
  have row: "verification_of iid s2 = Some v"
    by (simp add: s2_def write_verification_def verification_of_def replace_row_def fetchone_def delete_where_def v_def filter_empty_conv
        del: filter_filter) 
  define s3 where "s3 = pairing_verifications_update (update_where (\<lambda>x. pv_id x = iid)
    (\<lambda>x. x\<lparr>pv_approved := True, pv_at := stamp_text (st_now E)\<rparr>)) s2"
  have two: "confirm_verification E iid x y s2 = (Inr (), s3)"
    using assms(1) row by (simp add: confirm_verification_def require_id_def prog_run pairing_txn_def v_def s3_def exec_def)
  have "verification_of iid s3 = Some (v\<lparr>pv_approved := True, pv_at := stamp_text (st_now E)\<rparr>)"
    using row by (simp add: s3_def verification_of_def fetchone_update_same)
  then show ?thesis
    using that [OF one two] by (simp add: v_def s3_def s2_def write_verification_def)
qed

section \<open>A run over the simplest cryptography\<close>

lemma toy_signed:
  assumes "encodable (VObj fs)" shows "signed toy_crypto sk fs = Inr (with_signature fs (replicate 64 0))"
proof -
  obtain msg where "restricted_jcs (VObj fs) = Inr msg" using jcs_exists [OF assms] by blast
  then show ?thesis by (auto simp: signed_document toy_crypto_def)
qed

lemma toy_signature_plain: "c \<in> set (b64url_encode (replicate 64 0)) \<Longrightarrow> \<not> is_surrogate c"
  using toy_plain by blast

lemma encodable_signed:
  "encodable (VObj fs) \<Longrightarrow> \<forall>e \<in> set fs. fst e \<noteq> codes_of ''signature'' \<Longrightarrow> encodable (with_signature fs (replicate 64 0))"
  using toy_signature_plain by (auto simp: with_signature_def)

lemma stamp_plain: "c \<in> set (format_canonical_utc t) \<Longrightarrow> (of_char c :: nat) < 128"
  using fields_text_ascii by (simp add: format_canonical_utc_def)

lemma plain_point [simp]: "c < 128 \<Longrightarrow> \<not> is_surrogate c" for c :: nat
  by (rule not_surrogate_ascii)

definition toy_key :: codes where
  "toy_key = rp_agreement_key toy_recipient"

definition toy_fields :: "codes \<Rightarrow> fields" where
  "toy_fields name = unsigned_card toy_id name (codes_of ''L'') toy_key [codes_of ''events''] (format_canonical_utc 1000)
     (format_canonical_utc 100000) (replicate 16 1)"

definition toy_card :: "codes \<Rightarrow> jval" where
  "toy_card name = with_signature (toy_fields name) (replicate 64 0)"

lemma toy_texts: "c \<in> set toy_id \<Longrightarrow> \<not> is_surrogate c" "c \<in> set toy_key \<Longrightarrow> \<not> is_surrogate c"
  "c \<in> set (b64url_encode (replicate 16 1)) \<Longrightarrow> \<not> is_surrogate c"
proof -
  show "c \<in> set toy_id \<Longrightarrow> \<not> is_surrogate c" "c \<in> set toy_key \<Longrightarrow> \<not> is_surrogate c"
    by (auto simp: toy_id_def toy_key_def toy_recipient_def is_surrogate_def)
  have "byte_list (replicate 16 1)" by (simp add: byte_list_def)
  then show "c \<in> set (b64url_encode (replicate 16 1)) \<Longrightarrow> \<not> is_surrogate c" using b64url_encode_plain by blast
qed

lemma toy_fields_encodable: "\<forall>c \<in> set name. \<not> is_surrogate c \<Longrightarrow> encodable (VObj (toy_fields name))"
  using toy_texts stamp_plain
  by (auto simp: toy_fields_def unsigned_card_def CARD_VERSION_def SAFE_INT_MIN_def SAFE_INT_MAX_def)

lemma toy_values: "ed_sign toy_crypto sk m = replicate 64 0" "ed_public toy_crypto sk = replicate 32 5" "x_public toy_crypto sk = replicate 32 9"
  "sha256 toy_crypto m = [0]" "schema_error toy_crypto n v = None"
  by (simp_all add: toy_crypto_def)

lemma toy_in_range:
  assumes "0 \<le> t" "t \<le> 1000000" shows "in_range t"
proof -
  have "(1000000 :: int) \<le> max_instant" by (simp add: max_instant_value days_before_year_def)
  then show ?thesis using assms by (simp add: in_range_def)
qed

lemma toy_card_made:
  assumes "\<forall>c \<in> set name. \<not> is_surrogate c" "name \<noteq> []"
  shows "create_card toy_crypto (replicate 16 1) sk name (codes_of ''L'') toy_key [codes_of ''events''] (format_canonical_utc 1000)
     (format_canonical_utc 100000) = Inr (toy_card name)"
proof -
  have "normalize_capabilities [codes_of ''events''] = Some [codes_of ''events'']" by code_simp
  moreover have "identity_id_from_pubkey toy_crypto (ed_public toy_crypto sk) = Some toy_id"
    by (simp add: identity_id_from_pubkey_def toy_crypto_def toy_id_def IDENTITY_ID_PREFIX_def RAW_PUBKEY_LEN_def MULTICODEC_ED25519_def)
  moreover have "parse_agreement_key toy_crypto toy_key \<noteq> None"
    by (simp add: toy_key_def toy_recipient_def parse_agreement_key_def decode_multicodec_def toy_crypto_def AGREEMENT_KEY_PREFIX_def
        MULTICODEC_X25519_def RAW_PUBKEY_LEN_def)
  moreover obtain msg where "restricted_jcs (VObj (toy_fields name)) = Inr msg"
    using jcs_exists [OF toy_fields_encodable [OF assms(1)]] by blast
  moreover have "parse_canonical_utc (format_canonical_utc 1000) = Inr 1000" "parse_canonical_utc (format_canonical_utc 100000) = Inr 100000"
    by (simp_all add: parse_format toy_in_range)
  ultimately show ?thesis
    using assms(2) by (simp add: create_card_def toy_fields_def toy_card_def with_signature_def MAX_CARD_LIFETIME_def toy_values)
qed

lemma toy_card_valid:
  assumes "\<forall>c \<in> set name. \<not> is_surrogate c" "name \<noteq> []" "1000 \<le> now + 300" "now < 100000"
  shows "verify_card toy_crypto now (toy_card name) = Inr ''VALID''"
  by (rule created_card_verifies [OF toy_sound _ _ _ toy_card_made [OF assms(1,2)] parse_format parse_format])
    (use assms(3,4) in \<open>simp_all add: byte_list_def CARD_NONCE_BYTES_def toy_values toy_in_range\<close>)

text \<open>The documents of the run, made at 2000, 2100 and 2200 seconds.\<close>

definition run_invite_id :: str where
  "run_invite_id = ''00000000-0000-4000-8000-000000000001''"

definition run_rel_id :: str where
  "run_rel_id = ''00000000-0000-4000-8000-000000000002''"

definition run_wish :: "codes list" where
  "run_wish = [codes_of ''events'']"

definition run_hash :: codes where
  "run_hash = b64url_encode [0]"

definition run_site :: "rat \<Rightarrow> site" where
  "run_site now = \<lparr>st_crypto = toy_crypto, st_now = now, st_unlinks = True, st_wipes = True\<rparr>"

definition run_inviter :: jval where "run_inviter = toy_card (codes_of ''A'')"

definition run_acceptor :: jval where "run_acceptor = toy_card (codes_of ''B'')"

definition run_deploy :: codes where "run_deploy = codes_of ''ssh-ed25519 AAAA''"

definition run_invite_fields :: fields where
  "run_invite_fields = unsigned_invite (codes_of run_invite_id) run_inviter toy_key run_wish (VObj []) 2000"

definition run_invite :: jval where
  "run_invite = with_signature run_invite_fields (replicate 64 0)"

definition run_answer_fields :: fields where
  "run_answer_fields = unsigned_acceptance (VStr (codes_of run_invite_id)) run_hash run_acceptor toy_key run_deploy 2100"

definition run_answer :: jval where
  "run_answer = with_signature run_answer_fields (replicate 64 0)"

definition run_slots :: fields where
  "run_slots = [(codes_of ''inviter_send_slot'', VStr (codes_of ''a'')), (codes_of ''inviter_receive_slot'', VStr (codes_of ''b''))]"

definition run_request :: commit_request where
  "run_request = \<lparr>cq_acceptance = run_answer, cq_relay = VStr (codes_of ''git@x''), cq_slots = VObj run_slots,
     cq_capabilities = run_wish, cq_keys_dir = ''k'', cq_rel = Some run_rel_id, cq_fresh = run_rel_id,
     cq_secret = [3], cq_claim = True\<rparr>"

definition run_plan :: commit_plan where
  "run_plan = \<lparr>cp_invite = run_invite_id, cp_slots = run_slots, cp_url = codes_of ''git@x'', cp_caps = run_wish,
     cp_rel = run_rel_id, cp_public = toy_key, cp_path = pairing_key_path ''k'' run_rel_id\<rparr>"

definition fresh_store :: pairing where
  "fresh_store = \<lparr>pg_db = empty_db, invites = [], invite_bodies = [], pairing_acceptances = [], pairing_verifications = [], deploy_keys = []\<rparr>"

lemma run_ids: "uuid_matches run_invite_id" "uuid_matches run_rel_id"
  by (unfold run_invite_id_def run_rel_id_def) code_simp+

lemma run_caps: "normalize_capabilities run_wish = Some run_wish"
  unfolding run_wish_def by code_simp

lemma run_agreement: "agreement_text toy_crypto sk = Inr toy_key" "parse_agreement_key toy_crypto toy_key \<noteq> None"
  by (simp_all add: agreement_text_def agreement_key_multibase_from_pubkey_def toy_values toy_key_def toy_recipient_def
      RAW_PUBKEY_LEN_def AGREEMENT_KEY_PREFIX_def MULTICODEC_X25519_def parse_agreement_key_def decode_multicodec_def)
    (simp_all add: toy_crypto_def RAW_PUBKEY_LEN_def)

lemma codes_plain: "c \<in> set (codes_of s) \<Longrightarrow> \<forall>d \<in> set s. (of_char d :: nat) < 128 \<Longrightarrow> \<not> is_surrogate c"
  by auto

lemma run_card_encodable: "encodable run_inviter" "encodable run_acceptor"
proof -
  have "encodable (toy_card name)" if "\<forall>c \<in> set name. \<not> is_surrogate c" for name
    unfolding toy_card_def by (rule encodable_signed [OF toy_fields_encodable [OF that]]) (simp add: toy_fields_def unsigned_card_def)
  then show "encodable run_inviter" "encodable run_acceptor" by (simp_all add: run_inviter_def run_acceptor_def)
qed

lemma stamp_codes: "c \<in> set (codes_of (stamp_text t)) \<Longrightarrow> \<not> is_surrogate c"
  using stamp_plain codes_plain by (fastforce simp: stamp_text_def)

lemma run_key_plain: "c \<in> set toy_key \<Longrightarrow> \<not> is_surrogate c" "c \<in> set (codes_of run_invite_id) \<Longrightarrow> \<not> is_surrogate c"
  "c \<in> set (codes_of run_rel_id) \<Longrightarrow> \<not> is_surrogate c"
  using toy_texts(2) codes_plain uuid_ascii run_ids by blast+

lemma run_fields_encodable:
  "encodable (VObj run_invite_fields)" "encodable (VObj run_answer_fields)"
  "encodable (VObj (unsigned_commit run_rel_id run_invite_id (codes_of ''git@x'') run_slots run_wish toy_key 2200))"
proof -
  show "encodable (VObj run_invite_fields)"
    using stamp_codes run_key_plain run_card_encodable
    by (auto simp: run_wish_def run_invite_fields_def unsigned_invite_def INVITE_VERSION_def SAFE_INT_MIN_def SAFE_INT_MAX_def)
  have "c \<in> set run_hash \<Longrightarrow> \<not> is_surrogate c" for c using b64url_encode_plain [of "[0]" c] by (simp add: byte_list_def run_hash_def)
  then show "encodable (VObj run_answer_fields)"
    using stamp_codes run_key_plain run_card_encodable
    by (auto simp: run_answer_fields_def unsigned_acceptance_def ACCEPTANCE_VERSION_def SAFE_INT_MIN_def SAFE_INT_MAX_def run_deploy_def)
  show "encodable (VObj (unsigned_commit run_rel_id run_invite_id (codes_of ''git@x'') run_slots run_wish toy_key 2200))"
    using stamp_codes run_key_plain
    by (auto simp: run_wish_def unsigned_commit_def COMMIT_VERSION_def SAFE_INT_MIN_def SAFE_INT_MAX_def run_slots_def)
qed

lemma run_cards:
  "1000 \<le> now + 300 \<Longrightarrow> now < 100000 \<Longrightarrow> verify_card toy_crypto now run_inviter = Inr ''VALID''"
  "1000 \<le> now + 300 \<Longrightarrow> now < 100000 \<Longrightarrow> verify_card toy_crypto now run_acceptor = Inr ''VALID''"
  "card_matches_key toy_crypto run_inviter sk = Inr ()" "card_matches_key toy_crypto run_acceptor sk = Inr ()"
  "fingerprint toy_crypto run_inviter = Inr (hex_text [0])" "fingerprint toy_crypto run_acceptor = Inr (hex_text [0])"
proof -
  show "1000 \<le> now + 300 \<Longrightarrow> now < 100000 \<Longrightarrow> verify_card toy_crypto now run_inviter = Inr ''VALID''"
    "1000 \<le> now + 300 \<Longrightarrow> now < 100000 \<Longrightarrow> verify_card toy_crypto now run_acceptor = Inr ''VALID''"
    unfolding run_inviter_def run_acceptor_def by (rule toy_card_valid; simp)+
  have own: "identity_id_from_pubkey toy_crypto (ed_public toy_crypto sk) = Some toy_id"
    by (simp add: identity_id_from_pubkey_def toy_crypto_def toy_id_def IDENTITY_ID_PREFIX_def RAW_PUBKEY_LEN_def MULTICODEC_ED25519_def)
  have "card_matches_key toy_crypto (toy_card name) sk = Inr ()" for name
    unfolding card_matches_key_def own by (simp add: toy_card_def with_signature_def toy_fields_def unsigned_card_def card_field_def)
  then show "card_matches_key toy_crypto run_inviter sk = Inr ()" "card_matches_key toy_crypto run_acceptor sk = Inr ()"
    by (simp_all add: run_inviter_def run_acceptor_def)
  obtain m n where "restricted_jcs run_inviter = Inr m" "restricted_jcs run_acceptor = Inr n"
    using run_card_encodable [THEN jcs_exists] by blast
  then show "fingerprint toy_crypto run_inviter = Inr (hex_text [0])" "fingerprint toy_crypto run_acceptor = Inr (hex_text [0])"
    by (simp_all add: fingerprint_def card_fingerprint_def toy_values)
qed

lemma run_made:
  "signed toy_crypto sk run_invite_fields = Inr run_invite" "signed toy_crypto sk run_answer_fields = Inr run_answer"
  "invite_hash toy_crypto run_invite = Inr run_hash"
proof -
  show "signed toy_crypto sk run_invite_fields = Inr run_invite" "signed toy_crypto sk run_answer_fields = Inr run_answer"
    unfolding run_invite_def run_answer_def by (rule toy_signed, rule run_fields_encodable)+
  have "encodable run_invite"
    unfolding run_invite_def by (rule encodable_signed [OF run_fields_encodable(1)]) (unfold run_invite_fields_def, rule unsigned_keys(1))
  then show "invite_hash toy_crypto run_invite = Inr run_hash"
    using jcs_exists by (fastforce simp: invite_hash_def canonical_def toy_values run_hash_def)
qed

lemma run_created:
  "\<exists>s1. create_invite (run_site 2000) run_invite_id run_inviter [1] [3] run_wish (VObj []) fresh_store = (Inr run_invite, s1)"
proof -
  have "build_invite (run_site 2000) run_invite_id run_inviter [1] [3] run_wish (VObj []) = Inr run_invite"
    unfolding build_invite_def Let_def run_site_def site.simps run_caps
    using run_made(1) by (simp add: require_live_card_def run_cards run_agreement run_invite_fields_def [symmetric] validate_def toy_values)
  then show ?thesis by (simp add: create_invite_def prog_run seq_run pairing_txn_def add_row_def fresh_store_def)
qed

lemma run_check: "check_invite_pure toy_crypto 2100 run_invite = Inr ()"
proof -
  obtain msg where "restricted_jcs (VObj run_invite_fields) = Inr msg" using jcs_exists [OF run_fields_encodable(1)] by blast
  then show ?thesis
    by (intro later_check [where sk = "[1]" and msg = msg and now = 2000 and doc = run_inviter and iid = "codes_of run_invite_id"
          and key = toy_key and caps = run_wish and policy = "VObj []", OF toy_sound])
      (simp_all add: run_invite_fields_def run_invite_def toy_values validate_def run_cards toy_in_range byte_list_def)
qed

lemma run_accepted:
  "\<exists>u1. create_acceptance (run_site 2100) run_invite run_acceptor [2] (VStr toy_key) (VStr run_deploy) fresh_store = (Inr run_answer, u1)"
proof -
  have id: "pick run_invite ''invite_id'' = Inr (VStr (codes_of run_invite_id))"
    unfolding run_invite_def run_invite_fields_def by (rule pick_invite(1) [OF refl])
  have material: "reject_private_material (VStr run_deploy) = Inr run_deploy" "reject_private_material (VStr toy_key) = Inr toy_key"
    by (simp_all add: reject_private_material_def run_deploy_def toy_key_def toy_recipient_def PRIVATE_MARKERS_def starts_with_def
      strip_codes_def is_white_def rep)
  have shape: "ssh_pubkey_matches run_deploy"
    by (simp add: ssh_pubkey_matches_def run_deploy_def SSH_ALGORITHMS_def starts_with_def is_key_char_def key_tail_def)
  have "build_acceptance (run_site 2100) run_invite run_acceptor [2] (VStr toy_key) (VStr run_deploy) = Inr run_answer"
    unfolding build_acceptance_def Let_def run_site_def site.simps run_check material id
    using run_made(2) by (simp add: require_live_card_def run_cards run_agreement material shape run_made(3) run_answer_fields_def [symmetric] validate_def toy_values)
  then show ?thesis by (simp add: create_acceptance_def prog_run seq_run pick_text_def id)
qed

lemma run_planned: "plan_commit (run_site 2200) run_request = Inr run_plan"
proof -
  have "pick run_answer ''invite_id'' = Inr (VStr (codes_of run_invite_id))"
    unfolding run_answer_def run_answer_fields_def by (rule pick_acceptance(1) [OF refl])
  moreover have "check_slots (VObj run_slots) = Inr run_slots" "check_relay_url (VStr (codes_of ''git@x'')) = Inr (codes_of ''git@x'')"
    by (unfold run_slots_def) code_simp+
  moreover have "require_id run_rel_id = Inr ()" by (simp add: require_id_def run_ids)
  ultimately show ?thesis
    using run_caps uuid_back [OF run_ids(1)] run_agreement(1)
    by (simp add: plan_commit_def run_request_def run_site_def run_plan_def validate_def toy_values Let_def)
qed


definition run_answerer :: fields where
  "run_answerer = toy_fields (codes_of ''B'') @ [(codes_of ''signature'', VStr (b64url_encode (replicate 64 0)))]"

lemma run_acceptor_fields: "VObj run_answerer = run_acceptor"
  by (simp add: run_answerer_def run_acceptor_def toy_card_def with_signature_def)

lemma run_offers: "offered run_inviter = set run_wish" "offered run_acceptor = set run_wish"
  by (simp_all add: offered_def run_inviter_def run_acceptor_def toy_card_def with_signature_def toy_fields_def unsigned_card_def
      card_field_def capability_list_def run_wish_def)

section \<open>The whole run\<close>

text \<open>C9. An honest ceremony completes. Let the inviter create an invite and the acceptor answer it, over any
  cryptography that keeps its promises. If the humans compare the phrase for exactly these two cards, the
  clocks of the two sides stay within the five minutes that are allowed and the commit happens within the
  fifteen minutes of the invite, all requested capabilities are negotiated and offered by both cards, and
  the ids, the deploy key and the key's file are new, then displaying, confirming, committing and ingesting
  succeed one after the other; and afterwards each store has one more pending relationship, of the same id,
  with the other side's identity, name and agreement key, beside its own first key.
\<close>

theorem honest_run_completes:
  assumes "sound_crypto C" "st_crypto E = C" "st_crypto EA = C" "st_crypto EC = C" "st_crypto EI = C"
    and keys: "byte_list (ed_public C isk)" "byte_list (ed_public C ask)"
    and invited: "create_invite E iid icard isk ephemeral requested policy s = (Inr invite, s1)"
    and accepted: "create_acceptance EA invite (VObj afs) ask (VStr akey) (VStr dkey) u = (Inr acceptance, u1)"
    and request: "cq_acceptance q = acceptance" "cq_claim q" "plan_commit EC q = Inr p" "uuid_matches iid" "uuid_matches (cp_rel p)"
    and caps: "set requested \<subseteq> set (cq_capabilities q)" "set (cq_capabilities q) \<subseteq> offered icard \<inter> offered (VObj afs)"
    and prints: "fingerprint C icard = Inr fi" "fingerprint C (VObj afs) = Inr fa"
    and live: "verify_card C (st_now EC) icard = Inr ''VALID''" "verify_card C (st_now EC) (VObj afs) = Inr ''VALID''"
      "verify_card C (st_now EI) icard = Inr ''VALID''"
    and clocks: "in_range \<lfloor>st_now E\<rfloor>" "in_range (\<lfloor>st_now E\<rfloor> + 900)" "in_range \<lfloor>st_now EA\<rfloor>" "in_range \<lfloor>st_now EC\<rfloor>"
      "st_now E \<le> st_now EA" "of_int \<lfloor>st_now EA\<rfloor> \<le> st_now EC + 300" "st_now EC < of_int (\<lfloor>st_now E\<rfloor> + 900)"
      "of_int \<lfloor>st_now EC\<rfloor> \<le> st_now EI + 300"
    and writable: "signed C isk (unsigned_commit (cp_rel p) iid (cp_url p) (cp_slots p) (cp_caps p) (cp_public p) (st_now EC)) = Inr commit"
    and free: "cp_path p \<notin> fst ` set (key_files (pg_db s))" "cp_rel p \<notin> rl_id ` set (relationships (pg_db s))"
      "(cp_rel p, 1) \<notin> key_id ` set (key_epochs (pg_db s))" "column_text dkey \<notin> dk_key ` set (deploy_keys s)"
      "cp_rel p \<notin> rl_id ` set (relationships (pg_db u))" "(cp_rel p, 1) \<notin> key_id ` set (key_epochs (pg_db u))" "ref \<noteq> []"
  shows "\<exists>s2 s3 s4 u2. record_displayed_phrase EC iid fi fa s1 = (Inr (), s2) \<and> confirm_verification EC iid fi fa s2 = (Inr (), s3) \<and>
    commit_pairing EC isk q s3 = (Inr commit, s4) \<and> ingest_commit EI commit invite akey ref afs u1 = (Inr (cp_rel p), u2) \<and>
    (\<exists>ai an ii nm. pick (VObj afs) ''identity_id'' = Inr (VStr ai) \<and> pick (VObj afs) ''display_name'' = Inr (VStr an) \<and>
      pick icard ''identity_id'' = Inr (VStr ii) \<and> pick icard ''display_name'' = Inr (VStr nm) \<and>
      relationships (pg_db s4) = relationships (pg_db s) @ [pending_relationship (cp_rel p) ai an akey policy] \<and>
      key_epochs (pg_db s4) = key_epochs (pg_db s) @ [first_key (cp_rel p) (cp_public p) (cp_path p)] \<and>
      relationships (pg_db u2) = relationships (pg_db u) @ [pending_relationship (cp_rel p) ii nm (cp_public p) policy] \<and>
      key_epochs (pg_db u2) = key_epochs (pg_db u) @ [first_key (cp_rel p) akey ref])"
proof -
  note crypto = assms(1) and sites = assms(2-5)
  obtain rcaps ikey imsg where rcaps: "normalize_capabilities requested = Some rcaps" and
    i_live: "verify_card C (st_now E) icard = Inr ''VALID''" and i_match: "card_matches_key C icard isk = Inr ()" and
    i_jcs: "restricted_jcs (VObj (unsigned_invite (codes_of iid) icard ikey rcaps policy (st_now E))) = Inr imsg" and
    inv: "invite = with_signature (unsigned_invite (codes_of iid) icard ikey rcaps policy (st_now E)) (ed_sign C isk imsg)" and
    i_valid: "validate C ''invite'' invite = Inr ()" and new: "iid \<notin> iv_id ` set (invites s)" "iid \<notin> fst ` set (invite_bodies s)" and
    s1: "s1 = s\<lparr>invites := invites s @ [\<lparr>iv_id = iid, iv_state = ''issued'', iv_issued = stamp_text (st_now E),
       iv_expires = stamp_text (st_now E + of_int INVITE_LIFETIME)\<rparr>], invite_bodies := invite_bodies s @ [(iid, invite)]\<rparr>"
    by (rule invite_made [OF invited, unfolded sites])
  obtain akey' dkey' hash amsg where texts: "VStr akey = VStr akey'" "VStr dkey = VStr dkey'" and
    agree': "parse_agreement_key C akey' \<noteq> None" and
    deploy': "ssh_pubkey_matches dkey'" "reject_private_material (VStr dkey') = Inr dkey'" and hash: "invite_hash C invite = Inr hash" and
    a_live: "verify_card C (st_now EA) (VObj afs) = Inr ''VALID''" and a_match: "card_matches_key C (VObj afs) ask = Inr ()" and
    a_jcs': "restricted_jcs (VObj (unsigned_acceptance (VStr (codes_of iid)) hash (VObj afs) akey' dkey' (st_now EA))) = Inr amsg" and
    acc': "acceptance = with_signature (unsigned_acceptance (VStr (codes_of iid)) hash (VObj afs) akey' dkey' (st_now EA)) (ed_sign C ask amsg)" and
    a_valid: "validate C ''invite-acceptance'' acceptance = Inr ()" and u1: "pg_db u1 = pg_db u"
    by (rule acceptance_made [OF accepted inv, unfolded sites])
  have same: "akey' = akey" "dkey' = dkey" using texts by simp_all
  note agree = agree' [unfolded same] and deploy = deploy' [unfolded same] and a_jcs = a_jcs' [unfolded same] and acc = acc' [unfolded same]
  let ?row = "\<lparr>iv_id = iid, iv_state = ''issued'', iv_issued = stamp_text (st_now E), iv_expires = stamp_text (st_now E + of_int INVITE_LIFETIME)\<rparr>"
  have none: "filter (\<lambda>r. iv_id r = iid) (invites s) = []" using new(1) by (auto simp: filter_empty_conv)
  have row: "invite_of iid s1 = Some ?row" by (simp add: s1 invite_of_def fetchone_def none)
  have one: "rowcount (\<lambda>r. iv_id r = iid \<and> iv_state r \<in> {''issued''}) (invites s1) = 1"
    using new(1) by (auto simp: s1 rowcount_def filter_empty_conv)
  have body: "map_of (invite_bodies s1) iid = Some invite"
    using iffD2 [OF map_of_eq_None_iff new(2)] by (simp add: s1 map_add_def)
  obtain s2 s3 v where shown: "record_displayed_phrase EC iid fi fa s1 = (Inr (), s2)" "confirm_verification EC iid fi fa s2 = (Inr (), s3)"
    and v: "verification_of iid s3 = Some v" "pv_approved v" "pv_inviter v = fi" "pv_acceptor v = fa"
    and s3: "pg_db s3 = pg_db s1" "invites s3 = invites s1" "invite_bodies s3 = invite_bodies s1" "deploy_keys s3 = deploy_keys s1"
    by (rule displayed_and_confirmed [OF request(4) row invite_row.select_convs(2)])
  have plan: "cp_invite p = iid"
    using plan_invite [OF request(3)] pick_acceptance(1) [OF acc] request(1) uuid_back [OF request(4)] by simp
  note parts = plan_parts [OF request(3)]
  have cset: "set (cp_caps p) = set (cq_capabilities q)" "set rcaps = set requested"
    using normalized_set parts(1) rcaps by blast+
  have early: "of_int \<lfloor>st_now E\<rfloor> \<le> st_now EC + 300"
    using floor_mono [OF clocks(5)] clocks(6) by linarith
  have cards: "fingerprint C (VObj afs) = Inr (pv_acceptor v)" "fingerprint C icard = Inr (pv_inviter v)"
    "set rcaps \<subseteq> set (cp_caps p)" "set (cp_caps p) \<subseteq> offered icard \<inter> offered (VObj afs)"
    using prints v(3,4) caps cset by simp_all
  obtain ai an where peer: "partner_of EC isk acceptance invite (cp_caps p) (Some v) (\<lambda>key. key \<in> dk_key ` set (deploy_keys s)) =
       Inr \<lparr>pt_identity = ai, pt_name = an, pt_deploy = dkey, pt_agreement = akey\<rparr>"
    "pick (VObj afs) ''identity_id'' = Inr (VStr ai)" "pick (VObj afs) ''display_name'' = Inr (VStr an)"
    by (rule partner_found [where used = "\<lambda>key. key \<in> dk_key ` set (deploy_keys s)" and caps = "cp_caps p" and isk = isk,
          OF crypto sites(3) keys(2) a_match i_match inv acc a_jcs hash agree deploy free(4) v(2) cards(1,2) live(2,1) cards(3,4)
          clocks(1,3,5,6)])
  have pure: "check_invite_pure C (st_now EC) invite = Inr ()"
    by (rule later_check [OF crypto keys(1) i_match i_jcs inv i_valid live(1) clocks(1,2) early clocks(7)])
  have stored: "map_of (invite_bodies s3) (cp_invite p) = Some invite" "invite_of (cp_invite p) s3 = Some ?row"
    "rowcount (\<lambda>r. iv_id r = cp_invite p \<and> iv_state r \<in> {''issued''}) (invites s3) = 1"
    using plan body row one s3 by (simp_all add: invite_of_def)
  have checks: "check_invite_pure (st_crypto EC) (st_now EC) invite = Inr ()"
    "partner_of EC isk (cq_acceptance q) invite (cp_caps p) (verification_of (cp_invite p) s3) (\<lambda>key. key \<in> dk_key ` set (deploy_keys s3)) =
       Inr \<lparr>pt_identity = ai, pt_name = an, pt_deploy = dkey, pt_agreement = akey\<rparr>"
    "signed (st_crypto EC) isk (unsigned_commit (cp_rel p) (cp_invite p) (cp_url p) (cp_slots p) (cp_caps p) (cp_public p) (st_now EC)) = Inr commit"
    "pick invite ''requested_policy'' = Inr policy"
    using pure peer(1) writable plan sites(3) request(1) v(1) s3(4) s1 pick_invite(4) [OF inv] by simp_all
  have free3: "cp_path p \<notin> fst ` set (key_files (pg_db s3))" "cp_rel p \<notin> rl_id ` set (relationships (pg_db s3))"
    "(cp_rel p, 1) \<notin> key_id ` set (key_epochs (pg_db s3))"
    "column_text (pt_deploy \<lparr>pt_identity = ai, pt_name = an, pt_deploy = dkey, pt_agreement = akey\<rparr>) \<notin> dk_key ` set (deploy_keys s3)"
    using free s3 s1 by simp_all
  obtain s4 where commit: "commit_pairing EC isk q s3 = (Inr commit, s4)"
    "relationships (pg_db s4) = relationships (pg_db s3) @ [pending_relationship (cp_rel p) ai an akey policy]"
    "key_epochs (pg_db s4) = key_epochs (pg_db s3) @ [first_key (cp_rel p) (cp_public p) (cp_path p)]"
    by (rule commit_runs [OF request(3,2) stored checks free3, unfolded partner.simps])
  obtain cmsg where com: "restricted_jcs (VObj (unsigned_commit (cp_rel p) iid (cp_url p) (cp_slots p) (cp_caps p) (cp_public p) (st_now EC))) = Inr cmsg"
    "commit = with_signature (unsigned_commit (cp_rel p) iid (cp_url p) (cp_slots p) (cp_caps p) (cp_public p) (st_now EC)) (ed_sign C isk cmsg)"
    using writable by (auto simp: signed_document)
  obtain acaps where acaps: "card_field afs ''capabilities'' = VArr (map VStr acaps)" "offered (VObj afs) = set acaps"
    using valid_card [OF live(2)] by (metis jval.inject(6))
  have mine: "set (cp_caps p) \<subseteq> set acaps" "parse_agreement_key C (cp_public p) \<noteq> None"
    "cp_rel p \<notin> rl_id ` set (relationships (pg_db u1))" "(cp_rel p, 1) \<notin> key_id ` set (key_epochs (pg_db u1))"
    using own_agreement [OF crypto] parts(4) sites(3) cards(4) acaps(2) free(5,6) u1 by auto
  obtain u2 ii nm where ingest: "ingest_commit EI commit invite akey ref afs u1 = (Inr (cp_rel p), u2)"
    "pick icard ''identity_id'' = Inr (VStr ii)" "pick icard ''display_name'' = Inr (VStr nm)"
    "relationships (pg_db u2) = relationships (pg_db u1) @ [pending_relationship (cp_rel p) ii nm (cp_public p) policy]"
    "key_epochs (pg_db u2) = key_epochs (pg_db u1) @ [first_key (cp_rel p) akey ref]"
    by (rule ingest_runs [OF crypto sites(4) keys(1) i_match inv com(2,1) request(5) parts(1-3) mine(2) live(3) acaps(1) mine(1) agree
          free(7) clocks(4,8) mine(3,4)])
  show ?thesis
    using shown commit ingest peer(2,3) s3(1) u1 s1 by (intro exI conjI; (assumption | simp))
qed


theorem honest_run_completes_witness:
  "\<exists>s1 s2 s3 s4 u1 u2 commit.
     create_invite (run_site 2000) run_invite_id run_inviter [1] [3] run_wish (VObj []) fresh_store = (Inr run_invite, s1) \<and>
     create_acceptance (run_site 2100) run_invite run_acceptor [2] (VStr toy_key) (VStr run_deploy) fresh_store = (Inr run_answer, u1) \<and>
     record_displayed_phrase (run_site 2200) run_invite_id (hex_text [0]) (hex_text [0]) s1 = (Inr (), s2) \<and>
     confirm_verification (run_site 2200) run_invite_id (hex_text [0]) (hex_text [0]) s2 = (Inr (), s3) \<and>
     commit_pairing (run_site 2200) [1] run_request s3 = (Inr commit, s4) \<and>
     ingest_commit (run_site 2300) commit run_invite toy_key ''k'' run_answerer u1 = (Inr run_rel_id, u2)"
proof -
  obtain s1 u1 where made: "create_invite (run_site 2000) run_invite_id run_inviter [1] [3] run_wish (VObj []) fresh_store = (Inr run_invite, s1)"
    "create_acceptance (run_site 2100) run_invite run_acceptor [2] (VStr toy_key) (VStr run_deploy) fresh_store = (Inr run_answer, u1)"
    using run_created run_accepted by blast
  have signed: "signed toy_crypto [1] (unsigned_commit (cp_rel run_plan) run_invite_id (cp_url run_plan) (cp_slots run_plan) (cp_caps run_plan)
      (cp_public run_plan) (st_now (run_site 2200))) = Inr (with_signature (unsigned_commit (cp_rel run_plan) run_invite_id
      (cp_url run_plan) (cp_slots run_plan) (cp_caps run_plan) (cp_public run_plan) (st_now (run_site 2200))) (replicate 64 0))"
    by (rule toy_signed) (use run_fields_encodable(3) in \<open>simp add: run_plan_def run_site_def run_wish_def\<close>)
  have range: "in_range 2000" "in_range 2900" "in_range 2100" "in_range 2200" by (simp_all add: toy_in_range)
  have sites: "st_crypto (run_site now) = toy_crypto" "st_now (run_site now) = now" for now by (simp_all add: run_site_def)
  have plan: "cp_rel run_plan = run_rel_id" "cp_path run_plan = pairing_key_path ''k'' run_rel_id" by (simp_all add: run_plan_def)
  have request: "cq_acceptance run_request = run_answer" "cq_claim run_request" "cq_capabilities run_request = run_wish"
    by (simp_all add: run_request_def)
  have empty: "key_files (pg_db fresh_store) = []" "relationships (pg_db fresh_store) = []" "key_epochs (pg_db fresh_store) = []"
    "deploy_keys fresh_store = []" by (simp_all add: fresh_store_def empty_db_def)
  note run = honest_run_completes [where C = toy_crypto and E = "run_site 2000" and EA = "run_site 2100" and EC = "run_site 2200"
    and EI = "run_site 2300" and ref = "''k''" and ask = "[2]", OF toy_sound sites(1) sites(1) sites(1) sites(1) _ _ made(1)
    made(2) [folded run_acceptor_fields] request(1,2) run_planned run_ids(1) _ _ _ run_cards(5) run_cards(6) [folded run_acceptor_fields]
    _ _ _ _ _ _ _ _ _ _ _ signed]
  have "\<exists>s2 s3 s4 u2. record_displayed_phrase (run_site 2200) run_invite_id (hex_text [0]) (hex_text [0]) s1 = (Inr (), s2) \<and>
     confirm_verification (run_site 2200) run_invite_id (hex_text [0]) (hex_text [0]) s2 = (Inr (), s3) \<and>
     commit_pairing (run_site 2200) [1] run_request s3 = (Inr (with_signature (unsigned_commit (cp_rel run_plan) run_invite_id
       (cp_url run_plan) (cp_slots run_plan) (cp_caps run_plan) (cp_public run_plan) (st_now (run_site 2200))) (replicate 64 0)), s4) \<and>
     ingest_commit (run_site 2300) (with_signature (unsigned_commit (cp_rel run_plan) run_invite_id (cp_url run_plan) (cp_slots run_plan)
       (cp_caps run_plan) (cp_public run_plan) (st_now (run_site 2200))) (replicate 64 0)) run_invite toy_key ''k'' run_answerer u1 = (Inr run_rel_id, u2)"
    using run by (simp add: toy_values byte_list_def range sites plan request empty run_ids run_cards run_offers run_acceptor_fields) blast
  then show ?thesis using made by blast
qed

end
