(* ===== verification/Spec2Isabelle.thy ===== *)
theory Spec2Isabelle
  imports Delivery Approvals Release Conversations Interactions Sequences Watcher RotationGate RotationKeys RotationCeremony Canonical Outgoing Sending Receive Polling Retention Ceremony HonestRun
begin

text \<open>
  A model in HOL of Muse Agent Social (\<open>src/src/muse_agent_social\<close>), a private messenger for two
  agents that share no server: each side keeps an SQLite database, seals events for its peer, and
  exchanges them as objects of a relay (a directory or a git repository).

  \<^bold>\<open>The parts and how they meet.\<close> A command or the watcher calls a component, which reads and writes
  tables of the database inside transactions. Incoming objects are streamed from a transport by the
  watcher; each accepted event is logged and \<^emph>\<open>projected\<close> into the conversation tables; outgoing
  events are sealed and either uploaded at once or left with the scheduler, whose release function
  hands them to a transport. Human approvals gate what is sent in a human's name, the delivery
  policy decides what is shown, and key rotation changes the keys both sides seal with.

  \<^bold>\<open>Theories and sources.\<close>
  \<^item> \<open>Prelude\<close>: programs that read and write a state and may raise, tables as lists of rows, and the
    rules by which a program preserves a property (\<open>preserves\<close>, \<open>keeps\<close>).
  \<^item> \<open>Store\<close>: the rows of every table the model uses, one record field per table, and transactions
    (\<open>store/db.py\<close>, the DDL of \<open>store/migrations.py\<close> and of the modules that own a table).
  \<^item> \<open>Clock\<close>: canonical UTC texts and the quota helpers (\<open>policy/limits.py\<close>); round trip, order and
    bounds of texts and moments, the acceptance window.
  \<^item> \<open>Delivery\<close>, \<open>Approvals\<close>: the receiver's policy document (\<open>policy/delivery.py\<close>) and the single-use
    approvals (\<open>model/approvals.py\<close>).
  \<^item> \<open>Retention\<close>: the plaintext cache as a tree of files (\<open>policy/retention.py\<close>); a purge is invisible to
    readers and leaves only what an opt-in in force covers.
  \<^item> \<open>Scheduler\<close>: scheduling, cancellation and the run over due rows (\<open>scheduler.py\<close>), with the locale
    \<open>release_contract\<close> for the release function it is given; \<open>SchedulerRuns\<close> extends it by the function's
    refusals and tells exactly what a run makes of each row and reports; \<open>Release\<close> interprets both on
    the function of \<open>cli.py\<close>. The lemmas show that rows move only along the state machine, that a failing
    row stops no other, and that a cancelled row is never sent.
  \<^item> \<open>Transport\<close>: object names and sizes, the directory relay, the mutation queue of the git relay and
    the bounded stream (\<open>transports/\<close>); both relays hold the same objects.
  \<^item> \<open>Projections\<close> and \<open>Rebuild\<close>: every event handler, the dispatch, cursors and gaps, pending
    references, rebuild, expiry and the queries (\<open>store/projections.py\<close>). \<open>ProjectionInv\<close> has the
    locales \<open>projection_invariant\<close> and \<open>rebuild_invariant\<close>, the contract between an invariant and the
    writes of the handlers (SQLite's refusals are branches of the INSERTs \<open>insert_message\<close>, \<open>insert_revision\<close>
    and \<open>insert_key_event\<close>, where no handler forestalls them); \<open>Conversations\<close>, \<open>Interactions\<close> and \<open>Sequences\<close> interpret them: what message
    revisions, reactions, polls, attestations, tasks and gaps are, whatever the peer sends.
  \<^item> \<open>Watcher\<close>: one poll cycle (\<open>watcher.py\<close>) over the services it is given, with the locale \<open>streaming\<close>
    interpreted for both transports; when the checkpoint moves, and the exit codes.
  \<^item> \<open>Rotation\<close>: both sides of the key rotation, the gate for unknown epochs, the quarantine and the
    sweep (\<open>crypto/rotation.py\<close>). \<open>RotationGate\<close> has the locales \<open>gate_invariant\<close> and
    \<open>full_gate_invariant\<close> for what survives any history of rotation operations: the caps of the
    gate's tables and the permanence of a rejection, which only a prepare of the relationship undoes that
    makes an epoch as high known.
  \<^item> \<open>RotationKeys\<close> and \<open>RotationCeremony\<close>: no history of rotation operations loses the only private key,
    and a ceremony between two sides in agreement ends in agreement on the new epoch.
  \<^item> \<open>Canonical\<close> and \<open>Sealing\<close>: the canonical JSON form and its strict parser (\<open>canonical.py\<close>), sealing and
    unsealing (\<open>crypto/sealing.py\<close>, the key identifiers of \<open>crypto/identity.py\<close>) over the primitives as
    a record \<open>crypto\<close> of parameters; both are round trips. \<open>sound_crypto\<close> is what the primitives
    promise, and \<open>toy_crypto\<close> shows that the promises can be kept together.
  \<^item> \<open>Outgoing\<close>: headers, the reply rule, numbering, sealing and persisting in one transaction with the
    claim of an approval (\<open>model/events.py\<close>). \<open>Sending\<close>: \<open>_send_event\<close> of \<open>cli.py\<close>, from the send gate over
    the dry run to the release of what is due.
  \<^item> \<open>Cards\<close>: agent cards (\<open>model/cards.py\<close>), the eight-word phrase (\<open>crypto/words.py\<close>) and the rotation of
    an identity key (\<open>crypto/rotation.py\<close>); what is made verifies, and the phrase is symmetric.
  \<^item> \<open>Pairing\<close>: invites, acceptances, the verification by humans, the commit and its ingestion
    (\<open>model/invites.py\<close>), over the state database with the tables of the ceremony beside it.
    \<open>Ceremony\<close>: a commit pairs with exactly what the humans verified or ends at most its own invite, and an
    invite serves one commit whatever the history of operations. \<open>HonestRun\<close>: two honest sides
    complete, and their relationships mirror each other.
  \<^item> \<open>Receive\<close>: \<open>_receive_object_inner\<close> of \<open>cli.py\<close>, with the keys an object is tried with, the nonce, the
    window, the quota, the receive commit, the projection, the rotation of the peer's identity and
    the hooks; the commit is complete or nothing, and the log gains only what passed every check.
    \<open>Polling\<close>: the handlers of \<open>_receive_object\<close>, the reconciliation, the pruning of nonces, and
    \<open>_receive_relationship\<close>, which gives \<open>Watcher\<close> its callbacks; retries end, and a nonce is forgotten
    only when the window refuses its event.

  \<^bold>\<open>Conventions.\<close> A raise is a value: \<open>Inl\<close> with the exception, beside the state left behind. The
  clock, random draws, hashes and key generation are arguments. Loops are recursions over the rows
  fetched before the loop, as in the code; no fuel is used anywhere and every function of the code is
  total. Only the repeated polls of one object, whose end is a property, are a partial function.
  Calendar texts cover the years 1 to 9999.

  \<^bold>\<open>Not modelled.\<close> The cryptographic primitives, JSON schema checking, running git, file modes and
  wiping, signals and the terminal output of the commands: they are third-party code or the
  operating system. Concurrency of several processes appears where the code handles it (a busy lock,
  an upload between two calls of a cycle), not inside an SQLite transaction, which is atomic. Also absent:
  Python's RecursionError on deeply nested values (\<open>canonical.py\<close>); the ValueError of AESGCM for an
  unwrapped content key of another length than the sender's (\<open>crypto/sealing.py\<close>), which the model
  counts among the bodies that do not open; and exceptions of the transports other than
  \<open>TransportError\<close>, which leave a watcher cycle without an exit code. Of
  \<open>cli.py\<close> the commands, the loading of an installation, the attachments on disk and the rotation of
  one's own identity are left out: they parse arguments, print, and move files. Of the pairing
  ceremony only the writing of an invite to a file is left out; whether the operating system unlinks
  and overwrites a key file is a parameter of its \<open>site\<close>. \<open>teardown.py\<close>, the migration from v0.1 and its
  adapter but for the pruning of the replay guard, and the configuration file are not modelled; the
  receive pipeline takes the adapter as a parameter.
\<close>

end
